(* ===== verification/Prelude.thy ===== *)
theory Prelude
  imports
    Main
    "HOL-Library.List_Lexorder"
    "HOL-Library.Char_ord"
    "HOL-Library.Product_Lexorder"
    "HOL-Library.Option_ord"
    "HOL-Library.AList"
begin

text \<open>
  What every component shares: the exceptions as values, the result type and its
  sequencing, Python's string and container idioms (\<open>strip\<close>, \<open>upper\<close>,
  \<open>tuple(sorted(set(xs)))\<close>, dictionaries in insertion order), the identifier patterns
  of the data models, and the canonical JSON text that every hash of the program is taken
  over. A string is a list of characters, which stand for the code points below 256; \<open>upper\<close> and
  \<open>casefold\<close>, which may leave that range, are given on ASCII letters, the only ones the names they
  are applied to are expected to have. SHA-256 is the parameter
  \<open>H\<close>, a function from the hashed text to its hexadecimal digest.
\<close>

named_theorems model_simps
named_theorems validators

section \<open>Exceptions and results\<close>

text \<open>The reason codes of \<open>models.py\<close>, which two of the exceptions carry.\<close>

datatype reason_code =
    DIRECT_SENSITIVE_LINKAGE
  | COMPOSITIONAL_REIDENTIFICATION_RISK
  | CUMULATIVE_DISCLOSURE_RISK
  | DISCLOSURE_STATE_UNAVAILABLE
  | SMALL_GROUP_RISK
  | UNTRUSTED_SUBJECT_KEY
  | UNRESOLVED_DATASET
  | UNRESOLVED_COLUMN
  | UNCLASSIFIED_COLUMN
  | UNSUPPORTED_STATEMENT
  | MULTIPLE_STATEMENTS
  | AMBIGUOUS_COLUMN
  | QUERY_COMPLEXITY_LIMIT
  | RESULT_SIZE_LIMIT
  | DATAHUB_UNAVAILABLE
  | DATAHUB_CONTEXT_STALE
  | DATAHUB_CONTEXT_DRIFT
  | REWRITE_FAILED
  | VERIFICATION_FAILED
  | NO_COMPOSITIONAL_RISK

datatype error =
    ValueError string
  | ValidationError string
  | KeyError string
  | AssertionError string
  | AttributeError string
  | StopIteration string
  | DisclosureCompositionError string
  | DisclosureLedgerError string
  | DisclosureLedgerConflict string
  | DisclosureCommitmentReplay string
  | DisclosureLedgerIntegrityError string
  | SqliteIntegrityError string
  | DisclosureTwinError string
  | FutureActionGrammarError string
  | FutureActionTransitionError string
  | PpmcError string
  | PolicyOracleError string
  | PolicyOracleSemanticError string
  | DisclosureSemanticError string
  | SqlAnalysisError reason_code string
  | ExecutionError reason_code string
  | RewriteError string
  | FileNotFoundError string
  | FileExistsError string
  | OverflowError string
  | AuthenticationError string
  | AuthorizationError string
  | GovernanceContextError string
  | GovernanceContextStaleError string
  | GovernanceContextDriftError string
  | ExecutionAuthorizationError string
  | CpccError string
  | CpccCompileError string
  | CpccFullValidationError string
  | EvidenceResolutionError string
  | DataHubEvidenceError string
  | DataHubDerivationValidationError string

type_synonym 'a result = "error + 'a"

text \<open>Python's class hierarchy: what \<open>except ValueError\<close> and
  \<open>except DisclosureLedgerError\<close> catch.\<close>

fun is_value_error :: "error \<Rightarrow> bool" where
  "is_value_error (ValueError _) = True"
| "is_value_error (ValidationError _) = True"
| "is_value_error (DisclosureCompositionError _) = True"
| "is_value_error (PolicyOracleSemanticError _) = True"
| "is_value_error (DisclosureSemanticError _) = True"
| "is_value_error (SqlAnalysisError _ _) = True"
| "is_value_error (ExecutionError _ _) = True"
| "is_value_error (RewriteError _) = True"
| "is_value_error (AuthenticationError _) = True"
| "is_value_error (AuthorizationError _) = True"
| "is_value_error (CpccCompileError _) = True"
| "is_value_error _ = False"

fun is_ledger_error :: "error \<Rightarrow> bool" where
  "is_ledger_error (DisclosureLedgerError _) = True"
| "is_ledger_error (DisclosureLedgerConflict _) = True"
| "is_ledger_error (DisclosureCommitmentReplay _) = True"
| "is_ledger_error (DisclosureLedgerIntegrityError _) = True"
| "is_ledger_error _ = False"

fun bindr :: "'a result \<Rightarrow> ('a \<Rightarrow> 'b result) \<Rightarrow> 'b result" where
  "bindr (Inl e) f = Inl e"
| "bindr (Inr x) f = f x"

lemma bindr_Inr_iff [simp]:
  "bindr r f = Inr y \<longleftrightarrow> (\<exists>x. r = Inr x \<and> f x = Inr y)"
  by (cases r) auto

lemma bindr_Inl_iff:
  "bindr r f = Inl e \<longleftrightarrow> r = Inl e \<or> (\<exists>x. r = Inr x \<and> f x = Inl e)"
  by (cases r) auto

lemma if_Inl_eq_Inr [simp]: "(if b then Inl e else r) = Inr y \<longleftrightarrow> \<not> b \<and> r = Inr y"
  by simp

lemma case_option_Inl_eq_Inr [simp]:
  "(case x of None \<Rightarrow> Inl e | Some y \<Rightarrow> f y) = Inr z \<longleftrightarrow> (\<exists>y. x = Some y \<and> f y = Inr z)"
  by (cases x) simp_all

text \<open>A chain of guards: the first one that holds raises its exception.\<close>

fun raise_first :: "(bool \<times> error) list \<Rightarrow> 'a \<Rightarrow> 'a result" where
  "raise_first [] x = Inr x"
| "raise_first ((bad, e) # rest) x = (if bad then Inl e else raise_first rest x)"

lemma raise_first_Inr [simp]:
  "raise_first gs x = Inr y \<longleftrightarrow> y = x \<and> (\<forall>(bad, e) \<in> set gs. \<not> bad)"
  by (induction gs x rule: raise_first.induct) auto

lemma raise_first_Inl:
  "raise_first gs x = Inl e \<Longrightarrow> \<exists>bad. (bad, e) \<in> set gs \<and> bad"
  by (induction gs x rule: raise_first.induct) (auto split: if_splits)

lemma raise_first_append:
  "raise_first (gs @ hs) x = bindr (raise_first gs x) (raise_first hs)"
  by (induction gs x rule: raise_first.induct) auto

fun mapr :: "('a \<Rightarrow> 'b result) \<Rightarrow> 'a list \<Rightarrow> 'b list result" where
  "mapr f [] = Inr []"
| "mapr f (x # xs) = bindr (f x) (\<lambda>y. bindr (mapr f xs) (\<lambda>ys. Inr (y # ys)))"

lemma mapr_Inr_iff: "mapr f xs = Inr ys \<longleftrightarrow> list_all2 (\<lambda>x y. f x = Inr y) xs ys"
  by (induction xs arbitrary: ys) (auto simp: list_all2_Cons1)

lemma mapr_append:
  "mapr f (xs @ ys) = bindr (mapr f xs) (\<lambda>us. bindr (mapr f ys) (\<lambda>vs. Inr (us @ vs)))"
proof (induction xs)
  case Nil
  then show ?case by (cases "mapr f ys") simp_all
next
  case (Cons x xs)
  then show ?case
    by (cases "f x"; cases "mapr f xs"; cases "mapr f ys") simp_all
qed

lemma mapr_length: "mapr f xs = Inr ys \<Longrightarrow> length ys = length xs"
  by (auto simp: mapr_Inr_iff dest: list_all2_lengthD)

lemma mapr_map: "(\<And>x. x \<in> set xs \<Longrightarrow> f x = Inr (g x)) \<Longrightarrow> mapr f xs = Inr (map g xs)"
  by (induction xs) auto

lemma mapr_set: "mapr f xs = Inr ys \<Longrightarrow> set ys = {y. \<exists>x \<in> set xs. f x = Inr y}"
  by (induction xs arbitrary: ys) auto

lemma mapr_member: "mapr f xs = Inr ys \<Longrightarrow> y \<in> set ys \<Longrightarrow> \<exists>x \<in> set xs. f x = Inr y"
  by (simp add: mapr_set)

lemma mapr_defined: "mapr f xs = Inr ys \<Longrightarrow> x \<in> set xs \<Longrightarrow> \<exists>y. f x = Inr y"
  by (induction xs arbitrary: ys) auto

lemma mapr_total: "(\<And>x. x \<in> set xs \<Longrightarrow> \<exists>y. f x = Inr y) \<Longrightarrow> \<exists>ys. mapr f xs = Inr ys"
  by (induction xs) force+

lemma mapr_transfer:
  "mapr f xs = Inr ys \<Longrightarrow> (\<And>x y. x \<in> set xs \<Longrightarrow> f x = Inr y \<Longrightarrow> g x = Inr y) \<Longrightarrow> mapr g xs = Inr ys"
  by (induction xs arbitrary: ys) auto

lemma mapr_same: "list_all (\<lambda>x. f x = Inr x) xs \<Longrightarrow> mapr f xs = Inr xs"
  by (induction xs) simp_all

section \<open>Python's strings\<close>

definition ascii_upper :: "char \<Rightarrow> char" where
  "ascii_upper c = (let n = (of_char c :: nat) in if 97 \<le> n \<and> n \<le> 122 then char_of (n - 32) else c)"

definition ascii_lower :: "char \<Rightarrow> char" where
  "ascii_lower c = (let n = (of_char c :: nat) in if 65 \<le> n \<and> n \<le> 90 then char_of (n + 32) else c)"

definition is_space :: "char \<Rightarrow> bool" where
  "is_space c = (let n = (of_char c :: nat) in (9 \<le> n \<and> n \<le> 13) \<or> (28 \<le> n \<and> n \<le> 32) \<or> n = 133 \<or> n = 160)"

definition py_upper :: "string \<Rightarrow> string" where
  "py_upper s = map ascii_upper s"

definition py_casefold :: "string \<Rightarrow> string" where
  "py_casefold s = map ascii_lower s"

definition py_strip :: "string \<Rightarrow> string" where
  "py_strip s = rev (dropWhile is_space (rev (dropWhile is_space s)))"

definition py_or :: "string option \<Rightarrow> string \<Rightarrow> string" where
  "py_or x d = (case x of None \<Rightarrow> d | Some s \<Rightarrow> if s = [] then d else s)"

definition str_join :: "string \<Rightarrow> string list \<Rightarrow> string" where
  "str_join sep xs = (case xs of [] \<Rightarrow> [] | y # ys \<Rightarrow> y @ concat (map (\<lambda>z. sep @ z) ys))"

text \<open>A key built with a separator its first part cannot hold names both parts.\<close>

lemma separator_inj:
  assumes "c \<notin> set u" "c \<notin> set u'" "u @ [c] @ f = u' @ [c] @ f'"
  shows "u = u' \<and> f = f'"
proof -
  have *: "takeWhile (\<lambda>x. x \<noteq> c) (v @ [c] @ g) = v" if "c \<notin> set v" for v g
    using that by (induction v) auto
  from assms have "u = u'" by (metis *)
  with assms(3) show ?thesis by simp
qed

subsection \<open>Identifier patterns of the data models\<close>

definition hex_chars :: string where
  "hex_chars = ''0123456789abcdef''"

definition is_hex :: "nat \<Rightarrow> string \<Rightarrow> bool" where
  "is_hex n s \<longleftrightarrow> length s = n \<and> list_all (\<lambda>c. c \<in> set hex_chars) s"

definition is_sha256 :: "string \<Rightarrow> bool" where
  "is_sha256 s \<longleftrightarrow> is_hex 64 s"

definition opt_all :: "('a \<Rightarrow> bool) \<Rightarrow> 'a option \<Rightarrow> bool" where
  "opt_all p x = (case x of None \<Rightarrow> True | Some y \<Rightarrow> p y)"

definition has_prefix_hex :: "string \<Rightarrow> nat \<Rightarrow> string \<Rightarrow> bool" where
  "has_prefix_hex p n s \<longleftrightarrow> take (length p) s = p \<and> is_hex n (drop (length p) s)"

definition is_alnum :: "char \<Rightarrow> bool" where
  "is_alnum c = (let n = (of_char c :: nat)
     in (48 \<le> n \<and> n \<le> 57) \<or> (65 \<le> n \<and> n \<le> 90) \<or> (97 \<le> n \<and> n \<le> 122))"

definition is_identifier :: "string \<Rightarrow> bool" where
  "is_identifier s = (case s of [] \<Rightarrow> False
     | c # cs \<Rightarrow> is_alnum c \<and> length cs \<le> 127
         \<and> list_all (\<lambda>d. is_alnum d \<or> d \<in> set ''._:@/-'') cs)"

definition len_between :: "nat \<Rightarrow> nat \<Rightarrow> 'a list \<Rightarrow> bool" where
  "len_between lo hi s \<longleftrightarrow> lo \<le> length s \<and> length s \<le> hi"

lemma is_hex_zeros: "is_hex n (replicate n CHR ''0'')"
  by (simp add: is_hex_def hex_chars_def list_all_iff)

text \<open>The same pattern on the bits of a character, for evaluation.\<close>

fun hex_char :: "char \<Rightarrow> bool" where
  "hex_char (Char b0 b1 b2 b3 b4 b5 b6 b7) \<longleftrightarrow> \<not> b7 \<and> b5
     \<and> (if b6 then \<not> b4 \<and> \<not> b3 \<and> (b0 \<or> b1 \<or> b2) \<and> \<not> (b0 \<and> b1 \<and> b2)
        else b4 \<and> (b3 \<longrightarrow> \<not> b2 \<and> \<not> b1))"

lemma is_hex_code [code]: "is_hex n s \<longleftrightarrow> length s = n \<and> list_all hex_char s"
proof -
  have "hex_char c \<longleftrightarrow> c \<in> set hex_chars" for c
  proof (cases c)
    case (Char b0 b1 b2 b3 b4 b5 b6 b7)
    then show ?thesis
      by (cases b0; cases b1; cases b2; cases b3; cases b4; cases b5; cases b6; cases b7)
        (simp_all add: hex_chars_def)
  qed
  then show ?thesis by (simp add: is_hex_def list_all_iff)
qed

lemma opt_all_simps [simp]: "opt_all p None" "opt_all p (Some x) = p x"
  by (simp_all add: opt_all_def)

section \<open>Sorted, duplicate-free tuples\<close>

text \<open>\<open>tuple(sorted(set(xs)))\<close>.\<close>

definition sorted_set :: "'a::linorder list \<Rightarrow> 'a list" where
  "sorted_set xs = sort (remdups xs)"

lemma set_sorted_set [simp]: "set (sorted_set xs) = set xs"
  by (simp add: sorted_set_def)

lemma distinct_sorted_set [simp]: "distinct (sorted_set xs)"
  by (simp add: sorted_set_def)

lemma sorted_sorted_set [simp]: "sorted (sorted_set xs)"
  by (simp add: sorted_set_def)

lemma sorted_set_eq_Nil [simp]: "sorted_set xs = [] \<longleftrightarrow> xs = []"
  using set_sorted_set [of xs] by (metis set_empty)

lemma sorted_set_Nil [simp]: "sorted_set [] = []"
  by (simp add: sorted_set_def)

lemma sorted_set_unique:
  "sorted xs \<Longrightarrow> distinct xs \<Longrightarrow> set xs = set ys \<Longrightarrow> sorted_set ys = xs"
  by (metis distinct_sorted_set set_sorted_set sorted_distinct_set_unique sorted_sorted_set)

lemma sorted_set_cong: "set xs = set ys \<Longrightarrow> sorted_set xs = sorted_set ys"
  by (rule sorted_set_unique) simp_all

lemma sorted_set_idem [simp]: "sorted_set (sorted_set xs) = sorted_set xs"
  by (rule sorted_set_cong) simp

text \<open>The check \<open>xs == tuple(sorted(set(xs)))\<close> of the data models.\<close>

definition canonical :: "'a::linorder list \<Rightarrow> bool" where
  "canonical xs \<longleftrightarrow> xs = sorted_set xs"

lemma canonical_sorted_set [simp]: "canonical (sorted_set xs)"
  by (simp add: canonical_def)

lemma canonical_Nil [simp]: "canonical []"
  by (simp add: canonical_def)

lemma canonical_iff: "canonical xs \<longleftrightarrow> sorted xs \<and> distinct xs"
  by (metis canonical_def distinct_sorted_set sorted_set_unique sorted_sorted_set)

lemma canonical_inj: "canonical xs \<Longrightarrow> canonical ys \<Longrightarrow> set xs = set ys \<Longrightarrow> xs = ys"
  by (simp add: canonical_iff sorted_distinct_set_unique)

lemma canonical_distinct: "canonical xs \<Longrightarrow> distinct xs"
  by (simp add: canonical_iff)


section \<open>Dictionaries in insertion order\<close>

text \<open>A Python dictionary is an association list: storing under a present key replaces its
  value in place, storing under a new key appends, which is \<^const>\<open>AList.update\<close>.\<close>

definition dict_of :: "('v \<Rightarrow> 'k) \<Rightarrow> 'v list \<Rightarrow> ('k \<times> 'v) list" where
  "dict_of key xs = fold (\<lambda>x. AList.update (key x) x) xs []"

definition sorted_values :: "('k::linorder \<times> 'v) list \<Rightarrow> 'v list" where
  "sorted_values d = map (\<lambda>k. the (map_of d k)) (sorted_set (map fst d))"

text \<open>\<open>tuple(d[key] for key in sorted(d))\<close> of the dictionary that indexes \<open>xs\<close>.\<close>

definition by_key :: "('v \<Rightarrow> 'k::linorder) \<Rightarrow> 'v list \<Rightarrow> 'v list" where
  "by_key key xs = sorted_values (dict_of key xs)"

lemma map_of_fold_update:
  "map_of (fold (\<lambda>x. AList.update (key x) x) xs d) k =
     (case filter (\<lambda>x. key x = k) xs of [] \<Rightarrow> map_of d k | ys \<Rightarrow> Some (last ys))"
  by (induction xs arbitrary: d) (auto simp: update_conv' split: list.splits)

lemma map_of_dict_of:
  "map_of (dict_of key xs) k =
     (case filter (\<lambda>x. key x = k) xs of [] \<Rightarrow> None | ys \<Rightarrow> Some (last ys))"
  by (simp add: dict_of_def map_of_fold_update cong: list.case_cong)

lemma map_of_dict_of_Some:
  assumes "map_of (dict_of key xs) k = Some x"
  shows "x \<in> set xs" and "key x = k"
proof -
  from assms have "filter (\<lambda>x. key x = k) xs \<noteq> []" "x = last (filter (\<lambda>x. key x = k) xs)"
    by (auto simp: map_of_dict_of split: list.splits)
  then have "x \<in> set (filter (\<lambda>x. key x = k) xs)" by (metis last_in_set)
  then show "x \<in> set xs" and "key x = k" by auto
qed

lemma fst_set_fold_update:
  "fst ` set (fold (\<lambda>x. AList.update (key x) x) xs d) = key ` set xs \<union> fst ` set d"
  by (induction xs arbitrary: d) (auto simp: dom_update)

lemma keys_dict_of [simp]: "fst ` set (dict_of key xs) = key ` set xs"
  by (simp add: dict_of_def fst_set_fold_update)

lemma map_of_dict_of_key:
  "x \<in> set xs \<Longrightarrow> \<exists>y. map_of (dict_of key xs) (key x) = Some y"
proof -
  assume "x \<in> set xs"
  then have "key x \<in> fst ` set (dict_of key xs)" by simp
  then have "map_of (dict_of key xs) (key x) \<noteq> None" by (simp add: map_of_eq_None_iff)
  then show ?thesis by blast
qed

lemma map_of_dict_of_inj:
  assumes "inj_on key (set xs)" and "x \<in> set xs"
  shows "map_of (dict_of key xs) (key x) = Some x"
proof -
  obtain y where y: "map_of (dict_of key xs) (key x) = Some y"
    using map_of_dict_of_key [OF assms(2)] by blast
  then have "y \<in> set xs" "key y = key x" by (auto dest: map_of_dict_of_Some)
  with assms y show ?thesis by (auto dest: inj_onD)
qed

lemma set_dict_keys_id [simp]: "set (map fst (dict_of (\<lambda>x. x) xs)) = set xs"
  by simp

lemma distinct_fold_update:
  "distinct (map fst d) \<Longrightarrow> distinct (map fst (fold (\<lambda>x. AList.update (key x) (val x)) xs d))"
  by (induction xs arbitrary: d) (auto simp: distinct_update)

lemma distinct_dict_of [simp]: "distinct (map fst (dict_of key xs))"
  by (simp add: dict_of_def distinct_fold_update)

lemma sorted_keys_dict_of: "sorted_set (map fst (dict_of key xs)) = sorted_set (map key xs)"
  by (rule sorted_set_cong) simp

lemma by_key_alt:
  "by_key key xs = map (\<lambda>k. the (map_of (dict_of key xs) k)) (sorted_set (map key xs))"
  by (simp add: by_key_def sorted_values_def sorted_keys_dict_of)

lemma map_key_by_key [simp]: "map key (by_key key xs) = sorted_set (map key xs)"
proof -
  have "key (the (map_of (dict_of key xs) k)) = k" if "k \<in> set (sorted_set (map key xs))" for k
  proof -
    from that obtain x where "x \<in> set xs" "k = key x" by auto
    then obtain y where "map_of (dict_of key xs) k = Some y"
      using map_of_dict_of_key [of x xs key] by auto
    then show ?thesis using map_of_dict_of_Some(2) [of key xs k y] by simp
  qed
  then show ?thesis unfolding by_key_alt map_map comp_def by (rule map_idI)
qed

lemma set_by_key_subset: "set (by_key key xs) \<subseteq> set xs"
proof
  fix y assume "y \<in> set (by_key key xs)"
  then obtain x where x: "x \<in> set xs" and y: "y = the (map_of (dict_of key xs) (key x))"
    by (auto simp: by_key_alt)
  obtain z where "map_of (dict_of key xs) (key x) = Some z"
    using map_of_dict_of_key [OF x] by blast
  with y show "y \<in> set xs" using map_of_dict_of_Some(1) [of key xs "key x" z] by simp
qed

lemma set_by_key:
  assumes "inj_on key (set xs)"
  shows "set (by_key key xs) = set xs"
proof
  show "set xs \<subseteq> set (by_key key xs)"
  proof
    fix x assume "x \<in> set xs"
    then have "the (map_of (dict_of key xs) (key x)) = x"
      by (simp add: map_of_dict_of_inj assms)
    with \<open>x \<in> set xs\<close> show "x \<in> set (by_key key xs)"
      unfolding by_key_alt by force
  qed
qed (rule set_by_key_subset)

lemma canonical_by_key [simp]: "canonical (map key (by_key key xs))"
  by simp

lemma by_key_Nil [simp]: "by_key key [] = []"
  by (simp add: by_key_alt)

lemma by_key_eq_Nil [simp]: "by_key key xs = [] \<longleftrightarrow> xs = []"
  by (simp add: by_key_alt)

lemma inj_on_canonical_map: "canonical (map f xs) \<Longrightarrow> inj_on f (set xs)"
  by (simp add: canonical_iff distinct_map)

lemma canonical_map_inj:
  assumes "canonical (map f xs)" "canonical (map f ys)" "set xs = set ys"
  shows "xs = ys"
proof -
  from assms have "map f xs = map f ys" by (intro canonical_inj) auto
  moreover have "inj_on f (set xs \<union> set ys)"
    using assms by (simp add: inj_on_canonical_map)
  ultimately show ?thesis by (rule map_inj_on)
qed

lemma by_key_canonical:
  assumes "canonical (map key xs)"
  shows "by_key key xs = xs"
proof (rule canonical_map_inj [where f = key])
  show "set (by_key key xs) = set xs"
    using assms by (simp add: inj_on_canonical_map set_by_key)
qed (use assms in simp_all)

lemma by_key_cong:
  assumes "inj_on key (set xs)" and "set xs = set ys"
  shows "by_key key xs = by_key key ys"
  by (rule canonical_map_inj [where f = key]) (use assms in \<open>simp_all add: set_by_key\<close>)

section \<open>Canonical JSON\<close>

text \<open>\<open>JNum\<close> is a number given by its text, for a float.\<close>

datatype json =
    JNull
  | JBool bool
  | JInt int
  | JNum string
  | JStr string
  | JArr "json list"
  | JObj "(string \<times> json) list"

definition hex_digit :: "nat \<Rightarrow> char" where
  "hex_digit n = hex_chars ! (n mod 16)"

definition json_escape :: "char \<Rightarrow> string" where
  "json_escape c =
     (let n = (of_char c :: nat) in
      if c = CHR 0x22 then [CHR 0x5C, CHR 0x22]
      else if c = CHR 0x5C then [CHR 0x5C, CHR 0x5C]
      else if n = 10 then [CHR 0x5C, CHR ''n'']
      else if n = 13 then [CHR 0x5C, CHR ''r'']
      else if n = 9 then [CHR 0x5C, CHR ''t'']
      else if n = 12 then [CHR 0x5C, CHR ''f'']
      else if n = 8 then [CHR 0x5C, CHR ''b'']
      else if 32 \<le> n \<and> n \<le> 126 then [c]
      else [CHR 0x5C, CHR ''u'', CHR ''0'', CHR ''0'', hex_digit (n div 16), hex_digit n])"

lemma json_escape_code [code]:
  "json_escape (Char b0 b1 b2 b3 b4 b5 b6 b7) =
     (if \<not> b7 \<and> (b5 \<or> b6) \<and> \<not> (b0 \<and> b1 \<and> b2 \<and> b3 \<and> b4 \<and> b5 \<and> b6)
         \<and> \<not> (\<not> b0 \<and> b1 \<and> \<not> b2 \<and> \<not> b3 \<and> \<not> b4 \<and> b5 \<and> \<not> b6)
         \<and> \<not> (\<not> b0 \<and> \<not> b1 \<and> b2 \<and> b3 \<and> b4 \<and> \<not> b5 \<and> b6)
      then [Char b0 b1 b2 b3 b4 b5 b6 b7]
      else let c = Char b0 b1 b2 b3 b4 b5 b6 b7; n = (of_char c :: nat) in
        if c = CHR 0x22 then [CHR 0x5C, CHR 0x22]
        else if c = CHR 0x5C then [CHR 0x5C, CHR 0x5C]
        else if n = 10 then [CHR 0x5C, CHR ''n'']
        else if n = 13 then [CHR 0x5C, CHR ''r'']
        else if n = 9 then [CHR 0x5C, CHR ''t'']
        else if n = 12 then [CHR 0x5C, CHR ''f'']
        else if n = 8 then [CHR 0x5C, CHR ''b'']
        else [CHR 0x5C, CHR ''u'', CHR ''0'', CHR ''0'', hex_digit (n div 16), hex_digit n])"
  by (cases b0; cases b1; cases b2; cases b3; cases b4; cases b5; cases b6; cases b7)
    (simp_all add: json_escape_def Let_def)

definition json_quote :: "string \<Rightarrow> string" where
  "json_quote s = CHR 0x22 # concat (map json_escape s) @ [CHR 0x22]"

fun nat_text :: "nat \<Rightarrow> string" where
  "nat_text n = (if n < 10 then [char_of (48 + n)] else nat_text (n div 10) @ [char_of (48 + n mod 10)])"

declare nat_text.simps [simp del]

definition int_text :: "int \<Rightarrow> string" where
  "int_text i = (if i < 0 then CHR ''-'' # nat_text (nat (- i)) else nat_text (nat i))"

text \<open>\<open>json.dumps(payload, sort_keys=True, separators=(",", ":"), ensure_ascii=True)\<close>.\<close>

fun json_dumps :: "json \<Rightarrow> string" where
  "json_dumps JNull = ''null''"
| "json_dumps (JBool b) = (if b then ''true'' else ''false'')"
| "json_dumps (JInt i) = int_text i"
| "json_dumps (JNum t) = t"
| "json_dumps (JStr s) = json_quote s"
| "json_dumps (JArr xs) = ''['' @ str_join '','' (map json_dumps xs) @ '']''"
| "json_dumps (JObj kvs) =
     ''{'' @ str_join '','' (map (\<lambda>(k, t). json_quote k @ '':'' @ t)
        (sort_key fst (map (\<lambda>(k, v). (k, json_dumps v)) kvs))) @ ''}''"

text \<open>\<open>canonical_json_sha256\<close> of \<open>evidence/canonical.py\<close>; \<open>_hash_json\<close> of
  \<open>disclosure/models.py\<close> is the same function.\<close>

definition canonical_json_sha256 :: "(string \<Rightarrow> string) \<Rightarrow> json \<Rightarrow> string" where
  "canonical_json_sha256 H payload = H (json_dumps payload)"

definition jopt :: "('a \<Rightarrow> json) \<Rightarrow> 'a option \<Rightarrow> json" where
  "jopt f x = (case x of None \<Rightarrow> JNull | Some y \<Rightarrow> f y)"

definition jstrs :: "string list \<Rightarrow> json" where
  "jstrs xs = JArr (map JStr xs)"

text \<open>What the program relies on of \<open>hashlib.sha256(...).hexdigest()\<close>: 64 lowercase
  hexadecimal digits.\<close>

definition hex_digest :: "(string \<Rightarrow> string) \<Rightarrow> bool" where
  "hex_digest H \<longleftrightarrow> (\<forall>s. is_sha256 (H s))"

lemma hex_digest_sha256 [intro]: "hex_digest H \<Longrightarrow> is_sha256 (canonical_json_sha256 H j)"
  by (simp add: hex_digest_def canonical_json_sha256_def)

definition zero_sha256 :: string where
  "zero_sha256 = replicate 64 CHR ''0''"

lemma hex_digest_const: "hex_digest (\<lambda>_. zero_sha256)"
  by (simp add: hex_digest_def is_sha256_def is_hex_zeros zero_sha256_def)

end
