(* ===== verification/Domain.thy ===== *)
theory Domain
  imports Prelude
begin

text \<open>
  The domain models of \<open>src/toxicjoin/models.py\<close>: decisions, sensitivity categories,
  reason codes, column references, exposures, governed column context, query plans, policy
  inputs and decisions. A frozen pydantic model is a record; constructing one runs its
  validators, which here are functions returning the model or the raised error.
\<close>

section \<open>Enumerations\<close>

datatype decision = ALLOW | REWRITE | BLOCK

datatype sensitivity_category =
    DIRECT_IDENTIFIER
  | STABLE_PSEUDONYM
  | QUASI_IDENTIFIER
  | SENSITIVE_ATTRIBUTE
  | PUBLIC_OR_LOW_RISK
  | UNCLASSIFIED

fun category_value :: "sensitivity_category \<Rightarrow> string" where
  "category_value DIRECT_IDENTIFIER = ''DIRECT_IDENTIFIER''"
| "category_value STABLE_PSEUDONYM = ''STABLE_PSEUDONYM''"
| "category_value QUASI_IDENTIFIER = ''QUASI_IDENTIFIER''"
| "category_value SENSITIVE_ATTRIBUTE = ''SENSITIVE_ATTRIBUTE''"
| "category_value PUBLIC_OR_LOW_RISK = ''PUBLIC_OR_LOW_RISK''"
| "category_value UNCLASSIFIED = ''UNCLASSIFIED''"

definition SUBJECT_IDENTIFIER_CATEGORIES :: "sensitivity_category list" where
  "SUBJECT_IDENTIFIER_CATEGORIES = [DIRECT_IDENTIFIER, STABLE_PSEUDONYM]"

lemma category_value_inj: "category_value a = category_value b \<longleftrightarrow> a = b"
  by (cases a; cases b) simp_all

fun reason_value :: "reason_code \<Rightarrow> string" where
  "reason_value DIRECT_SENSITIVE_LINKAGE = ''DIRECT_SENSITIVE_LINKAGE''"
| "reason_value COMPOSITIONAL_REIDENTIFICATION_RISK = ''COMPOSITIONAL_REIDENTIFICATION_RISK''"
| "reason_value CUMULATIVE_DISCLOSURE_RISK = ''CUMULATIVE_DISCLOSURE_RISK''"
| "reason_value DISCLOSURE_STATE_UNAVAILABLE = ''DISCLOSURE_STATE_UNAVAILABLE''"
| "reason_value SMALL_GROUP_RISK = ''SMALL_GROUP_RISK''"
| "reason_value UNTRUSTED_SUBJECT_KEY = ''UNTRUSTED_SUBJECT_KEY''"
| "reason_value UNRESOLVED_DATASET = ''UNRESOLVED_DATASET''"
| "reason_value UNRESOLVED_COLUMN = ''UNRESOLVED_COLUMN''"
| "reason_value UNCLASSIFIED_COLUMN = ''UNCLASSIFIED_COLUMN''"
| "reason_value UNSUPPORTED_STATEMENT = ''UNSUPPORTED_STATEMENT''"
| "reason_value MULTIPLE_STATEMENTS = ''MULTIPLE_STATEMENTS''"
| "reason_value AMBIGUOUS_COLUMN = ''AMBIGUOUS_COLUMN''"
| "reason_value QUERY_COMPLEXITY_LIMIT = ''QUERY_COMPLEXITY_LIMIT''"
| "reason_value RESULT_SIZE_LIMIT = ''RESULT_SIZE_LIMIT''"
| "reason_value DATAHUB_UNAVAILABLE = ''DATAHUB_UNAVAILABLE''"
| "reason_value DATAHUB_CONTEXT_STALE = ''DATAHUB_CONTEXT_STALE''"
| "reason_value DATAHUB_CONTEXT_DRIFT = ''DATAHUB_CONTEXT_DRIFT''"
| "reason_value REWRITE_FAILED = ''REWRITE_FAILED''"
| "reason_value VERIFICATION_FAILED = ''VERIFICATION_FAILED''"
| "reason_value NO_COMPOSITIONAL_RISK = ''NO_COMPOSITIONAL_RISK''"

fun decision_value :: "decision \<Rightarrow> string" where
  "decision_value ALLOW = ''ALLOW''"
| "decision_value REWRITE = ''REWRITE''"
| "decision_value BLOCK = ''BLOCK''"

datatype exposure_kind =
    RAW_VALUE
  | TRANSFORMED_RAW_VALUE
  | GROUP_KEY
  | AGGREGATE_OPERAND
  | AGGREGATE_VALUE
  | CONDITIONAL_AGGREGATE
  | FILTER_ONLY
  | JOIN_ONLY
  | NESTED_SCOPE

fun exposure_value :: "exposure_kind \<Rightarrow> string" where
  "exposure_value RAW_VALUE = ''RAW_VALUE''"
| "exposure_value TRANSFORMED_RAW_VALUE = ''TRANSFORMED_RAW_VALUE''"
| "exposure_value GROUP_KEY = ''GROUP_KEY''"
| "exposure_value AGGREGATE_OPERAND = ''AGGREGATE_OPERAND''"
| "exposure_value AGGREGATE_VALUE = ''AGGREGATE_VALUE''"
| "exposure_value CONDITIONAL_AGGREGATE = ''CONDITIONAL_AGGREGATE''"
| "exposure_value FILTER_ONLY = ''FILTER_ONLY''"
| "exposure_value JOIN_ONLY = ''JOIN_ONLY''"
| "exposure_value NESTED_SCOPE = ''NESTED_SCOPE''"

lemma exposure_value_inj: "exposure_value a = exposure_value b \<longleftrightarrow> a = b"
  by (cases a; cases b) simp_all

section \<open>Columns, lineage and exposures\<close>

record column_ref =
  cr_dataset :: string
  cr_field_path :: string
  cr_alias :: "string option"

definition ref_key :: "column_ref \<Rightarrow> string" where
  "ref_key r = cr_dataset r @ ''.'' @ cr_field_path r"

definition validate_column_ref :: "column_ref \<Rightarrow> column_ref result" where
  "validate_column_ref r = raise_first
     [(cr_dataset r = [], ValidationError ''dataset must not be empty''),
      (cr_field_path r = [], ValidationError ''field_path must not be empty'')] r"

record lineage_source =
  ls_ref :: column_ref
  ls_category :: sensitivity_category
  ls_datahub_urn :: "string option"

record projection_exposure =
  pe_output_name :: string
  pe_kind :: exposure_kind
  pe_source_columns :: "column_ref list"

record column_context =
  cc_ref :: column_ref
  cc_category :: sensitivity_category
  cc_datahub_urn :: "string option"
  cc_tags :: "string list"
  cc_glossary_terms :: "string list"
  cc_lineage_sources :: "lineage_source list"
  cc_resolved :: bool

definition validate_column_context :: "column_context \<Rightarrow> column_context result" where
  "validate_column_context c = raise_first
     [(\<not> cc_resolved c \<and> cc_category c \<noteq> UNCLASSIFIED,
         ValidationError ''unresolved columns must use the UNCLASSIFIED category''),
      (\<not> distinct (map (\<lambda>s. ref_key (ls_ref s)) (cc_lineage_sources c)),
         ValidationError ''lineage_sources must not contain duplicate governed columns'')] c"

section \<open>Query plans\<close>

record query_plan =
  qp_statement_type :: string
  qp_source_datasets :: "string list"
  qp_projected_columns :: "column_ref list"
  qp_projected_exposures :: "projection_exposure list"
  qp_referenced_columns :: "column_ref list"
  qp_join_columns :: "column_ref list"
  qp_group_by_columns :: "column_ref list"
  qp_aggregate_functions :: "string list"
  qp_minimum_group_size_present :: "int option"
  qp_minimum_group_size_subject :: "column_ref option"
  qp_is_grouped :: bool
  qp_contains_wildcard :: bool
  qp_analysis_warnings :: "string list"

definition validate_query_plan :: "query_plan \<Rightarrow> query_plan result" where
  "validate_query_plan q =
     (let referenced = map ref_key (qp_referenced_columns q);
          structural = map ref_key
            (qp_projected_columns q @ qp_join_columns q @ qp_group_by_columns q);
          projected = map ref_key (qp_projected_columns q);
          exposure_sources = map ref_key (concat (map pe_source_columns (qp_projected_exposures q)))
      in raise_first
       [(\<not> opt_all (\<lambda>n. 1 \<le> n) (qp_minimum_group_size_present q),
           ValidationError ''minimum_group_size_present must be at least 1''),
        (referenced \<noteq> [] \<and> \<not> set structural \<subseteq> set referenced,
           ValidationError ''referenced_columns must include projected/join/group columns''),
        (projected \<noteq> [] \<and> \<not> set exposure_sources \<subseteq> set projected,
           ValidationError ''projected_exposures must reference projected_columns''),
        ((qp_minimum_group_size_present q = None) \<noteq> (qp_minimum_group_size_subject q = None),
           ValidationError ''minimum_group_size_present and minimum_group_size_subject must be set together'')] q)"

section \<open>Policy inputs and decisions\<close>

record policy_input =
  pi_task_purpose :: string
  pi_query_plan :: query_plan
  pi_projected_context :: "column_context list"
  pi_all_referenced_context :: "column_context list"
  pi_subject_key :: "column_ref option"
  pi_minimum_group_size_present :: "int option"
  pi_upstream_failures :: "reason_code list"

definition validate_policy_input :: "policy_input \<Rightarrow> policy_input result" where
  "validate_policy_input p = raise_first
     [(pi_task_purpose p = [], ValidationError ''task_purpose must not be empty''),
      (\<not> opt_all (\<lambda>n. 1 \<le> n) (pi_minimum_group_size_present p),
         ValidationError ''minimum_group_size_present must be at least 1'')] p"

text \<open>The evidence of a decision is a dictionary of JSON values; \<open>_FrozenDict\<close> and
  \<open>_deep_freeze_policy_evidence\<close> only forbid assignment to it, which values of HOL
  never allow.\<close>

record policy_decision =
  pd_decision :: decision
  pd_reason_codes :: "reason_code list"
  pd_policy_version :: string
  pd_evidence :: "(string \<times> json) list"
  pd_rewrite_required :: bool

definition validate_policy_decision :: "policy_decision \<Rightarrow> policy_decision result" where
  "validate_policy_decision d = raise_first
     [(pd_decision d = REWRITE \<and> \<not> pd_rewrite_required d,
         ValidationError ''REWRITE decisions must set rewrite_required=true''),
      (pd_decision d \<noteq> REWRITE \<and> pd_rewrite_required d,
         ValidationError ''only REWRITE decisions may require a rewrite'')] d"

section \<open>JSON forms\<close>

definition column_ref_json :: "column_ref \<Rightarrow> json" where
  "column_ref_json r = JObj [(''dataset'', JStr (cr_dataset r)),
     (''field_path'', JStr (cr_field_path r)), (''alias'', jopt JStr (cr_alias r))]"

definition lineage_source_json :: "lineage_source \<Rightarrow> json" where
  "lineage_source_json s = JObj [(''ref'', column_ref_json (ls_ref s)),
     (''category'', JStr (category_value (ls_category s))),
     (''datahub_urn'', jopt JStr (ls_datahub_urn s))]"

definition exposure_json :: "projection_exposure \<Rightarrow> json" where
  "exposure_json e = JObj [(''output_name'', JStr (pe_output_name e)),
     (''kind'', JStr (exposure_value (pe_kind e))),
     (''source_columns'', JArr (map column_ref_json (pe_source_columns e)))]"

end
