(* ===== verification/Policy.thy ===== *)
theory Policy
  imports Domain
begin

text \<open>
  The compositional-risk engine of \<open>src/toxicjoin/policy/engine.py\<close>: the configuration,
  the governed subject of a threshold, the semantic projection, the effective categories with
  lineage, and \<open>PolicyEngine.evaluate\<close> with its fixed priority BLOCK, REWRITE, ALLOW. The
  lemmas characterise each outcome and what an ALLOW guarantees.
\<close>

section \<open>Configuration\<close>

record policy_config =
  cfg_version :: string
  cfg_minimum_group_size :: int
  cfg_quasi_identifier_threshold :: int
  cfg_fail_closed :: bool
  cfg_categories :: "sensitivity_category list"

definition validate_policy_config :: "policy_config \<Rightarrow> policy_config result" where
  "validate_policy_config c = raise_first
     [(cfg_version c = [], ValidationError ''version must not be empty''),
      (cfg_minimum_group_size c < 2, ValidationError ''minimum_group_size must be at least 2''),
      (cfg_quasi_identifier_threshold c < 1,
         ValidationError ''quasi_identifier_threshold must be at least 1'')] c"

section \<open>Categories with lineage\<close>

text \<open>\<open>_effective_category_entries\<close>: the keys of an insertion-ordered dictionary of
  (column key, category) pairs, the columns' own before their lineage sources'.\<close>

definition effective_category_entries ::
    "column_context list \<Rightarrow> (string \<times> sensitivity_category) list" where
  "effective_category_entries columns =
     map fst (dict_of (\<lambda>x. x) (concat (map
       (\<lambda>c. (ref_key (cc_ref c), cc_category c)
          # map (\<lambda>s. (ref_key (ls_ref s), ls_category s)) (cc_lineage_sources c)) columns)))"

definition effective_categories :: "column_context list \<Rightarrow> sensitivity_category list" where
  "effective_categories columns = map snd (effective_category_entries columns)"

definition category_count :: "column_context list \<Rightarrow> sensitivity_category \<Rightarrow> nat" where
  "category_count columns category =
     length (filter (\<lambda>c. c = category) (effective_categories columns))"

text \<open>\<open>_subject_governed_category\<close>.\<close>

definition subject_governed_category :: "policy_input \<Rightarrow> sensitivity_category option" where
  "subject_governed_category inp =
     (case pi_subject_key inp of
        None \<Rightarrow> None
      | Some subject \<Rightarrow>
          (case find (\<lambda>c. ref_key (cc_ref c) = ref_key subject) (pi_all_referenced_context inp) of
             None \<Rightarrow> None
           | Some column \<Rightarrow> if cc_resolved column then Some (cc_category column) else None))"

section \<open>Semantic projection\<close>

definition exposed_value_kinds :: "exposure_kind list" where
  "exposed_value_kinds = [RAW_VALUE, TRANSFORMED_RAW_VALUE, GROUP_KEY, AGGREGATE_OPERAND,
     CONDITIONAL_AGGREGATE, NESTED_SCOPE]"

definition context_by_key :: "policy_input \<Rightarrow> string \<Rightarrow> column_context option" where
  "context_by_key inp = map_of (dict_of (\<lambda>c. ref_key (cc_ref c)) (pi_projected_context inp))"

definition semantic_projected_context :: "policy_input \<Rightarrow> column_context list \<times> bool" where
  "semantic_projected_context inp =
     (let exposures = qp_projected_exposures (pi_query_plan inp) in
      if exposures = [] then (pi_projected_context inp, False)
      else
        let exposed_keys = concat (map (\<lambda>e. map ref_key (pe_source_columns e))
              (filter (\<lambda>e. pe_kind e \<in> set exposed_value_kinds) exposures))
        in (List.map_filter (context_by_key inp) (sorted_set exposed_keys), True))"

definition protected_categories :: "sensitivity_category list" where
  "protected_categories = [DIRECT_IDENTIFIER, STABLE_PSEUDONYM, QUASI_IDENTIFIER,
     SENSITIVE_ATTRIBUTE, UNCLASSIFIED]"

text \<open>\<open>_has_protected_conditional_aggregate\<close>.\<close>

definition has_protected_conditional_aggregate :: "policy_input \<Rightarrow> bool" where
  "has_protected_conditional_aggregate inp =
     list_ex (\<lambda>e. pe_kind e = CONDITIONAL_AGGREGATE \<and>
        list_ex (\<lambda>r. case context_by_key inp (ref_key r) of
            None \<Rightarrow> True
          | Some c \<Rightarrow> \<not> cc_resolved c \<or> cc_category c \<in> set protected_categories
              \<or> list_ex (\<lambda>s. ls_category s \<in> set protected_categories) (cc_lineage_sources c))
          (pe_source_columns e))
       (qp_projected_exposures (pi_query_plan inp))"

section \<open>Evidence\<close>

text \<open>\<open>_lineage_evidence\<close>: a dictionary from column key to its lineage sources.\<close>

definition lineage_evidence :: "column_context list \<Rightarrow> json" where
  "lineage_evidence columns = JObj (fold
     (\<lambda>c. AList.update (ref_key (cc_ref c)) (JArr (map lineage_source_json (cc_lineage_sources c))))
     (filter (\<lambda>c. cc_lineage_sources c \<noteq> []) columns) [])"

definition categories_json :: "sensitivity_category list \<Rightarrow> json" where
  "categories_json cs = jstrs (map category_value cs)"

definition threshold_evidence ::
    "int option \<Rightarrow> column_ref option \<Rightarrow> column_ref option \<Rightarrow> sensitivity_category option
      \<Rightarrow> bool \<Rightarrow> bool \<Rightarrow> (string \<times> json) list" where
  "threshold_evidence threshold expected_subject detected_subject subject_category
      subject_is_governed_identifier threshold_subject_matches =
     [(''detected_minimum_group_size'', jopt JInt threshold),
      (''expected_subject_key'', jopt (\<lambda>r. JStr (ref_key r)) expected_subject),
      (''detected_threshold_subject'', jopt (\<lambda>r. JStr (ref_key r)) detected_subject),
      (''subject_governed_category'', jopt (\<lambda>c. JStr (category_value c)) subject_category),
      (''subject_is_governed_identifier'', JBool subject_is_governed_identifier),
      (''threshold_subject_matches'', JBool threshold_subject_matches)]"

definition decision_evidence ::
    "policy_input \<Rightarrow> sensitivity_category list \<Rightarrow> sensitivity_category list
      \<Rightarrow> sensitivity_category list \<Rightarrow> sensitivity_category list \<Rightarrow> sensitivity_category list
      \<Rightarrow> sensitivity_category list \<Rightarrow> bool \<Rightarrow> string list \<Rightarrow> nat \<Rightarrow> (string \<times> json) list" where
  "decision_evidence inp categories semantic_categories effective_projected
      effective_semantic referenced effective_referenced semantic_mode unresolved quasi_count =
     [(''projected_categories'', categories_json categories),
      (''semantic_projected_categories'', categories_json semantic_categories),
      (''effective_projected_categories'', categories_json effective_projected),
      (''effective_semantic_projected_categories'', categories_json effective_semantic),
      (''semantic_exposure_mode'', JBool semantic_mode),
      (''projected_exposures'',
         JArr (map exposure_json (qp_projected_exposures (pi_query_plan inp)))),
      (''referenced_categories'', categories_json referenced),
      (''effective_referenced_categories'', categories_json effective_referenced),
      (''lineage_sources'', lineage_evidence (pi_all_referenced_context inp)),
      (''unresolved_columns'', jstrs unresolved),
      (''quasi_identifier_count'', JInt (int quasi_count))]"

section \<open>Evaluation\<close>

definition unresolved_columns :: "policy_input \<Rightarrow> string list" where
  "unresolved_columns inp = map (\<lambda>c. ref_key (cc_ref c))
     (filter (\<lambda>c. \<not> cc_resolved c \<or> cc_category c = UNCLASSIFIED
         \<or> list_ex (\<lambda>s. ls_category s = UNCLASSIFIED) (cc_lineage_sources c))
       (pi_all_referenced_context inp))"

definition risk_categories :: "policy_input \<Rightarrow> sensitivity_category list" where
  "risk_categories inp =
     (let (semantic_context, semantic_mode) = semantic_projected_context inp
      in if semantic_mode then effective_categories semantic_context
         else effective_categories (pi_projected_context inp))"

definition quasi_identifier_count :: "policy_input \<Rightarrow> nat" where
  "quasi_identifier_count inp =
     (let (semantic_context, semantic_mode) = semantic_projected_context inp
      in if semantic_mode then category_count semantic_context QUASI_IDENTIFIER
         else category_count (pi_projected_context inp) QUASI_IDENTIFIER)"

text \<open>The list \<open>block_reasons\<close> that \<open>evaluate\<close> builds before its first return.\<close>

definition block_reasons :: "policy_config \<Rightarrow> policy_input \<Rightarrow> reason_code list" where
  "block_reasons cfg inp =
     (let semantic_mode = snd (semantic_projected_context inp);
          risk = risk_categories inp;
          has_direct = DIRECT_IDENTIFIER \<in> set risk;
          has_pseudonym = STABLE_PSEUDONYM \<in> set risk;
          has_sensitive = SENSITIVE_ATTRIBUTE \<in> set risk
      in pi_upstream_failures inp
         @ (if unresolved_columns inp \<noteq> [] \<and> cfg_fail_closed cfg then [UNCLASSIFIED_COLUMN] else [])
         @ (if semantic_mode \<and> cfg_fail_closed cfg
               \<and> list_ex (\<lambda>e. pe_kind e = NESTED_SCOPE) (qp_projected_exposures (pi_query_plan inp))
            then [UNRESOLVED_COLUMN] else [])
         @ (if has_protected_conditional_aggregate inp
            then [COMPOSITIONAL_REIDENTIFICATION_RISK] else [])
         @ (if has_direct \<and> has_sensitive then [DIRECT_SENSITIVE_LINKAGE] else [])
         @ (if \<not> qp_is_grouped (pi_query_plan inp) \<and> has_pseudonym \<and> has_sensitive
               \<and> (semantic_mode \<or> int (quasi_identifier_count inp) \<ge> cfg_quasi_identifier_threshold cfg)
            then [COMPOSITIONAL_REIDENTIFICATION_RISK] else []))"

definition subject_is_governed_identifier :: "policy_input \<Rightarrow> bool" where
  "subject_is_governed_identifier inp =
     (case subject_governed_category inp of
        None \<Rightarrow> False | Some c \<Rightarrow> c \<in> set SUBJECT_IDENTIFIER_CATEGORIES)"

definition threshold_subject_matches :: "policy_input \<Rightarrow> bool" where
  "threshold_subject_matches inp =
     (case (pi_subject_key inp, qp_minimum_group_size_subject (pi_query_plan inp)) of
        (Some expected, Some detected) \<Rightarrow>
           ref_key expected = ref_key detected \<and> subject_is_governed_identifier inp
      | _ \<Rightarrow> False)"

definition trusted_threshold :: "policy_input \<Rightarrow> int option" where
  "trusted_threshold inp =
     (if threshold_subject_matches inp then pi_minimum_group_size_present inp else None)"

definition below_minimum :: "policy_config \<Rightarrow> int option \<Rightarrow> bool" where
  "below_minimum cfg t = (case t of None \<Rightarrow> True | Some n \<Rightarrow> n < cfg_minimum_group_size cfg)"

definition sensitive_anywhere :: "policy_input \<Rightarrow> bool" where
  "sensitive_anywhere inp \<longleftrightarrow>
     SENSITIVE_ATTRIBUTE \<in> set (effective_categories (pi_all_referenced_context inp))"

definition input_threshold_evidence :: "policy_input \<Rightarrow> (string \<times> json) list" where
  "input_threshold_evidence inp =
     threshold_evidence (pi_minimum_group_size_present inp) (pi_subject_key inp)
       (qp_minimum_group_size_subject (pi_query_plan inp)) (subject_governed_category inp)
       (subject_is_governed_identifier inp) (threshold_subject_matches inp)"

definition block_decision :: "policy_config \<Rightarrow> policy_input \<Rightarrow> policy_decision result" where
  "block_decision cfg inp =
     (let (semantic_context, semantic_mode) = semantic_projected_context inp in
      validate_policy_decision
       \<lparr>pd_decision = BLOCK,
        pd_reason_codes = map fst (dict_of (\<lambda>r. r) (block_reasons cfg inp)),
        pd_policy_version = cfg_version cfg,
        pd_evidence = decision_evidence inp
          (map cc_category (pi_projected_context inp)) (map cc_category semantic_context)
          (effective_categories (pi_projected_context inp)) (effective_categories semantic_context)
          (map cc_category (pi_all_referenced_context inp))
          (effective_categories (pi_all_referenced_context inp))
          semantic_mode (unresolved_columns inp) (quasi_identifier_count inp),
        pd_rewrite_required = False\<rparr>)"

definition untrusted_subject_decision :: "policy_config \<Rightarrow> policy_input \<Rightarrow> policy_decision result" where
  "untrusted_subject_decision cfg inp = validate_policy_decision
     \<lparr>pd_decision = BLOCK, pd_reason_codes = [UNTRUSTED_SUBJECT_KEY],
      pd_policy_version = cfg_version cfg,
      pd_evidence = [(''required_minimum_group_size'', JInt (cfg_minimum_group_size cfg)),
          (''required_subject_categories'',
             jstrs (sort (map category_value SUBJECT_IDENTIFIER_CATEGORIES)))]
        @ input_threshold_evidence inp
        @ [(''lineage_sources'', lineage_evidence (pi_all_referenced_context inp))],
      pd_rewrite_required = False\<rparr>"

definition rewrite_decision :: "policy_config \<Rightarrow> policy_input \<Rightarrow> policy_decision result" where
  "rewrite_decision cfg inp = validate_policy_decision
     \<lparr>pd_decision = REWRITE, pd_reason_codes = [SMALL_GROUP_RISK],
      pd_policy_version = cfg_version cfg,
      pd_evidence = [(''required_minimum_group_size'', JInt (cfg_minimum_group_size cfg))]
        @ input_threshold_evidence inp
        @ [(''projected_exposures'',
             JArr (map exposure_json (qp_projected_exposures (pi_query_plan inp)))),
           (''lineage_sources'', lineage_evidence (pi_all_referenced_context inp)),
           (''effective_referenced_categories'',
             categories_json (effective_categories (pi_all_referenced_context inp)))],
      pd_rewrite_required = True\<rparr>"

definition allow_decision :: "policy_config \<Rightarrow> policy_input \<Rightarrow> policy_decision result" where
  "allow_decision cfg inp =
     (let (semantic_context, semantic_mode) = semantic_projected_context inp in
      validate_policy_decision
       \<lparr>pd_decision = ALLOW, pd_reason_codes = [NO_COMPOSITIONAL_RISK],
        pd_policy_version = cfg_version cfg,
        pd_evidence =
         [(''projected_categories'', categories_json (map cc_category (pi_projected_context inp))),
          (''semantic_projected_categories'', categories_json (map cc_category semantic_context)),
          (''effective_projected_categories'',
             categories_json (effective_categories (pi_projected_context inp))),
          (''effective_semantic_projected_categories'',
             categories_json (effective_categories semantic_context)),
          (''semantic_exposure_mode'', JBool semantic_mode),
          (''projected_exposures'',
             JArr (map exposure_json (qp_projected_exposures (pi_query_plan inp)))),
          (''referenced_categories'',
             categories_json (map cc_category (pi_all_referenced_context inp))),
          (''effective_referenced_categories'',
             categories_json (effective_categories (pi_all_referenced_context inp))),
          (''lineage_sources'', lineage_evidence (pi_all_referenced_context inp)),
          (''trusted_minimum_group_size'', jopt JInt (trusted_threshold inp)),
          (''trusted_threshold_subject'',
             (if threshold_subject_matches inp
              then jopt (\<lambda>r. JStr (ref_key r)) (qp_minimum_group_size_subject (pi_query_plan inp))
              else JNull))]
         @ input_threshold_evidence inp,
        pd_rewrite_required = False\<rparr>)"

text \<open>\<open>PolicyEngine.evaluate\<close>.\<close>

definition evaluate :: "policy_config \<Rightarrow> policy_input \<Rightarrow> policy_decision result" where
  "evaluate cfg inp =
     (if block_reasons cfg inp \<noteq> [] then block_decision cfg inp
      else if qp_is_grouped (pi_query_plan inp) \<and> sensitive_anywhere inp then
        if \<not> subject_is_governed_identifier inp then untrusted_subject_decision cfg inp
        else if below_minimum cfg (trusted_threshold inp) then rewrite_decision cfg inp
        else allow_decision cfg inp
      else allow_decision cfg inp)"


section \<open>The outcome of an evaluation\<close>

lemma evaluate_block_reasons:
  "block_reasons cfg inp \<noteq> [] \<Longrightarrow>
   \<exists>d. evaluate cfg inp = Inr d \<and> pd_decision d = BLOCK \<and> \<not> pd_rewrite_required d
     \<and> set (pd_reason_codes d) = set (block_reasons cfg inp) \<and> distinct (pd_reason_codes d)
     \<and> pd_policy_version d = cfg_version cfg"
  by (simp add: evaluate_def block_decision_def validate_policy_decision_def Let_def
      split: prod.splits)

lemma evaluate_untrusted_subject:
  "block_reasons cfg inp = [] \<Longrightarrow> qp_is_grouped (pi_query_plan inp) \<Longrightarrow> sensitive_anywhere inp \<Longrightarrow>
   \<not> subject_is_governed_identifier inp \<Longrightarrow>
   \<exists>d. evaluate cfg inp = Inr d \<and> pd_decision d = BLOCK \<and> \<not> pd_rewrite_required d
     \<and> pd_reason_codes d = [UNTRUSTED_SUBJECT_KEY] \<and> pd_policy_version d = cfg_version cfg"
  by (simp add: evaluate_def untrusted_subject_decision_def validate_policy_decision_def)

lemma evaluate_rewrite:
  "block_reasons cfg inp = [] \<Longrightarrow> qp_is_grouped (pi_query_plan inp) \<Longrightarrow> sensitive_anywhere inp \<Longrightarrow>
   subject_is_governed_identifier inp \<Longrightarrow> below_minimum cfg (trusted_threshold inp) \<Longrightarrow>
   \<exists>d. evaluate cfg inp = Inr d \<and> pd_decision d = REWRITE \<and> pd_rewrite_required d
     \<and> pd_reason_codes d = [SMALL_GROUP_RISK] \<and> pd_policy_version d = cfg_version cfg"
  by (simp add: evaluate_def rewrite_decision_def validate_policy_decision_def)

lemma evaluate_allow:
  "block_reasons cfg inp = [] \<Longrightarrow>
   \<not> (qp_is_grouped (pi_query_plan inp) \<and> sensitive_anywhere inp)
     \<or> (subject_is_governed_identifier inp \<and> \<not> below_minimum cfg (trusted_threshold inp)) \<Longrightarrow>
   \<exists>d. evaluate cfg inp = Inr d \<and> pd_decision d = ALLOW \<and> \<not> pd_rewrite_required d
     \<and> pd_reason_codes d = [NO_COMPOSITIONAL_RISK] \<and> pd_policy_version d = cfg_version cfg"
  by (auto simp: evaluate_def allow_decision_def validate_policy_decision_def Let_def
      split: prod.splits)

lemmas evaluate_cases =
  evaluate_block_reasons evaluate_untrusted_subject evaluate_rewrite evaluate_allow

text \<open>The three-way decision as a specification, without evidence.\<close>

definition spec_decision :: "policy_config \<Rightarrow> policy_input \<Rightarrow> decision" where
  "spec_decision cfg inp =
     (let threshold_needed = qp_is_grouped (pi_query_plan inp) \<and> sensitive_anywhere inp
      in if block_reasons cfg inp \<noteq> [] \<or> threshold_needed \<and> \<not> subject_is_governed_identifier inp
         then BLOCK
         else if threshold_needed \<and> below_minimum cfg (trusted_threshold inp) then REWRITE
         else ALLOW)"

lemma evaluate_refines_spec:
  "\<exists>d. evaluate cfg inp = Inr d \<and> pd_decision d = spec_decision cfg inp
     \<and> pd_policy_version d = cfg_version cfg \<and> pd_reason_codes d \<noteq> []
     \<and> validate_policy_decision d = Inr d"
proof -
  let ?needed = "qp_is_grouped (pi_query_plan inp) \<and> sensitive_anywhere inp"
  consider (block) "block_reasons cfg inp \<noteq> []"
    | (untrusted) "block_reasons cfg inp = []" ?needed "\<not> subject_is_governed_identifier inp"
    | (rewrite) "block_reasons cfg inp = []" ?needed "subject_is_governed_identifier inp"
        "below_minimum cfg (trusted_threshold inp)"
    | (allow) "block_reasons cfg inp = []"
        "\<not> ?needed \<or> (subject_is_governed_identifier inp \<and> \<not> below_minimum cfg (trusted_threshold inp))"
    by blast
  then show ?thesis
  proof cases
    case block
    then have "spec_decision cfg inp = BLOCK" by (simp add: spec_decision_def)
    moreover from evaluate_block_reasons [OF block] obtain d where
      "evaluate cfg inp = Inr d" "pd_decision d = BLOCK" "\<not> pd_rewrite_required d"
      "set (pd_reason_codes d) = set (block_reasons cfg inp)" "pd_policy_version d = cfg_version cfg"
      by blast
    moreover from this(4) block have "pd_reason_codes d \<noteq> []" by (metis set_empty)
    ultimately show ?thesis by (simp add: validate_policy_decision_def)
  next
    case untrusted
    then have "spec_decision cfg inp = BLOCK" by (simp add: spec_decision_def)
    moreover from untrusted obtain d where
      "evaluate cfg inp = Inr d" "pd_decision d = BLOCK" "\<not> pd_rewrite_required d"
      "pd_reason_codes d = [UNTRUSTED_SUBJECT_KEY]" "pd_policy_version d = cfg_version cfg"
      using evaluate_untrusted_subject [of cfg inp] by blast
    ultimately show ?thesis by (simp add: validate_policy_decision_def)
  next
    case rewrite
    then have "spec_decision cfg inp = REWRITE" by (simp add: spec_decision_def)
    moreover from rewrite obtain d where
      "evaluate cfg inp = Inr d" "pd_decision d = REWRITE" "pd_rewrite_required d"
      "pd_reason_codes d = [SMALL_GROUP_RISK]" "pd_policy_version d = cfg_version cfg"
      using evaluate_rewrite [of cfg inp] by blast
    ultimately show ?thesis by (simp add: validate_policy_decision_def)
  next
    case allow
    then have "spec_decision cfg inp = ALLOW" by (auto simp: spec_decision_def Let_def)
    moreover from evaluate_allow [OF allow] obtain d where
      "evaluate cfg inp = Inr d" "pd_decision d = ALLOW" "\<not> pd_rewrite_required d"
      "pd_reason_codes d = [NO_COMPOSITIONAL_RISK]" "pd_policy_version d = cfg_version cfg"
      by blast
    ultimately show ?thesis by (simp add: validate_policy_decision_def)
  qed
qed

lemma evaluate_decision: "evaluate cfg inp = Inr d \<Longrightarrow> pd_decision d = spec_decision cfg inp"
  using evaluate_refines_spec [of cfg inp] by auto

lemma evaluate_reasons:
  assumes "evaluate cfg inp = Inr d"
  shows "set (pd_reason_codes d) =
    (if block_reasons cfg inp \<noteq> [] then set (block_reasons cfg inp)
     else case spec_decision cfg inp of
         BLOCK \<Rightarrow> {UNTRUSTED_SUBJECT_KEY} | REWRITE \<Rightarrow> {SMALL_GROUP_RISK}
       | ALLOW \<Rightarrow> {NO_COMPOSITIONAL_RISK})"
proof (cases "block_reasons cfg inp = []")
  case False
  with evaluate_block_reasons [OF this] assms show ?thesis by auto
next
  case True
  let ?needed = "qp_is_grouped (pi_query_plan inp) \<and> sensitive_anywhere inp"
  show ?thesis
  proof (cases ?needed)
    case False
    with True assms evaluate_allow [OF True] show ?thesis by (auto simp: spec_decision_def)
  next
    case needed: True
    consider (u) "\<not> subject_is_governed_identifier inp"
      | (r) "subject_is_governed_identifier inp" "below_minimum cfg (trusted_threshold inp)"
      | (a) "subject_is_governed_identifier inp" "\<not> below_minimum cfg (trusted_threshold inp)"
      by blast
    then show ?thesis
    proof cases
      case u
      with True needed assms evaluate_untrusted_subject [of cfg inp] show ?thesis
        by (simp add: spec_decision_def)
    next
      case r
      with True needed assms evaluate_rewrite [of cfg inp] show ?thesis
        by (simp add: spec_decision_def)
    next
      case a
      with True needed assms evaluate_allow [of cfg inp] show ?thesis
        by (simp add: spec_decision_def)
    qed
  qed
qed

section \<open>What enters the risk categories\<close>

lemma set_effective_categories:
  "set (effective_categories columns) =
     (\<Union>c \<in> set columns. insert (cc_category c) (ls_category ` set (cc_lineage_sources c)))"
proof -
  have "set (effective_category_entries columns) =
      (\<Union>c \<in> set columns. insert (ref_key (cc_ref c), cc_category c)
         ((\<lambda>s. (ref_key (ls_ref s), ls_category s)) ` set (cc_lineage_sources c)))"
    unfolding effective_category_entries_def set_dict_keys_id by auto
  then show ?thesis
    unfolding effective_categories_def by (simp add: image_UN image_image)
qed

lemma set_map_filter_Some: "set (List.map_filter f xs) = {y. \<exists>x \<in> set xs. f x = Some y}"
  by (induction xs) (auto simp: map_filter_simps split: option.splits)

lemma semantic_context_member:
  assumes "e \<in> set (qp_projected_exposures (pi_query_plan inp))"
    and "pe_kind e \<in> set exposed_value_kinds"
    and "r \<in> set (pe_source_columns e)"
    and "context_by_key inp (ref_key r) = Some c"
  shows "c \<in> set (fst (semantic_projected_context inp))" and "snd (semantic_projected_context inp)"
  using assms unfolding semantic_projected_context_def Let_def
  by (auto simp: set_map_filter_Some intro!: exI [of _ "ref_key r"])

lemma risk_category_of_exposure:
  assumes "e \<in> set (qp_projected_exposures (pi_query_plan inp))"
    and "pe_kind e \<in> set exposed_value_kinds"
    and "r \<in> set (pe_source_columns e)"
    and "context_by_key inp (ref_key r) = Some c"
    and "k = cc_category c \<or> k \<in> ls_category ` set (cc_lineage_sources c)"
  shows "k \<in> set (risk_categories inp)"
proof -
  from assms(5) have "k \<in> set (effective_categories (fst (semantic_projected_context inp)))"
    using semantic_context_member(1) [OF assms(1-4)]
    by (fastforce simp only: set_effective_categories)
  then show ?thesis
    using semantic_context_member(2) [OF assms(1-4)]
    by (simp add: risk_categories_def split_beta)
qed

lemma find_Some_member: "find P xs = Some x \<Longrightarrow> x \<in> set xs \<and> P x"
  by (auto simp: find_Some_iff)

lemma governed_subjectD:
  assumes "subject_is_governed_identifier inp"
  obtains subject c where "pi_subject_key inp = Some subject"
    "c \<in> set (pi_all_referenced_context inp)" "ref_key (cc_ref c) = ref_key subject"
    "cc_resolved c" "cc_category c \<in> {DIRECT_IDENTIFIER, STABLE_PSEUDONYM}"
  using assms unfolding subject_is_governed_identifier_def subject_governed_category_def
  by (auto simp: SUBJECT_IDENTIFIER_CATEGORIES_def dest!: find_Some_member
      split: option.splits if_splits)

lemma trusted_thresholdD:
  assumes "\<not> below_minimum cfg (trusted_threshold inp)"
  obtains n expected detected where "pi_minimum_group_size_present inp = Some n"
    "cfg_minimum_group_size cfg \<le> n" "pi_subject_key inp = Some expected"
    "qp_minimum_group_size_subject (pi_query_plan inp) = Some detected"
    "ref_key expected = ref_key detected" "subject_is_governed_identifier inp"
  using assms unfolding below_minimum_def trusted_threshold_def threshold_subject_matches_def
  by (auto split: option.splits if_splits)


section \<open>Independence of the order of the resolved context\<close>

lemma category_count_card:
  "category_count columns k = card {e \<in> set (effective_category_entries columns). snd e = k}"
proof -
  have d: "distinct (effective_category_entries columns)"
    by (simp add: effective_category_entries_def)
  have "category_count columns k = length (filter (\<lambda>e. snd e = k) (effective_category_entries columns))"
    by (simp add: category_count_def effective_categories_def filter_map comp_def)
  also have "\<dots> = card (set (filter (\<lambda>e. snd e = k) (effective_category_entries columns)))"
    by (rule distinct_card [symmetric]) (simp add: d)
  finally show ?thesis by simp
qed

lemma effective_category_entries_cong:
  assumes "set xs = set ys"
  shows "set (effective_category_entries xs) = set (effective_category_entries ys)"
  unfolding effective_category_entries_def set_dict_keys_id by (simp add: assms)

lemma category_count_cong: "set xs = set ys \<Longrightarrow> category_count xs k = category_count ys k"
  using effective_category_entries_cong [of xs ys] by (simp add: category_count_card)

lemma set_effective_categories_cong:
  "set xs = set ys \<Longrightarrow> set (effective_categories xs) = set (effective_categories ys)"
  by (simp add: set_effective_categories)

lemma map_of_dict_of_cong:
  assumes "inj_on key (set xs)" and "set xs = set ys"
  shows "map_of (dict_of key xs) = map_of (dict_of key ys)"
proof
  fix k
  show "map_of (dict_of key xs) k = map_of (dict_of key ys) k"
  proof (cases "k \<in> key ` set xs")
    case True
    then obtain x where x: "x \<in> set xs" "k = key x" by auto
    from x assms have "x \<in> set ys" "inj_on key (set ys)" by simp_all
    then show ?thesis using x assms(1) by (simp add: map_of_dict_of_inj)
  next
    case False
    then have "map_of (dict_of key xs) k = None" "map_of (dict_of key ys) k = None"
      using assms(2) by (simp_all add: map_of_eq_None_iff)
    then show ?thesis by simp
  qed
qed

lemma find_cong_set:
  assumes "inj_on key (set xs)" and "set xs = set ys"
  shows "find (\<lambda>x. key x = k) xs = find (\<lambda>x. key x = k) ys"
proof (cases "\<exists>x \<in> set xs. key x = k")
  case True
  then have "\<exists>x \<in> set ys. key x = k" using assms(2) by simp
  with True obtain a b where "find (\<lambda>x. key x = k) xs = Some a" "find (\<lambda>x. key x = k) ys = Some b"
    by (meson find_None_iff option.exhaust)
  moreover from this have "a \<in> set xs" "b \<in> set xs" "key a = key b"
    using assms(2) by (auto dest!: find_Some_member)
  then have "a = b" using assms(1) by (auto dest: inj_onD)
  ultimately show ?thesis by simp
next
  case False
  then have "find (\<lambda>x. key x = k) xs = None" "find (\<lambda>x. key x = k) ys = None"
    using assms(2) by (simp_all add: find_None_iff)
  then show ?thesis by simp
qed

text \<open>The two contexts of an input, permuted; nothing else changes.\<close>

definition same_up_to_order :: "policy_input \<Rightarrow> policy_input \<Rightarrow> bool" where
  "same_up_to_order a b \<longleftrightarrow>
     set (pi_projected_context b) = set (pi_projected_context a)
     \<and> set (pi_all_referenced_context b) = set (pi_all_referenced_context a)
     \<and> pi_query_plan b = pi_query_plan a \<and> pi_subject_key b = pi_subject_key a
     \<and> pi_minimum_group_size_present b = pi_minimum_group_size_present a
     \<and> pi_upstream_failures b = pi_upstream_failures a"

definition contexts_keyed :: "policy_input \<Rightarrow> bool" where
  "contexts_keyed inp \<longleftrightarrow> inj_on (\<lambda>c. ref_key (cc_ref c)) (set (pi_projected_context inp))
     \<and> inj_on (\<lambda>c. ref_key (cc_ref c)) (set (pi_all_referenced_context inp))"

lemma same_up_to_orderD:
  assumes "same_up_to_order a b"
  shows "pi_query_plan b = pi_query_plan a" "pi_subject_key b = pi_subject_key a"
    "pi_minimum_group_size_present b = pi_minimum_group_size_present a"
    "pi_upstream_failures b = pi_upstream_failures a"
    "set (pi_projected_context b) = set (pi_projected_context a)"
    "set (pi_all_referenced_context b) = set (pi_all_referenced_context a)"
  using assms by (simp_all add: same_up_to_order_def)

lemma same_up_to_order_semantic:
  assumes "same_up_to_order a b" and "contexts_keyed a"
  shows "context_by_key b = context_by_key a"
    and "set (risk_categories b) = set (risk_categories a)"
    and "quasi_identifier_count b = quasi_identifier_count a"
    and "snd (semantic_projected_context b) = snd (semantic_projected_context a)"
    and "subject_governed_category b = subject_governed_category a"
    and "unresolved_columns b = [] \<longleftrightarrow> unresolved_columns a = []"
    and "sensitive_anywhere b \<longleftrightarrow> sensitive_anywhere a"
proof -
  note eqs = same_up_to_orderD [OF assms(1)]
  show ctx: "context_by_key b = context_by_key a"
    using assms eqs by (simp add: context_by_key_def contexts_keyed_def
      map_of_dict_of_cong [of _ "pi_projected_context a" "pi_projected_context b"])
  have sem: "semantic_projected_context b = semantic_projected_context a
      \<or> fst (semantic_projected_context b) = pi_projected_context b
        \<and> fst (semantic_projected_context a) = pi_projected_context a
        \<and> \<not> snd (semantic_projected_context b) \<and> \<not> snd (semantic_projected_context a)"
    by (simp add: semantic_projected_context_def eqs ctx Let_def)
  then show "snd (semantic_projected_context b) = snd (semantic_projected_context a)" by auto
  from sem show "set (risk_categories b) = set (risk_categories a)"
    by (auto simp: risk_categories_def split_beta eqs set_effective_categories)
  from sem show "quasi_identifier_count b = quasi_identifier_count a"
    by (auto simp: quasi_identifier_count_def split_beta eqs
        category_count_cong [of "pi_projected_context b" "pi_projected_context a"])
  have "find (\<lambda>c. ref_key (cc_ref c) = k) (pi_all_referenced_context b)
      = find (\<lambda>c. ref_key (cc_ref c) = k) (pi_all_referenced_context a)" for k
    using assms(2) eqs by (intro find_cong_set [where key = "\<lambda>c. ref_key (cc_ref c)"])
      (simp_all add: contexts_keyed_def)
  then show "subject_governed_category b = subject_governed_category a"
    by (simp add: subject_governed_category_def eqs cong: option.case_cong)
  show "unresolved_columns b = [] \<longleftrightarrow> unresolved_columns a = []"
    by (simp add: unresolved_columns_def filter_empty_conv eqs)
  show "sensitive_anywhere b \<longleftrightarrow> sensitive_anywhere a"
    by (simp add: sensitive_anywhere_def set_effective_categories eqs)
qed

lemma same_up_to_order_spec:
  assumes "same_up_to_order a b" and "contexts_keyed a"
  shows "spec_decision cfg b = spec_decision cfg a"
    and "set (block_reasons cfg b) = set (block_reasons cfg a)"
proof -
  note eqs = same_up_to_orderD [OF assms(1)] same_up_to_order_semantic [OF assms]
  have "has_protected_conditional_aggregate b = has_protected_conditional_aggregate a"
    by (simp add: has_protected_conditional_aggregate_def eqs)
  then show reasons: "set (block_reasons cfg b) = set (block_reasons cfg a)"
    by (simp add: block_reasons_def eqs Let_def)
  have governed: "subject_is_governed_identifier b = subject_is_governed_identifier a"
    by (simp add: subject_is_governed_identifier_def eqs)
  then have "trusted_threshold b = trusted_threshold a"
    by (auto simp: trusted_threshold_def threshold_subject_matches_def eqs split: option.split)
  moreover from reasons have "block_reasons cfg b = [] \<longleftrightarrow> block_reasons cfg a = []"
    by (metis set_empty)
  ultimately show "spec_decision cfg b = spec_decision cfg a"
    using governed by (simp add: spec_decision_def eqs)
qed


section \<open>Inputs used by the witnesses\<close>

definition sample_config :: policy_config where
  "sample_config = \<lparr>cfg_version = ''0.2.0'', cfg_minimum_group_size = 20,
     cfg_quasi_identifier_threshold = 2, cfg_fail_closed = True, cfg_categories = []\<rparr>"

definition sample_ref :: "string \<Rightarrow> column_ref" where
  "sample_ref f = \<lparr>cr_dataset = ''customers'', cr_field_path = f, cr_alias = None\<rparr>"

definition sample_context :: "string \<Rightarrow> sensitivity_category \<Rightarrow> column_context" where
  "sample_context f c = \<lparr>cc_ref = sample_ref f, cc_category = c, cc_datahub_urn = None,
     cc_tags = [], cc_glossary_terms = [], cc_lineage_sources = [], cc_resolved = True\<rparr>"

text \<open>A grouped aggregate of a sensitive score by region, over the governed subject
  \<open>id\<close>, with a threshold \<open>n\<close> on the subject.\<close>

definition sample_input :: "int option \<Rightarrow> policy_input" where
  "sample_input n = \<lparr>pi_task_purpose = ''churn'',
     pi_query_plan = \<lparr>qp_statement_type = ''SELECT'', qp_source_datasets = [''customers''],
       qp_projected_columns = [sample_ref ''region'', sample_ref ''score''],
       qp_projected_exposures =
         [\<lparr>pe_output_name = ''region'', pe_kind = GROUP_KEY, pe_source_columns = [sample_ref ''region'']\<rparr>,
          \<lparr>pe_output_name = ''avg'', pe_kind = AGGREGATE_VALUE, pe_source_columns = [sample_ref ''score'']\<rparr>],
       qp_referenced_columns = [sample_ref ''region'', sample_ref ''score'', sample_ref ''id''],
       qp_join_columns = [], qp_group_by_columns = [sample_ref ''region''],
       qp_aggregate_functions = [''AVG''], qp_minimum_group_size_present = n,
       qp_minimum_group_size_subject = map_option (\<lambda>_. sample_ref ''id'') n,
       qp_is_grouped = True, qp_contains_wildcard = False, qp_analysis_warnings = []\<rparr>,
     pi_projected_context = [sample_context ''region'' QUASI_IDENTIFIER,
       sample_context ''score'' SENSITIVE_ATTRIBUTE],
     pi_all_referenced_context = [sample_context ''region'' QUASI_IDENTIFIER,
       sample_context ''score'' SENSITIVE_ATTRIBUTE, sample_context ''id'' STABLE_PSEUDONYM],
     pi_subject_key = Some (sample_ref ''id''), pi_minimum_group_size_present = n,
     pi_upstream_failures = []\<rparr>"

lemmas sample_policy_defs = sample_config_def sample_ref_def sample_context_def sample_input_def

lemmas policy_eval_defs =
  spec_decision_def block_reasons_def semantic_projected_context_def risk_categories_def
  unresolved_columns_def has_protected_conditional_aggregate_def sensitive_anywhere_def
  subject_is_governed_identifier_def subject_governed_category_def below_minimum_def
  trusted_threshold_def threshold_subject_matches_def quasi_identifier_count_def
  effective_categories_def effective_category_entries_def context_by_key_def dict_of_def
  exposed_value_kinds_def protected_categories_def SUBJECT_IDENTIFIER_CATEGORIES_def
  sorted_set_def ref_key_def map_filter_simps category_count_def

lemma sample_input_allowed: "spec_decision sample_config (sample_input (Some 20)) = ALLOW"
  by (simp add: sample_policy_defs policy_eval_defs)

lemma sample_input_rewritten: "spec_decision sample_config (sample_input None) = REWRITE"
  by (simp add: sample_policy_defs policy_eval_defs)


section \<open>Properties\<close>

text \<open>C4: an ALLOW of a fail-closed engine guarantees that nothing upstream failed, every
  referenced column and every lineage source of it is resolved and classified, no direct
  identifier is released together with a sensitive attribute, no ungrouped semantic release
  links a stable pseudonym to a sensitive attribute, and a grouped query over sensitive data
  counts a governed identifier of the same key at least the configured number of times.\<close>

theorem allow_is_safe:
  assumes "evaluate cfg inp = Inr d" and "pd_decision d = ALLOW" and "cfg_fail_closed cfg"
  shows "pi_upstream_failures inp = []
    \<and> (\<forall>c \<in> set (pi_all_referenced_context inp). cc_resolved c \<and> cc_category c \<noteq> UNCLASSIFIED
         \<and> (\<forall>s \<in> set (cc_lineage_sources c). ls_category s \<noteq> UNCLASSIFIED))
    \<and> \<not> (DIRECT_IDENTIFIER \<in> set (risk_categories inp) \<and> SENSITIVE_ATTRIBUTE \<in> set (risk_categories inp))
    \<and> \<not> (qp_projected_exposures (pi_query_plan inp) \<noteq> [] \<and> \<not> qp_is_grouped (pi_query_plan inp)
         \<and> STABLE_PSEUDONYM \<in> set (risk_categories inp) \<and> SENSITIVE_ATTRIBUTE \<in> set (risk_categories inp))
    \<and> (qp_is_grouped (pi_query_plan inp)
         \<and> (\<exists>c \<in> set (pi_all_referenced_context inp). SENSITIVE_ATTRIBUTE = cc_category c
              \<or> SENSITIVE_ATTRIBUTE \<in> ls_category ` set (cc_lineage_sources c))
       \<longrightarrow> (\<exists>n subject detected c. pi_minimum_group_size_present inp = Some n
              \<and> cfg_minimum_group_size cfg \<le> n \<and> pi_subject_key inp = Some subject
              \<and> qp_minimum_group_size_subject (pi_query_plan inp) = Some detected
              \<and> ref_key detected = ref_key subject \<and> c \<in> set (pi_all_referenced_context inp)
              \<and> ref_key (cc_ref c) = ref_key subject \<and> cc_resolved c
              \<and> cc_category c \<in> {DIRECT_IDENTIFIER, STABLE_PSEUDONYM}))"
    (is "?upstream \<and> ?resolved \<and> ?direct \<and> ?pseudonym \<and> ?threshold")
proof -
  have allow: "spec_decision cfg inp = ALLOW"
    using evaluate_decision [OF assms(1)] assms(2) by simp
  then have none: "block_reasons cfg inp = []"
    by (auto simp: spec_decision_def Let_def split: if_splits)
  then have ?upstream ?direct by (auto simp: block_reasons_def Let_def split: if_splits)
  moreover from none have "unresolved_columns inp = []"
    using assms(3) by (auto simp: block_reasons_def Let_def split: if_splits)
  then have ?resolved by (auto simp: unresolved_columns_def filter_empty_conv list_ex_iff)
  moreover from none have ?pseudonym
    by (auto simp: block_reasons_def Let_def semantic_projected_context_def split: if_splits)
  moreover have ?threshold
  proof
    assume grouped: "qp_is_grouped (pi_query_plan inp)
         \<and> (\<exists>c \<in> set (pi_all_referenced_context inp). SENSITIVE_ATTRIBUTE = cc_category c
              \<or> SENSITIVE_ATTRIBUTE \<in> ls_category ` set (cc_lineage_sources c))"
    then have "sensitive_anywhere inp"
      unfolding sensitive_anywhere_def set_effective_categories by blast
    with allow grouped have "\<not> below_minimum cfg (trusted_threshold inp)"
      by (auto simp: spec_decision_def Let_def split: if_splits)
    then show "\<exists>n subject detected c. pi_minimum_group_size_present inp = Some n
              \<and> cfg_minimum_group_size cfg \<le> n \<and> pi_subject_key inp = Some subject
              \<and> qp_minimum_group_size_subject (pi_query_plan inp) = Some detected
              \<and> ref_key detected = ref_key subject \<and> c \<in> set (pi_all_referenced_context inp)
              \<and> ref_key (cc_ref c) = ref_key subject \<and> cc_resolved c
              \<and> cc_category c \<in> {DIRECT_IDENTIFIER, STABLE_PSEUDONYM}"
      by (elim trusted_thresholdD governed_subjectD) fastforce
  qed
  ultimately show ?thesis by blast
qed

theorem allow_is_safe_witness:
  "\<exists>d. evaluate sample_config (sample_input (Some 20)) = Inr d \<and> pd_decision d = ALLOW
     \<and> (\<forall>c \<in> set (pi_all_referenced_context (sample_input (Some 20))). cc_resolved c)"
proof -
  obtain d where d: "evaluate sample_config (sample_input (Some 20)) = Inr d" "pd_decision d = ALLOW"
    using evaluate_refines_spec [of sample_config "sample_input (Some 20)"]
    by (auto simp: sample_input_allowed)
  moreover have "cfg_fail_closed sample_config" by (simp add: sample_config_def)
  ultimately show ?thesis using allow_is_safe [OF d] by auto
qed

text \<open>A REWRITE can always be remedied by the threshold it asks for: once the plan counts
  the declared subject at least the configured minimum number of times, nothing else changed,
  the engine allows the query.\<close>

theorem rewrite_is_remediable:
  assumes "evaluate cfg inp = Inr d" and "pd_decision d = REWRITE"
    and "cfg_minimum_group_size cfg \<le> n"
  shows "\<exists>d'. evaluate cfg
      (inp\<lparr>pi_query_plan := (pi_query_plan inp)
              \<lparr>qp_minimum_group_size_present := Some n,
               qp_minimum_group_size_subject := pi_subject_key inp\<rparr>,
           pi_minimum_group_size_present := Some n\<rparr>) = Inr d' \<and> pd_decision d' = ALLOW"
proof -
  let ?fixed = "inp\<lparr>pi_query_plan := (pi_query_plan inp)
      \<lparr>qp_minimum_group_size_present := Some n, qp_minimum_group_size_subject := pi_subject_key inp\<rparr>,
      pi_minimum_group_size_present := Some n\<rparr>"
  have "spec_decision cfg inp = REWRITE"
    using evaluate_decision [OF assms(1)] assms(2) by simp
  then have none: "block_reasons cfg inp = []" and governed: "subject_is_governed_identifier inp"
    by (auto simp: spec_decision_def Let_def split: if_splits)
  have [simp]: "context_by_key ?fixed = context_by_key inp" by (simp add: context_by_key_def)
  have [simp]: "semantic_projected_context ?fixed = semantic_projected_context inp"
    by (simp add: semantic_projected_context_def Let_def)
  have [simp]: "risk_categories ?fixed = risk_categories inp"
    "quasi_identifier_count ?fixed = quasi_identifier_count inp"
    by (simp_all add: risk_categories_def quasi_identifier_count_def split_beta)
  have "block_reasons cfg ?fixed = block_reasons cfg inp"
    by (simp add: block_reasons_def unresolved_columns_def has_protected_conditional_aggregate_def)
  with none have none': "block_reasons cfg ?fixed = []" by simp
  have governed': "subject_is_governed_identifier ?fixed"
    using governed by (simp add: subject_is_governed_identifier_def subject_governed_category_def
      cong: option.case_cong)
  with governed obtain subject where "pi_subject_key inp = Some subject" by (elim governed_subjectD)
  with governed' have "trusted_threshold ?fixed = Some n"
    by (simp add: trusted_threshold_def threshold_subject_matches_def)
  with assms(3) none' governed' have "spec_decision cfg ?fixed = ALLOW"
    by (simp add: spec_decision_def below_minimum_def)
  then show ?thesis using evaluate_refines_spec [of cfg ?fixed] by auto
qed

theorem rewrite_is_remediable_witness:
  "\<exists>d d'. evaluate sample_config (sample_input None) = Inr d \<and> pd_decision d = REWRITE
     \<and> evaluate sample_config ((sample_input None)
         \<lparr>pi_query_plan := (pi_query_plan (sample_input None))
            \<lparr>qp_minimum_group_size_present := Some 20,
             qp_minimum_group_size_subject := pi_subject_key (sample_input None)\<rparr>,
          pi_minimum_group_size_present := Some 20\<rparr>) = Inr d' \<and> pd_decision d' = ALLOW"
proof -
  obtain d where d: "evaluate sample_config (sample_input None) = Inr d" "pd_decision d = REWRITE"
    using evaluate_refines_spec [of sample_config "sample_input None"]
    by (auto simp: sample_input_rewritten)
  have "cfg_minimum_group_size sample_config \<le> 20" by (simp add: sample_config_def)
  from rewrite_is_remediable [OF d this] d show ?thesis by blast
qed

text \<open>C34: a direct identifier cannot be released together with a sensitive attribute by
  hiding either behind lineage: when two exposed values draw on columns whose category, or the
  category of one of whose upstream sources, is a direct identifier and a sensitive attribute,
  the engine blocks and says so.\<close>

theorem lineage_linkage_blocked:
  assumes "{e, e'} \<subseteq> set (qp_projected_exposures (pi_query_plan inp))"
    and "pe_kind e \<in> set exposed_value_kinds" and "pe_kind e' \<in> set exposed_value_kinds"
    and "r \<in> set (pe_source_columns e)" and "r' \<in> set (pe_source_columns e')"
    and "context_by_key inp (ref_key r) = Some c" and "context_by_key inp (ref_key r') = Some c'"
    and "DIRECT_IDENTIFIER \<in> insert (cc_category c) (ls_category ` set (cc_lineage_sources c))"
    and "SENSITIVE_ATTRIBUTE \<in> insert (cc_category c') (ls_category ` set (cc_lineage_sources c'))"
  shows "\<exists>d. evaluate cfg inp = Inr d \<and> pd_decision d = BLOCK
    \<and> DIRECT_SENSITIVE_LINKAGE \<in> set (pd_reason_codes d)"
proof -
  have "DIRECT_IDENTIFIER \<in> set (risk_categories inp)" "SENSITIVE_ATTRIBUTE \<in> set (risk_categories inp)"
    using assms by (auto intro: risk_category_of_exposure)
  then have "DIRECT_SENSITIVE_LINKAGE \<in> set (block_reasons cfg inp)"
    by (simp add: block_reasons_def Let_def)
  moreover from this have "block_reasons cfg inp \<noteq> []" by auto
  ultimately show ?thesis using evaluate_block_reasons [of cfg inp] by auto
qed

definition sample_lineage_input :: policy_input where
  "sample_lineage_input = (sample_input None)\<lparr>pi_projected_context :=
     [(sample_context ''region'' PUBLIC_OR_LOW_RISK)\<lparr>cc_lineage_sources :=
        [\<lparr>ls_ref = sample_ref ''email'', ls_category = DIRECT_IDENTIFIER, ls_datahub_urn = None\<rparr>]\<rparr>,
      sample_context ''score'' SENSITIVE_ATTRIBUTE],
     pi_query_plan := (pi_query_plan (sample_input None))\<lparr>qp_projected_exposures :=
         [\<lparr>pe_output_name = ''region'', pe_kind = GROUP_KEY, pe_source_columns = [sample_ref ''region'']\<rparr>,
          \<lparr>pe_output_name = ''avg'', pe_kind = AGGREGATE_OPERAND, pe_source_columns = [sample_ref ''score'']\<rparr>]\<rparr>\<rparr>"

theorem lineage_linkage_blocked_witness:
  "\<exists>d. evaluate sample_config sample_lineage_input = Inr d \<and> pd_decision d = BLOCK
     \<and> DIRECT_SENSITIVE_LINKAGE \<in> set (pd_reason_codes d)"
  by (rule lineage_linkage_blocked [where
        e = "\<lparr>pe_output_name = ''region'', pe_kind = GROUP_KEY, pe_source_columns = [sample_ref ''region'']\<rparr>"
        and e' = "\<lparr>pe_output_name = ''avg'', pe_kind = AGGREGATE_OPERAND, pe_source_columns = [sample_ref ''score'']\<rparr>"
        and r = "sample_ref ''region''" and r' = "sample_ref ''score''"
        and c = "(sample_context ''region'' PUBLIC_OR_LOW_RISK)\<lparr>cc_lineage_sources :=
          [\<lparr>ls_ref = sample_ref ''email'', ls_category = DIRECT_IDENTIFIER, ls_datahub_urn = None\<rparr>]\<rparr>"
        and c' = "sample_context ''score'' SENSITIVE_ATTRIBUTE"])
    (simp_all add: sample_lineage_input_def sample_policy_defs exposed_value_kinds_def
      context_by_key_def dict_of_def ref_key_def)

text \<open>Whatever the query, an upstream failure blocks it, and the reasons carry every
  upstream failure, without duplicates.\<close>

theorem upstream_failure_blocks:
  "\<exists>d. evaluate cfg (inp\<lparr>pi_upstream_failures := f # fs\<rparr>) = Inr d \<and> pd_decision d = BLOCK
     \<and> insert f (set fs) \<subseteq> set (pd_reason_codes d) \<and> distinct (pd_reason_codes d)"
proof -
  have sub: "insert f (set fs) \<subseteq> set (block_reasons cfg (inp\<lparr>pi_upstream_failures := f # fs\<rparr>))"
    by (auto simp: block_reasons_def Let_def)
  then have "block_reasons cfg (inp\<lparr>pi_upstream_failures := f # fs\<rparr>) \<noteq> []" by auto
  from evaluate_block_reasons [OF this] sub show ?thesis by auto
qed

text \<open>The decision and its reasons do not depend on the order in which the governed
  contexts of distinct columns were resolved.\<close>

theorem decision_order_independent:
  assumes "same_up_to_order a b" and "contexts_keyed a"
  shows "\<exists>da db. evaluate cfg a = Inr da \<and> evaluate cfg b = Inr db
    \<and> pd_decision da = pd_decision db \<and> set (pd_reason_codes da) = set (pd_reason_codes db)"
proof -
  note eqs = same_up_to_order_spec [OF assms, of cfg]
  obtain da db where d: "evaluate cfg a = Inr da" "evaluate cfg b = Inr db"
    "pd_decision da = spec_decision cfg a" "pd_decision db = spec_decision cfg b"
    using evaluate_refines_spec by metis
  have "block_reasons cfg b = [] \<longleftrightarrow> block_reasons cfg a = []" using eqs(2) by (metis set_empty)
  then have "set (pd_reason_codes da) = set (pd_reason_codes db)"
    using eqs evaluate_reasons [OF d(1)] evaluate_reasons [OF d(2)] by simp
  with d eqs(1) show ?thesis by auto
qed

theorem decision_order_independent_witness:
  "\<exists>da db. evaluate sample_config (sample_input None) = Inr da
    \<and> evaluate sample_config ((sample_input None)\<lparr>pi_all_referenced_context :=
         rev (pi_all_referenced_context (sample_input None))\<rparr>) = Inr db
    \<and> pd_decision da = pd_decision db \<and> set (pd_reason_codes da) = set (pd_reason_codes db)"
  by (rule decision_order_independent)
    (simp_all add: same_up_to_order_def contexts_keyed_def sample_policy_defs ref_key_def insert_commute)

text \<open>The grounds on which the engine blocks, as rules of their own: each names a fact about the
  input and the reason code it leads to.\<close>

inductive blocking_ground :: "policy_config \<Rightarrow> policy_input \<Rightarrow> reason_code \<Rightarrow> bool"
  for cfg :: policy_config and inp :: policy_input where
  upstream: "f \<in> set (pi_upstream_failures inp) \<Longrightarrow> blocking_ground cfg inp f"
| unknown_column: "cfg_fail_closed cfg \<Longrightarrow> c \<in> set (pi_all_referenced_context inp) \<Longrightarrow>
    \<not> cc_resolved c \<or> UNCLASSIFIED \<in> insert (cc_category c) (ls_category ` set (cc_lineage_sources c)) \<Longrightarrow>
    blocking_ground cfg inp UNCLASSIFIED_COLUMN"
| nested_scope: "cfg_fail_closed cfg \<Longrightarrow> e \<in> set (qp_projected_exposures (pi_query_plan inp)) \<Longrightarrow>
    pe_kind e = NESTED_SCOPE \<Longrightarrow> blocking_ground cfg inp UNRESOLVED_COLUMN"
| conditional: "has_protected_conditional_aggregate inp \<Longrightarrow>
    blocking_ground cfg inp COMPOSITIONAL_REIDENTIFICATION_RISK"
| direct: "{DIRECT_IDENTIFIER, SENSITIVE_ATTRIBUTE} \<subseteq> set (risk_categories inp) \<Longrightarrow>
    blocking_ground cfg inp DIRECT_SENSITIVE_LINKAGE"
| pseudonym: "{STABLE_PSEUDONYM, SENSITIVE_ATTRIBUTE} \<subseteq> set (risk_categories inp) \<Longrightarrow>
    \<not> qp_is_grouped (pi_query_plan inp) \<Longrightarrow>
    qp_projected_exposures (pi_query_plan inp) \<noteq> []
      \<or> cfg_quasi_identifier_threshold cfg \<le> int (quasi_identifier_count inp) \<Longrightarrow>
    blocking_ground cfg inp COMPOSITIONAL_REIDENTIFICATION_RISK"

lemma semantic_mode_iff:
  "snd (semantic_projected_context inp) \<longleftrightarrow> qp_projected_exposures (pi_query_plan inp) \<noteq> []"
  by (simp add: semantic_projected_context_def Let_def)

lemma unresolved_columns_empty:
  "unresolved_columns inp \<noteq> [] \<longleftrightarrow> (\<exists>c \<in> set (pi_all_referenced_context inp).
     \<not> cc_resolved c \<or> UNCLASSIFIED \<in> insert (cc_category c) (ls_category ` set (cc_lineage_sources c)))"
  by (simp add: unresolved_columns_def filter_empty_conv list_ex_iff image_iff eq_commute [of UNCLASSIFIED])

lemma blocking_ground_iff: "blocking_ground cfg inp r \<longleftrightarrow> r \<in> set (block_reasons cfg inp)"
proof
  assume "blocking_ground cfg inp r"
  then show "r \<in> set (block_reasons cfg inp)"
  proof cases
    case (unknown_column c)
    then have "unresolved_columns inp \<noteq> []" unfolding unresolved_columns_empty by blast
    with unknown_column show ?thesis by (simp add: block_reasons_def Let_def)
  next
    case (nested_scope e)
    then have "snd (semantic_projected_context inp)"
        "list_ex (\<lambda>e. pe_kind e = NESTED_SCOPE) (qp_projected_exposures (pi_query_plan inp))"
      by (auto simp: semantic_mode_iff list_ex_iff)
    with nested_scope show ?thesis by (simp add: block_reasons_def Let_def)
  qed (auto simp: block_reasons_def Let_def semantic_mode_iff)
next
  assume "r \<in> set (block_reasons cfg inp)"
  then show "blocking_ground cfg inp r"
    by (auto simp: block_reasons_def Let_def semantic_mode_iff unresolved_columns_empty list_ex_iff
        split: if_splits intro: blocking_ground.intros)
qed

lemma block_reasons_empty: "block_reasons cfg inp = [] \<longleftrightarrow> (\<nexists>r. blocking_ground cfg inp r)"
  by (simp add: blocking_ground_iff)

lemma evaluate_distinct: "evaluate cfg inp = Inr d \<Longrightarrow> distinct (pd_reason_codes d)"
  using evaluate_cases [of cfg inp] by fastforce

lemma below_minimum_iff:
  "below_minimum cfg t \<longleftrightarrow> (\<nexists>n. t = Some n \<and> cfg_minimum_group_size cfg \<le> n)"
  by (auto simp: below_minimum_def split: option.splits)

text \<open>C8: evaluation is total and implements the priority BLOCK over REWRITE over ALLOW exactly.
  Every input gets a decision that passes the validation of \<open>PolicyDecision\<close> and carries the
  policy version. It is BLOCK iff there is a blocking ground, or a grouped query touches a
  sensitive attribute and its subject is not a governed identifier; REWRITE iff there is no ground,
  such a query has a governed subject, and no threshold on that subject reaches the minimum;
  ALLOW in the remaining cases only. The reason codes are, without repetition, all the
  grounds of a block, else the one code of the outcome.\<close>

theorem policy_priority:
  "\<exists>d. evaluate cfg inp = Inr d \<and> validate_policy_decision d = Inr d
    \<and> pd_policy_version d = cfg_version cfg
    \<and> (pd_decision d = BLOCK \<longleftrightarrow> (\<exists>r. blocking_ground cfg inp r)
         \<or> qp_is_grouped (pi_query_plan inp) \<and> sensitive_anywhere inp
           \<and> \<not> subject_is_governed_identifier inp)
    \<and> (pd_decision d = REWRITE \<longleftrightarrow> (\<nexists>r. blocking_ground cfg inp r)
         \<and> qp_is_grouped (pi_query_plan inp) \<and> sensitive_anywhere inp
         \<and> subject_is_governed_identifier inp
         \<and> (\<nexists>n. trusted_threshold inp = Some n \<and> cfg_minimum_group_size cfg \<le> n))
    \<and> (pd_decision d = ALLOW \<longleftrightarrow> (\<nexists>r. blocking_ground cfg inp r)
         \<and> (\<not> (qp_is_grouped (pi_query_plan inp) \<and> sensitive_anywhere inp)
            \<or> subject_is_governed_identifier inp
              \<and> (\<exists>n. trusted_threshold inp = Some n \<and> cfg_minimum_group_size cfg \<le> n)))
    \<and> (pd_rewrite_required d \<longleftrightarrow> pd_decision d = REWRITE)
    \<and> distinct (pd_reason_codes d)
    \<and> set (pd_reason_codes d) =
        (if \<exists>r. blocking_ground cfg inp r then {r. blocking_ground cfg inp r}
         else case pd_decision d of
             BLOCK \<Rightarrow> {UNTRUSTED_SUBJECT_KEY} | REWRITE \<Rightarrow> {SMALL_GROUP_RISK}
           | ALLOW \<Rightarrow> {NO_COMPOSITIONAL_RISK})"
proof -
  obtain d where d: "evaluate cfg inp = Inr d" "pd_decision d = spec_decision cfg inp"
    "pd_policy_version d = cfg_version cfg" "validate_policy_decision d = Inr d"
    using evaluate_refines_spec [of cfg inp] by blast
  have rewrite: "pd_rewrite_required d \<longleftrightarrow> pd_decision d = REWRITE"
    using d(4) by (auto simp: validate_policy_decision_def split: if_splits)
  have reasons: "set (pd_reason_codes d) =
      (if \<exists>r. blocking_ground cfg inp r then {r. blocking_ground cfg inp r}
       else case pd_decision d of
           BLOCK \<Rightarrow> {UNTRUSTED_SUBJECT_KEY} | REWRITE \<Rightarrow> {SMALL_GROUP_RISK}
         | ALLOW \<Rightarrow> {NO_COMPOSITIONAL_RISK})"
    using evaluate_reasons [OF d(1)] by (simp add: d(2) blocking_ground_iff)
  have outcome: "pd_decision d =
      (if (\<exists>r. blocking_ground cfg inp r)
         \<or> (qp_is_grouped (pi_query_plan inp) \<and> sensitive_anywhere inp)
           \<and> \<not> subject_is_governed_identifier inp
       then BLOCK
       else if (qp_is_grouped (pi_query_plan inp) \<and> sensitive_anywhere inp)
         \<and> (\<nexists>n. trusted_threshold inp = Some n \<and> cfg_minimum_group_size cfg \<le> n) then REWRITE
       else ALLOW)"
    unfolding d(2) spec_decision_def Let_def block_reasons_empty below_minimum_iff by simp
  show ?thesis
    by (rule exI [of _ d], intro conjI)
      (use d rewrite reasons evaluate_distinct [OF d(1)] outcome in \<open>auto split: if_splits\<close>)
qed

theorem policy_priority_witness:
  "(\<exists>d. evaluate sample_config ((sample_input None)\<lparr>pi_upstream_failures := [VERIFICATION_FAILED]\<rparr>) = Inr d
      \<and> pd_decision d = BLOCK \<and> VERIFICATION_FAILED \<in> set (pd_reason_codes d))
   \<and> (\<exists>d. evaluate sample_config (sample_input None) = Inr d
      \<and> pd_decision d = REWRITE \<and> set (pd_reason_codes d) = {SMALL_GROUP_RISK})
   \<and> (\<exists>d. evaluate sample_config (sample_input (Some 20)) = Inr d
      \<and> pd_decision d = ALLOW \<and> set (pd_reason_codes d) = {NO_COMPOSITIONAL_RISK})"
proof (intro conjI)
  let ?inp = "(sample_input None)\<lparr>pi_upstream_failures := [VERIFICATION_FAILED]\<rparr>"
  have "blocking_ground sample_config ?inp VERIFICATION_FAILED" by (simp add: blocking_ground.upstream)
  with policy_priority [of sample_config ?inp] show
    "\<exists>d. evaluate sample_config ?inp = Inr d \<and> pd_decision d = BLOCK
       \<and> VERIFICATION_FAILED \<in> set (pd_reason_codes d)" by force
next
  have "spec_decision sample_config (sample_input None) = REWRITE" by (rule sample_input_rewritten)
  then have "block_reasons sample_config (sample_input None) = []"
    by (simp add: spec_decision_def Let_def split: if_splits)
  then have "\<not> blocking_ground sample_config (sample_input None) r" for r by (simp add: blocking_ground_iff)
  with policy_priority [of sample_config "sample_input None"] sample_input_rewritten show
    "\<exists>d. evaluate sample_config (sample_input None) = Inr d
      \<and> pd_decision d = REWRITE \<and> set (pd_reason_codes d) = {SMALL_GROUP_RISK}"
    by (auto dest: evaluate_decision)
next
  have "spec_decision sample_config (sample_input (Some 20)) = ALLOW" by (rule sample_input_allowed)
  then have "block_reasons sample_config (sample_input (Some 20)) = []"
    by (simp add: spec_decision_def Let_def split: if_splits)
  then have "\<not> blocking_ground sample_config (sample_input (Some 20)) r" for r by (simp add: blocking_ground_iff)
  with policy_priority [of sample_config "sample_input (Some 20)"] sample_input_allowed show
    "\<exists>d. evaluate sample_config (sample_input (Some 20)) = Inr d
      \<and> pd_decision d = ALLOW \<and> set (pd_reason_codes d) = {NO_COMPOSITIONAL_RISK}"
    by (auto dest: evaluate_decision)
qed

end
