(* ===== verification/Disclosure_Models.thy ===== *)
theory Disclosure_Models
  imports Domain
begin

text \<open>
  The persistent models of cross-request disclosure history,
  \<open>src/toxicjoin/disclosure/models.py\<close>: governed columns, subject domains, privacy scopes,
  semantic releases, composition metadata, events, hash-chained records, commitments and
  decisions. Each \<open>*_checks\<close> function lists the guards of a pydantic model in the order
  they run, the nested models' first; \<open>validate_*\<close> raises the first one that fails.
  \<open>H\<close> is SHA-256 and \<open>ts\<close> the text of a UTC timestamp (microseconds since
  the epoch).
\<close>

datatype composition_rule =
    UNPROTECTED_RELEASE
  | FIRST_PROTECTED_RELEASE
  | PROTECTED_RELEASE_WITHIN_BUDGET
  | REPEAT_IDENTICAL_RELEASE
  | REPEAT_PROTECTED_RELEASE_BLOCK
  | IDEMPOTENT_REPLAY
  | CUMULATIVE_VARIATION_BLOCK
  | CUMULATIVE_BUDGET_EXHAUSTED
  | LEGACY_HISTORY_BLOCK

text \<open>The window is held in microseconds, as \<open>timedelta(seconds=window_seconds)\<close> holds it.\<close>

record disclosure_budget =
  bu_max_protected_releases :: int
  bu_window_us :: int

definition validate_disclosure_budget :: "disclosure_budget \<Rightarrow> disclosure_budget result" where
  "validate_disclosure_budget b = raise_first
     [(bu_max_protected_releases b < 1 \<or> 1000 < bu_max_protected_releases b,
         ValidationError ''max_protected_releases must be between 1 and 1000''),
      (bu_window_us b < 0 \<or> 31536000000000 < bu_window_us b,
         ValidationError ''window_seconds must be positive and at most one year'')] b"

definition default_disclosure_budget :: disclosure_budget where
  "default_disclosure_budget = \<lparr>bu_max_protected_releases = 5, bu_window_us = 86400000000\<rparr>"

section \<open>Governed columns and subject domains\<close>

record governed_column =
  gc_dataset_urn :: string
  gc_field_path :: string
  gc_category :: sensitivity_category

definition column_key :: "governed_column \<Rightarrow> string" where
  "column_key c = gc_dataset_urn c @ ''#'' @ gc_field_path c"

definition column_checks :: "governed_column \<Rightarrow> (bool \<times> error) list" where
  "column_checks c =
     [(\<not> len_between 1 2048 (gc_dataset_urn c), ValidationError ''dataset_urn length''),
      (\<not> len_between 1 512 (gc_field_path c), ValidationError ''field_path length'')]"

definition column_payload :: "governed_column \<Rightarrow> json" where
  "column_payload c = JObj [(''dataset_urn'', JStr (gc_dataset_urn c)),
     (''field_path'', JStr (gc_field_path c)), (''category'', JStr (category_value (gc_category c)))]"

record subject_domain =
  sd_field_path :: string
  sd_category :: sensitivity_category
  sd_dataset_urns :: "string list"
  sd_governance_domains :: "string list"
  sd_namespace_sha256 :: string

definition compute_subject_namespace_sha256 ::
    "(string \<Rightarrow> string) \<Rightarrow> string \<Rightarrow> sensitivity_category \<Rightarrow> string" where
  "compute_subject_namespace_sha256 H field_path category = canonical_json_sha256 H
     (JObj [(''field_path'', JStr (py_casefold field_path)),
            (''category'', JStr (category_value category))])"

definition subject_checks :: "(string \<Rightarrow> string) \<Rightarrow> subject_domain \<Rightarrow> (bool \<times> error) list" where
  "subject_checks H s =
     [(\<not> len_between 1 512 (sd_field_path s), ValidationError ''field_path length''),
      (\<not> len_between 1 64 (sd_dataset_urns s), ValidationError ''dataset_urns length''),
      (\<not> len_between 0 64 (sd_governance_domains s), ValidationError ''governance_domains length''),
      (\<not> is_sha256 (sd_namespace_sha256 s), ValidationError ''namespace_sha256 pattern''),
      (sd_category s \<notin> set SUBJECT_IDENTIFIER_CATEGORIES,
         ValidationError ''subject domain must be a governed identifier category''),
      (\<not> canonical (sd_dataset_urns s), ValidationError ''dataset_urns must be sorted and unique''),
      (\<not> canonical (sd_governance_domains s),
         ValidationError ''governance_domains must be sorted and unique''),
      (sd_namespace_sha256 s \<noteq> compute_subject_namespace_sha256 H (sd_field_path s) (sd_category s),
         ValidationError ''subject namespace hash mismatch'')]"

definition validate_subject_domain :: "(string \<Rightarrow> string) \<Rightarrow> subject_domain \<Rightarrow> subject_domain result" where
  "validate_subject_domain H s = raise_first (subject_checks H s) s"

definition subject_json :: "subject_domain \<Rightarrow> json" where
  "subject_json s = JObj [(''field_path'', JStr (sd_field_path s)),
     (''category'', JStr (category_value (sd_category s))),
     (''dataset_urns'', jstrs (sd_dataset_urns s)),
     (''governance_domains'', jstrs (sd_governance_domains s)),
     (''namespace_sha256'', JStr (sd_namespace_sha256 s))]"

section \<open>Privacy scopes\<close>

record disclosure_scope =
  sc_principal_id :: string
  sc_agent_id :: "string option"
  sc_subject :: subject_domain
  sc_scope_sha256 :: string

definition compute_scope_sha256 ::
    "(string \<Rightarrow> string) \<Rightarrow> string \<Rightarrow> string option \<Rightarrow> string \<Rightarrow> string" where
  "compute_scope_sha256 H principal_id agent_id subject_namespace_sha256 = canonical_json_sha256 H
     (JObj [(''principal_id'', JStr principal_id),
            (''agent_id'', JStr (py_or agent_id ''@principal'')),
            (''subject_namespace_sha256'', JStr subject_namespace_sha256)])"

definition scope_checks :: "(string \<Rightarrow> string) \<Rightarrow> disclosure_scope \<Rightarrow> (bool \<times> error) list" where
  "scope_checks H s = subject_checks H (sc_subject s) @
     [(\<not> is_identifier (sc_principal_id s), ValidationError ''principal_id pattern''),
      (\<not> opt_all is_identifier (sc_agent_id s), ValidationError ''agent_id pattern''),
      (\<not> is_sha256 (sc_scope_sha256 s), ValidationError ''scope_sha256 pattern''),
      (sc_scope_sha256 s \<noteq> compute_scope_sha256 H (sc_principal_id s) (sc_agent_id s)
           (sd_namespace_sha256 (sc_subject s)),
         ValidationError ''disclosure scope hash mismatch'')]"

definition validate_scope :: "(string \<Rightarrow> string) \<Rightarrow> disclosure_scope \<Rightarrow> disclosure_scope result" where
  "validate_scope H s = raise_first (scope_checks H s) s"

definition scope_json :: "disclosure_scope \<Rightarrow> json" where
  "scope_json s = JObj [(''principal_id'', JStr (sc_principal_id s)),
     (''agent_id'', jopt JStr (sc_agent_id s)), (''subject'', subject_json (sc_subject s)),
     (''scope_sha256'', JStr (sc_scope_sha256 s))]"

section \<open>Semantic releases\<close>

record semantic_output =
  so_kind :: exposure_kind
  so_sources :: "governed_column list"

definition output_checks :: "semantic_output \<Rightarrow> (bool \<times> error) list" where
  "output_checks out = concat (map column_checks (so_sources out)) @
     [(\<not> len_between 0 128 (so_sources out), ValidationError ''sources length''),
      (\<not> canonical (map column_key (so_sources out)),
         ValidationError ''semantic output sources must be sorted and unique'')]"

definition output_json :: "semantic_output \<Rightarrow> json" where
  "output_json out = JObj [(''kind'', JStr (exposure_value (so_kind out))),
     (''sources'', JArr (map column_payload (so_sources out)))]"

record semantic_release =
  sr_source_dataset_urns :: "string list"
  sr_outputs :: "semantic_output list"
  sr_referenced_columns :: "governed_column list"
  sr_join_columns :: "governed_column list"
  sr_group_keys :: "governed_column list"
  sr_aggregate_functions :: "string list"
  sr_minimum_group_size_present :: "int option"
  sr_semantic_sha256 :: string

definition compute_semantic_sha256 :: "(string \<Rightarrow> string) \<Rightarrow> semantic_release \<Rightarrow> string" where
  "compute_semantic_sha256 H r = canonical_json_sha256 H (JObj
     [(''source_dataset_urns'', jstrs (sr_source_dataset_urns r)),
      (''outputs'', jstrs (sorted_set
         (map (\<lambda>out. canonical_json_sha256 H (output_json out)) (sr_outputs r)))),
      (''referenced_columns'', JArr (map column_payload (sr_referenced_columns r))),
      (''join_columns'', JArr (map column_payload (sr_join_columns r))),
      (''group_keys'', JArr (map column_payload (sr_group_keys r))),
      (''aggregate_functions'', jstrs (sr_aggregate_functions r)),
      (''minimum_group_size_present'', jopt JInt (sr_minimum_group_size_present r))])"

definition release_checks :: "(string \<Rightarrow> string) \<Rightarrow> semantic_release \<Rightarrow> (bool \<times> error) list" where
  "release_checks H r =
     concat (map output_checks (sr_outputs r))
     @ concat (map column_checks (sr_referenced_columns r @ sr_join_columns r @ sr_group_keys r))
     @ [(\<not> len_between 1 64 (sr_source_dataset_urns r), ValidationError ''source_dataset_urns length''),
        (\<not> len_between 0 256 (sr_outputs r), ValidationError ''outputs length''),
        (\<not> len_between 0 512 (sr_referenced_columns r), ValidationError ''referenced_columns length''),
        (\<not> len_between 0 128 (sr_join_columns r), ValidationError ''join_columns length''),
        (\<not> len_between 0 128 (sr_group_keys r), ValidationError ''group_keys length''),
        (\<not> len_between 0 64 (sr_aggregate_functions r), ValidationError ''aggregate_functions length''),
        (\<not> opt_all (\<lambda>n. 1 \<le> n) (sr_minimum_group_size_present r),
           ValidationError ''minimum_group_size_present must be at least 1''),
        (\<not> is_sha256 (sr_semantic_sha256 r), ValidationError ''semantic_sha256 pattern''),
        (\<not> canonical (sr_source_dataset_urns r),
           ValidationError ''source_dataset_urns must be sorted and unique''),
        (\<not> canonical (map column_key (sr_referenced_columns r)),
           ValidationError ''referenced_columns must be sorted and unique''),
        (\<not> canonical (map column_key (sr_join_columns r)),
           ValidationError ''join_columns must be sorted and unique''),
        (\<not> canonical (map column_key (sr_group_keys r)),
           ValidationError ''group_keys must be sorted and unique''),
        (sr_aggregate_functions r \<noteq>
             sorted_set (map (\<lambda>v. py_upper (py_strip v)) (sr_aggregate_functions r)),
           ValidationError ''aggregate_functions must be normalized, sorted, and unique''),
        (sr_semantic_sha256 r \<noteq> compute_semantic_sha256 H r,
           ValidationError ''semantic release hash mismatch'')]"

definition validate_release :: "(string \<Rightarrow> string) \<Rightarrow> semantic_release \<Rightarrow> semantic_release result" where
  "validate_release H r = raise_first (release_checks H r) r"

definition release_json :: "semantic_release \<Rightarrow> json" where
  "release_json r = JObj
     [(''source_dataset_urns'', jstrs (sr_source_dataset_urns r)),
      (''outputs'', JArr (map output_json (sr_outputs r))),
      (''referenced_columns'', JArr (map column_payload (sr_referenced_columns r))),
      (''join_columns'', JArr (map column_payload (sr_join_columns r))),
      (''group_keys'', JArr (map column_payload (sr_group_keys r))),
      (''aggregate_functions'', jstrs (sr_aggregate_functions r)),
      (''minimum_group_size_present'', jopt JInt (sr_minimum_group_size_present r)),
      (''semantic_sha256'', JStr (sr_semantic_sha256 r))]"

section \<open>Composition metadata and events\<close>

record disclosure_composition =
  co_protected_release :: bool
  co_release_family_sha256 :: string
  co_cohort_hmac_sha256 :: string

definition composition_checks :: "disclosure_composition \<Rightarrow> (bool \<times> error) list" where
  "composition_checks c =
     [(\<not> is_sha256 (co_release_family_sha256 c), ValidationError ''release_family_sha256 pattern''),
      (\<not> is_sha256 (co_cohort_hmac_sha256 c), ValidationError ''cohort_hmac_sha256 pattern'')]"

definition validate_composition :: "disclosure_composition \<Rightarrow> disclosure_composition result" where
  "validate_composition c = raise_first (composition_checks c) c"

definition composition_json :: "disclosure_composition \<Rightarrow> json" where
  "composition_json c = JObj [(''protected_release'', JBool (co_protected_release c)),
     (''release_family_sha256'', JStr (co_release_family_sha256 c)),
     (''cohort_hmac_sha256'', JStr (co_cohort_hmac_sha256 c))]"

record disclosure_event =
  ev_scope :: disclosure_scope
  ev_credential_id :: string
  ev_receipt_id :: string
  ev_policy_version :: string
  ev_semantic :: semantic_release
  ev_composition :: "disclosure_composition option"

definition event_checks :: "(string \<Rightarrow> string) \<Rightarrow> disclosure_event \<Rightarrow> (bool \<times> error) list" where
  "event_checks H e = scope_checks H (ev_scope e)
     @ [(\<not> is_identifier (ev_credential_id e), ValidationError ''credential_id pattern''),
        (\<not> has_prefix_hex ''tj_'' 16 (ev_receipt_id e), ValidationError ''receipt_id pattern''),
        (\<not> len_between 1 128 (ev_policy_version e), ValidationError ''policy_version length'')]
     @ release_checks H (ev_semantic e)
     @ (case ev_composition e of None \<Rightarrow> [] | Some c \<Rightarrow> composition_checks c @
        [(co_release_family_sha256 c \<noteq> sr_semantic_sha256 (ev_semantic e),
           ValidationError ''composition release family must match semantic release hash'')])"

definition validate_event :: "(string \<Rightarrow> string) \<Rightarrow> disclosure_event \<Rightarrow> disclosure_event result" where
  "validate_event H e = raise_first (event_checks H e) e"

definition event_json :: "disclosure_event \<Rightarrow> json" where
  "event_json e = JObj [(''scope'', scope_json (ev_scope e)),
     (''audit_identity'', JObj [(''credential_id'', JStr (ev_credential_id e))]),
     (''receipt_id'', JStr (ev_receipt_id e)), (''policy_version'', JStr (ev_policy_version e)),
     (''semantic'', release_json (ev_semantic e)),
     (''composition'', jopt composition_json (ev_composition e))]"

definition compute_event_sha256 :: "(string \<Rightarrow> string) \<Rightarrow> disclosure_event \<Rightarrow> string" where
  "compute_event_sha256 H e = canonical_json_sha256 H (event_json e)"

section \<open>Hash-chained records\<close>

record disclosure_record =
  dr_schema_version :: string
  dr_record_id :: string
  dr_sequence :: int
  dr_created_at :: int
  dr_event :: disclosure_event
  dr_event_sha256 :: string
  dr_previous_content_sha256 :: "string option"
  dr_content_sha256 :: string

definition compute_record_sha256 ::
    "(string \<Rightarrow> string) \<Rightarrow> (int \<Rightarrow> string) \<Rightarrow> disclosure_record \<Rightarrow> string" where
  "compute_record_sha256 H ts r = canonical_json_sha256 H (JObj
     [(''schema_version'', JStr (dr_schema_version r)), (''record_id'', JStr (dr_record_id r)),
      (''sequence'', JInt (dr_sequence r)), (''created_at'', JStr (ts (dr_created_at r))),
      (''event'', event_json (dr_event r)), (''event_sha256'', JStr (dr_event_sha256 r)),
      (''previous_content_sha256'', jopt JStr (dr_previous_content_sha256 r))])"

definition record_checks ::
    "(string \<Rightarrow> string) \<Rightarrow> (int \<Rightarrow> string) \<Rightarrow> disclosure_record \<Rightarrow> (bool \<times> error) list" where
  "record_checks H ts r = event_checks H (dr_event r) @
     [(dr_schema_version r \<notin> {''1.0'', ''1.1''}, ValidationError ''schema_version''),
      (\<not> has_prefix_hex ''dl_'' 32 (dr_record_id r), ValidationError ''record_id pattern''),
      (dr_sequence r < 1, ValidationError ''sequence must be at least 1''),
      (\<not> is_sha256 (dr_event_sha256 r), ValidationError ''event_sha256 pattern''),
      (\<not> opt_all is_sha256 (dr_previous_content_sha256 r),
         ValidationError ''previous_content_sha256 pattern''),
      (\<not> is_sha256 (dr_content_sha256 r), ValidationError ''content_sha256 pattern''),
      (dr_event_sha256 r \<noteq> compute_event_sha256 H (dr_event r),
         ValidationError ''disclosure event hash mismatch''),
      (dr_content_sha256 r \<noteq> compute_record_sha256 H ts r,
         ValidationError ''disclosure record content hash mismatch'')]"

definition validate_record ::
    "(string \<Rightarrow> string) \<Rightarrow> (int \<Rightarrow> string) \<Rightarrow> disclosure_record \<Rightarrow> disclosure_record result" where
  "validate_record H ts r = raise_first (record_checks H ts r) r"

section \<open>Commitments, evaluations and decisions\<close>

record disclosure_commitment =
  cm_record_id :: string
  cm_receipt_id :: string
  cm_scope_sha256 :: string
  cm_event_sha256 :: string
  cm_content_sha256 :: string

record composition_evaluation =
  ce_allowed :: bool
  ce_rule :: composition_rule
  ce_protected_release :: bool
  ce_prior_protected_count :: nat

record composition_decision =
  cd_allowed :: bool
  cd_rule :: composition_rule
  cd_protected_release :: bool
  cd_prior_protected_count :: nat
  cd_commitment :: "disclosure_commitment option"

definition validate_composition_decision :: "composition_decision \<Rightarrow> composition_decision result" where
  "validate_composition_decision d = raise_first
     [(cd_allowed d \<noteq> (cd_commitment d \<noteq> None),
         ValidationError ''allowed composition decisions require exactly one commitment'')] d"

lemmas validate_defs = validate_subject_domain_def validate_scope_def validate_release_def
  validate_composition_def validate_event_def validate_record_def validate_composition_decision_def

lemma validate_event_same: "validate_event H e = Inr e' \<Longrightarrow> e' = e"
  by (simp add: validate_event_def)

lemma validate_record_same: "validate_record H ts r = Inr r' \<Longrightarrow> r' = r"
  by (simp add: validate_record_def)

text \<open>A validated record carries a validated event.\<close>

lemma validate_record_event:
  "validate_record H ts r = Inr r \<Longrightarrow> validate_event H (dr_event r) = Inr (dr_event r)"
  unfolding validate_record_def validate_event_def record_checks_def raise_first_append by simp

end
