(* ===== verification/Composition.thy ===== *)
theory Composition
  imports Disclosure_Models
begin

text \<open>
  The cumulative-release policy of \<open>src/toxicjoin/disclosure/composition.py\<close>: the keyed
  cohort identity of a query, the protected classification of a release, the consistency check
  of persisted metadata and the budget gate over a history. sqlglot's parser and printer are
  the parameters \<open>parse\<close> and \<open>render\<close>, \<open>hmac.new(...).hexdigest()\<close> is
  \<open>hmac\<close>. The locale \<open>budget_gate\<close> states what a ledger relies on of a gate and
  carries the exposure bound; the gate of the code is an interpretation of it.
\<close>

section \<open>Cohort identity\<close>

text \<open>What the code reads of a parsed statement: a root SELECT with its projections (aliased or
  not), LIMIT, OFFSET, ORDER BY and the rest, or any other statement.\<close>

datatype 'e projection = Aliased 'e string | Plain 'e

datatype ('e, 'r) statement =
    Select "'e projection list" "'e option" "'e option" "'e option" 'r
  | OtherStatement

fun strip_alias :: "'e projection \<Rightarrow> 'e projection" where
  "strip_alias (Aliased e _) = Plain e"
| "strip_alias (Plain e) = Plain e"

definition canonical_statement :: "('e, 'r) statement \<Rightarrow> ('e, 'r) statement" where
  "canonical_statement st = (case st of
       Select es limit offset order rest \<Rightarrow>
         Select (map strip_alias es) limit offset
           (if limit \<noteq> None \<or> offset \<noteq> None then order else None) rest
     | OtherStatement \<Rightarrow> OtherStatement)"

definition canonicalize_cohort_sql ::
    "(string \<Rightarrow> string \<Rightarrow> ('e, 'r) statement list option) \<Rightarrow> (string \<Rightarrow> ('e, 'r) statement \<Rightarrow> string)
      \<Rightarrow> string \<Rightarrow> string \<Rightarrow> string result" where
  "canonicalize_cohort_sql parse render sql dialect =
     (case parse dialect sql of
        None \<Rightarrow> Inl (DisclosureCompositionError ''unable to parse SQL for cohort identity'')
      | Some statements \<Rightarrow>
          (case statements of
             [Select es limit offset order rest] \<Rightarrow>
               Inr (render dialect (canonical_statement (Select es limit offset order rest)))
           | _ \<Rightarrow> Inl (DisclosureCompositionError ''cohort identity requires exactly one SELECT'')))"

definition composition_protected_categories :: "sensitivity_category list" where
  "composition_protected_categories =
     [DIRECT_IDENTIFIER, STABLE_PSEUDONYM, QUASI_IDENTIFIER, SENSITIVE_ATTRIBUTE]"

definition is_protected_release :: "semantic_release \<Rightarrow> bool" where
  "is_protected_release s \<longleftrightarrow> sr_aggregate_functions s \<noteq> []
     \<or> list_ex (\<lambda>out. list_ex (\<lambda>c. gc_category c \<in> set composition_protected_categories)
         (so_sources out)) (sr_outputs s)"

definition build_composition_metadata ::
    "(string \<Rightarrow> string \<Rightarrow> string) \<Rightarrow> (string \<Rightarrow> string result) \<Rightarrow> string \<Rightarrow> semantic_release \<Rightarrow> string
      \<Rightarrow> disclosure_composition result" where
  "build_composition_metadata hmac canonicalize secret_key semantic sql =
     (if length secret_key < 32
      then Inl (DisclosureCompositionError ''cohort HMAC key must be at least 32 bytes'')
      else bindr (canonicalize sql) (\<lambda>canonical_sql.
        validate_composition
         \<lparr>co_protected_release = is_protected_release semantic,
          co_release_family_sha256 = sr_semantic_sha256 semantic,
          co_cohort_hmac_sha256 = hmac secret_key canonical_sql\<rparr>))"

definition validate_event_composition :: "disclosure_event \<Rightarrow> unit result" where
  "validate_event_composition e = (case ev_composition e of
       None \<Rightarrow> Inr ()
     | Some c \<Rightarrow> raise_first
        [(co_release_family_sha256 c \<noteq> sr_semantic_sha256 (ev_semantic e),
            DisclosureCompositionError ''composition release family mismatch''),
         (co_protected_release c \<noteq> is_protected_release (ev_semantic e),
            DisclosureCompositionError ''composition protected-release classification mismatch'')] ())"

section \<open>The budget gate\<close>

text \<open>The loop of \<open>evaluate_composition_history\<close>: it raises on inconsistent metadata,
  returns early on a protected record without metadata, skips what has left the window.\<close>

datatype history_scan = Legacy nat | Prior "disclosure_composition list"

fun scan_history ::
    "int \<Rightarrow> disclosure_record list \<Rightarrow> disclosure_composition list \<Rightarrow> history_scan result" where
  "scan_history horizon [] prior = Inr (Prior prior)"
| "scan_history horizon (r # rs) prior =
     bindr (validate_event_composition (dr_event r)) (\<lambda>_.
       if \<not> is_protected_release (ev_semantic (dr_event r)) then scan_history horizon rs prior
       else case ev_composition (dr_event r) of
           None \<Rightarrow> Inr (Legacy (length prior + 1))
         | Some c \<Rightarrow> if dr_created_at r \<le> horizon then scan_history horizon rs prior
                     else scan_history horizon rs (prior @ [c]))"

definition evaluate_composition_history ::
    "disclosure_budget \<Rightarrow> int \<Rightarrow> disclosure_record list \<Rightarrow> disclosure_event
      \<Rightarrow> composition_evaluation result" where
  "evaluate_composition_history budget now history candidate =
     bindr (validate_event_composition candidate) (\<lambda>_.
       case ev_composition candidate of
         None \<Rightarrow> Inl (DisclosureCompositionError ''candidate is missing composition metadata'')
       | Some composition \<Rightarrow>
           bindr (scan_history (now - bu_window_us budget) history []) (\<lambda>scan.
             case scan of
               Legacy n \<Rightarrow> Inr \<lparr>ce_allowed = False, ce_rule = LEGACY_HISTORY_BLOCK,
                   ce_protected_release = co_protected_release composition,
                   ce_prior_protected_count = n\<rparr>
             | Prior prior \<Rightarrow>
                 Inr (if \<not> co_protected_release composition
                      then \<lparr>ce_allowed = True, ce_rule = UNPROTECTED_RELEASE,
                             ce_protected_release = False, ce_prior_protected_count = length prior\<rparr>
                      else if bu_max_protected_releases budget \<le> int (length prior)
                      then \<lparr>ce_allowed = False, ce_rule = CUMULATIVE_BUDGET_EXHAUSTED,
                             ce_protected_release = True, ce_prior_protected_count = length prior\<rparr>
                      else \<lparr>ce_allowed = True,
                             ce_rule = (if prior = [] then FIRST_PROTECTED_RELEASE
                                        else PROTECTED_RELEASE_WITHIN_BUDGET),
                             ce_protected_release = True,
                             ce_prior_protected_count = length prior\<rparr>)))"

section \<open>The records the gate counts\<close>

definition protected_record :: "disclosure_record \<Rightarrow> bool" where
  "protected_record r \<longleftrightarrow> is_protected_release (ev_semantic (dr_event r))"

definition legacy_record :: "disclosure_record \<Rightarrow> bool" where
  "legacy_record r \<longleftrightarrow> protected_record r \<and> ev_composition (dr_event r) = None"

definition consistent_record :: "disclosure_record \<Rightarrow> bool" where
  "consistent_record r \<longleftrightarrow> validate_event_composition (dr_event r) = Inr ()"

definition in_window :: "int \<Rightarrow> disclosure_record list \<Rightarrow> disclosure_record list" where
  "in_window horizon rs = filter (\<lambda>r. protected_record r \<and> horizon < dr_created_at r) rs"

lemma scan_history_Prior:
  "scan_history h rs prior = Inr (Prior ps) \<Longrightarrow>
     length ps = length prior + length (in_window h rs)
     \<and> (\<forall>r \<in> set rs. consistent_record r \<and> \<not> legacy_record r)"
  by (induction h rs prior rule: scan_history.induct)
    (auto simp: in_window_def protected_record_def legacy_record_def consistent_record_def
      split: if_splits option.splits)

lemma scan_history_total:
  "\<forall>r \<in> set rs. consistent_record r \<and> \<not> legacy_record r \<Longrightarrow>
     \<exists>ps. scan_history h rs prior = Inr (Prior ps)"
  by (induction h rs prior rule: scan_history.induct)
    (auto simp: protected_record_def legacy_record_def consistent_record_def)

lemma scan_history_Legacy:
  "scan_history h rs prior = Inr (Legacy n) \<Longrightarrow> \<exists>r \<in> set rs. legacy_record r"
  by (induction h rs prior rule: scan_history.induct)
    (auto simp: protected_record_def legacy_record_def split: if_splits option.splits)

lemma evaluate_allowedD:
  assumes "evaluate_composition_history budget now history e = Inr ev" and "ce_allowed ev"
  obtains c ps where "ev_composition e = Some c" "validate_event_composition e = Inr ()"
    "scan_history (now - bu_window_us budget) history [] = Inr (Prior ps)"
    "length ps = length (in_window (now - bu_window_us budget) history)"
    "\<forall>r \<in> set history. consistent_record r \<and> \<not> legacy_record r"
    "co_protected_release c \<Longrightarrow> int (length ps) < bu_max_protected_releases budget"
proof -
  let ?h = "now - bu_window_us budget"
  from assms(1) obtain c scan where c: "ev_composition e = Some c"
    and v: "validate_event_composition e = Inr ()"
    and scan: "scan_history ?h history [] = Inr scan"
    unfolding evaluate_composition_history_def by auto
  note eval = assms(1) [unfolded evaluate_composition_history_def c v scan bindr.simps option.case]
  from eval assms(2) obtain ps where ps: "scan = Prior ps"
    and below: "co_protected_release c \<Longrightarrow> int (length ps) < bu_max_protected_releases budget"
    by (cases scan) (auto split: if_splits)
  from scan ps have "length ps = length (in_window ?h history)"
    "\<forall>r \<in> set history. consistent_record r \<and> \<not> legacy_record r"
    by (auto dest: scan_history_Prior)
  with c v scan ps below that show thesis by blast
qed

lemma candidate_protected:
  "validate_event_composition e = Inr () \<Longrightarrow> ev_composition e = Some c \<Longrightarrow>
     co_protected_release c \<longleftrightarrow> is_protected_release (ev_semantic e)"
  by (simp add: validate_event_composition_def)

section \<open>The exposure bound of a gated history\<close>

text \<open>What a ledger relies on: a release the gate admits at time \<open>now\<close>, if it counts,
  finds fewer than \<open>limit\<close> counted records in the window ending at \<open>now\<close>.\<close>

locale budget_gate =
  fixes admits :: "int \<Rightarrow> 'r list \<Rightarrow> 'e \<Rightarrow> bool"
    and counts :: "'r \<Rightarrow> bool"
    and counted_event :: "'e \<Rightarrow> bool"
    and stamp :: "'r \<Rightarrow> int"
    and window :: int
    and limit :: int
  assumes admits_below: "admits now rs e \<Longrightarrow> counted_event e \<Longrightarrow>
      int (length (filter (\<lambda>r. counts r \<and> now - window < stamp r) rs)) < limit"
begin

lemma count_antimono:
  "h \<le> h' \<Longrightarrow> length (filter (\<lambda>r. counts r \<and> h' < stamp r) rs)
     \<le> length (filter (\<lambda>r. counts r \<and> h < stamp r) rs)"
  by (induction rs) auto

lemma count_subset:
  "length (filter (\<lambda>r. counts r \<and> h < stamp r) (filter keep rs))
     \<le> length (filter (\<lambda>r. counts r \<and> h < stamp r) rs)"
  by (induction rs) auto

text \<open>One admitted release keeps the bound for every horizon that the window can have from
  now on.\<close>

lemma admit_keeps_bound:
  assumes bound: "\<And>h. t - window \<le> h \<Longrightarrow>
      int (length (filter (\<lambda>r. counts r \<and> h < stamp r) rs)) \<le> limit"
    and "t \<le> now" and "admits now rs e" and "counts r \<Longrightarrow> counted_event e"
    and "now - window \<le> h"
  shows "int (length (filter (\<lambda>r. counts r \<and> h < stamp r) (rs @ [r]))) \<le> limit"
proof (cases "counts r")
  case True
  have "length (filter (\<lambda>r. counts r \<and> h < stamp r) rs)
      \<le> length (filter (\<lambda>r. counts r \<and> now - window < stamp r) rs)"
    using assms(5) by (rule count_antimono)
  with admits_below [OF assms(3) assms(4) [OF True]] show ?thesis by simp
next
  case False
  with bound [of h] assms(2,5) show ?thesis by simp
qed

end

interpretation composition_gate: budget_gate
  "\<lambda>now rs e. \<exists>ev. evaluate_composition_history budget now rs e = Inr ev \<and> ce_allowed ev"
  protected_record
  "\<lambda>e. is_protected_release (ev_semantic e)"
  dr_created_at
  "bu_window_us budget"
  "bu_max_protected_releases budget"
  for budget
proof unfold_locales
  fix now rs and e :: disclosure_event
  assume "\<exists>ev. evaluate_composition_history budget now rs e = Inr ev \<and> ce_allowed ev"
    and prot: "is_protected_release (ev_semantic e)"
  then obtain ev where "evaluate_composition_history budget now rs e = Inr ev" "ce_allowed ev"
    by blast
  then show "int (length (filter (\<lambda>r. protected_record r \<and> now - bu_window_us budget < dr_created_at r) rs))
      < bu_max_protected_releases budget"
    by (rule evaluate_allowedD) (use prot in \<open>auto simp: in_window_def candidate_protected\<close>)
qed


section \<open>Releases used by the witnesses\<close>

definition sample_semantic :: semantic_release where
  "sample_semantic = \<lparr>sr_source_dataset_urns = [''urn:a''], sr_outputs = [],
     sr_referenced_columns = [], sr_join_columns = [], sr_group_keys = [],
     sr_aggregate_functions = [''COUNT''], sr_minimum_group_size_present = None,
     sr_semantic_sha256 = zero_sha256\<rparr>"

definition sample_subject :: subject_domain where
  "sample_subject = \<lparr>sd_field_path = ''id'', sd_category = STABLE_PSEUDONYM,
     sd_dataset_urns = [''urn:a''], sd_governance_domains = [], sd_namespace_sha256 = zero_sha256\<rparr>"

definition sample_scope :: disclosure_scope where
  "sample_scope = \<lparr>sc_principal_id = ''alice'', sc_agent_id = None, sc_subject = sample_subject,
     sc_scope_sha256 = zero_sha256\<rparr>"

definition sample_composition :: disclosure_composition where
  "sample_composition = \<lparr>co_protected_release = True, co_release_family_sha256 = zero_sha256,
     co_cohort_hmac_sha256 = zero_sha256\<rparr>"

definition sample_event :: "disclosure_composition option \<Rightarrow> disclosure_event" where
  "sample_event c = \<lparr>ev_scope = sample_scope, ev_credential_id = ''cred'',
     ev_receipt_id = ''tj_'' @ replicate 16 CHR ''0'', ev_policy_version = ''0.2.0'',
     ev_semantic = sample_semantic, ev_composition = c\<rparr>"

definition sample_record :: "int \<Rightarrow> disclosure_composition option \<Rightarrow> disclosure_record" where
  "sample_record t c = \<lparr>dr_schema_version = ''1.1'', dr_record_id = ''dl_'' @ replicate 32 CHR ''0'',
     dr_sequence = 1, dr_created_at = t, dr_event = sample_event c, dr_event_sha256 = zero_sha256,
     dr_previous_content_sha256 = None, dr_content_sha256 = zero_sha256\<rparr>"

lemmas sample_event_defs = sample_semantic_def sample_subject_def sample_scope_def
  sample_composition_def sample_event_def sample_record_def

lemma sample_event_protected [simp]: "is_protected_release (ev_semantic (sample_event c))"
  by (simp add: sample_event_defs is_protected_release_def)

lemma sample_event_consistent [simp]:
  "validate_event_composition (sample_event (Some sample_composition)) = Inr ()"
  by (simp add: validate_event_composition_def sample_event_defs is_protected_release_def)

lemma sample_record_simps [simp]:
  "protected_record (sample_record t c)" "legacy_record (sample_record t c) \<longleftrightarrow> c = None"
  "consistent_record (sample_record t (Some sample_composition))"
  "dr_created_at (sample_record t c) = t" "dr_event (sample_record t c) = sample_event c"
  "ev_composition (sample_event c) = c" "co_protected_release sample_composition"
  by (simp_all add: protected_record_def legacy_record_def consistent_record_def
      sample_record_def, simp_all add: sample_event_def sample_composition_def)

section \<open>Properties\<close>

text \<open>C38: over a history of consistent records with composition metadata the gate is exact. It
  reports the number of protected records still inside the rolling window, and allows the
  candidate exactly when the candidate is unprotected or that number is below the budget, with
  the rule the outcome calls for.\<close>

theorem budget_gate_exact:
  assumes "validate_event_composition e = Inr ()" and "ev_composition e = Some c"
    and "\<forall>r \<in> set history. consistent_record r \<and> \<not> legacy_record r"
  shows "\<exists>ev. evaluate_composition_history budget now history e = Inr ev
    \<and> ce_prior_protected_count ev = length (in_window (now - bu_window_us budget) history)
    \<and> ce_protected_release ev = is_protected_release (ev_semantic e)
    \<and> ce_allowed ev = (\<not> is_protected_release (ev_semantic e)
         \<or> int (length (in_window (now - bu_window_us budget) history)) < bu_max_protected_releases budget)
    \<and> ce_rule ev = (if \<not> is_protected_release (ev_semantic e) then UNPROTECTED_RELEASE
         else if \<not> ce_allowed ev then CUMULATIVE_BUDGET_EXHAUSTED
         else if in_window (now - bu_window_us budget) history = [] then FIRST_PROTECTED_RELEASE
         else PROTECTED_RELEASE_WITHIN_BUDGET)"
proof -
  let ?h = "now - bu_window_us budget"
  obtain ps where ps: "scan_history ?h history [] = Inr (Prior ps)"
    using scan_history_total [OF assms(3)] by blast
  then have len: "length ps = length (in_window ?h history)" by (auto dest: scan_history_Prior)
  then have "ps = [] \<longleftrightarrow> in_window ?h history = []" by (metis length_0_conv)
  with len show ?thesis
    using candidate_protected [OF assms(1,2)]
    by (auto simp: evaluate_composition_history_def assms(1,2) ps)
qed

theorem budget_gate_exact_witness:
  "\<exists>ev. evaluate_composition_history default_disclosure_budget 10
       [sample_record 5 (Some sample_composition)] (sample_event (Some sample_composition)) = Inr ev
     \<and> ce_prior_protected_count ev = 1 \<and> ce_allowed ev"
proof -
  have w: "in_window (10 - bu_window_us default_disclosure_budget)
      [sample_record 5 (Some sample_composition)] = [sample_record 5 (Some sample_composition)]"
    by (simp add: in_window_def default_disclosure_budget_def)
  show ?thesis
    using budget_gate_exact [of "sample_event (Some sample_composition)" sample_composition
        "[sample_record 5 (Some sample_composition)]" default_disclosure_budget 10]
    unfolding w by (auto simp: default_disclosure_budget_def)
qed

text \<open>One protected record that predates composition metadata makes every later candidate
  of its scope fail closed, whatever the budget, the clock and the rest of the history.\<close>

theorem legacy_history_fails_closed:
  assumes "r \<in> set history" and "is_protected_release (ev_semantic (dr_event r))"
    and "ev_composition (dr_event r) = None"
  shows "\<not> (\<exists>ev. evaluate_composition_history budget now history e = Inr ev \<and> ce_allowed ev)"
proof
  assume "\<exists>ev. evaluate_composition_history budget now history e = Inr ev \<and> ce_allowed ev"
  then obtain ev where "evaluate_composition_history budget now history e = Inr ev" "ce_allowed ev"
    by blast
  then have "\<not> legacy_record r" by (rule evaluate_allowedD) (use assms(1) in blast)
  with assms(2,3) show False by (simp add: legacy_record_def protected_record_def)
qed

theorem legacy_history_fails_closed_witness:
  "\<not> (\<exists>ev. evaluate_composition_history default_disclosure_budget 10
       [sample_record 5 None] (sample_event (Some sample_composition)) = Inr ev \<and> ce_allowed ev)"
  by (rule legacy_history_fails_closed [of "sample_record 5 None"]) simp_all

text \<open>The budget recovers as the window rolls. What the gate allows now it allows at every
  later time over the same history, and once every protected record has left the window a
  protected candidate counts as the first release again.\<close>

theorem budget_recovers:
  assumes "evaluate_composition_history budget now history e = Inr ev"
    and "ce_rule ev \<noteq> LEGACY_HISTORY_BLOCK" and "now \<le> later"
    and "1 \<le> bu_max_protected_releases budget"
  shows "\<exists>ev'. evaluate_composition_history budget later history e = Inr ev'
    \<and> (ce_allowed ev \<longrightarrow> ce_allowed ev')
    \<and> ce_prior_protected_count ev' \<le> ce_prior_protected_count ev
    \<and> ((\<forall>r \<in> set history. dr_created_at r + bu_window_us budget \<le> later)
         \<longrightarrow> ce_allowed ev' \<and> ce_prior_protected_count ev' = 0)"
proof -
  let ?h = "now - bu_window_us budget" and ?h' = "later - bu_window_us budget"
  from assms(1) obtain c scan where c: "ev_composition e = Some c"
    and v: "validate_event_composition e = Inr ()"
    and scan: "scan_history ?h history [] = Inr scan"
    unfolding evaluate_composition_history_def by auto
  with assms(1,2) obtain ps where "scan = Prior ps"
    by (cases scan) (auto simp: evaluate_composition_history_def)
  with scan have ok: "\<forall>r \<in> set history. consistent_record r \<and> \<not> legacy_record r"
    by (auto dest: scan_history_Prior)
  have fewer: "length (in_window ?h' history) \<le> length (in_window ?h history)"
    unfolding in_window_def using assms(3)
    by (intro composition_gate.count_antimono) simp
  have expired: "in_window ?h' history = []"
    if "\<forall>r \<in> set history. dr_created_at r + bu_window_us budget \<le> later"
    using that by (auto simp: in_window_def filter_empty_conv)
  from budget_gate_exact [OF v c ok, of budget now] assms(1)
  have ev: "ce_prior_protected_count ev = length (in_window ?h history)"
    "ce_allowed ev \<longleftrightarrow> \<not> is_protected_release (ev_semantic e)
       \<or> int (length (in_window ?h history)) < bu_max_protected_releases budget" by auto
  from budget_gate_exact [OF v c ok, of budget later] obtain ev' where
    "evaluate_composition_history budget later history e = Inr ev'"
    "ce_prior_protected_count ev' = length (in_window ?h' history)"
    "ce_allowed ev' \<longleftrightarrow> \<not> is_protected_release (ev_semantic e)
       \<or> int (length (in_window ?h' history)) < bu_max_protected_releases budget" by blast
  with ev fewer expired assms(4) show ?thesis by auto
qed

theorem budget_recovers_witness:
  "\<exists>ev ev'. evaluate_composition_history \<lparr>bu_max_protected_releases = 1, bu_window_us = 100\<rparr> 10
       [sample_record 5 (Some sample_composition)] (sample_event (Some sample_composition)) = Inr ev
     \<and> \<not> ce_allowed ev
     \<and> evaluate_composition_history \<lparr>bu_max_protected_releases = 1, bu_window_us = 100\<rparr> 105
       [sample_record 5 (Some sample_composition)] (sample_event (Some sample_composition)) = Inr ev'
     \<and> ce_allowed ev'"
proof -
  let ?b = "\<lparr>bu_max_protected_releases = 1, bu_window_us = 100\<rparr> :: disclosure_budget"
  let ?rs = "[sample_record 5 (Some sample_composition)]" and ?e = "sample_event (Some sample_composition)"
  obtain ev where ev: "evaluate_composition_history ?b 10 ?rs ?e = Inr ev" "\<not> ce_allowed ev"
      "ce_rule ev \<noteq> LEGACY_HISTORY_BLOCK"
    by (simp add: evaluate_composition_history_def)
  with budget_recovers [OF ev(1) ev(3), of 105] show ?thesis by auto
qed

text \<open>A caller cannot change the cohort identity of a query by renaming its output columns,
  nor by reordering rows when there is no row limit: two statements that differ only so get the
  same composition metadata.\<close>

theorem cohort_identity_ignores_aliases:
  assumes "parse dialect sql = Some [Select es limit offset order rest]"
    and "parse dialect sql' = Some [Select es' limit offset order' rest]"
    and "map strip_alias es = map strip_alias es'"
    and "order = order' \<or> limit = None \<and> offset = None"
  shows "build_composition_metadata hmac (\<lambda>q. canonicalize_cohort_sql parse render q dialect) key semantic sql
       = build_composition_metadata hmac (\<lambda>q. canonicalize_cohort_sql parse render q dialect) key semantic sql'"
  using assms by (auto simp: build_composition_metadata_def canonicalize_cohort_sql_def
      canonical_statement_def)

theorem cohort_identity_ignores_aliases_witness:
  "build_composition_metadata (\<lambda>k s. zero_sha256)
     (\<lambda>q. canonicalize_cohort_sql
        (\<lambda>d q. Some [Select [Aliased ''n'' q] None None (if q = ''a'' then Some ''n'' else None) ()])
        (\<lambda>d st. ''select'') q ''duckdb'') (replicate 32 CHR ''k'') sample_semantic ''a''
   = build_composition_metadata (\<lambda>k s. zero_sha256)
     (\<lambda>q. canonicalize_cohort_sql
        (\<lambda>d q. Some [Select [Aliased ''n'' q] None None (if q = ''a'' then Some ''n'' else None) ()])
        (\<lambda>d st. ''select'') q ''duckdb'') (replicate 32 CHR ''k'') sample_semantic ''b''"
  by (rule cohort_identity_ignores_aliases [where es = "[Aliased ''n'' ''a'']"
        and es' = "[Aliased ''n'' ''b'']" and limit = None and offset = None
        and order = "Some ''n''" and order' = None and rest = "()"]) simp_all

end
