(* ===== verification/Ledger.thy ===== *)
theory Ledger
  imports Composition
begin

text \<open>
  The append-only, hash-chained disclosure ledger of
  \<open>src/toxicjoin/disclosure/ledger.py\<close>. The SQLite file is a record of its tables: the
  rows of \<open>disclosure_records\<close> and of \<open>disclosure_authorization_claims\<close>. An
  operation maps the database to its result and the new database; BEGIN IMMEDIATE makes each
  one atomic and ROLLBACK gives the old database back. The column \<open>payload_json\<close> is
  held as what \<open>json.loads\<close> and the field types make of it (\<open>None\<close> when that
  fails); the model's validators run on every read. Fresh UUIDs and clock readings are inputs.
\<close>

section \<open>Tables and environment\<close>

record ledger_row =
  lr_sequence :: int
  lr_record_id :: string
  lr_scope_sha256 :: string
  lr_receipt_id :: string
  lr_event_sha256 :: string
  lr_previous_content_sha256 :: "string option"
  lr_content_sha256 :: string
  lr_payload :: "disclosure_record option"

record claim_row =
  cl_record_id :: string
  cl_authorization_id :: string
  cl_receipt_id :: string
  cl_content_sha256 :: string

record ledger_db =
  db_records :: "ledger_row list"
  db_claims :: "claim_row list"

text \<open>What an open ledger object holds: the hash, the timestamp text, the cohort key with the
  keyed hash and the canonicaliser it feeds, and the budget.\<close>

record ledger_env =
  le_H :: "string \<Rightarrow> string"
  le_ts :: "int \<Rightarrow> string"
  le_hmac :: "string \<Rightarrow> string \<Rightarrow> string"
  le_canonicalize :: "string \<Rightarrow> string \<Rightarrow> string result"
  le_cohort_key :: string
  le_budget :: disclosure_budget

text \<open>The outside of one call: the fresh UUID, the clock when the gate evaluates and the clock
  when the record is created.\<close>

record ledger_io =
  io_uuid :: string
  io_now :: int
  io_created :: int

section \<open>Rows and records\<close>

definition row_indexes_match :: "ledger_row \<Rightarrow> disclosure_record \<Rightarrow> bool" where
  "row_indexes_match row r \<longleftrightarrow> lr_sequence row = dr_sequence r \<and> lr_record_id row = dr_record_id r
     \<and> lr_scope_sha256 row = sc_scope_sha256 (ev_scope (dr_event r))
     \<and> lr_receipt_id row = ev_receipt_id (dr_event r) \<and> lr_event_sha256 row = dr_event_sha256 r
     \<and> lr_previous_content_sha256 row = dr_previous_content_sha256 r
     \<and> lr_content_sha256 row = dr_content_sha256 r"

definition row_to_record :: "ledger_env \<Rightarrow> ledger_row \<Rightarrow> disclosure_record result" where
  "row_to_record env row =
     (let invalid = Inl (DisclosureLedgerIntegrityError ''persisted disclosure record failed validation'')
      in case lr_payload row of
           None \<Rightarrow> invalid
         | Some raw \<Rightarrow>
             (case validate_record (le_H env) (le_ts env) raw of
                Inl _ \<Rightarrow> invalid
              | Inr r \<Rightarrow>
                  (case validate_event_composition (dr_event r) of
                     Inl _ \<Rightarrow> invalid
                   | Inr _ \<Rightarrow>
                       if \<not> row_indexes_match row r
                       then Inl (DisclosureLedgerIntegrityError
                              ''disclosure ledger index fields do not match payload'')
                       else Inr r)))"

definition commitment_of :: "disclosure_record \<Rightarrow> disclosure_commitment" where
  "commitment_of r = \<lparr>cm_record_id = dr_record_id r, cm_receipt_id = ev_receipt_id (dr_event r),
     cm_scope_sha256 = sc_scope_sha256 (ev_scope (dr_event r)),
     cm_event_sha256 = dr_event_sha256 r, cm_content_sha256 = dr_content_sha256 r\<rparr>"

definition same_privacy_scope :: "disclosure_scope \<Rightarrow> disclosure_scope \<Rightarrow> bool" where
  "same_privacy_scope l r \<longleftrightarrow> sc_scope_sha256 l = sc_scope_sha256 r
     \<and> sc_principal_id l = sc_principal_id r \<and> sc_agent_id l = sc_agent_id r
     \<and> sd_namespace_sha256 (sc_subject l) = sd_namespace_sha256 (sc_subject r)
     \<and> py_casefold (sd_field_path (sc_subject l)) = py_casefold (sd_field_path (sc_subject r))
     \<and> sd_category (sc_subject l) = sd_category (sc_subject r)"

definition protected_count :: "disclosure_record list \<Rightarrow> nat" where
  "protected_count rs = length (filter (\<lambda>r. is_protected_release (ev_semantic (dr_event r))) rs)"

section \<open>Reading a scope\<close>

definition select_scope :: "'x ledger_db_scheme \<Rightarrow> string \<Rightarrow> ledger_row list" where
  "select_scope db scope_sha256 =
     sort_key lr_sequence (filter (\<lambda>row. lr_scope_sha256 row = scope_sha256) (db_records db))"

fun check_chain :: "disclosure_scope \<Rightarrow> string option \<Rightarrow> disclosure_record list \<Rightarrow> unit result" where
  "check_chain scope previous [] = Inr ()"
| "check_chain scope previous (r # rs) =
     (if \<not> same_privacy_scope (ev_scope (dr_event r)) scope
      then Inl (DisclosureLedgerIntegrityError ''scope payload does not match index'')
      else if dr_previous_content_sha256 r \<noteq> previous
      then Inl (DisclosureLedgerIntegrityError ''disclosure scope hash chain is broken'')
      else check_chain scope (Some (dr_content_sha256 r)) rs)"

definition records_for_scope ::
    "ledger_env \<Rightarrow> 'x ledger_db_scheme \<Rightarrow> disclosure_scope \<Rightarrow> disclosure_record list result" where
  "records_for_scope env db scope =
     bindr (mapr (row_to_record env) (select_scope db (sc_scope_sha256 scope))) (\<lambda>records.
       bindr (check_chain scope None records) (\<lambda>_. Inr records))"

definition existing_receipt ::
    "ledger_env \<Rightarrow> 'x ledger_db_scheme \<Rightarrow> string \<Rightarrow> disclosure_record option result" where
  "existing_receipt env db receipt_id =
     (case find (\<lambda>row. lr_receipt_id row = receipt_id) (db_records db) of
        None \<Rightarrow> Inr None
      | Some row \<Rightarrow> bindr (row_to_record env row) (\<lambda>r. Inr (Some r)))"

definition record_for_commitment ::
    "ledger_env \<Rightarrow> 'x ledger_db_scheme \<Rightarrow> disclosure_commitment \<Rightarrow> disclosure_record result" where
  "record_for_commitment env db c =
     (case find (\<lambda>row. lr_record_id row = cm_record_id c) (db_records db) of
        None \<Rightarrow> Inl (DisclosureLedgerIntegrityError ''disclosure commitment record is missing'')
      | Some row \<Rightarrow> bindr (row_to_record env row) (\<lambda>r.
          if commitment_of r \<noteq> c
          then Inl (DisclosureLedgerIntegrityError ''disclosure commitment hash mismatch'')
          else Inr r))"

definition read_receipt :: "ledger_env \<Rightarrow> 'x ledger_db_scheme \<Rightarrow> string \<Rightarrow> disclosure_record result" where
  "read_receipt env db receipt_id =
     (case find (\<lambda>row. lr_receipt_id row = receipt_id) (db_records db) of
        None \<Rightarrow> Inl (KeyError receipt_id)
      | Some row \<Rightarrow> row_to_record env row)"

definition list_for_scope ::
    "ledger_env \<Rightarrow> 'x ledger_db_scheme \<Rightarrow> disclosure_scope \<Rightarrow> disclosure_record list result" where
  "list_for_scope env db scope = records_for_scope env db scope"

section \<open>Appending\<close>

definition insert_record :: "'x ledger_db_scheme \<Rightarrow> ledger_row \<Rightarrow> 'x ledger_db_scheme result" where
  "insert_record db row =
     (if list_ex (\<lambda>old. lr_sequence old = lr_sequence row \<or> lr_record_id old = lr_record_id row
            \<or> lr_receipt_id old = lr_receipt_id row) (db_records db)
      then Inl (SqliteIntegrityError ''UNIQUE constraint failed'')
      else Inr (db\<lparr>db_records := db_records db @ [row]\<rparr>))"

definition next_sequence :: "'x ledger_db_scheme \<Rightarrow> int" where
  "next_sequence db = (if db_records db = [] then 0 else Max (lr_sequence ` set (db_records db))) + 1"

definition new_record ::
    "ledger_env \<Rightarrow> 'x ledger_db_scheme \<Rightarrow> ledger_io \<Rightarrow> disclosure_event \<Rightarrow> disclosure_record list
      \<Rightarrow> disclosure_record" where
  "new_record env db io event history =
     (let provisional = \<lparr>dr_schema_version = (if ev_composition event = None then ''1.0'' else ''1.1''),
            dr_record_id = ''dl_'' @ io_uuid io, dr_sequence = next_sequence db,
            dr_created_at = io_created io, dr_event = event,
            dr_event_sha256 = compute_event_sha256 (le_H env) event,
            dr_previous_content_sha256 =
              (if history = [] then None else Some (dr_content_sha256 (last history))),
            dr_content_sha256 = zero_sha256\<rparr>
      in provisional\<lparr>dr_content_sha256 := compute_record_sha256 (le_H env) (le_ts env) provisional\<rparr>)"

definition row_of :: "disclosure_record \<Rightarrow> ledger_row" where
  "row_of r = \<lparr>lr_sequence = dr_sequence r, lr_record_id = dr_record_id r,
     lr_scope_sha256 = sc_scope_sha256 (ev_scope (dr_event r)),
     lr_receipt_id = ev_receipt_id (dr_event r), lr_event_sha256 = dr_event_sha256 r,
     lr_previous_content_sha256 = dr_previous_content_sha256 r,
     lr_content_sha256 = dr_content_sha256 r, lr_payload = Some r\<rparr>"

definition append_event ::
    "ledger_env \<Rightarrow> 'x ledger_db_scheme \<Rightarrow> ledger_io \<Rightarrow> disclosure_event \<Rightarrow> disclosure_record list
      \<Rightarrow> (disclosure_record \<times> 'x ledger_db_scheme) result" where
  "append_event env db io event history =
     bindr (validate_event_composition event) (\<lambda>_.
       bindr (validate_record (le_H env) (le_ts env) (new_record env db io event history)) (\<lambda>r.
         bindr (insert_record db (row_of r)) (\<lambda>db'. Inr (r, db'))))"

text \<open>A transaction commits the new database with a result or rolls back with an error.\<close>

fun finish :: "(error \<Rightarrow> error) \<Rightarrow> 's \<Rightarrow> ('a \<times> 's) result \<Rightarrow> 'a result \<times> 's" where
  "finish handler db (Inl e) = (Inl (handler e), db)"
| "finish handler db (Inr (x, db')) = (Inr x, db')"

fun append_handler :: "error \<Rightarrow> error" where
  "append_handler (SqliteIntegrityError _) = DisclosureLedgerConflict ''disclosure ledger uniqueness conflict''"
| "append_handler e = e"

definition ledger_append ::
    "ledger_env \<Rightarrow> 'x ledger_db_scheme \<Rightarrow> ledger_io \<Rightarrow> disclosure_event
      \<Rightarrow> disclosure_record result \<times> 'x ledger_db_scheme" where
  "ledger_append env db io event = finish append_handler db
     (bindr (records_for_scope env db (ev_scope event)) (\<lambda>history.
      bindr (existing_receipt env db (ev_receipt_id event)) (\<lambda>existing.
      case existing of
        Some old \<Rightarrow> if dr_event old \<noteq> event
          then Inl (DisclosureLedgerConflict ''receipt_id already records different disclosure content'')
          else Inr (old, db)
      | None \<Rightarrow> append_event env db io event history)))"

section \<open>Evaluate and commit\<close>

definition bind_event ::
    "ledger_env \<Rightarrow> disclosure_event \<Rightarrow> string \<Rightarrow> string \<Rightarrow> disclosure_event result" where
  "bind_event env event sql dialect =
     bindr (build_composition_metadata (le_hmac env) (le_canonicalize env dialect)
              (le_cohort_key env) (ev_semantic event) sql) (\<lambda>composition.
       validate_event (le_H env) (event\<lparr>ev_composition := Some composition\<rparr>))"

fun evaluate_handler :: "error \<Rightarrow> error" where
  "evaluate_handler (DisclosureCompositionError _) = DisclosureLedgerIntegrityError
     ''cumulative disclosure state could not be evaluated safely''"
| "evaluate_handler (SqliteIntegrityError _) = DisclosureLedgerIntegrityError
     ''cumulative disclosure state could not be evaluated safely''"
| "evaluate_handler e = e"

definition denied :: "composition_evaluation \<Rightarrow> composition_decision result" where
  "denied ev = validate_composition_decision \<lparr>cd_allowed = False, cd_rule = ce_rule ev,
     cd_protected_release = ce_protected_release ev,
     cd_prior_protected_count = ce_prior_protected_count ev, cd_commitment = None\<rparr>"

definition committed :: "composition_evaluation \<Rightarrow> disclosure_record \<Rightarrow> composition_decision result" where
  "committed ev r = validate_composition_decision \<lparr>cd_allowed = True, cd_rule = ce_rule ev,
     cd_protected_release = ce_protected_release ev,
     cd_prior_protected_count = ce_prior_protected_count ev, cd_commitment = Some (commitment_of r)\<rparr>"

definition replayed ::
    "disclosure_event \<Rightarrow> disclosure_record list \<Rightarrow> disclosure_record \<Rightarrow> composition_decision result" where
  "replayed event history old = validate_composition_decision
     \<lparr>cd_allowed = True, cd_rule = IDEMPOTENT_REPLAY,
      cd_protected_release = is_protected_release (ev_semantic event),
      cd_prior_protected_count = protected_count history, cd_commitment = Some (commitment_of old)\<rparr>"

text \<open>\<open>DisclosureLedger.evaluate_and_commit\<close> of the base ledger.\<close>

definition base_commit_txn ::
    "ledger_env \<Rightarrow> 'x ledger_db_scheme \<Rightarrow> ledger_io \<Rightarrow> disclosure_event
      \<Rightarrow> (composition_decision \<times> 'x ledger_db_scheme) result" where
  "base_commit_txn env db io bound =
     bindr (records_for_scope env db (ev_scope bound)) (\<lambda>history.
     bindr (existing_receipt env db (ev_receipt_id bound)) (\<lambda>existing.
     case existing of
       Some old \<Rightarrow>
         if dr_event old \<noteq> bound
         then Inl (DisclosureLedgerConflict ''receipt_id already records different disclosure content'')
         else if old \<notin> set history
         then Inl (DisclosureLedgerIntegrityError
                ''receipt index points outside validated privacy scope history'')
         else bindr (replayed bound history old) (\<lambda>d. Inr (d, db))
     | None \<Rightarrow>
         bindr (evaluate_composition_history (le_budget env) (io_now io) history bound) (\<lambda>ev.
           if \<not> ce_allowed ev then bindr (denied ev) (\<lambda>d. Inr (d, db))
           else bindr (append_event env db io bound history) (\<lambda>(r, db').
                  bindr (committed ev r) (\<lambda>d. Inr (d, db'))))))"

definition base_evaluate_and_commit ::
    "ledger_env \<Rightarrow> 'x ledger_db_scheme \<Rightarrow> ledger_io \<Rightarrow> disclosure_event \<Rightarrow> string \<Rightarrow> string
      \<Rightarrow> composition_decision result \<times> 'x ledger_db_scheme" where
  "base_evaluate_and_commit env db io event sql dialect =
     (case bindr (bind_event env event sql dialect)
             (\<lambda>bound. bindr (validate_event_composition bound) (\<lambda>_. Inr bound)) of
        Inl e \<Rightarrow> (Inl e, db)
      | Inr bound \<Rightarrow> finish evaluate_handler db (base_commit_txn env db io bound))"

section \<open>Commitments and claims\<close>

definition base_verify_commitment ::
    "ledger_env \<Rightarrow> 'x ledger_db_scheme \<Rightarrow> disclosure_commitment \<Rightarrow> disclosure_event \<Rightarrow> string \<Rightarrow> string
      \<Rightarrow> disclosure_record result" where
  "base_verify_commitment env db c event sql dialect =
     bindr (bind_event env event sql dialect) (\<lambda>bound.
     bindr (list_for_scope env db (ev_scope bound)) (\<lambda>history.
       case filter (\<lambda>r. ev_receipt_id (dr_event r) = cm_receipt_id c) history of
         [r] \<Rightarrow>
           if dr_event r \<noteq> bound
           then Inl (DisclosureLedgerIntegrityError
                  ''disclosure commitment does not match current governed release'')
           else if commitment_of r \<noteq> c
           then Inl (DisclosureLedgerIntegrityError ''disclosure commitment hash mismatch'')
           else Inr r
       | _ \<Rightarrow> Inl (DisclosureLedgerIntegrityError ''disclosure commitment receipt is not unique'')))"

definition is_authorization_id :: "string \<Rightarrow> bool" where
  "is_authorization_id s \<longleftrightarrow> has_prefix_hex ''tj_auth_'' 32 s"

definition find_claim :: "'x ledger_db_scheme \<Rightarrow> string \<Rightarrow> claim_row option" where
  "find_claim db record_id = find (\<lambda>cl. cl_record_id cl = record_id) (db_claims db)"

definition insert_claim :: "'x ledger_db_scheme \<Rightarrow> claim_row \<Rightarrow> 'x ledger_db_scheme result" where
  "insert_claim db cl =
     (if list_ex (\<lambda>old. cl_record_id old = cl_record_id cl
           \<or> cl_authorization_id old = cl_authorization_id cl) (db_claims db)
      then Inl (SqliteIntegrityError ''UNIQUE constraint failed'')
      else Inr (db\<lparr>db_claims := db_claims db @ [cl]\<rparr>))"

fun claim_handler :: "error \<Rightarrow> error" where
  "claim_handler (SqliteIntegrityError _) = DisclosureCommitmentReplay
     ''disclosure commitment claim uniqueness conflict''"
| "claim_handler e = e"

definition base_claim_commitment ::
    "ledger_env \<Rightarrow> 'x ledger_db_scheme \<Rightarrow> disclosure_commitment \<Rightarrow> string
      \<Rightarrow> unit result \<times> 'x ledger_db_scheme" where
  "base_claim_commitment env db c authorization_id =
     (if \<not> is_authorization_id authorization_id
      then (Inl (ValueError ''invalid execution authorization ID''), db)
      else finish claim_handler db
        (bindr (record_for_commitment env db c) (\<lambda>r.
           case find_claim db (cm_record_id c) of
             Some _ \<Rightarrow> Inl (DisclosureCommitmentReplay
                          ''disclosure commitment was already claimed for execution'')
           | None \<Rightarrow> bindr (insert_claim db
                 \<lparr>cl_record_id = dr_record_id r, cl_authorization_id = authorization_id,
                  cl_receipt_id = ev_receipt_id (dr_event r),
                  cl_content_sha256 = dr_content_sha256 r\<rparr>) (\<lambda>db'. Inr ((), db')))))"

definition base_verify_authorization_claim ::
    "ledger_env \<Rightarrow> 'x ledger_db_scheme \<Rightarrow> disclosure_commitment \<Rightarrow> string \<Rightarrow> unit result" where
  "base_verify_authorization_claim env db c authorization_id =
     (if \<not> is_authorization_id authorization_id
      then Inl (DisclosureLedgerIntegrityError ''invalid claimed authorization ID'')
      else bindr (record_for_commitment env db c) (\<lambda>r.
        case find_claim db (cm_record_id c) of
          None \<Rightarrow> Inl (DisclosureLedgerIntegrityError ''disclosure commitment has no authorization claim'')
        | Some cl \<Rightarrow>
            if cl_authorization_id cl \<noteq> authorization_id \<or> cl_receipt_id cl \<noteq> cm_receipt_id c
               \<or> cl_content_sha256 cl \<noteq> cm_content_sha256 c
               \<or> dr_content_sha256 r \<noteq> cm_content_sha256 c
            then Inl (DisclosureLedgerIntegrityError
                   ''disclosure authorization claim does not match commitment'')
            else Inr ()))"

section \<open>Verifying everything\<close>

definition verify_claim :: "ledger_env \<Rightarrow> 'x ledger_db_scheme \<Rightarrow> claim_row \<Rightarrow> unit result" where
  "verify_claim env db cl =
     (case find (\<lambda>row. lr_record_id row = cl_record_id cl) (db_records db) of
        None \<Rightarrow> Inl (DisclosureLedgerIntegrityError
                  ''authorization claim references missing disclosure record'')
      | Some row \<Rightarrow> bindr (row_to_record env row) (\<lambda>r.
          if \<not> is_authorization_id (cl_authorization_id cl)
             \<or> cl_receipt_id cl \<noteq> ev_receipt_id (dr_event r)
             \<or> cl_content_sha256 cl \<noteq> dr_content_sha256 r
          then Inl (DisclosureLedgerIntegrityError ''authorization claim does not match disclosure record'')
          else Inr ()))"

definition verify_all_claims :: "ledger_env \<Rightarrow> 'x ledger_db_scheme \<Rightarrow> unit result" where
  "verify_all_claims env db =
     bindr (mapr (verify_claim env db) (sort_key cl_record_id (db_claims db))) (\<lambda>_. Inr ())"

definition verify_scope :: "ledger_env \<Rightarrow> 'x ledger_db_scheme \<Rightarrow> string \<Rightarrow> nat result" where
  "verify_scope env db scope_sha256 =
     (case select_scope db scope_sha256 of
        [] \<Rightarrow> Inr 0
      | first # _ \<Rightarrow> bindr (row_to_record env first) (\<lambda>r.
          bindr (list_for_scope env db (ev_scope (dr_event r))) (\<lambda>rs. Inr (length rs))))"

definition base_verify_all :: "ledger_env \<Rightarrow> 'x ledger_db_scheme \<Rightarrow> nat result" where
  "base_verify_all env db =
     bindr (mapr (verify_scope env db) (remdups (map lr_scope_sha256 (db_records db)))) (\<lambda>counts.
     bindr (verify_all_claims env db) (\<lambda>_. Inr (sum_list counts)))"

section \<open>Scopes\<close>

text \<open>\<open>_same_privacy_scope\<close> is an equivalence, and a chain check depends on the scope
  only through its class.\<close>

lemma same_privacy_scope_refl [simp]: "same_privacy_scope s s"
  by (simp add: same_privacy_scope_def)

lemma same_privacy_scope_sym: "same_privacy_scope s t \<Longrightarrow> same_privacy_scope t s"
  by (simp add: same_privacy_scope_def)

lemma same_privacy_scope_cong:
  "same_privacy_scope s t \<Longrightarrow> same_privacy_scope u s \<longleftrightarrow> same_privacy_scope u t"
  by (auto simp: same_privacy_scope_def)

lemma check_chain_cong: "same_privacy_scope s t \<Longrightarrow> check_chain s p rs = check_chain t p rs"
  by (induction s p rs rule: check_chain.induct) (simp_all add: same_privacy_scope_cong)

lemma check_chain_append:
  "check_chain s p (rs @ [r]) = bindr (check_chain s p rs) (\<lambda>_.
     check_chain s (if rs = [] then p else Some (dr_content_sha256 (last rs))) [r])"
  by (induction s p rs rule: check_chain.induct) simp_all

lemma check_chain_same_scope:
  "check_chain s p rs = Inr u \<Longrightarrow> r \<in> set rs \<Longrightarrow> same_privacy_scope (ev_scope (dr_event r)) s"
  by (induction s p rs rule: check_chain.induct) (auto split: if_splits)

text \<open>What a passed chain check says: every record links to its predecessor.\<close>

definition linked :: "disclosure_record list \<Rightarrow> bool" where
  "linked rs \<longleftrightarrow> (\<forall>i < length rs. dr_previous_content_sha256 (rs ! i) =
      (if i = 0 then None else Some (dr_content_sha256 (rs ! (i - 1)))))"

lemma check_chain_links:
  "check_chain s p rs = Inr u \<Longrightarrow> i < length rs \<Longrightarrow>
     dr_previous_content_sha256 (rs ! i) = (if i = 0 then p else Some (dr_content_sha256 (rs ! (i - 1))))"
proof (induction s p rs arbitrary: i rule: check_chain.induct)
  case (2 s p r rs)
  then show ?case by (cases i) (auto split: if_splits simp: nth_Cons')
qed simp

lemma check_chain_linked: "check_chain s None rs = Inr u \<Longrightarrow> linked rs"
  unfolding linked_def using check_chain_links [of s None rs u] by simp

section \<open>Rows\<close>

lemma row_to_record_Inr:
  "row_to_record env row = Inr r \<longleftrightarrow> lr_payload row = Some r
     \<and> validate_record (le_H env) (le_ts env) r = Inr r
     \<and> validate_event_composition (dr_event r) = Inr () \<and> row_indexes_match row r"
proof (cases "lr_payload row")
  case (Some raw)
  show ?thesis
  proof (cases "validate_record (le_H env) (le_ts env) raw")
    case (Inr r')
    then have [simp]: "r' = raw" by (rule validate_record_same)
    show ?thesis
      by (cases "validate_event_composition (dr_event raw)")
        (use Some Inr in \<open>auto simp: row_to_record_def Let_def\<close>)
  qed (use Some in \<open>auto simp: row_to_record_def\<close>)
qed (simp add: row_to_record_def)

lemma row_to_record_indexes:
  "row_to_record env row = Inr r \<Longrightarrow> dr_sequence r = lr_sequence row
     \<and> dr_record_id r = lr_record_id row \<and> sc_scope_sha256 (ev_scope (dr_event r)) = lr_scope_sha256 row
     \<and> ev_receipt_id (dr_event r) = lr_receipt_id row \<and> dr_content_sha256 r = lr_content_sha256 row"
  by (simp add: row_to_record_Inr row_indexes_match_def)

lemma row_of_simps [simp]:
  "lr_sequence (row_of r) = dr_sequence r" "lr_record_id (row_of r) = dr_record_id r"
  "lr_scope_sha256 (row_of r) = sc_scope_sha256 (ev_scope (dr_event r))"
  "lr_receipt_id (row_of r) = ev_receipt_id (dr_event r)"
  "lr_content_sha256 (row_of r) = dr_content_sha256 r" "lr_payload (row_of r) = Some r"
  by (simp_all add: row_of_def)

lemma row_to_record_row_of:
  "validate_record (le_H env) (le_ts env) r = Inr r \<Longrightarrow> validate_event_composition (dr_event r) = Inr ()
     \<Longrightarrow> row_to_record env (row_of r) = Inr r"
  by (simp add: row_to_record_Inr row_indexes_match_def row_of_def)

lemma commitment_of_simps [simp]:
  "cm_record_id (commitment_of r) = dr_record_id r"
  "cm_receipt_id (commitment_of r) = ev_receipt_id (dr_event r)"
  "cm_content_sha256 (commitment_of r) = dr_content_sha256 r"
  by (simp_all add: commitment_of_def)

lemma find_unique:
  "distinct (map f xs) \<Longrightarrow> x \<in> set xs \<Longrightarrow> find (\<lambda>y. f y = f x) xs = Some x"
proof (induction xs)
  case (Cons y ys)
  then show ?case by (cases "x = y") (auto simp: image_iff)
qed simp

lemma find_SomeD: "find P xs = Some x \<Longrightarrow> x \<in> set xs \<and> P x"
  by (induction xs) (auto split: if_splits)

lemma find_append: "find P (xs @ ys) = (case find P xs of None \<Rightarrow> find P ys | Some x \<Rightarrow> Some x)"
  by (induction xs) simp_all

lemma sort_key_sorted: "sorted (map f xs) \<Longrightarrow> sort_key f xs = xs"
proof (induction xs)
  case (Cons x xs)
  then have "sort_key f (x # xs) = insort_key f x xs" by simp
  also have "\<dots> = x # xs" using Cons.prems by (intro insort_is_Cons) auto
  finally show ?case .
qed simp

section \<open>The ledger's integrity invariant\<close>

text \<open>Sequence numbers start at 1 and increase with the row order, record and receipt ids are
  unique, every row decodes, and every scope that has a record reads as a valid chain.\<close>

definition scope_reads :: "ledger_env \<Rightarrow> 'x ledger_db_scheme \<Rightarrow> ledger_row \<Rightarrow> bool" where
  "scope_reads env db row \<longleftrightarrow> (\<exists>r rs. row_to_record env row = Inr r
      \<and> records_for_scope env db (ev_scope (dr_event r)) = Inr rs)"

definition records_ok :: "ledger_env \<Rightarrow> 'x ledger_db_scheme \<Rightarrow> bool" where
  "records_ok env db \<longleftrightarrow> sorted_wrt (<) (map lr_sequence (db_records db))
     \<and> distinct (map lr_record_id (db_records db)) \<and> distinct (map lr_receipt_id (db_records db))
     \<and> (\<forall>row \<in> set (db_records db). scope_reads env db row)"

definition claims_ok :: "ledger_env \<Rightarrow> 'x ledger_db_scheme \<Rightarrow> bool" where
  "claims_ok env db \<longleftrightarrow> distinct (map cl_record_id (db_claims db))
     \<and> distinct (map cl_authorization_id (db_claims db))
     \<and> (\<forall>cl \<in> set (db_claims db). verify_claim env db cl = Inr ())"

definition ledger_ok :: "ledger_env \<Rightarrow> 'x ledger_db_scheme \<Rightarrow> bool" where
  "ledger_ok env db \<longleftrightarrow> records_ok env db \<and> claims_ok env db"

lemma records_okD:
  assumes "records_ok env db"
  shows "sorted (map lr_sequence (db_records db))" "distinct (map lr_sequence (db_records db))"
    "distinct (map lr_record_id (db_records db))" "distinct (map lr_receipt_id (db_records db))"
    "\<And>row. row \<in> set (db_records db) \<Longrightarrow> scope_reads env db row"
  using assms by (auto simp: records_ok_def strict_sorted_iff)

lemma select_scope_filter:
  assumes "sorted (map lr_sequence (db_records db))"
  shows "select_scope db s = filter (\<lambda>row. lr_scope_sha256 row = s) (db_records db)"
  unfolding select_scope_def
  by (rule sort_key_sorted) (rule sorted_filter [OF assms])

lemma records_for_scope_Inr:
  "records_for_scope env db scope = Inr rs \<longleftrightarrow>
     list_all2 (\<lambda>row r. row_to_record env row = Inr r) (select_scope db (sc_scope_sha256 scope)) rs
     \<and> check_chain scope None rs = Inr ()"
  by (auto simp: records_for_scope_def mapr_Inr_iff)

lemma records_for_scope_same:
  "same_privacy_scope s t \<Longrightarrow> records_for_scope env db s = records_for_scope env db t"
proof -
  assume same: "same_privacy_scope s t"
  then have "sc_scope_sha256 s = sc_scope_sha256 t" by (simp add: same_privacy_scope_def)
  moreover have "check_chain s None = check_chain t None"
    by (rule ext) (rule check_chain_cong [OF same])
  ultimately show ?thesis by (simp add: records_for_scope_def)
qed

text \<open>The records a scope reads are exactly those of its rows.\<close>

lemma list_all2_set_right:
  "list_all2 (\<lambda>x y. f x = Inr y) xs ys \<Longrightarrow> set ys = {y. \<exists>x \<in> set xs. f x = Inr y}"
  by (induction rule: list_all2_induct) auto

lemma list_all2_left:
  "list_all2 P xs ys \<Longrightarrow> x \<in> set xs \<Longrightarrow> \<exists>y \<in> set ys. P x y"
  by (induction rule: list_all2_induct) auto

lemma records_for_scope_set:
  assumes "records_for_scope env db scope = Inr rs"
  shows "set rs = {r. \<exists>row \<in> set (db_records db). lr_scope_sha256 row = sc_scope_sha256 scope
      \<and> row_to_record env row = Inr r}"
proof -
  have "list_all2 (\<lambda>row r. row_to_record env row = Inr r) (select_scope db (sc_scope_sha256 scope)) rs"
    using assms by (simp add: records_for_scope_Inr)
  then have "set rs = {r. \<exists>row \<in> set (select_scope db (sc_scope_sha256 scope)). row_to_record env row = Inr r}"
    by (rule list_all2_set_right)
  then show ?thesis by (auto simp: select_scope_def)
qed

section \<open>Appending keeps the invariant\<close>

lemma same_records_reads:
  assumes "db_records db' = db_records db"
  shows "select_scope db' = select_scope db" "records_for_scope env db' = records_for_scope env db"
    "records_ok env db' \<longleftrightarrow> records_ok env db" "verify_claim env db' = verify_claim env db"
    "record_for_commitment env db' = record_for_commitment env db"
    "existing_receipt env db' = existing_receipt env db"
proof -
  show sel: "select_scope db' = select_scope db" by (rule ext) (simp add: select_scope_def assms)
  then show rec: "records_for_scope env db' = records_for_scope env db"
    by (intro ext) (simp add: records_for_scope_def)
  show "records_ok env db' \<longleftrightarrow> records_ok env db"
    by (simp add: records_ok_def scope_reads_def assms rec)
qed (simp_all add: fun_eq_iff verify_claim_def record_for_commitment_def existing_receipt_def assms)

lemma new_record_simps [simp]:
  "dr_event (new_record env db io e h) = e"
  "dr_created_at (new_record env db io e h) = io_created io"
  "dr_record_id (new_record env db io e h) = ''dl_'' @ io_uuid io"
  "dr_sequence (new_record env db io e h) = next_sequence db"
  "dr_previous_content_sha256 (new_record env db io e h) =
     (if h = [] then None else Some (dr_content_sha256 (last h)))"
  by (simp_all add: new_record_def Let_def)

lemma next_sequence_above: "row \<in> set (db_records db) \<Longrightarrow> lr_sequence row < next_sequence db"
  by (auto simp: next_sequence_def less_add_one intro!: le_imp_0_less Max_ge le_less_trans [OF Max_ge])

lemma append_event_Inr:
  "append_event env db io e h = Inr (r, db') \<longleftrightarrow> validate_event_composition e = Inr ()
     \<and> r = new_record env db io e h \<and> validate_record (le_H env) (le_ts env) r = Inr r
     \<and> insert_record db (row_of r) = Inr db'"
  by (auto simp: append_event_def dest: validate_record_same)

lemma insert_record_Inr:
  "insert_record db row = Inr db' \<longleftrightarrow> db' = db\<lparr>db_records := db_records db @ [row]\<rparr>
     \<and> (\<forall>old \<in> set (db_records db). lr_sequence old \<noteq> lr_sequence row
          \<and> lr_record_id old \<noteq> lr_record_id row \<and> lr_receipt_id old \<noteq> lr_receipt_id row)"
  by (auto simp: insert_record_def list_ex_iff)

lemma append_eventD:
  assumes "append_event env db io e h = Inr (r, db')"
  shows "db' = db\<lparr>db_records := db_records db @ [row_of r]\<rparr>" "r = new_record env db io e h"
    "row_to_record env (row_of r) = Inr r" "dr_event r = e"
    "\<And>old. old \<in> set (db_records db) \<Longrightarrow> lr_sequence old < dr_sequence r
        \<and> lr_record_id old \<noteq> dr_record_id r \<and> lr_receipt_id old \<noteq> ev_receipt_id e"
proof -
  from assms show r: "r = new_record env db io e h" by (simp add: append_event_Inr)
  then show "dr_event r = e" by simp
  from assms show "db' = db\<lparr>db_records := db_records db @ [row_of r]\<rparr>"
    by (simp add: append_event_Inr insert_record_Inr)
  show "row_to_record env (row_of r) = Inr r"
    by (rule row_to_record_row_of) (use assms in \<open>auto simp: append_event_Inr\<close>)
  show "lr_sequence old < dr_sequence r \<and> lr_record_id old \<noteq> dr_record_id r
      \<and> lr_receipt_id old \<noteq> ev_receipt_id e" if "old \<in> set (db_records db)" for old
    using assms that next_sequence_above [OF that] r by (simp add: append_event_Inr insert_record_Inr)
qed

lemma select_scope_append:
  assumes "records_ok env db" and "append_event env db io e h = Inr (r, db')"
  shows "select_scope db' s = select_scope db s
     @ (if sc_scope_sha256 (ev_scope e) = s then [row_of r] else [])"
proof -
  note app = append_eventD [OF assms(2)]
  have "sorted (map lr_sequence (db_records db'))"
    using records_okD(1) [OF assms(1)] app(1,5)
    by (simp add: sorted_append less_imp_le)
  with records_okD(1) [OF assms(1)] app(1,4) show ?thesis by (simp add: select_scope_filter)
qed

lemma records_for_scope_append_other:
  assumes "records_ok env db" and "append_event env db io e h = Inr (r, db')"
    and "sc_scope_sha256 t \<noteq> sc_scope_sha256 (ev_scope e)"
  shows "records_for_scope env db' t = records_for_scope env db t"
  using select_scope_append [OF assms(1,2)] assms(3) by (simp add: records_for_scope_def)

lemma records_for_scope_append_same:
  assumes "records_ok env db" and "append_event env db io e h = Inr (r, db')"
    and "records_for_scope env db (ev_scope e) = Inr h" and "same_privacy_scope t (ev_scope e)"
  shows "records_for_scope env db' t = Inr (h @ [r])"
proof -
  note app = append_eventD [OF assms(2)]
  have "select_scope db' (sc_scope_sha256 (ev_scope e))
      = select_scope db (sc_scope_sha256 (ev_scope e)) @ [row_of r]"
    by (simp add: select_scope_append [OF assms(1,2)])
  moreover have "check_chain (ev_scope e) None (h @ [r]) = Inr ()"
    using assms(3) app(2,4) by (simp add: check_chain_append records_for_scope_Inr)
  ultimately have "records_for_scope env db' (ev_scope e) = Inr (h @ [r])"
    using assms(3) app(3) by (simp add: records_for_scope_Inr list_all2_appendI)
  then show ?thesis by (simp add: records_for_scope_same [OF assms(4)])
qed

lemma records_ok_append:
  assumes "records_ok env db" and "append_event env db io e h = Inr (r, db')"
    and "records_for_scope env db (ev_scope e) = Inr h"
  shows "records_ok env db'"
proof -
  note app = append_eventD [OF assms(2)]
  have "scope_reads env db' row" if "row \<in> set (db_records db')" for row
  proof (cases "row = row_of r")
    case True
    then show ?thesis
      using records_for_scope_append_same [OF assms same_privacy_scope_refl] app(3,4)
      by (auto simp: scope_reads_def)
  next
    case False
    with that app(1) have old: "row \<in> set (db_records db)" by simp
    then obtain r0 rs where r0: "row_to_record env row = Inr r0"
      "records_for_scope env db (ev_scope (dr_event r0)) = Inr rs"
      using records_okD(5) [OF assms(1) old] unfolding scope_reads_def by blast
    show ?thesis
    proof (cases "sc_scope_sha256 (ev_scope (dr_event r0)) = sc_scope_sha256 (ev_scope e)")
      case True
      with old r0 have "r0 \<in> set h"
        using records_for_scope_set [OF assms(3)] row_to_record_indexes [OF r0(1)] by auto
      with assms(3) have "same_privacy_scope (ev_scope (dr_event r0)) (ev_scope e)"
        by (auto simp: records_for_scope_Inr dest: check_chain_same_scope)
      from records_for_scope_append_same [OF assms this] r0(1) show ?thesis
        by (auto simp: scope_reads_def)
    next
      case False
      from records_for_scope_append_other [OF assms(1,2) False] r0 show ?thesis
        by (auto simp: scope_reads_def)
    qed
  qed
  with assms(1) app show ?thesis
    by (simp add: records_ok_def sorted_wrt_append image_iff) (metis less_irrefl)
qed

lemma verify_claim_append:
  assumes "append_event env db io e h = Inr (r, db')" and "verify_claim env db cl = Inr ()"
  shows "verify_claim env db' cl = Inr ()"
proof -
  from assms(2) obtain row where
    "find (\<lambda>row. lr_record_id row = cl_record_id cl) (db_records db) = Some row"
    unfolding verify_claim_def by auto
  with assms append_eventD(1) [OF assms(1)] show ?thesis
    by (simp add: verify_claim_def find_append)
qed

lemma ledger_ok_append:
  assumes "ledger_ok env db" and "append_event env db io e h = Inr (r, db')"
    and "records_for_scope env db (ev_scope e) = Inr h"
  shows "ledger_ok env db'"
proof -
  have "claims_ok env db'"
    using assms(1) append_eventD(1) [OF assms(2)] verify_claim_append [OF assms(2)]
    by (simp add: ledger_ok_def claims_ok_def)
  with records_ok_append [OF _ assms(2,3)] assms(1) show ?thesis by (simp add: ledger_ok_def)
qed

section \<open>Claims keep the invariant\<close>

lemma insert_claim_Inr:
  "insert_claim db cl = Inr db' \<longleftrightarrow> db' = db\<lparr>db_claims := db_claims db @ [cl]\<rparr>
     \<and> (\<forall>old \<in> set (db_claims db). cl_record_id old \<noteq> cl_record_id cl
          \<and> cl_authorization_id old \<noteq> cl_authorization_id cl)"
  by (auto simp: insert_claim_def list_ex_iff)

lemma record_for_commitment_Inr:
  "record_for_commitment env db c = Inr r \<Longrightarrow> commitment_of r = c
     \<and> (\<exists>row \<in> set (db_records db). find (\<lambda>row. lr_record_id row = cm_record_id c) (db_records db) = Some row
          \<and> row_to_record env row = Inr r)"
  unfolding record_for_commitment_def by (auto dest: find_SomeD split: if_splits)

lemma finish_Inr: "finish f db x = (Inr y, db') \<longleftrightarrow> x = Inr (y, db')"
  by (cases x) auto

lemma finish_Inl: "finish f db x = (Inl e, db') \<Longrightarrow> db' = db"
  by (cases x) auto

lemma base_claim_Inr:
  assumes "base_claim_commitment env db c a = (Inr u, db')"
  obtains r where "is_authorization_id a" "record_for_commitment env db c = Inr r"
    "find_claim db (cm_record_id c) = None"
    "insert_claim db \<lparr>cl_record_id = cm_record_id c, cl_authorization_id = a,
       cl_receipt_id = cm_receipt_id c, cl_content_sha256 = cm_content_sha256 c\<rparr> = Inr db'"
proof -
  from assms have auth: "is_authorization_id a"
    by (auto simp: base_claim_commitment_def split: if_splits)
  from assms obtain r where r: "record_for_commitment env db c = Inr r"
    and none: "find_claim db (cm_record_id c) = None"
    and ins: "insert_claim db \<lparr>cl_record_id = dr_record_id r, cl_authorization_id = a,
       cl_receipt_id = ev_receipt_id (dr_event r), cl_content_sha256 = dr_content_sha256 r\<rparr> = Inr db'"
    by (auto simp: base_claim_commitment_def finish_Inr split: if_splits option.splits)
  moreover from r have "commitment_of r = c" by (auto dest: record_for_commitment_Inr)
  ultimately show thesis using that auth by auto
qed

lemma ledger_ok_claim:
  assumes "ledger_ok env db" and "insert_claim db cl = Inr db'" and "verify_claim env db cl = Inr ()"
  shows "ledger_ok env db'"
proof -
  have db': "db' = db\<lparr>db_claims := db_claims db @ [cl]\<rparr>" using assms(2) by (simp add: insert_claim_Inr)
  then have "db_records db' = db_records db" "db_claims db' = db_claims db @ [cl]" by simp_all
  note same = same_records_reads [OF this(1)] and claims = this(2)
  have fresh: "cl_record_id cl \<notin> cl_record_id ` set (db_claims db)"
    "cl_authorization_id cl \<notin> cl_authorization_id ` set (db_claims db)"
    using assms(2) by (auto simp: insert_claim_Inr)
  with assms(1,3) show ?thesis
    unfolding ledger_ok_def claims_ok_def same claims by simp
qed

lemma claims_ok_insert:
  assumes "ledger_ok env db" and "base_claim_commitment env db c a = (Inr u, db')"
  shows "ledger_ok env db'" "db_records db' = db_records db"
proof -
  from assms(2) obtain r where r: "is_authorization_id a" "record_for_commitment env db c = Inr r"
    "insert_claim db \<lparr>cl_record_id = cm_record_id c, cl_authorization_id = a,
       cl_receipt_id = cm_receipt_id c, cl_content_sha256 = cm_content_sha256 c\<rparr> = Inr db'"
    (is "insert_claim db ?cl = _") by (rule base_claim_Inr)
  then show same: "db_records db' = db_records db" by (simp add: insert_claim_Inr)
  from r(2) have "verify_claim env db ?cl = Inr ()"
    using r(1) by (auto simp: verify_claim_def dest!: record_for_commitment_Inr)
  then show "ledger_ok env db'" by (rule ledger_ok_claim [OF assms(1) r(3)])
qed

section \<open>Verification is exact\<close>

lemma mapr_Inr_char:
  assumes "\<And>x y. x \<in> set xs \<Longrightarrow> f x = Inr y \<longleftrightarrow> y = g x \<and> P x"
  shows "mapr f xs = Inr ys \<longleftrightarrow> ys = map g xs \<and> (\<forall>x \<in> set xs. P x)"
  using assms by (induction xs arbitrary: ys) auto

lemma sum_group_lengths:
  assumes "distinct ks" and "f ` set xs \<subseteq> set ks"
  shows "sum_list (map (\<lambda>k. length (filter (\<lambda>x. f x = k) xs)) ks) = length xs"
  using assms(2)
proof (induction xs)
  case (Cons x xs)
  have "sum_list (map (\<lambda>k. length (filter (\<lambda>y. f y = k) (x # xs))) ks)
      = sum_list (map (\<lambda>k. (if k = f x then 1 else 0) + length (filter (\<lambda>y. f y = k) xs)) ks)"
    by (rule arg_cong [where f = sum_list]) auto
  also have "\<dots> = sum_list (map (\<lambda>k. if k = f x then 1 else 0) ks) + length xs"
    using Cons by (simp add: sum_list_addf)
  also have "sum_list (map (\<lambda>k. if k = f x then 1 else 0) ks) = (1 :: nat)"
    using Cons.prems assms(1) by (simp add: sum_list_distinct_conv_sum_set)
  finally show ?case by simp
qed simp

lemma verify_scope_Inr:
  assumes "s \<in> lr_scope_sha256 ` set (db_records db)"
  shows "verify_scope env db s = Inr k \<longleftrightarrow>
     k = length (filter (\<lambda>row. lr_scope_sha256 row = s) (db_records db))
     \<and> (\<forall>row \<in> set (db_records db). lr_scope_sha256 row = s \<longrightarrow> scope_reads env db row)"
proof -
  have len: "length (select_scope db s) = length (filter (\<lambda>row. lr_scope_sha256 row = s) (db_records db))"
    and set: "set (select_scope db s) = {row \<in> set (db_records db). lr_scope_sha256 row = s}"
    by (simp_all add: select_scope_def)
  from set assms have "select_scope db s \<noteq> []" by (auto simp flip: set_empty2)
  then obtain first rest where sel: "select_scope db s = first # rest" by (cases "select_scope db s") auto
  with set have first: "first \<in> set (db_records db)" "lr_scope_sha256 first = s"
    by (metis (mono_tags, lifting) list.set_intros(1) mem_Collect_eq)+
  have "verify_scope env db s = Inr k \<longleftrightarrow> (\<exists>r rs. row_to_record env first = Inr r
      \<and> records_for_scope env db (ev_scope (dr_event r)) = Inr rs \<and> k = length rs)"
    by (auto simp: verify_scope_def sel list_for_scope_def)
  also have "\<dots> \<longleftrightarrow> k = length (filter (\<lambda>row. lr_scope_sha256 row = s) (db_records db))
     \<and> (\<forall>row \<in> set (db_records db). lr_scope_sha256 row = s \<longrightarrow> scope_reads env db row)"
  proof
    assume "\<exists>r rs. row_to_record env first = Inr r
      \<and> records_for_scope env db (ev_scope (dr_event r)) = Inr rs \<and> k = length rs"
    then obtain r rs where r: "row_to_record env first = Inr r"
      and rs: "records_for_scope env db (ev_scope (dr_event r)) = Inr rs" and k: "k = length rs" by blast
    have sha: "sc_scope_sha256 (ev_scope (dr_event r)) = s"
      using row_to_record_indexes [OF r] first(2) by simp
    have all2: "list_all2 (\<lambda>row r. row_to_record env row = Inr r) (select_scope db s) rs"
      and chain: "check_chain (ev_scope (dr_event r)) None rs = Inr ()"
      using rs sha by (simp_all add: records_for_scope_Inr)
    from all2 have "length rs = length (select_scope db s)" by (simp add: list_all2_lengthD)
    moreover have "scope_reads env db row" if row: "row \<in> set (db_records db)" "lr_scope_sha256 row = s" for row
    proof -
      from row set have "row \<in> set (select_scope db s)" by simp
      then obtain r' where r': "row_to_record env row = Inr r'" "r' \<in> set rs"
        using list_all2_left [OF all2] by blast
      then have "same_privacy_scope (ev_scope (dr_event r')) (ev_scope (dr_event r))"
        using check_chain_same_scope [OF chain] by blast
      from records_for_scope_same [OF this, of env db] r'(1) rs show ?thesis by (simp add: scope_reads_def)
    qed
    ultimately show "k = length (filter (\<lambda>row. lr_scope_sha256 row = s) (db_records db))
     \<and> (\<forall>row \<in> set (db_records db). lr_scope_sha256 row = s \<longrightarrow> scope_reads env db row)"
      using k len by simp
  next
    assume a: "k = length (filter (\<lambda>row. lr_scope_sha256 row = s) (db_records db))
     \<and> (\<forall>row \<in> set (db_records db). lr_scope_sha256 row = s \<longrightarrow> scope_reads env db row)"
    with first obtain r rs where r: "row_to_record env first = Inr r"
      and rs: "records_for_scope env db (ev_scope (dr_event r)) = Inr rs"
      unfolding scope_reads_def by blast
    have "sc_scope_sha256 (ev_scope (dr_event r)) = s"
      using row_to_record_indexes [OF r] first(2) by simp
    with rs have "length rs = length (select_scope db s)"
      by (auto simp: records_for_scope_Inr dest: list_all2_lengthD)
    with r rs a len show "\<exists>r rs. row_to_record env first = Inr r
      \<and> records_for_scope env db (ev_scope (dr_event r)) = Inr rs \<and> k = length rs" by auto
  qed
  finally show ?thesis .
qed

lemma verify_all_claims_Inr:
  "verify_all_claims env db = Inr () \<longleftrightarrow> (\<forall>cl \<in> set (db_claims db). verify_claim env db cl = Inr ())"
  unfolding verify_all_claims_def
  by (simp add: mapr_Inr_char [where g = "\<lambda>_. ()" and P = "\<lambda>cl. verify_claim env db cl = Inr ()"])

lemma base_verify_all_Inr:
  "base_verify_all env db = Inr n \<longleftrightarrow> n = length (db_records db)
     \<and> (\<forall>row \<in> set (db_records db). scope_reads env db row)
     \<and> (\<forall>cl \<in> set (db_claims db). verify_claim env db cl = Inr ())"
proof -
  let ?ss = "remdups (map lr_scope_sha256 (db_records db))"
  let ?g = "\<lambda>s. length (filter (\<lambda>row. lr_scope_sha256 row = s) (db_records db))"
  let ?P = "\<lambda>s. \<forall>row \<in> set (db_records db). lr_scope_sha256 row = s \<longrightarrow> scope_reads env db row"
  have "mapr (verify_scope env db) ?ss = Inr ks \<longleftrightarrow> ks = map ?g ?ss \<and> (\<forall>s \<in> set ?ss. ?P s)" for ks
    by (rule mapr_Inr_char) (rule verify_scope_Inr, simp)
  moreover have "sum_list (map ?g ?ss) = length (db_records db)"
    by (rule sum_group_lengths) simp_all
  moreover have "(\<forall>s \<in> set ?ss. ?P s) \<longleftrightarrow> (\<forall>row \<in> set (db_records db). scope_reads env db row)" by auto
  ultimately show ?thesis
    unfolding base_verify_all_def by (auto simp: verify_all_claims_Inr)
qed

lemma ledger_ok_verifies: "ledger_ok env db \<Longrightarrow> base_verify_all env db = Inr (length (db_records db))"
  by (simp add: base_verify_all_Inr ledger_ok_def records_ok_def claims_ok_def)

section \<open>Stored records\<close>

text \<open>The commitment of a stored record finds that record again.\<close>

lemma record_for_commitment_stored:
  assumes "records_ok env db" and "row \<in> set (db_records db)" and "row_to_record env row = Inr r"
  shows "record_for_commitment env db (commitment_of r) = Inr r"
proof -
  have "find (\<lambda>row'. lr_record_id row' = lr_record_id row) (db_records db) = Some row"
    by (rule find_unique [OF records_okD(3) [OF assms(1)] assms(2)])
  with assms(3) row_to_record_indexes [OF assms(3)] show ?thesis
    by (simp add: record_for_commitment_def)
qed

lemma existing_receipt_stored:
  assumes "records_ok env db" and "row \<in> set (db_records db)" and "row_to_record env row = Inr r"
  shows "existing_receipt env db (ev_receipt_id (dr_event r)) = Inr (Some r)"
    and "read_receipt env db (ev_receipt_id (dr_event r)) = Inr r"
proof -
  have "find (\<lambda>row'. lr_receipt_id row' = lr_receipt_id row) (db_records db) = Some row"
    by (rule find_unique [OF records_okD(4) [OF assms(1)] assms(2)])
  with assms(3) row_to_record_indexes [OF assms(3)]
  show "existing_receipt env db (ev_receipt_id (dr_event r)) = Inr (Some r)"
    and "read_receipt env db (ev_receipt_id (dr_event r)) = Inr r"
    by (simp_all add: existing_receipt_def read_receipt_def)
qed

lemma existing_receipt_Some:
  "existing_receipt env db receipt = Inr (Some r) \<Longrightarrow>
     \<exists>row \<in> set (db_records db). row_to_record env row = Inr r \<and> ev_receipt_id (dr_event r) = receipt"
  unfolding existing_receipt_def
  by (auto split: option.splits dest!: find_SomeD dest: row_to_record_indexes)

lemma existing_receipt_None:
  "existing_receipt env db receipt = Inr None \<longleftrightarrow> (\<forall>row \<in> set (db_records db). lr_receipt_id row \<noteq> receipt)"
  unfolding existing_receipt_def by (auto split: option.splits simp: find_None_iff dest: find_SomeD)

text \<open>A well-formed event always makes a valid record.\<close>

lemma next_sequence_positive:
  assumes "records_ok env db"
  shows "1 \<le> next_sequence db"
proof (cases "db_records db = []")
  case False
  then obtain row where row: "row \<in> set (db_records db)" by (meson list.set_sel(1))
  with records_okD(5) [OF assms] obtain r where r: "row_to_record env row = Inr r"
    unfolding scope_reads_def by blast
  then have "1 \<le> dr_sequence r"
    by (auto simp: row_to_record_Inr validate_record_def record_checks_def)
  with row_to_record_indexes [OF r] next_sequence_above [OF row] show ?thesis by simp
qed (simp add: next_sequence_def)

lemma compute_record_ignores_content:
  "compute_record_sha256 H ts (r\<lparr>dr_content_sha256 := c\<rparr>) = compute_record_sha256 H ts r"
  by (simp add: compute_record_sha256_def)

lemma new_record_valid:
  assumes "hex_digest (le_H env)" and "validate_event (le_H env) e = Inr e"
    and "is_hex 32 (io_uuid io)" and "1 \<le> next_sequence db"
    and "\<forall>r \<in> set h. is_sha256 (dr_content_sha256 r)"
  shows "validate_record (le_H env) (le_ts env) (new_record env db io e h) = Inr (new_record env db io e h)"
proof -
  let ?r = "new_record env db io e h"
  have "dr_event_sha256 ?r = compute_event_sha256 (le_H env) e"
    "dr_schema_version ?r \<in> {''1.0'', ''1.1''}"
    "dr_content_sha256 ?r = compute_record_sha256 (le_H env) (le_ts env) ?r"
    by (simp_all add: new_record_def Let_def compute_record_sha256_def)
  moreover have "has_prefix_hex ''dl_'' 32 (dr_record_id ?r)"
    using assms(3) by (simp add: has_prefix_hex_def)
  moreover have "opt_all is_sha256 (dr_previous_content_sha256 ?r)" using assms(5) by simp
  moreover have "is_sha256 (compute_event_sha256 (le_H env) e)"
    "is_sha256 (compute_record_sha256 (le_H env) (le_ts env) ?r)"
    using assms(1) by (auto simp: compute_event_sha256_def compute_record_sha256_def)
  ultimately show ?thesis
    using assms(2,4) by (auto simp: validate_record_def record_checks_def validate_event_def)
qed

section \<open>A small ledger for the witnesses\<close>

definition sample_env :: ledger_env where
  "sample_env = \<lparr>le_H = (\<lambda>_. zero_sha256), le_ts = (\<lambda>_. ''''), le_hmac = (\<lambda>_ _. zero_sha256),
     le_canonicalize = (\<lambda>_ s. Inr s), le_cohort_key = replicate 32 CHR ''k'',
     le_budget = default_disclosure_budget\<rparr>"

definition sample_io :: ledger_io where
  "sample_io = \<lparr>io_uuid = replicate 32 CHR ''0'', io_now = 10, io_created = 11\<rparr>"

definition sample_empty :: ledger_db where
  "sample_empty = \<lparr>db_records = [], db_claims = []\<rparr>"

definition sample_bound :: disclosure_event where
  "sample_bound = sample_event (Some sample_composition)"

declare hex_digest_const [simp]

lemma is_hex_zero_sha256 [simp]: "is_sha256 zero_sha256"
  by (simp add: is_sha256_def zero_sha256_def is_hex_zeros)

lemma sample_receipts_valid:
  assumes "has_prefix_hex ''tj_'' 16 receipt"
  shows "validate_event (\<lambda>_. zero_sha256) (sample_bound\<lparr>ev_receipt_id := receipt\<rparr>) = Inr (sample_bound\<lparr>ev_receipt_id := receipt\<rparr>)"
proof -
  have "(\<forall>(bad, er) \<in> set (subject_checks (\<lambda>_. zero_sha256) sample_subject). \<not> bad)"
    by (simp add: subject_checks_def sample_subject_def compute_subject_namespace_sha256_def
        canonical_json_sha256_def len_between_def SUBJECT_IDENTIFIER_CATEGORIES_def
        canonical_iff)
  moreover have "is_identifier ''alice''" "is_identifier ''cred''" by code_simp+
  moreover have "py_upper (py_strip ''COUNT'') = ''COUNT''" by code_simp
  ultimately show ?thesis using assms
    by (simp add: sample_bound_def validate_event_def event_checks_def scope_checks_def
        release_checks_def composition_checks_def sample_event_def sample_scope_def
        sample_semantic_def sample_composition_def compute_scope_sha256_def
        compute_semantic_sha256_def canonical_json_sha256_def len_between_def canonical_iff
        sorted_set_def)
qed

lemma sample_event_valid: "validate_event (\<lambda>_. zero_sha256) sample_bound = Inr sample_bound"
proof -
  have "has_prefix_hex ''tj_'' 16 (ev_receipt_id sample_bound)"
    by (simp add: sample_bound_def sample_event_def has_prefix_hex_def is_hex_zeros)
  from sample_receipts_valid [OF this] show ?thesis by simp
qed

lemma sample_env_simps [simp]:
  "le_H sample_env = (\<lambda>_. zero_sha256)" "hex_digest (le_H sample_env)"
  by (simp_all add: sample_env_def)

lemma sample_empty_ok: "ledger_ok env sample_empty"
  by (simp add: ledger_ok_def records_ok_def claims_ok_def sample_empty_def)

lemma sample_reads: "records_for_scope env sample_empty scope = Inr []"
  by (simp add: records_for_scope_def select_scope_def sample_empty_def)

lemma sample_append_event:
  "append_event sample_env sample_empty sample_io sample_bound [] = Inr (new_record sample_env sample_empty sample_io sample_bound [],
     sample_empty\<lparr>db_records := [row_of (new_record sample_env sample_empty sample_io sample_bound [])]\<rparr>)"
proof -
  let ?r = "new_record sample_env sample_empty sample_io sample_bound []"
  have "validate_record (le_H sample_env) (le_ts sample_env) ?r = Inr ?r"
    by (rule new_record_valid)
      (simp_all add: sample_event_valid sample_io_def is_hex_zeros next_sequence_def sample_empty_def)
  moreover have "validate_event_composition sample_bound = Inr ()" by (simp add: sample_bound_def)
  ultimately show ?thesis by (simp add: append_event_Inr insert_record_Inr sample_empty_def)
qed

lemma sample_append:
  "\<exists>r (db' :: ledger_db). ledger_append sample_env sample_empty sample_io sample_bound = (Inr r, db')
     \<and> db_records db' = [row_of r] \<and> db_claims db' = [] \<and> row_to_record sample_env (row_of r) = Inr r"
proof -
  let ?r = "new_record sample_env sample_empty sample_io sample_bound []"
  have "existing_receipt sample_env sample_empty (ev_receipt_id sample_bound) = Inr None"
    by (simp add: existing_receipt_None sample_empty_def)
  then have "ledger_append sample_env sample_empty sample_io sample_bound =
      (Inr ?r, sample_empty\<lparr>db_records := [row_of ?r]\<rparr>)"
    by (simp add: ledger_append_def sample_reads sample_append_event)
  with append_eventD(3) [OF sample_append_event] show ?thesis by (auto simp: sample_empty_def)
qed

text \<open>A second disclosure of the same scope, appended after the first.\<close>

definition sample_first :: disclosure_record where
  "sample_first = new_record sample_env sample_empty sample_io sample_bound []"

definition sample_second_event :: disclosure_event where
  "sample_second_event = sample_bound\<lparr>ev_receipt_id := ''tj_'' @ replicate 16 CHR ''1''\<rparr>"

definition sample_second :: disclosure_record where
  "sample_second = new_record sample_env (sample_empty\<lparr>db_records := [row_of sample_first]\<rparr>)
     (sample_io\<lparr>io_uuid := replicate 32 CHR ''1''\<rparr>) sample_second_event [sample_first]"

definition sample_pair :: ledger_db where
  "sample_pair = sample_empty\<lparr>db_records := [row_of sample_first, row_of sample_second]\<rparr>"

lemma sample_pair_appended:
  "append_event sample_env (sample_empty\<lparr>db_records := [row_of sample_first]\<rparr>) (sample_io\<lparr>io_uuid := replicate 32 CHR ''1''\<rparr>)
     sample_second_event [sample_first] = Inr (sample_second, sample_pair)"
proof -
  have hex: "is_hex n (replicate n CHR ''1'')" for n by (auto simp: is_hex_def hex_chars_def list_all_iff)
  have event: "validate_event (le_H sample_env) sample_second_event = Inr sample_second_event"
    unfolding sample_second_event_def sample_env_simps by (rule sample_receipts_valid) (simp add: has_prefix_hex_def hex)
  have ok: "records_ok sample_env (sample_empty\<lparr>db_records := [row_of sample_first]\<rparr>)"
    using ledger_ok_append [OF sample_empty_ok sample_append_event sample_reads] by (simp add: ledger_ok_def sample_first_def)
  have "is_sha256 (dr_content_sha256 sample_first)"
    using append_eventD(3) [OF sample_append_event]
    by (auto simp: sample_first_def row_to_record_Inr validate_record_def record_checks_def)
  then have valid: "validate_record (le_H sample_env) (le_ts sample_env) sample_second = Inr sample_second"
    unfolding sample_second_def by (intro new_record_valid event next_sequence_positive [OF ok]) (simp_all add: hex)
  have "validate_event_composition (e\<lparr>ev_receipt_id := receipt\<rparr>) = validate_event_composition e" for e receipt
    by (cases "ev_composition e") (simp_all add: validate_event_composition_def)
  then have comp: "validate_event_composition sample_second_event = Inr ()" by (simp add: sample_second_event_def sample_bound_def)
  have "ev_receipt_id (dr_event sample_first) \<noteq> ev_receipt_id sample_second_event" "dr_record_id sample_first \<noteq> dr_record_id sample_second"
    by (simp_all add: sample_first_def sample_second_def sample_second_event_def sample_bound_def sample_event_def sample_io_def
        numeral_eq_Suc)
  moreover have "dr_sequence sample_first \<noteq> dr_sequence sample_second"
    by (simp add: sample_first_def sample_second_def next_sequence_def sample_empty_def)
  moreover have "dr_event sample_second = sample_second_event" by (simp add: sample_second_def)
  ultimately have "insert_record (sample_empty\<lparr>db_records := [row_of sample_first]\<rparr>) (row_of sample_second) = Inr sample_pair"
    by (simp add: insert_record_Inr sample_pair_def)
  then show ?thesis unfolding append_event_Inr using comp valid sample_second_def by blast
qed

lemma sample_pair_reads:
  "ledger_ok sample_env sample_pair" "records_for_scope sample_env sample_pair (ev_scope sample_bound) = Inr [sample_first, sample_second]"
  "row_to_record sample_env (row_of sample_second) = Inr sample_second" "dr_event sample_second = sample_second_event"
proof -
  let ?one = "sample_empty\<lparr>db_records := [row_of sample_first]\<rparr>"
  note first = sample_append_event [folded sample_first_def]
  have ok: "ledger_ok sample_env ?one" by (rule ledger_ok_append [OF sample_empty_ok first sample_reads])
  have scope: "ev_scope sample_second_event = ev_scope sample_bound" by (simp add: sample_second_event_def)
  have "records_for_scope sample_env ?one (ev_scope sample_bound) = Inr ([] @ [sample_first])"
    using sample_empty_ok
    by (intro records_for_scope_append_same [OF _ first sample_reads same_privacy_scope_refl]) (simp add: ledger_ok_def)
  then have reads: "records_for_scope sample_env ?one (ev_scope sample_second_event) = Inr [sample_first]" by (simp add: scope)
  show "ledger_ok sample_env sample_pair" by (rule ledger_ok_append [OF ok sample_pair_appended reads])
  have "records_for_scope sample_env sample_pair (ev_scope sample_second_event) = Inr ([sample_first] @ [sample_second])"
    using ok by (intro records_for_scope_append_same [OF _ sample_pair_appended reads same_privacy_scope_refl]) (simp add: ledger_ok_def)
  then show "records_for_scope sample_env sample_pair (ev_scope sample_bound) = Inr [sample_first, sample_second]" by (simp add: scope)
  show "row_to_record sample_env (row_of sample_second) = Inr sample_second" "dr_event sample_second = sample_second_event"
    by (rule append_eventD [OF sample_pair_appended])+
qed

definition sample_authorization :: string where
  "sample_authorization = ''tj_auth_'' @ replicate 32 CHR ''0''"

lemma sample_authorization_id [simp]: "is_authorization_id sample_authorization"
  by (simp add: is_authorization_id_def sample_authorization_def has_prefix_hex_def is_hex_zeros)

lemma sample_claim:
  "\<exists>(db :: ledger_db) c db'. base_claim_commitment sample_env db c sample_authorization = (Inr (), db')"
proof -
  obtain r and db :: ledger_db where db: "db_records db = [row_of r]" "db_claims db = []"
    "row_to_record sample_env (row_of r) = Inr r" using sample_append by auto
  have "base_claim_commitment sample_env (db :: ledger_db) (commitment_of r) sample_authorization =
      (Inr (), db\<lparr>db_claims := [\<lparr>cl_record_id = dr_record_id r, cl_authorization_id = sample_authorization,
         cl_receipt_id = ev_receipt_id (dr_event r), cl_content_sha256 = dr_content_sha256 r\<rparr>]\<rparr>)"
    by (simp add: base_claim_commitment_def record_for_commitment_def find_claim_def insert_claim_def db)
  then show ?thesis by blast
qed

section \<open>Properties\<close>

text \<open>C36: verification detects every broken ledger. When \<open>verify_all\<close> returns on an
  arbitrary database file, its result is the number of stored rows, every row decodes to a
  record that passes its hash checks, the records of that row's scope form a linked chain of one
  principal, one agent and one subject (its namespace, its field up to case and its category), and
  every stored claim passes the check against the record it names.\<close>

theorem verify_all_detects:
  assumes "base_verify_all env db = Inr n"
  shows "n = length (db_records db) \<and> (\<forall>row \<in> set (db_records db). \<exists>r rs.
      row_to_record env row = Inr r \<and> validate_record (le_H env) (le_ts env) r = Inr r
      \<and> records_for_scope env db (ev_scope (dr_event r)) = Inr rs \<and> r \<in> set rs \<and> linked rs
      \<and> (\<forall>r' \<in> set rs. sc_principal_id (ev_scope (dr_event r')) = sc_principal_id (ev_scope (dr_event r))
           \<and> sc_agent_id (ev_scope (dr_event r')) = sc_agent_id (ev_scope (dr_event r))
           \<and> sd_namespace_sha256 (sc_subject (ev_scope (dr_event r'))) = sd_namespace_sha256 (sc_subject (ev_scope (dr_event r)))
           \<and> py_casefold (sd_field_path (sc_subject (ev_scope (dr_event r'))))
               = py_casefold (sd_field_path (sc_subject (ev_scope (dr_event r))))
           \<and> sd_category (sc_subject (ev_scope (dr_event r'))) = sd_category (sc_subject (ev_scope (dr_event r)))))
    \<and> (\<forall>cl \<in> set (db_claims db). verify_claim env db cl = Inr ())"
proof (intro conjI ballI)
  show "n = length (db_records db)" using assms by (simp add: base_verify_all_Inr)
  show "verify_claim env db cl = Inr ()" if "cl \<in> set (db_claims db)" for cl using assms that by (simp add: base_verify_all_Inr)
  fix row assume row: "row \<in> set (db_records db)"
  with assms have "scope_reads env db row" by (simp add: base_verify_all_Inr)
  then obtain r rs where r: "row_to_record env row = Inr r"
    and rs: "records_for_scope env db (ev_scope (dr_event r)) = Inr rs"
    unfolding scope_reads_def by blast
  have valid: "validate_record (le_H env) (le_ts env) r = Inr r" using r by (simp add: row_to_record_Inr)
  have member: "r \<in> set rs"
    using records_for_scope_set [OF rs] row r row_to_record_indexes [OF r] by auto
  have chain: "check_chain (ev_scope (dr_event r)) None rs = Inr ()"
    using rs by (simp add: records_for_scope_Inr)
  note same = check_chain_same_scope [OF chain, unfolded same_privacy_scope_def]
  show "\<exists>r rs. row_to_record env row = Inr r \<and> validate_record (le_H env) (le_ts env) r = Inr r
      \<and> records_for_scope env db (ev_scope (dr_event r)) = Inr rs \<and> r \<in> set rs \<and> linked rs
      \<and> (\<forall>r' \<in> set rs. sc_principal_id (ev_scope (dr_event r')) = sc_principal_id (ev_scope (dr_event r))
           \<and> sc_agent_id (ev_scope (dr_event r')) = sc_agent_id (ev_scope (dr_event r))
           \<and> sd_namespace_sha256 (sc_subject (ev_scope (dr_event r'))) = sd_namespace_sha256 (sc_subject (ev_scope (dr_event r)))
           \<and> py_casefold (sd_field_path (sc_subject (ev_scope (dr_event r'))))
               = py_casefold (sd_field_path (sc_subject (ev_scope (dr_event r))))
           \<and> sd_category (sc_subject (ev_scope (dr_event r'))) = sd_category (sc_subject (ev_scope (dr_event r))))"
    by (intro exI [of _ r] exI [of _ rs] conjI ballI r rs valid member check_chain_linked [OF chain])
      (use same in blast)+
qed

theorem verify_all_detects_witness:
  "base_verify_all sample_env sample_pair = Inr 2
   \<and> (\<exists>r rs. row_to_record sample_env (row_of sample_second) = Inr r \<and> r = sample_second
        \<and> records_for_scope sample_env sample_pair (ev_scope (dr_event r)) = Inr rs \<and> rs = [sample_first, sample_second] \<and> linked rs
        \<and> dr_previous_content_sha256 sample_second = Some (dr_content_sha256 sample_first))"
proof -
  have verified: "base_verify_all sample_env sample_pair = Inr 2"
    using ledger_ok_verifies [OF sample_pair_reads(1)] by (simp add: sample_pair_def)
  have scope: "ev_scope (dr_event sample_second) = ev_scope sample_bound"
    by (simp add: sample_pair_reads(4) sample_second_event_def)
  have "row_of sample_second \<in> set (db_records sample_pair)" by (simp add: sample_pair_def)
  with verify_all_detects [OF verified] obtain r rs where r: "row_to_record sample_env (row_of sample_second) = Inr r"
    "records_for_scope sample_env sample_pair (ev_scope (dr_event r)) = Inr rs" "linked rs" by blast
  then have "r = sample_second" "rs = [sample_first, sample_second]"
    using sample_pair_reads(2,3) scope by simp_all
  moreover from r(3) this(2) have "dr_previous_content_sha256 sample_second = Some (dr_content_sha256 sample_first)"
    by (auto simp: linked_def dest: spec [of _ "Suc 0"])
  ultimately show ?thesis using verified r by blast
qed

text \<open>C37: appending works on every intact ledger. A validated event with consistent composition
  metadata, a fresh receipt id and a fresh UUID is recorded; the record can be read back by its
  receipt and by its commitment, ends the history of its scope, and the ledger stays intact.\<close>

theorem append_then_read:
  assumes "ledger_ok env db" and "hex_digest (le_H env)" and "validate_event (le_H env) e = Inr e"
    and "validate_event_composition e = Inr ()" and "is_hex 32 (io_uuid io)"
    and "records_for_scope env db (ev_scope e) = Inr h"
    and "\<forall>row \<in> set (db_records db). lr_receipt_id row \<noteq> ev_receipt_id e
           \<and> lr_record_id row \<noteq> ''dl_'' @ io_uuid io"
  shows "\<exists>r db'. ledger_append env db io e = (Inr r, db') \<and> dr_event r = e
    \<and> db_records db' = db_records db @ [row_of r]
    \<and> read_receipt env db' (ev_receipt_id e) = Inr r
    \<and> record_for_commitment env db' (commitment_of r) = Inr r
    \<and> records_for_scope env db' (ev_scope e) = Inr (h @ [r])
    \<and> ledger_ok env db'"
proof -
  have ok: "records_ok env db" using assms(1) by (simp add: ledger_ok_def)
  let ?r = "new_record env db io e h"
  have "is_sha256 (dr_content_sha256 r)" if "r \<in> set h" for r
    using that records_for_scope_set [OF assms(6)]
    by (auto simp: row_to_record_Inr validate_record_def record_checks_def)
  then have valid: "validate_record (le_H env) (le_ts env) ?r = Inr ?r"
    using new_record_valid [OF assms(2,3,5) next_sequence_positive [OF ok]] by blast
  let ?db = "db\<lparr>db_records := db_records db @ [row_of ?r]\<rparr>"
  have app: "append_event env db io e h = Inr (?r, ?db)"
    using valid assms(4,7) next_sequence_above [of _ db]
    by (fastforce simp: append_event_Inr insert_record_Inr)
  have none: "existing_receipt env db (ev_receipt_id e) = Inr None"
    using assms(7) by (simp add: existing_receipt_None)
  have "ledger_append env db io e = (Inr ?r, ?db)"
    by (simp add: ledger_append_def assms(6) none app)
  moreover note ok' = ledger_ok_append [OF assms(1) app assms(6)]
  moreover have "row_of ?r \<in> set (db_records ?db)" "records_ok env ?db"
    using ok' by (simp_all add: ledger_ok_def)
  moreover note row = append_eventD(3) [OF app]
  ultimately show ?thesis
    using existing_receipt_stored(2) [of env ?db, OF _ _ row]
      record_for_commitment_stored [of env ?db, OF _ _ row]
      records_for_scope_append_same [OF ok app assms(6) same_privacy_scope_refl]
    by (intro exI [of _ ?r] exI [of _ ?db]) simp
qed

theorem append_then_read_witness:
  "\<exists>r (db' :: ledger_db). ledger_append sample_env sample_empty sample_io sample_bound = (Inr r, db')
    \<and> db_records db' = [row_of r] \<and> read_receipt sample_env db' (ev_receipt_id sample_bound) = Inr r
    \<and> ledger_ok sample_env db'"
proof -
  have "validate_event_composition sample_bound = Inr ()" by (simp add: sample_bound_def)
  moreover have "is_hex 32 (io_uuid sample_io)" by (simp add: sample_io_def is_hex_zeros)
  moreover have "db_records sample_empty = []" by (simp add: sample_empty_def)
  ultimately show ?thesis
    using append_then_read [of sample_env sample_empty sample_bound sample_io "[]"]
      sample_event_valid sample_empty_ok [of sample_env] sample_reads by auto
qed

text \<open>Appending is idempotent per receipt. Repeating an append that succeeded, at any later
  time and whatever the fresh id, returns the same record and changes nothing; the same receipt
  with another event of a readable scope is a conflict and changes nothing.\<close>

theorem append_idempotent:
  assumes "ledger_ok env db" and "ledger_append env db io e = (Inr r, db')"
  shows "ledger_append env db' io' e = (Inr r, db')
    \<and> (e' \<noteq> e \<and> ev_receipt_id e' = ev_receipt_id e \<and> records_for_scope env db' (ev_scope e') = Inr h'
        \<longrightarrow> ledger_append env db' io' e' =
              (Inl (DisclosureLedgerConflict ''receipt_id already records different disclosure content''), db'))"
proof -
  from assms(2) obtain h existing where h: "records_for_scope env db (ev_scope e) = Inr h"
    and ex: "existing_receipt env db (ev_receipt_id e) = Inr existing"
    and res: "(case existing of
        Some old \<Rightarrow> if dr_event old \<noteq> e
          then Inl (DisclosureLedgerConflict ''receipt_id already records different disclosure content'')
          else Inr (old, db)
      | None \<Rightarrow> append_event env db io e h) = Inr (r, db')"
    by (auto simp: ledger_append_def finish_Inr)
  have "existing_receipt env db' (ev_receipt_id e) = Inr (Some r) \<and> dr_event r = e
     \<and> (\<exists>h'. records_for_scope env db' (ev_scope e) = Inr h')"
  proof (cases existing)
    case None
    with res have app: "append_event env db io e h = Inr (r, db')" by simp
    note ok' = ledger_ok_append [OF assms(1) app h]
    have "row_of r \<in> set (db_records db')" using append_eventD(1) [OF app] by simp
    with ok' append_eventD(3,4) [OF app] show ?thesis
      using existing_receipt_stored(1) [of env db' "row_of r" r]
        records_for_scope_append_same [OF _ app h same_privacy_scope_refl] assms(1)
      by (auto simp: ledger_ok_def)
  next
    case (Some old)
    with res ex h show ?thesis by (auto split: if_splits)
  qed
  then show ?thesis by (auto simp: ledger_append_def)
qed

theorem append_idempotent_witness:
  "\<exists>r (db' :: ledger_db). ledger_append sample_env sample_empty sample_io sample_bound = (Inr r, db')
    \<and> db_records db' \<noteq> []
    \<and> ledger_append sample_env db' (sample_io\<lparr>io_uuid := []\<rparr>) sample_bound = (Inr r, db')"
proof -
  obtain r db' where "ledger_append sample_env sample_empty sample_io sample_bound = (Inr r, db')"
    "db_records db' \<noteq> []" using sample_append by auto
  with append_idempotent [OF sample_empty_ok this(1)] show ?thesis by blast
qed

text \<open>A commitment is claimed once. After a successful claim every further claim of the
  commitment is a replay error that changes nothing, no other commitment can be claimed under
  the same authorization, and exactly the claiming authorization verifies.\<close>

theorem claim_single_use:
  assumes "base_claim_commitment env db c a = (Inr (), db')"
  shows "(is_authorization_id a' \<longrightarrow> base_claim_commitment env db' c a' =
        (Inl (DisclosureCommitmentReplay ''disclosure commitment was already claimed for execution''), db'))
    \<and> (\<forall>c'. fst (base_claim_commitment env db' c' a) \<noteq> Inr ())
    \<and> (base_verify_authorization_claim env db' c a' = Inr () \<longleftrightarrow> a' = a)"
proof -
  from assms obtain r where r: "is_authorization_id a" "record_for_commitment env db c = Inr r"
    "find_claim db (cm_record_id c) = None"
    "insert_claim db \<lparr>cl_record_id = cm_record_id c, cl_authorization_id = a,
       cl_receipt_id = cm_receipt_id c, cl_content_sha256 = cm_content_sha256 c\<rparr> = Inr db'"
    (is "insert_claim db ?cl = _") by (rule base_claim_Inr)
  then have db': "db' = db\<lparr>db_claims := db_claims db @ [?cl]\<rparr>" by (simp add: insert_claim_Inr)
  then have rec: "record_for_commitment env db' = record_for_commitment env db"
    by (intro same_records_reads) simp
  have found: "find_claim db' (cm_record_id c) = Some ?cl"
    using r(3) by (simp add: find_claim_def db' find_append)
  have "dr_content_sha256 r = cm_content_sha256 c"
    using record_for_commitment_Inr [OF r(2)] by (auto simp flip: commitment_of_simps)
  moreover have "fst (base_claim_commitment env db' c' a) \<noteq> Inr ()" for c'
  proof
    assume "fst (base_claim_commitment env db' c' a) = Inr ()"
    then obtain db'' where "base_claim_commitment env db' c' a = (Inr (), db'')" by (metis prod.collapse)
    then obtain r' where "insert_claim db' \<lparr>cl_record_id = cm_record_id c', cl_authorization_id = a,
       cl_receipt_id = cm_receipt_id c', cl_content_sha256 = cm_content_sha256 c'\<rparr> = Inr db''"
      by (rule base_claim_Inr)
    then show False by (simp add: insert_claim_Inr db')
  qed
  ultimately show ?thesis
    using r(1,2) rec found
    by (auto simp: base_claim_commitment_def base_verify_authorization_claim_def)
qed


theorem claim_single_use_witness:
  "\<exists>(db :: ledger_db) c db'. base_claim_commitment sample_env db c sample_authorization = (Inr (), db')
    \<and> base_verify_authorization_claim sample_env db' c sample_authorization = Inr ()
    \<and> base_claim_commitment sample_env db' c sample_authorization = (Inl (DisclosureCommitmentReplay
        ''disclosure commitment was already claimed for execution''), db')"
proof -
  obtain c and db db' :: ledger_db
    where "base_claim_commitment sample_env db c sample_authorization = (Inr (), db')"
    using sample_claim by blast
  with claim_single_use [OF this, of sample_authorization] show ?thesis
    using sample_authorization_id by blast
qed

end
