(* ===== verification/Closure.thy ===== *)
theory Closure
  imports Prelude
begin

text \<open>
  Forward chaining over finitely many rules, the specification behind the two saturation loops
  of the prospective checker: the inference closure of a disclosure state and the reachable
  snapshot commitments of a grammar. A rule fires when all its antecedents are known and makes
  its head known.
\<close>

inductive_set derivable :: "('r \<Rightarrow> 'k list) \<Rightarrow> ('r \<Rightarrow> 'k) \<Rightarrow> 'r set \<Rightarrow> 'k set \<Rightarrow> 'k set"
  for ante :: "'r \<Rightarrow> 'k list" and head :: "'r \<Rightarrow> 'k" and rules :: "'r set" and seed :: "'k set"
  where
  given: "k \<in> seed \<Longrightarrow> k \<in> derivable ante head rules seed"
| fire: "r \<in> rules \<Longrightarrow> (\<And>a. a \<in> set (ante r) \<Longrightarrow> a \<in> derivable ante head rules seed)
    \<Longrightarrow> head r \<in> derivable ante head rules seed"

definition saturated :: "('r \<Rightarrow> 'k list) \<Rightarrow> ('r \<Rightarrow> 'k) \<Rightarrow> 'r set \<Rightarrow> 'k set \<Rightarrow> bool" where
  "saturated ante head rules known \<longleftrightarrow> (\<forall>r \<in> rules. set (ante r) \<subseteq> known \<longrightarrow> head r \<in> known)"

lemma derivable_least:
  assumes "saturated ante head rules known" and "seed \<subseteq> known"
  shows "derivable ante head rules seed \<subseteq> known"
proof
  fix k assume "k \<in> derivable ante head rules seed"
  then show "k \<in> known"
  proof induction
    case (given k)
    with assms(2) show ?case by blast
  next
    case (fire r)
    then have "set (ante r) \<subseteq> known" by blast
    with assms(1) fire.hyps(1) show ?case by (simp add: saturated_def)
  qed
qed

text \<open>What a saturation loop that only adds derivable heads ends with.\<close>

lemma saturated_derivable:
  assumes "saturated ante head rules known" and "seed \<subseteq> known"
    and "known \<subseteq> derivable ante head rules seed"
  shows "known = derivable ante head rules seed"
  using derivable_least [OF assms(1,2)] assms(3) by blast

lemma derivable_mono:
  assumes "rules \<subseteq> rules'" and "seed \<subseteq> seed'"
  shows "derivable ante head rules seed \<subseteq> derivable ante head rules' seed'"
proof
  fix k assume "k \<in> derivable ante head rules seed"
  then show "k \<in> derivable ante head rules' seed'"
  proof induction
    case (given k)
    with assms(2) show ?case by (blast intro: derivable.given)
  next
    case (fire r)
    with assms(1) show ?case by (blast intro: derivable.fire)
  qed
qed

end
