(* ===== verification/Twin.thy ===== *)
theory Twin
  imports Ledger Closure
begin

text \<open>
  The disclosure digital twin of \<open>src/toxicjoin/prospective/twin.py\<close>: the projection of a
  scope's audit history and one candidate release into canonical atoms, the instantiated
  inference rules, their least fixed point, and the validated state. Atoms, rules and states
  carry content hashes; dictionaries keyed by hash are \<^const>\<open>by_key\<close>. The lemmas show that the
  closure loop terminates and computes the least saturated set, and characterise what is derived.
\<close>

section \<open>Atoms\<close>

datatype lifecycle = LC_PENDING | LC_RELEASED | LC_ABORTED

record history_entry =
  he_record :: disclosure_record
  he_lifecycle :: lifecycle

datatype atom_kind =
    SEMANTIC_RELEASE
  | SOURCE_DATASET
  | COLUMN_EXPOSURE
  | AGGREGATE_FUNCTION
  | MINIMUM_GROUP_SIZE
  | COHORT
  | CATEGORY_PRESENCE
  | IDENTIFIER_SENSITIVE_COEXPOSURE
  | PROTECTED_COHORT_VARIATION

fun atom_kind_value :: "atom_kind \<Rightarrow> string" where
  "atom_kind_value SEMANTIC_RELEASE = ''SEMANTIC_RELEASE''"
| "atom_kind_value SOURCE_DATASET = ''SOURCE_DATASET''"
| "atom_kind_value COLUMN_EXPOSURE = ''COLUMN_EXPOSURE''"
| "atom_kind_value AGGREGATE_FUNCTION = ''AGGREGATE_FUNCTION''"
| "atom_kind_value MINIMUM_GROUP_SIZE = ''MINIMUM_GROUP_SIZE''"
| "atom_kind_value COHORT = ''COHORT''"
| "atom_kind_value CATEGORY_PRESENCE = ''CATEGORY_PRESENCE''"
| "atom_kind_value IDENTIFIER_SENSITIVE_COEXPOSURE = ''IDENTIFIER_SENSITIVE_COEXPOSURE''"
| "atom_kind_value PROTECTED_COHORT_VARIATION = ''PROTECTED_COHORT_VARIATION''"

datatype column_role = ROLE_OUTPUT | ROLE_REFERENCED | ROLE_JOIN | ROLE_GROUP_KEY

fun column_role_value :: "column_role \<Rightarrow> string" where
  "column_role_value ROLE_OUTPUT = ''OUTPUT''"
| "column_role_value ROLE_REFERENCED = ''REFERENCED''"
| "column_role_value ROLE_JOIN = ''JOIN''"
| "column_role_value ROLE_GROUP_KEY = ''GROUP_KEY''"

record disclosure_atom =
  at_kind :: atom_kind
  at_release_semantic_sha256 :: "string option"
  at_dataset_urn :: "string option"
  at_column_key :: "string option"
  at_category :: "sensitivity_category option"
  at_column_role :: "column_role option"
  at_exposure_kind :: "exposure_kind option"
  at_aggregate_function :: "string option"
  at_minimum_group_size :: "int option"
  at_release_family_sha256 :: "string option"
  at_cohort_hmac_sha256 :: "string option"
  at_protected_release :: "bool option"
  at_identifier_category :: "sensitivity_category option"
  at_atom_sha256 :: string

definition revealing_output_kinds :: "exposure_kind list" where
  "revealing_output_kinds = [RAW_VALUE, TRANSFORMED_RAW_VALUE, exposure_kind.GROUP_KEY, AGGREGATE_OPERAND,
     AGGREGATE_VALUE, CONDITIONAL_AGGREGATE, NESTED_SCOPE]"

definition linkable_output_kinds :: "exposure_kind list" where
  "linkable_output_kinds = [RAW_VALUE, TRANSFORMED_RAW_VALUE, exposure_kind.GROUP_KEY, NESTED_SCOPE]"

text \<open>\<open>_IDENTIFIER_CATEGORIES\<close>, in the order \<open>sorted\<close> gives them.\<close>

definition identifier_categories :: "sensitivity_category list" where
  "identifier_categories = [DIRECT_IDENTIFIER, STABLE_PSEUDONYM]"

definition direct_atom_kinds :: "atom_kind list" where
  "direct_atom_kinds = [SEMANTIC_RELEASE, SOURCE_DATASET, COLUMN_EXPOSURE, AGGREGATE_FUNCTION,
     MINIMUM_GROUP_SIZE, COHORT]"

definition derived_atom_kinds :: "atom_kind list" where
  "derived_atom_kinds = [CATEGORY_PRESENCE, IDENTIFIER_SENSITIVE_COEXPOSURE, PROTECTED_COHORT_VARIATION]"

text \<open>\<open>model_dump(mode="json", exclude={"atom_sha256"})\<close>.\<close>

definition atom_fields_json :: "disclosure_atom \<Rightarrow> (string \<times> json) list" where
  "atom_fields_json a =
     [(''schema_version'', JStr ''1.0''), (''kind'', JStr (atom_kind_value (at_kind a))),
      (''release_semantic_sha256'', jopt JStr (at_release_semantic_sha256 a)),
      (''dataset_urn'', jopt JStr (at_dataset_urn a)), (''column_key'', jopt JStr (at_column_key a)),
      (''category'', jopt (\<lambda>c. JStr (category_value c)) (at_category a)),
      (''column_role'', jopt (\<lambda>r. JStr (column_role_value r)) (at_column_role a)),
      (''exposure_kind'', jopt (\<lambda>k. JStr (exposure_value k)) (at_exposure_kind a)),
      (''aggregate_function'', jopt JStr (at_aggregate_function a)),
      (''minimum_group_size'', jopt JInt (at_minimum_group_size a)),
      (''release_family_sha256'', jopt JStr (at_release_family_sha256 a)),
      (''cohort_hmac_sha256'', jopt JStr (at_cohort_hmac_sha256 a)),
      (''protected_release'', jopt JBool (at_protected_release a)),
      (''identifier_category'', jopt (\<lambda>c. JStr (category_value c)) (at_identifier_category a))]"

definition compute_atom_sha256 :: "(string \<Rightarrow> string) \<Rightarrow> disclosure_atom \<Rightarrow> string" where
  "compute_atom_sha256 H a = canonical_json_sha256 H (JObj (atom_fields_json a))"

definition atom_json :: "disclosure_atom \<Rightarrow> json" where
  "atom_json a = JObj (atom_fields_json a @ [(''atom_sha256'', JStr (at_atom_sha256 a))])"

text \<open>The names of the optional fields that are set.\<close>

definition populated :: "disclosure_atom \<Rightarrow> string list" where
  "populated a = map fst (filter snd
     [(''release_semantic_sha256'', at_release_semantic_sha256 a \<noteq> None),
      (''dataset_urn'', at_dataset_urn a \<noteq> None), (''column_key'', at_column_key a \<noteq> None),
      (''category'', at_category a \<noteq> None), (''column_role'', at_column_role a \<noteq> None),
      (''exposure_kind'', at_exposure_kind a \<noteq> None),
      (''aggregate_function'', at_aggregate_function a \<noteq> None),
      (''minimum_group_size'', at_minimum_group_size a \<noteq> None),
      (''release_family_sha256'', at_release_family_sha256 a \<noteq> None),
      (''cohort_hmac_sha256'', at_cohort_hmac_sha256 a \<noteq> None),
      (''protected_release'', at_protected_release a \<noteq> None),
      (''identifier_category'', at_identifier_category a \<noteq> None)])"

text \<open>The required and the allowed fields of a kind, with the guard of that kind.\<close>

definition atom_shape :: "disclosure_atom \<Rightarrow> (bool \<times> error) list \<times> string list \<times> string list" where
  "atom_shape a = (case at_kind a of
       SEMANTIC_RELEASE \<Rightarrow> ([], [''release_semantic_sha256''], [''release_semantic_sha256''])
     | SOURCE_DATASET \<Rightarrow> ([], [''release_semantic_sha256'', ''dataset_urn''],
         [''release_semantic_sha256'', ''dataset_urn''])
     | COLUMN_EXPOSURE \<Rightarrow>
         (let base = [''release_semantic_sha256'', ''column_key'', ''category'', ''column_role'']
          in ([(at_column_role a \<noteq> Some ROLE_OUTPUT \<and> at_exposure_kind a \<noteq> None,
                 ValidationError ''only OUTPUT column exposures may carry exposure_kind'')],
              (if at_column_role a = Some ROLE_OUTPUT then base @ [''exposure_kind''] else base),
              base @ [''exposure_kind'']))
     | AGGREGATE_FUNCTION \<Rightarrow>
         ([(at_aggregate_function a = None, AttributeError ''strip''),
           (opt_all (\<lambda>f. f \<noteq> py_upper (py_strip f)) (at_aggregate_function a),
              ValidationError ''aggregate_function must be normalized uppercase'')],
          [''release_semantic_sha256'', ''aggregate_function''],
          [''release_semantic_sha256'', ''aggregate_function''])
     | MINIMUM_GROUP_SIZE \<Rightarrow> ([], [''release_semantic_sha256'', ''minimum_group_size''],
         [''release_semantic_sha256'', ''minimum_group_size''])
     | COHORT \<Rightarrow>
         (let fields = [''release_semantic_sha256'', ''release_family_sha256'', ''cohort_hmac_sha256'',
             ''protected_release'']
          in ([(at_release_family_sha256 a \<noteq> at_release_semantic_sha256 a,
                 ValidationError ''cohort release family must match semantic release hash'')],
              fields, fields))
     | CATEGORY_PRESENCE \<Rightarrow> ([], [''category''], [''category''])
     | IDENTIFIER_SENSITIVE_COEXPOSURE \<Rightarrow>
         ([(at_identifier_category a \<notin> Some ` set identifier_categories,
             ValidationError ''coexposure requires a governed identifier category'')],
          [''identifier_category''], [''identifier_category''])
     | PROTECTED_COHORT_VARIATION \<Rightarrow> ([], [''release_family_sha256''], [''release_family_sha256'']))"

definition atom_checks :: "(string \<Rightarrow> string) \<Rightarrow> disclosure_atom \<Rightarrow> (bool \<times> error) list" where
  "atom_checks H a =
     [(\<not> opt_all is_sha256 (at_release_semantic_sha256 a), ValidationError ''release_semantic_sha256 pattern''),
      (\<not> opt_all (len_between 1 2048) (at_dataset_urn a), ValidationError ''dataset_urn length''),
      (\<not> opt_all (len_between 1 4096) (at_column_key a), ValidationError ''column_key length''),
      (\<not> opt_all (len_between 1 128) (at_aggregate_function a), ValidationError ''aggregate_function length''),
      (\<not> opt_all (\<lambda>n. 1 \<le> n) (at_minimum_group_size a),
         ValidationError ''minimum_group_size must be at least 1''),
      (\<not> opt_all is_sha256 (at_release_family_sha256 a), ValidationError ''release_family_sha256 pattern''),
      (\<not> opt_all is_sha256 (at_cohort_hmac_sha256 a), ValidationError ''cohort_hmac_sha256 pattern''),
      (\<not> is_sha256 (at_atom_sha256 a), ValidationError ''atom_sha256 pattern'')]
     @ fst (atom_shape a)
     @ [(\<not> set (fst (snd (atom_shape a))) \<subseteq> set (populated a)
           \<or> \<not> set (populated a) \<subseteq> set (snd (snd (atom_shape a))),
         ValidationError ''invalid field shape for disclosure atom kind''),
        (at_atom_sha256 a \<noteq> compute_atom_sha256 H a, ValidationError ''disclosure atom hash mismatch'')]"

definition validate_atom :: "(string \<Rightarrow> string) \<Rightarrow> disclosure_atom \<Rightarrow> disclosure_atom result" where
  "validate_atom H a = raise_first (atom_checks H a) a"

text \<open>\<open>_build_atom\<close>: the fields of \<open>a\<close>, with the hash they determine.\<close>

definition build_atom :: "(string \<Rightarrow> string) \<Rightarrow> disclosure_atom \<Rightarrow> disclosure_atom result" where
  "build_atom H a = validate_atom H (a\<lparr>at_atom_sha256 := compute_atom_sha256 H a\<rparr>)"

definition blank_atom :: "atom_kind \<Rightarrow> disclosure_atom" where
  "blank_atom kind = \<lparr>at_kind = kind, at_release_semantic_sha256 = None, at_dataset_urn = None,
     at_column_key = None, at_category = None, at_column_role = None, at_exposure_kind = None,
     at_aggregate_function = None, at_minimum_group_size = None, at_release_family_sha256 = None,
     at_cohort_hmac_sha256 = None, at_protected_release = None, at_identifier_category = None,
     at_atom_sha256 = zero_sha256\<rparr>"

section \<open>The atoms of a release\<close>

definition release_atom :: "atom_kind \<Rightarrow> string \<Rightarrow> disclosure_atom" where
  "release_atom kind release_sha = (blank_atom kind)\<lparr>at_release_semantic_sha256 := Some release_sha\<rparr>"

definition output_atom :: "string \<Rightarrow> exposure_kind \<Rightarrow> governed_column \<Rightarrow> disclosure_atom" where
  "output_atom release_sha kind c = (release_atom COLUMN_EXPOSURE release_sha)
     \<lparr>at_column_key := Some (column_key c), at_category := Some (gc_category c),
      at_column_role := Some ROLE_OUTPUT, at_exposure_kind := Some kind\<rparr>"

definition role_atom :: "string \<Rightarrow> column_role \<Rightarrow> governed_column \<Rightarrow> disclosure_atom" where
  "role_atom release_sha role c = (release_atom COLUMN_EXPOSURE release_sha)
     \<lparr>at_column_key := Some (column_key c), at_category := Some (gc_category c),
      at_column_role := Some role\<rparr>"

text \<open>The atoms in the order \<open>direct_atoms_for_release\<close> adds them, without their hashes.\<close>

definition release_atom_fields ::
    "semantic_release \<Rightarrow> disclosure_composition option \<Rightarrow> disclosure_atom list" where
  "release_atom_fields semantic composition =
     (let sha = sr_semantic_sha256 semantic in
      [release_atom SEMANTIC_RELEASE sha]
      @ map (\<lambda>urn. (release_atom SOURCE_DATASET sha)\<lparr>at_dataset_urn := Some urn\<rparr>)
          (sr_source_dataset_urns semantic)
      @ concat (map (\<lambda>out. map (output_atom sha (so_kind out)) (so_sources out)) (sr_outputs semantic))
      @ map (role_atom sha ROLE_REFERENCED) (sr_referenced_columns semantic)
      @ map (role_atom sha ROLE_JOIN) (sr_join_columns semantic)
      @ map (role_atom sha ROLE_GROUP_KEY) (sr_group_keys semantic)
      @ map (\<lambda>f. (release_atom AGGREGATE_FUNCTION sha)\<lparr>at_aggregate_function := Some f\<rparr>)
          (sr_aggregate_functions semantic)
      @ (case sr_minimum_group_size_present semantic of None \<Rightarrow> []
         | Some n \<Rightarrow> [(release_atom MINIMUM_GROUP_SIZE sha)\<lparr>at_minimum_group_size := Some n\<rparr>])
      @ (case composition of None \<Rightarrow> []
         | Some c \<Rightarrow> [(release_atom COHORT sha)
             \<lparr>at_release_family_sha256 := Some (co_release_family_sha256 c),
              at_cohort_hmac_sha256 := Some (co_cohort_hmac_sha256 c),
              at_protected_release := Some (co_protected_release c)\<rparr>]))"

definition direct_atoms_for_release ::
    "(string \<Rightarrow> string) \<Rightarrow> semantic_release \<Rightarrow> disclosure_composition option \<Rightarrow> disclosure_atom list result" where
  "direct_atoms_for_release H semantic composition =
     bindr (case composition of
         None \<Rightarrow> raise_first [(is_protected_release semantic,
           DisclosureTwinError ''protected semantic release requires composition metadata'')] ()
       | Some c \<Rightarrow> raise_first
          [(co_release_family_sha256 c \<noteq> sr_semantic_sha256 semantic,
              DisclosureTwinError ''composition does not match semantic release''),
           (co_protected_release c \<noteq> is_protected_release semantic,
              DisclosureTwinError ''composition protected-release classification mismatch'')] ())
     (\<lambda>_. bindr (mapr (build_atom H) (release_atom_fields semantic composition))
       (\<lambda>atoms. Inr (by_key at_atom_sha256 atoms)))"

section \<open>Inference rules\<close>

datatype rule_family = FAMILY_CATEGORY_PRESENCE | FAMILY_COEXPOSURE | FAMILY_COHORT_VARIATION

fun family_kind :: "rule_family \<Rightarrow> atom_kind" where
  "family_kind FAMILY_CATEGORY_PRESENCE = CATEGORY_PRESENCE"
| "family_kind FAMILY_COEXPOSURE = IDENTIFIER_SENSITIVE_COEXPOSURE"
| "family_kind FAMILY_COHORT_VARIATION = PROTECTED_COHORT_VARIATION"

record inference_rule =
  ru_family :: rule_family
  ru_antecedents :: "string list"
  ru_consequent :: disclosure_atom
  ru_rule_sha256 :: string

definition compute_rule_sha256 :: "(string \<Rightarrow> string) \<Rightarrow> inference_rule \<Rightarrow> string" where
  "compute_rule_sha256 H r = canonical_json_sha256 H (JObj
     [(''schema_version'', JStr ''1.0''), (''inference_version'', JStr ''0.1.0''),
      (''family'', JStr (atom_kind_value (family_kind (ru_family r)))),
      (''antecedent_atom_sha256s'', jstrs (ru_antecedents r)),
      (''consequent'', atom_json (ru_consequent r))])"

definition validate_rule :: "(string \<Rightarrow> string) \<Rightarrow> inference_rule \<Rightarrow> inference_rule result" where
  "validate_rule H r = raise_first
     [(\<not> len_between 1 16 (ru_antecedents r), ValidationError ''antecedent_atom_sha256s length''),
      (\<not> list_all is_sha256 (ru_antecedents r), ValidationError ''antecedent_atom_sha256s pattern''),
      (\<not> is_sha256 (ru_rule_sha256 r), ValidationError ''rule_sha256 pattern''),
      (\<not> canonical (ru_antecedents r), ValidationError ''inference antecedents must be sorted and unique''),
      (at_kind (ru_consequent r) \<noteq> family_kind (ru_family r),
         ValidationError ''inference rule family does not match consequent atom kind''),
      (ru_rule_sha256 r \<noteq> compute_rule_sha256 H r,
         ValidationError ''disclosure inference rule hash mismatch'')] r"

definition build_rule ::
    "(string \<Rightarrow> string) \<Rightarrow> rule_family \<Rightarrow> string list \<Rightarrow> disclosure_atom \<Rightarrow> inference_rule result" where
  "build_rule H family antecedents consequent =
     (let provisional = \<lparr>ru_family = family, ru_antecedents = sorted_set antecedents,
            ru_consequent = consequent, ru_rule_sha256 = zero_sha256\<rparr>
      in validate_rule H (provisional\<lparr>ru_rule_sha256 := compute_rule_sha256 H provisional\<rparr>))"

definition require_canonical_atoms :: "disclosure_atom list \<Rightarrow> atom_kind list \<Rightarrow> unit result" where
  "require_canonical_atoms atoms expected_kinds = raise_first
     [(\<not> canonical (map at_atom_sha256 atoms), ValueError ''disclosure atoms must be sorted and unique''),
      (list_ex (\<lambda>a. at_kind a \<notin> set expected_kinds) atoms,
         ValueError ''disclosure atom partition contains an invalid atom kind'')] ()"

definition revealing_outputs :: "disclosure_atom list \<Rightarrow> disclosure_atom list" where
  "revealing_outputs atoms = filter (\<lambda>a. at_kind a = COLUMN_EXPOSURE \<and> at_column_role a = Some ROLE_OUTPUT
     \<and> at_exposure_kind a \<in> Some ` set revealing_output_kinds) atoms"

definition linkable_outputs :: "disclosure_atom list \<Rightarrow> disclosure_atom list" where
  "linkable_outputs atoms = filter (\<lambda>a. at_exposure_kind a \<in> Some ` set linkable_output_kinds)
     (revealing_outputs atoms)"

definition with_category :: "sensitivity_category \<Rightarrow> disclosure_atom list \<Rightarrow> disclosure_atom list" where
  "with_category c atoms = filter (\<lambda>a. at_category a = Some c) atoms"

text \<open>The first loop: one presence rule for every revealing output.\<close>

definition presence_rules :: "(string \<Rightarrow> string) \<Rightarrow> disclosure_atom list \<Rightarrow> inference_rule list result" where
  "presence_rules H atoms = mapr (\<lambda>a.
     case at_category a of
       None \<Rightarrow> Inl (AssertionError '''')
     | Some c \<Rightarrow> bindr (build_atom H ((blank_atom CATEGORY_PRESENCE)\<lparr>at_category := Some c\<rparr>))
         (build_rule H FAMILY_CATEGORY_PRESENCE [at_atom_sha256 a])) (revealing_outputs atoms)"

text \<open>The second loop: the smallest linkable sensitive output with the smallest linkable output
  of each identifier category that has one.\<close>

definition coexposure_rules :: "(string \<Rightarrow> string) \<Rightarrow> disclosure_atom list \<Rightarrow> inference_rule list result" where
  "coexposure_rules H atoms =
     (let linkable = linkable_outputs atoms;
          sensitive_outputs = with_category SENSITIVE_ATTRIBUTE linkable
      in if sensitive_outputs = [] then Inr []
         else let sensitive = arg_min_list at_atom_sha256 sensitive_outputs
              in mapr (\<lambda>c.
                   let identifier = arg_min_list at_atom_sha256 (with_category c linkable)
                   in bindr (build_atom H ((blank_atom IDENTIFIER_SENSITIVE_COEXPOSURE)
                        \<lparr>at_identifier_category := Some c\<rparr>))
                      (build_rule H FAMILY_COEXPOSURE [at_atom_sha256 identifier, at_atom_sha256 sensitive]))
                 (filter (\<lambda>c. with_category c linkable \<noteq> []) identifier_categories))"

text \<open>The third loop. \<open>cohorts_by_family\<close> is a dictionary of dictionaries: family, then cohort,
  then the atom of smallest hash.\<close>

definition cohort_entry :: "disclosure_atom \<Rightarrow> (string \<times> string \<times> disclosure_atom) result" where
  "cohort_entry a = (case at_release_family_sha256 a of
       None \<Rightarrow> Inl (AssertionError '''')
     | Some family \<Rightarrow> (case at_cohort_hmac_sha256 a of
           None \<Rightarrow> Inl (AssertionError '''')
         | Some cohort \<Rightarrow> Inr (family, cohort, a)))"

definition protected_cohorts :: "disclosure_atom list \<Rightarrow> disclosure_atom list" where
  "protected_cohorts atoms = filter (\<lambda>a. at_kind a = COHORT \<and> at_protected_release a = Some True) atoms"

definition cohort_representatives ::
    "(string \<times> string \<times> disclosure_atom) list \<Rightarrow> string \<Rightarrow> disclosure_atom list" where
  "cohort_representatives entries family =
     (let own = map snd (filter (\<lambda>e. fst e = family) entries)
      in sort_key at_atom_sha256 (map (\<lambda>cohort. arg_min_list at_atom_sha256
           (map snd (filter (\<lambda>e. fst e = cohort) own))) (remdups (map fst own))))"

definition variation_rules :: "(string \<Rightarrow> string) \<Rightarrow> disclosure_atom list \<Rightarrow> inference_rule list result" where
  "variation_rules H atoms =
     bindr (mapr cohort_entry (protected_cohorts atoms)) (\<lambda>entries.
       mapr (\<lambda>family. bindr (build_atom H ((blank_atom PROTECTED_COHORT_VARIATION)
                \<lparr>at_release_family_sha256 := Some family\<rparr>))
           (build_rule H FAMILY_COHORT_VARIATION
             (map at_atom_sha256 (take 2 (cohort_representatives entries family)))))
         (filter (\<lambda>family. 2 \<le> length (cohort_representatives entries family))
           (sorted_set (map fst entries))))"

definition all_rules :: "(string \<Rightarrow> string) \<Rightarrow> disclosure_atom list \<Rightarrow> inference_rule list result" where
  "all_rules H atoms =
     bindr (presence_rules H atoms) (\<lambda>ps.
     bindr (coexposure_rules H atoms) (\<lambda>cs.
     bindr (variation_rules H atoms) (\<lambda>vs. Inr (ps @ cs @ vs))))"

definition instantiate_rules :: "(string \<Rightarrow> string) \<Rightarrow> disclosure_atom list \<Rightarrow> inference_rule list result" where
  "instantiate_rules H atoms =
     bindr (require_canonical_atoms atoms direct_atom_kinds) (\<lambda>_.
     bindr (all_rules H atoms) (\<lambda>rules.
       let distinct_rules = by_key ru_rule_sha256 rules
       in if 8192 < length distinct_rules
          then Inl (DisclosureTwinError ''disclosure inference-rule budget exceeded'')
          else Inr distinct_rules))"

section \<open>The least fixed point\<close>

text \<open>\<open>known\<close> is a dictionary from hash to atom. One pass over the rules in order; the flag
  says whether the pass learned an atom.\<close>

type_synonym known_atoms = "(string \<times> disclosure_atom) list"

fun saturate_pass ::
    "inference_rule list \<Rightarrow> known_atoms \<Rightarrow> bool \<Rightarrow> (known_atoms \<times> bool) result" where
  "saturate_pass [] known changed = Inr (known, changed)"
| "saturate_pass (rule # rules) known changed =
     (if set (ru_antecedents rule) \<subseteq> fst ` set known
      then case map_of known (at_atom_sha256 (ru_consequent rule)) of
          Some existing \<Rightarrow>
            if existing \<noteq> ru_consequent rule
            then Inl (DisclosureTwinError ''disclosure atom hash collision'')
            else saturate_pass rules known changed
        | None \<Rightarrow> saturate_pass rules
            (known @ [(at_atom_sha256 (ru_consequent rule), ru_consequent rule)]) True
      else saturate_pass rules known changed)"

abbreviation rule_head :: "inference_rule \<Rightarrow> string" where
  "rule_head r \<equiv> at_atom_sha256 (ru_consequent r)"

definition unknown_heads :: "inference_rule list \<Rightarrow> known_atoms \<Rightarrow> nat" where
  "unknown_heads rules known = card (rule_head ` set rules - fst ` set known)"

lemma saturate_pass_grows:
  "saturate_pass rules known changed = Inr (known', changed') \<Longrightarrow>
     fst ` set known \<subseteq> fst ` set known' \<and> (changed \<longrightarrow> changed')
     \<and> (changed' \<and> \<not> changed \<longrightarrow>
          (\<exists>r \<in> set rules. rule_head r \<in> fst ` set known' \<and> rule_head r \<notin> fst ` set known))"
proof (induction rules known changed rule: saturate_pass.induct)
  case (2 rule rules known changed)
  show ?case
  proof (cases "set (ru_antecedents rule) \<subseteq> fst ` set known")
    case True
    show ?thesis
    proof (cases "map_of known (rule_head rule)")
      case None
      then have "rule_head rule \<notin> fst ` set known" by (simp add: map_of_eq_None_iff)
      with 2 True None show ?thesis by auto
    next
      case (Some existing)
      with 2 True show ?thesis by (auto split: if_splits)
    qed
  next
    case False
    with 2 show ?thesis by auto
  qed
qed simp

function saturate :: "inference_rule list \<Rightarrow> known_atoms \<Rightarrow> known_atoms result" where
  "saturate rules known =
     (case saturate_pass rules known False of
        Inl e \<Rightarrow> Inl e
      | Inr (known', changed) \<Rightarrow> if changed then saturate rules known' else Inr known')"
  by pat_completeness auto

termination
proof (relation "measure (\<lambda>(rules, known). unknown_heads rules known)")
  fix rules :: "inference_rule list" and known pair known' changed
  assume pass: "saturate_pass rules known False = Inr pair" and pair: "(known', changed) = pair" and "changed"
  then have "fst ` set known \<subseteq> fst ` set known'"
    and new: "\<exists>r \<in> set rules. rule_head r \<in> fst ` set known' \<and> rule_head r \<notin> fst ` set known"
    using saturate_pass_grows [of rules known False known' changed] by auto
  then have "rule_head ` set rules - fst ` set known' \<subset> rule_head ` set rules - fst ` set known" by blast
  then show "((rules, known'), rules, known) \<in> measure (\<lambda>(rules, known). unknown_heads rules known)"
    by (simp add: unknown_heads_def psubset_card_mono)
qed simp

declare saturate.simps [simp del]

definition least_fixed_point ::
    "disclosure_atom list \<Rightarrow> inference_rule list \<Rightarrow> disclosure_atom list result" where
  "least_fixed_point released rules =
     (let seed = dict_of at_atom_sha256 released in
      bindr (saturate (sort_key ru_rule_sha256 rules) seed) (\<lambda>known.
        let derived = map snd (filter (\<lambda>(digest, _). digest \<notin> fst ` set seed) known)
        in if 4096 < length derived
           then Inl (DisclosureTwinError ''disclosure state derived-atom budget exceeded'')
           else Inr (sort_key at_atom_sha256 derived)))"

section \<open>States\<close>

record disclosure_state =
  ds_scope :: disclosure_scope
  ds_purpose_commitment_sha256 :: string
  ds_governance_commitment_sha256 :: string
  ds_evidence_root_sha256 :: string
  ds_warehouse_snapshot_sha256 :: "string option"
  ds_released_atoms :: "disclosure_atom list"
  ds_derived_atoms :: "disclosure_atom list"
  ds_inference_rules_sha256 :: string
  ds_state_sha256 :: string

definition compute_inference_rules_sha256 :: "(string \<Rightarrow> string) \<Rightarrow> inference_rule list \<Rightarrow> string" where
  "compute_inference_rules_sha256 H rules = canonical_json_sha256 H (JObj
     [(''inference_version'', JStr ''0.1.0''), (''rule_sha256s'', jstrs (sort (map ru_rule_sha256 rules)))])"

definition compute_state_sha256 :: "(string \<Rightarrow> string) \<Rightarrow> disclosure_state \<Rightarrow> string" where
  "compute_state_sha256 H s = canonical_json_sha256 H (JObj
     [(''schema_version'', JStr ''1.0''), (''model_version'', JStr ''0.1.0''),
      (''inference_version'', JStr ''0.1.0''), (''scope_sha256'', JStr (sc_scope_sha256 (ds_scope s))),
      (''purpose_commitment_sha256'', JStr (ds_purpose_commitment_sha256 s)),
      (''governance_commitment_sha256'', JStr (ds_governance_commitment_sha256 s)),
      (''evidence_root_sha256'', JStr (ds_evidence_root_sha256 s)),
      (''warehouse_snapshot_sha256'', jopt JStr (ds_warehouse_snapshot_sha256 s)),
      (''released_atom_sha256s'', jstrs (map at_atom_sha256 (ds_released_atoms s))),
      (''derived_atom_sha256s'', jstrs (map at_atom_sha256 (ds_derived_atoms s))),
      (''inference_rules_sha256'', JStr (ds_inference_rules_sha256 s))])"

text \<open>A \<open>ValueError\<close> or \<open>AssertionError\<close> inside a model validator surfaces as a
  \<open>ValidationError\<close>; the runtime errors pass through.\<close>

fun in_validator :: "'a result \<Rightarrow> 'a result" where
  "in_validator (Inl (ValueError m)) = Inl (ValidationError m)"
| "in_validator (Inl (AssertionError m)) = Inl (ValidationError m)"
| "in_validator (Inl (PolicyOracleSemanticError m)) = Inl (ValidationError m)"
| "in_validator r = r"

lemma in_validator_Inr [simp]: "in_validator r = Inr x \<longleftrightarrow> r = Inr x"
  by (cases r rule: in_validator.cases) auto

definition validate_state :: "(string \<Rightarrow> string) \<Rightarrow> disclosure_state \<Rightarrow> disclosure_state result" where
  "validate_state H s =
     bindr (raise_first
      [(\<not> is_sha256 (ds_purpose_commitment_sha256 s), ValidationError ''purpose_commitment_sha256 pattern''),
       (\<not> is_sha256 (ds_governance_commitment_sha256 s), ValidationError ''governance_commitment_sha256 pattern''),
       (\<not> is_sha256 (ds_evidence_root_sha256 s), ValidationError ''evidence_root_sha256 pattern''),
       (\<not> opt_all is_sha256 (ds_warehouse_snapshot_sha256 s), ValidationError ''warehouse_snapshot_sha256 pattern''),
       (\<not> len_between 1 4096 (ds_released_atoms s), ValidationError ''released_atoms length''),
       (\<not> len_between 0 4096 (ds_derived_atoms s), ValidationError ''derived_atoms length''),
       (\<not> is_sha256 (ds_inference_rules_sha256 s), ValidationError ''inference_rules_sha256 pattern''),
       (\<not> is_sha256 (ds_state_sha256 s), ValidationError ''state_sha256 pattern'')] ()) (\<lambda>_.
     in_validator (
       bindr (require_canonical_atoms (ds_released_atoms s) direct_atom_kinds) (\<lambda>_.
       bindr (require_canonical_atoms (ds_derived_atoms s) derived_atom_kinds) (\<lambda>_.
       if at_atom_sha256 ` set (ds_released_atoms s) \<inter> at_atom_sha256 ` set (ds_derived_atoms s) \<noteq> {}
       then Inl (ValueError ''released and derived disclosure atoms must be disjoint'')
       else bindr (instantiate_rules H (ds_released_atoms s)) (\<lambda>rules.
         if ds_inference_rules_sha256 s \<noteq> compute_inference_rules_sha256 H rules
         then Inl (ValueError ''disclosure inference-rule commitment mismatch'')
         else bindr (least_fixed_point (ds_released_atoms s) rules) (\<lambda>derived.
           if ds_derived_atoms s \<noteq> derived
           then Inl (ValueError ''derived disclosure atoms do not match deterministic closure'')
           else if ds_state_sha256 s \<noteq> compute_state_sha256 H s
           then Inl (ValueError ''disclosure state hash mismatch'')
           else Inr s))))))"

text \<open>The tail that \<open>build_disclosure_state\<close> and the grammar's \<open>_rebuild_state\<close> share:
  the closure of the released atoms, hashed and validated.\<close>

definition close_state :: "(string \<Rightarrow> string) \<Rightarrow> disclosure_state \<Rightarrow> disclosure_state result" where
  "close_state H s =
     bindr (instantiate_rules H (ds_released_atoms s)) (\<lambda>rules.
     bindr (least_fixed_point (ds_released_atoms s) rules) (\<lambda>derived.
       let provisional = s\<lparr>ds_derived_atoms := derived,
             ds_inference_rules_sha256 := compute_inference_rules_sha256 H rules,
             ds_state_sha256 := zero_sha256\<rparr>
       in validate_state H (provisional\<lparr>ds_state_sha256 := compute_state_sha256 H provisional\<rparr>)))"

section \<open>The audit history\<close>

fun check_history :: "disclosure_scope \<Rightarrow> string option \<Rightarrow> history_entry list \<Rightarrow> unit result" where
  "check_history scope previous [] = Inr ()"
| "check_history scope previous (entry # entries) =
     (if \<not> same_privacy_scope (ev_scope (dr_event (he_record entry))) scope
      then Inl (DisclosureTwinError ''disclosure audit history contains a different privacy scope'')
      else if dr_previous_content_sha256 (he_record entry) \<noteq> previous
      then Inl (DisclosureTwinError ''disclosure audit history hash chain is incomplete or broken'')
      else check_history scope (Some (dr_content_sha256 (he_record entry))) entries)"

definition validate_and_order_history ::
    "disclosure_scope \<Rightarrow> history_entry list \<Rightarrow> history_entry list result" where
  "validate_and_order_history scope entries =
     (let ordered = sort_key (\<lambda>e. dr_sequence (he_record e)) entries in
      if \<not> canonical (map (\<lambda>e. dr_sequence (he_record e)) ordered)
      then Inl (DisclosureTwinError ''disclosure audit history contains duplicate sequences'')
      else bindr (check_history scope None ordered) (\<lambda>_. Inr ordered))"

definition active_records :: "history_entry list \<Rightarrow> disclosure_record list" where
  "active_records entries = map he_record (filter (\<lambda>e. he_lifecycle e \<noteq> LC_ABORTED) entries)"

definition build_disclosure_state ::
    "(string \<Rightarrow> string) \<Rightarrow> disclosure_scope \<Rightarrow> history_entry list \<Rightarrow> semantic_release
      \<Rightarrow> disclosure_composition option \<Rightarrow> string \<Rightarrow> string \<Rightarrow> string \<Rightarrow> string option
      \<Rightarrow> disclosure_state result" where
  "build_disclosure_state H scope audit_history semantic composition purpose governance evidence_root
      warehouse =
     bindr (validate_and_order_history scope audit_history) (\<lambda>ordered.
     bindr (mapr (\<lambda>r. direct_atoms_for_release H (ev_semantic (dr_event r)) (ev_composition (dr_event r)))
              (active_records ordered)) (\<lambda>history_atoms.
     bindr (direct_atoms_for_release H semantic composition) (\<lambda>candidate_atoms.
       let released = by_key at_atom_sha256 (concat history_atoms @ candidate_atoms)
       in if 4096 < length released
          then Inl (DisclosureTwinError ''disclosure state direct-atom budget exceeded'')
          else close_state H \<lparr>ds_scope = scope, ds_purpose_commitment_sha256 = purpose,
             ds_governance_commitment_sha256 = governance, ds_evidence_root_sha256 = evidence_root,
             ds_warehouse_snapshot_sha256 = warehouse, ds_released_atoms = released,
             ds_derived_atoms = [], ds_inference_rules_sha256 = zero_sha256,
             ds_state_sha256 = zero_sha256\<rparr>)))"

section \<open>The closure loop computes the least saturated set\<close>

abbreviation derivable_hashes :: "inference_rule set \<Rightarrow> string set \<Rightarrow> string set" where
  "derivable_hashes \<equiv> derivable ru_antecedents rule_head"

lemma saturate_pass_new:
  "saturate_pass rules known changed = Inr (known', changed') \<Longrightarrow>
     \<exists>new. known' = known @ new \<and> (\<forall>e \<in> set new. \<exists>r \<in> set rules. e = (rule_head r, ru_consequent r))
       \<and> (distinct (map fst known) \<longrightarrow> distinct (map fst known'))"
proof (induction rules known changed rule: saturate_pass.induct)
  case (2 rule rules known changed)
  show ?case
  proof (cases "set (ru_antecedents rule) \<subseteq> fst ` set known \<and> map_of known (rule_head rule) = None")
    case True
    let ?known = "known @ [(rule_head rule, ru_consequent rule)]"
    from True have fresh: "rule_head rule \<notin> fst ` set known" by (simp add: map_of_eq_None_iff)
    have "saturate_pass rules ?known True = Inr (known', changed')" using 2(4) True by simp
    with 2(1) [OF conjunct1 [OF True] conjunct2 [OF True]] obtain new where
      "known' = ?known @ new" "\<forall>e \<in> set new. \<exists>r \<in> set rules. e = (rule_head r, ru_consequent r)"
      "distinct (map fst ?known) \<longrightarrow> distinct (map fst known')" by blast
    with fresh show ?thesis by (intro exI [of _ "(rule_head rule, ru_consequent rule) # new"]) auto
  next
    case False
    then have "saturate_pass rules known changed = Inr (known', changed')"
      using 2(4) by (auto split: if_splits option.splits)
    moreover from this False 2 have "\<exists>new. known' = known @ new
       \<and> (\<forall>e \<in> set new. \<exists>r \<in> set rules. e = (rule_head r, ru_consequent r))
       \<and> (distinct (map fst known) \<longrightarrow> distinct (map fst known'))"
      by (auto split: if_splits option.splits)
    ultimately show ?thesis by fastforce
  qed
qed simp

lemma saturate_pass_derivable:
  "saturate_pass rules known changed = Inr (known', changed') \<Longrightarrow> set rules \<subseteq> R \<Longrightarrow>
     fst ` set known \<subseteq> derivable_hashes R seed \<Longrightarrow> fst ` set known' \<subseteq> derivable_hashes R seed"
proof (induction rules known changed rule: saturate_pass.induct)
  case (2 rule rules known changed)
  have "rule_head rule \<in> derivable_hashes R seed" if "set (ru_antecedents rule) \<subseteq> fst ` set known"
    using 2(5,6) that by (intro derivable.fire [where r = rule]) auto
  with 2 show ?case by (auto split: if_splits option.splits)
qed simp

lemma saturate_pass_fixed:
  "saturate_pass rules known changed = Inr (known', False) \<Longrightarrow> known' = known \<and>
     (\<forall>r \<in> set rules. set (ru_antecedents r) \<subseteq> fst ` set known
        \<longrightarrow> map_of known (rule_head r) = Some (ru_consequent r))"
proof (induction rules known changed rule: saturate_pass.induct)
  case (2 rule rules known changed)
  show ?case
  proof (cases "set (ru_antecedents rule) \<subseteq> fst ` set known")
    case True
    show ?thesis
    proof (cases "map_of known (rule_head rule)")
      case None
      with 2(4) True have "saturate_pass rules (known @ [(rule_head rule, ru_consequent rule)]) True
          = Inr (known', False)" by simp
      then show ?thesis using saturate_pass_grows by blast
    next
      case (Some existing)
      with 2 True show ?thesis by (auto split: if_splits)
    qed
  next
    case False
    with 2 show ?thesis by auto
  qed
qed simp

lemma saturate_result:
  "saturate rules known = Inr K \<Longrightarrow>
     (\<exists>new. K = known @ new \<and> (\<forall>e \<in> set new. \<exists>r \<in> set rules. e = (rule_head r, ru_consequent r)))
     \<and> (distinct (map fst known) \<longrightarrow> distinct (map fst K))
     \<and> (fst ` set known \<subseteq> derivable_hashes (set rules) seed \<longrightarrow> fst ` set K \<subseteq> derivable_hashes (set rules) seed)
     \<and> (\<forall>r \<in> set rules. set (ru_antecedents r) \<subseteq> fst ` set K
          \<longrightarrow> map_of K (rule_head r) = Some (ru_consequent r))"
proof (induction rules known rule: saturate.induct)
  case (1 rules known)
  from 1(2) obtain known' changed where pass: "saturate_pass rules known False = Inr (known', changed)"
    by (cases "saturate_pass rules known False") (auto simp: saturate.simps [of rules known])
  obtain new where new: "known' = known @ new"
      "\<forall>e \<in> set new. \<exists>r \<in> set rules. e = (rule_head r, ru_consequent r)"
      "distinct (map fst known) \<longrightarrow> distinct (map fst known')"
    using saturate_pass_new [OF pass] by blast
  note der = saturate_pass_derivable [OF pass subset_refl]
  show ?case
  proof (cases changed)
    case True
    with 1(2) pass have rec: "saturate rules known' = Inr K" by (simp add: saturate.simps [of rules known])
    from 1(1) [OF pass refl True rec] obtain new' where new': "K = known' @ new'"
      "\<forall>e \<in> set new'. \<exists>r \<in> set rules. e = (rule_head r, ru_consequent r)"
      and rest: "distinct (map fst known') \<longrightarrow> distinct (map fst K)"
        "fst ` set known' \<subseteq> derivable_hashes (set rules) seed \<longrightarrow> fst ` set K \<subseteq> derivable_hashes (set rules) seed"
        "\<forall>r \<in> set rules. set (ru_antecedents r) \<subseteq> fst ` set K
          \<longrightarrow> map_of K (rule_head r) = Some (ru_consequent r)" by blast
    have "\<exists>new. K = known @ new \<and> (\<forall>e \<in> set new. \<exists>r \<in> set rules. e = (rule_head r, ru_consequent r))"
      using new new' by (intro exI [of _ "new @ new'"]) auto
    with rest new(3) der show ?thesis by blast
  next
    case False
    with 1(2) pass have "K = known'" by (simp add: saturate.simps [of rules known])
    with new der saturate_pass_fixed [of rules known False known'] pass False show ?thesis by auto
  qed
qed

text \<open>The closure of \<open>least_fixed_point\<close>: the derived hashes are the derivable ones that were
  not released, the result is in canonical order, and every fired rule's consequent is known.\<close>

lemma least_fixed_point_result:
  assumes "least_fixed_point released rules = Inr derived"
  shows "at_atom_sha256 ` set derived =
      derivable_hashes (set rules) (at_atom_sha256 ` set released) - at_atom_sha256 ` set released"
    and "canonical (map at_atom_sha256 derived)" and "set derived \<subseteq> ru_consequent ` set rules"
    and "\<And>r. r \<in> set rules \<Longrightarrow> set (ru_antecedents r) \<subseteq> at_atom_sha256 ` set released \<union> at_atom_sha256 ` set derived
        \<Longrightarrow> ru_consequent r \<in> set released \<union> set derived"
proof -
  let ?seed = "dict_of at_atom_sha256 released" and ?rules = "sort_key ru_rule_sha256 rules"
  let ?D = "derivable_hashes (set rules) (at_atom_sha256 ` set released)"
  let ?S = "at_atom_sha256 ` set released"
  from assms obtain K where sat: "saturate ?rules ?seed = Inr K"
    unfolding least_fixed_point_def Let_def by auto
  let ?new = "filter (\<lambda>(digest, _). digest \<notin> fst ` set ?seed) K"
  from assms sat have derived: "derived = sort_key at_atom_sha256 (map snd ?new)"
    by (simp add: least_fixed_point_def Let_def split: if_splits)
  have seed: "fst ` set ?seed = ?S" "distinct (map fst ?seed)" by simp_all
  have "?S \<subseteq> ?D" by (auto intro: derivable.given)
  with saturate_result [OF sat, of ?S] seed obtain new where K: "K = ?seed @ new"
    and new: "\<forall>e \<in> set new. \<exists>r \<in> set rules. e = (rule_head r, ru_consequent r)"
    and dist: "distinct (map fst K)" and sub: "fst ` set K \<subseteq> ?D"
    and fired: "\<forall>r \<in> set rules. set (ru_antecedents r) \<subseteq> fst ` set K
          \<longrightarrow> map_of K (rule_head r) = Some (ru_consequent r)" by auto
  have "saturated ru_antecedents rule_head (set rules) (fst ` set K)"
    unfolding saturated_def using fired by (metis (no_types, lifting) fst_conv image_eqI map_of_SomeD)
  then have keys: "fst ` set K = ?D"
    by (rule saturated_derivable) (use sub in \<open>simp_all add: K image_Un\<close>)
  have disj: "fst ` set new \<inter> ?S = {}" using dist seed K by auto
  have new_eq: "?new = new"
  proof -
    have "fst e \<in> ?S" if "e \<in> set ?seed" for e using imageI [OF that, of fst] seed(1) by simp
    then have "filter (\<lambda>(digest, _). digest \<notin> ?S) ?seed = []"
      by (auto simp: filter_empty_conv split_beta)
    moreover have "fst e \<notin> ?S" if "e \<in> set new" for e using imageI [OF that, of fst] disj by blast
    then have "filter (\<lambda>(digest, _). digest \<notin> ?S) new = new"
      by (auto simp: filter_id_conv split_beta)
    ultimately show ?thesis by (simp add: K)
  qed
  have hash: "at_atom_sha256 (snd e) = fst e" if "e \<in> set new" for e using new that by auto
  have keys_new: "map at_atom_sha256 (map snd new) = map fst new" using hash by simp
  have derived': "derived = sort_key at_atom_sha256 (map snd new)" using derived by (simp only: new_eq)
  then have set_derived: "set derived = snd ` set new" by simp
  have "at_atom_sha256 ` set derived = fst ` set new"
    unfolding set_derived image_image using hash by (intro image_cong) simp_all
  also have "\<dots> = ?D - ?S"
  proof -
    have "?D = ?S \<union> fst ` set new" using keys by (simp add: K image_Un)
    with disj show ?thesis by blast
  qed
  finally show hashes: "at_atom_sha256 ` set derived = ?D - ?S" .
  have "distinct (map at_atom_sha256 (map snd new))" using dist K unfolding keys_new by simp
  from distinct_card [OF this] have "distinct (map at_atom_sha256 derived)"
    by (intro card_distinct) (simp add: derived' image_image)
  moreover have "sorted (map at_atom_sha256 derived)" by (simp add: derived')
  ultimately show "canonical (map at_atom_sha256 derived)" by (simp add: canonical_iff)
  show "set derived \<subseteq> ru_consequent ` set rules" unfolding set_derived using new by force
  fix r assume r: "r \<in> set rules" "set (ru_antecedents r) \<subseteq> ?S \<union> at_atom_sha256 ` set derived"
  have "?S \<union> at_atom_sha256 ` set derived \<subseteq> ?D" using hashes \<open>?S \<subseteq> ?D\<close> by blast
  with r(2) have "set (ru_antecedents r) \<subseteq> fst ` set K" unfolding keys by (rule subset_trans)
  with fired r(1) have "(rule_head r, ru_consequent r) \<in> set K" by (auto dest: map_of_SomeD)
  moreover have "snd e \<in> set released" if "e \<in> set ?seed" for e
  proof -
    from that have "map_of ?seed (fst e) = Some (snd e)"
      using map_of_eq_Some_iff [OF seed(2), of "fst e" "snd e"] by simp
    then show ?thesis by (rule map_of_dict_of_Some(1))
  qed
  ultimately show "ru_consequent r \<in> set released \<union> set derived"
    unfolding set_derived K by force
qed

section \<open>What the rules derive\<close>

lemma build_atom_Inr:
  "build_atom H a = Inr b \<Longrightarrow> b = a\<lparr>at_atom_sha256 := compute_atom_sha256 H a\<rparr>"
  by (simp add: build_atom_def validate_atom_def)

lemma build_rule_Inr:
  "build_rule H family ants c = Inr r \<Longrightarrow> ru_antecedents r = sorted_set ants \<and> ru_consequent r = c
     \<and> at_kind c = family_kind family"
  by (auto simp: build_rule_def Let_def validate_rule_def)

lemma arg_min_list_mem: "xs \<noteq> [] \<Longrightarrow> arg_min_list f xs \<in> set xs"
  by (rule arg_min_list_in)

lemma linkable_subset: "set (linkable_outputs atoms) \<subseteq> set atoms"
  by (auto simp: linkable_outputs_def revealing_outputs_def)

text \<open>An atom of one of the three derived shapes.\<close>

definition presence_atom :: "(string \<Rightarrow> string) \<Rightarrow> sensitivity_category \<Rightarrow> disclosure_atom" where
  "presence_atom H c = (let a = (blank_atom CATEGORY_PRESENCE)\<lparr>at_category := Some c\<rparr>
     in a\<lparr>at_atom_sha256 := compute_atom_sha256 H a\<rparr>)"

definition coexposure_atom :: "(string \<Rightarrow> string) \<Rightarrow> sensitivity_category \<Rightarrow> disclosure_atom" where
  "coexposure_atom H c = (let a = (blank_atom IDENTIFIER_SENSITIVE_COEXPOSURE)\<lparr>at_identifier_category := Some c\<rparr>
     in a\<lparr>at_atom_sha256 := compute_atom_sha256 H a\<rparr>)"

definition variation_atom :: "(string \<Rightarrow> string) \<Rightarrow> string \<Rightarrow> disclosure_atom" where
  "variation_atom H f = (let a = (blank_atom PROTECTED_COHORT_VARIATION)\<lparr>at_release_family_sha256 := Some f\<rparr>
     in a\<lparr>at_atom_sha256 := compute_atom_sha256 H a\<rparr>)"

lemma derived_atom_fields [simp]:
  "at_kind (presence_atom H c) = CATEGORY_PRESENCE" "at_category (presence_atom H c) = Some c"
  "at_kind (coexposure_atom H c) = IDENTIFIER_SENSITIVE_COEXPOSURE"
  "at_identifier_category (coexposure_atom H c) = Some c"
  "at_kind (variation_atom H f) = PROTECTED_COHORT_VARIATION"
  "at_release_family_sha256 (variation_atom H f) = Some f"
  by (simp_all add: presence_atom_def coexposure_atom_def variation_atom_def blank_atom_def Let_def)

lemma presence_rules_result:
  assumes "presence_rules H atoms = Inr rs"
  shows "ru_consequent ` set rs = {presence_atom H c | a c. a \<in> set (revealing_outputs atoms) \<and> at_category a = Some c}"
    and "r \<in> set rs \<Longrightarrow> set (ru_antecedents r) \<subseteq> at_atom_sha256 ` set atoms"
proof -
  let ?f = "\<lambda>a. case at_category a of
       None \<Rightarrow> Inl (AssertionError '''')
     | Some c \<Rightarrow> bindr (build_atom H ((blank_atom CATEGORY_PRESENCE)\<lparr>at_category := Some c\<rparr>))
         (build_rule H FAMILY_CATEGORY_PRESENCE [at_atom_sha256 a])"
  have f: "\<exists>c. at_category a = Some c \<and> ru_consequent r = presence_atom H c
      \<and> ru_antecedents r = [at_atom_sha256 a]" if "?f a = Inr r" for a r
    using that by (auto simp: presence_atom_def Let_def sorted_set_def dest!: build_atom_Inr build_rule_Inr)
  from assms have all2: "list_all2 (\<lambda>a r. ?f a = Inr r) (revealing_outputs atoms) rs"
    by (simp add: presence_rules_def mapr_Inr_iff)
  have sub: "set (revealing_outputs atoms) \<subseteq> set atoms" by (auto simp: revealing_outputs_def)
  show "ru_consequent ` set rs = {presence_atom H c | a c. a \<in> set (revealing_outputs atoms) \<and> at_category a = Some c}"
  proof (intro equalityI subsetI)
    fix x assume "x \<in> ru_consequent ` set rs"
    with list_all2_set_right [OF all2] f
    show "x \<in> {presence_atom H c | a c. a \<in> set (revealing_outputs atoms) \<and> at_category a = Some c}" by blast
  next
    fix x assume "x \<in> {presence_atom H c | a c. a \<in> set (revealing_outputs atoms) \<and> at_category a = Some c}"
    then obtain a c where a: "a \<in> set (revealing_outputs atoms)" "at_category a = Some c" "x = presence_atom H c"
      by blast
    from list_all2_left [OF all2 a(1)] obtain r where "r \<in> set rs" "?f a = Inr r" by blast
    with f [OF this(2)] a show "x \<in> ru_consequent ` set rs" by force
  qed
  assume "r \<in> set rs"
  then obtain a where "a \<in> set (revealing_outputs atoms)" "?f a = Inr r"
    using list_all2_set_right [OF all2] by blast
  with f [OF this(2)] sub show "set (ru_antecedents r) \<subseteq> at_atom_sha256 ` set atoms" by auto
qed

lemma coexposure_rules_result:
  assumes "coexposure_rules H atoms = Inr rs"
  shows "ru_consequent ` set rs = {coexposure_atom H c | c. c \<in> set identifier_categories
      \<and> with_category c (linkable_outputs atoms) \<noteq> [] \<and> with_category SENSITIVE_ATTRIBUTE (linkable_outputs atoms) \<noteq> []}"
    and "r \<in> set rs \<Longrightarrow> set (ru_antecedents r) \<subseteq> at_atom_sha256 ` set atoms"
proof -
  let ?link = "linkable_outputs atoms"
  let ?sens = "with_category SENSITIVE_ATTRIBUTE ?link"
  let ?s = "arg_min_list at_atom_sha256 ?sens" and ?i = "\<lambda>c. arg_min_list at_atom_sha256 (with_category c ?link)"
  let ?f = "\<lambda>c. bindr (build_atom H ((blank_atom IDENTIFIER_SENSITIVE_COEXPOSURE)\<lparr>at_identifier_category := Some c\<rparr>))
                      (build_rule H FAMILY_COEXPOSURE [at_atom_sha256 (?i c), at_atom_sha256 ?s])"
  let ?cs = "filter (\<lambda>c. with_category c ?link \<noteq> []) identifier_categories"
  have f: "ru_consequent r = coexposure_atom H c
      \<and> set (ru_antecedents r) = {at_atom_sha256 (?i c), at_atom_sha256 ?s}" if "?f c = Inr r" for c r
    using that by (auto simp: coexposure_atom_def Let_def dest!: build_atom_Inr build_rule_Inr)
  have sub: "set (with_category c ?link) \<subseteq> set atoms" for c
    using linkable_subset by (auto simp: with_category_def)
  show "ru_consequent ` set rs = {coexposure_atom H c | c. c \<in> set identifier_categories
      \<and> with_category c ?link \<noteq> [] \<and> ?sens \<noteq> []}"
  proof (cases "?sens = []")
    case True
    with assms show ?thesis by (simp add: coexposure_rules_def)
  next
    case False
    with assms have m: "mapr ?f ?cs = Inr rs" by (simp add: coexposure_rules_def Let_def)
    then have all2: "list_all2 (\<lambda>c r. ?f c = Inr r) ?cs rs" by (simp add: mapr_Inr_iff)
    have "ru_consequent ` set rs = coexposure_atom H ` set ?cs"
    proof (intro equalityI subsetI)
      fix x assume "x \<in> ru_consequent ` set rs"
      with mapr_set [OF m] f show "x \<in> coexposure_atom H ` set ?cs" by blast
    next
      fix x assume "x \<in> coexposure_atom H ` set ?cs"
      then obtain c where c: "c \<in> set ?cs" "x = coexposure_atom H c" by blast
      from list_all2_left [OF all2 c(1)] obtain r where "r \<in> set rs" "?f c = Inr r" by blast
      with f c(2) show "x \<in> ru_consequent ` set rs" by force
    qed
    with False show ?thesis by auto
  qed
  assume r: "r \<in> set rs"
  then have ne: "?sens \<noteq> []" using assms by (auto simp: coexposure_rules_def)
  with assms have "mapr ?f ?cs = Inr rs" by (simp add: coexposure_rules_def Let_def)
  from mapr_set [OF this] r obtain c where c: "with_category c ?link \<noteq> []" "?f c = Inr r" by auto
  have "?s \<in> set atoms" "?i c \<in> set atoms"
    using arg_min_list_mem [OF ne] arg_min_list_mem [OF c(1)] sub by blast+
  with f [OF c(2)] show "set (ru_antecedents r) \<subseteq> at_atom_sha256 ` set atoms" by auto
qed

lemma two_distinct: "2 \<le> length (remdups xs) \<longleftrightarrow> (\<exists>x \<in> set xs. \<exists>y \<in> set xs. x \<noteq> y)"
proof -
  have "length (remdups xs) = card (set xs)" by (simp add: length_remdups_card_conv)
  then have "2 \<le> length (remdups xs) \<longleftrightarrow> \<not> card (set xs) \<le> Suc 0" by auto
  also have "\<dots> \<longleftrightarrow> (\<exists>x \<in> set xs. \<exists>y \<in> set xs. x \<noteq> y)" by (auto simp: card_le_Suc0_iff_eq)
  finally show ?thesis .
qed

text \<open>Two protected cohorts of one release family.\<close>

definition cohort_variation :: "disclosure_atom list \<Rightarrow> string \<Rightarrow> bool" where
  "cohort_variation atoms family \<longleftrightarrow> (\<exists>a \<in> set (protected_cohorts atoms). \<exists>b \<in> set (protected_cohorts atoms).
     at_release_family_sha256 a = Some family \<and> at_release_family_sha256 b = Some family
     \<and> at_cohort_hmac_sha256 a \<noteq> at_cohort_hmac_sha256 b)"

lemma cohort_entries:
  assumes "mapr cohort_entry (protected_cohorts atoms) = Inr entries"
  shows "(f, c, a) \<in> set entries \<longleftrightarrow> a \<in> set (protected_cohorts atoms)
     \<and> at_release_family_sha256 a = Some f \<and> at_cohort_hmac_sha256 a = Some c"
    and "a \<in> set (protected_cohorts atoms) \<Longrightarrow> at_cohort_hmac_sha256 a \<noteq> None"
proof -
  have entry: "cohort_entry x = Inr (f, c, a) \<longleftrightarrow> x = a \<and> at_release_family_sha256 a = Some f
      \<and> at_cohort_hmac_sha256 a = Some c" for x f c a
    by (auto simp: cohort_entry_def split: option.splits)
  show "(f, c, a) \<in> set entries \<longleftrightarrow> a \<in> set (protected_cohorts atoms)
     \<and> at_release_family_sha256 a = Some f \<and> at_cohort_hmac_sha256 a = Some c"
    using mapr_set [OF assms] entry by auto
  assume "a \<in> set (protected_cohorts atoms)"
  moreover from assms have all2: "list_all2 (\<lambda>x y. cohort_entry x = Inr y) (protected_cohorts atoms) entries"
    by (simp add: mapr_Inr_iff)
  ultimately obtain y where "cohort_entry a = Inr y" using list_all2_left [of _ _ entries a] by blast
  then show "at_cohort_hmac_sha256 a \<noteq> None" by (auto simp: cohort_entry_def split: option.splits)
qed

lemma cohort_representatives_set:
  "set (cohort_representatives entries family) \<subseteq> snd ` snd ` set entries"
proof
  let ?own = "map snd (filter (\<lambda>e. fst e = family) entries)"
  fix x assume "x \<in> set (cohort_representatives entries family)"
  then obtain cohort where c: "cohort \<in> fst ` set ?own"
    and x: "x = arg_min_list at_atom_sha256 (map snd (filter (\<lambda>e. fst e = cohort) ?own))"
    by (auto simp: cohort_representatives_def Let_def)
  from c have "map snd (filter (\<lambda>e. fst e = cohort) ?own) \<noteq> []" by (force simp: filter_empty_conv)
  from arg_min_list_mem [OF this, of at_atom_sha256] have "x \<in> set (map snd (filter (\<lambda>e. fst e = cohort) ?own))"
    unfolding x .
  then show "x \<in> snd ` snd ` set entries" by auto
qed

lemma cohort_representatives_two:
  assumes "mapr cohort_entry (protected_cohorts atoms) = Inr entries"
  shows "2 \<le> length (cohort_representatives entries family) \<longleftrightarrow> cohort_variation atoms family"
proof -
  have "2 \<le> length (cohort_representatives entries family)
      \<longleftrightarrow> 2 \<le> length (remdups (map fst (map snd (filter (\<lambda>e. fst e = family) entries))))"
    by (simp add: cohort_representatives_def Let_def)
  also have "\<dots> \<longleftrightarrow> (\<exists>e \<in> set entries. \<exists>e' \<in> set entries. fst e = family \<and> fst e' = family
      \<and> fst (snd e) \<noteq> fst (snd e'))"
    unfolding two_distinct set_map set_filter image_image by blast
  also have "\<dots> \<longleftrightarrow> cohort_variation atoms family"
  proof
    assume "\<exists>e \<in> set entries. \<exists>e' \<in> set entries. fst e = family \<and> fst e' = family
      \<and> fst (snd e) \<noteq> fst (snd e')"
    then obtain c a c' a' where "(family, c, a) \<in> set entries" "(family, c', a') \<in> set entries" "c \<noteq> c'"
      by force
    then show "cohort_variation atoms family"
      unfolding cohort_variation_def cohort_entries(1) [OF assms]
      by (intro bexI [of _ a] bexI [of _ a']) simp_all
  next
    assume "cohort_variation atoms family"
    then obtain a b where ab: "a \<in> set (protected_cohorts atoms)" "b \<in> set (protected_cohorts atoms)"
      "at_release_family_sha256 a = Some family" "at_release_family_sha256 b = Some family"
      "at_cohort_hmac_sha256 a \<noteq> at_cohort_hmac_sha256 b" unfolding cohort_variation_def by blast
    then obtain c c' where "at_cohort_hmac_sha256 a = Some c" "at_cohort_hmac_sha256 b = Some c'" "c \<noteq> c'"
      using cohort_entries(2) [OF assms ab(1)] cohort_entries(2) [OF assms ab(2)] by auto
    with ab have "(family, c, a) \<in> set entries" "(family, c', b) \<in> set entries"
      by (simp_all add: cohort_entries(1) [OF assms])
    with \<open>c \<noteq> c'\<close> show "\<exists>e \<in> set entries. \<exists>e' \<in> set entries. fst e = family \<and> fst e' = family
      \<and> fst (snd e) \<noteq> fst (snd e')" by force
  qed
  finally show ?thesis .
qed

lemma variation_rules_result:
  assumes "variation_rules H atoms = Inr rs"
  shows "ru_consequent ` set rs = {variation_atom H f | f. cohort_variation atoms f}"
    and "r \<in> set rs \<Longrightarrow> set (ru_antecedents r) \<subseteq> at_atom_sha256 ` set atoms"
proof -
  from assms obtain entries where e: "mapr cohort_entry (protected_cohorts atoms) = Inr entries"
    by (auto simp: variation_rules_def)
  let ?reps = "\<lambda>f. map at_atom_sha256 (take 2 (cohort_representatives entries f))"
  let ?f = "\<lambda>family. bindr (build_atom H ((blank_atom PROTECTED_COHORT_VARIATION)
                \<lparr>at_release_family_sha256 := Some family\<rparr>)) (build_rule H FAMILY_COHORT_VARIATION (?reps family))"
  let ?fs = "filter (\<lambda>family. 2 \<le> length (cohort_representatives entries family)) (sorted_set (map fst entries))"
  from assms e have m: "mapr ?f ?fs = Inr rs" by (simp add: variation_rules_def)
  then have all2: "list_all2 (\<lambda>x y. ?f x = Inr y) ?fs rs" by (simp add: mapr_Inr_iff)
  have f: "ru_consequent r = variation_atom H x \<and> set (ru_antecedents r) = set (?reps x)"
    if "?f x = Inr r" for x r
    using that by (auto simp: variation_atom_def Let_def dest!: build_atom_Inr build_rule_Inr)
  have fs: "set ?fs = {f. cohort_variation atoms f}"
  proof (intro equalityI subsetI)
    fix x assume "x \<in> {f. cohort_variation atoms f}"
    then have two: "2 \<le> length (cohort_representatives entries x)"
      by (simp add: cohort_representatives_two [OF e])
    then have "map snd (filter (\<lambda>e. fst e = x) entries) \<noteq> []"
      by (auto simp: cohort_representatives_def Let_def)
    then have "x \<in> fst ` set entries" by (force simp: filter_empty_conv)
    with two show "x \<in> set ?fs" by simp
  qed (simp add: cohort_representatives_two [OF e])
  have "ru_consequent ` set rs = variation_atom H ` set ?fs"
  proof (intro equalityI subsetI)
    fix x assume "x \<in> ru_consequent ` set rs"
    with mapr_set [OF m] f show "x \<in> variation_atom H ` set ?fs" by blast
  next
    fix x assume "x \<in> variation_atom H ` set ?fs"
    then obtain c where c: "c \<in> set ?fs" "x = variation_atom H c" by blast
    from list_all2_left [OF all2 c(1)] obtain r where "r \<in> set rs" "?f c = Inr r" by blast
    with f c(2) show "x \<in> ru_consequent ` set rs" by force
  qed
  then show "ru_consequent ` set rs = {variation_atom H f | f. cohort_variation atoms f}" unfolding fs by blast
  assume "r \<in> set rs"
  with mapr_set [OF m] obtain x where "?f x = Inr r" by blast
  with f have "set (ru_antecedents r) = set (?reps x)" by blast
  also have "\<dots> \<subseteq> at_atom_sha256 ` set (cohort_representatives entries x)" using set_take_subset by force
  also have "\<dots> \<subseteq> at_atom_sha256 ` set atoms"
  proof (rule image_mono)
    have "snd ` snd ` set entries \<subseteq> set atoms"
      by (auto simp: cohort_entries(1) [OF e] protected_cohorts_def)
    then show "set (cohort_representatives entries x) \<subseteq> set atoms"
      using cohort_representatives_set [of entries x] by blast
  qed
  finally show "set (ru_antecedents r) \<subseteq> at_atom_sha256 ` set atoms" .
qed

lemma all_rules_result:
  assumes "all_rules H atoms = Inr rs"
  shows "ru_consequent ` set rs =
      {presence_atom H c | a c. a \<in> set (revealing_outputs atoms) \<and> at_category a = Some c}
      \<union> {coexposure_atom H c | c. c \<in> set identifier_categories \<and> with_category c (linkable_outputs atoms) \<noteq> []
          \<and> with_category SENSITIVE_ATTRIBUTE (linkable_outputs atoms) \<noteq> []}
      \<union> {variation_atom H f | f. cohort_variation atoms f}"
    and "r \<in> set rs \<Longrightarrow> set (ru_antecedents r) \<subseteq> at_atom_sha256 ` set atoms"
    and "r \<in> set rs \<Longrightarrow> at_kind (ru_consequent r) \<in> set derived_atom_kinds"
proof -
  from assms obtain ps cs vs where parts: "presence_rules H atoms = Inr ps" "coexposure_rules H atoms = Inr cs"
    "variation_rules H atoms = Inr vs" and rs: "rs = ps @ cs @ vs" by (auto simp: all_rules_def)
  note results = presence_rules_result [OF parts(1)] coexposure_rules_result [OF parts(2)]
    variation_rules_result [OF parts(3)]
  have "ru_consequent ` set rs = ru_consequent ` set ps \<union> ru_consequent ` set cs \<union> ru_consequent ` set vs"
    by (simp add: rs image_Un Un_assoc)
  then show cons: "ru_consequent ` set rs =
      {presence_atom H c | a c. a \<in> set (revealing_outputs atoms) \<and> at_category a = Some c}
      \<union> {coexposure_atom H c | c. c \<in> set identifier_categories \<and> with_category c (linkable_outputs atoms) \<noteq> []
          \<and> with_category SENSITIVE_ATTRIBUTE (linkable_outputs atoms) \<noteq> []}
      \<union> {variation_atom H f | f. cohort_variation atoms f}"
    unfolding results(1,3,5) .
  assume r: "r \<in> set rs"
  then show "set (ru_antecedents r) \<subseteq> at_atom_sha256 ` set atoms"
    unfolding rs set_append using results(2,4,6) by blast
  from r have "ru_consequent r \<in> ru_consequent ` set rs" by blast
  then show "at_kind (ru_consequent r) \<in> set derived_atom_kinds"
    unfolding cons by (auto simp: derived_atom_kinds_def)
qed

lemma instantiate_rules_Inr:
  assumes "instantiate_rules H atoms = Inr rules"
  obtains rs where "all_rules H atoms = Inr rs" "rules = by_key ru_rule_sha256 rs"
    "canonical (map at_atom_sha256 atoms)" "\<forall>a \<in> set atoms. at_kind a \<in> set direct_atom_kinds"
proof -
  from assms obtain rs where "all_rules H atoms = Inr rs" "rules = by_key ru_rule_sha256 rs"
    "require_canonical_atoms atoms direct_atom_kinds = Inr ()"
    unfolding instantiate_rules_def by (auto simp: Let_def split: if_splits)
  moreover from this(3) have "canonical (map at_atom_sha256 atoms)"
    "\<forall>a \<in> set atoms. at_kind a \<in> set direct_atom_kinds"
    by (auto simp: require_canonical_atoms_def list_ex_iff)
  ultimately show thesis using that by blast
qed

lemma kinds_disjoint: "set direct_atom_kinds \<inter> set derived_atom_kinds = {}"
  by (simp add: direct_atom_kinds_def derived_atom_kinds_def)

text \<open>Every instantiated rule fires, and the closure is exactly their consequents.\<close>

lemma closure_consequents:
  assumes "instantiate_rules H atoms = Inr rules" and "least_fixed_point atoms rules = Inr derived"
  shows "set derived = ru_consequent ` set rules"
proof
  from assms(1) obtain rs where rs: "all_rules H atoms = Inr rs" "rules = by_key ru_rule_sha256 rs"
    "\<forall>a \<in> set atoms. at_kind a \<in> set direct_atom_kinds" by (rule instantiate_rules_Inr)
  then have sub: "set rules \<subseteq> set rs" by (simp add: set_by_key_subset)
  show "set derived \<subseteq> ru_consequent ` set rules" by (rule least_fixed_point_result(3) [OF assms(2)])
  show "ru_consequent ` set rules \<subseteq> set derived"
  proof
    fix x assume "x \<in> ru_consequent ` set rules"
    then obtain r where r: "r \<in> set rules" "x = ru_consequent r" by blast
    with sub have mem: "r \<in> set rs" by blast
    have "x \<in> set atoms \<union> set derived"
      using least_fixed_point_result(4) [OF assms(2) r(1)] all_rules_result(2) [OF rs(1) mem] r(2) by blast
    moreover have "x \<notin> set atoms"
      using rs(3) all_rules_result(3) [OF rs(1) mem] r(2) kinds_disjoint by blast
    ultimately show "x \<in> set derived" by blast
  qed
qed

section \<open>Closing a state\<close>

lemma validate_state_Inr:
  assumes "validate_state H s = Inr s'"
  obtains rules where "s' = s" "instantiate_rules H (ds_released_atoms s) = Inr rules"
    "least_fixed_point (ds_released_atoms s) rules = Inr (ds_derived_atoms s)"
    "ds_inference_rules_sha256 s = compute_inference_rules_sha256 H rules"
    "ds_state_sha256 s = compute_state_sha256 H s"
  using assms unfolding validate_state_def by (auto split: if_splits)

lemma close_state_Inr:
  assumes "close_state H s = Inr s'"
  obtains "validate_state H s' = Inr s'" "ds_released_atoms s' = ds_released_atoms s"
    "ds_scope s' = ds_scope s" "ds_purpose_commitment_sha256 s' = ds_purpose_commitment_sha256 s"
    "ds_governance_commitment_sha256 s' = ds_governance_commitment_sha256 s"
    "ds_evidence_root_sha256 s' = ds_evidence_root_sha256 s"
    "ds_warehouse_snapshot_sha256 s' = ds_warehouse_snapshot_sha256 s"
proof -
  from assms obtain rules derived where
    v: "validate_state H (s\<lparr>ds_derived_atoms := derived,
             ds_inference_rules_sha256 := compute_inference_rules_sha256 H rules,
             ds_state_sha256 := compute_state_sha256 H (s\<lparr>ds_derived_atoms := derived,
               ds_inference_rules_sha256 := compute_inference_rules_sha256 H rules,
               ds_state_sha256 := zero_sha256\<rparr>)\<rparr>) = Inr s'" (is "validate_state H ?s = _")
    unfolding close_state_def by (auto simp: Let_def)
  then have "s' = ?s" by (rule validate_state_Inr)
  with v that show thesis by simp
qed

text \<open>A closed state is determined by its context and its released atoms.\<close>

lemma validated_state_unique:
  assumes "validate_state H s = Inr s" and "validate_state H t = Inr t"
    and "ds_released_atoms s = ds_released_atoms t" and "ds_scope s = ds_scope t"
    and "ds_purpose_commitment_sha256 s = ds_purpose_commitment_sha256 t"
    and "ds_governance_commitment_sha256 s = ds_governance_commitment_sha256 t"
    and "ds_evidence_root_sha256 s = ds_evidence_root_sha256 t"
    and "ds_warehouse_snapshot_sha256 s = ds_warehouse_snapshot_sha256 t"
  shows "s = t"
proof -
  from assms(1) obtain rules where s: "instantiate_rules H (ds_released_atoms s) = Inr rules"
    "least_fixed_point (ds_released_atoms s) rules = Inr (ds_derived_atoms s)"
    "ds_inference_rules_sha256 s = compute_inference_rules_sha256 H rules"
    "ds_state_sha256 s = compute_state_sha256 H s" by (rule validate_state_Inr)
  from assms(2) obtain rules' where t: "instantiate_rules H (ds_released_atoms t) = Inr rules'"
    "least_fixed_point (ds_released_atoms t) rules' = Inr (ds_derived_atoms t)"
    "ds_inference_rules_sha256 t = compute_inference_rules_sha256 H rules'"
    "ds_state_sha256 t = compute_state_sha256 H t" by (rule validate_state_Inr)
  from s t assms(3) have "rules' = rules" by simp
  with s t assms(3) have eqs: "ds_derived_atoms t = ds_derived_atoms s"
    "ds_inference_rules_sha256 t = ds_inference_rules_sha256 s" by simp_all
  have "compute_state_sha256 H s = compute_state_sha256 H t"
    using assms(3-) eqs by (simp add: compute_state_sha256_def)
  with s(4) t(4) eqs assms(3-) show ?thesis by (intro disclosure_state.equality) simp_all
qed

section \<open>Totality of the closure\<close>

lemma saturate_pass_total:
  assumes "\<And>r r'. r \<in> R \<Longrightarrow> r' \<in> R \<Longrightarrow> rule_head r = rule_head r' \<Longrightarrow> ru_consequent r = ru_consequent r'"
  shows "set rules \<subseteq> R \<Longrightarrow> (\<forall>r \<in> R. \<forall>a. map_of known (rule_head r) = Some a \<longrightarrow> a = ru_consequent r) \<Longrightarrow>
     \<exists>known' changed'. saturate_pass rules known changed = Inr (known', changed')
       \<and> (\<forall>r \<in> R. \<forall>a. map_of known' (rule_head r) = Some a \<longrightarrow> a = ru_consequent r)"
proof (induction rules known changed rule: saturate_pass.induct)
  case (2 rule rules known changed)
  from 2(4) have rule: "rule \<in> R" "set rules \<subseteq> R" by auto
  show ?case
  proof (cases "set (ru_antecedents rule) \<subseteq> fst ` set known")
    case True
    show ?thesis
    proof (cases "map_of known (rule_head rule)")
      case None
      let ?known = "known @ [(rule_head rule, ru_consequent rule)]"
      have "\<forall>r \<in> R. \<forall>a. map_of ?known (rule_head r) = Some a \<longrightarrow> a = ru_consequent r"
        using 2(5) assms rule(1) by (auto simp: map_add_Some_iff split: if_splits)
      from 2(1) [OF True None rule(2) this] True None show ?thesis by simp
    next
      case (Some existing)
      with 2(5) rule(1) have "existing = ru_consequent rule" by blast
      with 2(2) [OF True Some _ rule(2) 2(5)] True Some show ?thesis by simp
    qed
  next
    case False
    from 2(3) [OF False rule(2) 2(5)] False show ?thesis by simp
  qed
qed simp

lemma saturate_total:
  assumes "\<And>r r'. r \<in> set rules \<Longrightarrow> r' \<in> set rules \<Longrightarrow> rule_head r = rule_head r'
      \<Longrightarrow> ru_consequent r = ru_consequent r'"
  shows "(\<forall>r \<in> set rules. \<forall>a. map_of known (rule_head r) = Some a \<longrightarrow> a = ru_consequent r) \<Longrightarrow>
     \<exists>K. saturate rules known = Inr K"
  using assms
proof (induction rules known rule: saturate.induct)
  case (1 rules known)
  from saturate_pass_total [where R = "set rules", OF 1(3) subset_refl 1(2), of False] obtain known' changed where
    pass: "saturate_pass rules known False = Inr (known', changed)"
    and inv: "\<forall>r \<in> set rules. \<forall>a. map_of known' (rule_head r) = Some a \<longrightarrow> a = ru_consequent r" by blast
  show ?case
  proof (cases changed)
    case True
    then have step: "saturate rules known = saturate rules known'"
      using pass by (simp add: saturate.simps [of rules known])
    show ?thesis unfolding step by (rule 1(1) [OF pass refl True inv 1(3)])
  next
    case False
    with pass show ?thesis by (simp add: saturate.simps [of rules known])
  qed
qed

lemma saturate_new_count:
  assumes "saturate rules (dict_of at_atom_sha256 released) = Inr K"
  shows "length (filter (\<lambda>(digest, _). digest \<notin> fst ` set (dict_of at_atom_sha256 released)) K) \<le> length rules"
proof -
  let ?seed = "dict_of at_atom_sha256 released"
  let ?p = "\<lambda>(digest, _ :: disclosure_atom). digest \<notin> fst ` set ?seed"
  note result = saturate_result [OF assms, of "{}"]
  from conjunct1 [OF result] obtain new where K: "K = ?seed @ new"
    and new: "\<forall>e \<in> set new. \<exists>r \<in> set rules. e = (rule_head r, ru_consequent r)" by blast
  from conjunct1 [OF conjunct2 [OF result]] have dist: "distinct (map fst K)" by simp
  have "length (filter ?p K) = card (set (filter ?p K))"
    using dist by (intro distinct_card [symmetric] distinct_filter) (simp add: distinct_map)
  also have "\<dots> \<le> card ((\<lambda>r. (rule_head r, ru_consequent r)) ` set rules)"
  proof (rule card_mono)
    show "set (filter ?p K) \<subseteq> (\<lambda>r. (rule_head r, ru_consequent r)) ` set rules"
    proof
      fix e assume e: "e \<in> set (filter ?p K)"
      then have "fst e \<notin> fst ` set ?seed" by (auto simp: split_beta)
      then have "e \<notin> set ?seed" by blast
      with e K have "e \<in> set new" by simp
      with new show "e \<in> (\<lambda>r. (rule_head r, ru_consequent r)) ` set rules" by blast
    qed
  qed simp
  also have "\<dots> \<le> length rules"
    by (rule le_trans [OF card_image_le card_length]) simp
  finally show ?thesis .
qed

section \<open>Order and lifecycle of the history\<close>

lemma sort_key_distinct_cong:
  assumes "set xs = set ys" and "distinct xs" and "distinct ys" and "inj_on f (set xs)"
  shows "sort_key f xs = sort_key f ys"
proof (rule map_sorted_distinct_set_unique)
  show "inj_on f (set (sort_key f xs) \<union> set (sort_key f ys))" using assms by simp
  show "distinct (map f (sort_key f xs))" "distinct (map f (sort_key f ys))"
    using assms by (simp_all add: distinct_map)
qed (use assms in simp_all)

lemma map_insort_key: "map g (insort_key (\<lambda>x. f (g x)) x xs) = insort_key f (g x) (map g xs)"
  by (induction xs) simp_all

lemma sort_key_map: "sort_key f (map g xs) = map g (sort_key (\<lambda>x. f (g x)) xs)"
  by (induction xs) (simp_all add: map_insort_key)

lemma distinct_sequences:
  "canonical (map f (sort_key f xs)) \<Longrightarrow> inj_on f (set xs)"
  by (simp add: canonical_iff distinct_map)

definition release_pending :: "history_entry \<Rightarrow> history_entry" where
  "release_pending e = (if he_lifecycle e = LC_PENDING then e\<lparr>he_lifecycle := LC_RELEASED\<rparr> else e)"

lemma release_pending_simps [simp]:
  "he_record (release_pending e) = he_record e"
  "he_lifecycle (release_pending e) = LC_ABORTED \<longleftrightarrow> he_lifecycle e = LC_ABORTED"
  by (simp_all add: release_pending_def)

lemma check_history_records:
  "check_history scope p es = check_chain scope p (map he_record es) \<or>
     (\<exists>m m'. check_history scope p es = Inl (DisclosureTwinError m)
        \<and> check_chain scope p (map he_record es) = Inl (DisclosureLedgerIntegrityError m'))"
  by (induction scope p es rule: check_history.induct) auto

lemma check_history_map:
  "(\<And>e. he_record (g e) = he_record e) \<Longrightarrow> check_history scope p (map g es) = check_history scope p es"
  by (induction scope p es rule: check_history.induct) simp_all

lemma active_records_map:
  "(\<And>e. he_record (g e) = he_record e) \<Longrightarrow>
   (\<And>e. he_lifecycle (g e) = LC_ABORTED \<longleftrightarrow> he_lifecycle e = LC_ABORTED) \<Longrightarrow>
     active_records (map g es) = active_records es"
  by (induction es) (simp_all add: active_records_def)

lemma validate_and_order_release_pending:
  "validate_and_order_history scope (map release_pending es) =
     bindr (validate_and_order_history scope es) (\<lambda>ordered. Inr (map release_pending ordered))"
  by (simp add: validate_and_order_history_def Let_def sort_key_map check_history_map comp_def)
    (cases "check_history scope None (sort_key (\<lambda>e. dr_sequence (he_record e)) es)", simp_all)

end
