(* ===== verification/Grammar.thy ===== *)
theory Grammar
  imports Twin
begin

text \<open>
  The future action grammar of \<open>src/toxicjoin/prospective/grammar.py\<close>: the committed context,
  the finite set of future releases and snapshot edges it instantiates, and the transition of a
  disclosure state under one action. A validator that regenerates (of the context's base atoms, of
  the grammar's action set) is the model's validation function.
\<close>

section \<open>Actions\<close>

definition supported_aggregates :: "string list" where
  "supported_aggregates = [''AVG'', ''COUNT'', ''MAX'', ''MIN'', ''SUM'']"

definition raw_projection_kinds :: "exposure_kind list" where
  "raw_projection_kinds = [RAW_VALUE, TRANSFORMED_RAW_VALUE, exposure_kind.GROUP_KEY, NESTED_SCOPE]"

definition group_replaceable_kinds :: "exposure_kind list" where
  "group_replaceable_kinds = [RAW_VALUE, TRANSFORMED_RAW_VALUE]"

datatype action_kind =
    REPLAY
  | ADD_PROJECTION
  | REMOVE_PROJECTION
  | ADD_GROUP_KEY
  | DROP_GROUP_KEY
  | CHANGE_AGGREGATE
  | COHORT_VARIANT
  | SNAPSHOT_ADVANCE

fun action_kind_value :: "action_kind \<Rightarrow> string" where
  "action_kind_value REPLAY = ''REPLAY''"
| "action_kind_value ADD_PROJECTION = ''ADD_PROJECTION''"
| "action_kind_value REMOVE_PROJECTION = ''REMOVE_PROJECTION''"
| "action_kind_value ADD_GROUP_KEY = ''ADD_GROUP_KEY''"
| "action_kind_value DROP_GROUP_KEY = ''DROP_GROUP_KEY''"
| "action_kind_value CHANGE_AGGREGATE = ''CHANGE_AGGREGATE''"
| "action_kind_value COHORT_VARIANT = ''COHORT_VARIANT''"
| "action_kind_value SNAPSHOT_ADVANCE = ''SNAPSHOT_ADVANCE''"

record snapshot_transition =
  st_from_snapshot_sha256 :: "string option"
  st_to_snapshot_sha256 :: string

definition validate_transition :: "snapshot_transition \<Rightarrow> snapshot_transition result" where
  "validate_transition t = raise_first
     [(\<not> opt_all is_sha256 (st_from_snapshot_sha256 t), ValidationError ''from_snapshot_sha256 pattern''),
      (\<not> is_sha256 (st_to_snapshot_sha256 t), ValidationError ''to_snapshot_sha256 pattern''),
      (st_from_snapshot_sha256 t = Some (st_to_snapshot_sha256 t),
         ValidationError ''snapshot transition must change the snapshot commitment'')] t"

definition snapshot_transition_key :: "snapshot_transition \<Rightarrow> string \<times> string" where
  "snapshot_transition_key t = (py_or (st_from_snapshot_sha256 t) [], st_to_snapshot_sha256 t)"

definition transition_json :: "snapshot_transition \<Rightarrow> json" where
  "transition_json t = JObj [(''from_snapshot_sha256'', jopt JStr (st_from_snapshot_sha256 t)),
     (''to_snapshot_sha256'', JStr (st_to_snapshot_sha256 t))]"

record future_action =
  fa_kind :: action_kind
  fa_semantic :: "semantic_release option"
  fa_composition :: "disclosure_composition option"
  fa_snapshot_from_sha256 :: "string option"
  fa_snapshot_sha256 :: "string option"
  fa_action_sha256 :: string

definition action_fields_json :: "future_action \<Rightarrow> (string \<times> json) list" where
  "action_fields_json a =
     [(''schema_version'', JStr ''1.0''), (''grammar_version'', JStr ''0.1.0''),
      (''kind'', JStr (action_kind_value (fa_kind a))), (''semantic'', jopt release_json (fa_semantic a)),
      (''composition'', jopt composition_json (fa_composition a)),
      (''snapshot_from_sha256'', jopt JStr (fa_snapshot_from_sha256 a)),
      (''snapshot_sha256'', jopt JStr (fa_snapshot_sha256 a))]"

definition compute_action_sha256 :: "(string \<Rightarrow> string) \<Rightarrow> future_action \<Rightarrow> string" where
  "compute_action_sha256 H a = canonical_json_sha256 H (JObj (action_fields_json a))"

section \<open>Columns and outputs of a release\<close>

text \<open>The dictionary loop of \<open>_semantic_columns\<close> and \<open>_merge_columns\<close>: one column per key, a
  different column under a known key is a governance conflict.\<close>

fun index_columns ::
    "error \<Rightarrow> governed_column list \<Rightarrow> (string \<times> governed_column) list \<Rightarrow> (string \<times> governed_column) list result" where
  "index_columns conflict [] known = Inr known"
| "index_columns conflict (c # cs) known =
     (if opt_all (\<lambda>existing. existing = c) (map_of known (column_key c))
      then index_columns conflict cs (AList.update (column_key c) c known)
      else Inl conflict)"

definition semantic_columns :: "semantic_release \<Rightarrow> governed_column list result" where
  "semantic_columns s =
     bindr (index_columns (ValueError ''future action semantic column governance conflict'')
       (sr_referenced_columns s @ sr_join_columns s @ sr_group_keys s @ concat (map so_sources (sr_outputs s))) [])
       (\<lambda>known. Inr (sorted_values known))"

definition merge_columns :: "governed_column list \<Rightarrow> governed_column list \<Rightarrow> governed_column list result" where
  "merge_columns left right =
     bindr (index_columns (FutureActionGrammarError ''governed column conflict in future action context'')
       right (dict_of column_key left)) (\<lambda>known. Inr (sorted_values known))"

definition output_key :: "semantic_output \<Rightarrow> string \<times> string list" where
  "output_key out = (exposure_value (so_kind out), map column_key (so_sources out))"

fun index_outputs ::
    "semantic_output list \<Rightarrow> ((string \<times> string list) \<times> semantic_output) list
      \<Rightarrow> ((string \<times> string list) \<times> semantic_output) list result" where
  "index_outputs [] known = Inr known"
| "index_outputs (out # outs) known =
     (if opt_all (\<lambda>existing. existing = out) (map_of known (output_key out))
      then index_outputs outs (AList.update (output_key out) out known)
      else Inl (FutureActionGrammarError ''semantic output signature conflict''))"

definition canonical_outputs :: "semantic_output list \<Rightarrow> semantic_output list result" where
  "canonical_outputs outs = bindr (index_outputs outs []) (\<lambda>known. Inr (sorted_values known))"

definition output_keys_needed :: "semantic_output list \<Rightarrow> string list" where
  "output_keys_needed outs = map column_key (concat (map so_sources outs))"

definition validate_base_semantic :: "semantic_release \<Rightarrow> unit result" where
  "validate_base_semantic s =
     (if sr_outputs s = []
      then Inl (ValueError ''future action base semantic release must contain at least one output'')
      else bindr (semantic_columns s) (\<lambda>columns. raise_first
        [(list_ex (\<lambda>c. gc_category c = UNCLASSIFIED) columns,
            ValueError ''future action semantics cannot contain unclassified columns''),
         (list_ex (\<lambda>c. gc_dataset_urn c \<notin> set (sr_source_dataset_urns s)) columns,
            ValueError ''future action semantic columns must belong to source datasets''),
         (\<not> set (output_keys_needed (sr_outputs s) @ map column_key (sr_join_columns s @ sr_group_keys s))
              \<subseteq> set (map column_key (sr_referenced_columns s)),
            ValueError ''future action semantics require complete governed references'')] ()))"

definition action_patterns :: "future_action \<Rightarrow> (bool \<times> error) list" where
  "action_patterns a =
     [(\<not> opt_all is_sha256 (fa_snapshot_from_sha256 a), ValidationError ''snapshot_from_sha256 pattern''),
      (\<not> opt_all is_sha256 (fa_snapshot_sha256 a), ValidationError ''snapshot_sha256 pattern''),
      (\<not> is_sha256 (fa_action_sha256 a), ValidationError ''action_sha256 pattern'')]"

definition check_release_action :: "semantic_release \<Rightarrow> disclosure_composition \<Rightarrow> unit result" where
  "check_release_action semantic composition =
     bindr (raise_first
       [(co_release_family_sha256 composition \<noteq> sr_semantic_sha256 semantic,
           ValueError ''future action composition must bind its semantic release''),
        (co_protected_release composition \<noteq> is_protected_release semantic,
           ValueError ''future action protected classification mismatch'')] ())
     (\<lambda>_. validate_base_semantic semantic)"

definition check_action_shape :: "future_action \<Rightarrow> unit result" where
  "check_action_shape a =
     (if fa_kind a = SNAPSHOT_ADVANCE
      then raise_first
        [(fa_snapshot_sha256 a = None \<or> fa_semantic a \<noteq> None \<or> fa_composition a \<noteq> None,
            ValueError ''snapshot action must contain only a directed snapshot edge''),
         (fa_snapshot_from_sha256 a = fa_snapshot_sha256 a,
            ValueError ''snapshot action must advance to a different commitment'')] ()
      else if fa_snapshot_from_sha256 a \<noteq> None \<or> fa_snapshot_sha256 a \<noteq> None
      then Inl (ValueError ''release action requires semantic and composition metadata only'')
      else case (fa_semantic a, fa_composition a) of
          (Some semantic, Some composition) \<Rightarrow> check_release_action semantic composition
        | _ \<Rightarrow> Inl (ValueError ''release action requires semantic and composition metadata only''))"

definition validate_action :: "(string \<Rightarrow> string) \<Rightarrow> future_action \<Rightarrow> future_action result" where
  "validate_action H a =
     bindr (raise_first (action_patterns a) ()) (\<lambda>_. in_validator (bindr (check_action_shape a) (\<lambda>_.
       if fa_action_sha256 a \<noteq> compute_action_sha256 H a
       then Inl (ValueError ''future action hash mismatch'') else Inr a)))"

definition build_release_action ::
    "(string \<Rightarrow> string) \<Rightarrow> action_kind \<Rightarrow> semantic_release \<Rightarrow> disclosure_composition \<Rightarrow> future_action result" where
  "build_release_action H kind semantic composition =
     (let provisional = \<lparr>fa_kind = kind, fa_semantic = Some semantic, fa_composition = Some composition,
            fa_snapshot_from_sha256 = None, fa_snapshot_sha256 = None, fa_action_sha256 = zero_sha256\<rparr>
      in validate_action H (provisional\<lparr>fa_action_sha256 := compute_action_sha256 H provisional\<rparr>))"

definition build_snapshot_action :: "(string \<Rightarrow> string) \<Rightarrow> snapshot_transition \<Rightarrow> future_action result" where
  "build_snapshot_action H t =
     (let provisional = \<lparr>fa_kind = SNAPSHOT_ADVANCE, fa_semantic = None, fa_composition = None,
            fa_snapshot_from_sha256 = st_from_snapshot_sha256 t,
            fa_snapshot_sha256 = Some (st_to_snapshot_sha256 t), fa_action_sha256 = zero_sha256\<rparr>
      in validate_action H (provisional\<lparr>fa_action_sha256 := compute_action_sha256 H provisional\<rparr>))"

section \<open>Variants of the base release\<close>

text \<open>\<open>_rebuild_semantic\<close>; an absent argument keeps the base's field.\<close>

definition rebuild_semantic ::
    "(string \<Rightarrow> string) \<Rightarrow> semantic_release \<Rightarrow> semantic_output list option \<Rightarrow> governed_column list option
      \<Rightarrow> governed_column list option \<Rightarrow> string list option \<Rightarrow> string list option \<Rightarrow> semantic_release result" where
  "rebuild_semantic H base outputs referenced group_keys aggregates datasets =
     (let given = (\<lambda>x d. case x of None \<Rightarrow> d | Some y \<Rightarrow> y) in
      bindr (canonical_outputs (case outputs of None \<Rightarrow> sr_outputs base | Some outs \<Rightarrow> outs)) (\<lambda>outs.
        let provisional = \<lparr>sr_source_dataset_urns = sorted_set
                (case datasets of None \<Rightarrow> sr_source_dataset_urns base | Some urns \<Rightarrow> urns),
              sr_outputs = outs,
              sr_referenced_columns = sort_key column_key (given referenced (sr_referenced_columns base)),
              sr_join_columns = sr_join_columns base,
              sr_group_keys = sort_key column_key (given group_keys (sr_group_keys base)),
              sr_aggregate_functions = sorted_set
                (case aggregates of None \<Rightarrow> sr_aggregate_functions base | Some fs \<Rightarrow> fs),
              sr_minimum_group_size_present = sr_minimum_group_size_present base,
              sr_semantic_sha256 = zero_sha256\<rparr>
        in validate_release H (provisional\<lparr>sr_semantic_sha256 := compute_semantic_sha256 H provisional\<rparr>)))"

definition build_output :: "exposure_kind \<Rightarrow> governed_column list \<Rightarrow> semantic_output result" where
  "build_output kind sources =
     (let out = \<lparr>so_kind = kind, so_sources = sources\<rparr> in raise_first (output_checks out) out)"

definition with_added_projection ::
    "(string \<Rightarrow> string) \<Rightarrow> semantic_release \<Rightarrow> governed_column \<Rightarrow> semantic_release result" where
  "with_added_projection H base column =
     bindr (build_output RAW_VALUE [column]) (\<lambda>new.
     bindr (canonical_outputs (sr_outputs base @ [new])) (\<lambda>outputs.
     bindr (merge_columns (sr_referenced_columns base) [column]) (\<lambda>referenced.
       rebuild_semantic H base (Some outputs) (Some referenced) None None
         (Some (sorted_set (sr_source_dataset_urns base @ [gc_dataset_urn column]))))))"

definition still_referenced ::
    "semantic_release \<Rightarrow> semantic_output list \<Rightarrow> governed_column list \<Rightarrow> governed_column list" where
  "still_referenced base outputs group_keys = filter (\<lambda>c. column_key c \<in>
     set (output_keys_needed outputs @ map column_key (sr_join_columns base) @ map column_key group_keys))
     (sr_referenced_columns base)"

definition with_removed_projection ::
    "(string \<Rightarrow> string) \<Rightarrow> semantic_release \<Rightarrow> semantic_output \<Rightarrow> semantic_release option result" where
  "with_removed_projection H base target =
     (let remaining = remove1 target (sr_outputs base)
      in if target \<notin> set (sr_outputs base) \<or> remaining = [] then Inr None
         else bindr (canonical_outputs remaining) (\<lambda>outputs.
           bindr (rebuild_semantic H base (Some outputs)
               (Some (still_referenced base outputs (sr_group_keys base))) None None None)
             (\<lambda>s. Inr (Some s))))"

definition single_source :: "semantic_output \<Rightarrow> string \<Rightarrow> bool" where
  "single_source out key \<longleftrightarrow> length (so_sources out) = 1 \<and> column_key (hd (so_sources out)) = key"

definition with_added_group_key ::
    "(string \<Rightarrow> string) \<Rightarrow> semantic_release \<Rightarrow> governed_column \<Rightarrow> semantic_release result" where
  "with_added_group_key H base column =
     bindr (merge_columns (sr_group_keys base) [column]) (\<lambda>group_keys.
     bindr (merge_columns (sr_referenced_columns base) [column]) (\<lambda>referenced.
       let key = column_key column;
           replaceable = (\<lambda>out. single_source out key \<and> so_kind out \<in> set group_replaceable_kinds);
           kept = filter (\<lambda>out. \<not> replaceable out) (sr_outputs base);
           add = list_ex replaceable (sr_outputs base)
             \<or> \<not> list_ex (\<lambda>out. single_source out key \<and> so_kind out = exposure_kind.GROUP_KEY) kept
       in bindr (if add then bindr (build_output exposure_kind.GROUP_KEY [column]) (\<lambda>new. Inr (kept @ [new])) else Inr kept) (\<lambda>outs.
          bindr (canonical_outputs outs) (\<lambda>outputs.
            rebuild_semantic H base (Some outputs) (Some referenced) (Some group_keys) None
              (Some (sorted_set (sr_source_dataset_urns base @ [gc_dataset_urn column])))))))"

definition with_dropped_group_key ::
    "(string \<Rightarrow> string) \<Rightarrow> semantic_release \<Rightarrow> string \<Rightarrow> semantic_release option result" where
  "with_dropped_group_key H base key =
     (let group_keys = filter (\<lambda>c. column_key c \<noteq> key) (sr_group_keys base);
          outs = filter (\<lambda>out. \<not> (so_kind out = exposure_kind.GROUP_KEY \<and> single_source out key)) (sr_outputs base)
      in if outs = [] then Inr None
         else bindr (canonical_outputs outs) (\<lambda>outputs.
           bindr (rebuild_semantic H base (Some outputs) (Some (still_referenced base outs group_keys))
               (Some group_keys) None None) (\<lambda>s. Inr (Some s))))"

definition with_changed_aggregate ::
    "(string \<Rightarrow> string) \<Rightarrow> semantic_release \<Rightarrow> string \<Rightarrow> string \<Rightarrow> semantic_release result" where
  "with_changed_aggregate H base current replacement =
     rebuild_semantic H base None None None
       (Some (sorted_set (map (\<lambda>v. if v = current then replacement else v) (sr_aggregate_functions base)))) None"

section \<open>The snapshot graph\<close>

text \<open>One pass of \<open>_reachable_snapshot_nodes\<close>; the flag says whether it added a node.\<close>

fun reach_pass :: "snapshot_transition list \<Rightarrow> string option list \<Rightarrow> bool \<Rightarrow> string option list \<times> bool" where
  "reach_pass [] reachable changed = (reachable, changed)"
| "reach_pass (t # ts) reachable changed =
     (if st_from_snapshot_sha256 t \<in> set reachable \<and> Some (st_to_snapshot_sha256 t) \<notin> set reachable
      then reach_pass ts (reachable @ [Some (st_to_snapshot_sha256 t)]) True
      else reach_pass ts reachable changed)"

abbreviation transition_target :: "snapshot_transition \<Rightarrow> string option" where
  "transition_target t \<equiv> Some (st_to_snapshot_sha256 t)"

lemma reach_pass_grows:
  "reach_pass ts R changed = (R', changed') \<Longrightarrow> set R \<subseteq> set R' \<and> (changed \<longrightarrow> changed')
     \<and> (changed' \<and> \<not> changed \<longrightarrow> (\<exists>t \<in> set ts. transition_target t \<in> set R' \<and> transition_target t \<notin> set R))"
proof (induction ts R changed rule: reach_pass.induct)
  case (2 t ts R changed)
  show ?case
  proof (cases "st_from_snapshot_sha256 t \<in> set R \<and> transition_target t \<notin> set R")
    case True
    with 2(3) have "reach_pass ts (R @ [transition_target t]) True = (R', changed')" by simp
    from 2(1) [OF True this] True show ?thesis by auto
  next
    case False
    with 2(3) have "reach_pass ts R changed = (R', changed')" by auto
    from 2(2) [OF False this] show ?thesis by auto
  qed
qed simp

lemma reach_pass_measure:
  assumes "reach_pass ts R False = (R', True)"
  shows "card (transition_target ` set ts - set R') < card (transition_target ` set ts - set R)"
proof -
  from reach_pass_grows [OF assms] have "transition_target ` set ts - set R' \<subset> transition_target ` set ts - set R"
    by blast
  then show ?thesis by (simp add: psubset_card_mono)
qed

function reachable_nodes :: "snapshot_transition list \<Rightarrow> string option list \<Rightarrow> string option list" where
  "reachable_nodes ts reachable =
     (case reach_pass ts reachable False of
        (reachable', changed) \<Rightarrow> if changed then reachable_nodes ts reachable' else reachable')"
  by pat_completeness auto

termination
  by (relation "measure (\<lambda>(ts, R). card (transition_target ` set ts - set R))")
    (auto dest!: sym [of "(_, _)"] reach_pass_measure)

declare reachable_nodes.simps [simp del]

definition reachable_snapshot_nodes :: "string option \<Rightarrow> snapshot_transition list \<Rightarrow> string option list" where
  "reachable_snapshot_nodes base transitions = reachable_nodes transitions [base]"

definition validate_snapshot_transition_graph :: "string option \<Rightarrow> snapshot_transition list \<Rightarrow> unit result" where
  "validate_snapshot_transition_graph base transitions = raise_first
     [(list_ex (\<lambda>t. st_from_snapshot_sha256 t \<notin> set (reachable_snapshot_nodes base transitions)) transitions,
        ValueError ''snapshot transition graph contains unreachable source commitments'')] ()"

section \<open>The context\<close>

record grammar_context =
  cx_initial_state_sha256 :: string
  cx_scope_sha256 :: string
  cx_purpose_commitment_sha256 :: string
  cx_governance_commitment_sha256 :: string
  cx_evidence_root_sha256 :: string
  cx_base_warehouse_snapshot_sha256 :: "string option"
  cx_base_semantic :: semantic_release
  cx_base_composition :: disclosure_composition
  cx_base_release_atom_sha256s :: "string list"
  cx_relevant_projection_fields :: "governed_column list"
  cx_group_key_fields :: "governed_column list"
  cx_aggregate_allowlist :: "string list"
  cx_cohort_variant_hmacs :: "string list"
  cx_snapshot_transitions :: "snapshot_transition list"
  cx_context_sha256 :: string

definition context_fields_json :: "grammar_context \<Rightarrow> (string \<times> json) list" where
  "context_fields_json c =
     [(''schema_version'', JStr ''1.0''), (''grammar_version'', JStr ''0.1.0''),
      (''initial_state_sha256'', JStr (cx_initial_state_sha256 c)), (''scope_sha256'', JStr (cx_scope_sha256 c)),
      (''purpose_commitment_sha256'', JStr (cx_purpose_commitment_sha256 c)),
      (''governance_commitment_sha256'', JStr (cx_governance_commitment_sha256 c)),
      (''evidence_root_sha256'', JStr (cx_evidence_root_sha256 c)),
      (''base_warehouse_snapshot_sha256'', jopt JStr (cx_base_warehouse_snapshot_sha256 c)),
      (''base_semantic'', release_json (cx_base_semantic c)),
      (''base_composition'', composition_json (cx_base_composition c)),
      (''base_release_atom_sha256s'', jstrs (cx_base_release_atom_sha256s c)),
      (''relevant_projection_fields'', JArr (map column_payload (cx_relevant_projection_fields c))),
      (''group_key_fields'', JArr (map column_payload (cx_group_key_fields c))),
      (''aggregate_allowlist'', jstrs (cx_aggregate_allowlist c)),
      (''cohort_variant_hmacs'', jstrs (cx_cohort_variant_hmacs c)),
      (''snapshot_transitions'', JArr (map transition_json (cx_snapshot_transitions c)))]"

definition compute_context_sha256 :: "(string \<Rightarrow> string) \<Rightarrow> grammar_context \<Rightarrow> string" where
  "compute_context_sha256 H c = canonical_json_sha256 H (JObj (context_fields_json c))"

definition context_patterns :: "grammar_context \<Rightarrow> (bool \<times> error) list" where
  "context_patterns c =
     [(\<not> is_sha256 (cx_initial_state_sha256 c), ValidationError ''initial_state_sha256 pattern''),
      (\<not> is_sha256 (cx_scope_sha256 c), ValidationError ''scope_sha256 pattern''),
      (\<not> is_sha256 (cx_purpose_commitment_sha256 c), ValidationError ''purpose_commitment_sha256 pattern''),
      (\<not> is_sha256 (cx_governance_commitment_sha256 c), ValidationError ''governance_commitment_sha256 pattern''),
      (\<not> is_sha256 (cx_evidence_root_sha256 c), ValidationError ''evidence_root_sha256 pattern''),
      (\<not> opt_all is_sha256 (cx_base_warehouse_snapshot_sha256 c),
         ValidationError ''base_warehouse_snapshot_sha256 pattern''),
      (cx_base_release_atom_sha256s c = [], ValidationError ''base_release_atom_sha256s length''),
      (\<not> list_all is_sha256 (cx_base_release_atom_sha256s c), ValidationError ''base_release_atom_sha256s pattern''),
      (\<not> len_between 0 16 (cx_relevant_projection_fields c), ValidationError ''relevant_projection_fields length''),
      (\<not> len_between 0 12 (cx_group_key_fields c), ValidationError ''group_key_fields length''),
      (\<not> len_between 0 8 (cx_aggregate_allowlist c), ValidationError ''aggregate_allowlist length''),
      (\<not> len_between 0 8 (cx_cohort_variant_hmacs c), ValidationError ''cohort_variant_hmacs length''),
      (\<not> list_all is_sha256 (cx_cohort_variant_hmacs c), ValidationError ''cohort_variant_hmacs pattern''),
      (\<not> len_between 0 8 (cx_snapshot_transitions c), ValidationError ''snapshot_transitions length''),
      (\<not> is_sha256 (cx_context_sha256 c), ValidationError ''context_sha256 pattern'')]"

text \<open>\<open>except DisclosureTwinError as exc: raise ... from exc\<close>.\<close>

fun rethrow_twin :: "error \<Rightarrow> 'a result \<Rightarrow> 'a result" where
  "rethrow_twin e (Inl (DisclosureTwinError m)) = Inl e"
| "rethrow_twin e r = r"

lemma rethrow_twin_Inr [simp]: "rethrow_twin e r = Inr x \<longleftrightarrow> r = Inr x"
  by (cases "(e, r)" rule: rethrow_twin.cases) auto

definition field_checks :: "grammar_context \<Rightarrow> (bool \<times> error) list" where
  "field_checks c =
     [(\<not> canonical (map column_key (cx_relevant_projection_fields c)),
         ValueError ''relevant_projection_fields must be sorted and unique by governed column key''),
      (\<not> canonical (map column_key (cx_group_key_fields c)),
         ValueError ''group_key_fields must be sorted and unique by governed column key''),
      (list_ex (\<lambda>f. gc_category f = UNCLASSIFIED) (cx_relevant_projection_fields c),
         ValueError ''future projection fields must be governed and classified''),
      (list_ex (\<lambda>f. gc_category f \<noteq> QUASI_IDENTIFIER) (cx_group_key_fields c),
         ValueError ''future group-key fields must be governed quasi-identifiers''),
      (\<not> set (map column_key (cx_group_key_fields c)) \<subseteq> set (map column_key (cx_relevant_projection_fields c)),
         ValueError ''future group-key fields must belong to the relevant field set''),
      (\<not> canonical (cx_aggregate_allowlist c), ValueError ''aggregate_allowlist must be sorted and unique''),
      (list_ex (\<lambda>v. v \<noteq> py_upper (py_strip v)) (cx_aggregate_allowlist c),
         ValueError ''aggregate_allowlist values must be normalized uppercase''),
      (list_ex (\<lambda>v. v \<notin> set supported_aggregates) (cx_aggregate_allowlist c),
         ValueError ''unsupported future aggregate''),
      (\<not> canonical (cx_cohort_variant_hmacs c), ValueError ''cohort_variant_hmacs must be sorted and unique''),
      (\<not> canonical (map snapshot_transition_key (cx_snapshot_transitions c)),
         ValueError ''snapshot_transitions must be sorted and unique'')]"

definition validate_context :: "(string \<Rightarrow> string) \<Rightarrow> grammar_context \<Rightarrow> grammar_context result" where
  "validate_context H c =
     bindr (raise_first (context_patterns c) ()) (\<lambda>_. in_validator (
       bindr (raise_first
         [(co_release_family_sha256 (cx_base_composition c) \<noteq> sr_semantic_sha256 (cx_base_semantic c),
             ValueError ''base composition must bind the base semantic release''),
          (co_protected_release (cx_base_composition c) \<noteq> is_protected_release (cx_base_semantic c),
             ValueError ''base composition protected classification mismatch'')] ()) (\<lambda>_.
       bindr (validate_base_semantic (cx_base_semantic c)) (\<lambda>_.
       bindr (rethrow_twin (ValueError ''base semantic release cannot be projected safely'')
           (direct_atoms_for_release H (cx_base_semantic c) (Some (cx_base_composition c)))) (\<lambda>atoms.
       if cx_base_release_atom_sha256s c \<noteq> sort (map at_atom_sha256 atoms)
       then Inl (ValueError ''base release atom commitment mismatch'')
       else bindr (raise_first (field_checks c) ()) (\<lambda>_.
       bindr (validate_snapshot_transition_graph (cx_base_warehouse_snapshot_sha256 c) (cx_snapshot_transitions c)) (\<lambda>_.
       if cx_context_sha256 c \<noteq> compute_context_sha256 H c
       then Inl (ValueError ''future action grammar context hash mismatch'')
       else Inr c)))))))"

definition build_future_action_grammar_context ::
    "(string \<Rightarrow> string) \<Rightarrow> disclosure_state \<Rightarrow> semantic_release \<Rightarrow> disclosure_composition \<Rightarrow> governed_column list
      \<Rightarrow> governed_column list \<Rightarrow> string list \<Rightarrow> string list \<Rightarrow> snapshot_transition list \<Rightarrow> grammar_context result" where
  "build_future_action_grammar_context H base_state base_semantic base_composition relevant groups aggregates
      cohorts transitions =
     bindr (rethrow_twin (FutureActionGrammarError ''base release cannot be projected safely'')
         (direct_atoms_for_release H base_semantic (Some base_composition))) (\<lambda>atoms.
       let base_hashes = sort (map at_atom_sha256 atoms)
       in if \<not> set base_hashes \<subseteq> at_atom_sha256 ` set (ds_released_atoms base_state)
          then Inl (FutureActionGrammarError ''base semantic release is not present in the initial state'')
          else let provisional = \<lparr>cx_initial_state_sha256 = ds_state_sha256 base_state,
                 cx_scope_sha256 = sc_scope_sha256 (ds_scope base_state),
                 cx_purpose_commitment_sha256 = ds_purpose_commitment_sha256 base_state,
                 cx_governance_commitment_sha256 = ds_governance_commitment_sha256 base_state,
                 cx_evidence_root_sha256 = ds_evidence_root_sha256 base_state,
                 cx_base_warehouse_snapshot_sha256 = ds_warehouse_snapshot_sha256 base_state,
                 cx_base_semantic = base_semantic, cx_base_composition = base_composition,
                 cx_base_release_atom_sha256s = base_hashes,
                 cx_relevant_projection_fields = sort_key column_key relevant,
                 cx_group_key_fields = sort_key column_key groups,
                 cx_aggregate_allowlist = sorted_set (map (\<lambda>v. py_upper (py_strip v)) aggregates),
                 cx_cohort_variant_hmacs = sorted_set cohorts,
                 cx_snapshot_transitions = by_key snapshot_transition_key transitions,
                 cx_context_sha256 = zero_sha256\<rparr>
            in validate_context H (provisional\<lparr>cx_context_sha256 := compute_context_sha256 H provisional\<rparr>))"

section \<open>Instantiating the actions\<close>

definition release_variant_action ::
    "(string \<Rightarrow> string) \<Rightarrow> action_kind \<Rightarrow> grammar_context \<Rightarrow> semantic_release \<Rightarrow> future_action result" where
  "release_variant_action H kind c semantic =
     bindr (validate_composition \<lparr>co_protected_release = is_protected_release semantic,
         co_release_family_sha256 = sr_semantic_sha256 semantic,
         co_cohort_hmac_sha256 = co_cohort_hmac_sha256 (cx_base_composition c)\<rparr>)
       (build_release_action H kind semantic)"

definition variant_action ::
    "(string \<Rightarrow> string) \<Rightarrow> action_kind \<Rightarrow> grammar_context \<Rightarrow> semantic_release result \<Rightarrow> future_action option result" where
  "variant_action H kind c semantic =
     bindr semantic (\<lambda>s. bindr (release_variant_action H kind c s) (\<lambda>a. Inr (Some a)))"

definition optional_variant_action ::
    "(string \<Rightarrow> string) \<Rightarrow> action_kind \<Rightarrow> grammar_context \<Rightarrow> semantic_release option result
      \<Rightarrow> future_action option result" where
  "optional_variant_action H kind c semantic = bindr semantic (\<lambda>s. case s of
       None \<Rightarrow> Inr None
     | Some s' \<Rightarrow> bindr (release_variant_action H kind c s') (\<lambda>a. Inr (Some a)))"

definition some_action :: "future_action result \<Rightarrow> future_action option result" where
  "some_action r = bindr r (\<lambda>a. Inr (Some a))"

definition is_raw_projection :: "semantic_output \<Rightarrow> bool" where
  "is_raw_projection out \<longleftrightarrow> length (so_sources out) = 1 \<and> so_kind out \<in> set raw_projection_kinds"

definition raw_projection_keys :: "semantic_release \<Rightarrow> string list" where
  "raw_projection_keys s = map (\<lambda>out. column_key (hd (so_sources out))) (filter is_raw_projection (sr_outputs s))"

text \<open>The actions in the order \<open>_instantiate_actions\<close> adds them; a variant that does not exist
  (the last output removed) is \<open>None\<close>.\<close>

definition action_candidates :: "(string \<Rightarrow> string) \<Rightarrow> grammar_context \<Rightarrow> future_action option result list" where
  "action_candidates H c =
     (let base = cx_base_semantic c; aggregates = sorted_set (sr_aggregate_functions base) in
      [some_action (build_release_action H REPLAY base (cx_base_composition c))]
      @ map (\<lambda>column. variant_action H ADD_PROJECTION c (with_added_projection H base column))
          (filter (\<lambda>column. column_key column \<notin> set (raw_projection_keys base)) (cx_relevant_projection_fields c))
      @ map (\<lambda>out. optional_variant_action H REMOVE_PROJECTION c (with_removed_projection H base out))
          (filter is_raw_projection (sr_outputs base))
      @ map (\<lambda>column. variant_action H ADD_GROUP_KEY c (with_added_group_key H base column))
          (filter (\<lambda>column. column_key column \<notin> set (map column_key (sr_group_keys base))) (cx_group_key_fields c))
      @ map (\<lambda>column. optional_variant_action H DROP_GROUP_KEY c (with_dropped_group_key H base (column_key column)))
          (sr_group_keys base)
      @ concat (map (\<lambda>current. map (\<lambda>replacement.
            variant_action H CHANGE_AGGREGATE c (with_changed_aggregate H base current replacement))
          (filter (\<lambda>replacement. replacement \<noteq> current \<and> replacement \<notin> set aggregates) (cx_aggregate_allowlist c)))
          aggregates)
      @ map (\<lambda>cohort. some_action (bindr (validate_composition
            \<lparr>co_protected_release = co_protected_release (cx_base_composition c),
             co_release_family_sha256 = sr_semantic_sha256 base, co_cohort_hmac_sha256 = cohort\<rparr>)
            (build_release_action H COHORT_VARIANT base)))
          (filter (\<lambda>cohort. cohort \<noteq> co_cohort_hmac_sha256 (cx_base_composition c)) (cx_cohort_variant_hmacs c))
      @ map (\<lambda>t. some_action (build_snapshot_action H t)) (cx_snapshot_transitions c))"

fun add_actions ::
    "future_action option result list \<Rightarrow> (string \<times> future_action) list \<Rightarrow> (string \<times> future_action) list result" where
  "add_actions [] known = Inr known"
| "add_actions (r # rs) known = bindr r (\<lambda>candidate. case candidate of
       None \<Rightarrow> add_actions rs known
     | Some a \<Rightarrow> (let known' = AList.update (fa_action_sha256 a) a known
                 in if 32 < length known' then Inl (FutureActionGrammarError ''future action budget exceeded'')
                    else add_actions rs known'))"

definition instantiate_actions :: "(string \<Rightarrow> string) \<Rightarrow> grammar_context \<Rightarrow> future_action list result" where
  "instantiate_actions H c = bindr (add_actions (action_candidates H c) []) (\<lambda>known. Inr (sorted_values known))"

record action_grammar =
  gm_context :: grammar_context
  gm_actions :: "future_action list"
  gm_grammar_sha256 :: string

definition action_json :: "future_action \<Rightarrow> json" where
  "action_json a = JObj (action_fields_json a @ [(''action_sha256'', JStr (fa_action_sha256 a))])"

definition context_json :: "grammar_context \<Rightarrow> json" where
  "context_json c = JObj (context_fields_json c @ [(''context_sha256'', JStr (cx_context_sha256 c))])"

definition compute_grammar_sha256 :: "(string \<Rightarrow> string) \<Rightarrow> action_grammar \<Rightarrow> string" where
  "compute_grammar_sha256 H g = canonical_json_sha256 H (JObj
     [(''schema_version'', JStr ''1.0''), (''grammar_version'', JStr ''0.1.0''),
      (''context'', context_json (gm_context g)), (''actions'', JArr (map action_json (gm_actions g)))])"

fun rethrow_grammar :: "error \<Rightarrow> 'a result \<Rightarrow> 'a result" where
  "rethrow_grammar e (Inl (FutureActionGrammarError m)) = Inl e"
| "rethrow_grammar e r = r"

lemma rethrow_grammar_Inr [simp]: "rethrow_grammar e r = Inr x \<longleftrightarrow> r = Inr x"
  by (cases "(e, r)" rule: rethrow_grammar.cases) auto

text \<open>The fields \<open>grammar_version\<close> admit one literal, so the version check cannot fail.\<close>

definition validate_grammar :: "(string \<Rightarrow> string) \<Rightarrow> action_grammar \<Rightarrow> action_grammar result" where
  "validate_grammar H g =
     bindr (raise_first
       [(\<not> len_between 1 32 (gm_actions g), ValidationError ''actions length''),
        (\<not> is_sha256 (gm_grammar_sha256 g), ValidationError ''grammar_sha256 pattern'')] ()) (\<lambda>_. in_validator (
       if \<not> canonical (map fa_action_sha256 (gm_actions g))
       then Inl (ValueError ''future actions must be sorted and unique'')
       else bindr (rethrow_grammar (ValueError ''future action grammar context exceeds the action budget'')
           (instantiate_actions H (gm_context g))) (\<lambda>expected. raise_first
         [(gm_actions g \<noteq> expected,
             ValueError ''future action set does not match deterministic context instantiation''),
          (gm_grammar_sha256 g \<noteq> compute_grammar_sha256 H g, ValueError ''future action grammar hash mismatch'')] g)))"

definition instantiate_future_action_grammar ::
    "(string \<Rightarrow> string) \<Rightarrow> grammar_context \<Rightarrow> action_grammar result" where
  "instantiate_future_action_grammar H c =
     bindr (instantiate_actions H c) (\<lambda>actions.
       let provisional = \<lparr>gm_context = c, gm_actions = actions, gm_grammar_sha256 = zero_sha256\<rparr>
       in validate_grammar H (provisional\<lparr>gm_grammar_sha256 := compute_grammar_sha256 H provisional\<rparr>))"

section \<open>Transitions\<close>

text \<open>\<open>_rebuild_state\<close>: errors of the closure and of validation become transition errors.\<close>

fun rethrow_transition :: "'a result \<Rightarrow> 'a result" where
  "rethrow_transition (Inl (DisclosureTwinError m)) = Inl (FutureActionTransitionError ''future action transition failed closed'')"
| "rethrow_transition (Inl e) = Inl (if is_value_error e
     then FutureActionTransitionError ''future action transition failed closed'' else e)"
| "rethrow_transition (Inr x) = Inr x"

lemma rethrow_transition_Inr [simp]: "rethrow_transition r = Inr x \<longleftrightarrow> r = Inr x"
  by (cases r rule: rethrow_transition.cases) auto

definition rebuild_state ::
    "(string \<Rightarrow> string) \<Rightarrow> disclosure_state \<Rightarrow> disclosure_atom list \<Rightarrow> string option \<Rightarrow> disclosure_state result" where
  "rebuild_state H state released warehouse = rethrow_transition (close_state H
     (state\<lparr>ds_warehouse_snapshot_sha256 := warehouse, ds_released_atoms := released\<rparr>))"

definition require_state_in_model_universe :: "disclosure_state \<Rightarrow> grammar_context \<Rightarrow> unit result" where
  "require_state_in_model_universe s c = raise_first
     [(sc_scope_sha256 (ds_scope s) \<noteq> cx_scope_sha256 c,
         FutureActionTransitionError ''future state scope is outside the grammar context''),
      (ds_purpose_commitment_sha256 s \<noteq> cx_purpose_commitment_sha256 c,
         FutureActionTransitionError ''future state purpose is outside the grammar context''),
      (ds_governance_commitment_sha256 s \<noteq> cx_governance_commitment_sha256 c,
         FutureActionTransitionError ''future state governance is outside the grammar context''),
      (ds_evidence_root_sha256 s \<noteq> cx_evidence_root_sha256 c,
         FutureActionTransitionError ''future state evidence root is outside the grammar context''),
      (\<not> set (cx_base_release_atom_sha256s c) \<subseteq> at_atom_sha256 ` set (ds_released_atoms s),
         FutureActionTransitionError ''future state is missing the grammar base release''),
      (ds_warehouse_snapshot_sha256 s \<notin>
           set (reachable_snapshot_nodes (cx_base_warehouse_snapshot_sha256 c) (cx_snapshot_transitions c)),
         FutureActionTransitionError ''future state snapshot is outside the grammar context'')] ()"

definition merge_atoms :: "disclosure_atom list \<Rightarrow> disclosure_atom list \<Rightarrow> disclosure_atom list" where
  "merge_atoms released future = by_key at_atom_sha256 (released @ future)"

definition apply_future_action ::
    "(string \<Rightarrow> string) \<Rightarrow> disclosure_state \<Rightarrow> future_action \<Rightarrow> action_grammar \<Rightarrow> disclosure_state result" where
  "apply_future_action H state action grammar =
     bindr (require_state_in_model_universe state (gm_context grammar)) (\<lambda>_.
       if find (\<lambda>candidate. fa_action_sha256 candidate = fa_action_sha256 action) (gm_actions grammar) \<noteq> Some action
       then Inl (FutureActionTransitionError ''future action is not authorized by the grammar'')
       else if fa_kind action = SNAPSHOT_ADVANCE
       then (case fa_snapshot_sha256 action of
           None \<Rightarrow> Inl (AssertionError '''')
         | Some target \<Rightarrow>
             if ds_warehouse_snapshot_sha256 state \<noteq> fa_snapshot_from_sha256 action
             then Inl (FutureActionTransitionError ''snapshot transition source does not match current state'')
             else rebuild_state H state (ds_released_atoms state) (Some target))
       else case (fa_semantic action, fa_composition action) of
           (Some semantic, Some composition) \<Rightarrow>
             bindr (rethrow_twin (FutureActionTransitionError ''future release cannot be projected safely'')
                 (direct_atoms_for_release H semantic (Some composition))) (\<lambda>future.
               rebuild_state H state (merge_atoms (ds_released_atoms state) future)
                 (ds_warehouse_snapshot_sha256 state))
         | _ \<Rightarrow> Inl (AssertionError ''''))"

end
