(* ===== verification/Forbidden.thy ===== *)
theory Forbidden
  imports Twin
begin

text \<open>
  The forbidden-state predicates of \<open>src/toxicjoin/prospective/forbidden.py\<close>: the six
  predicates F1 to F6 over the released atoms of a state, the governance trust binding and the
  temporal path, each with its witness, and the evaluation that summarises them. The lemmas
  characterise every predicate without its candidate enumeration.
\<close>

section \<open>Identifiers, policy, binding and path\<close>

datatype predicate_id =
    F1_DIRECT_SENSITIVE_LINKAGE
  | F2_STABLE_LINKABLE_SENSITIVE
  | F3_SMALL_COHORT_SENSITIVE
  | F4_CROSS_RELEASE_COMPOSITION
  | F5_TEMPORAL_DIFFERENCING
  | F6_UNTRUSTED_GOVERNANCE_AUTHORIZATION

fun predicate_value :: "predicate_id \<Rightarrow> string" where
  "predicate_value F1_DIRECT_SENSITIVE_LINKAGE = ''F1_DIRECT_SENSITIVE_LINKAGE''"
| "predicate_value F2_STABLE_LINKABLE_SENSITIVE = ''F2_STABLE_LINKABLE_SENSITIVE''"
| "predicate_value F3_SMALL_COHORT_SENSITIVE = ''F3_SMALL_COHORT_SENSITIVE''"
| "predicate_value F4_CROSS_RELEASE_COMPOSITION = ''F4_CROSS_RELEASE_COMPOSITION''"
| "predicate_value F5_TEMPORAL_DIFFERENCING = ''F5_TEMPORAL_DIFFERENCING''"
| "predicate_value F6_UNTRUSTED_GOVERNANCE_AUTHORIZATION = ''F6_UNTRUSTED_GOVERNANCE_AUTHORIZATION''"

text \<open>\<open>tuple(ForbiddenPredicateId)\<close>.\<close>

definition all_predicates :: "predicate_id list" where
  "all_predicates = [F1_DIRECT_SENSITIVE_LINKAGE, F2_STABLE_LINKABLE_SENSITIVE, F3_SMALL_COHORT_SENSITIVE,
     F4_CROSS_RELEASE_COMPOSITION, F5_TEMPORAL_DIFFERENCING, F6_UNTRUSTED_GOVERNANCE_AUTHORIZATION]"

datatype predicate_status = STATUS_MATCHED | STATUS_CLEAR | STATUS_INDETERMINATE

fun status_value :: "predicate_status \<Rightarrow> string" where
  "status_value STATUS_MATCHED = ''MATCHED''"
| "status_value STATUS_CLEAR = ''CLEAR''"
| "status_value STATUS_INDETERMINATE = ''INDETERMINATE''"

datatype forbidden_reason =
    REASON_CLEAR
  | DIRECT_AND_SENSITIVE_LINKABLE_SAME_RELEASE
  | STABLE_AND_SENSITIVE_LINKABLE_SAME_RELEASE
  | SENSITIVE_GROUP_BELOW_MINIMUM
  | SENSITIVE_GROUP_MINIMUM_MISSING
  | IDENTIFIER_AND_SENSITIVE_ACROSS_RELEASES
  | SENSITIVE_REPLAY_ACROSS_SNAPSHOTS
  | TEMPORAL_PATH_CONTEXT_MISSING
  | GOVERNANCE_BINDING_MISSING
  | GOVERNANCE_COMMITMENT_MISMATCH
  | GOVERNANCE_NOT_TRUSTED

fun forbidden_reason_value :: "forbidden_reason \<Rightarrow> string" where
  "forbidden_reason_value REASON_CLEAR = ''CLEAR''"
| "forbidden_reason_value DIRECT_AND_SENSITIVE_LINKABLE_SAME_RELEASE = ''DIRECT_AND_SENSITIVE_LINKABLE_SAME_RELEASE''"
| "forbidden_reason_value STABLE_AND_SENSITIVE_LINKABLE_SAME_RELEASE = ''STABLE_AND_SENSITIVE_LINKABLE_SAME_RELEASE''"
| "forbidden_reason_value SENSITIVE_GROUP_BELOW_MINIMUM = ''SENSITIVE_GROUP_BELOW_MINIMUM''"
| "forbidden_reason_value SENSITIVE_GROUP_MINIMUM_MISSING = ''SENSITIVE_GROUP_MINIMUM_MISSING''"
| "forbidden_reason_value IDENTIFIER_AND_SENSITIVE_ACROSS_RELEASES = ''IDENTIFIER_AND_SENSITIVE_ACROSS_RELEASES''"
| "forbidden_reason_value SENSITIVE_REPLAY_ACROSS_SNAPSHOTS = ''SENSITIVE_REPLAY_ACROSS_SNAPSHOTS''"
| "forbidden_reason_value TEMPORAL_PATH_CONTEXT_MISSING = ''TEMPORAL_PATH_CONTEXT_MISSING''"
| "forbidden_reason_value GOVERNANCE_BINDING_MISSING = ''GOVERNANCE_BINDING_MISSING''"
| "forbidden_reason_value GOVERNANCE_COMMITMENT_MISMATCH = ''GOVERNANCE_COMMITMENT_MISMATCH''"
| "forbidden_reason_value GOVERNANCE_NOT_TRUSTED = ''GOVERNANCE_NOT_TRUSTED''"

record forbidden_policy =
  fp_minimum_group_size :: int
  fp_policy_sha256 :: string

definition compute_forbidden_policy_sha256 :: "(string \<Rightarrow> string) \<Rightarrow> forbidden_policy \<Rightarrow> string" where
  "compute_forbidden_policy_sha256 H p = canonical_json_sha256 H (JObj
     [(''schema_version'', JStr ''1.0''), (''policy_version'', JStr ''0.1.0''),
      (''minimum_group_size'', JInt (fp_minimum_group_size p))])"

definition validate_forbidden_policy :: "(string \<Rightarrow> string) \<Rightarrow> forbidden_policy \<Rightarrow> forbidden_policy result" where
  "validate_forbidden_policy H p = raise_first
     [(\<not> (2 \<le> fp_minimum_group_size p \<and> fp_minimum_group_size p \<le> 1000000), ValidationError ''minimum_group_size range''),
      (\<not> is_sha256 (fp_policy_sha256 p), ValidationError ''policy_sha256 pattern''),
      (fp_policy_sha256 p \<noteq> compute_forbidden_policy_sha256 H p,
         ValidationError ''forbidden predicate policy hash mismatch'')] p"

definition build_forbidden_predicate_policy :: "(string \<Rightarrow> string) \<Rightarrow> int \<Rightarrow> forbidden_policy result" where
  "build_forbidden_predicate_policy H minimum =
     (let provisional = \<lparr>fp_minimum_group_size = minimum, fp_policy_sha256 = zero_sha256\<rparr>
      in validate_forbidden_policy H (provisional\<lparr>fp_policy_sha256 := compute_forbidden_policy_sha256 H provisional\<rparr>))"

record governance_binding =
  gb_governance_commitment_sha256 :: string
  gb_trusted :: bool
  gb_trust_evidence_sha256 :: string
  gb_binding_sha256 :: string

definition compute_governance_trust_binding_sha256 :: "(string \<Rightarrow> string) \<Rightarrow> governance_binding \<Rightarrow> string" where
  "compute_governance_trust_binding_sha256 H b = canonical_json_sha256 H (JObj
     [(''schema_version'', JStr ''1.0''),
      (''governance_commitment_sha256'', JStr (gb_governance_commitment_sha256 b)),
      (''trusted'', JBool (gb_trusted b)), (''trust_evidence_sha256'', JStr (gb_trust_evidence_sha256 b))])"

definition validate_governance_binding :: "(string \<Rightarrow> string) \<Rightarrow> governance_binding \<Rightarrow> governance_binding result" where
  "validate_governance_binding H b = raise_first
     [(\<not> is_sha256 (gb_governance_commitment_sha256 b), ValidationError ''governance_commitment_sha256 pattern''),
      (\<not> is_sha256 (gb_trust_evidence_sha256 b), ValidationError ''trust_evidence_sha256 pattern''),
      (\<not> is_sha256 (gb_binding_sha256 b), ValidationError ''binding_sha256 pattern''),
      (gb_binding_sha256 b \<noteq> compute_governance_trust_binding_sha256 H b,
         ValidationError ''governance trust binding hash mismatch'')] b"

definition build_governance_trust_binding ::
    "(string \<Rightarrow> string) \<Rightarrow> string \<Rightarrow> bool \<Rightarrow> string \<Rightarrow> governance_binding result" where
  "build_governance_trust_binding H commitment trusted evidence =
     (let provisional = \<lparr>gb_governance_commitment_sha256 = commitment, gb_trusted = trusted,
            gb_trust_evidence_sha256 = evidence, gb_binding_sha256 = zero_sha256\<rparr>
      in validate_governance_binding H
           (provisional\<lparr>gb_binding_sha256 := compute_governance_trust_binding_sha256 H provisional\<rparr>))"

record temporal_observation =
  to_step_index :: int
  to_release_semantic_sha256 :: string
  to_warehouse_snapshot_sha256 :: "string option"
  to_sensitive_release :: bool
  to_observation_sha256 :: string

definition observation_fields_json :: "temporal_observation \<Rightarrow> (string \<times> json) list" where
  "observation_fields_json t =
     [(''schema_version'', JStr ''1.0''), (''step_index'', JInt (to_step_index t)),
      (''release_semantic_sha256'', JStr (to_release_semantic_sha256 t)),
      (''warehouse_snapshot_sha256'', jopt JStr (to_warehouse_snapshot_sha256 t)),
      (''sensitive_release'', JBool (to_sensitive_release t))]"

definition compute_temporal_observation_sha256 :: "(string \<Rightarrow> string) \<Rightarrow> temporal_observation \<Rightarrow> string" where
  "compute_temporal_observation_sha256 H t = canonical_json_sha256 H (JObj (observation_fields_json t))"

definition observation_json :: "temporal_observation \<Rightarrow> json" where
  "observation_json t = JObj (observation_fields_json t @ [(''observation_sha256'', JStr (to_observation_sha256 t))])"

definition validate_observation :: "(string \<Rightarrow> string) \<Rightarrow> temporal_observation \<Rightarrow> temporal_observation result" where
  "validate_observation H t = raise_first
     [(\<not> (0 \<le> to_step_index t \<and> to_step_index t \<le> 5), ValidationError ''step_index range''),
      (\<not> is_sha256 (to_release_semantic_sha256 t), ValidationError ''release_semantic_sha256 pattern''),
      (\<not> opt_all is_sha256 (to_warehouse_snapshot_sha256 t), ValidationError ''warehouse_snapshot_sha256 pattern''),
      (\<not> is_sha256 (to_observation_sha256 t), ValidationError ''observation_sha256 pattern''),
      (to_observation_sha256 t \<noteq> compute_temporal_observation_sha256 H t,
         ValidationError ''temporal release observation hash mismatch'')] t"

definition build_temporal_release_observation ::
    "(string \<Rightarrow> string) \<Rightarrow> int \<Rightarrow> string \<Rightarrow> string option \<Rightarrow> bool \<Rightarrow> temporal_observation result" where
  "build_temporal_release_observation H step release snapshot sensitive =
     (let provisional = \<lparr>to_step_index = step, to_release_semantic_sha256 = release,
            to_warehouse_snapshot_sha256 = snapshot, to_sensitive_release = sensitive,
            to_observation_sha256 = zero_sha256\<rparr>
      in validate_observation H
           (provisional\<lparr>to_observation_sha256 := compute_temporal_observation_sha256 H provisional\<rparr>))"

record temporal_path =
  tp_observations :: "temporal_observation list"
  tp_path_sha256 :: string

definition compute_temporal_path_sha256 :: "(string \<Rightarrow> string) \<Rightarrow> temporal_path \<Rightarrow> string" where
  "compute_temporal_path_sha256 H p = canonical_json_sha256 H (JObj
     [(''schema_version'', JStr ''1.0''), (''observations'', JArr (map observation_json (tp_observations p)))])"

abbreviation observation_key :: "temporal_observation \<Rightarrow> int \<times> string" where
  "observation_key t \<equiv> (to_step_index t, to_observation_sha256 t)"

definition validate_path :: "(string \<Rightarrow> string) \<Rightarrow> temporal_path \<Rightarrow> temporal_path result" where
  "validate_path H p = raise_first
     [(\<not> len_between 0 64 (tp_observations p), ValidationError ''observations length''),
      (\<not> is_sha256 (tp_path_sha256 p), ValidationError ''path_sha256 pattern''),
      (\<not> canonical (map observation_key (tp_observations p)),
         ValidationError ''temporal observations must be sorted and unique''),
      (tp_path_sha256 p \<noteq> compute_temporal_path_sha256 H p, ValidationError ''temporal path hash mismatch'')] p"

definition build_temporal_path_context ::
    "(string \<Rightarrow> string) \<Rightarrow> temporal_observation list \<Rightarrow> temporal_path result" where
  "build_temporal_path_context H observations =
     (let provisional = \<lparr>tp_observations = sort_key observation_key observations, tp_path_sha256 = zero_sha256\<rparr>
      in validate_path H (provisional\<lparr>tp_path_sha256 := compute_temporal_path_sha256 H provisional\<rparr>))"

section \<open>Evaluations\<close>

record predicate_evaluation =
  pe_predicate_id :: predicate_id
  pe_status :: predicate_status
  pe_reason_code :: forbidden_reason
  pe_state_sha256 :: string
  pe_witness_atom_sha256s :: "string list"
  pe_witness_release_sha256s :: "string list"
  pe_evaluation_sha256 :: string

definition predicate_fields_json :: "predicate_evaluation \<Rightarrow> (string \<times> json) list" where
  "predicate_fields_json e =
     [(''schema_version'', JStr ''1.0''), (''predicate_id'', JStr (predicate_value (pe_predicate_id e))),
      (''status'', JStr (status_value (pe_status e))),
      (''reason_code'', JStr (forbidden_reason_value (pe_reason_code e))),
      (''state_sha256'', JStr (pe_state_sha256 e)),
      (''witness_atom_sha256s'', jstrs (pe_witness_atom_sha256s e)),
      (''witness_release_sha256s'', jstrs (pe_witness_release_sha256s e))]"

definition compute_predicate_evaluation_sha256 :: "(string \<Rightarrow> string) \<Rightarrow> predicate_evaluation \<Rightarrow> string" where
  "compute_predicate_evaluation_sha256 H e = canonical_json_sha256 H (JObj (predicate_fields_json e))"

definition predicate_json :: "predicate_evaluation \<Rightarrow> json" where
  "predicate_json e = JObj (predicate_fields_json e @ [(''evaluation_sha256'', JStr (pe_evaluation_sha256 e))])"

definition validate_predicate_evaluation ::
    "(string \<Rightarrow> string) \<Rightarrow> predicate_evaluation \<Rightarrow> predicate_evaluation result" where
  "validate_predicate_evaluation H e = raise_first
     [(\<not> is_sha256 (pe_state_sha256 e), ValidationError ''state_sha256 pattern''),
      (\<not> len_between 0 16 (pe_witness_atom_sha256s e), ValidationError ''witness_atom_sha256s length''),
      (\<not> list_all is_sha256 (pe_witness_atom_sha256s e), ValidationError ''witness_atom_sha256s pattern''),
      (\<not> len_between 0 8 (pe_witness_release_sha256s e), ValidationError ''witness_release_sha256s length''),
      (\<not> list_all is_sha256 (pe_witness_release_sha256s e), ValidationError ''witness_release_sha256s pattern''),
      (\<not> is_sha256 (pe_evaluation_sha256 e), ValidationError ''evaluation_sha256 pattern''),
      (\<not> canonical (pe_witness_atom_sha256s e), ValidationError ''predicate witness atoms must be sorted and unique''),
      (\<not> canonical (pe_witness_release_sha256s e),
         ValidationError ''predicate witness releases must be sorted and unique''),
      (pe_status e = STATUS_CLEAR \<and> pe_reason_code e \<noteq> REASON_CLEAR,
         ValidationError ''clear predicate evaluation requires CLEAR reason''),
      (pe_status e = STATUS_CLEAR \<and> (pe_witness_atom_sha256s e \<noteq> [] \<or> pe_witness_release_sha256s e \<noteq> []),
         ValidationError ''clear predicate evaluation must not contain witnesses''),
      (pe_status e \<noteq> STATUS_CLEAR \<and> pe_reason_code e = REASON_CLEAR,
         ValidationError ''non-clear predicate evaluation requires a specific reason''),
      (pe_evaluation_sha256 e \<noteq> compute_predicate_evaluation_sha256 H e,
         ValidationError ''forbidden predicate evaluation hash mismatch'')] e"

text \<open>\<open>_evaluation\<close>.\<close>

definition evaluation ::
    "(string \<Rightarrow> string) \<Rightarrow> disclosure_state \<Rightarrow> predicate_id \<Rightarrow> predicate_status \<Rightarrow> forbidden_reason
      \<Rightarrow> string list \<Rightarrow> string list \<Rightarrow> predicate_evaluation result" where
  "evaluation H state pid status reason witness_atoms witness_releases =
     (let provisional = \<lparr>pe_predicate_id = pid, pe_status = status, pe_reason_code = reason,
            pe_state_sha256 = ds_state_sha256 state, pe_witness_atom_sha256s = sorted_set witness_atoms,
            pe_witness_release_sha256s = sorted_set witness_releases, pe_evaluation_sha256 = zero_sha256\<rparr>
      in validate_predicate_evaluation H
           (provisional\<lparr>pe_evaluation_sha256 := compute_predicate_evaluation_sha256 H provisional\<rparr>))"

abbreviation clear_evaluation ::
    "(string \<Rightarrow> string) \<Rightarrow> disclosure_state \<Rightarrow> predicate_id \<Rightarrow> predicate_evaluation result" where
  "clear_evaluation H state pid \<equiv> evaluation H state pid STATUS_CLEAR REASON_CLEAR [] []"

record state_evaluation =
  se_state_sha256 :: string
  se_policy_sha256 :: string
  se_governance_binding_sha256 :: "string option"
  se_temporal_path_sha256 :: "string option"
  se_predicates :: "predicate_evaluation list"
  se_matched_predicates :: "predicate_id list"
  se_indeterminate_predicates :: "predicate_id list"
  se_forbidden :: bool
  se_evaluation_sha256 :: string

definition predicates_json :: "predicate_id list \<Rightarrow> json" where
  "predicates_json ps = jstrs (map predicate_value ps)"

definition compute_state_evaluation_sha256 :: "(string \<Rightarrow> string) \<Rightarrow> state_evaluation \<Rightarrow> string" where
  "compute_state_evaluation_sha256 H e = canonical_json_sha256 H (JObj
     [(''schema_version'', JStr ''1.0''), (''state_sha256'', JStr (se_state_sha256 e)),
      (''policy_sha256'', JStr (se_policy_sha256 e)),
      (''governance_binding_sha256'', jopt JStr (se_governance_binding_sha256 e)),
      (''temporal_path_sha256'', jopt JStr (se_temporal_path_sha256 e)),
      (''predicates'', JArr (map predicate_json (se_predicates e))),
      (''matched_predicates'', predicates_json (se_matched_predicates e)),
      (''indeterminate_predicates'', predicates_json (se_indeterminate_predicates e)),
      (''forbidden'', JBool (se_forbidden e))])"

definition with_status :: "predicate_status \<Rightarrow> predicate_evaluation list \<Rightarrow> predicate_id list" where
  "with_status status es = map pe_predicate_id (filter (\<lambda>e. pe_status e = status) es)"

definition validate_state_evaluation ::
    "(string \<Rightarrow> string) \<Rightarrow> state_evaluation \<Rightarrow> state_evaluation result" where
  "validate_state_evaluation H e = raise_first
     [(\<not> is_sha256 (se_state_sha256 e), ValidationError ''state_sha256 pattern''),
      (\<not> is_sha256 (se_policy_sha256 e), ValidationError ''policy_sha256 pattern''),
      (\<not> opt_all is_sha256 (se_governance_binding_sha256 e), ValidationError ''governance_binding_sha256 pattern''),
      (\<not> opt_all is_sha256 (se_temporal_path_sha256 e), ValidationError ''temporal_path_sha256 pattern''),
      (length (se_predicates e) \<noteq> 6, ValidationError ''predicates length''),
      (\<not> is_sha256 (se_evaluation_sha256 e), ValidationError ''evaluation_sha256 pattern''),
      (map pe_predicate_id (se_predicates e) \<noteq> all_predicates,
         ValidationError ''forbidden predicates must contain canonical F1-F6 order''),
      (list_ex (\<lambda>p. pe_state_sha256 p \<noteq> se_state_sha256 e) (se_predicates e),
         ValidationError ''predicate evaluation state commitment mismatch''),
      (se_matched_predicates e \<noteq> with_status STATUS_MATCHED (se_predicates e),
         ValidationError ''matched predicate summary mismatch''),
      (se_indeterminate_predicates e \<noteq> with_status STATUS_INDETERMINATE (se_predicates e),
         ValidationError ''indeterminate predicate summary mismatch''),
      (se_forbidden e \<noteq> (with_status STATUS_MATCHED (se_predicates e) \<noteq> []),
         ValidationError ''forbidden summary mismatch''),
      (se_evaluation_sha256 e \<noteq> compute_state_evaluation_sha256 H e,
         ValidationError ''forbidden-state evaluation hash mismatch'')] e"

section \<open>The predicates\<close>

definition forbidden_linkable_kinds :: "exposure_kind list" where
  "forbidden_linkable_kinds = [RAW_VALUE, TRANSFORMED_RAW_VALUE, exposure_kind.GROUP_KEY, NESTED_SCOPE]"

definition forbidden_revealing_kinds :: "exposure_kind list" where
  "forbidden_revealing_kinds = forbidden_linkable_kinds @ [AGGREGATE_OPERAND, AGGREGATE_VALUE, CONDITIONAL_AGGREGATE]"

definition forbidden_identifier_categories :: "sensitivity_category list" where
  "forbidden_identifier_categories = [DIRECT_IDENTIFIER, STABLE_PSEUDONYM]"

definition output_atoms :: "exposure_kind list \<Rightarrow> disclosure_atom list \<Rightarrow> disclosure_atom list" where
  "output_atoms kinds atoms = filter (\<lambda>a. at_exposure_kind a \<in> Some ` set kinds)
     (filter (\<lambda>a. at_kind a = COLUMN_EXPOSURE \<and> at_column_role a = Some ROLE_OUTPUT) atoms)"

text \<open>\<open>_by_release\<close>: a dictionary from release to its atoms, in insertion order.\<close>

definition releases_of :: "disclosure_atom list \<Rightarrow> string list" where
  "releases_of atoms = map fst (dict_of (\<lambda>r. r) (map the (filter (\<lambda>r. r \<noteq> None) (map at_release_semantic_sha256 atoms))))"

definition of_release :: "string \<Rightarrow> disclosure_atom list \<Rightarrow> disclosure_atom list" where
  "of_release r atoms = sort_key at_atom_sha256 (filter (\<lambda>a. at_release_semantic_sha256 a = Some r) atoms)"

definition by_release :: "disclosure_atom list \<Rightarrow> (string \<times> disclosure_atom list) list" where
  "by_release atoms = map (\<lambda>r. (r, of_release r atoms)) (releases_of atoms)"

text \<open>\<open>tuple(sorted((x, y)))\<close>.\<close>

definition sorted_pair :: "string \<Rightarrow> string \<Rightarrow> string list" where
  "sorted_pair x y = sort [x, y]"

lemma set_sorted_pair [simp]: "set (sorted_pair x y) = {x, y}"
  unfolding sorted_pair_def set_sort by simp

definition linkage_candidates ::
    "sensitivity_category \<Rightarrow> (string \<times> disclosure_atom list) list \<Rightarrow> (string list \<times> string) list" where
  "linkage_candidates category grouped = concat (map (\<lambda>(release, atoms).
     concat (map (\<lambda>i. map (\<lambda>s. (sorted_pair (at_atom_sha256 i) (at_atom_sha256 s), release))
       (with_category SENSITIVE_ATTRIBUTE atoms)) (with_category category atoms))) grouped)"

definition same_release_linkage ::
    "(string \<Rightarrow> string) \<Rightarrow> disclosure_state \<Rightarrow> predicate_id \<Rightarrow> sensitivity_category \<Rightarrow> forbidden_reason
      \<Rightarrow> (string \<times> disclosure_atom list) list \<Rightarrow> predicate_evaluation result" where
  "same_release_linkage H state pid category reason grouped =
     (let candidates = linkage_candidates category grouped
      in if candidates = [] then clear_evaluation H state pid
         else let (witness, release) = arg_min_list (\<lambda>c. c) candidates
              in evaluation H state pid STATUS_MATCHED reason witness [release])"

definition group_atoms :: "disclosure_atom list \<Rightarrow> disclosure_atom list" where
  "group_atoms atoms = filter (\<lambda>a. at_kind a = COLUMN_EXPOSURE
     \<and> (at_column_role a = Some ROLE_GROUP_KEY \<or> at_exposure_kind a = Some exposure_kind.GROUP_KEY)) atoms"

definition minimum_atoms :: "disclosure_atom list \<Rightarrow> disclosure_atom list" where
  "minimum_atoms atoms = filter (\<lambda>a. at_kind a = MINIMUM_GROUP_SIZE) atoms"

definition minimum_key :: "disclosure_atom \<Rightarrow> int \<times> string" where
  "minimum_key a = (case at_minimum_group_size a of None \<Rightarrow> 0 | Some n \<Rightarrow> n, at_atom_sha256 a)"

text \<open>The body of the loop of \<open>_small_cohort_sensitive\<close> for one release.\<close>

definition cohort_candidate ::
    "int \<Rightarrow> string \<Rightarrow> disclosure_atom list \<Rightarrow> disclosure_atom list
      \<Rightarrow> (string \<times> string list \<times> forbidden_reason) list result" where
  "cohort_candidate minimum_size release revealing atoms =
     (let sensitive = with_category SENSITIVE_ATTRIBUTE revealing; groups = group_atoms atoms;
          minimums = minimum_atoms atoms;
          base_witness = sorted_set (map at_atom_sha256 groups @ map at_atom_sha256 sensitive)
      in if sensitive = [] \<or> groups = [] then Inr []
         else if minimums = [] then Inr [(release, base_witness, SENSITIVE_GROUP_MINIMUM_MISSING)]
         else let minimum = arg_min_list minimum_key minimums
              in case at_minimum_group_size minimum of
                   None \<Rightarrow> Inl (AssertionError '''')
                 | Some n \<Rightarrow> Inr (if n < minimum_size
                     then [(release, sort (base_witness @ [at_atom_sha256 minimum]), SENSITIVE_GROUP_BELOW_MINIMUM)]
                     else []))"

definition cohort_candidate_key :: "string \<times> string list \<times> forbidden_reason \<Rightarrow> string \<times> string list \<times> string" where
  "cohort_candidate_key c = (fst c, fst (snd c), forbidden_reason_value (snd (snd c)))"

definition small_cohort_sensitive ::
    "(string \<Rightarrow> string) \<Rightarrow> disclosure_state \<Rightarrow> forbidden_policy \<Rightarrow> (string \<times> disclosure_atom list) list
      \<Rightarrow> (string \<times> disclosure_atom list) list \<Rightarrow> predicate_evaluation result" where
  "small_cohort_sensitive H state policy revealing_by_release all_by_release =
     bindr (mapr (\<lambda>(release, revealing). cohort_candidate (fp_minimum_group_size policy) release revealing
         (case map_of all_by_release release of None \<Rightarrow> [] | Some atoms \<Rightarrow> atoms)) revealing_by_release) (\<lambda>found.
       let candidates = concat found
       in if candidates = [] then clear_evaluation H state F3_SMALL_COHORT_SENSITIVE
          else let (release, witness, reason) = arg_min_list cohort_candidate_key candidates
               in evaluation H state F3_SMALL_COHORT_SENSITIVE STATUS_MATCHED reason witness [release])"

definition cross_pair ::
    "disclosure_atom \<Rightarrow> disclosure_atom \<Rightarrow> (string list \<times> string list) list result" where
  "cross_pair i s =
     (if at_release_semantic_sha256 i = at_release_semantic_sha256 s then Inr []
      else case at_release_semantic_sha256 i of
          None \<Rightarrow> Inl (AssertionError '''')
        | Some ri \<Rightarrow> (case at_release_semantic_sha256 s of
              None \<Rightarrow> Inl (AssertionError '''')
            | Some rs \<Rightarrow> Inr [(sorted_pair (at_atom_sha256 i) (at_atom_sha256 s), sorted_pair ri rs)]))"

definition cross_release_composition ::
    "(string \<Rightarrow> string) \<Rightarrow> disclosure_state \<Rightarrow> disclosure_atom list \<Rightarrow> predicate_evaluation result" where
  "cross_release_composition H state linkable =
     (let identifiers = filter (\<lambda>a. at_category a \<in> Some ` set forbidden_identifier_categories) linkable;
          sensitive = with_category SENSITIVE_ATTRIBUTE linkable
      in bindr (mapr (\<lambda>(i, s). cross_pair i s) (List.product identifiers sensitive)) (\<lambda>found.
           let candidates = concat found
           in if candidates = [] then clear_evaluation H state F4_CROSS_RELEASE_COMPOSITION
              else let (witness, releases) = arg_min_list (\<lambda>c. c) candidates
                   in evaluation H state F4_CROSS_RELEASE_COMPOSITION STATUS_MATCHED
                        IDENTIFIER_AND_SENSITIVE_ACROSS_RELEASES witness releases))"

text \<open>The observations \<open>_temporal_differencing\<close> keeps, and what it looks for in one release.\<close>

definition relevant_observations :: "temporal_path \<Rightarrow> temporal_observation list" where
  "relevant_observations path = filter (\<lambda>t. to_sensitive_release t \<and> to_warehouse_snapshot_sha256 t \<noteq> None)
     (tp_observations path)"

definition differencing_candidate ::
    "temporal_observation list \<Rightarrow> string \<Rightarrow> (string \<times> string list) list result" where
  "differencing_candidate items release =
     (let own = filter (\<lambda>t. to_release_semantic_sha256 t = release) items;
          observations = sort_key observation_key own; first = hd observations
      in if card (to_warehouse_snapshot_sha256 ` set own) < 2 then Inr []
         else case find (\<lambda>t. to_warehouse_snapshot_sha256 t \<noteq> to_warehouse_snapshot_sha256 first) (tl observations) of
             None \<Rightarrow> Inl (StopIteration '''')
           | Some second \<Rightarrow> Inr [(release, sorted_pair (to_observation_sha256 first) (to_observation_sha256 second))])"

definition temporal_differencing ::
    "(string \<Rightarrow> string) \<Rightarrow> disclosure_state \<Rightarrow> temporal_path option \<Rightarrow> predicate_evaluation result" where
  "temporal_differencing H state path = (case path of
       None \<Rightarrow> evaluation H state F5_TEMPORAL_DIFFERENCING STATUS_INDETERMINATE TEMPORAL_PATH_CONTEXT_MISSING [] []
     | Some p \<Rightarrow>
         (let items = relevant_observations p
          in bindr (mapr (differencing_candidate items)
                 (map fst (dict_of (\<lambda>r. r) (map to_release_semantic_sha256 items)))) (\<lambda>found.
             let candidates = concat found
             in if candidates = [] then clear_evaluation H state F5_TEMPORAL_DIFFERENCING
                else let (release, observations) = arg_min_list (\<lambda>c. c) candidates
                     in evaluation H state F5_TEMPORAL_DIFFERENCING STATUS_MATCHED
                          SENSITIVE_REPLAY_ACROSS_SNAPSHOTS observations [release])))"

definition untrusted_governance ::
    "(string \<Rightarrow> string) \<Rightarrow> disclosure_state \<Rightarrow> governance_binding option \<Rightarrow> predicate_evaluation result" where
  "untrusted_governance H state binding =
     (let matched = (\<lambda>reason. evaluation H state F6_UNTRUSTED_GOVERNANCE_AUTHORIZATION STATUS_MATCHED reason [] [])
      in case binding of
           None \<Rightarrow> matched GOVERNANCE_BINDING_MISSING
         | Some b \<Rightarrow>
             if gb_governance_commitment_sha256 b \<noteq> ds_governance_commitment_sha256 state
             then matched GOVERNANCE_COMMITMENT_MISMATCH
             else if \<not> gb_trusted b then matched GOVERNANCE_NOT_TRUSTED
             else clear_evaluation H state F6_UNTRUSTED_GOVERNANCE_AUTHORIZATION)"

definition evaluate_predicates ::
    "(string \<Rightarrow> string) \<Rightarrow> disclosure_state \<Rightarrow> forbidden_policy \<Rightarrow> governance_binding option \<Rightarrow> temporal_path option
      \<Rightarrow> predicate_evaluation list result" where
  "evaluate_predicates H state policy binding path =
     (let direct = ds_released_atoms state;
          linkable = output_atoms forbidden_linkable_kinds direct;
          revealing = output_atoms forbidden_revealing_kinds direct
      in bindr (same_release_linkage H state F1_DIRECT_SENSITIVE_LINKAGE DIRECT_IDENTIFIER
             DIRECT_AND_SENSITIVE_LINKABLE_SAME_RELEASE (by_release linkable)) (\<lambda>f1.
         bindr (same_release_linkage H state F2_STABLE_LINKABLE_SENSITIVE STABLE_PSEUDONYM
             STABLE_AND_SENSITIVE_LINKABLE_SAME_RELEASE (by_release linkable)) (\<lambda>f2.
         bindr (small_cohort_sensitive H state policy (by_release revealing) (by_release direct)) (\<lambda>f3.
         bindr (cross_release_composition H state linkable) (\<lambda>f4.
         bindr (temporal_differencing H state path) (\<lambda>f5.
         bindr (untrusted_governance H state binding) (\<lambda>f6.
           Inr [f1, f2, f3, f4, f5, f6])))))))"

definition evaluate_forbidden_state ::
    "(string \<Rightarrow> string) \<Rightarrow> disclosure_state \<Rightarrow> forbidden_policy \<Rightarrow> governance_binding option \<Rightarrow> temporal_path option
      \<Rightarrow> state_evaluation result" where
  "evaluate_forbidden_state H state policy binding path =
     bindr (evaluate_predicates H state policy binding path) (\<lambda>predicates.
       let provisional = \<lparr>se_state_sha256 = ds_state_sha256 state, se_policy_sha256 = fp_policy_sha256 policy,
             se_governance_binding_sha256 = map_option gb_binding_sha256 binding,
             se_temporal_path_sha256 = map_option tp_path_sha256 path, se_predicates = predicates,
             se_matched_predicates = with_status STATUS_MATCHED predicates,
             se_indeterminate_predicates = with_status STATUS_INDETERMINATE predicates,
             se_forbidden = (with_status STATUS_MATCHED predicates \<noteq> []), se_evaluation_sha256 = zero_sha256\<rparr>
       in validate_state_evaluation H
            (provisional\<lparr>se_evaluation_sha256 := compute_state_evaluation_sha256 H provisional\<rparr>))"

section \<open>What each predicate decides\<close>

lemma evaluation_Inr:
  assumes "evaluation H state pid status reason atoms releases = Inr e"
  shows "pe_predicate_id e = pid" "pe_status e = status" "pe_reason_code e = reason"
    "pe_state_sha256 e = ds_state_sha256 state"
    "set (pe_witness_atom_sha256s e) = set atoms" "set (pe_witness_release_sha256s e) = set releases"
proof -
  let ?p = "\<lparr>pe_predicate_id = pid, pe_status = status, pe_reason_code = reason,
            pe_state_sha256 = ds_state_sha256 state, pe_witness_atom_sha256s = sorted_set atoms,
            pe_witness_release_sha256s = sorted_set releases, pe_evaluation_sha256 = zero_sha256\<rparr>"
  from assms have "e = ?p\<lparr>pe_evaluation_sha256 := compute_predicate_evaluation_sha256 H ?p\<rparr>"
    by (simp add: evaluation_def Let_def validate_predicate_evaluation_def)
  then show "pe_predicate_id e = pid" "pe_status e = status" "pe_reason_code e = reason"
    "pe_state_sha256 e = ds_state_sha256 state"
    "set (pe_witness_atom_sha256s e) = set atoms" "set (pe_witness_release_sha256s e) = set releases"
    by simp_all
qed

lemma set_releases_of: "set (releases_of atoms) = {r. \<exists>a \<in> set atoms. at_release_semantic_sha256 a = Some r}"
  by (force simp: releases_of_def)

lemma set_of_release: "set (of_release r atoms) = {a \<in> set atoms. at_release_semantic_sha256 a = Some r}"
  by (auto simp: of_release_def)

lemma map_of_by_release:
  "map_of (by_release atoms) r = (if r \<in> set (releases_of atoms) then Some (of_release r atoms) else None)"
  unfolding by_release_def by (induction "releases_of atoms") (simp_all add: map_of_map_restrict restrict_map_def)

lemma Nil_iff_no_member: "xs = [] \<longleftrightarrow> (\<forall>x. x \<notin> set xs)"
  by (cases xs) auto

text \<open>Every candidate predicate ends alike: clear without candidates, else the least candidate.\<close>

lemma matched_or_clear:
  assumes "(if cs = [] then clear_evaluation H state pid
      else evaluation H state pid STATUS_MATCHED (reason (arg_min_list key cs)) (witness (arg_min_list key cs))
             (releases (arg_min_list key cs))) = Inr e"
    and "\<And>c. c \<in> set cs \<Longrightarrow> set (witness c) \<subseteq> A"
  shows "pe_predicate_id e = pid" "pe_state_sha256 e = ds_state_sha256 state"
    "pe_status e = (if cs = [] then STATUS_CLEAR else STATUS_MATCHED)" "set (pe_witness_atom_sha256s e) \<subseteq> A"
proof -
  have "pe_predicate_id e = pid \<and> pe_state_sha256 e = ds_state_sha256 state
     \<and> pe_status e = (if cs = [] then STATUS_CLEAR else STATUS_MATCHED) \<and> set (pe_witness_atom_sha256s e) \<subseteq> A"
  proof (cases "cs = []")
    case True
    with assms(1) have "clear_evaluation H state pid = Inr e" by simp
    from evaluation_Inr [OF this] True show ?thesis by simp
  next
    case False
    with assms(1) have "evaluation H state pid STATUS_MATCHED (reason (arg_min_list key cs))
        (witness (arg_min_list key cs)) (releases (arg_min_list key cs)) = Inr e" by simp
    from evaluation_Inr [OF this] False assms(2) [OF arg_min_list_mem [OF False]] show ?thesis by simp
  qed
  then show "pe_predicate_id e = pid" "pe_state_sha256 e = ds_state_sha256 state"
    "pe_status e = (if cs = [] then STATUS_CLEAR else STATUS_MATCHED)" "set (pe_witness_atom_sha256s e) \<subseteq> A"
    by simp_all
qed

lemma set_with_category: "set (with_category c atoms) = {a \<in> set atoms. at_category a = Some c}"
  by (auto simp: with_category_def)

text \<open>F1 and F2: an identifier and a sensitive attribute among the linkable outputs of one release.\<close>

definition same_release_linked :: "disclosure_atom list \<Rightarrow> sensitivity_category \<Rightarrow> bool" where
  "same_release_linked linkable category \<longleftrightarrow> (\<exists>i \<in> set linkable. \<exists>s \<in> set linkable.
     at_category i = Some category \<and> at_category s = Some SENSITIVE_ATTRIBUTE
     \<and> at_release_semantic_sha256 i \<noteq> None \<and> at_release_semantic_sha256 i = at_release_semantic_sha256 s)"

lemma linkage_candidates_set:
  "(witness, release) \<in> set (linkage_candidates category (by_release atoms)) \<longleftrightarrow>
     (\<exists>i \<in> set atoms. \<exists>s \<in> set atoms. at_category i = Some category \<and> at_category s = Some SENSITIVE_ATTRIBUTE
        \<and> at_release_semantic_sha256 i = Some release \<and> at_release_semantic_sha256 s = Some release
        \<and> witness = sorted_pair (at_atom_sha256 i) (at_atom_sha256 s))"
proof -
  have "(witness, release) \<in> set (linkage_candidates category (by_release atoms)) \<longleftrightarrow>
      release \<in> set (releases_of atoms) \<and> (\<exists>i \<in> set (with_category category (of_release release atoms)).
        \<exists>s \<in> set (with_category SENSITIVE_ATTRIBUTE (of_release release atoms)).
          witness = sorted_pair (at_atom_sha256 i) (at_atom_sha256 s))"
    by (auto simp: linkage_candidates_def by_release_def)
  then show ?thesis unfolding set_with_category set_of_release set_releases_of by blast
qed

lemma linkage_candidates_Nil:
  "linkage_candidates category (by_release atoms) = [] \<longleftrightarrow> \<not> same_release_linked atoms category"
proof -
  have "same_release_linked atoms category \<longleftrightarrow> (\<exists>r. \<exists>i \<in> set atoms. \<exists>s \<in> set atoms.
      at_category i = Some category \<and> at_category s = Some SENSITIVE_ATTRIBUTE
      \<and> at_release_semantic_sha256 i = Some r \<and> at_release_semantic_sha256 s = Some r)"
    unfolding same_release_linked_def by force
  then show ?thesis unfolding Nil_iff_no_member split_paired_All linkage_candidates_set by blast
qed

lemma same_release_linkage_Inr:
  assumes "same_release_linkage H state pid category reason (by_release atoms) = Inr e"
  shows "pe_predicate_id e = pid" "pe_state_sha256 e = ds_state_sha256 state"
    "pe_status e = (if same_release_linked atoms category then STATUS_MATCHED else STATUS_CLEAR)"
    "set (pe_witness_atom_sha256s e) \<subseteq> at_atom_sha256 ` set atoms"
proof -
  let ?cs = "linkage_candidates category (by_release atoms)"
  have "set (fst c) \<subseteq> at_atom_sha256 ` set atoms" if "c \<in> set ?cs" for c
  proof -
    obtain w r where "c = (w, r)" by (cases c)
    with that have "(w, r) \<in> set ?cs" by (simp only:)
    then show ?thesis unfolding linkage_candidates_set \<open>c = (w, r)\<close> by auto
  qed
  note result = matched_or_clear [where cs = ?cs and reason = "\<lambda>_. reason" and witness = fst
      and releases = "\<lambda>c. [snd c]" and key = "\<lambda>c. c", OF _ this]
  have "(if ?cs = [] then clear_evaluation H state pid else evaluation H state pid STATUS_MATCHED reason
      (fst (arg_min_list (\<lambda>c. c) ?cs)) [snd (arg_min_list (\<lambda>c. c) ?cs)]) = Inr e"
    using assms by (simp add: same_release_linkage_def Let_def case_prod_unfold cong: if_cong)
  from result [OF this] show "pe_predicate_id e = pid" "pe_state_sha256 e = ds_state_sha256 state"
    "pe_status e = (if same_release_linked atoms category then STATUS_MATCHED else STATUS_CLEAR)"
    "set (pe_witness_atom_sha256s e) \<subseteq> at_atom_sha256 ` set atoms"
    by (simp_all add: linkage_candidates_Nil)
qed

text \<open>F4: across two releases.\<close>

definition cross_release_linked :: "disclosure_atom list \<Rightarrow> bool" where
  "cross_release_linked linkable \<longleftrightarrow> (\<exists>i \<in> set linkable. \<exists>s \<in> set linkable.
     at_category i \<in> {Some DIRECT_IDENTIFIER, Some STABLE_PSEUDONYM} \<and> at_category s = Some SENSITIVE_ATTRIBUTE
     \<and> at_release_semantic_sha256 i \<noteq> at_release_semantic_sha256 s)"

lemma cross_pair_Inr:
  assumes "cross_pair i s = Inr cs"
  shows "(cs = []) = (at_release_semantic_sha256 i = at_release_semantic_sha256 s)"
    and "(w, r) \<in> set cs \<Longrightarrow> w = sorted_pair (at_atom_sha256 i) (at_atom_sha256 s)"
  using assms by (auto simp: cross_pair_def split: if_splits option.splits)

lemma cross_release_composition_Inr:
  assumes "cross_release_composition H state atoms = Inr e"
  shows "pe_predicate_id e = F4_CROSS_RELEASE_COMPOSITION" "pe_state_sha256 e = ds_state_sha256 state"
    "pe_status e = (if cross_release_linked atoms then STATUS_MATCHED else STATUS_CLEAR)"
    "set (pe_witness_atom_sha256s e) \<subseteq> at_atom_sha256 ` set atoms"
proof -
  let ?ids = "filter (\<lambda>a. at_category a \<in> Some ` set forbidden_identifier_categories) atoms"
  let ?pairs = "List.product ?ids (with_category SENSITIVE_ATTRIBUTE atoms)"
  from assms obtain found where f: "mapr (\<lambda>(i, s). cross_pair i s) ?pairs = Inr found"
    by (auto simp: cross_release_composition_def Let_def)
  let ?cs = "concat found"
  have set_found: "set found = {y. \<exists>p \<in> set ?pairs. (\<lambda>(i, s). cross_pair i s) p = Inr y}" by (rule mapr_set [OF f])
  have all2: "list_all2 (\<lambda>p y. (\<lambda>(i, s). cross_pair i s) p = Inr y) ?pairs found" using f by (simp add: mapr_Inr_iff)
  have nil: "?cs = [] \<longleftrightarrow> \<not> cross_release_linked atoms"
  proof
    assume cs: "?cs = []"
    show "\<not> cross_release_linked atoms"
    proof
      assume "cross_release_linked atoms"
      then obtain i s where pair: "(i, s) \<in> set ?pairs" "at_release_semantic_sha256 i \<noteq> at_release_semantic_sha256 s"
        unfolding cross_release_linked_def by (force simp: set_with_category forbidden_identifier_categories_def)
      from list_all2_left [OF all2 pair(1)] obtain y where "y \<in> set found" "cross_pair i s = Inr y" by auto
      with cross_pair_Inr(1) [of i s y] pair(2) cs show False by auto
    qed
  next
    assume no: "\<not> cross_release_linked atoms"
    have "y = []" if y: "y \<in> set found" for y
    proof -
      from y set_found obtain i s where pair: "(i, s) \<in> set ?pairs" "cross_pair i s = Inr y" by force
      then have "at_release_semantic_sha256 i = at_release_semantic_sha256 s"
        using no unfolding cross_release_linked_def by (force simp: set_with_category forbidden_identifier_categories_def)
      with cross_pair_Inr(1) [OF pair(2)] show ?thesis by simp
    qed
    then show "?cs = []" by simp
  qed
  have sub: "set (fst c) \<subseteq> at_atom_sha256 ` set atoms" if "c \<in> set ?cs" for c
  proof -
    from that obtain y where y: "y \<in> set found" "c \<in> set y" by auto
    with set_found obtain i s where pair: "(i, s) \<in> set ?pairs" "cross_pair i s = Inr y" by force
    with cross_pair_Inr(2) [OF pair(2), of "fst c" "snd c"] y(2) show ?thesis by (auto simp: set_with_category)
  qed
  note result = matched_or_clear [where cs = ?cs and reason = "\<lambda>_. IDENTIFIER_AND_SENSITIVE_ACROSS_RELEASES"
      and witness = fst and releases = snd and key = "\<lambda>c. c", OF _ sub]
  have "(if ?cs = [] then clear_evaluation H state F4_CROSS_RELEASE_COMPOSITION
      else evaluation H state F4_CROSS_RELEASE_COMPOSITION STATUS_MATCHED IDENTIFIER_AND_SENSITIVE_ACROSS_RELEASES
      (fst (arg_min_list (\<lambda>c. c) ?cs)) (snd (arg_min_list (\<lambda>c. c) ?cs))) = Inr e"
    using assms f by (cases "arg_min_list (\<lambda>c. c) ?cs") (simp add: cross_release_composition_def Let_def cong: if_cong)
  from result [OF this] nil show "pe_predicate_id e = F4_CROSS_RELEASE_COMPOSITION"
    "pe_state_sha256 e = ds_state_sha256 state"
    "pe_status e = (if cross_release_linked atoms then STATUS_MATCHED else STATUS_CLEAR)"
    "set (pe_witness_atom_sha256s e) \<subseteq> at_atom_sha256 ` set atoms" by simp_all
qed

text \<open>F3: a revealed sensitive attribute and a group key in a release whose minimum group size is
  missing or below the policy.\<close>

definition small_cohort :: "int \<Rightarrow> disclosure_atom list \<Rightarrow> disclosure_atom list \<Rightarrow> bool" where
  "small_cohort minimum_size revealing atoms \<longleftrightarrow> (\<exists>release.
     (\<exists>s \<in> set revealing. at_release_semantic_sha256 s = Some release \<and> at_category s = Some SENSITIVE_ATTRIBUTE)
     \<and> (\<exists>g \<in> set (group_atoms atoms). at_release_semantic_sha256 g = Some release)
     \<and> (\<forall>m \<in> set (minimum_atoms atoms). at_release_semantic_sha256 m = Some release \<longrightarrow>
          (\<exists>m' \<in> set (minimum_atoms atoms). at_release_semantic_sha256 m' = Some release
             \<and> opt_all (\<lambda>n. n < minimum_size) (at_minimum_group_size m'))))"

lemma arg_min_list_le: "x \<in> set xs \<Longrightarrow> f (arg_min_list f xs) \<le> f x"
  by (induction f xs rule: arg_min_list.induct) (auto simp: Let_def intro: order_trans)

lemma cohort_candidate_Inr:
  assumes "cohort_candidate k release revealing atoms = Inr cs"
    and "\<forall>m \<in> set (minimum_atoms atoms). at_minimum_group_size m \<noteq> None"
  shows "cs = [] \<longleftrightarrow> \<not> (with_category SENSITIVE_ATTRIBUTE revealing \<noteq> [] \<and> group_atoms atoms \<noteq> []
      \<and> (minimum_atoms atoms = [] \<or> (\<exists>m \<in> set (minimum_atoms atoms). opt_all (\<lambda>n. n < k) (at_minimum_group_size m))))"
    and "c \<in> set cs \<Longrightarrow> set (fst (snd c)) \<subseteq> at_atom_sha256 ` (set atoms \<union> set revealing)"
proof -
  let ?s = "with_category SENSITIVE_ATTRIBUTE revealing" and ?g = "group_atoms atoms" and ?m = "minimum_atoms atoms"
  let ?min = "arg_min_list minimum_key ?m"
  have sets: "set ?s \<subseteq> set revealing" "set ?g \<subseteq> set atoms" "set ?m \<subseteq> set atoms"
    by (auto simp: with_category_def group_atoms_def minimum_atoms_def)
  have "(cs = [] \<longleftrightarrow> \<not> (?s \<noteq> [] \<and> ?g \<noteq> [] \<and> (?m = [] \<or> (\<exists>m \<in> set ?m. opt_all (\<lambda>n. n < k) (at_minimum_group_size m)))))
    \<and> (\<forall>c \<in> set cs. set (fst (snd c)) \<subseteq> at_atom_sha256 ` (set atoms \<union> set revealing))"
  proof (cases "?s = [] \<or> ?g = [] \<or> ?m = []")
    case True
    with assms(1) sets show ?thesis by (auto simp: cohort_candidate_def Let_def split: if_splits intro!: imageI)
  next
    case False
    then have ne: "?m \<noteq> []" by simp
    have mem: "?min \<in> set ?m" by (rule arg_min_list_mem [OF ne])
    with assms(2) obtain n where n: "at_minimum_group_size ?min = Some n" by blast
    have least: "n \<le> n'" if "m \<in> set ?m" "at_minimum_group_size m = Some n'" for m n'
      using arg_min_list_le [OF that(1), of minimum_key] n that(2) by (auto simp: minimum_key_def)
    have iff: "(\<exists>m \<in> set ?m. opt_all (\<lambda>n. n < k) (at_minimum_group_size m)) \<longleftrightarrow> n < k"
    proof
      assume "\<exists>m \<in> set ?m. opt_all (\<lambda>n. n < k) (at_minimum_group_size m)"
      then obtain m where m: "m \<in> set ?m" "opt_all (\<lambda>n. n < k) (at_minimum_group_size m)" by blast
      with assms(2) obtain n' where "at_minimum_group_size m = Some n'" by blast
      with least [OF m(1) this] m(2) show "n < k" by simp
    qed (use mem n in \<open>auto intro!: bexI [of _ ?min]\<close>)
    from assms(1) False n have cs: "cs = (if n < k
        then [(release, sort (sorted_set (map at_atom_sha256 ?g @ map at_atom_sha256 ?s) @ [at_atom_sha256 ?min]),
               SENSITIVE_GROUP_BELOW_MINIMUM)] else [])"
      by (simp add: cohort_candidate_def Let_def)
    show ?thesis
    proof (cases "n < k")
      case True
      with cs sets mem show ?thesis unfolding iff using False by auto
    next
      case no: False
      with cs show ?thesis unfolding iff using False by simp
    qed
  qed
  then show "cs = [] \<longleftrightarrow> \<not> (?s \<noteq> [] \<and> ?g \<noteq> [] \<and> (?m = [] \<or> (\<exists>m \<in> set ?m. opt_all (\<lambda>n. n < k) (at_minimum_group_size m))))"
    and "c \<in> set cs \<Longrightarrow> set (fst (snd c)) \<subseteq> at_atom_sha256 ` (set atoms \<union> set revealing)" by blast+
qed

lemma set_group_atoms: "set (group_atoms (of_release r atoms)) = {a \<in> set (group_atoms atoms). at_release_semantic_sha256 a = Some r}"
  by (auto simp: group_atoms_def set_of_release)

lemma set_minimum_atoms: "set (minimum_atoms (of_release r atoms)) = {a \<in> set (minimum_atoms atoms). at_release_semantic_sha256 a = Some r}"
  by (auto simp: minimum_atoms_def set_of_release)

lemma release_atoms_of_grouped:
  assumes "set revealing \<subseteq> set atoms" and "release \<in> set (releases_of revealing)"
  shows "(case map_of (by_release atoms) release of None \<Rightarrow> [] | Some as \<Rightarrow> as) = of_release release atoms"
proof -
  from assms have "release \<in> set (releases_of atoms)" by (auto simp: set_releases_of)
  then show ?thesis by (simp add: map_of_by_release)
qed

lemma small_cohort_sensitive_Inr:
  assumes "small_cohort_sensitive H state policy (by_release revealing) (by_release atoms) = Inr e"
    and "\<forall>m \<in> set (minimum_atoms atoms). at_minimum_group_size m \<noteq> None" and "set revealing \<subseteq> set atoms"
  shows "pe_predicate_id e = F3_SMALL_COHORT_SENSITIVE" "pe_state_sha256 e = ds_state_sha256 state"
    "pe_status e = (if small_cohort (fp_minimum_group_size policy) revealing atoms then STATUS_MATCHED else STATUS_CLEAR)"
    "set (pe_witness_atom_sha256s e) \<subseteq> at_atom_sha256 ` set atoms"
proof -
  let ?k = "fp_minimum_group_size policy"
  let ?f = "\<lambda>(release, own). cohort_candidate ?k release own
         (case map_of (by_release atoms) release of None \<Rightarrow> [] | Some as \<Rightarrow> as)"
  from assms(1) obtain found where f: "mapr ?f (by_release revealing) = Inr found"
    by (auto simp: small_cohort_sensitive_def)
  let ?cs = "concat found"
  have body: "?f (r, of_release r revealing) = cohort_candidate ?k r (of_release r revealing) (of_release r atoms)"
    if "r \<in> set (releases_of revealing)" for r
    using release_atoms_of_grouped [OF assms(3) that] by simp
  have mins: "\<forall>m \<in> set (minimum_atoms (of_release r atoms)). at_minimum_group_size m \<noteq> None" for r
    using assms(2) by (simp add: set_minimum_atoms)
  have found: "\<exists>r \<in> set (releases_of revealing). cohort_candidate ?k r (of_release r revealing) (of_release r atoms) = Inr y"
    if "y \<in> set found" for y
    using that mapr_set [OF f] body by (fastforce simp: by_release_def)
  have covers: "\<exists>y \<in> set found. cohort_candidate ?k r (of_release r revealing) (of_release r atoms) = Inr y"
    if r: "r \<in> set (releases_of revealing)" for r
  proof -
    have "(r, of_release r revealing) \<in> set (by_release revealing)" using r by (simp add: by_release_def)
    from list_all2_left [OF f [unfolded mapr_Inr_iff] this] obtain y where
      "y \<in> set found" "?f (r, of_release r revealing) = Inr y" by blast
    with body [OF r] show ?thesis by auto
  qed
  let ?bad = "\<lambda>r. with_category SENSITIVE_ATTRIBUTE (of_release r revealing) \<noteq> [] \<and> group_atoms (of_release r atoms) \<noteq> []
      \<and> (minimum_atoms (of_release r atoms) = [] \<or> (\<exists>m \<in> set (minimum_atoms (of_release r atoms)).
            opt_all (\<lambda>n. n < ?k) (at_minimum_group_size m)))"
  have "?cs = [] \<longleftrightarrow> (\<forall>r \<in> set (releases_of revealing). \<not> ?bad r)"
  proof
    assume cs: "?cs = []"
    show "\<forall>r \<in> set (releases_of revealing). \<not> ?bad r"
    proof
      fix r assume "r \<in> set (releases_of revealing)"
      from covers [OF this] obtain y where "y \<in> set found"
        and y: "cohort_candidate ?k r (of_release r revealing) (of_release r atoms) = Inr y" by blast
      with cs have "y = []" by simp
      with cohort_candidate_Inr(1) [OF y mins] show "\<not> ?bad r" by blast
    qed
  next
    assume clear: "\<forall>r \<in> set (releases_of revealing). \<not> ?bad r"
    have "y = []" if "y \<in> set found" for y
    proof -
      from found [OF that] obtain r where r: "r \<in> set (releases_of revealing)"
        and y: "cohort_candidate ?k r (of_release r revealing) (of_release r atoms) = Inr y" by blast
      with clear cohort_candidate_Inr(1) [OF y mins] show ?thesis by blast
    qed
    then show "?cs = []" by simp
  qed
  also have "\<dots> \<longleftrightarrow> \<not> small_cohort ?k revealing atoms"
  proof -
    have sens: "with_category SENSITIVE_ATTRIBUTE (of_release r revealing) \<noteq> [] \<longleftrightarrow>
        (\<exists>s \<in> set revealing. at_release_semantic_sha256 s = Some r \<and> at_category s = Some SENSITIVE_ATTRIBUTE)" for r
      unfolding Nil_iff_no_member set_with_category set_of_release by blast
    have grp: "group_atoms (of_release r atoms) \<noteq> [] \<longleftrightarrow>
        (\<exists>g \<in> set (group_atoms atoms). at_release_semantic_sha256 g = Some r)" for r
      unfolding Nil_iff_no_member set_group_atoms by blast
    have min: "minimum_atoms (of_release r atoms) = [] \<or> (\<exists>m \<in> set (minimum_atoms (of_release r atoms)).
          opt_all (\<lambda>n. n < ?k) (at_minimum_group_size m))
        \<longleftrightarrow> (\<forall>m \<in> set (minimum_atoms atoms). at_release_semantic_sha256 m = Some r \<longrightarrow>
             (\<exists>m' \<in> set (minimum_atoms atoms). at_release_semantic_sha256 m' = Some r
                \<and> opt_all (\<lambda>n. n < ?k) (at_minimum_group_size m')))" for r
      unfolding Nil_iff_no_member set_minimum_atoms by blast
    have "r \<in> set (releases_of revealing)" if "with_category SENSITIVE_ATTRIBUTE (of_release r revealing) \<noteq> []" for r
      using that unfolding sens set_releases_of by blast
    then have "(\<forall>r \<in> set (releases_of revealing). \<not> ?bad r) \<longleftrightarrow> (\<forall>r. \<not> ?bad r)" by blast
    then show ?thesis unfolding small_cohort_def sens grp min by (simp only: not_ex)
  qed
  finally have nil: "?cs = [] \<longleftrightarrow> \<not> small_cohort ?k revealing atoms" .
  have sub: "set (fst (snd c)) \<subseteq> at_atom_sha256 ` set atoms" if "c \<in> set ?cs" for c
  proof -
    from that obtain y where "y \<in> set found" "c \<in> set y" by auto
    with found obtain r where "cohort_candidate ?k r (of_release r revealing) (of_release r atoms) = Inr y" by blast
    from cohort_candidate_Inr(2) [OF this mins \<open>c \<in> set y\<close>]
    have "set (fst (snd c)) \<subseteq> at_atom_sha256 ` (set (of_release r atoms) \<union> set (of_release r revealing))" .
    also have "\<dots> \<subseteq> at_atom_sha256 ` set atoms" using assms(3) by (intro image_mono) (auto simp: set_of_release)
    finally show ?thesis .
  qed
  note result = matched_or_clear [where cs = ?cs and reason = "\<lambda>c. snd (snd c)"
      and witness = "\<lambda>c. fst (snd c)" and releases = "\<lambda>c. [fst c]" and key = cohort_candidate_key, OF _ sub]
  have "(if ?cs = [] then clear_evaluation H state F3_SMALL_COHORT_SENSITIVE
      else evaluation H state F3_SMALL_COHORT_SENSITIVE STATUS_MATCHED (snd (snd (arg_min_list cohort_candidate_key ?cs)))
      (fst (snd (arg_min_list cohort_candidate_key ?cs))) [fst (arg_min_list cohort_candidate_key ?cs)]) = Inr e"
    using assms(1) f by (cases "arg_min_list cohort_candidate_key ?cs") (simp add: small_cohort_sensitive_def Let_def cong: if_cong)
  from result [OF this] nil show "pe_predicate_id e = F3_SMALL_COHORT_SENSITIVE"
    "pe_state_sha256 e = ds_state_sha256 state"
    "pe_status e = (if small_cohort ?k revealing atoms then STATUS_MATCHED else STATUS_CLEAR)"
    "set (pe_witness_atom_sha256s e) \<subseteq> at_atom_sha256 ` set atoms" by simp_all
qed

text \<open>F5: a sensitive release observed over two warehouse snapshots. It depends on the pairs of
  release and snapshot only, not on the steps at which they were observed.\<close>

definition sensitive_pairs :: "temporal_path \<Rightarrow> (string \<times> string option) set" where
  "sensitive_pairs path = (\<lambda>t. (to_release_semantic_sha256 t, to_warehouse_snapshot_sha256 t)) ` set (relevant_observations path)"

definition differenced :: "temporal_path \<Rightarrow> bool" where
  "differenced path \<longleftrightarrow> (\<exists>p \<in> sensitive_pairs path. \<exists>q \<in> sensitive_pairs path. fst p = fst q \<and> snd p \<noteq> snd q)"

lemma differenced_iff:
  "differenced path \<longleftrightarrow> (\<exists>t \<in> set (relevant_observations path). \<exists>u \<in> set (relevant_observations path).
     to_release_semantic_sha256 t = to_release_semantic_sha256 u
     \<and> to_warehouse_snapshot_sha256 t \<noteq> to_warehouse_snapshot_sha256 u)"
  by (simp add: differenced_def sensitive_pairs_def)

lemma differencing_candidate_result:
  "\<exists>cs. differencing_candidate items release = Inr cs
     \<and> (cs = [] \<longleftrightarrow> \<not> (\<exists>t \<in> set items. \<exists>u \<in> set items. to_release_semantic_sha256 t = release
           \<and> to_release_semantic_sha256 u = release \<and> to_warehouse_snapshot_sha256 t \<noteq> to_warehouse_snapshot_sha256 u))
     \<and> (\<forall>c \<in> set cs. set (snd c) \<subseteq> to_observation_sha256 ` set items \<and> fst c = release \<and> card (set (snd c)) \<le> 2)"
proof -
  let ?own = "filter (\<lambda>t. to_release_semantic_sha256 t = release) items"
  let ?obs = "sort_key observation_key ?own"
  let ?snap = "to_warehouse_snapshot_sha256"
  have card: "card (?snap ` set ?own) < 2 \<longleftrightarrow> (\<forall>t \<in> set ?own. \<forall>u \<in> set ?own. ?snap t = ?snap u)"
  proof -
    have "card (?snap ` set ?own) < 2 \<longleftrightarrow> card (?snap ` set ?own) \<le> Suc 0" by auto
    also have "\<dots> \<longleftrightarrow> (\<forall>t \<in> set ?own. \<forall>u \<in> set ?own. ?snap t = ?snap u)"
      by (simp add: card_le_Suc0_iff_eq ball_simps)
    finally show ?thesis .
  qed
  show ?thesis
  proof (cases "card (?snap ` set ?own) < 2")
    case True
    then have "differencing_candidate items release = Inr []"
      unfolding differencing_candidate_def Let_def by (simp only: if_True)
    moreover from card True have same: "\<forall>t \<in> set ?own. \<forall>u \<in> set ?own. ?snap t = ?snap u" by (rule iffD1)
    have "\<not> (\<exists>t \<in> set items. \<exists>u \<in> set items. to_release_semantic_sha256 t = release
           \<and> to_release_semantic_sha256 u = release \<and> ?snap t \<noteq> ?snap u)"
    proof (intro notI, elim bexE conjE)
      fix t u assume "t \<in> set items" "u \<in> set items" "to_release_semantic_sha256 t = release"
        "to_release_semantic_sha256 u = release" "?snap t \<noteq> ?snap u"
      with same [rule_format, of t u] show False by simp
    qed
    ultimately show ?thesis by (intro exI [of _ "[]"] conjI) (simp_all only: list.set simp_thms ball_empty)
  next
    case False
    with card obtain t u where tu: "t \<in> set ?own" "u \<in> set ?own" "?snap t \<noteq> ?snap u" by blast
    have set_obs: "set ?obs = set ?own" by simp
    with tu(1) have "?obs \<noteq> []" by force
    then obtain first rest where obs: "?obs = first # rest" by (cases ?obs) auto
    have "\<exists>v \<in> set rest. ?snap v \<noteq> ?snap first"
    proof (rule ccontr)
      assume "\<not> ?thesis"
      then have "\<forall>v \<in> set ?obs. ?snap v = ?snap first" by (simp add: obs)
      with tu show False unfolding set_obs by metis
    qed
    then obtain second where second: "find (\<lambda>v. ?snap v \<noteq> ?snap first) rest = Some second"
      by (cases "find (\<lambda>v. ?snap v \<noteq> ?snap first) rest") (auto simp: find_None_iff)
    then have "second \<in> set rest" by (auto simp: find_Some_iff)
    with obs have mem: "first \<in> set ?own" "second \<in> set ?own" unfolding set_obs [symmetric] by simp_all
    have "differencing_candidate items release
        = Inr [(release, sorted_pair (to_observation_sha256 first) (to_observation_sha256 second))]"
      using False by (simp add: differencing_candidate_def Let_def obs second)
    moreover have "set (snd (release, sorted_pair (to_observation_sha256 first) (to_observation_sha256 second)))
        \<subseteq> to_observation_sha256 ` set items"
      using mem by (simp add: image_iff) blast
    moreover have "card {to_observation_sha256 first, to_observation_sha256 second} \<le> 2"
      by (cases "to_observation_sha256 first = to_observation_sha256 second") simp_all
    moreover have "\<exists>t \<in> set items. \<exists>u \<in> set items. to_release_semantic_sha256 t = release
           \<and> to_release_semantic_sha256 u = release \<and> ?snap t \<noteq> ?snap u"
      using tu by (intro bexI [of _ t] bexI [of _ u]) simp_all
    ultimately show ?thesis
      by (intro exI [of _ "[(release, sorted_pair (to_observation_sha256 first) (to_observation_sha256 second))]"]) simp
  qed
qed

lemma differencing_candidate_Inr:
  assumes "differencing_candidate items release = Inr cs"
  shows "cs = [] \<longleftrightarrow> \<not> (\<exists>t \<in> set items. \<exists>u \<in> set items. to_release_semantic_sha256 t = release
      \<and> to_release_semantic_sha256 u = release \<and> to_warehouse_snapshot_sha256 t \<noteq> to_warehouse_snapshot_sha256 u)"
    and "c \<in> set cs \<Longrightarrow> set (snd c) \<subseteq> to_observation_sha256 ` set items"
    and "c \<in> set cs \<Longrightarrow> fst c = release \<and> card (set (snd c)) \<le> 2"
proof -
  from differencing_candidate_result [of items release] obtain cs' where
    cs': "differencing_candidate items release = Inr cs'"
    "cs' = [] \<longleftrightarrow> \<not> (\<exists>t \<in> set items. \<exists>u \<in> set items. to_release_semantic_sha256 t = release
      \<and> to_release_semantic_sha256 u = release \<and> to_warehouse_snapshot_sha256 t \<noteq> to_warehouse_snapshot_sha256 u)"
    "\<forall>c \<in> set cs'. set (snd c) \<subseteq> to_observation_sha256 ` set items \<and> fst c = release \<and> card (set (snd c)) \<le> 2" by (elim exE conjE)
  from cs'(1) assms have eq: "cs = cs'" by simp
  show "cs = [] \<longleftrightarrow> \<not> (\<exists>t \<in> set items. \<exists>u \<in> set items. to_release_semantic_sha256 t = release
      \<and> to_release_semantic_sha256 u = release \<and> to_warehouse_snapshot_sha256 t \<noteq> to_warehouse_snapshot_sha256 u)"
    unfolding eq by (rule cs'(2))
  show "c \<in> set cs \<Longrightarrow> set (snd c) \<subseteq> to_observation_sha256 ` set items" unfolding eq using cs'(3) by blast
  show "c \<in> set cs \<Longrightarrow> fst c = release \<and> card (set (snd c)) \<le> 2" unfolding eq using cs'(3) by blast
qed

lemma temporal_differencing_Inr:
  assumes "temporal_differencing H state (Some path) = Inr e"
  shows "pe_predicate_id e = F5_TEMPORAL_DIFFERENCING" "pe_state_sha256 e = ds_state_sha256 state"
    "pe_status e = (if differenced path then STATUS_MATCHED else STATUS_CLEAR)"
    "set (pe_witness_atom_sha256s e) \<subseteq> to_observation_sha256 ` set (tp_observations path)"
proof -
  let ?items = "relevant_observations path"
  let ?rs = "map fst (dict_of (\<lambda>r. r) (map to_release_semantic_sha256 ?items))"
  from assms obtain found where f: "mapr (differencing_candidate ?items) ?rs = Inr found"
    by (auto simp: temporal_differencing_def Let_def)
  let ?cs = "concat found"
  have rs: "set ?rs = to_release_semantic_sha256 ` set ?items" by (simp add: image_image)
  let ?diff = "\<lambda>r. \<exists>t \<in> set ?items. \<exists>u \<in> set ?items. to_release_semantic_sha256 t = r
           \<and> to_release_semantic_sha256 u = r \<and> to_warehouse_snapshot_sha256 t \<noteq> to_warehouse_snapshot_sha256 u"
  have found: "\<exists>r \<in> set ?rs. differencing_candidate ?items r = Inr y" if "y \<in> set found" for y
    using that mapr_set [OF f] by blast
  have "?cs = [] \<longleftrightarrow> (\<forall>r \<in> set ?rs. \<not> ?diff r)"
  proof
    assume cs: "?cs = []"
    show "\<forall>r \<in> set ?rs. \<not> ?diff r"
    proof
      fix r assume "r \<in> set ?rs"
      from list_all2_left [OF f [unfolded mapr_Inr_iff] this] obtain y where
        y: "y \<in> set found" "differencing_candidate ?items r = Inr y" by blast
      with cs have "y = []" by simp
      with differencing_candidate_Inr(1) [OF y(2)] show "\<not> ?diff r" by blast
    qed
  next
    assume clear: "\<forall>r \<in> set ?rs. \<not> ?diff r"
    have "y = []" if "y \<in> set found" for y
    proof -
      from found [OF that] obtain r where r: "r \<in> set ?rs" "differencing_candidate ?items r = Inr y" by blast
      with clear differencing_candidate_Inr(1) [OF r(2)] show ?thesis by blast
    qed
    then show "?cs = []" by simp
  qed
  also have "\<dots> \<longleftrightarrow> \<not> differenced path"
  proof -
    have "?diff r \<Longrightarrow> r \<in> set ?rs" for r unfolding rs by blast
    then have "(\<forall>r \<in> set ?rs. \<not> ?diff r) \<longleftrightarrow> \<not> (\<exists>r. ?diff r)" by blast
    also have "(\<exists>r. ?diff r) \<longleftrightarrow> differenced path" unfolding differenced_iff
    proof (intro iffI; elim exE bexE conjE)
      fix r t u assume "t \<in> set ?items" "u \<in> set ?items" "to_release_semantic_sha256 t = r"
        "to_release_semantic_sha256 u = r" "to_warehouse_snapshot_sha256 t \<noteq> to_warehouse_snapshot_sha256 u"
      then show "\<exists>t \<in> set ?items. \<exists>u \<in> set ?items. to_release_semantic_sha256 t = to_release_semantic_sha256 u
          \<and> to_warehouse_snapshot_sha256 t \<noteq> to_warehouse_snapshot_sha256 u"
        by (intro bexI [of _ t] bexI [of _ u]) simp_all
    next
      fix t u assume "t \<in> set ?items" "u \<in> set ?items"
        "to_release_semantic_sha256 t = to_release_semantic_sha256 u"
        "to_warehouse_snapshot_sha256 t \<noteq> to_warehouse_snapshot_sha256 u"
      then show "\<exists>r. ?diff r" by (intro exI [of _ "to_release_semantic_sha256 u"] bexI [of _ t] bexI [of _ u]) simp_all
    qed
    finally show ?thesis .
  qed
  finally have nil: "?cs = [] \<longleftrightarrow> \<not> differenced path" .
  have sub: "set (snd c) \<subseteq> to_observation_sha256 ` set (tp_observations path)" if "c \<in> set ?cs" for c
  proof -
    from that obtain y where "y \<in> set found" "c \<in> set y" by auto
    with found obtain r where r: "differencing_candidate ?items r = Inr y" by blast
    have "set (snd c) \<subseteq> to_observation_sha256 ` set ?items"
      by (rule differencing_candidate_Inr(2) [OF r \<open>c \<in> set y\<close>])
    also have "\<dots> \<subseteq> to_observation_sha256 ` set (tp_observations path)"
      by (intro image_mono) (auto simp: relevant_observations_def)
    finally show ?thesis .
  qed
  note result = matched_or_clear [where cs = ?cs and reason = "\<lambda>_. SENSITIVE_REPLAY_ACROSS_SNAPSHOTS"
      and witness = snd and releases = "\<lambda>c. [fst c]" and key = "\<lambda>c. c", OF _ sub]
  have "(if ?cs = [] then clear_evaluation H state F5_TEMPORAL_DIFFERENCING
      else evaluation H state F5_TEMPORAL_DIFFERENCING STATUS_MATCHED SENSITIVE_REPLAY_ACROSS_SNAPSHOTS
      (snd (arg_min_list (\<lambda>c. c) ?cs)) [fst (arg_min_list (\<lambda>c. c) ?cs)]) = Inr e"
    using assms f by (cases "arg_min_list (\<lambda>c. c) ?cs") (simp add: temporal_differencing_def Let_def cong: if_cong)
  from result [OF this] nil show "pe_predicate_id e = F5_TEMPORAL_DIFFERENCING"
    "pe_state_sha256 e = ds_state_sha256 state"
    "pe_status e = (if differenced path then STATUS_MATCHED else STATUS_CLEAR)"
    "set (pe_witness_atom_sha256s e) \<subseteq> to_observation_sha256 ` set (tp_observations path)" by simp_all
qed

text \<open>F6.\<close>

definition governance_untrusted :: "disclosure_state \<Rightarrow> governance_binding option \<Rightarrow> bool" where
  "governance_untrusted state binding \<longleftrightarrow> \<not> (\<exists>b. binding = Some b \<and> gb_trusted b
     \<and> gb_governance_commitment_sha256 b = ds_governance_commitment_sha256 state)"

lemma untrusted_governance_Inr:
  assumes "untrusted_governance H state binding = Inr e"
  shows "pe_predicate_id e = F6_UNTRUSTED_GOVERNANCE_AUTHORIZATION" "pe_state_sha256 e = ds_state_sha256 state"
    "pe_status e = (if governance_untrusted state binding then STATUS_MATCHED else STATUS_CLEAR)"
    "pe_witness_atom_sha256s e = []"
proof -
  from assms obtain status reason where
    ev: "evaluation H state F6_UNTRUSTED_GOVERNANCE_AUTHORIZATION status reason [] [] = Inr e"
    and status: "status = (if governance_untrusted state binding then STATUS_MATCHED else STATUS_CLEAR)"
    by (cases binding) (auto simp: untrusted_governance_def Let_def governance_untrusted_def split: if_splits)
  from evaluation_Inr [OF ev] status show "pe_predicate_id e = F6_UNTRUSTED_GOVERNANCE_AUTHORIZATION"
    "pe_state_sha256 e = ds_state_sha256 state"
    "pe_status e = (if governance_untrusted state binding then STATUS_MATCHED else STATUS_CLEAR)"
    "pe_witness_atom_sha256s e = []" by simp_all
qed

section \<open>The evaluation\<close>

lemma forbidden_kinds:
  "output_atoms forbidden_linkable_kinds atoms = linkable_outputs atoms"
  "output_atoms forbidden_revealing_kinds atoms = revealing_outputs atoms"
  by (auto simp: output_atoms_def linkable_outputs_def revealing_outputs_def forbidden_linkable_kinds_def
      forbidden_revealing_kinds_def linkable_output_kinds_def revealing_output_kinds_def intro!: filter_cong)

text \<open>The abstract specification of the six predicates.\<close>

fun predicate_holds ::
    "disclosure_state \<Rightarrow> int \<Rightarrow> governance_binding option \<Rightarrow> temporal_path option \<Rightarrow> predicate_id \<Rightarrow> bool" where
  "predicate_holds s k b p F1_DIRECT_SENSITIVE_LINKAGE =
     same_release_linked (linkable_outputs (ds_released_atoms s)) DIRECT_IDENTIFIER"
| "predicate_holds s k b p F2_STABLE_LINKABLE_SENSITIVE =
     same_release_linked (linkable_outputs (ds_released_atoms s)) STABLE_PSEUDONYM"
| "predicate_holds s k b p F3_SMALL_COHORT_SENSITIVE =
     small_cohort k (revealing_outputs (ds_released_atoms s)) (ds_released_atoms s)"
| "predicate_holds s k b p F4_CROSS_RELEASE_COMPOSITION =
     cross_release_linked (linkable_outputs (ds_released_atoms s))"
| "predicate_holds s k b p F5_TEMPORAL_DIFFERENCING = (case p of None \<Rightarrow> False | Some path \<Rightarrow> differenced path)"
| "predicate_holds s k b p F6_UNTRUSTED_GOVERNANCE_AUTHORIZATION = governance_untrusted s b"

definition minimums_set :: "disclosure_state \<Rightarrow> bool" where
  "minimums_set s \<longleftrightarrow> (\<forall>m \<in> set (minimum_atoms (ds_released_atoms s)). at_minimum_group_size m \<noteq> None)"

lemma evaluate_predicates_Inr:
  assumes "evaluate_predicates H s policy binding path = Inr es" and "minimums_set s"
  shows "map pe_predicate_id es = all_predicates"
    and "e \<in> set es \<Longrightarrow> pe_state_sha256 e = ds_state_sha256 s"
    and "e \<in> set es \<Longrightarrow> pe_status e =
      (if predicate_holds s (fp_minimum_group_size policy) binding path (pe_predicate_id e) then STATUS_MATCHED
       else if pe_predicate_id e = F5_TEMPORAL_DIFFERENCING \<and> path = None then STATUS_INDETERMINATE else STATUS_CLEAR)"
    and "e \<in> set es \<Longrightarrow> pe_predicate_id e \<noteq> F5_TEMPORAL_DIFFERENCING \<Longrightarrow>
      set (pe_witness_atom_sha256s e) \<subseteq> at_atom_sha256 ` set (ds_released_atoms s)"
proof -
  let ?direct = "ds_released_atoms s"
  let ?link = "linkable_outputs ?direct" and ?rev = "revealing_outputs ?direct"
  from assms(1) obtain f1 f2 f3 f4 f5 f6 where
    f1: "same_release_linkage H s F1_DIRECT_SENSITIVE_LINKAGE DIRECT_IDENTIFIER
             DIRECT_AND_SENSITIVE_LINKABLE_SAME_RELEASE (by_release ?link) = Inr f1"
    and f2: "same_release_linkage H s F2_STABLE_LINKABLE_SENSITIVE STABLE_PSEUDONYM
             STABLE_AND_SENSITIVE_LINKABLE_SAME_RELEASE (by_release ?link) = Inr f2"
    and f3: "small_cohort_sensitive H s policy (by_release ?rev) (by_release ?direct) = Inr f3"
    and f4: "cross_release_composition H s ?link = Inr f4"
    and f5: "temporal_differencing H s path = Inr f5"
    and f6: "untrusted_governance H s binding = Inr f6"
    and es: "es = [f1, f2, f3, f4, f5, f6]"
    unfolding evaluate_predicates_def Let_def forbidden_kinds by auto
  have sub: "set ?rev \<subseteq> set ?direct" "set ?link \<subseteq> set ?direct"
    by (auto simp: revealing_outputs_def linkable_outputs_def)
  have mins: "\<forall>m \<in> set (minimum_atoms ?direct). at_minimum_group_size m \<noteq> None"
    using assms(2) by (simp add: minimums_set_def)
  have t: "pe_predicate_id f5 = F5_TEMPORAL_DIFFERENCING" "pe_state_sha256 f5 = ds_state_sha256 s"
    "pe_status f5 = (if predicate_holds s (fp_minimum_group_size policy) binding path F5_TEMPORAL_DIFFERENCING
       then STATUS_MATCHED else if path = None then STATUS_INDETERMINATE else STATUS_CLEAR)"
  proof -
    have "pe_predicate_id f5 = F5_TEMPORAL_DIFFERENCING \<and> pe_state_sha256 f5 = ds_state_sha256 s
      \<and> pe_status f5 = (if predicate_holds s (fp_minimum_group_size policy) binding path F5_TEMPORAL_DIFFERENCING
       then STATUS_MATCHED else if path = None then STATUS_INDETERMINATE else STATUS_CLEAR)"
    proof (cases path)
      case None
      with f5 have "evaluation H s F5_TEMPORAL_DIFFERENCING STATUS_INDETERMINATE TEMPORAL_PATH_CONTEXT_MISSING [] [] = Inr f5"
        by (simp add: temporal_differencing_def)
      from evaluation_Inr [OF this] None show ?thesis by simp
    next
      case (Some p)
      from temporal_differencing_Inr [OF f5 [unfolded Some]] Some show ?thesis by simp
    qed
    then show "pe_predicate_id f5 = F5_TEMPORAL_DIFFERENCING" "pe_state_sha256 f5 = ds_state_sha256 s"
      "pe_status f5 = (if predicate_holds s (fp_minimum_group_size policy) binding path F5_TEMPORAL_DIFFERENCING
       then STATUS_MATCHED else if path = None then STATUS_INDETERMINATE else STATUS_CLEAR)" by blast+
  qed
  note r = same_release_linkage_Inr [OF f1] same_release_linkage_Inr [OF f2]
    small_cohort_sensitive_Inr [OF f3 mins sub(1)] cross_release_composition_Inr [OF f4] t untrusted_governance_Inr [OF f6]
  show "map pe_predicate_id es = all_predicates" by (simp add: es r all_predicates_def)
  show "e \<in> set es \<Longrightarrow> pe_state_sha256 e = ds_state_sha256 s" by (auto simp: es r)
  show "e \<in> set es \<Longrightarrow> pe_status e =
      (if predicate_holds s (fp_minimum_group_size policy) binding path (pe_predicate_id e) then STATUS_MATCHED
       else if pe_predicate_id e = F5_TEMPORAL_DIFFERENCING \<and> path = None then STATUS_INDETERMINATE else STATUS_CLEAR)"
    unfolding es set_simps insert_iff empty_iff by (elim disjE) (simp_all add: r)
  show "e \<in> set es \<Longrightarrow> pe_predicate_id e \<noteq> F5_TEMPORAL_DIFFERENCING \<Longrightarrow>
      set (pe_witness_atom_sha256s e) \<subseteq> at_atom_sha256 ` set (ds_released_atoms s)"
    unfolding es set_simps insert_iff empty_iff
    using r(4,8,12,16,23) image_mono [OF sub(2), of at_atom_sha256] t(1) by (elim disjE) simp_all
qed

lemma evaluate_forbidden_Inr:
  assumes "evaluate_forbidden_state H s policy binding path = Inr e"
  obtains "evaluate_predicates H s policy binding path = Inr (se_predicates e)" "se_state_sha256 e = ds_state_sha256 s"
    "se_policy_sha256 e = fp_policy_sha256 policy" "se_governance_binding_sha256 e = map_option gb_binding_sha256 binding"
    "se_temporal_path_sha256 e = map_option tp_path_sha256 path"
    "se_matched_predicates e = with_status STATUS_MATCHED (se_predicates e)"
    "se_indeterminate_predicates e = with_status STATUS_INDETERMINATE (se_predicates e)"
    "se_forbidden e = (se_matched_predicates e \<noteq> [])"
proof -
  from assms obtain es where es: "evaluate_predicates H s policy binding path = Inr es"
    by (auto simp: evaluate_forbidden_state_def)
  let ?p = "\<lparr>se_state_sha256 = ds_state_sha256 s, se_policy_sha256 = fp_policy_sha256 policy,
             se_governance_binding_sha256 = map_option gb_binding_sha256 binding,
             se_temporal_path_sha256 = map_option tp_path_sha256 path, se_predicates = es,
             se_matched_predicates = with_status STATUS_MATCHED es,
             se_indeterminate_predicates = with_status STATUS_INDETERMINATE es,
             se_forbidden = (with_status STATUS_MATCHED es \<noteq> []), se_evaluation_sha256 = zero_sha256\<rparr>"
  from assms es have e: "e = ?p\<lparr>se_evaluation_sha256 := compute_state_evaluation_sha256 H ?p\<rparr>"
    by (simp add: evaluate_forbidden_state_def Let_def validate_state_evaluation_def)
  show thesis by (rule that) (simp_all add: e es)
qed

lemma with_status_filter:
  assumes "\<And>e. e \<in> set es \<Longrightarrow> pe_status e = status \<longleftrightarrow> P (pe_predicate_id e)"
  shows "with_status status es = filter P (map pe_predicate_id es)"
  using assms by (induction es) (simp_all add: with_status_def)

lemma evaluate_summary:
  assumes "evaluate_forbidden_state H s policy binding path = Inr e" and "minimums_set s"
  shows "se_matched_predicates e = filter (predicate_holds s (fp_minimum_group_size policy) binding path) all_predicates"
    and "se_indeterminate_predicates e = (if path = None then [F5_TEMPORAL_DIFFERENCING] else [])"
    and "se_forbidden e \<longleftrightarrow> (\<exists>p. predicate_holds s (fp_minimum_group_size policy) binding path p)"
proof -
  let ?P = "predicate_holds s (fp_minimum_group_size policy) binding path"
  from assms(1) have es: "evaluate_predicates H s policy binding path = Inr (se_predicates e)"
    and m: "se_matched_predicates e = with_status STATUS_MATCHED (se_predicates e)"
    and i: "se_indeterminate_predicates e = with_status STATUS_INDETERMINATE (se_predicates e)"
    and f: "se_forbidden e = (se_matched_predicates e \<noteq> [])" by (rule evaluate_forbidden_Inr, simp)+
  note r = evaluate_predicates_Inr [OF es assms(2)]
  have "with_status STATUS_MATCHED (se_predicates e) = filter ?P (map pe_predicate_id (se_predicates e))"
    by (rule with_status_filter) (simp add: r(3))
  with r(1) m show matched: "se_matched_predicates e = filter ?P all_predicates" by simp
  have "with_status STATUS_INDETERMINATE (se_predicates e)
      = filter (\<lambda>p. \<not> ?P p \<and> p = F5_TEMPORAL_DIFFERENCING \<and> path = None) (map pe_predicate_id (se_predicates e))"
    by (rule with_status_filter) (simp add: r(3))
  with r(1) i show "se_indeterminate_predicates e = (if path = None then [F5_TEMPORAL_DIFFERENCING] else [])"
    by (simp add: all_predicates_def)
  have "p \<in> set all_predicates" for p by (cases p) (simp_all add: all_predicates_def)
  with f matched show "se_forbidden e \<longleftrightarrow> (\<exists>p. ?P p)" by (auto simp: filter_empty_conv)
qed

section \<open>When the evaluation raises\<close>

lemma evaluation_total:
  assumes "hex_digest H" and "is_sha256 (ds_state_sha256 state)"
    and "(status = STATUS_CLEAR) = (reason = REASON_CLEAR)" and "status = STATUS_CLEAR \<Longrightarrow> atoms = [] \<and> releases = []"
    and "\<forall>x \<in> set atoms. is_sha256 x" and "card (set atoms) \<le> 16"
    and "\<forall>x \<in> set releases. is_sha256 x" and "card (set releases) \<le> 8"
  shows "\<exists>e. evaluation H state pid status reason atoms releases = Inr e"
proof -
  have len: "length (sorted_set xs) = card (set xs)" for xs :: "string list"
    using distinct_card [OF distinct_sorted_set, of xs] by simp
  show ?thesis
  proof (cases "status = STATUS_CLEAR")
    case True
    with assms show ?thesis
      by (simp add: evaluation_def Let_def validate_predicate_evaluation_def len_between_def
          compute_predicate_evaluation_sha256_def predicate_fields_json_def hex_digest_sha256 [OF assms(1)])
  next
    case False
    with assms show ?thesis
      by (simp add: evaluation_def Let_def validate_predicate_evaluation_def len_between_def len list_all_iff
          compute_predicate_evaluation_sha256_def predicate_fields_json_def hex_digest_sha256 [OF assms(1)])
  qed
qed

lemma clear_evaluation_total:
  "hex_digest H \<Longrightarrow> is_sha256 (ds_state_sha256 state) \<Longrightarrow> \<exists>e. clear_evaluation H state pid = Inr e"
  by (rule evaluation_total) simp_all

lemma matched_or_clear_total:
  assumes "hex_digest H" and "is_sha256 (ds_state_sha256 state)"
    and "\<And>c. c \<in> set cs \<Longrightarrow> reason c \<noteq> REASON_CLEAR \<and> (\<forall>x \<in> set (witness c). is_sha256 x) \<and> card (set (witness c)) \<le> 16
      \<and> (\<forall>x \<in> set (releases c). is_sha256 x) \<and> card (set (releases c)) \<le> 8"
  shows "\<exists>e. (if cs = [] then clear_evaluation H state pid
      else evaluation H state pid STATUS_MATCHED (reason (arg_min_list key cs)) (witness (arg_min_list key cs))
             (releases (arg_min_list key cs))) = Inr e"
proof (cases "cs = []")
  case True
  with clear_evaluation_total [OF assms(1,2)] show ?thesis by simp
next
  case False
  from assms(3) [OF arg_min_list_mem [OF False, of key]]
  have "\<exists>e. evaluation H state pid STATUS_MATCHED (reason (arg_min_list key cs)) (witness (arg_min_list key cs))
             (releases (arg_min_list key cs)) = Inr e"
    by (intro evaluation_total [OF assms(1,2)]) simp_all
  with False show ?thesis by simp
qed

lemma card_pair_le: "card {x, y} \<le> 16" "card {x, y} \<le> 8"
  by (cases "x = y"; simp)+

text \<open>What pydantic checked when an atom was built.\<close>

definition valid_atoms :: "(string \<Rightarrow> string) \<Rightarrow> disclosure_atom list \<Rightarrow> bool" where
  "valid_atoms H atoms \<longleftrightarrow> (\<forall>a \<in> set atoms. validate_atom H a = Inr a)"

lemma flagged_names: "x \<in> set (map fst (filter snd xs)) \<longleftrightarrow> (x, True) \<in> set xs"
  by force

lemma valid_atomD:
  assumes "validate_atom H a = Inr a"
  shows "is_sha256 (at_atom_sha256 a)" "at_release_semantic_sha256 a = Some r \<Longrightarrow> is_sha256 r"
    "at_kind a = MINIMUM_GROUP_SIZE \<Longrightarrow> at_minimum_group_size a \<noteq> None"
    "at_kind a = COLUMN_EXPOSURE \<Longrightarrow> at_release_semantic_sha256 a \<noteq> None"
proof -
  have shape: "set (fst (snd (atom_shape a))) \<subseteq> set (populated a)"
    and hash: "is_sha256 (at_atom_sha256 a)" and rel: "opt_all is_sha256 (at_release_semantic_sha256 a)"
    using assms by (auto simp: validate_atom_def atom_checks_def)
  show "is_sha256 (at_atom_sha256 a)" by (rule hash)
  show "at_release_semantic_sha256 a = Some r \<Longrightarrow> is_sha256 r" using rel by simp
  assume "at_kind a = MINIMUM_GROUP_SIZE"
  with shape have "''minimum_group_size'' \<in> set (populated a)" by (simp add: atom_shape_def)
  then show "at_minimum_group_size a \<noteq> None"
    unfolding populated_def flagged_names by simp
next
  assume kind: "at_kind a = COLUMN_EXPOSURE"
  have "set (fst (snd (atom_shape a))) \<subseteq> set (populated a)"
    using assms by (simp add: validate_atom_def atom_checks_def)
  with kind have "''release_semantic_sha256'' \<in> set (populated a)"
    by (simp add: atom_shape_def Let_def split: if_splits)
  then show "at_release_semantic_sha256 a \<noteq> None"
    unfolding populated_def flagged_names by simp
qed

lemma valid_atoms_minimums: "valid_atoms H (ds_released_atoms s) \<Longrightarrow> minimums_set s"
  by (auto simp: valid_atoms_def minimums_set_def minimum_atoms_def dest: valid_atomD(3))

lemma same_release_linkage_total:
  assumes "hex_digest H" "is_sha256 (ds_state_sha256 state)" "valid_atoms H atoms" "reason \<noteq> REASON_CLEAR"
  shows "\<exists>e. same_release_linkage H state pid category reason (by_release atoms) = Inr e"
proof -
  let ?cs = "linkage_candidates category (by_release atoms)"
  have "\<exists>e. (if ?cs = [] then clear_evaluation H state pid else evaluation H state pid STATUS_MATCHED reason
      (fst (arg_min_list (\<lambda>c. c) ?cs)) [snd (arg_min_list (\<lambda>c. c) ?cs)]) = Inr e"
  proof (rule matched_or_clear_total [OF assms(1,2), where reason = "\<lambda>_. reason" and witness = fst and releases = "\<lambda>c. [snd c]"])
    fix c assume c: "c \<in> set ?cs"
    obtain w r where wr: "c = (w, r)" by (cases c)
    with c have "(w, r) \<in> set ?cs" by (simp only:)
    then obtain i s where "i \<in> set atoms" "s \<in> set atoms" "at_release_semantic_sha256 i = Some r"
      "w = sorted_pair (at_atom_sha256 i) (at_atom_sha256 s)" unfolding linkage_candidates_set by blast
    with assms(3) show "reason \<noteq> REASON_CLEAR \<and> (\<forall>x \<in> set (fst c). is_sha256 x) \<and> card (set (fst c)) \<le> 16
      \<and> (\<forall>x \<in> set [snd c]. is_sha256 x) \<and> card (set [snd c]) \<le> 8"
      using assms(4) card_pair_le by (auto simp: wr valid_atoms_def dest: valid_atomD)
  qed
  then show ?thesis by (cases "arg_min_list (\<lambda>c. c) ?cs") (simp add: same_release_linkage_def Let_def cong: if_cong)
qed

lemma cross_release_composition_total:
  assumes "hex_digest H" "is_sha256 (ds_state_sha256 state)" "valid_atoms H atoms" "\<forall>a \<in> set atoms. at_kind a = COLUMN_EXPOSURE"
  shows "\<exists>e. cross_release_composition H state atoms = Inr e"
proof -
  let ?ids = "filter (\<lambda>a. at_category a \<in> Some ` set forbidden_identifier_categories) atoms"
  let ?pairs = "List.product ?ids (with_category SENSITIVE_ATTRIBUTE atoms)"
  have valid: "validate_atom H a = Inr a" if "a \<in> set atoms" for a using assms(3) that by (simp add: valid_atoms_def)
  have rel: "\<exists>r. at_release_semantic_sha256 a = Some r \<and> is_sha256 r" if "a \<in> set atoms" for a
    using valid_atomD(2,4) [OF valid [OF that]] assms(4) that by blast
  have mem: "i \<in> set atoms \<and> s \<in> set atoms" if "(i, s) \<in> set ?pairs" for i s
    using that by (auto simp: set_with_category)
  have pair: "\<exists>y. cross_pair i s = Inr y \<and> (\<forall>c \<in> set y. \<exists>ri rs. is_sha256 ri \<and> is_sha256 rs
      \<and> c = (sorted_pair (at_atom_sha256 i) (at_atom_sha256 s), sorted_pair ri rs))" if "(i, s) \<in> set ?pairs" for i s
  proof (cases "at_release_semantic_sha256 i = at_release_semantic_sha256 s")
    case True
    then show ?thesis by (simp add: cross_pair_def)
  next
    case False
    from rel mem [OF that] obtain ri rs where "at_release_semantic_sha256 i = Some ri" "is_sha256 ri"
      "at_release_semantic_sha256 s = Some rs" "is_sha256 rs" by blast
    with False show ?thesis by (auto simp: cross_pair_def)
  qed
  have "\<exists>found. mapr (\<lambda>(i, s). cross_pair i s) ?pairs = Inr found"
  proof (rule mapr_total)
    fix p assume p: "p \<in> set ?pairs"
    obtain i s where "p = (i, s)" by (cases p)
    with pair [of i s] p show "\<exists>y. (\<lambda>(i, s). cross_pair i s) p = Inr y" by (simp only: prod.case) blast
  qed
  then obtain found where f: "mapr (\<lambda>(i, s). cross_pair i s) ?pairs = Inr found" by blast
  let ?cs = "concat found"
  have "\<exists>e. (if ?cs = [] then clear_evaluation H state F4_CROSS_RELEASE_COMPOSITION
      else evaluation H state F4_CROSS_RELEASE_COMPOSITION STATUS_MATCHED IDENTIFIER_AND_SENSITIVE_ACROSS_RELEASES
      (fst (arg_min_list (\<lambda>c. c) ?cs)) (snd (arg_min_list (\<lambda>c. c) ?cs))) = Inr e"
  proof (rule matched_or_clear_total [OF assms(1,2), where reason = "\<lambda>_. IDENTIFIER_AND_SENSITIVE_ACROSS_RELEASES"
        and witness = fst and releases = snd])
    fix c assume "c \<in> set ?cs"
    then obtain y where y: "y \<in> set found" "c \<in> set y" by auto
    with mapr_set [OF f] obtain i s where p: "(i, s) \<in> set ?pairs" "cross_pair i s = Inr y" by force
    from pair [OF p(1)] p(2) y(2) obtain ri rs where "is_sha256 ri" "is_sha256 rs"
      "c = (sorted_pair (at_atom_sha256 i) (at_atom_sha256 s), sorted_pair ri rs)" by auto
    with mem [OF p(1)] valid show "IDENTIFIER_AND_SENSITIVE_ACROSS_RELEASES \<noteq> REASON_CLEAR
      \<and> (\<forall>x \<in> set (fst c). is_sha256 x) \<and> card (set (fst c)) \<le> 16
      \<and> (\<forall>x \<in> set (snd c). is_sha256 x) \<and> card (set (snd c)) \<le> 8"
      using card_pair_le by (auto dest: valid_atomD(1))
  qed
  then show ?thesis using f
    by (cases "arg_min_list (\<lambda>c. c) ?cs") (simp add: cross_release_composition_def Let_def cong: if_cong)
qed

lemma cohort_candidate_total:
  assumes "valid_atoms H atoms" "valid_atoms H revealing" "is_sha256 release"
    and "\<forall>a \<in> set revealing. at_kind a = COLUMN_EXPOSURE" "set revealing \<subseteq> set atoms"
    and "card (at_atom_sha256 ` {a \<in> set atoms. at_kind a = COLUMN_EXPOSURE}) \<le> 15"
  shows "\<exists>cs. cohort_candidate k release revealing atoms = Inr cs \<and> (\<forall>c \<in> set cs. snd (snd c) \<noteq> REASON_CLEAR
      \<and> (\<forall>x \<in> set (fst (snd c)). is_sha256 x) \<and> card (set (fst (snd c))) \<le> 16 \<and> fst c = release)"
proof -
  let ?s = "with_category SENSITIVE_ATTRIBUTE revealing" and ?g = "group_atoms atoms" and ?m = "minimum_atoms atoms"
  let ?base = "sorted_set (map at_atom_sha256 ?g @ map at_atom_sha256 ?s)"
  have mem: "set ?g \<union> set ?s \<subseteq> {a \<in> set atoms. at_kind a = COLUMN_EXPOSURE}"
    using assms(4,5) by (auto simp: group_atoms_def with_category_def)
  have base: "set ?base \<subseteq> at_atom_sha256 ` {a \<in> set atoms. at_kind a = COLUMN_EXPOSURE}"
    using mem by auto
  then have card: "card (set ?base) \<le> 15" using card_mono [OF _ base] assms(6) by fastforce
  have sha: "is_sha256 x" if "x \<in> set ?base" for x
    using that base assms(1) by (auto simp: valid_atoms_def dest!: subsetD valid_atomD(1))
  have mins: "at_minimum_group_size m \<noteq> None \<and> is_sha256 (at_atom_sha256 m)" if "m \<in> set ?m" for m
  proof -
    from that assms(1) have "at_kind m = MINIMUM_GROUP_SIZE" "validate_atom H m = Inr m"
      by (auto simp: minimum_atoms_def valid_atoms_def)
    with valid_atomD(1,3) show ?thesis by blast
  qed
  consider "?s = [] \<or> ?g = []" | "?s \<noteq> []" "?g \<noteq> []" "?m = []" | "?s \<noteq> []" "?g \<noteq> []" "?m \<noteq> []" by blast
  then show ?thesis
  proof cases
    case 1
    then show ?thesis by (auto simp: cohort_candidate_def Let_def)
  next
    case 2
    then have "cohort_candidate k release revealing atoms = Inr [(release, ?base, SENSITIVE_GROUP_MINIMUM_MISSING)]"
      by (simp add: cohort_candidate_def Let_def)
    moreover have "\<forall>x \<in> set ?base. is_sha256 x" "card (set ?base) \<le> 16" using sha card by (blast, linarith)
    ultimately show ?thesis by simp
  next
    case 3
    let ?min = "arg_min_list minimum_key ?m"
    from mins [OF arg_min_list_mem [OF 3(3), of minimum_key]] obtain n where
      n: "at_minimum_group_size ?min = Some n" "is_sha256 (at_atom_sha256 ?min)" by blast
    let ?w = "sort (?base @ [at_atom_sha256 ?min])"
    have "card (set ?w) \<le> Suc (card (set ?base))" by (simp add: card_insert_le_m1)
    with card have w: "card (set ?w) \<le> 16" by simp
    have "\<forall>x \<in> set ?w. is_sha256 x" using sha n(2) by auto
    moreover have "cohort_candidate k release revealing atoms
        = Inr (if n < k then [(release, ?w, SENSITIVE_GROUP_BELOW_MINIMUM)] else [])"
      using 3 n by (simp add: cohort_candidate_def Let_def)
    ultimately show ?thesis using w by simp
  qed
qed

lemma valid_of_release: "valid_atoms H atoms \<Longrightarrow> valid_atoms H (of_release r atoms)"
  by (simp add: valid_atoms_def set_of_release)

definition small_releases :: "disclosure_atom list \<Rightarrow> bool" where
  "small_releases atoms \<longleftrightarrow> (\<forall>r \<in> set (releases_of atoms).
     card (at_atom_sha256 ` {a \<in> set atoms. at_release_semantic_sha256 a = Some r \<and> at_kind a = COLUMN_EXPOSURE}) \<le> 15)"

lemma small_cohort_sensitive_total:
  assumes "hex_digest H" "is_sha256 (ds_state_sha256 state)" "valid_atoms H atoms"
    and "\<forall>a \<in> set revealing. at_kind a = COLUMN_EXPOSURE" "set revealing \<subseteq> set atoms" "small_releases atoms"
  shows "\<exists>e. small_cohort_sensitive H state policy (by_release revealing) (by_release atoms) = Inr e"
proof -
  let ?k = "fp_minimum_group_size policy"
  let ?f = "\<lambda>(release, own). cohort_candidate ?k release own
         (case map_of (by_release atoms) release of None \<Rightarrow> [] | Some as \<Rightarrow> as)"
  let ?good = "\<lambda>c. snd (snd c) \<noteq> REASON_CLEAR \<and> (\<forall>x \<in> set (fst (snd c)). is_sha256 x)
      \<and> card (set (fst (snd c))) \<le> 16 \<and> is_sha256 (fst c)"
  have valid_rev: "valid_atoms H revealing" using assms(3,5) by (auto simp: valid_atoms_def)
  have each: "\<exists>cs. ?f p = Inr cs \<and> (\<forall>c \<in> set cs. ?good c)" if p: "p \<in> set (by_release revealing)" for p
  proof -
    from p obtain r where r: "r \<in> set (releases_of revealing)" "p = (r, of_release r revealing)"
      by (auto simp: by_release_def)
    then obtain a where a: "a \<in> set revealing" "at_release_semantic_sha256 a = Some r" by (auto simp: set_releases_of)
    with valid_rev have sha: "is_sha256 r" by (auto simp: valid_atoms_def dest: valid_atomD(2))
    from a assms(5) have "r \<in> set (releases_of atoms)" by (auto simp: set_releases_of)
    with assms(6) have card: "card (at_atom_sha256 ` {a \<in> set (of_release r atoms). at_kind a = COLUMN_EXPOSURE}) \<le> 15"
      by (simp add: small_releases_def set_of_release)
    have "\<exists>cs. cohort_candidate ?k r (of_release r revealing) (of_release r atoms) = Inr cs
      \<and> (\<forall>c \<in> set cs. snd (snd c) \<noteq> REASON_CLEAR \<and> (\<forall>x \<in> set (fst (snd c)). is_sha256 x)
          \<and> card (set (fst (snd c))) \<le> 16 \<and> fst c = r)"
      by (rule cohort_candidate_total [OF valid_of_release [OF assms(3)] valid_of_release [OF valid_rev] sha _ _ card])
        (use assms(4,5) in \<open>auto simp: set_of_release\<close>)
    then show ?thesis using sha release_atoms_of_grouped [OF assms(5) r(1)] r(2) by auto
  qed
  have "\<exists>found. mapr ?f (by_release revealing) = Inr found" by (rule mapr_total) (use each in blast)
  then obtain found where f: "mapr ?f (by_release revealing) = Inr found" by blast
  let ?cs = "concat found"
  have "\<exists>e. (if ?cs = [] then clear_evaluation H state F3_SMALL_COHORT_SENSITIVE
      else evaluation H state F3_SMALL_COHORT_SENSITIVE STATUS_MATCHED (snd (snd (arg_min_list cohort_candidate_key ?cs)))
      (fst (snd (arg_min_list cohort_candidate_key ?cs))) [fst (arg_min_list cohort_candidate_key ?cs)]) = Inr e"
  proof (rule matched_or_clear_total [OF assms(1,2), where reason = "\<lambda>c. snd (snd c)" and witness = "\<lambda>c. fst (snd c)"
        and releases = "\<lambda>c. [fst c]"])
    fix c assume "c \<in> set ?cs"
    then obtain y where y: "y \<in> set found" "c \<in> set y" by auto
    with mapr_set [OF f] obtain p where "p \<in> set (by_release revealing)" "?f p = Inr y" by blast
    with each [of p] y(2) have "?good c" by auto
    then show "snd (snd c) \<noteq> REASON_CLEAR \<and> (\<forall>x \<in> set (fst (snd c)). is_sha256 x) \<and> card (set (fst (snd c))) \<le> 16
      \<and> (\<forall>x \<in> set [fst c]. is_sha256 x) \<and> card (set [fst c]) \<le> 8" by simp
  qed
  then show ?thesis using f
    by (cases "arg_min_list cohort_candidate_key ?cs") (simp add: small_cohort_sensitive_def Let_def cong: if_cong)
qed

definition valid_path :: "(string \<Rightarrow> string) \<Rightarrow> temporal_path \<Rightarrow> bool" where
  "valid_path H p \<longleftrightarrow> validate_path H p = Inr p \<and> (\<forall>t \<in> set (tp_observations p). validate_observation H t = Inr t)"

lemma temporal_differencing_total:
  assumes "hex_digest H" "is_sha256 (ds_state_sha256 state)" "\<And>p. path = Some p \<Longrightarrow> valid_path H p"
  shows "\<exists>e. temporal_differencing H state path = Inr e"
proof (cases path)
  case None
  have "\<exists>e. evaluation H state F5_TEMPORAL_DIFFERENCING STATUS_INDETERMINATE TEMPORAL_PATH_CONTEXT_MISSING [] [] = Inr e"
    by (rule evaluation_total [OF assms(1,2)]) simp_all
  with None show ?thesis by (simp add: temporal_differencing_def)
next
  case (Some p)
  let ?items = "relevant_observations p"
  let ?rs = "map fst (dict_of (\<lambda>r. r) (map to_release_semantic_sha256 ?items))"
  have item: "is_sha256 (to_release_semantic_sha256 t) \<and> is_sha256 (to_observation_sha256 t)" if "t \<in> set ?items" for t
    using that assms(3) [OF Some] by (auto simp: relevant_observations_def valid_path_def validate_observation_def)
  have "\<exists>found. mapr (differencing_candidate ?items) ?rs = Inr found"
    by (rule mapr_total) (use differencing_candidate_result in blast)
  then obtain found where f: "mapr (differencing_candidate ?items) ?rs = Inr found" by blast
  let ?cs = "concat found"
  have "\<exists>e. (if ?cs = [] then clear_evaluation H state F5_TEMPORAL_DIFFERENCING
      else evaluation H state F5_TEMPORAL_DIFFERENCING STATUS_MATCHED SENSITIVE_REPLAY_ACROSS_SNAPSHOTS
      (snd (arg_min_list (\<lambda>c. c) ?cs)) [fst (arg_min_list (\<lambda>c. c) ?cs)]) = Inr e"
  proof (rule matched_or_clear_total [OF assms(1,2), where reason = "\<lambda>_. SENSITIVE_REPLAY_ACROSS_SNAPSHOTS"
        and witness = snd and releases = "\<lambda>c. [fst c]"])
    fix c assume "c \<in> set ?cs"
    then obtain y where y: "y \<in> set found" "c \<in> set y" by auto
    with mapr_set [OF f] obtain r where r: "r \<in> set ?rs" "differencing_candidate ?items r = Inr y" by blast
    have c: "fst c = r" "card (set (snd c)) \<le> 2" "set (snd c) \<subseteq> to_observation_sha256 ` set ?items"
      using differencing_candidate_Inr(2,3) [OF r(2) y(2)] by blast+
    from r(1) have "r \<in> to_release_semantic_sha256 ` set ?items" by (simp add: image_image)
    with c item show "SENSITIVE_REPLAY_ACROSS_SNAPSHOTS \<noteq> REASON_CLEAR \<and> (\<forall>x \<in> set (snd c). is_sha256 x)
      \<and> card (set (snd c)) \<le> 16 \<and> (\<forall>x \<in> set [fst c]. is_sha256 x) \<and> card (set [fst c]) \<le> 8" by auto
  qed
  then show ?thesis using f Some
    by (cases "arg_min_list (\<lambda>c. c) ?cs") (simp add: temporal_differencing_def Let_def cong: if_cong)
qed

lemma untrusted_governance_total:
  assumes "hex_digest H" "is_sha256 (ds_state_sha256 state)"
  shows "\<exists>e. untrusted_governance H state binding = Inr e"
proof -
  have matched: "\<exists>e. evaluation H state F6_UNTRUSTED_GOVERNANCE_AUTHORIZATION STATUS_MATCHED reason [] [] = Inr e"
    if "reason \<noteq> REASON_CLEAR" for reason
    using that by (intro evaluation_total [OF assms]) simp_all
  show ?thesis
    using matched clear_evaluation_total [OF assms] by (cases binding) (simp_all add: untrusted_governance_def Let_def)
qed

lemma evaluate_total:
  assumes "hex_digest H" "is_sha256 (ds_state_sha256 s)" "valid_atoms H (ds_released_atoms s)"
    and "small_releases (ds_released_atoms s)" "\<And>p. path = Some p \<Longrightarrow> valid_path H p"
    and "validate_forbidden_policy H policy = Inr policy"
    and "\<And>b. binding = Some b \<Longrightarrow> validate_governance_binding H b = Inr b"
  shows "\<exists>e. evaluate_forbidden_state H s policy binding path = Inr e"
proof -
  let ?direct = "ds_released_atoms s"
  have sub: "set (revealing_outputs ?direct) \<subseteq> set ?direct" "set (linkable_outputs ?direct) \<subseteq> set ?direct"
    by (auto simp: revealing_outputs_def linkable_outputs_def)
  have exposures: "\<forall>a \<in> set (revealing_outputs ?direct). at_kind a = COLUMN_EXPOSURE"
    "\<forall>a \<in> set (linkable_outputs ?direct). at_kind a = COLUMN_EXPOSURE"
    by (auto simp: revealing_outputs_def linkable_outputs_def)
  have link: "valid_atoms H (linkable_outputs ?direct)" using assms(3) sub(2) by (auto simp: valid_atoms_def)
  obtain f5 where f5: "temporal_differencing H s path = Inr f5"
    using temporal_differencing_total [OF assms(1,2,5)] by blast
  obtain f1 where f1: "same_release_linkage H s F1_DIRECT_SENSITIVE_LINKAGE DIRECT_IDENTIFIER
      DIRECT_AND_SENSITIVE_LINKABLE_SAME_RELEASE (by_release (linkable_outputs ?direct)) = Inr f1"
    using same_release_linkage_total [OF assms(1,2) link, of DIRECT_AND_SENSITIVE_LINKABLE_SAME_RELEASE] by blast
  obtain f2 where f2: "same_release_linkage H s F2_STABLE_LINKABLE_SENSITIVE STABLE_PSEUDONYM
      STABLE_AND_SENSITIVE_LINKABLE_SAME_RELEASE (by_release (linkable_outputs ?direct)) = Inr f2"
    using same_release_linkage_total [OF assms(1,2) link, of STABLE_AND_SENSITIVE_LINKABLE_SAME_RELEASE] by blast
  obtain f3 where f3: "small_cohort_sensitive H s policy (by_release (revealing_outputs ?direct)) (by_release ?direct) = Inr f3"
    using small_cohort_sensitive_total [OF assms(1-3) exposures(1) sub(1) assms(4)] by blast
  obtain f4 where f4: "cross_release_composition H s (linkable_outputs ?direct) = Inr f4"
    using cross_release_composition_total [OF assms(1,2) link exposures(2)] by blast
  obtain f6 where f6: "untrusted_governance H s binding = Inr f6"
    using untrusted_governance_total [OF assms(1,2)] by blast
  have es: "evaluate_predicates H s policy binding path = Inr [f1, f2, f3, f4, f5, f6]"
    unfolding evaluate_predicates_def Let_def forbidden_kinds by (simp add: f1 f2 f3 f4 f5 f6)
  note r = evaluate_predicates_Inr [OF es valid_atoms_minimums [OF assms(3)]]
  have "is_sha256 (fp_policy_sha256 policy)" using assms(6) by (auto simp: validate_forbidden_policy_def)
  moreover have "opt_all is_sha256 (map_option gb_binding_sha256 binding)"
    using assms(7) by (cases binding) (auto simp: validate_governance_binding_def)
  moreover have "opt_all is_sha256 (map_option tp_path_sha256 path)"
    using assms(5) by (cases path) (auto simp: valid_path_def validate_path_def)
  ultimately show ?thesis using assms(2) r(1,2)
    by (simp add: evaluate_forbidden_state_def Let_def es validate_state_evaluation_def list_ex_iff
        compute_state_evaluation_sha256_def hex_digest_sha256 [OF assms(1)])
qed

end
