(* ===== verification/Trace.thy ===== *)
theory Trace
  imports Forbidden
begin

text \<open>
  The counterexample traces of \<open>src/toxicjoin/prospective/trace.py\<close>: one step per transition,
  chained by state commitments, and the trace that ends in a matched forbidden predicate. The
  hashes cover every other field.
\<close>

section \<open>Steps\<close>

record trace_step =
  cs_step_index :: int
  cs_pre_state_sha256 :: string
  cs_action_sha256 :: string
  cs_local_oracle_commitment_sha256 :: string
  cs_post_state_sha256 :: string
  cs_step_sha256 :: string

definition step_fields_json :: "trace_step \<Rightarrow> (string \<times> json) list" where
  "step_fields_json s =
     [(''schema_version'', JStr ''1.0''), (''step_index'', JInt (cs_step_index s)),
      (''pre_state_sha256'', JStr (cs_pre_state_sha256 s)), (''action_sha256'', JStr (cs_action_sha256 s)),
      (''local_oracle_commitment_sha256'', JStr (cs_local_oracle_commitment_sha256 s)),
      (''post_state_sha256'', JStr (cs_post_state_sha256 s))]"

definition compute_counterexample_step_sha256 :: "(string \<Rightarrow> string) \<Rightarrow> trace_step \<Rightarrow> string" where
  "compute_counterexample_step_sha256 H s = canonical_json_sha256 H (JObj (step_fields_json s))"

definition step_json :: "trace_step \<Rightarrow> json" where
  "step_json s = JObj (step_fields_json s @ [(''step_sha256'', JStr (cs_step_sha256 s))])"

definition validate_counterexample_step :: "(string \<Rightarrow> string) \<Rightarrow> trace_step \<Rightarrow> trace_step result" where
  "validate_counterexample_step H s = raise_first
     [(\<not> (0 \<le> cs_step_index s \<and> cs_step_index s \<le> 4), ValidationError ''step_index range''),
      (\<not> is_sha256 (cs_pre_state_sha256 s), ValidationError ''pre_state_sha256 pattern''),
      (\<not> is_sha256 (cs_action_sha256 s), ValidationError ''action_sha256 pattern''),
      (\<not> is_sha256 (cs_local_oracle_commitment_sha256 s), ValidationError ''local_oracle_commitment_sha256 pattern''),
      (\<not> is_sha256 (cs_post_state_sha256 s), ValidationError ''post_state_sha256 pattern''),
      (\<not> is_sha256 (cs_step_sha256 s), ValidationError ''step_sha256 pattern''),
      (cs_step_sha256 s \<noteq> compute_counterexample_step_sha256 H s,
         ValidationError ''counterexample step hash mismatch'')] s"

definition build_counterexample_step ::
    "(string \<Rightarrow> string) \<Rightarrow> int \<Rightarrow> string \<Rightarrow> string \<Rightarrow> string \<Rightarrow> string \<Rightarrow> trace_step result" where
  "build_counterexample_step H index pre action commitment post =
     (let provisional = \<lparr>cs_step_index = index, cs_pre_state_sha256 = pre, cs_action_sha256 = action,
            cs_local_oracle_commitment_sha256 = commitment, cs_post_state_sha256 = post,
            cs_step_sha256 = zero_sha256\<rparr>
      in validate_counterexample_step H
           (provisional\<lparr>cs_step_sha256 := compute_counterexample_step_sha256 H provisional\<rparr>))"

section \<open>Traces\<close>

record counterexample_trace =
  ct_bound :: int
  ct_initial_state_sha256 :: string
  ct_grammar_sha256 :: string
  ct_steps :: "trace_step list"
  ct_terminal_state_sha256 :: string
  ct_terminal_forbidden_evaluation_sha256 :: string
  ct_terminal_matched_predicates :: "predicate_id list"
  ct_trace_sha256 :: string

definition canonical_predicates :: "predicate_id list \<Rightarrow> predicate_id list" where
  "canonical_predicates ps = filter (\<lambda>p. p \<in> set ps) all_predicates"

definition trace_fields_json :: "counterexample_trace \<Rightarrow> (string \<times> json) list" where
  "trace_fields_json t =
     [(''schema_version'', JStr ''1.0''), (''bound'', JInt (ct_bound t)),
      (''initial_state_sha256'', JStr (ct_initial_state_sha256 t)), (''grammar_sha256'', JStr (ct_grammar_sha256 t)),
      (''steps'', JArr (map step_json (ct_steps t))),
      (''terminal_state_sha256'', JStr (ct_terminal_state_sha256 t)),
      (''terminal_forbidden_evaluation_sha256'', JStr (ct_terminal_forbidden_evaluation_sha256 t)),
      (''terminal_matched_predicates'', predicates_json (ct_terminal_matched_predicates t))]"

definition compute_counterexample_trace_sha256 :: "(string \<Rightarrow> string) \<Rightarrow> counterexample_trace \<Rightarrow> string" where
  "compute_counterexample_trace_sha256 H t = canonical_json_sha256 H (JObj (trace_fields_json t))"

definition trace_json :: "counterexample_trace \<Rightarrow> json" where
  "trace_json t = JObj (trace_fields_json t @ [(''trace_sha256'', JStr (ct_trace_sha256 t))])"

text \<open>The loop over \<open>zip(steps, steps[1:])\<close>.\<close>

fun chain_broken :: "trace_step list \<Rightarrow> bool" where
  "chain_broken (previous # current # steps) \<longleftrightarrow>
     cs_post_state_sha256 previous \<noteq> cs_pre_state_sha256 current \<or> chain_broken (current # steps)"
| "chain_broken _ \<longleftrightarrow> False"

definition chain_checks :: "counterexample_trace \<Rightarrow> (bool \<times> error) list" where
  "chain_checks t =
     (if ct_steps t = []
      then [(ct_terminal_state_sha256 t \<noteq> ct_initial_state_sha256 t,
               ValidationError ''zero-step counterexample must terminate at initial state'')]
      else [(cs_pre_state_sha256 (hd (ct_steps t)) \<noteq> ct_initial_state_sha256 t,
               ValidationError ''counterexample first step does not start at initial state''),
            (chain_broken (ct_steps t), ValidationError ''counterexample state chain is broken''),
            (cs_post_state_sha256 (last (ct_steps t)) \<noteq> ct_terminal_state_sha256 t,
               ValidationError ''counterexample terminal state does not match final step'')])"

definition validate_trace :: "(string \<Rightarrow> string) \<Rightarrow> counterexample_trace \<Rightarrow> counterexample_trace result" where
  "validate_trace H t = raise_first
     ([(\<not> (0 \<le> ct_bound t \<and> ct_bound t \<le> 5), ValidationError ''bound range''),
       (\<not> is_sha256 (ct_initial_state_sha256 t), ValidationError ''initial_state_sha256 pattern''),
       (\<not> is_sha256 (ct_grammar_sha256 t), ValidationError ''grammar_sha256 pattern''),
       (\<not> len_between 0 5 (ct_steps t), ValidationError ''steps length''),
       (\<not> is_sha256 (ct_terminal_state_sha256 t), ValidationError ''terminal_state_sha256 pattern''),
       (\<not> is_sha256 (ct_terminal_forbidden_evaluation_sha256 t),
          ValidationError ''terminal_forbidden_evaluation_sha256 pattern''),
       (\<not> len_between 1 6 (ct_terminal_matched_predicates t), ValidationError ''terminal_matched_predicates length''),
       (\<not> is_sha256 (ct_trace_sha256 t), ValidationError ''trace_sha256 pattern''),
       (int (length (ct_steps t)) > ct_bound t, ValidationError ''counterexample trace exceeds declared bound''),
       (map cs_step_index (ct_steps t) \<noteq> map int [0..<length (ct_steps t)],
          ValidationError ''counterexample steps must use contiguous zero-based indices'')]
      @ chain_checks t
      @ [(ct_terminal_matched_predicates t \<noteq> canonical_predicates (ct_terminal_matched_predicates t),
            ValidationError ''counterexample matched predicates must be canonical and unique''),
         (ct_trace_sha256 t \<noteq> compute_counterexample_trace_sha256 H t,
            ValidationError ''counterexample trace hash mismatch'')]) t"

definition build_counterexample_trace ::
    "(string \<Rightarrow> string) \<Rightarrow> int \<Rightarrow> string \<Rightarrow> string \<Rightarrow> trace_step list \<Rightarrow> string \<Rightarrow> string \<Rightarrow> predicate_id list
      \<Rightarrow> counterexample_trace result" where
  "build_counterexample_trace H bound initial grammar steps terminal evaluation_sha matched =
     (let provisional = \<lparr>ct_bound = bound, ct_initial_state_sha256 = initial, ct_grammar_sha256 = grammar,
            ct_steps = steps, ct_terminal_state_sha256 = terminal,
            ct_terminal_forbidden_evaluation_sha256 = evaluation_sha,
            ct_terminal_matched_predicates = canonical_predicates matched, ct_trace_sha256 = zero_sha256\<rparr>
      in validate_trace H (provisional\<lparr>ct_trace_sha256 := compute_counterexample_trace_sha256 H provisional\<rparr>))"

section \<open>What the builders return\<close>

lemma build_step_Inr:
  assumes "build_counterexample_step H index pre action commitment post = Inr s"
  shows "cs_step_index s = index" "cs_pre_state_sha256 s = pre" "cs_action_sha256 s = action"
    "cs_local_oracle_commitment_sha256 s = commitment" "cs_post_state_sha256 s = post"
  using assms by (auto simp: build_counterexample_step_def Let_def validate_counterexample_step_def)

lemma build_step_returns:
  assumes "hex_digest H" and "0 \<le> index" "index \<le> 4" and "is_sha256 pre" "is_sha256 action" "is_sha256 commitment" "is_sha256 post"
  shows "\<exists>s. build_counterexample_step H index pre action commitment post = Inr s"
  using assms by (simp add: build_counterexample_step_def Let_def validate_counterexample_step_def
      compute_counterexample_step_sha256_def step_fields_json_def hex_digest_sha256)

lemma build_trace_Inr:
  assumes "build_counterexample_trace H bound initial grammar steps terminal sha matched = Inr t"
  shows "ct_bound t = bound" "ct_initial_state_sha256 t = initial" "ct_grammar_sha256 t = grammar" "ct_steps t = steps"
    "ct_terminal_state_sha256 t = terminal" "ct_terminal_forbidden_evaluation_sha256 t = sha"
    "ct_terminal_matched_predicates t = canonical_predicates matched"
  using assms by (auto simp: build_counterexample_trace_def Let_def validate_trace_def)

lemma canonical_predicates_idem [simp]: "canonical_predicates (canonical_predicates ps) = canonical_predicates ps"
  by (simp add: canonical_predicates_def cong: filter_cong)

text \<open>A list of steps that continues from \<open>pre\<close> to \<open>post\<close>, as the checks of a trace read it.\<close>

fun steps_link :: "string \<Rightarrow> trace_step list \<Rightarrow> string \<Rightarrow> bool" where
  "steps_link pre [] post \<longleftrightarrow> post = pre"
| "steps_link pre (s # steps) post \<longleftrightarrow> cs_pre_state_sha256 s = pre \<and> steps_link (cs_post_state_sha256 s) steps post"

lemma steps_link_append [simp]:
  "steps_link pre (steps @ [s]) post \<longleftrightarrow> steps_link pre steps (cs_pre_state_sha256 s) \<and> cs_post_state_sha256 s = post"
  by (induction steps arbitrary: pre) auto

lemma steps_link_chain:
  "steps_link pre steps post \<longleftrightarrow> (if steps = [] then post = pre
     else cs_pre_state_sha256 (hd steps) = pre \<and> \<not> chain_broken steps \<and> cs_post_state_sha256 (last steps) = post)"
proof (induction steps arbitrary: pre rule: chain_broken.induct)
  case (1 s c steps)
  have "steps_link pre (s # c # steps) post \<longleftrightarrow> cs_pre_state_sha256 s = pre \<and> steps_link (cs_post_state_sha256 s) (c # steps) post"
    by simp
  also have "\<dots> \<longleftrightarrow> cs_pre_state_sha256 s = pre \<and> cs_pre_state_sha256 c = cs_post_state_sha256 s
      \<and> \<not> chain_broken (c # steps) \<and> cs_post_state_sha256 (last (c # steps)) = post"
    unfolding 1 by simp
  finally show ?case by (simp only: chain_broken.simps list.sel last.simps list.distinct if_False) metis
qed auto

lemma build_trace_returns:
  assumes "hex_digest H" and "0 \<le> bound" "bound \<le> 5" and "is_sha256 initial" "is_sha256 grammar" "is_sha256 terminal" "is_sha256 sha"
    and "int (length steps) \<le> bound" "map cs_step_index steps = map int [0..<length steps]" "steps_link initial steps terminal"
    and "matched \<noteq> []" "set matched \<subseteq> set all_predicates"
  shows "\<exists>t. build_counterexample_trace H bound initial grammar steps terminal sha matched = Inr t"
proof -
  have "canonical_predicates matched \<noteq> []" using assms(11,12) by (auto simp: canonical_predicates_def filter_empty_conv neq_Nil_conv)
  moreover have "length (canonical_predicates matched) \<le> length all_predicates" by (simp add: canonical_predicates_def)
  ultimately have preds: "len_between 1 6 (canonical_predicates matched)"
    by (auto simp: len_between_def all_predicates_def Suc_le_eq)
  have len: "len_between 0 5 steps" using assms(3,8) by (simp add: len_between_def)
  let ?p = "\<lparr>ct_bound = bound, ct_initial_state_sha256 = initial, ct_grammar_sha256 = grammar,
            ct_steps = steps, ct_terminal_state_sha256 = terminal, ct_terminal_forbidden_evaluation_sha256 = sha,
            ct_terminal_matched_predicates = canonical_predicates matched, ct_trace_sha256 = zero_sha256\<rparr>"
  let ?t = "?p\<lparr>ct_trace_sha256 := compute_counterexample_trace_sha256 H ?p\<rparr>"
  have chain: "raise_first (chain_checks ?t) x = Inr x" for x :: 'a
    using assms(10) by (auto simp: chain_checks_def steps_link_chain split: if_splits)
  have sha: "compute_counterexample_trace_sha256 H ?t = ct_trace_sha256 ?t"
    by (simp add: compute_counterexample_trace_sha256_def trace_fields_json_def)
  have digest: "is_sha256 (ct_trace_sha256 ?t)"
    using assms(1) by (simp add: compute_counterexample_trace_sha256_def hex_digest_sha256)
  have "validate_trace H ?t = Inr ?t"
    unfolding validate_trace_def raise_first_append chain sha using digest preds len assms(2-9)
    by (simp del: raise_first_Inr)
  then show ?thesis by (auto simp: build_counterexample_trace_def Let_def)
qed

end
