(* ===== verification/Ppmc_Models.thy ===== *)
theory Ppmc_Models
  imports Trace
begin

text \<open>
  The models of \<open>src/toxicjoin/prospective/ppmc_models.py\<close>: the search limits, the decision of
  the local admissibility oracle, and the result of a search with the consistency rules its
  validator enforces between status, failure reason, counters and artifacts.
\<close>

datatype ppmc_status = PROSPECTIVE_UNSAFE | NO_COUNTEREXAMPLE_WITHIN_BOUND | FAIL_CLOSED

fun ppmc_status_value :: "ppmc_status \<Rightarrow> string" where
  "ppmc_status_value PROSPECTIVE_UNSAFE = ''PROSPECTIVE_UNSAFE''"
| "ppmc_status_value NO_COUNTEREXAMPLE_WITHIN_BOUND = ''NO_COUNTEREXAMPLE_WITHIN_BOUND''"
| "ppmc_status_value FAIL_CLOSED = ''FAIL_CLOSED''"

datatype ppmc_failure =
    INDETERMINATE_SECURITY_PREDICATE
  | STATE_BUDGET_EXHAUSTED
  | LOCAL_ORACLE_FAILURE
  | TRANSITION_FAILURE
  | PREDICATE_EVALUATION_FAILURE

fun ppmc_failure_value :: "ppmc_failure \<Rightarrow> string" where
  "ppmc_failure_value INDETERMINATE_SECURITY_PREDICATE = ''INDETERMINATE_SECURITY_PREDICATE''"
| "ppmc_failure_value STATE_BUDGET_EXHAUSTED = ''STATE_BUDGET_EXHAUSTED''"
| "ppmc_failure_value LOCAL_ORACLE_FAILURE = ''LOCAL_ORACLE_FAILURE''"
| "ppmc_failure_value TRANSITION_FAILURE = ''TRANSITION_FAILURE''"
| "ppmc_failure_value PREDICATE_EVALUATION_FAILURE = ''PREDICATE_EVALUATION_FAILURE''"

section \<open>Search limits\<close>

record search_config =
  pc_bound :: int
  pc_max_states :: int
  pc_config_sha256 :: string

definition compute_ppmc_config_sha256 :: "(string \<Rightarrow> string) \<Rightarrow> search_config \<Rightarrow> string" where
  "compute_ppmc_config_sha256 H c = canonical_json_sha256 H (JObj
     [(''schema_version'', JStr ''1.0''), (''checker_version'', JStr ''0.1.0''),
      (''bound'', JInt (pc_bound c)), (''max_states'', JInt (pc_max_states c))])"

definition validate_config :: "(string \<Rightarrow> string) \<Rightarrow> search_config \<Rightarrow> search_config result" where
  "validate_config H c = raise_first
     [(\<not> (0 \<le> pc_bound c \<and> pc_bound c \<le> 5), ValidationError ''bound range''),
      (\<not> (1 \<le> pc_max_states c \<and> pc_max_states c \<le> 50000), ValidationError ''max_states range''),
      (\<not> is_sha256 (pc_config_sha256 c), ValidationError ''config_sha256 pattern''),
      (pc_config_sha256 c \<noteq> compute_ppmc_config_sha256 H c, ValidationError ''PPMC search config hash mismatch'')] c"

definition build_ppmc_search_config :: "(string \<Rightarrow> string) \<Rightarrow> int \<Rightarrow> int \<Rightarrow> search_config result" where
  "build_ppmc_search_config H bound max_states =
     (let provisional = \<lparr>pc_bound = bound, pc_max_states = max_states, pc_config_sha256 = zero_sha256\<rparr>
      in validate_config H (provisional\<lparr>pc_config_sha256 := compute_ppmc_config_sha256 H provisional\<rparr>))"

section \<open>Decisions of the local oracle\<close>

record oracle_decision =
  od_oracle_version :: string
  od_state_sha256 :: string
  od_action_sha256 :: string
  od_admissible :: bool
  od_reason_codes :: "string list"
  od_decision_sha256 :: string

definition compute_local_oracle_decision_sha256 :: "(string \<Rightarrow> string) \<Rightarrow> oracle_decision \<Rightarrow> string" where
  "compute_local_oracle_decision_sha256 H d = canonical_json_sha256 H (JObj
     [(''schema_version'', JStr ''1.0''), (''oracle_version'', JStr (od_oracle_version d)),
      (''state_sha256'', JStr (od_state_sha256 d)), (''action_sha256'', JStr (od_action_sha256 d)),
      (''admissible'', JBool (od_admissible d)), (''reason_codes'', jstrs (od_reason_codes d))])"

definition validate_decision :: "(string \<Rightarrow> string) \<Rightarrow> oracle_decision \<Rightarrow> oracle_decision result" where
  "validate_decision H d = raise_first
     [(\<not> len_between 1 128 (od_oracle_version d), ValidationError ''oracle_version length''),
      (\<not> is_sha256 (od_state_sha256 d), ValidationError ''state_sha256 pattern''),
      (\<not> is_sha256 (od_action_sha256 d), ValidationError ''action_sha256 pattern''),
      (\<not> len_between 0 16 (od_reason_codes d), ValidationError ''reason_codes length''),
      (\<not> is_sha256 (od_decision_sha256 d), ValidationError ''decision_sha256 pattern''),
      (\<not> canonical (od_reason_codes d), ValidationError ''local oracle reason codes must be sorted and unique''),
      (list_ex (\<lambda>v. v = [] \<or> 128 < length v) (od_reason_codes d),
         ValidationError ''local oracle reason codes must be bounded non-empty strings''),
      (od_decision_sha256 d \<noteq> compute_local_oracle_decision_sha256 H d,
         ValidationError ''local oracle decision hash mismatch'')] d"

definition build_local_oracle_decision ::
    "(string \<Rightarrow> string) \<Rightarrow> string \<Rightarrow> string \<Rightarrow> string \<Rightarrow> bool \<Rightarrow> string list \<Rightarrow> oracle_decision result" where
  "build_local_oracle_decision H version state_sha action_sha admissible reasons =
     (let provisional = \<lparr>od_oracle_version = version, od_state_sha256 = state_sha, od_action_sha256 = action_sha,
            od_admissible = admissible, od_reason_codes = sorted_set reasons, od_decision_sha256 = zero_sha256\<rparr>
      in validate_decision H (provisional\<lparr>od_decision_sha256 := compute_local_oracle_decision_sha256 H provisional\<rparr>))"

section \<open>Results\<close>

record ppmc_result =
  pr_status :: ppmc_status
  pr_failure_reason :: "ppmc_failure option"
  pr_initial_state_sha256 :: string
  pr_grammar_sha256 :: string
  pr_config_sha256 :: string
  pr_bound :: int
  pr_max_states :: int
  pr_forbidden_policy_sha256 :: string
  pr_governance_binding_sha256 :: "string option"
  pr_search_nodes_discovered :: int
  pr_nodes_expanded :: int
  pr_actions_considered :: int
  pr_transition_rejections :: int
  pr_oracle_rejections :: int
  pr_oracle_admissions :: int
  pr_indeterminate_predicates :: "predicate_id list"
  pr_terminal_forbidden_evaluation_sha256 :: "string option"
  pr_counterexample :: "counterexample_trace option"
  pr_search_transcript_sha256 :: string
  pr_result_sha256 :: string

definition result_fields_json :: "ppmc_result \<Rightarrow> (string \<times> json) list" where
  "result_fields_json r =
     [(''schema_version'', JStr ''1.0''), (''checker_version'', JStr ''0.1.0''),
      (''status'', JStr (ppmc_status_value (pr_status r))),
      (''failure_reason'', jopt (\<lambda>f. JStr (ppmc_failure_value f)) (pr_failure_reason r)),
      (''initial_state_sha256'', JStr (pr_initial_state_sha256 r)), (''grammar_sha256'', JStr (pr_grammar_sha256 r)),
      (''config_sha256'', JStr (pr_config_sha256 r)), (''bound'', JInt (pr_bound r)),
      (''max_states'', JInt (pr_max_states r)),
      (''forbidden_policy_sha256'', JStr (pr_forbidden_policy_sha256 r)),
      (''governance_binding_sha256'', jopt JStr (pr_governance_binding_sha256 r)),
      (''search_nodes_discovered'', JInt (pr_search_nodes_discovered r)),
      (''nodes_expanded'', JInt (pr_nodes_expanded r)), (''actions_considered'', JInt (pr_actions_considered r)),
      (''transition_rejections'', JInt (pr_transition_rejections r)),
      (''oracle_rejections'', JInt (pr_oracle_rejections r)), (''oracle_admissions'', JInt (pr_oracle_admissions r)),
      (''indeterminate_predicates'', predicates_json (pr_indeterminate_predicates r)),
      (''terminal_forbidden_evaluation_sha256'', jopt JStr (pr_terminal_forbidden_evaluation_sha256 r)),
      (''counterexample'', jopt trace_json (pr_counterexample r)),
      (''search_transcript_sha256'', JStr (pr_search_transcript_sha256 r))]"

definition compute_ppmc_result_sha256 :: "(string \<Rightarrow> string) \<Rightarrow> ppmc_result \<Rightarrow> string" where
  "compute_ppmc_result_sha256 H r = canonical_json_sha256 H (JObj (result_fields_json r))"

definition result_patterns :: "ppmc_result \<Rightarrow> (bool \<times> error) list" where
  "result_patterns r =
     [(\<not> is_sha256 (pr_initial_state_sha256 r), ValidationError ''initial_state_sha256 pattern''),
      (\<not> is_sha256 (pr_grammar_sha256 r), ValidationError ''grammar_sha256 pattern''),
      (\<not> is_sha256 (pr_config_sha256 r), ValidationError ''config_sha256 pattern''),
      (\<not> (0 \<le> pr_bound r \<and> pr_bound r \<le> 5), ValidationError ''bound range''),
      (\<not> (1 \<le> pr_max_states r \<and> pr_max_states r \<le> 50000), ValidationError ''max_states range''),
      (\<not> is_sha256 (pr_forbidden_policy_sha256 r), ValidationError ''forbidden_policy_sha256 pattern''),
      (\<not> opt_all is_sha256 (pr_governance_binding_sha256 r), ValidationError ''governance_binding_sha256 pattern''),
      (\<not> 1 \<le> pr_search_nodes_discovered r, ValidationError ''search_nodes_discovered range''),
      (\<not> 0 \<le> pr_nodes_expanded r, ValidationError ''nodes_expanded range''),
      (\<not> 0 \<le> pr_actions_considered r, ValidationError ''actions_considered range''),
      (\<not> 0 \<le> pr_transition_rejections r, ValidationError ''transition_rejections range''),
      (\<not> 0 \<le> pr_oracle_rejections r, ValidationError ''oracle_rejections range''),
      (\<not> 0 \<le> pr_oracle_admissions r, ValidationError ''oracle_admissions range''),
      (\<not> opt_all is_sha256 (pr_terminal_forbidden_evaluation_sha256 r),
         ValidationError ''terminal_forbidden_evaluation_sha256 pattern''),
      (\<not> is_sha256 (pr_search_transcript_sha256 r), ValidationError ''search_transcript_sha256 pattern''),
      (\<not> is_sha256 (pr_result_sha256 r), ValidationError ''result_sha256 pattern'')]"

definition result_counters :: "ppmc_result \<Rightarrow> (bool \<times> error) list" where
  "result_counters r =
     [(pr_indeterminate_predicates r \<noteq> canonical_predicates (pr_indeterminate_predicates r),
         ValidationError ''PPMC indeterminate predicates must be canonical and unique''),
      (\<not> opt_all (\<lambda>t. ct_bound t = pr_bound r) (pr_counterexample r),
         ValidationError ''PPMC counterexample bound does not match search result''),
      (pr_search_nodes_discovered r > pr_max_states r,
         ValidationError ''PPMC discovered search nodes exceed the configured budget''),
      (pr_nodes_expanded r > pr_search_nodes_discovered r,
         ValidationError ''PPMC expanded-node count exceeds discovered search nodes''),
      (pr_oracle_admissions r + pr_oracle_rejections r > pr_actions_considered r,
         ValidationError ''PPMC oracle counters exceed considered actions''),
      (pr_transition_rejections r > pr_actions_considered r,
         ValidationError ''PPMC transition rejection count exceeds considered actions'')]"

definition trace_commitments_differ :: "ppmc_result \<Rightarrow> counterexample_trace \<Rightarrow> bool" where
  "trace_commitments_differ r t \<longleftrightarrow> ct_initial_state_sha256 t \<noteq> pr_initial_state_sha256 r
     \<or> ct_grammar_sha256 t \<noteq> pr_grammar_sha256 r
     \<or> Some (ct_terminal_forbidden_evaluation_sha256 t) \<noteq> pr_terminal_forbidden_evaluation_sha256 r"

definition result_shape :: "ppmc_result \<Rightarrow> (bool \<times> error) list" where
  "result_shape r = (case pr_status r of
       PROSPECTIVE_UNSAFE \<Rightarrow>
         [(pr_failure_reason r \<noteq> None \<or> pr_counterexample r = None,
             ValidationError ''unsafe PPMC result requires exactly one counterexample''),
          (pr_indeterminate_predicates r \<noteq> [],
             ValidationError ''unsafe PPMC result must not summarize indeterminate predicates''),
          (pr_terminal_forbidden_evaluation_sha256 r = None,
             ValidationError ''unsafe PPMC result requires terminal forbidden evaluation''),
          (\<not> opt_all (\<lambda>t. \<not> trace_commitments_differ r t) (pr_counterexample r),
             ValidationError ''PPMC counterexample commitments do not match the search result'')]
     | NO_COUNTEREXAMPLE_WITHIN_BOUND \<Rightarrow>
         [(pr_failure_reason r \<noteq> None \<or> pr_counterexample r \<noteq> None \<or> pr_indeterminate_predicates r \<noteq> []
             \<or> pr_terminal_forbidden_evaluation_sha256 r \<noteq> None,
             ValidationError ''no-counterexample PPMC result cannot contain failure artifacts'')]
     | FAIL_CLOSED \<Rightarrow>
         (pr_failure_reason r = None \<or> pr_counterexample r \<noteq> None,
             ValidationError ''fail-closed PPMC result requires a failure reason and no trace'')
         # (if pr_failure_reason r = Some INDETERMINATE_SECURITY_PREDICATE
            then [(pr_indeterminate_predicates r = [],
                     ValidationError ''indeterminate PPMC failure requires predicate identifiers''),
                  (pr_terminal_forbidden_evaluation_sha256 r = None,
                     ValidationError ''indeterminate PPMC failure requires terminal evaluation'')]
            else [(pr_indeterminate_predicates r \<noteq> [],
                     ValidationError ''non-indeterminate PPMC failure cannot carry predicates''),
                  (pr_terminal_forbidden_evaluation_sha256 r \<noteq> None,
                     ValidationError ''non-indeterminate PPMC failure cannot carry terminal evaluation'')]))"

definition validate_ppmc_result :: "(string \<Rightarrow> string) \<Rightarrow> ppmc_result \<Rightarrow> ppmc_result result" where
  "validate_ppmc_result H r = raise_first (result_patterns r @ result_counters r @ result_shape r
     @ [(pr_result_sha256 r \<noteq> compute_ppmc_result_sha256 H r, ValidationError ''PPMC result hash mismatch'')]) r"

end
