(* ===== verification/Search.thy ===== *)
theory Search
  imports Grammar Ppmc_Models
begin

text \<open>
  The bounded breadth-first search of \<open>src/toxicjoin/prospective/ppmc_search.py\<close>. The local
  admissibility oracle is code of the caller: a function from a state and an action to the
  decision object it returned, \<open>None\<close> when it raised or returned something else. The queue, the
  set of seen keys, the counters and the transcript hash are the state of the search; the set is
  a list in insertion order, of which only membership and length are read.
\<close>

section \<open>Inputs, nodes and counters\<close>

type_synonym local_oracle = "disclosure_state \<Rightarrow> future_action \<Rightarrow> oracle_decision option"

record search_input =
  si_initial_state :: disclosure_state
  si_grammar :: action_grammar
  si_policy :: forbidden_policy
  si_binding :: "governance_binding option"
  si_oracle :: local_oracle
  si_config :: search_config

record search_node =
  sn_state :: disclosure_state
  sn_depth :: nat
  sn_steps :: "trace_step list"
  sn_temporal :: temporal_path

record search_counters =
  nc_discovered :: int
  nc_expanded :: int
  nc_considered :: int
  nc_transition_rejections :: int
  nc_oracle_rejections :: int
  nc_oracle_admissions :: int

record search_run =
  lp_queue :: "search_node list"
  lp_seen :: "(string \<times> string) list"
  lp_counters :: search_counters
  lp_transcript :: string

definition initial_counters :: search_counters where
  "initial_counters = \<lparr>nc_discovered = 1, nc_expanded = 0, nc_considered = 0, nc_transition_rejections = 0,
     nc_oracle_rejections = 0, nc_oracle_admissions = 0\<rparr>"

definition transcript_start :: "(string \<Rightarrow> string) \<Rightarrow> search_input \<Rightarrow> string" where
  "transcript_start H i = canonical_json_sha256 H (JObj
     [(''checker_version'', JStr ''0.1.0''),
      (''initial_state_sha256'', JStr (ds_state_sha256 (si_initial_state i))),
      (''grammar_sha256'', JStr (gm_grammar_sha256 (si_grammar i))),
      (''config_sha256'', JStr (pc_config_sha256 (si_config i)))])"

definition transcript_add :: "(string \<Rightarrow> string) \<Rightarrow> (string \<times> json) list \<Rightarrow> string \<Rightarrow> string" where
  "transcript_add H event sha = canonical_json_sha256 H (JObj
     [(''previous_sha256'', JStr sha), (''event'', JObj event)])"

definition log_event :: "(string \<Rightarrow> string) \<Rightarrow> (string \<times> json) list \<Rightarrow> search_run \<Rightarrow> search_run" where
  "log_event H event lp = lp\<lparr>lp_transcript := transcript_add H event (lp_transcript lp)\<rparr>"

definition tally :: "(search_counters \<Rightarrow> search_counters) \<Rightarrow> search_run \<Rightarrow> search_run" where
  "tally f lp = lp\<lparr>lp_counters := f (lp_counters lp)\<rparr>"

text \<open>The events written before an early return or a skipped child.\<close>

definition action_event :: "string \<Rightarrow> search_node \<Rightarrow> future_action \<Rightarrow> (string \<times> json) list" where
  "action_event event node a =
     [(''event'', JStr event), (''depth'', JInt (int (sn_depth node))),
      (''pre_state_sha256'', JStr (ds_state_sha256 (sn_state node))), (''action_sha256'', JStr (fa_action_sha256 a))]"

definition state_event :: "string \<Rightarrow> nat \<Rightarrow> disclosure_state \<Rightarrow> (string \<times> json) list" where
  "state_event event depth s =
     [(''event'', JStr event), (''depth'', JInt (int depth)), (''state_sha256'', JStr (ds_state_sha256 s))]"

definition evaluation_event :: "string \<Rightarrow> state_evaluation \<Rightarrow> nat \<Rightarrow> (string \<times> json) list" where
  "evaluation_event event e depth =
     [(''event'', JStr event), (''depth'', JInt (int depth)), (''state_sha256'', JStr (se_state_sha256 e)),
      (''evaluation_sha256'', JStr (se_evaluation_sha256 e)), (''forbidden'', JBool (se_forbidden e)),
      (''matched_predicates'', predicates_json (se_matched_predicates e)),
      (''indeterminate_predicates'', predicates_json (se_indeterminate_predicates e))]"

section \<open>Revalidation of the inputs\<close>

text \<open>\<open>model_validate\<close> of a dumped model validates every nested model again.\<close>

fun rethrow_invalid :: "'a result \<Rightarrow> 'a result" where
  "rethrow_invalid (Inl (ValidationError m)) = Inl (PpmcError ''PPMC trusted input failed canonical revalidation'')"
| "rethrow_invalid r = r"

lemma rethrow_invalid_Inr [simp]: "rethrow_invalid r = Inr x \<longleftrightarrow> r = Inr x"
  by (cases r rule: rethrow_invalid.cases) auto

definition revalidate_state :: "(string \<Rightarrow> string) \<Rightarrow> disclosure_state \<Rightarrow> disclosure_state result" where
  "revalidate_state H s =
     bindr (validate_scope H (ds_scope s)) (\<lambda>_.
     bindr (mapr (validate_atom H) (ds_released_atoms s @ ds_derived_atoms s)) (\<lambda>_. validate_state H s))"

definition revalidate_columns :: "governed_column list \<Rightarrow> unit result" where
  "revalidate_columns cs = raise_first (concat (map column_checks cs)) ()"

definition revalidate_context :: "(string \<Rightarrow> string) \<Rightarrow> grammar_context \<Rightarrow> grammar_context result" where
  "revalidate_context H c =
     bindr (validate_release H (cx_base_semantic c)) (\<lambda>_.
     bindr (validate_composition (cx_base_composition c)) (\<lambda>_.
     bindr (revalidate_columns (cx_relevant_projection_fields c @ cx_group_key_fields c)) (\<lambda>_.
     bindr (mapr validate_transition (cx_snapshot_transitions c)) (\<lambda>_. validate_context H c))))"

definition revalidate_action :: "(string \<Rightarrow> string) \<Rightarrow> future_action \<Rightarrow> future_action result" where
  "revalidate_action H a =
     bindr (case fa_semantic a of None \<Rightarrow> Inr () | Some s \<Rightarrow> bindr (validate_release H s) (\<lambda>_. Inr ())) (\<lambda>_.
     bindr (case fa_composition a of None \<Rightarrow> Inr () | Some k \<Rightarrow> bindr (validate_composition k) (\<lambda>_. Inr ())) (\<lambda>_.
       validate_action H a))"

definition revalidate_grammar :: "(string \<Rightarrow> string) \<Rightarrow> action_grammar \<Rightarrow> action_grammar result" where
  "revalidate_grammar H g =
     bindr (revalidate_context H (gm_context g)) (\<lambda>_.
     bindr (mapr (revalidate_action H) (gm_actions g)) (\<lambda>_. validate_grammar H g))"

definition revalidate_inputs :: "(string \<Rightarrow> string) \<Rightarrow> search_input \<Rightarrow> unit result" where
  "revalidate_inputs H i = rethrow_invalid (
     bindr (revalidate_state H (si_initial_state i)) (\<lambda>_.
     bindr (revalidate_grammar H (si_grammar i)) (\<lambda>_.
     bindr (validate_forbidden_policy H (si_policy i)) (\<lambda>_.
     bindr (validate_config H (si_config i)) (\<lambda>_.
       case si_binding i of None \<Rightarrow> Inr ()
       | Some b \<Rightarrow> bindr (validate_governance_binding H b) (\<lambda>_. Inr ()))))))"

section \<open>Oracle, temporal path, key and evaluation\<close>

definition invoke_local_oracle ::
    "(string \<Rightarrow> string) \<Rightarrow> local_oracle \<Rightarrow> disclosure_state \<Rightarrow> future_action \<Rightarrow> oracle_decision option" where
  "invoke_local_oracle H oracle s a = (case oracle s a of
       None \<Rightarrow> None
     | Some decision \<Rightarrow> (case validate_decision H decision of
           Inl _ \<Rightarrow> None
         | Inr validated \<Rightarrow>
             if od_state_sha256 validated \<noteq> ds_state_sha256 s then None
             else if od_action_sha256 validated \<noteq> fa_action_sha256 a then None
             else Some validated))"

definition semantic_is_sensitive :: "semantic_release \<Rightarrow> bool" where
  "semantic_is_sensitive s \<longleftrightarrow>
     list_ex (\<lambda>out. list_ex (\<lambda>c. gc_category c = SENSITIVE_ATTRIBUTE) (so_sources out)) (sr_outputs s)"

definition historical_sensitive :: "disclosure_state \<Rightarrow> action_grammar \<Rightarrow> bool" where
  "historical_sensitive s g \<longleftrightarrow> list_ex (\<lambda>a.
       at_atom_sha256 a \<notin> set (cx_base_release_atom_sha256s (gm_context g)) \<and> at_kind a = COLUMN_EXPOSURE
       \<and> at_column_role a = Some ROLE_OUTPUT \<and> at_category a = Some SENSITIVE_ATTRIBUTE) (ds_released_atoms s)"

definition initial_temporal_path ::
    "(string \<Rightarrow> string) \<Rightarrow> disclosure_state \<Rightarrow> action_grammar \<Rightarrow> temporal_path option result" where
  "initial_temporal_path H s g =
     (let semantic = cx_base_semantic (gm_context g) in
      if historical_sensitive s g then Inr None
      else if \<not> semantic_is_sensitive semantic
      then bindr (build_temporal_path_context H []) (\<lambda>path. Inr (Some path))
      else case ds_warehouse_snapshot_sha256 s of
          None \<Rightarrow> Inr None
        | Some snapshot \<Rightarrow>
            bindr (build_temporal_release_observation H 0 (sr_semantic_sha256 semantic) (Some snapshot) True)
              (\<lambda>observation. bindr (build_temporal_path_context H [observation]) (\<lambda>path. Inr (Some path))))"

definition extend_temporal_path ::
    "(string \<Rightarrow> string) \<Rightarrow> temporal_path \<Rightarrow> future_action \<Rightarrow> disclosure_state \<Rightarrow> nat \<Rightarrow> temporal_path option result" where
  "extend_temporal_path H path a post step =
     (if fa_kind a = SNAPSHOT_ADVANCE then Inr (Some path)
      else case fa_semantic a of
          None \<Rightarrow> Inl (AssertionError '''')
        | Some semantic \<Rightarrow>
            if \<not> semantic_is_sensitive semantic then Inr (Some path)
            else (case ds_warehouse_snapshot_sha256 post of
                None \<Rightarrow> Inr None
              | Some snapshot \<Rightarrow>
                  bindr (build_temporal_release_observation H (int step) (sr_semantic_sha256 semantic) (Some snapshot) True)
                    (\<lambda>observation. bindr (build_temporal_path_context H (tp_observations path @ [observation]))
                      (\<lambda>path'. Inr (Some path')))))"

definition signature_pairs :: "temporal_path \<Rightarrow> (string \<times> string) list" where
  "signature_pairs path = sorted_set (map (\<lambda>t. (to_release_semantic_sha256 t, the (to_warehouse_snapshot_sha256 t)))
     (relevant_observations path))"

definition search_node_key :: "(string \<Rightarrow> string) \<Rightarrow> disclosure_state \<Rightarrow> temporal_path \<Rightarrow> string \<times> string" where
  "search_node_key H s path = (ds_state_sha256 s, canonical_json_sha256 H (JObj
     [(''schema_version'', JStr ''1.0''),
      (''sensitive_release_snapshot_pairs'', JArr (map (\<lambda>(r, w). JArr [JStr r, JStr w]) (signature_pairs path)))]))"

definition evaluate_state ::
    "(string \<Rightarrow> string) \<Rightarrow> search_input \<Rightarrow> disclosure_state \<Rightarrow> temporal_path option \<Rightarrow> state_evaluation result" where
  "evaluate_state H i s path = (case evaluate_forbidden_state H s (si_policy i) (si_binding i) path of
       Inl _ \<Rightarrow> Inl (PpmcError ''forbidden-state evaluation failed'')
     | Inr e \<Rightarrow> Inr e)"

section \<open>Results\<close>

definition search_result ::
    "(string \<Rightarrow> string) \<Rightarrow> search_input \<Rightarrow> search_run \<Rightarrow> ppmc_status \<Rightarrow> ppmc_failure option
      \<Rightarrow> state_evaluation option \<Rightarrow> predicate_id list \<Rightarrow> counterexample_trace option \<Rightarrow> ppmc_result result" where
  "search_result H i lp status failure terminal indeterminate counterexample =
     (let c = lp_counters lp;
          provisional = \<lparr>pr_status = status, pr_failure_reason = failure,
            pr_initial_state_sha256 = ds_state_sha256 (si_initial_state i),
            pr_grammar_sha256 = gm_grammar_sha256 (si_grammar i), pr_config_sha256 = pc_config_sha256 (si_config i),
            pr_bound = pc_bound (si_config i), pr_max_states = pc_max_states (si_config i),
            pr_forbidden_policy_sha256 = fp_policy_sha256 (si_policy i),
            pr_governance_binding_sha256 = map_option gb_binding_sha256 (si_binding i),
            pr_search_nodes_discovered = nc_discovered c, pr_nodes_expanded = nc_expanded c,
            pr_actions_considered = nc_considered c, pr_transition_rejections = nc_transition_rejections c,
            pr_oracle_rejections = nc_oracle_rejections c, pr_oracle_admissions = nc_oracle_admissions c,
            pr_indeterminate_predicates = indeterminate,
            pr_terminal_forbidden_evaluation_sha256 = map_option se_evaluation_sha256 terminal,
            pr_counterexample = counterexample, pr_search_transcript_sha256 = lp_transcript lp,
            pr_result_sha256 = zero_sha256\<rparr>
      in validate_ppmc_result H (provisional\<lparr>pr_result_sha256 := compute_ppmc_result_sha256 H provisional\<rparr>))"

definition fail_closed ::
    "(string \<Rightarrow> string) \<Rightarrow> search_input \<Rightarrow> search_run \<Rightarrow> ppmc_failure \<Rightarrow> ppmc_result result" where
  "fail_closed H i lp failure = search_result H i lp FAIL_CLOSED (Some failure) None [] None"

definition indeterminate_result ::
    "(string \<Rightarrow> string) \<Rightarrow> search_input \<Rightarrow> search_run \<Rightarrow> state_evaluation \<Rightarrow> ppmc_result result" where
  "indeterminate_result H i lp e = search_result H i lp FAIL_CLOSED (Some INDETERMINATE_SECURITY_PREDICATE) (Some e)
     (se_indeterminate_predicates e) None"

definition unsafe_result ::
    "(string \<Rightarrow> string) \<Rightarrow> search_input \<Rightarrow> search_run \<Rightarrow> trace_step list \<Rightarrow> disclosure_state \<Rightarrow> state_evaluation
      \<Rightarrow> ppmc_result result" where
  "unsafe_result H i lp steps terminal e =
     bindr (build_counterexample_trace H (pc_bound (si_config i)) (ds_state_sha256 (si_initial_state i))
         (gm_grammar_sha256 (si_grammar i)) steps (ds_state_sha256 terminal) (se_evaluation_sha256 e)
         (se_matched_predicates e))
       (\<lambda>trace. search_result H i lp PROSPECTIVE_UNSAFE None (Some e) [] (Some trace))"

definition safe_result :: "(string \<Rightarrow> string) \<Rightarrow> search_input \<Rightarrow> search_run \<Rightarrow> ppmc_result result" where
  "safe_result H i lp = search_result H i lp NO_COUNTEREXAMPLE_WITHIN_BOUND None None [] None"

section \<open>The search\<close>

text \<open>The body of the loops either goes on with a new search state or returns.\<close>

datatype progress = Continue search_run | Return ppmc_result

definition returning :: "ppmc_result result \<Rightarrow> progress result" where
  "returning r = bindr r (\<lambda>x. Inr (Return x))"

text \<open>A child whose temporal provenance is missing ends the search either way.\<close>

definition conclude_untimed ::
    "(string \<Rightarrow> string) \<Rightarrow> search_input \<Rightarrow> disclosure_state \<Rightarrow> nat \<Rightarrow> trace_step list \<Rightarrow> search_run \<Rightarrow> progress result" where
  "conclude_untimed H i post depth steps lp = returning (case evaluate_state H i post None of
       Inl _ \<Rightarrow> fail_closed H i (log_event H (state_event ''PREDICATE_EVALUATION_FAILURE'' depth post) lp)
                 PREDICATE_EVALUATION_FAILURE
     | Inr e \<Rightarrow> (let lp' = log_event H (evaluation_event ''STATE_EVALUATION'' e depth) lp in
         if se_forbidden e then unsafe_result H i lp' steps post e else indeterminate_result H i lp' e))"

definition visit_child ::
    "(string \<Rightarrow> string) \<Rightarrow> search_input \<Rightarrow> search_node \<Rightarrow> search_run \<Rightarrow> progress result" where
  "visit_child H i child lp =
     (let post = sn_state child; depth = sn_depth child; key = search_node_key H post (sn_temporal child) in
      if key \<in> set (lp_seen lp)
      then Inr (Continue (log_event H (state_event ''SEARCH_NODE_DEDUPLICATED'' depth post
             @ [(''temporal_signature_sha256'', JStr (snd key))]) lp))
      else if int (length (lp_seen lp)) \<ge> pc_max_states (si_config i)
      then returning (fail_closed H i (log_event H (state_event ''STATE_BUDGET_EXHAUSTED'' depth post) lp)
             STATE_BUDGET_EXHAUSTED)
      else let seen = lp_seen lp @ [key];
               lp1 = tally (\<lambda>c. c\<lparr>nc_discovered := int (length seen)\<rparr>) (lp\<lparr>lp_seen := seen\<rparr>)
           in case evaluate_state H i post (Some (sn_temporal child)) of
             Inl _ \<Rightarrow> returning (fail_closed H i
                 (log_event H (state_event ''PREDICATE_EVALUATION_FAILURE'' depth post) lp1) PREDICATE_EVALUATION_FAILURE)
           | Inr e \<Rightarrow> (let lp2 = log_event H (evaluation_event ''STATE_EVALUATION'' e depth) lp1 in
               if se_forbidden e then returning (unsafe_result H i lp2 (sn_steps child) post e)
               else if se_indeterminate_predicates e \<noteq> [] then returning (indeterminate_result H i lp2 e)
               else if int depth < pc_bound (si_config i)
               then Inr (Continue (lp2\<lparr>lp_queue := lp_queue lp2 @ [child]\<rparr>))
               else Inr (Continue lp2)))"

definition search_child ::
    "(string \<Rightarrow> string) \<Rightarrow> search_input \<Rightarrow> search_node \<Rightarrow> future_action \<Rightarrow> oracle_decision \<Rightarrow> disclosure_state
      \<Rightarrow> search_run \<Rightarrow> progress result" where
  "search_child H i node a decision post lp =
     (let depth = Suc (sn_depth node) in
      bindr (extend_temporal_path H (sn_temporal node) a post depth) (\<lambda>temporal.
      bindr (build_counterexample_step H (int (sn_depth node)) (ds_state_sha256 (sn_state node)) (fa_action_sha256 a)
          (od_decision_sha256 decision) (ds_state_sha256 post)) (\<lambda>step.
        case temporal of
          None \<Rightarrow> conclude_untimed H i post depth (sn_steps node @ [step]) lp
        | Some path \<Rightarrow> visit_child H i
            \<lparr>sn_state = post, sn_depth = depth, sn_steps = sn_steps node @ [step], sn_temporal = path\<rparr> lp)))"

definition consult_oracle ::
    "(string \<Rightarrow> string) \<Rightarrow> search_input \<Rightarrow> search_node \<Rightarrow> future_action \<Rightarrow> disclosure_state \<Rightarrow> search_run \<Rightarrow> progress result" where
  "consult_oracle H i node a post lp =
     (case invoke_local_oracle H (si_oracle i) (sn_state node) a of
        None \<Rightarrow> returning (fail_closed H i (log_event H (action_event ''LOCAL_ORACLE_FAILURE'' node a) lp) LOCAL_ORACLE_FAILURE)
      | Some decision \<Rightarrow>
          (let lp' = log_event H (action_event ''LOCAL_ORACLE_DECISION'' node a
                 @ [(''admissible'', JBool (od_admissible decision)), (''decision_sha256'', JStr (od_decision_sha256 decision))]) lp
           in if \<not> od_admissible decision
              then Inr (Continue (tally (\<lambda>c. c\<lparr>nc_oracle_rejections := nc_oracle_rejections c + 1\<rparr>) lp'))
              else search_child H i node a decision post
                     (tally (\<lambda>c. c\<lparr>nc_oracle_admissions := nc_oracle_admissions c + 1\<rparr>) lp')))"

definition search_action ::
    "(string \<Rightarrow> string) \<Rightarrow> search_input \<Rightarrow> search_node \<Rightarrow> future_action \<Rightarrow> search_run \<Rightarrow> progress result" where
  "search_action H i node a lp =
     (let lp1 = tally (\<lambda>c. c\<lparr>nc_considered := nc_considered c + 1\<rparr>) lp in
      case apply_future_action H (sn_state node) a (si_grammar i) of
        Inl (FutureActionTransitionError _) \<Rightarrow>
          Inr (Continue (log_event H (action_event ''TRANSITION_REJECTED'' node a)
            (tally (\<lambda>c. c\<lparr>nc_transition_rejections := nc_transition_rejections c + 1\<rparr>) lp1)))
      | Inl _ \<Rightarrow> returning (fail_closed H i (log_event H (action_event ''TRANSITION_FAILURE'' node a) lp1) TRANSITION_FAILURE)
      | Inr post \<Rightarrow> consult_oracle H i node a post lp1)"

fun search_actions ::
    "(string \<Rightarrow> string) \<Rightarrow> search_input \<Rightarrow> search_node \<Rightarrow> future_action list \<Rightarrow> search_run \<Rightarrow> progress result" where
  "search_actions H i node [] lp = Inr (Continue lp)"
| "search_actions H i node (a # as) lp = bindr (search_action H i node a lp) (\<lambda>p. case p of
       Return r \<Rightarrow> Inr (Return r)
     | Continue lp' \<Rightarrow> search_actions H i node as lp')"

text \<open>One iteration of \<open>while queue\<close>, after the node was popped.\<close>

definition expand_node ::
    "(string \<Rightarrow> string) \<Rightarrow> search_input \<Rightarrow> search_node \<Rightarrow> search_run \<Rightarrow> progress result" where
  "expand_node H i node lp =
     (let lp' = tally (\<lambda>c. c\<lparr>nc_expanded := nc_expanded c + 1\<rparr>) lp in
      if int (sn_depth node) \<ge> pc_bound (si_config i) then Inr (Continue lp')
      else search_actions H i node (gm_actions (si_grammar i)) lp')"

text \<open>The loop ends: an expanded node leaves the queue, and a queued child uses up one of the
  \<open>max_states\<close> keys that may still be seen.\<close>

abbreviation search_fuel :: "search_input \<Rightarrow> search_run \<Rightarrow> nat" where
  "search_fuel i lp \<equiv> nat (pc_max_states (si_config i)) - length (lp_seen lp) + length (lp_queue lp)"

lemma run_unchanged [simp]:
  "lp_queue (log_event H event lp) = lp_queue lp" "lp_seen (log_event H event lp) = lp_seen lp"
  "lp_counters (log_event H event lp) = lp_counters lp" "lp_queue (tally f lp) = lp_queue lp"
  "lp_seen (tally f lp) = lp_seen lp" "lp_counters (tally f lp) = f (lp_counters lp)"
  "lp_transcript (tally f lp) = lp_transcript lp"
  by (simp_all add: log_event_def tally_def)

lemma returning_Continue [simp]: "returning r \<noteq> Inr (Continue lp)"
  by (cases r) (simp_all add: returning_def)

lemma returning_Return [simp]: "returning r = Inr (Return x) \<longleftrightarrow> r = Inr x"
  by (cases r) (simp_all add: returning_def)

lemma visit_child_fuel: "visit_child H i child lp = Inr (Continue lp') \<Longrightarrow> search_fuel i lp' \<le> search_fuel i lp"
  by (auto simp: visit_child_def Let_def split: if_splits sum.splits)

lemma search_child_fuel: "search_child H i node a d post lp = Inr (Continue lp') \<Longrightarrow> search_fuel i lp' \<le> search_fuel i lp"
  by (auto simp: search_child_def Let_def conclude_untimed_def split: option.splits dest: visit_child_fuel)

lemma consult_oracle_fuel: "consult_oracle H i node a post lp = Inr (Continue lp') \<Longrightarrow> search_fuel i lp' \<le> search_fuel i lp"
  by (auto simp: consult_oracle_def Let_def split: option.splits if_splits dest: search_child_fuel)

lemma search_action_fuel: "search_action H i node a lp = Inr (Continue lp') \<Longrightarrow> search_fuel i lp' \<le> search_fuel i lp"
  by (auto simp: search_action_def Let_def split: sum.splits error.splits dest: consult_oracle_fuel)

lemma search_actions_fuel: "search_actions H i node as lp = Inr (Continue lp') \<Longrightarrow> search_fuel i lp' \<le> search_fuel i lp"
proof (induction H i node as lp rule: search_actions.induct)
  case (2 H i node a as lp)
  from 2(2) obtain p where p: "search_action H i node a lp = Inr p" by auto
  show ?case
  proof (cases p)
    case (Continue lp1)
    with 2(2) p have lp1: "search_action H i node a lp = Inr (Continue lp1)" "search_actions H i node as lp1 = Inr (Continue lp')"
      by simp_all
    from 2(1) [OF lp1(2)] search_action_fuel [OF lp1(1)] show ?thesis by simp
  qed (use 2(2) p in simp)
qed simp

lemma expand_node_fuel: "expand_node H i node lp = Inr (Continue lp') \<Longrightarrow> search_fuel i lp' \<le> search_fuel i lp"
  by (auto simp: expand_node_def Let_def split: if_splits dest: search_actions_fuel)

function search_loop :: "(string \<Rightarrow> string) \<Rightarrow> search_input \<Rightarrow> search_run \<Rightarrow> ppmc_result result" where
  "search_loop H i lp = (case lp_queue lp of
       [] \<Rightarrow> safe_result H i lp
     | node # rest \<Rightarrow> (case expand_node H i node (lp\<lparr>lp_queue := rest\<rparr>) of
           Inl e \<Rightarrow> Inl e
         | Inr (Return r) \<Rightarrow> Inr r
         | Inr (Continue lp') \<Rightarrow> search_loop H i lp'))"
  by pat_completeness auto

termination
  by (relation "measure (\<lambda>(H, i, lp). search_fuel i lp)") (auto dest: expand_node_fuel)

declare search_loop.simps [simp del]

text \<open>The initial state is evaluated before the queue is created.\<close>

definition run_search :: "(string \<Rightarrow> string) \<Rightarrow> search_input \<Rightarrow> temporal_path option \<Rightarrow> ppmc_result result" where
  "run_search H i temporal =
     (let initial = si_initial_state i;
          lp = \<lparr>lp_queue = [], lp_seen = [], lp_counters = initial_counters, lp_transcript = transcript_start H i\<rparr>
      in case evaluate_state H i initial temporal of
          Inl _ \<Rightarrow> fail_closed H i (log_event H (state_event ''PREDICATE_EVALUATION_FAILURE'' 0 initial) lp)
                    PREDICATE_EVALUATION_FAILURE
        | Inr e \<Rightarrow>
            (let lp1 = log_event H (evaluation_event ''INITIAL_EVALUATION'' e 0) lp in
             if se_forbidden e then unsafe_result H i lp1 [] initial e
             else if se_indeterminate_predicates e \<noteq> [] then indeterminate_result H i lp1 e
             else if pc_bound (si_config i) = 0 then safe_result H i lp1
             else case temporal of
                 None \<Rightarrow> Inl (AttributeError '''')
               | Some path \<Rightarrow> search_loop H i (lp1
                   \<lparr>lp_queue := [\<lparr>sn_state = initial, sn_depth = 0, sn_steps = [], sn_temporal = path\<rparr>],
                    lp_seen := [search_node_key H initial path]\<rparr>)))"

definition check_prospective_privacy ::
    "(string \<Rightarrow> string) \<Rightarrow> disclosure_state \<Rightarrow> action_grammar \<Rightarrow> forbidden_policy \<Rightarrow> governance_binding option
      \<Rightarrow> local_oracle \<Rightarrow> search_config option \<Rightarrow> ppmc_result result" where
  "check_prospective_privacy H initial grammar policy binding oracle config =
     bindr (case config of None \<Rightarrow> build_ppmc_search_config H 3 10000 | Some c \<Rightarrow> Inr c) (\<lambda>selected.
       let i = \<lparr>si_initial_state = initial, si_grammar = grammar, si_policy = policy, si_binding = binding,
             si_oracle = oracle, si_config = selected\<rparr>
       in bindr (revalidate_inputs H i) (\<lambda>_.
         if cx_initial_state_sha256 (gm_context grammar) \<noteq> ds_state_sha256 initial
         then Inl (PpmcError ''PPMC grammar is not bound to the supplied initial disclosure state'')
         else bindr (initial_temporal_path H initial grammar) (run_search H i)))"

end
