(* ===== verification/Search_Laws.thy ===== *)
theory Search_Laws
  imports Prelude
begin

text \<open>
  The contract of a breadth-first search that drops a node when a node of the same key was seen:
  points carry their depth, points that are \<open>same\<close> have matching successors and are bad alike, and
  nothing is claimed of an environment that is not \<open>valid\<close>. Under these laws a set of points that
  covers every start and the successors of its own shallow members covers every point that can be
  explored, so that it is enough to look for bad points in the set.
\<close>

inductive explored :: "('n \<Rightarrow> bool) \<Rightarrow> ('n \<Rightarrow> 'n \<Rightarrow> bool) \<Rightarrow> 'n \<Rightarrow> bool"
  for start :: "'n \<Rightarrow> bool" and step :: "'n \<Rightarrow> 'n \<Rightarrow> bool" where
  at_start: "start x \<Longrightarrow> explored start step x"
| by_step: "explored start step x \<Longrightarrow> step x y \<Longrightarrow> explored start step y"

locale bounded_search =
  fixes valid :: "'e \<Rightarrow> bool" and start :: "'e \<Rightarrow> 'n \<Rightarrow> bool" and step :: "'e \<Rightarrow> 'n \<Rightarrow> 'n \<Rightarrow> bool"
    and depth :: "'n \<Rightarrow> nat" and bound :: "'e \<Rightarrow> nat" and same :: "'n \<Rightarrow> 'n \<Rightarrow> bool" and bad :: "'e \<Rightarrow> 'n \<Rightarrow> bool"
  assumes step_depth: "step e x y \<Longrightarrow> depth y = Suc (depth x)"
    and same_trans: "same x y \<Longrightarrow> same y z \<Longrightarrow> same x z"
    and same_step: "valid e \<Longrightarrow> explored (start e) (step e) x \<Longrightarrow> explored (start e) (step e) y \<Longrightarrow> same x y
      \<Longrightarrow> depth y < bound e \<Longrightarrow> step e x x' \<Longrightarrow> \<exists>y'. step e y y' \<and> same x' y'"
    and same_bad: "valid e \<Longrightarrow> explored (start e) (step e) x \<Longrightarrow> explored (start e) (step e) y \<Longrightarrow> same x y
      \<Longrightarrow> bad e x \<Longrightarrow> bad e y"
begin

lemma covered:
  assumes "valid e" and "\<And>y. y \<in> D \<Longrightarrow> explored (start e) (step e) y"
    and "\<And>x. start e x \<Longrightarrow> \<exists>y \<in> D. same x y \<and> depth y \<le> depth x"
    and "\<And>y y'. y \<in> D \<Longrightarrow> depth y < k \<Longrightarrow> step e y y' \<Longrightarrow> \<exists>z \<in> D. same y' z \<and> depth z \<le> depth y'"
    and "k \<le> bound e"
  shows "explored (start e) (step e) x \<Longrightarrow> depth x \<le> k \<Longrightarrow> \<exists>y \<in> D. same x y \<and> depth y \<le> depth x"
proof (induction rule: explored.induct)
  case (at_start x)
  then show ?case by (intro assms(3))
next
  case (by_step x x')
  have d: "depth x' = Suc (depth x)" by (rule step_depth) (rule by_step)
  with by_step obtain y where y: "y \<in> D" "same x y" "depth y \<le> depth x" by auto
  with d by_step(4) assms(5) have lt: "depth y < k" "depth y < bound e" by linarith+
  from same_step [OF assms(1) by_step(1) assms(2) [OF y(1)] y(2) lt(2) by_step(2)] obtain y' where
    y': "step e y y'" "same x' y'" by blast
  from assms(4) [OF y(1) lt(1) y'(1)] obtain z where z: "z \<in> D" "same y' z" "depth z \<le> depth y'" by blast
  with step_depth [OF y'(1)] d y(3) have "depth z \<le> depth x'" by simp
  with z(1) same_trans [OF y'(2) z(2)] show ?case by blast
qed

lemma none_bad:
  assumes "valid e" and "\<And>y. y \<in> D \<Longrightarrow> explored (start e) (step e) y \<and> \<not> bad e y"
    and "\<And>x. start e x \<Longrightarrow> \<exists>y \<in> D. same x y \<and> depth y \<le> depth x"
    and "\<And>y y'. y \<in> D \<Longrightarrow> depth y < k \<Longrightarrow> step e y y' \<Longrightarrow> \<exists>z \<in> D. same y' z \<and> depth z \<le> depth y'"
    and "k \<le> bound e" and "explored (start e) (step e) x" and "depth x \<le> k"
  shows "\<not> bad e x"
proof
  assume bad: "bad e x"
  from covered [of e D k x] assms obtain y where "y \<in> D" "same x y" by blast
  with same_bad [OF assms(1,6) _ _ bad] assms(2) show False by blast
qed

end

end
