(* ===== verification/Twin_Theorems.thy ===== *)
theory Twin_Theorems
  imports Twin "HOL-Library.Multiset"
begin

text \<open>
  What \<open>prospective/twin.py\<close> guarantees: the closure is the least one and always computed, the
  derived atoms of a state are exactly the inferences its released outputs allow, and the state
  of a history depends neither on the order of the entries nor on whether a reservation is
  still pending, while aborted releases leave no trace. The samples are two small states under
  a concrete digest function; the prospective checker's samples extend them.
\<close>

section \<open>A concrete state\<close>

fun mix :: "char \<Rightarrow> char \<Rightarrow> char" where
  "mix (Char a0 a1 a2 a3 a4 a5 a6 a7) (Char b0 b1 b2 b3 b4 b5 b6 b7) =
     Char (a7 \<noteq> b0) (a0 \<noteq> b1) (a1 \<noteq> b2) (a2 \<noteq> b3) (a3 \<noteq> b4) (a4 \<noteq> b5) (a5 \<noteq> b6) (a6 \<noteq> b7)"

definition nibble :: "bool \<Rightarrow> bool \<Rightarrow> bool \<Rightarrow> bool \<Rightarrow> char" where
  "nibble b3 b2 b1 b0 =
    (if b3 then if b2 then if b1 then if b0 then CHR ''f'' else CHR ''e'' else if b0 then CHR ''d'' else CHR ''c''
          else if b1 then if b0 then CHR ''b'' else CHR ''a'' else if b0 then CHR ''9'' else CHR ''8''
     else if b2 then if b1 then if b0 then CHR ''7'' else CHR ''6'' else if b0 then CHR ''5'' else CHR ''4''
          else if b1 then if b0 then CHR ''3'' else CHR ''2'' else if b0 then CHR ''1'' else CHR ''0'')"

fun byte_hex :: "char \<Rightarrow> string" where
  "byte_hex (Char b0 b1 b2 b3 b4 b5 b6 b7) = [nibble b7 b6 b5 b4, nibble b3 b2 b1 b0]"

definition sample_digest :: "string \<Rightarrow> string" where
  "sample_digest tail = ''00000000000000000000000000000000000000000000000000000000000000'' @ tail"

text \<open>The texts of the sample scope and of its subject namespace have the digest the scope carries.\<close>

definition sample_hash :: "string \<Rightarrow> string" where
  "sample_hash s = sample_digest (if take 8 (drop 2 s) = ''agent_id'' \<or> take 8 (drop 2 s) = ''category'' then ''00''
     else byte_hex (foldl mix CHR 0x00 s))"

lemma hex_digest_sample: "hex_digest sample_hash"
proof -
  have nib: "nibble b3 b2 b1 b0 \<in> set hex_chars" for b3 b2 b1 b0
    by (cases b3; cases b2; cases b1; cases b0) (simp_all add: nibble_def hex_chars_def)
  have "is_hex 64 (sample_digest (byte_hex c))" for c
    using nib by (cases c) (simp add: sample_digest_def is_hex_def hex_chars_def)
  moreover have "is_hex 64 (sample_digest ''00'')" by code_simp
  ultimately show ?thesis by (simp add: hex_digest_def is_sha256_def sample_hash_def)
qed

definition sample_column :: "string \<Rightarrow> sensitivity_category \<Rightarrow> governed_column" where
  "sample_column field category = \<lparr>gc_dataset_urn = ''a'', gc_field_path = field, gc_category = category\<rparr>"

definition sample_released :: "disclosure_atom list" where
  "sample_released =
     [(output_atom zero_sha256 RAW_VALUE (sample_column ''id'' DIRECT_IDENTIFIER))\<lparr>at_atom_sha256 := sample_digest ''01''\<rparr>,
      (output_atom zero_sha256 RAW_VALUE (sample_column ''dx'' SENSITIVE_ATTRIBUTE))\<lparr>at_atom_sha256 := sample_digest ''02''\<rparr>]"

definition sample_derived :: "disclosure_atom list" where
  "sample_derived =
     [(blank_atom IDENTIFIER_SENSITIVE_COEXPOSURE)
        \<lparr>at_identifier_category := Some DIRECT_IDENTIFIER, at_atom_sha256 := sample_digest ''44''\<rparr>,
      (blank_atom CATEGORY_PRESENCE)\<lparr>at_category := Some DIRECT_IDENTIFIER, at_atom_sha256 := sample_digest ''dd''\<rparr>,
      (blank_atom CATEGORY_PRESENCE)\<lparr>at_category := Some SENSITIVE_ATTRIBUTE, at_atom_sha256 := sample_digest ''ed''\<rparr>]"

definition sample_state :: disclosure_state where
  "sample_state = \<lparr>ds_scope = sample_scope, ds_purpose_commitment_sha256 = zero_sha256,
     ds_governance_commitment_sha256 = zero_sha256, ds_evidence_root_sha256 = zero_sha256,
     ds_warehouse_snapshot_sha256 = None, ds_released_atoms = sample_released,
     ds_derived_atoms = sample_derived, ds_inference_rules_sha256 = sample_digest ''63'',
     ds_state_sha256 = sample_digest ''03''\<rparr>"

definition sample_rules :: "inference_rule list" where
  "sample_rules =
     [\<lparr>ru_family = FAMILY_CATEGORY_PRESENCE, ru_antecedents = [sample_digest ''01''],
       ru_consequent = sample_derived ! 1, ru_rule_sha256 = sample_digest ''35''\<rparr>,
      \<lparr>ru_family = FAMILY_CATEGORY_PRESENCE, ru_antecedents = [sample_digest ''02''],
       ru_consequent = sample_derived ! 2, ru_rule_sha256 = sample_digest ''8f''\<rparr>,
      \<lparr>ru_family = FAMILY_COEXPOSURE, ru_antecedents = [sample_digest ''01'', sample_digest ''02''],
       ru_consequent = sample_derived ! 0, ru_rule_sha256 = sample_digest ''95''\<rparr>]"

lemma sample_all_rules: "all_rules sample_hash sample_released = Inr sample_rules"
  by code_simp

lemma sample_closure: "least_fixed_point sample_released sample_rules = Inr sample_derived"
  by code_simp

lemma sample_valid: "validate_state sample_hash sample_state = Inr sample_state"
  by code_simp

text \<open>The release of a raw identifier, and the state it gives on an empty history.\<close>

definition id_release :: semantic_release where
  "id_release = \<lparr>sr_source_dataset_urns = [''a''],
     sr_outputs = [\<lparr>so_kind = RAW_VALUE, so_sources = [sample_column ''id'' DIRECT_IDENTIFIER]\<rparr>],
     sr_referenced_columns = [sample_column ''id'' DIRECT_IDENTIFIER], sr_join_columns = [],
     sr_group_keys = [], sr_aggregate_functions = [], sr_minimum_group_size_present = None,
     sr_semantic_sha256 = sample_digest ''fe''\<rparr>"

definition id_composition :: disclosure_composition where
  "id_composition = \<lparr>co_protected_release = True, co_release_family_sha256 = sample_digest ''fe'',
     co_cohort_hmac_sha256 = zero_sha256\<rparr>"

definition id_atoms :: "disclosure_atom list" where
  "id_atoms = (let sha = sample_digest ''fe''; c = sample_column ''id'' DIRECT_IDENTIFIER in
     [(role_atom sha ROLE_REFERENCED c)\<lparr>at_atom_sha256 := sample_digest ''25''\<rparr>,
      (release_atom COHORT sha)\<lparr>at_release_family_sha256 := Some sha, at_cohort_hmac_sha256 := Some zero_sha256,
         at_protected_release := Some True, at_atom_sha256 := sample_digest ''2c''\<rparr>,
      (release_atom SOURCE_DATASET sha)\<lparr>at_dataset_urn := Some ''a'', at_atom_sha256 := sample_digest ''31''\<rparr>,
      (release_atom SEMANTIC_RELEASE sha)\<lparr>at_atom_sha256 := sample_digest ''95''\<rparr>,
      (output_atom sha RAW_VALUE c)\<lparr>at_atom_sha256 := sample_digest ''a5''\<rparr>])"

definition id_state :: disclosure_state where
  "id_state = \<lparr>ds_scope = sample_scope, ds_purpose_commitment_sha256 = zero_sha256,
     ds_governance_commitment_sha256 = zero_sha256, ds_evidence_root_sha256 = zero_sha256,
     ds_warehouse_snapshot_sha256 = Some zero_sha256, ds_released_atoms = id_atoms,
     ds_derived_atoms = [(blank_atom CATEGORY_PRESENCE)
       \<lparr>at_category := Some DIRECT_IDENTIFIER, at_atom_sha256 := sample_digest ''dd''\<rparr>],
     ds_inference_rules_sha256 = sample_digest ''bf'', ds_state_sha256 = sample_digest ''68''\<rparr>"

lemma id_release_atoms: "direct_atoms_for_release sample_hash id_release (Some id_composition) = Inr id_atoms"
  by code_simp

lemma id_state_valid: "validate_state sample_hash id_state = Inr id_state"
  by code_simp

lemma close_validated:
  assumes "validate_state H s = Inr s"
  shows "close_state H (s\<lparr>ds_derived_atoms := [], ds_inference_rules_sha256 := zero_sha256,
     ds_state_sha256 := zero_sha256\<rparr>) = Inr s"
proof -
  from assms obtain rules where v: "instantiate_rules H (ds_released_atoms s) = Inr rules"
    "least_fixed_point (ds_released_atoms s) rules = Inr (ds_derived_atoms s)"
    "ds_inference_rules_sha256 s = compute_inference_rules_sha256 H rules"
    "ds_state_sha256 s = compute_state_sha256 H s" by (rule validate_state_Inr)
  let ?s = "s\<lparr>ds_derived_atoms := ds_derived_atoms s, ds_inference_rules_sha256 := ds_inference_rules_sha256 s,
       ds_state_sha256 := zero_sha256\<rparr>"
  have "compute_state_sha256 H ?s = ds_state_sha256 s"
    using v(4) by (simp add: compute_state_sha256_def)
  moreover have "?s\<lparr>ds_state_sha256 := ds_state_sha256 s\<rparr> = s" by simp
  ultimately show ?thesis using v(1,2) assms
    by (simp add: close_state_def Let_def v(3) [symmetric])
qed

lemmas id_state_closed = close_validated [OF id_state_valid]

section \<open>The closure\<close>

text \<open>C40: closure_is_least. When \<open>least_fixed_point\<close> returns, the hashes of the derived atoms are exactly
  those derivable from the released atoms by forward chaining with the rules, less the released
  ones (nothing more, and nothing a rule still could add), the result is in canonical order, every
  atom of it is the consequent of a rule, and the consequent of every rule whose antecedents hold
  is present as an atom, not only by its hash.\<close>

theorem closure_is_least:
  assumes "least_fixed_point released rules = Inr derived"
  shows "at_atom_sha256 ` set derived =
        derivable ru_antecedents (\<lambda>r. at_atom_sha256 (ru_consequent r)) (set rules) (at_atom_sha256 ` set released)
          - at_atom_sha256 ` set released
    \<and> canonical (map at_atom_sha256 derived) \<and> set derived \<subseteq> ru_consequent ` set rules
    \<and> (\<forall>r \<in> set rules. set (ru_antecedents r) \<subseteq> at_atom_sha256 ` (set released \<union> set derived)
          \<longrightarrow> ru_consequent r \<in> set released \<union> set derived)"
  unfolding image_Un using least_fixed_point_result [OF assms] by blast

lemma closure_is_least_witness:
  "sample_digest ''44'' \<in> derivable ru_antecedents (\<lambda>r. at_atom_sha256 (ru_consequent r))
     (set sample_rules) (at_atom_sha256 ` set sample_released)"
proof -
  note least = closure_is_least [OF sample_closure]
  have "sample_digest ''44'' \<in> at_atom_sha256 ` set sample_derived" by (simp add: sample_derived_def)
  then show ?thesis unfolding conjunct1 [OF least] by blast
qed

text \<open>The closure loop always terminates, and its only errors are a hash collision
  and the atom budget: with rules whose consequents agree whenever their hashes do, and at most
  4096 rules, \<open>least_fixed_point\<close> returns.\<close>

theorem closure_total:
  assumes "\<forall>r \<in> set rules. \<forall>r' \<in> set rules.
      at_atom_sha256 (ru_consequent r) = at_atom_sha256 (ru_consequent r') \<longrightarrow> ru_consequent r = ru_consequent r'"
    and "\<forall>r \<in> set rules. \<forall>a \<in> set released.
      at_atom_sha256 (ru_consequent r) = at_atom_sha256 a \<longrightarrow> ru_consequent r = a"
    and "length rules \<le> 4096"
  shows "\<exists>derived. least_fixed_point released rules = Inr derived"
proof -
  let ?rules = "sort_key ru_rule_sha256 rules" and ?seed = "dict_of at_atom_sha256 released"
  have "a = ru_consequent r" if "r \<in> set ?rules" "map_of ?seed (rule_head r) = Some a" for r a
    using that(1) assms(2) map_of_dict_of_Some [OF that(2)] by force
  then obtain K where sat: "saturate ?rules ?seed = Inr K"
    using saturate_total [of ?rules ?seed] assms(1) by auto
  from saturate_new_count [OF sat] assms(3)
  have "length (filter (\<lambda>(digest, _). digest \<notin> fst ` set ?seed) K) \<le> 4096" by simp
  with sat show ?thesis by (simp add: least_fixed_point_def Let_def)
qed

lemma closure_total_witness: "\<exists>derived. least_fixed_point sample_released sample_rules = Inr derived"
proof (rule closure_total)
  have cons: "ru_consequent ` set sample_rules = set sample_derived"
    by (simp add: sample_rules_def sample_derived_def) blast
  have "\<forall>x \<in> set sample_derived. \<forall>y \<in> set sample_derived. at_atom_sha256 x = at_atom_sha256 y \<longrightarrow> x = y"
    by (simp add: sample_derived_def sample_digest_def)
  then show "\<forall>r \<in> set sample_rules. \<forall>r' \<in> set sample_rules.
      at_atom_sha256 (ru_consequent r) = at_atom_sha256 (ru_consequent r') \<longrightarrow> ru_consequent r = ru_consequent r'"
    using cons by blast
  have "\<forall>x \<in> set sample_derived. \<forall>a \<in> set sample_released. at_atom_sha256 x \<noteq> at_atom_sha256 a"
    by (simp add: sample_derived_def sample_released_def sample_digest_def)
  then show "\<forall>r \<in> set sample_rules. \<forall>a \<in> set sample_released.
      at_atom_sha256 (ru_consequent r) = at_atom_sha256 a \<longrightarrow> ru_consequent r = a"
    using cons by blast
  show "length sample_rules \<le> 4096" by (simp add: sample_rules_def)
qed

text \<open>In a validated state every derived atom is one the documented inferences
  allow: the presence of the category of a revealing output, the coexposure of a governed
  identifier category with a sensitive attribute when both have linkable outputs, or the variation
  of protected cohorts inside one release family. When no two instantiated rules share a hash,
  all of these are present.\<close>

theorem derived_exact:
  assumes "validate_state H s = Inr s'" and "all_rules H (ds_released_atoms s) = Inr rules"
  shows "let released = ds_released_atoms s;
      inferences = {presence_atom H c | a c. a \<in> set (revealing_outputs released) \<and> at_category a = Some c}
        \<union> {coexposure_atom H c | c. c \<in> {DIRECT_IDENTIFIER, STABLE_PSEUDONYM}
            \<and> with_category c (linkable_outputs released) \<noteq> []
            \<and> with_category SENSITIVE_ATTRIBUTE (linkable_outputs released) \<noteq> []}
        \<union> {variation_atom H family | family. cohort_variation released family}
    in set (ds_derived_atoms s) \<subseteq> inferences
      \<and> (inj_on ru_rule_sha256 (set rules) \<longrightarrow> set (ds_derived_atoms s) = inferences)"
proof -
  from assms(1) obtain canon where v: "instantiate_rules H (ds_released_atoms s) = Inr canon"
    "least_fixed_point (ds_released_atoms s) canon = Inr (ds_derived_atoms s)" by (rule validate_state_Inr)
  from v(1) assms(2) have canon: "canon = by_key ru_rule_sha256 rules" by (auto elim: instantiate_rules_Inr)
  have "set (ds_derived_atoms s) = ru_consequent ` set canon" by (rule closure_consequents [OF v])
  moreover have "set canon \<subseteq> set rules" unfolding canon by (rule set_by_key_subset)
  moreover have "inj_on ru_rule_sha256 (set rules) \<Longrightarrow> set canon = set rules"
    unfolding canon by (rule set_by_key)
  ultimately have "set (ds_derived_atoms s) \<subseteq> ru_consequent ` set rules
      \<and> (inj_on ru_rule_sha256 (set rules) \<longrightarrow> set (ds_derived_atoms s) = ru_consequent ` set rules)" by blast
  then show ?thesis
    unfolding all_rules_result(1) [OF assms(2)] Let_def by (simp add: identifier_categories_def)
qed

lemma sample_rules_inj: "inj_on ru_rule_sha256 (set sample_rules)"
  by (simp add: sample_rules_def sample_digest_def)

lemma sample_state_released [simp]: "ds_released_atoms sample_state = sample_released"
  "ds_derived_atoms sample_state = sample_derived"
  by (simp_all add: sample_state_def)

lemma derived_exact_witness:
  "coexposure_atom sample_hash DIRECT_IDENTIFIER \<in> set sample_derived"
proof -
  note exact = derived_exact [OF sample_valid, of sample_rules]
  have "with_category DIRECT_IDENTIFIER (linkable_outputs sample_released) \<noteq> []"
    "with_category SENSITIVE_ATTRIBUTE (linkable_outputs sample_released) \<noteq> []" by code_simp+
  with exact sample_all_rules sample_rules_inj show ?thesis by (simp add: Let_def) blast
qed

section \<open>What a history contributes\<close>

lemma hashed_by_key:
  assumes "list_all2 (\<lambda>x y. y = x\<lparr>at_atom_sha256 := compute_atom_sha256 H x\<rparr>) shapes atoms"
  shows "set atoms = (\<lambda>f. f\<lparr>at_atom_sha256 := compute_atom_sha256 H f\<rparr>) ` set shapes"
  using assms by (induction rule: list_all2_induct) auto

lemma direct_atoms_set:
  assumes "direct_atoms_for_release H semantic composition = Inr atoms"
  shows "set atoms \<subseteq> (\<lambda>f. f\<lparr>at_atom_sha256 := compute_atom_sha256 H f\<rparr>) ` set (release_atom_fields semantic composition)"
    and "at_atom_sha256 ` set atoms = compute_atom_sha256 H ` set (release_atom_fields semantic composition)"
    and "canonical (map at_atom_sha256 atoms)"
proof -
  from assms obtain built where built: "mapr (build_atom H) (release_atom_fields semantic composition) = Inr built"
    and atoms: "atoms = by_key at_atom_sha256 built"
    by (auto simp: direct_atoms_for_release_def)
  from built have "list_all2 (\<lambda>x y. y = x\<lparr>at_atom_sha256 := compute_atom_sha256 H x\<rparr>)
      (release_atom_fields semantic composition) built"
    unfolding mapr_Inr_iff by (rule list_all2_mono) (rule build_atom_Inr)
  from hashed_by_key [OF this] have set: "set built =
      (\<lambda>f. f\<lparr>at_atom_sha256 := compute_atom_sha256 H f\<rparr>) ` set (release_atom_fields semantic composition)" .
  show "set atoms \<subseteq> (\<lambda>f. f\<lparr>at_atom_sha256 := compute_atom_sha256 H f\<rparr>)
      ` set (release_atom_fields semantic composition)"
    unfolding atoms set [symmetric] by (rule set_by_key_subset)
  have "at_atom_sha256 ` set atoms = at_atom_sha256 ` set built"
    unfolding atoms set_map [symmetric] map_key_by_key by simp
  then show "at_atom_sha256 ` set atoms = compute_atom_sha256 H ` set (release_atom_fields semantic composition)"
    unfolding set image_image by simp
  show "canonical (map at_atom_sha256 atoms)" unfolding atoms by simp
qed

text \<open>The atoms the live entries of a history and the candidate contribute, before hashing.\<close>

definition contributed_fields ::
    "history_entry list \<Rightarrow> semantic_release \<Rightarrow> disclosure_composition option \<Rightarrow> disclosure_atom set" where
  "contributed_fields entries semantic composition =
     (\<Union>e \<in> {e \<in> set entries. he_lifecycle e \<noteq> LC_ABORTED}.
        set (release_atom_fields (ev_semantic (dr_event (he_record e))) (ev_composition (dr_event (he_record e)))))
     \<union> set (release_atom_fields semantic composition)"

lemma history_Inr:
  assumes "validate_and_order_history scope entries = Inr ordered"
  shows "ordered = sort_key (\<lambda>e. dr_sequence (he_record e)) entries"
    and "canonical (map (\<lambda>e. dr_sequence (he_record e)) ordered)" "check_history scope None ordered = Inr ()"
  using assms by (auto simp: validate_and_order_history_def Let_def split: if_splits)

lemma build_state_Inr:
  assumes "build_disclosure_state H scope entries semantic composition purpose governance root warehouse = Inr s"
  obtains atoms where "set atoms \<subseteq> (\<lambda>f. f\<lparr>at_atom_sha256 := compute_atom_sha256 H f\<rparr>)
        ` contributed_fields entries semantic composition"
    "at_atom_sha256 ` set atoms = compute_atom_sha256 H ` contributed_fields entries semantic composition"
    "ds_released_atoms s = by_key at_atom_sha256 atoms" "validate_state H s = Inr s"
    "ds_scope s = scope" "ds_warehouse_snapshot_sha256 s = warehouse"
proof -
  from assms obtain ordered history candidate where
    ord: "validate_and_order_history scope entries = Inr ordered"
    and hist: "mapr (\<lambda>r. direct_atoms_for_release H (ev_semantic (dr_event r)) (ev_composition (dr_event r)))
        (active_records ordered) = Inr history"
    and cand: "direct_atoms_for_release H semantic composition = Inr candidate"
    and close: "close_state H \<lparr>ds_scope = scope, ds_purpose_commitment_sha256 = purpose,
             ds_governance_commitment_sha256 = governance, ds_evidence_root_sha256 = root,
             ds_warehouse_snapshot_sha256 = warehouse,
             ds_released_atoms = by_key at_atom_sha256 (concat history @ candidate),
             ds_derived_atoms = [], ds_inference_rules_sha256 = zero_sha256,
             ds_state_sha256 = zero_sha256\<rparr> = Inr s"
    unfolding build_disclosure_state_def by (auto simp: Let_def)
  let ?fields = "\<lambda>r. set (release_atom_fields (ev_semantic (dr_event r)) (ev_composition (dr_event r)))"
  let ?fin = "\<lambda>f. f\<lparr>at_atom_sha256 := compute_atom_sha256 H f\<rparr>"
  from hist have all2: "list_all2 (\<lambda>r as. set as \<subseteq> ?fin ` ?fields r
        \<and> at_atom_sha256 ` set as = compute_atom_sha256 H ` ?fields r) (active_records ordered) history"
    unfolding mapr_Inr_iff by (rule list_all2_mono) (blast dest: direct_atoms_set(1,2))
  have active: "set (active_records ordered) = he_record ` {e \<in> set entries. he_lifecycle e \<noteq> LC_ABORTED}"
    using history_Inr(1) [OF ord] by (auto simp: active_records_def)
  let ?old = "\<Union>r \<in> set (active_records ordered). ?fields r"
  have fields: "contributed_fields entries semantic composition
      = ?old \<union> set (release_atom_fields semantic composition)"
    unfolding contributed_fields_def active by simp
  have old: "set (concat history) \<subseteq> ?fin ` ?old \<and> at_atom_sha256 ` set (concat history) = compute_atom_sha256 H ` ?old"
    using all2 by (induction rule: list_all2_induct) (auto simp: image_Un)
  have sub: "set (concat history @ candidate) \<subseteq> ?fin ` contributed_fields entries semantic composition"
    unfolding fields set_append image_Un
    by (rule Un_mono [OF conjunct1 [OF old] direct_atoms_set(1) [OF cand]])
  have hashes: "at_atom_sha256 ` set (concat history @ candidate)
      = compute_atom_sha256 H ` contributed_fields entries semantic composition"
    unfolding fields set_append image_Un conjunct2 [OF old] direct_atoms_set(2) [OF cand] by simp
  from close obtain "validate_state H s = Inr s" "ds_released_atoms s = by_key at_atom_sha256 (concat history @ candidate)"
    "ds_scope s = scope" "ds_warehouse_snapshot_sha256 s = warehouse"
    by (rule close_state_Inr) simp
  with sub hashes show thesis by (intro that)
qed

text \<open>The released atoms of a built state carry exactly the hashes of the
  atoms that the candidate and the history entries that were not aborted contribute, each released
  atom is such an atom with its hash, and they are in canonical order. When no two of them collide
  every contributed atom is there.\<close>

theorem released_atoms_exact:
  assumes "build_disclosure_state H scope entries semantic composition purpose governance root warehouse = Inr s"
  shows "let hashed = (\<lambda>f. f\<lparr>at_atom_sha256 := compute_atom_sha256 H f\<rparr>)
          ` contributed_fields entries semantic composition
    in at_atom_sha256 ` set (ds_released_atoms s) = at_atom_sha256 ` hashed
      \<and> set (ds_released_atoms s) \<subseteq> hashed \<and> canonical (map at_atom_sha256 (ds_released_atoms s))
      \<and> (inj_on at_atom_sha256 hashed \<longrightarrow> set (ds_released_atoms s) = hashed)"
proof -
  let ?hashed = "(\<lambda>f. f\<lparr>at_atom_sha256 := compute_atom_sha256 H f\<rparr>) ` contributed_fields entries semantic composition"
  from assms obtain atoms where atoms: "set atoms \<subseteq> ?hashed"
    "at_atom_sha256 ` set atoms = compute_atom_sha256 H ` contributed_fields entries semantic composition"
    "ds_released_atoms s = by_key at_atom_sha256 atoms" by (rule build_state_Inr)
  have hashes: "at_atom_sha256 ` set (ds_released_atoms s) = at_atom_sha256 ` ?hashed"
    unfolding atoms(3) set_map [symmetric] map_key_by_key using atoms(2) by (simp add: image_image)
  have sub: "set (ds_released_atoms s) \<subseteq> ?hashed"
    unfolding atoms(3) by (rule subset_trans [OF set_by_key_subset atoms(1)])
  have "set (ds_released_atoms s) = ?hashed" if inj: "inj_on at_atom_sha256 ?hashed"
    using inj_on_image_eq_iff [OF inj sub subset_refl] hashes by blast
  with hashes sub atoms(3) show ?thesis by (simp add: Let_def)
qed

lemma id_state_built:
  "build_disclosure_state sample_hash sample_scope [] id_release (Some id_composition) zero_sha256 zero_sha256
     zero_sha256 (Some zero_sha256) = Inr id_state"
proof -
  have canon: "canonical (map at_atom_sha256 id_atoms)"
    using direct_atoms_set(3) [OF id_release_atoms] .
  have len: "length id_atoms = 5" by (simp add: id_atoms_def Let_def)
  have state: "\<lparr>ds_scope = sample_scope, ds_purpose_commitment_sha256 = zero_sha256,
     ds_governance_commitment_sha256 = zero_sha256, ds_evidence_root_sha256 = zero_sha256,
     ds_warehouse_snapshot_sha256 = Some zero_sha256, ds_released_atoms = id_atoms,
     ds_derived_atoms = [], ds_inference_rules_sha256 = zero_sha256, ds_state_sha256 = zero_sha256\<rparr>
     = id_state\<lparr>ds_derived_atoms := [], ds_inference_rules_sha256 := zero_sha256, ds_state_sha256 := zero_sha256\<rparr>"
    by (simp add: id_state_def)
  show ?thesis
    by (simp add: build_disclosure_state_def validate_and_order_history_def active_records_def Let_def
        id_release_atoms by_key_canonical [OF canon] len state id_state_closed)
qed

lemma released_atoms_exact_witness:
  "at_atom_sha256 ` set id_atoms = compute_atom_sha256 sample_hash ` contributed_fields [] id_release (Some id_composition)"
  using released_atoms_exact [OF id_state_built]
  by (simp add: Let_def image_image id_state_def)

section \<open>Order and lifecycle\<close>

text \<open>A state is a function of the set of its audit entries: presenting the
  same entries in any other order gives the same state, or the same error.\<close>

theorem history_order_irrelevant:
  assumes "mset entries' = mset entries"
  shows "build_disclosure_state H scope entries' semantic composition purpose governance root warehouse
    = build_disclosure_state H scope entries semantic composition purpose governance root warehouse"
proof -
  let ?seq = "\<lambda>e. dr_sequence (he_record e)"
  have sorted: "canonical (map ?seq (sort_key ?seq es)) \<longleftrightarrow> distinct (map ?seq es)" for es
    by (simp add: canonical_iff distinct_map)
  have set: "set entries' = set entries" using assms by (rule mset_eq_setD)
  have "mset (map ?seq entries') = mset (map ?seq entries)" using assms by simp
  then have dist: "distinct (map ?seq entries') \<longleftrightarrow> distinct (map ?seq entries)"
    by (metis mset_eq_imp_distinct_iff)
  have "validate_and_order_history scope entries' = validate_and_order_history scope entries"
  proof (cases "distinct (map ?seq entries)")
    case True
    with dist have "sort_key ?seq entries' = sort_key ?seq entries"
      by (intro sort_key_distinct_cong) (simp_all add: set distinct_map)
    then show ?thesis by (simp add: validate_and_order_history_def)
  next
    case False
    with dist show ?thesis by (simp add: validate_and_order_history_def Let_def sorted)
  qed
  then show ?thesis by (simp add: build_disclosure_state_def)
qed

definition sample_entry :: "int \<Rightarrow> lifecycle \<Rightarrow> history_entry" where
  "sample_entry n l = \<lparr>he_record = (sample_record 0 None)\<lparr>dr_sequence := n,
     dr_previous_content_sha256 := if n = 1 then None else Some zero_sha256\<rparr>, he_lifecycle = l\<rparr>"

lemma history_order_irrelevant_witness:
  "build_disclosure_state sample_hash sample_scope [sample_entry 2 LC_ABORTED, sample_entry 1 LC_ABORTED] id_release
     (Some id_composition) zero_sha256 zero_sha256 zero_sha256 (Some zero_sha256) = Inr id_state"
proof -
  have ordered: "validate_and_order_history sample_scope [sample_entry 1 LC_ABORTED, sample_entry 2 LC_ABORTED]
      = Inr [sample_entry 1 LC_ABORTED, sample_entry 2 LC_ABORTED]"
    by code_simp
  have "build_disclosure_state sample_hash sample_scope [sample_entry 1 LC_ABORTED, sample_entry 2 LC_ABORTED]
      id_release (Some id_composition) zero_sha256 zero_sha256 zero_sha256 (Some zero_sha256)
    = build_disclosure_state sample_hash sample_scope [] id_release (Some id_composition) zero_sha256 zero_sha256
      zero_sha256 (Some zero_sha256)"
    by (simp add: build_disclosure_state_def ordered)
      (simp add: validate_and_order_history_def active_records_def sample_entry_def)
  then show ?thesis
    by (subst history_order_irrelevant [where entries = "[sample_entry 1 LC_ABORTED, sample_entry 2 LC_ABORTED]"])
      (simp_all add: id_state_built)
qed

text \<open>A pending reservation counts as released: releasing the pending entries of a
  history changes nothing in the state, so no release can be planned around a reservation that is
  still open.\<close>

theorem pending_is_active:
  "build_disclosure_state H scope (map release_pending entries) semantic composition purpose governance root warehouse
    = build_disclosure_state H scope entries semantic composition purpose governance root warehouse"
proof (cases "validate_and_order_history scope entries")
  case (Inr ordered)
  then show ?thesis
    by (simp add: build_disclosure_state_def validate_and_order_release_pending active_records_map)
qed (simp add: build_disclosure_state_def validate_and_order_release_pending)

section \<open>Linkage across releases\<close>

lemma output_field_in:
  assumes "out \<in> set (sr_outputs semantic)" and "column \<in> set (so_sources out)"
  shows "output_atom (sr_semantic_sha256 semantic) (so_kind out) column \<in> set (release_atom_fields semantic composition)"
  using assms by (auto simp: release_atom_fields_def Let_def)

text \<open>A live release of the history, or the candidate, that outputs a column of this category in
  linkable form.\<close>

definition links :: "history_entry list \<Rightarrow> semantic_release \<Rightarrow> sensitivity_category \<Rightarrow> bool" where
  "links entries semantic category \<longleftrightarrow>
     (\<exists>release \<in> insert semantic {ev_semantic (dr_event (he_record e)) | e. e \<in> set entries \<and> he_lifecycle e \<noteq> LC_ABORTED}.
        \<exists>out \<in> set (sr_outputs release). so_kind out \<in> set linkable_output_kinds
          \<and> (\<exists>column \<in> set (so_sources out). gc_category column = category))"

lemma links_released:
  assumes "links entries semantic category"
    and "set released = (\<lambda>f. f\<lparr>at_atom_sha256 := compute_atom_sha256 H f\<rparr>) ` contributed_fields entries semantic composition"
  shows "with_category category (linkable_outputs released) \<noteq> []"
proof -
  from assms(1) obtain release out column where
    release: "release \<in> insert semantic {ev_semantic (dr_event (he_record e)) | e. e \<in> set entries \<and> he_lifecycle e \<noteq> LC_ABORTED}"
    and out: "out \<in> set (sr_outputs release)" "so_kind out \<in> set linkable_output_kinds"
    and column: "column \<in> set (so_sources out)" "gc_category column = category"
    unfolding links_def by blast
  let ?field = "output_atom (sr_semantic_sha256 release) (so_kind out) column"
  let ?atom = "?field\<lparr>at_atom_sha256 := compute_atom_sha256 H ?field\<rparr>"
  note field = output_field_in [OF out(1) column(1)]
  have "?field \<in> contributed_fields entries semantic composition"
    using release
  proof
    assume "release = semantic"
    with field [of composition] show ?thesis by (simp add: contributed_fields_def)
  next
    assume "release \<in> {ev_semantic (dr_event (he_record e)) | e. e \<in> set entries \<and> he_lifecycle e \<noteq> LC_ABORTED}"
    then obtain e where "e \<in> set entries" "he_lifecycle e \<noteq> LC_ABORTED"
      "release = ev_semantic (dr_event (he_record e))" by blast
    with field [of "ev_composition (dr_event (he_record e))"] show ?thesis
      unfolding contributed_fields_def by blast
  qed
  with assms(2) have "?atom \<in> set released" by blast
  moreover have "so_kind out \<in> set revealing_output_kinds"
    using out(2) by (auto simp: linkable_output_kinds_def revealing_output_kinds_def)
  ultimately have "?atom \<in> set (with_category category (linkable_outputs released))"
    using out(2) column(2)
    by (simp add: with_category_def linkable_outputs_def revealing_outputs_def output_atom_def release_atom_def blank_atom_def)
  then show ?thesis by auto
qed

text \<open>C39: cross_release_linkage_derived. Splitting a linkage over several releases does not hide it:
  whenever a live release of the history or the candidate outputs an identifier in linkable form
  and a live release or the candidate, the same or another one, outputs a sensitive attribute in
  linkable form, the built state derives the coexposure of that identifier category, provided no
  two contributed atoms and no two instantiated rules share a hash.\<close>

theorem cross_release_linkage_derived:
  assumes "build_disclosure_state H scope entries semantic composition purpose governance root warehouse = Inr s"
    and "links entries semantic category" and "links entries semantic SENSITIVE_ATTRIBUTE"
    and "category \<in> {DIRECT_IDENTIFIER, STABLE_PSEUDONYM}"
    and "inj_on at_atom_sha256 ((\<lambda>f. f\<lparr>at_atom_sha256 := compute_atom_sha256 H f\<rparr>)
        ` contributed_fields entries semantic composition)"
    and "all_rules H (ds_released_atoms s) = Inr rules" and "inj_on ru_rule_sha256 (set rules)"
  shows "coexposure_atom H category \<in> set (ds_derived_atoms s)"
proof -
  let ?fin = "\<lambda>f. f\<lparr>at_atom_sha256 := compute_atom_sha256 H f\<rparr>"
  from assms(1) obtain atoms where atoms: "set atoms \<subseteq> ?fin ` contributed_fields entries semantic composition"
    "at_atom_sha256 ` set atoms = compute_atom_sha256 H ` contributed_fields entries semantic composition"
    "ds_released_atoms s = by_key at_atom_sha256 atoms" and valid: "validate_state H s = Inr s"
    by (rule build_state_Inr)
  have "set atoms = ?fin ` contributed_fields entries semantic composition"
    using inj_on_image_eq_iff [OF assms(5) atoms(1) subset_refl] atoms(2) by (simp add: image_image)
  with assms(5) atoms(3) have released: "set (ds_released_atoms s) = ?fin ` contributed_fields entries semantic composition"
    by (simp add: set_by_key)
  from valid obtain canon where v: "instantiate_rules H (ds_released_atoms s) = Inr canon"
    "least_fixed_point (ds_released_atoms s) canon = Inr (ds_derived_atoms s)" by (rule validate_state_Inr)
  from v(1) assms(6,7) have "set canon = set rules" by (auto elim: instantiate_rules_Inr simp: set_by_key)
  with closure_consequents [OF v] have "set (ds_derived_atoms s) = ru_consequent ` set rules" by simp
  moreover have "category \<in> set identifier_categories" using assms(4) by (auto simp: identifier_categories_def)
  ultimately show ?thesis
    using links_released [OF assms(2) released] links_released [OF assms(3) released]
    unfolding all_rules_result(1) [OF assms(6)] by blast
qed

definition dx_release :: semantic_release where
  "dx_release = \<lparr>sr_source_dataset_urns = [''a''],
     sr_outputs = [\<lparr>so_kind = RAW_VALUE, so_sources = [sample_column ''dx'' SENSITIVE_ATTRIBUTE]\<rparr>],
     sr_referenced_columns = [sample_column ''dx'' SENSITIVE_ATTRIBUTE], sr_join_columns = [],
     sr_group_keys = [], sr_aggregate_functions = [], sr_minimum_group_size_present = None,
     sr_semantic_sha256 = sample_digest ''47''\<rparr>"

definition dx_composition :: disclosure_composition where
  "dx_composition = id_composition\<lparr>co_release_family_sha256 := sample_digest ''47''\<rparr>"

definition dx_atoms :: "disclosure_atom list" where
  "dx_atoms = (let sha = sample_digest ''47''; c = sample_column ''dx'' SENSITIVE_ATTRIBUTE in
     [(role_atom sha ROLE_REFERENCED c)\<lparr>at_atom_sha256 := sample_digest ''04''\<rparr>,
      (output_atom sha RAW_VALUE c)\<lparr>at_atom_sha256 := sample_digest ''2e''\<rparr>,
      (release_atom SEMANTIC_RELEASE sha)\<lparr>at_atom_sha256 := sample_digest ''78''\<rparr>,
      (release_atom COHORT sha)\<lparr>at_release_family_sha256 := Some sha, at_cohort_hmac_sha256 := Some zero_sha256,
         at_protected_release := Some True, at_atom_sha256 := sample_digest ''7c''\<rparr>,
      (release_atom SOURCE_DATASET sha)\<lparr>at_dataset_urn := Some ''a'', at_atom_sha256 := sample_digest ''dc''\<rparr>])"

lemma dx_release_atoms: "direct_atoms_for_release sample_hash dx_release (Some dx_composition) = Inr dx_atoms"
  by code_simp

definition linked_history :: "history_entry list" where
  "linked_history = [\<lparr>he_record = (sample_record 0 (Some id_composition))
     \<lparr>dr_event := (sample_event (Some id_composition))\<lparr>ev_semantic := id_release\<rparr>\<rparr>, he_lifecycle = LC_PENDING\<rparr>]"

definition linked_atoms :: "disclosure_atom list" where
  "linked_atoms = [dx_atoms ! 0, id_atoms ! 0, id_atoms ! 1, dx_atoms ! 1, id_atoms ! 2, dx_atoms ! 2,
     dx_atoms ! 3, id_atoms ! 3, id_atoms ! 4, dx_atoms ! 4]"

definition linked_state :: disclosure_state where
  "linked_state = id_state\<lparr>ds_released_atoms := linked_atoms, ds_derived_atoms := sample_derived,
     ds_inference_rules_sha256 := sample_digest ''5b'', ds_state_sha256 := sample_digest ''c4''\<rparr>"

definition linked_rules :: "inference_rule list" where
  "linked_rules =
     [\<lparr>ru_family = FAMILY_CATEGORY_PRESENCE, ru_antecedents = [sample_digest ''2e''],
       ru_consequent = sample_derived ! 2, ru_rule_sha256 = sample_digest ''29''\<rparr>,
      \<lparr>ru_family = FAMILY_CATEGORY_PRESENCE, ru_antecedents = [sample_digest ''a5''],
       ru_consequent = sample_derived ! 1, ru_rule_sha256 = sample_digest ''66''\<rparr>,
      \<lparr>ru_family = FAMILY_COEXPOSURE, ru_antecedents = [sample_digest ''2e'', sample_digest ''a5''],
       ru_consequent = sample_derived ! 0, ru_rule_sha256 = sample_digest ''ac''\<rparr>]"

lemma linked_all_rules: "all_rules sample_hash linked_atoms = Inr linked_rules"
  by code_simp

lemma linked_closure: "least_fixed_point linked_atoms linked_rules = Inr sample_derived"
  by code_simp

lemma linked_rules_sha256: "compute_inference_rules_sha256 sample_hash linked_rules = sample_digest ''5b''"
  by code_simp

lemma linked_state_sha256: "compute_state_sha256 sample_hash linked_state = sample_digest ''c4''"
  by code_simp

lemma linked_rules_by_key: "by_key ru_rule_sha256 linked_rules = linked_rules"
  by code_simp

lemma linked_atoms_canonical: "require_canonical_atoms linked_atoms direct_atom_kinds = Inr ()"
  by code_simp

lemma sample_derived_canonical: "require_canonical_atoms sample_derived derived_atom_kinds = Inr ()"
  by code_simp

lemma linked_disjoint: "at_atom_sha256 ` set linked_atoms \<inter> at_atom_sha256 ` set sample_derived = {}"
  by (simp add: linked_atoms_def id_atoms_def dx_atoms_def sample_derived_def Let_def sample_digest_def)

lemma sample_digests: "is_sha256 zero_sha256" "is_sha256 (sample_digest ''5b'')" "is_sha256 (sample_digest ''c4'')"
  by code_simp+

lemma linked_state_fields:
  "ds_released_atoms linked_state = linked_atoms" "ds_derived_atoms linked_state = sample_derived"
  "ds_inference_rules_sha256 linked_state = sample_digest ''5b''" "ds_state_sha256 linked_state = sample_digest ''c4''"
  "ds_purpose_commitment_sha256 linked_state = zero_sha256" "ds_governance_commitment_sha256 linked_state = zero_sha256"
  "ds_evidence_root_sha256 linked_state = zero_sha256" "ds_warehouse_snapshot_sha256 linked_state = Some zero_sha256"
  by (simp_all add: linked_state_def id_state_def)

lemma linked_state_valid: "validate_state sample_hash linked_state = Inr linked_state"
proof -
  have "instantiate_rules sample_hash linked_atoms = Inr linked_rules"
    by (simp add: instantiate_rules_def linked_atoms_canonical linked_all_rules linked_rules_by_key Let_def)
      (simp add: linked_rules_def)
  moreover have "len_between 1 4096 linked_atoms" "len_between 0 4096 sample_derived"
    by (simp_all add: len_between_def linked_atoms_def sample_derived_def)
  ultimately show ?thesis
    by (simp add: validate_state_def linked_state_fields linked_closure linked_rules_sha256 linked_state_sha256
        linked_atoms_canonical sample_derived_canonical linked_disjoint sample_digests)
qed

lemma linked_atoms_merge: "by_key at_atom_sha256 (id_atoms @ dx_atoms) = linked_atoms"
  by code_simp

lemma linked_state_built:
  "build_disclosure_state sample_hash sample_scope linked_history dx_release (Some dx_composition) zero_sha256
     zero_sha256 zero_sha256 (Some zero_sha256) = Inr linked_state"
proof -
  have ordered: "validate_and_order_history sample_scope linked_history = Inr linked_history" by code_simp
  have active: "active_records linked_history = map he_record linked_history"
    and event: "map (\<lambda>e. dr_event (he_record e)) linked_history
      = [(sample_event (Some id_composition))\<lparr>ev_semantic := id_release\<rparr>]"
    by (simp_all add: linked_history_def active_records_def)
  have hist: "mapr (\<lambda>r. direct_atoms_for_release sample_hash (ev_semantic (dr_event r)) (ev_composition (dr_event r)))
      (map he_record linked_history) = Inr [id_atoms]"
    by (simp add: linked_history_def id_release_atoms)
  have len: "length linked_atoms = 10" by (simp add: linked_atoms_def)
  have state: "\<lparr>ds_scope = sample_scope, ds_purpose_commitment_sha256 = zero_sha256,
     ds_governance_commitment_sha256 = zero_sha256, ds_evidence_root_sha256 = zero_sha256,
     ds_warehouse_snapshot_sha256 = Some zero_sha256, ds_released_atoms = linked_atoms,
     ds_derived_atoms = [], ds_inference_rules_sha256 = zero_sha256, ds_state_sha256 = zero_sha256\<rparr>
     = linked_state\<lparr>ds_derived_atoms := [], ds_inference_rules_sha256 := zero_sha256, ds_state_sha256 := zero_sha256\<rparr>"
    by (simp add: linked_state_def id_state_def)
  show ?thesis
    by (simp add: build_disclosure_state_def ordered active hist dx_release_atoms linked_atoms_merge len state
        close_validated [OF linked_state_valid] Let_def)
qed

lemma linked_fields_hashed:
  "map (\<lambda>f. f\<lparr>at_atom_sha256 := compute_atom_sha256 sample_hash f\<rparr>)
     (release_atom_fields id_release (Some id_composition) @ release_atom_fields dx_release (Some dx_composition))
   = [id_atoms ! 3, id_atoms ! 2, id_atoms ! 4, id_atoms ! 0, id_atoms ! 1,
      dx_atoms ! 2, dx_atoms ! 4, dx_atoms ! 1, dx_atoms ! 0, dx_atoms ! 3]"
  by code_simp

lemma linked_hashes_inj:
  "inj_on at_atom_sha256 (set [id_atoms ! 3, id_atoms ! 2, id_atoms ! 4, id_atoms ! 0, id_atoms ! 1,
      dx_atoms ! 2, dx_atoms ! 4, dx_atoms ! 1, dx_atoms ! 0, dx_atoms ! 3])" (is "inj_on _ (set ?atoms)")
proof -
  have "distinct (map at_atom_sha256 ?atoms)" by code_simp
  then show ?thesis by (simp only: distinct_map)
qed

lemma cross_release_linkage_derived_witness:
  "coexposure_atom sample_hash DIRECT_IDENTIFIER \<in> set sample_derived"
proof -
  have fields: "contributed_fields linked_history dx_release (Some dx_composition)
      = set (release_atom_fields id_release (Some id_composition) @ release_atom_fields dx_release (Some dx_composition))"
    by (simp add: contributed_fields_def linked_history_def)
  have inj: "inj_on at_atom_sha256 ((\<lambda>f. f\<lparr>at_atom_sha256 := compute_atom_sha256 sample_hash f\<rparr>)
      ` contributed_fields linked_history dx_release (Some dx_composition))"
    unfolding fields set_map [symmetric] linked_fields_hashed by (rule linked_hashes_inj)
  have "links linked_history dx_release DIRECT_IDENTIFIER" "links linked_history dx_release SENSITIVE_ATTRIBUTE"
    by (auto simp: links_def linked_history_def id_release_def dx_release_def linkable_output_kinds_def sample_column_def)
  moreover have "ds_released_atoms linked_state = linked_atoms" "ds_derived_atoms linked_state = sample_derived"
    by (simp_all add: linked_state_def)
  moreover have "inj_on ru_rule_sha256 (set linked_rules)" by (simp add: linked_rules_def sample_digest_def)
  ultimately show ?thesis
    using cross_release_linkage_derived [OF linked_state_built _ _ _ inj, of DIRECT_IDENTIFIER linked_rules]
      linked_all_rules by simp
qed

end
