(* ===== verification/Forbidden_Theorems.thy ===== *)
theory Forbidden_Theorems
  imports Forbidden Twin_Theorems
begin

text \<open>
  What \<open>prospective/forbidden.py\<close> guarantees: the evaluation reports exactly the predicates
  that hold and returns whenever a witness fits its bound, and its linkage predicates agree with the
  inference rules of the twin, which were written independently.
\<close>

section \<open>A concrete evaluation\<close>

definition sample_policy :: forbidden_policy where
  "sample_policy = \<lparr>fp_minimum_group_size = 5, fp_policy_sha256 =
     compute_forbidden_policy_sha256 sample_hash \<lparr>fp_minimum_group_size = 5, fp_policy_sha256 = zero_sha256\<rparr>\<rparr>"

definition sample_binding :: governance_binding where
  "sample_binding = (let b = \<lparr>gb_governance_commitment_sha256 = zero_sha256, gb_trusted = True,
       gb_trust_evidence_sha256 = zero_sha256, gb_binding_sha256 = zero_sha256\<rparr>
     in b\<lparr>gb_binding_sha256 := compute_governance_trust_binding_sha256 sample_hash b\<rparr>)"

definition empty_path :: temporal_path where
  "empty_path = (let p = \<lparr>tp_observations = [], tp_path_sha256 = zero_sha256\<rparr>
     in p\<lparr>tp_path_sha256 := compute_temporal_path_sha256 sample_hash p\<rparr>)"

lemmas sample_json_digest = hex_digest_sha256 [OF hex_digest_sample]

lemma sample_policy_valid: "validate_forbidden_policy sample_hash sample_policy = Inr sample_policy"
  by (simp add: sample_policy_def validate_forbidden_policy_def compute_forbidden_policy_sha256_def sample_json_digest)

lemma sample_policy_minimum [simp]: "fp_minimum_group_size sample_policy = 5"
  by (simp add: sample_policy_def)

lemma sample_binding_valid: "validate_governance_binding sample_hash sample_binding = Inr sample_binding"
  by (simp add: sample_binding_def Let_def validate_governance_binding_def compute_governance_trust_binding_sha256_def
      sample_json_digest sample_digests)

lemma sample_binding_trusted [simp]: "gb_trusted sample_binding" "gb_governance_commitment_sha256 sample_binding = zero_sha256"
  by (simp_all add: sample_binding_def Let_def)

lemma empty_path_valid: "valid_path sample_hash empty_path"
  by (simp add: empty_path_def Let_def valid_path_def validate_path_def compute_temporal_path_sha256_def
      len_between_def sample_json_digest)

lemma empty_path_clear [simp]: "\<not> differenced empty_path"
  by (simp add: empty_path_def Let_def differenced_def sensitive_pairs_def relevant_observations_def)

lemma linked_atoms_valid: "list_all (\<lambda>a. validate_atom sample_hash a = Inr a) linked_atoms"
  by code_simp

lemma linked_state_evaluates:
  "\<exists>e. evaluate_forbidden_state sample_hash linked_state sample_policy (Some sample_binding) (Some empty_path) = Inr e"
proof (rule evaluate_total [OF hex_digest_sample])
  show "is_sha256 (ds_state_sha256 linked_state)" by (simp add: linked_state_fields sample_digests)
  show "valid_atoms sample_hash (ds_released_atoms linked_state)"
    using linked_atoms_valid by (simp add: linked_state_fields valid_atoms_def list_all_iff)
  show "small_releases (ds_released_atoms linked_state)"
    unfolding small_releases_def
  proof
    fix r
    have "card (at_atom_sha256 ` {a \<in> set linked_atoms. at_release_semantic_sha256 a = Some r \<and> at_kind a = COLUMN_EXPOSURE})
        \<le> card (set linked_atoms)"
      by (rule le_trans [OF card_image_le card_mono]) auto
    also have "\<dots> \<le> length linked_atoms" by (rule card_length)
    finally show "card (at_atom_sha256 ` {a \<in> set (ds_released_atoms linked_state).
        at_release_semantic_sha256 a = Some r \<and> at_kind a = COLUMN_EXPOSURE}) \<le> 15"
      by (simp add: linked_state_fields linked_atoms_def)
  qed
qed (simp_all add: empty_path_valid sample_policy_valid sample_binding_valid)

section \<open>The predicates decided\<close>

text \<open>C9: forbidden_exact. On a state whose atoms passed validation, an evaluation that returns
  lists as matched exactly the predicates that hold, in the order F1 to F6: an identifier and a
  sensitive attribute linkable in one release (F1 for direct identifiers, F2 for pseudonyms), a
  grouped sensitive release whose minimum group size is missing or below the policy (F3), the same
  linkage across two releases (F4), one sensitive release seen over two snapshots (F5), and a
  governance commitment that is not bound by a trusted binding (F6). Only F5 can be
  indeterminate, exactly when no temporal path is given. Every witness of F1 to F4 and F6 names
  released atoms of the state.\<close>

theorem forbidden_exact:
  assumes "evaluate_forbidden_state H s policy binding path = Inr e"
    and "\<forall>a \<in> set (ds_released_atoms s). validate_atom H a = Inr a"
  shows "se_matched_predicates e = filter (predicate_holds s (fp_minimum_group_size policy) binding path) all_predicates
    \<and> se_indeterminate_predicates e = (if path = None then [F5_TEMPORAL_DIFFERENCING] else [])
    \<and> se_forbidden e = (\<exists>p. predicate_holds s (fp_minimum_group_size policy) binding path p)
    \<and> (\<forall>p \<in> set (se_predicates e). pe_predicate_id p \<noteq> F5_TEMPORAL_DIFFERENCING \<longrightarrow>
         set (pe_witness_atom_sha256s p) \<subseteq> at_atom_sha256 ` set (ds_released_atoms s))"
proof -
  have mins: "minimums_set s" using assms(2) by (intro valid_atoms_minimums) (simp add: valid_atoms_def)
  from assms(1) have "evaluate_predicates H s policy binding path = Inr (se_predicates e)"
    by (rule evaluate_forbidden_Inr)
  from evaluate_predicates_Inr(4) [OF this mins] evaluate_summary [OF assms(1) mins] show ?thesis by blast
qed

lemma linked_cross: "cross_release_linked (linkable_outputs linked_atoms)"
proof -
  have "linked_atoms ! 8 \<in> set (linkable_outputs linked_atoms)" "linked_atoms ! 3 \<in> set (linkable_outputs linked_atoms)"
    by code_simp+
  moreover have "at_category (linked_atoms ! 8) = Some DIRECT_IDENTIFIER" "at_category (linked_atoms ! 3) = Some SENSITIVE_ATTRIBUTE"
    "at_release_semantic_sha256 (linked_atoms ! 8) \<noteq> at_release_semantic_sha256 (linked_atoms ! 3)"
    by code_simp+
  ultimately show ?thesis unfolding cross_release_linked_def by blast
qed

lemma forbidden_exact_witness:
  "\<exists>e. evaluate_forbidden_state sample_hash linked_state sample_policy (Some sample_binding) (Some empty_path) = Inr e
     \<and> F4_CROSS_RELEASE_COMPOSITION \<in> set (se_matched_predicates e)
     \<and> F5_TEMPORAL_DIFFERENCING \<notin> set (se_matched_predicates e)"
proof -
  obtain e where e: "evaluate_forbidden_state sample_hash linked_state sample_policy (Some sample_binding) (Some empty_path) = Inr e"
    using linked_state_evaluates by blast
  have "\<forall>a \<in> set (ds_released_atoms linked_state). validate_atom sample_hash a = Inr a"
    using linked_atoms_valid by (simp add: linked_state_fields list_all_iff)
  with forbidden_exact [OF e] e linked_cross show ?thesis by (auto simp: all_predicates_def linked_state_fields)
qed

text \<open>The evaluation of a validated state, with validated policy, binding and
  path, returns as long as no release exposes more than 15 distinct column atoms: no assertion
  of the predicates can fail, F5 always finds its second observation, and every summary passes its
  own validation. Beyond that bound F3 can need more than the 16 witnesses a predicate may name.\<close>

theorem evaluation_returns:
  assumes "\<forall>text. is_sha256 (H text)" and "is_sha256 (ds_state_sha256 s)"
    and "\<forall>a \<in> set (ds_released_atoms s). validate_atom H a = Inr a"
    and "\<forall>release. card (at_atom_sha256 ` {a \<in> set (ds_released_atoms s).
        at_release_semantic_sha256 a = Some release \<and> at_kind a = COLUMN_EXPOSURE}) \<le> 15"
    and "validate_forbidden_policy H policy = Inr policy"
    and "opt_all (\<lambda>b. validate_governance_binding H b = Inr b) binding"
    and "opt_all (\<lambda>p. validate_path H p = Inr p \<and> list_all (\<lambda>t. validate_observation H t = Inr t) (tp_observations p)) path"
  shows "\<exists>e. evaluate_forbidden_state H s policy binding path = Inr e"
proof (rule evaluate_total)
  show "hex_digest H" using assms(1) by (simp add: hex_digest_def)
  show "valid_path H p" if "path = Some p" for p using assms(7) that by (simp add: valid_path_def list_all_iff)
  show "validate_governance_binding H b = Inr b" if "binding = Some b" for b using assms(6) that by simp
qed (use assms in \<open>simp_all add: valid_atoms_def small_releases_def\<close>)

lemma evaluation_returns_witness:
  "\<exists>e. evaluate_forbidden_state sample_hash linked_state sample_policy (Some sample_binding) None = Inr e"
proof (rule evaluation_returns)
  show "\<forall>text. is_sha256 (sample_hash text)" using hex_digest_sample by (simp add: hex_digest_def)
  show "\<forall>a \<in> set (ds_released_atoms linked_state). validate_atom sample_hash a = Inr a"
    using linked_atoms_valid by (simp add: linked_state_fields list_all_iff)
  show "\<forall>r. card (at_atom_sha256 ` {a \<in> set (ds_released_atoms linked_state).
        at_release_semantic_sha256 a = Some r \<and> at_kind a = COLUMN_EXPOSURE}) \<le> 15"
  proof
    fix r
    have "card (at_atom_sha256 ` {a \<in> set linked_atoms. at_release_semantic_sha256 a = Some r \<and> at_kind a = COLUMN_EXPOSURE})
        \<le> card (set linked_atoms)"
      by (rule le_trans [OF card_image_le card_mono]) auto
    also have "\<dots> \<le> length linked_atoms" by (rule card_length)
    finally show "card (at_atom_sha256 ` {a \<in> set (ds_released_atoms linked_state).
        at_release_semantic_sha256 a = Some r \<and> at_kind a = COLUMN_EXPOSURE}) \<le> 15"
      by (simp add: linked_state_fields linked_atoms_def)
  qed
qed (simp_all add: linked_state_fields sample_digests sample_policy_valid sample_binding_valid)

section \<open>Agreement with the inference rules\<close>

text \<open>The predicates and the twin's inference rules decide linkage alike: in a
  validated state a coexposure atom is derived only if F1, F2 or F4 matches, and when the
  instantiated rules do not collide the converse holds too.\<close>

theorem linkage_agrees:
  assumes "validate_state H s = Inr s'" and "all_rules H (ds_released_atoms s) = Inr rules"
    and "\<forall>a \<in> set (ds_released_atoms s). validate_atom H a = Inr a"
    and "evaluate_forbidden_state H s policy binding path = Inr e"
  shows "let linked = {F1_DIRECT_SENSITIVE_LINKAGE, F2_STABLE_LINKABLE_SENSITIVE, F4_CROSS_RELEASE_COMPOSITION}
           \<inter> set (se_matched_predicates e) \<noteq> {};
      derived = (\<exists>a \<in> set (ds_derived_atoms s). at_kind a = IDENTIFIER_SENSITIVE_COEXPOSURE)
    in (derived \<longrightarrow> linked) \<and> (inj_on ru_rule_sha256 (set rules) \<longrightarrow> derived = linked)"
proof -
  let ?link = "linkable_outputs (ds_released_atoms s)"
  let ?pair = "\<lambda>c. with_category c ?link \<noteq> [] \<and> with_category SENSITIVE_ATTRIBUTE ?link \<noteq> []"
  let ?derived = "\<exists>a \<in> set (ds_derived_atoms s). at_kind a = IDENTIFIER_SENSITIVE_COEXPOSURE"
  have mins: "minimums_set s" using assms(3) by (intro valid_atoms_minimums) (simp add: valid_atoms_def)
  from assms(1) obtain canon where v: "instantiate_rules H (ds_released_atoms s) = Inr canon"
    "least_fixed_point (ds_released_atoms s) canon = Inr (ds_derived_atoms s)" by (rule validate_state_Inr)
  from v(1) assms(2) have canon: "canon = by_key ru_rule_sha256 rules" by (auto elim: instantiate_rules_Inr)
  note cons = closure_consequents [OF v]
  have all: "(\<exists>x \<in> ru_consequent ` set rules. at_kind x = IDENTIFIER_SENSITIVE_COEXPOSURE)
      \<longleftrightarrow> ?pair DIRECT_IDENTIFIER \<or> ?pair STABLE_PSEUDONYM"
  proof
    assume "\<exists>x \<in> ru_consequent ` set rules. at_kind x = IDENTIFIER_SENSITIVE_COEXPOSURE"
    then show "?pair DIRECT_IDENTIFIER \<or> ?pair STABLE_PSEUDONYM"
      unfolding all_rules_result(1) [OF assms(2)] by (auto simp: identifier_categories_def)
  next
    have mem: "coexposure_atom H c \<in> ru_consequent ` set rules" if "?pair c" "c \<in> set identifier_categories" for c
      unfolding all_rules_result(1) [OF assms(2)] using that by blast
    have ids: "DIRECT_IDENTIFIER \<in> set identifier_categories" "STABLE_PSEUDONYM \<in> set identifier_categories"
      by (simp_all add: identifier_categories_def)
    assume "?pair DIRECT_IDENTIFIER \<or> ?pair STABLE_PSEUDONYM"
    then obtain c where "coexposure_atom H c \<in> ru_consequent ` set rules" using mem ids by blast
    then show "\<exists>x \<in> ru_consequent ` set rules. at_kind x = IDENTIFIER_SENSITIVE_COEXPOSURE"
      by (rule bexI [rotated]) simp
  qed
  have sub: "ru_consequent ` set canon \<subseteq> ru_consequent ` set rules"
    unfolding canon by (rule image_mono [OF set_by_key_subset])
  have "?derived \<Longrightarrow> \<exists>x \<in> ru_consequent ` set rules. at_kind x = IDENTIFIER_SENSITIVE_COEXPOSURE"
    unfolding cons using sub by blast
  moreover have "inj_on ru_rule_sha256 (set rules) \<Longrightarrow>
      ?derived = (\<exists>x \<in> ru_consequent ` set rules. at_kind x = IDENTIFIER_SENSITIVE_COEXPOSURE)"
    unfolding cons canon by (simp add: set_by_key)
  moreover have "?pair DIRECT_IDENTIFIER \<or> ?pair STABLE_PSEUDONYM \<longleftrightarrow>
      {F1_DIRECT_SENSITIVE_LINKAGE, F2_STABLE_LINKABLE_SENSITIVE, F4_CROSS_RELEASE_COMPOSITION}
        \<inter> set (se_matched_predicates e) \<noteq> {}"
  proof -
    have rel: "at_release_semantic_sha256 a \<noteq> None" if "a \<in> set ?link" for a
      using that assms(3) by (intro valid_atomD(4) [of H]) (auto simp: linkable_outputs_def revealing_outputs_def)
    have "{F1_DIRECT_SENSITIVE_LINKAGE, F2_STABLE_LINKABLE_SENSITIVE, F4_CROSS_RELEASE_COMPOSITION}
        \<inter> set (se_matched_predicates e) \<noteq> {} \<longleftrightarrow> same_release_linked ?link DIRECT_IDENTIFIER
          \<or> same_release_linked ?link STABLE_PSEUDONYM \<or> cross_release_linked ?link"
      unfolding evaluate_summary(1) [OF assms(4) mins] by (auto simp: all_predicates_def)
    moreover have "?pair c \<longleftrightarrow> (\<exists>i \<in> set ?link. \<exists>x \<in> set ?link. at_category i = Some c \<and> at_category x = Some SENSITIVE_ATTRIBUTE)" for c
      unfolding Nil_iff_no_member set_with_category by blast
    moreover have "same_release_linked ?link DIRECT_IDENTIFIER \<or> same_release_linked ?link STABLE_PSEUDONYM
        \<or> cross_release_linked ?link \<longleftrightarrow> (\<exists>i \<in> set ?link. \<exists>x \<in> set ?link.
          at_category i \<in> {Some DIRECT_IDENTIFIER, Some STABLE_PSEUDONYM} \<and> at_category x = Some SENSITIVE_ATTRIBUTE)"
      (is "?linked \<longleftrightarrow> ?both")
    proof
      assume ?both
      then obtain i x where ix: "i \<in> set ?link" "x \<in> set ?link" "at_category x = Some SENSITIVE_ATTRIBUTE"
        and cat: "at_category i = Some DIRECT_IDENTIFIER \<or> at_category i = Some STABLE_PSEUDONYM" by blast
      show ?linked
      proof (cases "at_release_semantic_sha256 i = at_release_semantic_sha256 x")
        case True
        with ix cat rel [OF ix(1)] show ?thesis unfolding same_release_linked_def by blast
      next
        case False
        with ix cat show ?thesis unfolding cross_release_linked_def by blast
      qed
    qed (unfold same_release_linked_def cross_release_linked_def, blast)
    ultimately show ?thesis by (simp only: insert_iff empty_iff simp_thms) blast
  qed
  ultimately show ?thesis using all by (simp add: Let_def)
qed

lemma linkage_agrees_witness:
  "\<exists>e. evaluate_forbidden_state sample_hash linked_state sample_policy (Some sample_binding) (Some empty_path) = Inr e
     \<and> {F1_DIRECT_SENSITIVE_LINKAGE, F2_STABLE_LINKABLE_SENSITIVE, F4_CROSS_RELEASE_COMPOSITION}
         \<inter> set (se_matched_predicates e) \<noteq> {}"
proof -
  obtain e where e: "evaluate_forbidden_state sample_hash linked_state sample_policy (Some sample_binding) (Some empty_path) = Inr e"
    using linked_state_evaluates by blast
  have valid: "\<forall>a \<in> set (ds_released_atoms linked_state). validate_atom sample_hash a = Inr a"
    using linked_atoms_valid by (simp add: linked_state_fields list_all_iff)
  have rules: "all_rules sample_hash (ds_released_atoms linked_state) = Inr linked_rules"
    by (simp add: linked_state_fields linked_all_rules)
  have "\<exists>a \<in> set (ds_derived_atoms linked_state). at_kind a = IDENTIFIER_SENSITIVE_COEXPOSURE"
    by (simp add: linked_state_fields sample_derived_def blank_atom_def)
  with linkage_agrees [OF linked_state_valid rules valid e] e show ?thesis by (auto simp: Let_def)
qed

end
