(* ===== verification/Grammar_Theorems.thy ===== *)
theory Grammar_Theorems
  imports Grammar Forbidden_Theorems
begin

text \<open>
  What \<open>prospective/grammar.py\<close> guarantees: the snapshot loop computes reachability over the
  declared edges, the action set of a context offers only what the context declares, and the
  transition function moves a validated state inside the committed universe. The sample grammar
  of a raw-identifier release declares one further field and one snapshot edge; the search's samples
  run on it.
\<close>

section \<open>A concrete grammar\<close>

definition snap_edge :: snapshot_transition where
  "snap_edge = \<lparr>st_from_snapshot_sha256 = Some zero_sha256, st_to_snapshot_sha256 = sample_digest ''01''\<rparr>"

definition id_fields :: grammar_context where
  "id_fields = \<lparr>cx_initial_state_sha256 = sample_digest ''68'', cx_scope_sha256 = sc_scope_sha256 sample_scope,
     cx_purpose_commitment_sha256 = zero_sha256, cx_governance_commitment_sha256 = zero_sha256,
     cx_evidence_root_sha256 = zero_sha256, cx_base_warehouse_snapshot_sha256 = Some zero_sha256,
     cx_base_semantic = id_release, cx_base_composition = id_composition,
     cx_base_release_atom_sha256s = map at_atom_sha256 id_atoms,
     cx_relevant_projection_fields = [sample_column ''dx'' SENSITIVE_ATTRIBUTE], cx_group_key_fields = [],
     cx_aggregate_allowlist = [], cx_cohort_variant_hmacs = [], cx_snapshot_transitions = [snap_edge],
     cx_context_sha256 = zero_sha256\<rparr>"

definition id_context :: grammar_context where
  "id_context = id_fields\<lparr>cx_context_sha256 := compute_context_sha256 sample_hash id_fields\<rparr>"

definition pair_release :: semantic_release where
  "pair_release = \<lparr>sr_source_dataset_urns = [''a''],
     sr_outputs = [\<lparr>so_kind = RAW_VALUE, so_sources = [sample_column ''dx'' SENSITIVE_ATTRIBUTE]\<rparr>,
       \<lparr>so_kind = RAW_VALUE, so_sources = [sample_column ''id'' DIRECT_IDENTIFIER]\<rparr>],
     sr_referenced_columns = [sample_column ''dx'' SENSITIVE_ATTRIBUTE, sample_column ''id'' DIRECT_IDENTIFIER],
     sr_join_columns = [], sr_group_keys = [], sr_aggregate_functions = [], sr_minimum_group_size_present = None,
     sr_semantic_sha256 = sample_digest ''36''\<rparr>"

definition snap_action :: future_action where
  "snap_action = \<lparr>fa_kind = SNAPSHOT_ADVANCE, fa_semantic = None, fa_composition = None,
     fa_snapshot_from_sha256 = Some zero_sha256, fa_snapshot_sha256 = Some (sample_digest ''01''),
     fa_action_sha256 = sample_digest ''77''\<rparr>"

definition pair_action :: future_action where
  "pair_action = \<lparr>fa_kind = ADD_PROJECTION, fa_semantic = Some pair_release,
     fa_composition = Some (id_composition\<lparr>co_release_family_sha256 := sample_digest ''36''\<rparr>),
     fa_snapshot_from_sha256 = None, fa_snapshot_sha256 = None, fa_action_sha256 = sample_digest ''c2''\<rparr>"

definition replay_action :: future_action where
  "replay_action = \<lparr>fa_kind = REPLAY, fa_semantic = Some id_release, fa_composition = Some id_composition,
     fa_snapshot_from_sha256 = None, fa_snapshot_sha256 = None, fa_action_sha256 = sample_digest ''dc''\<rparr>"

definition id_grammar :: action_grammar where
  "id_grammar = (let g = \<lparr>gm_context = id_context, gm_actions = [snap_action, pair_action, replay_action],
     gm_grammar_sha256 = zero_sha256\<rparr> in g\<lparr>gm_grammar_sha256 := compute_grammar_sha256 sample_hash g\<rparr>)"

lemma id_context_valid: "validate_context sample_hash id_context = Inr id_context"
proof -
  have sha: "cx_context_sha256 id_context = compute_context_sha256 sample_hash id_context"
    and digest: "is_sha256 (compute_context_sha256 sample_hash id_fields)"
    by (simp_all add: id_context_def compute_context_sha256_def context_fields_json_def hex_digest_sha256 [OF hex_digest_sample])
  have rest: "raise_first (context_patterns id_fields) () = Inr ()" "raise_first (field_checks id_fields) () = Inr ()"
    "validate_base_semantic id_release = Inr ()"
    "validate_snapshot_transition_graph (cx_base_warehouse_snapshot_sha256 id_fields) (cx_snapshot_transitions id_fields) = Inr ()"
    "cx_base_release_atom_sha256s id_fields = sort (map at_atom_sha256 id_atoms)"
    "co_protected_release id_composition = is_protected_release id_release"
    "co_release_family_sha256 id_composition = sr_semantic_sha256 id_release"
    by code_simp+
  have base: "cx_base_semantic id_context = id_release" "cx_base_composition id_context = id_composition"
    by (simp_all add: id_context_def id_fields_def)
  from rest(1) digest have "raise_first (context_patterns id_context) () = Inr ()"
    by (simp add: context_patterns_def id_context_def)
  moreover from rest(2) have "raise_first (field_checks id_context) () = Inr ()"
    by (simp add: field_checks_def id_context_def)
  moreover from rest(4,5) have "cx_base_release_atom_sha256s id_context = sort (map at_atom_sha256 id_atoms)"
    "validate_snapshot_transition_graph (cx_base_warehouse_snapshot_sha256 id_context) (cx_snapshot_transitions id_context) = Inr ()"
    by (simp_all add: id_context_def)
  ultimately show ?thesis using rest(3,6,7) sha by (simp add: validate_context_def base id_release_atoms)
qed

lemma id_field_actions: "instantiate_actions sample_hash id_fields = Inr [snap_action, pair_action, replay_action]"
  by code_simp

lemma id_actions: "instantiate_actions sample_hash id_context = Inr [snap_action, pair_action, replay_action]"
  using id_field_actions by (simp add: instantiate_actions_def action_candidates_def id_context_def
      variant_action_def optional_variant_action_def release_variant_action_def)

lemma sample_digest_inj [simp]: "sample_digest s = sample_digest t \<longleftrightarrow> s = t"
  by (simp add: sample_digest_def)

lemma sample_action_shas [simp]: "fa_action_sha256 snap_action = sample_digest ''77''"
  "fa_action_sha256 pair_action = sample_digest ''c2''" "fa_action_sha256 replay_action = sample_digest ''dc''"
  by (simp_all add: snap_action_def pair_action_def replay_action_def)

lemma pair_action_valid: "validate_action sample_hash pair_action = Inr pair_action"
  by code_simp

lemma id_grammar_simps [simp]:
  "gm_context id_grammar = id_context" "gm_actions id_grammar = [snap_action, pair_action, replay_action]"
  by (simp_all add: id_grammar_def Let_def)

lemma id_grammar_valid: "validate_grammar sample_hash id_grammar = Inr id_grammar"
proof -
  have "gm_grammar_sha256 id_grammar = compute_grammar_sha256 sample_hash id_grammar"
    and "is_sha256 (gm_grammar_sha256 id_grammar)"
    by (simp_all add: id_grammar_def Let_def compute_grammar_sha256_def hex_digest_sha256 [OF hex_digest_sample])
  moreover have "canonical (map fa_action_sha256 [snap_action, pair_action, replay_action])" by code_simp
  ultimately show ?thesis by (simp add: validate_grammar_def id_actions len_between_def)
qed

lemma id_grammar_built: "instantiate_future_action_grammar sample_hash id_context = Inr id_grammar"
  using id_grammar_valid by (simp add: instantiate_future_action_grammar_def id_actions Let_def id_grammar_def)

definition snap_state :: disclosure_state where
  "snap_state = id_state\<lparr>ds_warehouse_snapshot_sha256 := Some (sample_digest ''01''), ds_state_sha256 := sample_digest ''6c''\<rparr>"

lemma snap_state_sha: "compute_state_sha256 sample_hash snap_state = sample_digest ''6c''"
  by code_simp

lemma id_patterns: "is_sha256 (sample_digest ''01'')" "is_sha256 (sample_digest ''6c'')" "is_sha256 (sample_digest ''bf'')"
  by code_simp+

lemma snap_state_valid: "validate_state sample_hash snap_state = Inr snap_state"
  using id_state_valid snap_state_sha
  by (simp add: validate_state_def id_patterns, simp add: snap_state_def id_state_def id_patterns, blast)

lemma fields_universe: "require_state_in_model_universe s id_context = require_state_in_model_universe s id_fields"
  by (simp add: require_state_in_model_universe_def id_context_def)

lemma id_in_universe: "require_state_in_model_universe id_state id_context = Inr ()"
  unfolding fields_universe by code_simp

lemma snap_in_universe: "require_state_in_model_universe snap_state id_context = Inr ()"
  unfolding fields_universe by code_simp

lemma id_atoms_merge: "merge_atoms id_atoms id_atoms = id_atoms"
  by code_simp

lemma close_again:
  assumes "validate_state H s = Inr s"
  shows "close_state H (s\<lparr>ds_derived_atoms := derived, ds_inference_rules_sha256 := rules, ds_state_sha256 := sha\<rparr>) = Inr s"
proof -
  have "close_state H (s\<lparr>ds_derived_atoms := derived, ds_inference_rules_sha256 := rules, ds_state_sha256 := sha\<rparr>)
      = close_state H (s\<lparr>ds_derived_atoms := [], ds_inference_rules_sha256 := zero_sha256, ds_state_sha256 := zero_sha256\<rparr>)"
    by (simp add: close_state_def)
  also have "\<dots> = Inr s" by (rule close_validated [OF assms])
  finally show ?thesis .
qed

lemma rebuild_id: "rebuild_state sample_hash id_state id_atoms (Some zero_sha256) = Inr id_state"
proof -
  have "id_state\<lparr>ds_warehouse_snapshot_sha256 := Some zero_sha256, ds_released_atoms := id_atoms\<rparr>
      = id_state\<lparr>ds_derived_atoms := ds_derived_atoms id_state,
          ds_inference_rules_sha256 := ds_inference_rules_sha256 id_state, ds_state_sha256 := ds_state_sha256 id_state\<rparr>"
    by (simp add: id_state_def)
  then show ?thesis by (simp only: rebuild_state_def close_again [OF id_state_valid] rethrow_transition.simps)
qed

lemma rebuild_snap: "ds_released_atoms s = id_atoms \<Longrightarrow> s \<in> {id_state, snap_state}
    \<Longrightarrow> rebuild_state sample_hash s id_atoms (Some (sample_digest ''01'')) = Inr snap_state"
proof -
  assume "s \<in> {id_state, snap_state}"
  then have "s\<lparr>ds_warehouse_snapshot_sha256 := Some (sample_digest ''01''), ds_released_atoms := id_atoms\<rparr>
      = snap_state\<lparr>ds_derived_atoms := ds_derived_atoms id_state,
          ds_inference_rules_sha256 := ds_inference_rules_sha256 id_state, ds_state_sha256 := ds_state_sha256 s\<rparr>"
    by (auto simp: snap_state_def id_state_def)
  then show ?thesis by (simp only: rebuild_state_def close_again [OF snap_state_valid] rethrow_transition.simps)
qed

lemma sample_grammar_simps [simp]:
  "ds_released_atoms id_state = id_atoms" "ds_released_atoms snap_state = id_atoms"
  "ds_warehouse_snapshot_sha256 id_state = Some zero_sha256"
  "ds_warehouse_snapshot_sha256 snap_state = Some (sample_digest ''01'')"
  "fa_kind snap_action = SNAPSHOT_ADVANCE" "fa_kind pair_action = ADD_PROJECTION" "fa_kind replay_action = REPLAY"
  "fa_snapshot_from_sha256 snap_action = Some zero_sha256" "fa_snapshot_sha256 snap_action = Some (sample_digest ''01'')"
  "fa_semantic pair_action = Some pair_release" "fa_semantic replay_action = Some id_release"
  "fa_composition replay_action = Some id_composition"
  by (simp_all add: id_state_def snap_state_def snap_action_def pair_action_def replay_action_def)

lemma sample_transitions:
  "apply_future_action sample_hash id_state snap_action id_grammar = Inr snap_state"
  "apply_future_action sample_hash id_state replay_action id_grammar = Inr id_state"
  "apply_future_action sample_hash snap_state replay_action id_grammar = Inr snap_state"
  "apply_future_action sample_hash snap_state snap_action id_grammar
     = Inl (FutureActionTransitionError ''snapshot transition source does not match current state'')"
proof -
  have ne: "sample_digest ''01'' \<noteq> zero_sha256" by code_simp
  show "apply_future_action sample_hash id_state snap_action id_grammar = Inr snap_state"
    by (simp add: apply_future_action_def id_in_universe rebuild_snap)
  show "apply_future_action sample_hash id_state replay_action id_grammar = Inr id_state"
    by (simp add: apply_future_action_def id_in_universe id_release_atoms id_atoms_merge rebuild_id)
  show "apply_future_action sample_hash snap_state replay_action id_grammar = Inr snap_state"
    by (simp add: apply_future_action_def snap_in_universe id_release_atoms id_atoms_merge rebuild_snap)
  show "apply_future_action sample_hash snap_state snap_action id_grammar
     = Inl (FutureActionTransitionError ''snapshot transition source does not match current state'')"
    by (simp add: apply_future_action_def snap_in_universe ne)
qed

section \<open>The snapshot graph\<close>

abbreviation snapshot_edges :: "snapshot_transition list \<Rightarrow> (string option \<times> string option) set" where
  "snapshot_edges ts \<equiv> (\<lambda>t. (st_from_snapshot_sha256 t, transition_target t)) ` set ts"

lemma reach_pass_sound:
  "reach_pass ts R changed = (R', changed') \<Longrightarrow> snapshot_edges ts \<subseteq> E \<Longrightarrow> set R \<subseteq> E\<^sup>* `` {b} \<Longrightarrow> set R' \<subseteq> E\<^sup>* `` {b}"
proof (induction ts R changed rule: reach_pass.induct)
  case (2 t ts R changed)
  show ?case
  proof (cases "st_from_snapshot_sha256 t \<in> set R \<and> transition_target t \<notin> set R")
    case True
    with 2(4,5) have "(b, transition_target t) \<in> E\<^sup>*"
      by (auto intro: rtrancl_into_rtrancl [of _ "st_from_snapshot_sha256 t"])
    with 2(5) have "set (R @ [transition_target t]) \<subseteq> E\<^sup>* `` {b}" by simp
    with 2(1) [OF True] 2(3,4) True show ?thesis by simp
  next
    case False
    with 2(3) have "reach_pass ts R changed = (R', changed')" by auto
    with 2(2) [OF False] 2(4,5) show ?thesis by simp
  qed
qed simp

lemma reach_pass_done:
  "reach_pass ts R changed = (R', False) \<Longrightarrow> R' = R \<and> (\<forall>t \<in> set ts. st_from_snapshot_sha256 t \<in> set R \<longrightarrow> transition_target t \<in> set R)"
proof (induction ts R changed rule: reach_pass.induct)
  case (2 t ts R changed)
  show ?case
  proof (cases "st_from_snapshot_sha256 t \<in> set R \<and> transition_target t \<notin> set R")
    case True
    with 2(3) have "reach_pass ts (R @ [transition_target t]) True = (R', False)" by simp
    from reach_pass_grows [OF this] show ?thesis by simp
  next
    case False
    with 2(3) have "reach_pass ts R changed = (R', False)" by auto
    from 2(2) [OF False this] False show ?thesis by auto
  qed
qed simp

lemma reachable_nodes_exact:
  "b \<in> set R \<Longrightarrow> set R \<subseteq> (snapshot_edges ts)\<^sup>* `` {b} \<Longrightarrow> set (reachable_nodes ts R) = (snapshot_edges ts)\<^sup>* `` {b}"
proof (induction ts R rule: reachable_nodes.induct)
  case (1 ts R)
  obtain R' changed where pass: "reach_pass ts R False = (R', changed)" by (cases "reach_pass ts R False")
  note grows = reach_pass_grows [OF pass]
  have sound: "set R' \<subseteq> (snapshot_edges ts)\<^sup>* `` {b}" by (rule reach_pass_sound [OF pass]) (use 1(3) in auto)
  show ?case
  proof (cases changed)
    case True
    have "set (reachable_nodes ts R') = (snapshot_edges ts)\<^sup>* `` {b}"
      by (rule 1(1) [OF pass [symmetric] True _ sound]) (use grows 1(2) in auto)
    with True pass show ?thesis by (subst reachable_nodes.simps) simp
  next
    case False
    with reach_pass_done pass have settled: "R' = R"
      "\<forall>t \<in> set ts. st_from_snapshot_sha256 t \<in> set R \<longrightarrow> transition_target t \<in> set R" by auto
    have "y \<in> set R" if "(b, y) \<in> (snapshot_edges ts)\<^sup>*" for y
      using that by induction (use settled(2) 1(2) in auto)
    with 1(3) have "set R = (snapshot_edges ts)\<^sup>* `` {b}" by auto
    with False pass settled(1) show ?thesis by (subst reachable_nodes.simps) simp
  qed
qed

text \<open>The loop over the declared transitions ends with exactly the snapshot
  commitments that a chain of declared transitions leads to from the base snapshot; the graph check
  accepts exactly the transition sets in which every source is such a commitment.\<close>

theorem snapshot_nodes_exact:
  shows "set (reachable_snapshot_nodes base ts)
           = {(st_from_snapshot_sha256 t, Some (st_to_snapshot_sha256 t)) | t. t \<in> set ts}\<^sup>* `` {base}
    \<and> (validate_snapshot_transition_graph base ts = Inr () \<longleftrightarrow>
         (\<forall>t \<in> set ts. (base, st_from_snapshot_sha256 t)
            \<in> {(st_from_snapshot_sha256 u, Some (st_to_snapshot_sha256 u)) | u. u \<in> set ts}\<^sup>*))"
proof -
  have edges: "{(st_from_snapshot_sha256 t, Some (st_to_snapshot_sha256 t)) | t. t \<in> set ts} = snapshot_edges ts" by auto
  have "set (reachable_snapshot_nodes base ts) = (snapshot_edges ts)\<^sup>* `` {base}"
    unfolding reachable_snapshot_nodes_def by (rule reachable_nodes_exact) auto
  then show ?thesis unfolding edges by (auto simp: validate_snapshot_transition_graph_def list_ex_iff)
qed

text \<open>Two declared steps in a row: the check accepts them from the first source, and the second source is
  then a commitment the first one leads to.\<close>

definition snapshot_chain :: "snapshot_transition list" where
  "snapshot_chain = [\<lparr>st_from_snapshot_sha256 = Some ''b'', st_to_snapshot_sha256 = ''c''\<rparr>,
     \<lparr>st_from_snapshot_sha256 = None, st_to_snapshot_sha256 = ''b''\<rparr>]"

lemma snapshot_chain_accepted:
  "validate_snapshot_transition_graph None snapshot_chain = Inr ()"
  by code_simp

lemma snapshot_nodes_exact_witness:
  "(None, Some ''b'') \<in> {(st_from_snapshot_sha256 u, Some (st_to_snapshot_sha256 u)) | u. u \<in> set snapshot_chain}\<^sup>*
    \<and> set (reachable_snapshot_nodes None snapshot_chain)
        = {(st_from_snapshot_sha256 u, Some (st_to_snapshot_sha256 u)) | u. u \<in> set snapshot_chain}\<^sup>* `` {None}"
proof -
  have "\<lparr>st_from_snapshot_sha256 = Some ''b'', st_to_snapshot_sha256 = ''c''\<rparr> \<in> set snapshot_chain"
    by (simp add: snapshot_chain_def)
  then show ?thesis
    using snapshot_nodes_exact [of None snapshot_chain] snapshot_chain_accepted by fastforce
qed

section \<open>Variants stay inside the declared fields\<close>

text \<open>The dictionary loops return what they index.\<close>

lemma index_columns_Inr: "index_columns e cs known = Inr known'
    \<Longrightarrow> known' = fold (\<lambda>c. AList.update (column_key c) c) cs known"
  by (induction e cs known rule: index_columns.induct) (auto split: if_splits)

lemma index_outputs_Inr: "index_outputs outs known = Inr known'
    \<Longrightarrow> known' = fold (\<lambda>out. AList.update (output_key out) out) outs known"
  by (induction outs known rule: index_outputs.induct) (auto split: if_splits)

lemma merge_columns_Inr: "merge_columns left right = Inr cs \<Longrightarrow> set cs \<subseteq> set left \<union> set right"
proof -
  assume "merge_columns left right = Inr cs"
  then have "cs = by_key column_key (left @ right)"
    by (auto simp: merge_columns_def by_key_def dict_of_def dest: index_columns_Inr)
  with set_by_key_subset [of column_key "left @ right"] show ?thesis by simp
qed

lemma canonical_outputs_Inr: "canonical_outputs outs = Inr outs' \<Longrightarrow> set outs' \<subseteq> set outs"
proof -
  assume "canonical_outputs outs = Inr outs'"
  then have "outs' = by_key output_key outs"
    by (auto simp: canonical_outputs_def by_key_def dict_of_def dest: index_outputs_Inr)
  with set_by_key_subset [of output_key outs] show ?thesis by simp
qed

text \<open>All columns a release names, and what a variant of a base release may contain: the columns,
  data sets and aggregates of the base and of the context's declared lists, nothing else.\<close>

definition release_columns :: "semantic_release \<Rightarrow> governed_column set" where
  "release_columns s = set (sr_referenced_columns s) \<union> set (sr_join_columns s) \<union> set (sr_group_keys s)
     \<union> (\<Union>out \<in> set (sr_outputs s). set (so_sources out))"

definition declared_variant :: "grammar_context \<Rightarrow> semantic_release \<Rightarrow> bool" where
  "declared_variant c s \<longleftrightarrow>
     release_columns s \<subseteq> release_columns (cx_base_semantic c)
       \<union> set (cx_relevant_projection_fields c) \<union> set (cx_group_key_fields c)
     \<and> set (sr_source_dataset_urns s) \<subseteq> set (sr_source_dataset_urns (cx_base_semantic c))
       \<union> gc_dataset_urn ` (set (cx_relevant_projection_fields c) \<union> set (cx_group_key_fields c))
     \<and> set (sr_aggregate_functions s) \<subseteq> set (sr_aggregate_functions (cx_base_semantic c)) \<union> set (cx_aggregate_allowlist c)
     \<and> sr_join_columns s = sr_join_columns (cx_base_semantic c)
     \<and> sr_minimum_group_size_present s = sr_minimum_group_size_present (cx_base_semantic c)"

lemma rebuild_semantic_declared:
  assumes "rebuild_semantic H (cx_base_semantic c) outs referenced group_keys aggregates datasets = Inr s"
    and "\<And>os out. outs = Some os \<Longrightarrow> out \<in> set os \<Longrightarrow> set (so_sources out) \<subseteq> release_columns (cx_base_semantic c) \<union> F"
    and "\<And>cs. referenced = Some cs \<Longrightarrow> set cs \<subseteq> release_columns (cx_base_semantic c) \<union> F"
    and "\<And>cs. group_keys = Some cs \<Longrightarrow> set cs \<subseteq> release_columns (cx_base_semantic c) \<union> F"
    and "\<And>fs. aggregates = Some fs \<Longrightarrow> set fs \<subseteq> set (sr_aggregate_functions (cx_base_semantic c)) \<union> set (cx_aggregate_allowlist c)"
    and "\<And>ds. datasets = Some ds \<Longrightarrow> set ds \<subseteq> set (sr_source_dataset_urns (cx_base_semantic c)) \<union> gc_dataset_urn ` F"
    and "F \<subseteq> set (cx_relevant_projection_fields c) \<union> set (cx_group_key_fields c)"
  shows "declared_variant c s"
proof -
  let ?base = "cx_base_semantic c"
  from assms(1) obtain os where os: "canonical_outputs (case outs of None \<Rightarrow> sr_outputs ?base | Some os \<Rightarrow> os) = Inr os"
    and s: "sr_outputs s = os" "set (sr_source_dataset_urns s) = set (case datasets of None \<Rightarrow> sr_source_dataset_urns ?base | Some ds \<Rightarrow> ds)"
      "set (sr_referenced_columns s) = set (case referenced of None \<Rightarrow> sr_referenced_columns ?base | Some cs \<Rightarrow> cs)"
      "sr_join_columns s = sr_join_columns ?base"
      "set (sr_group_keys s) = set (case group_keys of None \<Rightarrow> sr_group_keys ?base | Some cs \<Rightarrow> cs)"
      "set (sr_aggregate_functions s) = set (case aggregates of None \<Rightarrow> sr_aggregate_functions ?base | Some fs \<Rightarrow> fs)"
      "sr_minimum_group_size_present s = sr_minimum_group_size_present ?base"
    by (auto simp: rebuild_semantic_def Let_def validate_release_def)
  have "set (so_sources out) \<subseteq> release_columns ?base \<union> F" if "out \<in> set os" for out
    using that canonical_outputs_Inr [OF os] assms(2) by (cases outs) (auto simp: release_columns_def)
  moreover have "set (sr_referenced_columns s) \<subseteq> release_columns ?base \<union> F"
    unfolding s using assms(3) by (cases referenced) (auto simp: release_columns_def)
  moreover have "set (sr_group_keys s) \<subseteq> release_columns ?base \<union> F"
    unfolding s using assms(4) by (cases group_keys) (auto simp: release_columns_def)
  moreover have "set (sr_join_columns s) \<subseteq> release_columns ?base" unfolding s by (auto simp: release_columns_def)
  ultimately have "release_columns s \<subseteq> release_columns ?base \<union> F"
    unfolding release_columns_def [of s] s(1) by blast
  moreover have "set (sr_source_dataset_urns s) \<subseteq> set (sr_source_dataset_urns ?base) \<union> gc_dataset_urn ` F"
    unfolding s using assms(6) by (cases datasets) auto
  moreover have "set (sr_aggregate_functions s) \<subseteq> set (sr_aggregate_functions ?base) \<union> set (cx_aggregate_allowlist c)"
    unfolding s using assms(5) by (cases aggregates) auto
  ultimately show ?thesis unfolding declared_variant_def using s(4,7) assms(7) by blast
qed

lemma base_columns:
  "set (sr_referenced_columns s) \<subseteq> release_columns s" "set (sr_group_keys s) \<subseteq> release_columns s"
  "\<And>out. out \<in> set (sr_outputs s) \<Longrightarrow> set (so_sources out) \<subseteq> release_columns s"
  by (auto simp: release_columns_def)

lemma build_output_Inr: "build_output kind sources = Inr out \<Longrightarrow> so_sources out = sources"
  by (auto simp: build_output_def Let_def)

lemma added_projection_declared:
  assumes "with_added_projection H (cx_base_semantic c) column = Inr s" and "column \<in> set (cx_relevant_projection_fields c)"
  shows "declared_variant c s"
proof -
  let ?base = "cx_base_semantic c"
  from assms(1) obtain new outputs referenced where new: "build_output RAW_VALUE [column] = Inr new"
    and outs: "canonical_outputs (sr_outputs ?base @ [new]) = Inr outputs"
    and refs: "merge_columns (sr_referenced_columns ?base) [column] = Inr referenced"
    and s: "rebuild_semantic H ?base (Some outputs) (Some referenced) None None
         (Some (sorted_set (sr_source_dataset_urns ?base @ [gc_dataset_urn column]))) = Inr s"
    by (auto simp: with_added_projection_def)
  show ?thesis
  proof (rule rebuild_semantic_declared [OF s, where F = "{column}"])
    fix os out assume "Some outputs = Some os" "out \<in> set os"
    then have "out \<in> set (sr_outputs ?base) \<or> out = new" using canonical_outputs_Inr [OF outs] by auto
    then show "set (so_sources out) \<subseteq> release_columns ?base \<union> {column}"
      using base_columns(3) [of out ?base] build_output_Inr [OF new] by auto
  next
    fix cs assume "Some referenced = Some cs"
    then show "set cs \<subseteq> release_columns ?base \<union> {column}"
      using merge_columns_Inr [OF refs] base_columns(1) [of ?base] by auto
  qed (use assms(2) in auto)
qed

lemma added_group_key_declared:
  assumes "with_added_group_key H (cx_base_semantic c) column = Inr s" and "column \<in> set (cx_group_key_fields c)"
  shows "declared_variant c s"
proof -
  let ?base = "cx_base_semantic c"
  let ?replaceable = "\<lambda>out. single_source out (column_key column) \<and> so_kind out \<in> set group_replaceable_kinds"
  let ?kept = "filter (\<lambda>out. \<not> ?replaceable out) (sr_outputs ?base)"
  let ?add = "list_ex ?replaceable (sr_outputs ?base)
    \<or> \<not> list_ex (\<lambda>out. single_source out (column_key column) \<and> so_kind out = exposure_kind.GROUP_KEY) ?kept"
  from assms(1) obtain group_keys referenced outs outputs where
    keys: "merge_columns (sr_group_keys ?base) [column] = Inr group_keys"
    and refs: "merge_columns (sr_referenced_columns ?base) [column] = Inr referenced"
    and add: "(if ?add then bindr (build_output exposure_kind.GROUP_KEY [column]) (\<lambda>new. Inr (?kept @ [new])) else Inr ?kept) = Inr outs"
    and canon: "canonical_outputs outs = Inr outputs"
    and s: "rebuild_semantic H ?base (Some outputs) (Some referenced) (Some group_keys) None
         (Some (sorted_set (sr_source_dataset_urns ?base @ [gc_dataset_urn column]))) = Inr s"
    unfolding with_added_group_key_def Let_def bindr_Inr_iff by blast
  from add have outs: "\<forall>out \<in> set outs. out \<in> set (sr_outputs ?base) \<or> so_sources out = [column]"
    by (cases ?add) (auto dest!: build_output_Inr)
  show ?thesis
  proof (rule rebuild_semantic_declared [OF s, where F = "{column}"])
    fix os out assume "Some outputs = Some os" "out \<in> set os"
    then have "out \<in> set (sr_outputs ?base) \<or> so_sources out = [column]" using canonical_outputs_Inr [OF canon] outs by auto
    then show "set (so_sources out) \<subseteq> release_columns ?base \<union> {column}"
      using base_columns(3) [of out ?base] by auto
  next
    fix cs assume "Some referenced = Some cs"
    then show "set cs \<subseteq> release_columns ?base \<union> {column}"
      using merge_columns_Inr [OF refs] base_columns(1) [of ?base] by auto
  next
    fix cs assume "Some group_keys = Some cs"
    then show "set cs \<subseteq> release_columns ?base \<union> {column}"
      using merge_columns_Inr [OF keys] base_columns(2) [of ?base] by auto
  qed (use assms(2) in auto)
qed

lemma removed_projection_declared:
  assumes "with_removed_projection H (cx_base_semantic c) target = Inr (Some s)"
  shows "declared_variant c s"
proof -
  let ?base = "cx_base_semantic c"
  from assms obtain outputs where canon: "canonical_outputs (remove1 target (sr_outputs ?base)) = Inr outputs"
    and s: "rebuild_semantic H ?base (Some outputs)
      (Some (still_referenced ?base outputs (sr_group_keys ?base))) None None None = Inr s"
    by (auto simp: with_removed_projection_def Let_def split: if_splits)
  have "set outputs \<subseteq> set (sr_outputs ?base)"
    using canonical_outputs_Inr [OF canon] set_remove1_subset [of target "sr_outputs ?base"] by blast
  then show ?thesis
    by (intro rebuild_semantic_declared [OF s, where F = "{}"])
      (auto simp: still_referenced_def release_columns_def)
qed

lemma dropped_group_key_declared:
  assumes "with_dropped_group_key H (cx_base_semantic c) key = Inr (Some s)"
  shows "declared_variant c s"
proof -
  let ?base = "cx_base_semantic c"
  let ?keys = "filter (\<lambda>c. column_key c \<noteq> key) (sr_group_keys ?base)"
  let ?outs = "filter (\<lambda>out. \<not> (so_kind out = exposure_kind.GROUP_KEY \<and> single_source out key)) (sr_outputs ?base)"
  from assms obtain outputs where canon: "canonical_outputs ?outs = Inr outputs"
    and s: "rebuild_semantic H ?base (Some outputs) (Some (still_referenced ?base ?outs ?keys)) (Some ?keys) None None = Inr s"
    by (auto simp: with_dropped_group_key_def Let_def split: if_splits)
  have "set outputs \<subseteq> set (sr_outputs ?base)" using canonical_outputs_Inr [OF canon] by auto
  then show ?thesis
    by (intro rebuild_semantic_declared [OF s, where F = "{}"])
      (auto simp: still_referenced_def release_columns_def)
qed

lemma changed_aggregate_declared:
  assumes "with_changed_aggregate H (cx_base_semantic c) current replacement = Inr s"
    and "replacement \<in> set (cx_aggregate_allowlist c)"
  shows "declared_variant c s"
  using assms(2) by (intro rebuild_semantic_declared [OF assms(1) [unfolded with_changed_aggregate_def], where F = "{}"])
    (auto split: if_splits)

lemma base_declared [simp]: "declared_variant c (cx_base_semantic c)"
  by (auto simp: declared_variant_def)

section \<open>The instantiated actions\<close>

lemma validate_action_Inr:
  assumes "validate_action H a = Inr a'"
  shows "a' = a" and "fa_action_sha256 a = compute_action_sha256 H a" and "is_sha256 (fa_action_sha256 a)"
    and "fa_kind a \<noteq> SNAPSHOT_ADVANCE \<Longrightarrow> \<exists>s k. fa_semantic a = Some s \<and> fa_composition a = Some k
      \<and> co_release_family_sha256 k = sr_semantic_sha256 s \<and> co_protected_release k = is_protected_release s"
    and "fa_kind a = SNAPSHOT_ADVANCE \<Longrightarrow> fa_semantic a = None \<and> fa_composition a = None \<and> (\<exists>target. fa_snapshot_sha256 a = Some target)"
  using assms by (auto simp: validate_action_def action_patterns_def check_action_shape_def check_release_action_def
      split: if_splits option.splits)

lemma build_release_action_Inr:
  assumes "build_release_action H kind s k = Inr a"
  shows "fa_kind a = kind" and "fa_semantic a = Some s" and "fa_composition a = Some k" and "validate_action H a = Inr a"
    and "kind \<noteq> SNAPSHOT_ADVANCE"
proof -
  let ?p = "\<lparr>fa_kind = kind, fa_semantic = Some s, fa_composition = Some k,
            fa_snapshot_from_sha256 = None, fa_snapshot_sha256 = None, fa_action_sha256 = zero_sha256\<rparr>"
  let ?a = "?p\<lparr>fa_action_sha256 := compute_action_sha256 H ?p\<rparr>"
  from assms have v: "validate_action H ?a = Inr a" by (simp only: build_release_action_def Let_def)
  then have a: "a = ?a" by (rule validate_action_Inr)
  then show "fa_kind a = kind" and "fa_semantic a = Some s" and "fa_composition a = Some k" by simp_all
  from v a show "validate_action H a = Inr a" by simp
  from validate_action_Inr(5) [OF v] show "kind \<noteq> SNAPSHOT_ADVANCE" by auto
qed

lemma build_snapshot_action_Inr:
  assumes "build_snapshot_action H t = Inr a"
  shows "fa_kind a = SNAPSHOT_ADVANCE" and "fa_snapshot_from_sha256 a = st_from_snapshot_sha256 t"
    and "fa_snapshot_sha256 a = Some (st_to_snapshot_sha256 t)" and "validate_action H a = Inr a"
proof -
  let ?p = "\<lparr>fa_kind = SNAPSHOT_ADVANCE, fa_semantic = None, fa_composition = None,
            fa_snapshot_from_sha256 = st_from_snapshot_sha256 t,
            fa_snapshot_sha256 = Some (st_to_snapshot_sha256 t), fa_action_sha256 = zero_sha256\<rparr>"
  let ?a = "?p\<lparr>fa_action_sha256 := compute_action_sha256 H ?p\<rparr>"
  from assms have v: "validate_action H ?a = Inr a" by (simp only: build_snapshot_action_def Let_def)
  then have a: "a = ?a" by (rule validate_action_Inr)
  then show "fa_kind a = SNAPSHOT_ADVANCE" and "fa_snapshot_from_sha256 a = st_from_snapshot_sha256 t"
    and "fa_snapshot_sha256 a = Some (st_to_snapshot_sha256 t)" by simp_all
  from v a show "validate_action H a = Inr a" by simp
qed

text \<open>What an action of the grammar may be: an edge the context declares, or the release of a
  declared variant of the base under a declared cohort.\<close>

definition declared_action :: "grammar_context \<Rightarrow> future_action \<Rightarrow> bool" where
  "declared_action c a \<longleftrightarrow>
     (case (fa_semantic a, fa_composition a) of
        (Some s, Some k) \<Rightarrow> fa_kind a \<noteq> SNAPSHOT_ADVANCE \<and> declared_variant c s
          \<and> co_release_family_sha256 k = sr_semantic_sha256 s \<and> co_protected_release k = is_protected_release s
          \<and> co_cohort_hmac_sha256 k \<in> insert (co_cohort_hmac_sha256 (cx_base_composition c)) (set (cx_cohort_variant_hmacs c))
      | _ \<Rightarrow> fa_kind a = SNAPSHOT_ADVANCE \<and> (\<exists>t \<in> set (cx_snapshot_transitions c).
          fa_snapshot_from_sha256 a = st_from_snapshot_sha256 t \<and> fa_snapshot_sha256 a = Some (st_to_snapshot_sha256 t)))"

lemma release_action_declared:
  assumes "build_release_action H kind s k = Inr a" and "declared_variant c s"
    and "co_cohort_hmac_sha256 k \<in> insert (co_cohort_hmac_sha256 (cx_base_composition c)) (set (cx_cohort_variant_hmacs c))"
  shows "validate_action H a = Inr a \<and> declared_action c a"
  using build_release_action_Inr [OF assms(1)] validate_action_Inr(4) [of H a a] assms(2,3)
  by (simp add: declared_action_def)

lemma variant_action_declared:
  assumes "release_variant_action H kind c s = Inr a" and "declared_variant c s"
  shows "validate_action H a = Inr a \<and> declared_action c a"
  using assms(1) unfolding release_variant_action_def bindr_Inr_iff
  by (elim exE conjE) (erule release_action_declared [OF _ assms(2)], simp add: validate_composition_def)

lemma some_action_Inr: "Inr (Some a) = some_action r \<longleftrightarrow> r = Inr a"
  by (cases r) (auto simp: some_action_def)

lemma variant_action_Inr:
  "Inr (Some a) = variant_action H kind c r \<longleftrightarrow> (\<exists>s. r = Inr s \<and> release_variant_action H kind c s = Inr a)"
  by (subst eq_commute) (auto simp: variant_action_def)

lemma optional_variant_action_Inr: "Inr (Some a) = optional_variant_action H kind c r
    \<longleftrightarrow> (\<exists>s. r = Inr (Some s) \<and> release_variant_action H kind c s = Inr a)"
  by (subst eq_commute) (auto simp: optional_variant_action_def split: option.splits)

lemmas action_Inr = some_action_Inr variant_action_Inr optional_variant_action_Inr

lemma candidates_declared:
  assumes "Inr (Some a) \<in> set (action_candidates H c)"
  shows "validate_action H a = Inr a \<and> declared_action c a"
  using assms unfolding action_candidates_def Let_def set_append Un_iff
proof (elim disjE, goal_cases)
  case 1
  then have "build_release_action H REPLAY (cx_base_semantic c) (cx_base_composition c) = Inr a" by (simp add: action_Inr)
  then show ?case by (rule release_action_declared [OF _ base_declared]) simp
next
  case 2
  then show ?case by (auto simp: action_Inr image_iff intro!: variant_action_declared [THEN conjunct1] variant_action_declared [THEN conjunct2] intro: added_projection_declared)
next
  case 3
  then show ?case by (auto simp: action_Inr image_iff intro!: variant_action_declared [THEN conjunct1] variant_action_declared [THEN conjunct2] intro: removed_projection_declared)
next
  case 4
  then show ?case by (auto simp: action_Inr image_iff intro!: variant_action_declared [THEN conjunct1] variant_action_declared [THEN conjunct2] intro: added_group_key_declared)
next
  case 5
  then show ?case by (auto simp: action_Inr image_iff intro!: variant_action_declared [THEN conjunct1] variant_action_declared [THEN conjunct2] intro: dropped_group_key_declared)
next
  case 6
  then show ?case by (auto simp: action_Inr image_iff intro!: variant_action_declared [THEN conjunct1] variant_action_declared [THEN conjunct2] intro: changed_aggregate_declared)
next
  case 7
  then obtain cohort where "cohort \<in> set (cx_cohort_variant_hmacs c)"
    and r: "build_release_action H COHORT_VARIANT (cx_base_semantic c)
      \<lparr>co_protected_release = co_protected_release (cx_base_composition c),
       co_release_family_sha256 = sr_semantic_sha256 (cx_base_semantic c), co_cohort_hmac_sha256 = cohort\<rparr> = Inr a"
    by (auto simp: action_Inr validate_composition_def)
  then show ?case by (intro release_action_declared [OF r base_declared]) simp
next
  case 8
  then obtain t where t: "t \<in> set (cx_snapshot_transitions c)" "build_snapshot_action H t = Inr a"
    by (auto simp: action_Inr)
  with build_snapshot_action_Inr [OF t(2)] validate_action_Inr(5) [of H a a] show ?case
    by (auto simp: declared_action_def)
qed

text \<open>What \<open>add\<close> collects: the present candidates, indexed by their hash.\<close>

abbreviation present :: "'a option list \<Rightarrow> 'a list" where
  "present xs \<equiv> map the (filter (\<lambda>x. x \<noteq> None) xs)"

lemma add_actions_Inr:
  "add_actions rs known = Inr known' \<Longrightarrow> length known \<le> 32 \<Longrightarrow> \<exists>opts. mapr (\<lambda>r. r) rs = Inr opts
     \<and> known' = fold (\<lambda>a. AList.update (fa_action_sha256 a) a) (present opts) known \<and> length known' \<le> 32"
proof (induction rs known rule: add_actions.induct)
  case (2 r rs known)
  from 2(3) obtain candidate where r: "r = Inr candidate" by (cases r) simp_all
  show ?case
  proof (cases candidate)
    case None
    with 2 r show ?thesis by auto
  next
    case (Some a)
    let ?known = "AList.update (fa_action_sha256 a) a known"
    from Some 2(3) r have "\<not> 32 < length ?known" "add_actions rs ?known = Inr known'"
      by (auto simp: Let_def split: if_splits)
    with 2(2) obtain opts where "mapr (\<lambda>r. r) rs = Inr opts" "length known' \<le> 32"
      "known' = fold (\<lambda>a. AList.update (fa_action_sha256 a) a) (present opts) ?known" by auto
    with Some r show ?thesis by (intro exI [of _ "Some a # opts"]) simp
  qed
qed simp

lemma instantiate_actions_Inr:
  assumes "instantiate_actions H c = Inr actions"
  obtains opts where "mapr (\<lambda>r. r) (action_candidates H c) = Inr opts" and "actions = by_key fa_action_sha256 (present opts)"
    and "length actions \<le> 32"
proof -
  from assms obtain known where known: "add_actions (action_candidates H c) [] = Inr known" "actions = sorted_values known"
    by (auto simp: instantiate_actions_def)
  from add_actions_Inr [OF known(1)] obtain opts where opts: "mapr (\<lambda>r. r) (action_candidates H c) = Inr opts"
    "known = dict_of fa_action_sha256 (present opts)" "length known \<le> 32" by (auto simp: dict_of_def)
  have "length actions = length (sorted_set (map fst known))" by (simp add: known(2) sorted_values_def)
  also have "\<dots> \<le> length known" using length_remdups_leq [of "map fst known"] by (simp add: sorted_set_def)
  finally show thesis using that opts known(2) by (simp add: by_key_def)
qed

lemma replay_first:
  "action_candidates H c = some_action (build_release_action H REPLAY (cx_base_semantic c) (cx_base_composition c))
     # tl (action_candidates H c)"
  by (simp add: action_candidates_def Let_def)

lemma instantiated_declared:
  assumes "instantiate_actions H c = Inr actions" and "a \<in> set actions"
  shows "validate_action H a = Inr a \<and> declared_action c a"
proof -
  from assms(1) obtain opts where opts: "mapr (\<lambda>r. r) (action_candidates H c) = Inr opts"
    and "actions = by_key fa_action_sha256 (present opts)" by (rule instantiate_actions_Inr)
  with assms(2) set_by_key_subset [of fa_action_sha256 "present opts"] have "Some a \<in> set opts" by auto
  with opts have "Inr (Some a) \<in> set (action_candidates H c)"
    unfolding mapr_Inr_iff by (auto simp: list_all2_conv_all_nth in_set_conv_nth)
  then show ?thesis by (rule candidates_declared)
qed

lemma grammar_instance:
  assumes "instantiate_future_action_grammar H c = Inr g"
  shows "gm_context g = c" and "instantiate_actions H c = Inr (gm_actions g)"
    and "validate_grammar H g = Inr g"
  using assms by (auto simp: instantiate_future_action_grammar_def Let_def validate_grammar_def)

text \<open>The grammar of a context holds between one and 32 actions in the order of
  their distinct hashes, each valid. An action is either a snapshot edge the context declares or
  the release of a variant whose columns, data sets, aggregates and cohort all come from the base
  release or the context's declared lists, classified and bound to its own semantic hash; the
  exact repetition of the base release is always offered.\<close>

theorem grammar_declared:
  assumes "instantiate_future_action_grammar H c = Inr g"
  shows "gm_context g = c \<and> 1 \<le> length (gm_actions g) \<and> length (gm_actions g) \<le> 32
    \<and> canonical (map fa_action_sha256 (gm_actions g))
    \<and> (\<forall>a \<in> set (gm_actions g). validate_action H a = Inr a \<and> declared_action c a)
    \<and> (\<exists>replay. build_release_action H REPLAY (cx_base_semantic c) (cx_base_composition c) = Inr replay
         \<and> fa_action_sha256 replay \<in> fa_action_sha256 ` set (gm_actions g))"
proof -
  note g = grammar_instance [OF assms]
  from g(2) obtain opts where opts: "mapr (\<lambda>r. r) (action_candidates H c) = Inr opts"
    and actions: "gm_actions g = by_key fa_action_sha256 (present opts)" and len: "length (gm_actions g) \<le> 32"
    by (rule instantiate_actions_Inr)
  from opts obtain replay rest where replay: "build_release_action H REPLAY (cx_base_semantic c) (cx_base_composition c) = Inr replay"
    and "opts = Some replay # rest"
    by (subst (asm) replay_first) (auto simp: some_action_def)
  then have "fa_action_sha256 replay \<in> set (map fa_action_sha256 (gm_actions g))" unfolding actions map_key_by_key by simp
  then have "fa_action_sha256 replay \<in> fa_action_sha256 ` set (gm_actions g)" by simp
  moreover from this have "1 \<le> length (gm_actions g)" by (cases "gm_actions g") auto
  moreover have "canonical (map fa_action_sha256 (gm_actions g))" by (simp add: actions)
  ultimately show ?thesis using len instantiated_declared [OF g(2)] replay g(1) by blast
qed

lemma grammar_declared_witness:
  "canonical (map fa_action_sha256 (gm_actions id_grammar)) \<and> pair_action \<in> set (gm_actions id_grammar)
    \<and> declared_action id_context pair_action"
  using grammar_declared [OF id_grammar_built] by simp

section \<open>Transitions\<close>

lemma rebuild_state_Inr:
  assumes "rebuild_state H s released warehouse = Inr s'"
  shows "validate_state H s' = Inr s'" "ds_released_atoms s' = released" "ds_warehouse_snapshot_sha256 s' = warehouse"
    "ds_scope s' = ds_scope s" "ds_purpose_commitment_sha256 s' = ds_purpose_commitment_sha256 s"
    "ds_governance_commitment_sha256 s' = ds_governance_commitment_sha256 s"
    "ds_evidence_root_sha256 s' = ds_evidence_root_sha256 s"
  using assms close_state_Inr [of H "s\<lparr>ds_warehouse_snapshot_sha256 := warehouse, ds_released_atoms := released\<rparr>" s']
  unfolding rebuild_state_def by auto

lemma hashes_merge_atoms [simp]:
  "at_atom_sha256 ` set (merge_atoms released future) = at_atom_sha256 ` set released \<union> at_atom_sha256 ` set future"
proof -
  have "set (map at_atom_sha256 (merge_atoms released future)) = set (map at_atom_sha256 (released @ future))"
    unfolding merge_atoms_def map_key_by_key by simp
  then show ?thesis by (simp add: image_Un)
qed

lemma apply_future_action_Inr:
  assumes "apply_future_action H s a g = Inr s'"
  shows "require_state_in_model_universe s (gm_context g) = Inr ()" and "a \<in> set (gm_actions g)"
    and "fa_kind a = SNAPSHOT_ADVANCE \<Longrightarrow> ds_warehouse_snapshot_sha256 s = fa_snapshot_from_sha256 a
      \<and> (\<exists>target. fa_snapshot_sha256 a = Some target) \<and> rebuild_state H s (ds_released_atoms s) (fa_snapshot_sha256 a) = Inr s'"
    and "fa_kind a \<noteq> SNAPSHOT_ADVANCE \<Longrightarrow> \<exists>sem k future. fa_semantic a = Some sem \<and> fa_composition a = Some k
      \<and> direct_atoms_for_release H sem (Some k) = Inr future
      \<and> rebuild_state H s (merge_atoms (ds_released_atoms s) future) (ds_warehouse_snapshot_sha256 s) = Inr s'"
  using assms unfolding apply_future_action_def
  by (auto simp: find_Some_iff split: if_splits option.splits)

lemma transition_facts:
  assumes "apply_future_action H s a g = Inr s'"
  shows "a \<in> set (gm_actions g) \<and> require_state_in_model_universe s (gm_context g) = Inr ()
    \<and> validate_state H s' = Inr s' \<and> ds_scope s' = ds_scope s
    \<and> ds_purpose_commitment_sha256 s' = ds_purpose_commitment_sha256 s
    \<and> ds_governance_commitment_sha256 s' = ds_governance_commitment_sha256 s
    \<and> ds_evidence_root_sha256 s' = ds_evidence_root_sha256 s
    \<and> (if fa_kind a = SNAPSHOT_ADVANCE
       then ds_warehouse_snapshot_sha256 s = fa_snapshot_from_sha256 a
         \<and> ds_warehouse_snapshot_sha256 s' = fa_snapshot_sha256 a \<and> ds_released_atoms s' = ds_released_atoms s
       else ds_warehouse_snapshot_sha256 s' = ds_warehouse_snapshot_sha256 s
         \<and> (\<exists>sem k future. fa_semantic a = Some sem \<and> fa_composition a = Some k
           \<and> direct_atoms_for_release H sem (Some k) = Inr future
           \<and> at_atom_sha256 ` set (ds_released_atoms s')
               = at_atom_sha256 ` set (ds_released_atoms s) \<union> at_atom_sha256 ` set future
           \<and> set (ds_released_atoms s') \<subseteq> set (ds_released_atoms s) \<union> set future))"
proof (cases "fa_kind a = SNAPSHOT_ADVANCE")
  case True
  note a = apply_future_action_Inr(1,2) [OF assms] apply_future_action_Inr(3) [OF assms True]
  from a(3) have "rebuild_state H s (ds_released_atoms s) (fa_snapshot_sha256 a) = Inr s'" by blast
  from rebuild_state_Inr [OF this] a True show ?thesis by simp
next
  case False
  note a = apply_future_action_Inr(1,2) [OF assms]
  from apply_future_action_Inr(4) [OF assms False] obtain sem k future where r: "fa_semantic a = Some sem"
    "fa_composition a = Some k" "direct_atoms_for_release H sem (Some k) = Inr future"
    and s': "rebuild_state H s (merge_atoms (ds_released_atoms s) future) (ds_warehouse_snapshot_sha256 s) = Inr s'"
    by blast
  have "set (merge_atoms (ds_released_atoms s) future) \<subseteq> set (ds_released_atoms s) \<union> set future"
    using set_by_key_subset [of at_atom_sha256 "ds_released_atoms s @ future"] by (simp add: merge_atoms_def)
  with rebuild_state_Inr [OF s'] a r False show ?thesis by simp
qed

text \<open>A transition takes only an exact member of the grammar, on a state inside its
  model universe, and returns a validated state with the same scope, purpose, governance and
  evidence: a snapshot action starts at the state's snapshot and moves to its target, keeping the
  released atoms; a release action keeps the snapshot and adds the atoms of its release, nothing
  else, and every rejected case is an error.\<close>

theorem transition_exact:
  assumes "apply_future_action H s a g = Inr s'"
  shows "a \<in> set (gm_actions g) \<and> require_state_in_model_universe s (gm_context g) = Inr ()
    \<and> validate_state H s' = Inr s' \<and> ds_scope s' = ds_scope s
    \<and> ds_purpose_commitment_sha256 s' = ds_purpose_commitment_sha256 s
    \<and> ds_governance_commitment_sha256 s' = ds_governance_commitment_sha256 s
    \<and> ds_evidence_root_sha256 s' = ds_evidence_root_sha256 s
    \<and> (if fa_kind a = SNAPSHOT_ADVANCE
       then ds_warehouse_snapshot_sha256 s = fa_snapshot_from_sha256 a
         \<and> ds_warehouse_snapshot_sha256 s' = fa_snapshot_sha256 a \<and> ds_released_atoms s' = ds_released_atoms s
       else ds_warehouse_snapshot_sha256 s' = ds_warehouse_snapshot_sha256 s
         \<and> (\<exists>sem k future. fa_semantic a = Some sem \<and> fa_composition a = Some k
           \<and> direct_atoms_for_release H sem (Some k) = Inr future
           \<and> at_atom_sha256 ` set (ds_released_atoms s')
               = at_atom_sha256 ` set (ds_released_atoms s) \<union> at_atom_sha256 ` set future
           \<and> set (ds_released_atoms s') \<subseteq> set (ds_released_atoms s) \<union> set future))"
  using transition_facts [OF assms] .

lemma transition_exact_witness:
  "ds_warehouse_snapshot_sha256 snap_state = fa_snapshot_sha256 snap_action \<and> validate_state sample_hash snap_state = Inr snap_state"
  using transition_exact [OF sample_transitions(1)] by simp

text \<open>A sequence of transitions, as the search composes them.\<close>

fun apply_all :: "(string \<Rightarrow> string) \<Rightarrow> action_grammar \<Rightarrow> disclosure_state \<Rightarrow> future_action list \<Rightarrow> disclosure_state result" where
  "apply_all H g s [] = Inr s"
| "apply_all H g s (a # as) = bindr (apply_future_action H s a g) (\<lambda>s'. apply_all H g s' as)"

lemma transition_stays:
  assumes "apply_future_action H s a g = Inr s'" and "\<forall>a \<in> set (gm_actions g). declared_action (gm_context g) a"
  shows "require_state_in_model_universe s' (gm_context g) = Inr ()"
    and "at_atom_sha256 ` set (ds_released_atoms s) \<subseteq> at_atom_sha256 ` set (ds_released_atoms s')"
proof -
  let ?c = "gm_context g"
  note t = transition_facts [OF assms(1)]
  from t show mono: "at_atom_sha256 ` set (ds_released_atoms s) \<subseteq> at_atom_sha256 ` set (ds_released_atoms s')"
    by (auto split: if_splits)
  from t have require: "require_state_in_model_universe s ?c = Inr ()" by blast
  then have node: "(cx_base_warehouse_snapshot_sha256 ?c, ds_warehouse_snapshot_sha256 s) \<in> (snapshot_edges (cx_snapshot_transitions ?c))\<^sup>*"
    using reachable_nodes_exact [of "cx_base_warehouse_snapshot_sha256 ?c" "[cx_base_warehouse_snapshot_sha256 ?c]" "cx_snapshot_transitions ?c"]
    by (auto simp: require_state_in_model_universe_def reachable_snapshot_nodes_def)
  have "(cx_base_warehouse_snapshot_sha256 ?c, ds_warehouse_snapshot_sha256 s') \<in> (snapshot_edges (cx_snapshot_transitions ?c))\<^sup>*"
  proof (cases "fa_kind a = SNAPSHOT_ADVANCE")
    case True
    with t have edge: "a \<in> set (gm_actions g)" "ds_warehouse_snapshot_sha256 s = fa_snapshot_from_sha256 a"
      "ds_warehouse_snapshot_sha256 s' = fa_snapshot_sha256 a" by auto
    with assms(2) True obtain u where "u \<in> set (cx_snapshot_transitions ?c)"
      "fa_snapshot_from_sha256 a = st_from_snapshot_sha256 u" "fa_snapshot_sha256 a = transition_target u"
      by (auto simp: declared_action_def split: option.splits)
    with node edge show ?thesis by (auto intro: rtrancl_into_rtrancl)
  next
    case False
    with t node show ?thesis by auto
  qed
  then have "ds_warehouse_snapshot_sha256 s' \<in> set (reachable_snapshot_nodes (cx_base_warehouse_snapshot_sha256 ?c) (cx_snapshot_transitions ?c))"
    using reachable_nodes_exact [of "cx_base_warehouse_snapshot_sha256 ?c" "[cx_base_warehouse_snapshot_sha256 ?c]" "cx_snapshot_transitions ?c"]
    by (auto simp: reachable_snapshot_nodes_def)
  with require t mono show "require_state_in_model_universe s' ?c = Inr ()"
    by (auto simp: require_state_in_model_universe_def)
qed

lemma apply_all_stays:
  "apply_all H g s as = Inr s' \<Longrightarrow> require_state_in_model_universe s (gm_context g) = Inr ()
    \<Longrightarrow> validate_state H s = Inr s \<Longrightarrow> \<forall>a \<in> set (gm_actions g). declared_action (gm_context g) a
    \<Longrightarrow> require_state_in_model_universe s' (gm_context g) = Inr () \<and> validate_state H s' = Inr s'
      \<and> at_atom_sha256 ` set (ds_released_atoms s) \<subseteq> at_atom_sha256 ` set (ds_released_atoms s')"
proof (induction H g s as rule: apply_all.induct)
  case (2 H g s a as)
  from 2(2) obtain t where t: "apply_future_action H s a g = Inr t" "apply_all H g t as = Inr s'" by auto
  have "validate_state H t = Inr t" using transition_facts [OF t(1)] by blast
  with 2(1) [OF t(2)] transition_stays [OF t(1) 2(5)] 2(5) show ?case by blast
qed simp

text \<open>C35: universe_closed. From a validated state inside the universe of an instantiated grammar, any
  sequence of transitions ends, when it is not rejected, in a validated state inside the universe:
  the snapshot stays one that the declared edges lead to, and what was released stays released.\<close>

theorem universe_closed:
  assumes "instantiate_future_action_grammar H c = Inr g" and "validate_state H s = Inr s"
    and "require_state_in_model_universe s c = Inr ()" and "apply_all H g s as = Inr s'"
  shows "require_state_in_model_universe s' c = Inr () \<and> validate_state H s' = Inr s'
    \<and> at_atom_sha256 ` set (ds_released_atoms s) \<subseteq> at_atom_sha256 ` set (ds_released_atoms s')"
proof -
  note g = grammar_instance [OF assms(1)]
  with instantiated_declared [OF g(2)] apply_all_stays [OF assms(4)] assms(2,3) show ?thesis by simp
qed

lemma universe_closed_witness:
  "apply_all sample_hash id_grammar id_state [snap_action, replay_action] = Inr snap_state
    \<and> require_state_in_model_universe snap_state id_context = Inr ()"
proof -
  have "apply_all sample_hash id_grammar id_state [snap_action, replay_action] = Inr snap_state"
    by (simp add: sample_transitions)
  with universe_closed [OF id_grammar_built id_state_valid id_in_universe this] show ?thesis by simp
qed

end
