(* ===== verification/Search_Space.thy ===== *)
theory Search_Space
  imports Search Search_Laws Grammar_Theorems
begin

text \<open>
  The space that \<open>ppmc_search.py\<close> explores, as a transition system over the code's own functions: a
  point is a depth, a state and the temporal path that led there, a step is a grammar action the
  transition function takes and the oracle admits. Two points with the same state and the same
  observed pairs of release and snapshot have matching successors and are evaluated alike, which
  makes the system an instance of the search contract.
\<close>

type_synonym search_env = "(string \<Rightarrow> string) \<times> search_input"
type_synonym search_point = "nat \<times> disclosure_state \<times> temporal_path option"

definition admitted ::
    "(string \<Rightarrow> string) \<Rightarrow> search_input \<Rightarrow> disclosure_state \<Rightarrow> future_action \<Rightarrow> oracle_decision \<Rightarrow> disclosure_state \<Rightarrow> bool" where
  "admitted H i s a d s' \<longleftrightarrow> a \<in> set (gm_actions (si_grammar i)) \<and> apply_future_action H s a (si_grammar i) = Inr s'
     \<and> invoke_local_oracle H (si_oracle i) s a = Some d \<and> od_admissible d"

fun point_start :: "search_env \<Rightarrow> search_point \<Rightarrow> bool" where
  "point_start (H, i) (n, s, t) \<longleftrightarrow> n = 0 \<and> s = si_initial_state i
     \<and> initial_temporal_path H (si_initial_state i) (si_grammar i) = Inr t"

fun point_step :: "search_env \<Rightarrow> search_point \<Rightarrow> search_point \<Rightarrow> bool" where
  "point_step (H, i) (n, s, t) (m, s', t') \<longleftrightarrow> m = Suc n
     \<and> (\<exists>p a d. t = Some p \<and> admitted H i s a d s' \<and> extend_temporal_path H p a s' (Suc n) = Inr t')"

abbreviation reach :: "search_env \<Rightarrow> search_point \<Rightarrow> bool" where
  "reach E \<equiv> explored (point_start E) (point_step E)"

fun same_point :: "search_point \<Rightarrow> search_point \<Rightarrow> bool" where
  "same_point (n, s, t) (m, s', t') \<longleftrightarrow> s = s' \<and> rel_option (\<lambda>p q. sensitive_pairs p = sensitive_pairs q) t t'"

fun proved_safe :: "search_env \<Rightarrow> search_point \<Rightarrow> bool" where
  "proved_safe (H, i) (n, s, t) \<longleftrightarrow> (\<exists>e. evaluate_forbidden_state H s (si_policy i) (si_binding i) t = Inr e
     \<and> \<not> se_forbidden e \<and> se_indeterminate_predicates e = [])"

fun valid_search :: "search_env \<Rightarrow> bool" where
  "valid_search (H, i) \<longleftrightarrow> hex_digest H \<and> revalidate_inputs H i = Inr ()"

fun search_bound :: "search_env \<Rightarrow> nat" where
  "search_bound (H, i) = nat (pc_bound (si_config i))"

section \<open>What revalidation gives\<close>

lemma valid_searchD:
  assumes "valid_search (H, i)"
  shows "hex_digest H" and "validate_state H (si_initial_state i) = Inr (si_initial_state i)"
    and "valid_atoms H (ds_released_atoms (si_initial_state i))"
    and "validate_grammar H (si_grammar i) = Inr (si_grammar i)"
    and "a \<in> set (gm_actions (si_grammar i)) \<Longrightarrow> validate_action H a = Inr a"
    and "a \<in> set (gm_actions (si_grammar i)) \<Longrightarrow> fa_semantic a = Some sem \<Longrightarrow> is_sha256 (sr_semantic_sha256 sem)"
    and "is_sha256 (sr_semantic_sha256 (cx_base_semantic (gm_context (si_grammar i))))"
    and "0 \<le> pc_bound (si_config i)" "pc_bound (si_config i) \<le> 5"
    and "1 \<le> pc_max_states (si_config i)" "pc_max_states (si_config i) \<le> 50000"
    and "is_sha256 (pc_config_sha256 (si_config i))"
    and "validate_forbidden_policy H (si_policy i) = Inr (si_policy i)"
    and "si_binding i = Some b \<Longrightarrow> validate_governance_binding H b = Inr b"
proof -
  from assms show "hex_digest H" by simp
  from assms have r: "revalidate_inputs H i = Inr ()" by simp
  then have state: "\<exists>x. revalidate_state H (si_initial_state i) = Inr x"
    and grammar: "\<exists>x. revalidate_grammar H (si_grammar i) = Inr x"
    and policy: "\<exists>x. validate_forbidden_policy H (si_policy i) = Inr x"
    and config: "\<exists>x. validate_config H (si_config i) = Inr x"
    and binding: "\<And>b. si_binding i = Some b \<Longrightarrow> \<exists>x. validate_governance_binding H b = Inr x"
    by (auto simp: revalidate_inputs_def)
  from state show "validate_state H (si_initial_state i) = Inr (si_initial_state i)"
    by (auto simp: revalidate_state_def elim: validate_state_Inr)
  from state obtain atoms where "list_all2 (\<lambda>x y. validate_atom H x = Inr y)
      (ds_released_atoms (si_initial_state i) @ ds_derived_atoms (si_initial_state i)) atoms"
    by (auto simp: revalidate_state_def mapr_Inr_iff)
  then show "valid_atoms H (ds_released_atoms (si_initial_state i))"
    unfolding valid_atoms_def by (auto simp: validate_atom_def dest!: list_all2_left)
  from grammar show "validate_grammar H (si_grammar i) = Inr (si_grammar i)"
    by (auto simp: revalidate_grammar_def validate_grammar_def)
  from grammar obtain acts where acts: "list_all2 (\<lambda>x y. revalidate_action H x = Inr y) (gm_actions (si_grammar i)) acts"
    by (auto simp: revalidate_grammar_def mapr_Inr_iff)
  have act: "\<exists>y. revalidate_action H a = Inr y" if "a \<in> set (gm_actions (si_grammar i))" for a
    using list_all2_left [OF acts that] by blast
  show "validate_action H a = Inr a" if "a \<in> set (gm_actions (si_grammar i))"
    using act [OF that] by (auto simp: revalidate_action_def dest: validate_action_Inr(1))
  show "is_sha256 (sr_semantic_sha256 sem)" if "a \<in> set (gm_actions (si_grammar i))" "fa_semantic a = Some sem"
    using act [OF that(1)] that(2) by (auto simp: revalidate_action_def validate_release_def release_checks_def)
  from grammar show "is_sha256 (sr_semantic_sha256 (cx_base_semantic (gm_context (si_grammar i))))"
    by (auto simp: revalidate_grammar_def revalidate_context_def validate_release_def release_checks_def)
  from config show "0 \<le> pc_bound (si_config i)" "pc_bound (si_config i) \<le> 5"
    "1 \<le> pc_max_states (si_config i)" "pc_max_states (si_config i) \<le> 50000" "is_sha256 (pc_config_sha256 (si_config i))"
    by (auto simp: validate_config_def)
  from policy show "validate_forbidden_policy H (si_policy i) = Inr (si_policy i)" by (auto simp: validate_forbidden_policy_def)
  from binding show "si_binding i = Some b \<Longrightarrow> validate_governance_binding H b = Inr b"
    by (force simp: validate_governance_binding_def)
qed

section \<open>Temporal paths\<close>

lemma build_observation_Inr:
  assumes "build_temporal_release_observation H k sha w sensitive = Inr ob"
  shows "validate_observation H ob = Inr ob" "to_step_index ob = k" "to_release_semantic_sha256 ob = sha"
    "to_warehouse_snapshot_sha256 ob = w" "to_sensitive_release ob = sensitive"
  using assms by (auto simp: build_temporal_release_observation_def Let_def validate_observation_def)

lemma build_observation_total:
  assumes "hex_digest H" "0 \<le> k" "k \<le> 5" "is_sha256 sha" "is_sha256 w"
  shows "\<exists>ob. build_temporal_release_observation H k sha (Some w) sensitive = Inr ob"
  using assms by (simp add: build_temporal_release_observation_def Let_def validate_observation_def
      compute_temporal_observation_sha256_def observation_fields_json_def hex_digest_sha256)

lemma build_path_Inr:
  assumes "build_temporal_path_context H obs = Inr p"
  shows "validate_path H p = Inr p" "tp_observations p = sort_key observation_key obs"
  using assms by (auto simp: build_temporal_path_context_def Let_def validate_path_def)

lemma canonical_sort_key: "canonical (map f (sort_key f xs)) \<longleftrightarrow> distinct (map f xs)"
  by (simp add: canonical_iff distinct_map)

lemma build_path_total:
  assumes "hex_digest H" "length obs \<le> 64" "distinct (map observation_key obs)"
  shows "\<exists>p. build_temporal_path_context H obs = Inr p"
  using assms by (simp add: build_temporal_path_context_def Let_def validate_path_def canonical_sort_key
      compute_temporal_path_sha256_def hex_digest_sha256 len_between_def)

text \<open>A path as the search builds it: at most one observation per step so far.\<close>

definition path_upto :: "(string \<Rightarrow> string) \<Rightarrow> nat \<Rightarrow> temporal_path \<Rightarrow> bool" where
  "path_upto H n p \<longleftrightarrow> valid_path H p \<and> length (tp_observations p) \<le> Suc n
     \<and> (\<forall>ob \<in> set (tp_observations p). to_step_index ob \<le> int n)"

lemma path_upto_mono: "path_upto H n p \<Longrightarrow> n \<le> m \<Longrightarrow> path_upto H m p"
  by (fastforce simp: path_upto_def)

text \<open>The three ways a release or snapshot action extends a path.\<close>

lemma extend_cases:
  assumes "validate_action H a = Inr a"
  obtains (keep) "\<And>p k. extend_temporal_path H p a s' k = Inr (Some p)"
    | (lost) "\<And>p k. extend_temporal_path H p a s' k = Inr None"
    | (observe) sem w where "fa_semantic a = Some sem" "ds_warehouse_snapshot_sha256 s' = Some w"
        "\<And>p k. extend_temporal_path H p a s' k =
          bindr (build_temporal_release_observation H (int k) (sr_semantic_sha256 sem) (Some w) True)
            (\<lambda>ob. bindr (build_temporal_path_context H (tp_observations p @ [ob])) (\<lambda>q. Inr (Some q)))"
proof (cases "fa_kind a = SNAPSHOT_ADVANCE")
  case True
  then show thesis by (intro keep) (simp add: extend_temporal_path_def)
next
  case False
  from validate_action_Inr(4) [OF assms False] obtain sem where sem: "fa_semantic a = Some sem" by blast
  show thesis
  proof (cases "semantic_is_sensitive sem")
    case True
    show thesis
    proof (cases "ds_warehouse_snapshot_sha256 s'")
      case None
      with False sem True show thesis by (intro lost) (simp add: extend_temporal_path_def)
    next
      case (Some w)
      with False sem True show thesis by (intro observe [OF sem Some]) (simp add: extend_temporal_path_def)
    qed
  next
    case not_sensitive: False
    with False sem show thesis by (intro keep) (simp add: extend_temporal_path_def)
  qed
qed

lemma sensitive_pairs_append:
  assumes "tp_observations q = sort_key observation_key (tp_observations p @ [ob])" "to_sensitive_release ob"
    and "to_warehouse_snapshot_sha256 ob = Some w"
  shows "sensitive_pairs q = insert (to_release_semantic_sha256 ob, Some w) (sensitive_pairs p)"
  using assms by (auto simp: sensitive_pairs_def relevant_observations_def image_iff)

lemma observed_path:
  assumes "build_temporal_release_observation H (int (Suc n)) sha (Some w) True = Inr ob"
    and "build_temporal_path_context H (tp_observations p @ [ob]) = Inr q" and "path_upto H n p"
  shows "path_upto H (Suc n) q" and "sensitive_pairs q = insert (sha, Some w) (sensitive_pairs p)"
proof -
  note ob = build_observation_Inr [OF assms(1)] and q = build_path_Inr [OF assms(2)]
  from assms(3) have "length (tp_observations p) \<le> Suc n" "\<forall>t \<in> set (tp_observations p). to_step_index t \<le> int n"
    "\<forall>t \<in> set (tp_observations p). validate_observation H t = Inr t"
    by (simp_all add: path_upto_def valid_path_def)
  with ob q show "path_upto H (Suc n) q" by (fastforce simp: path_upto_def valid_path_def)
  show "sensitive_pairs q = insert (sha, Some w) (sensitive_pairs p)"
    using sensitive_pairs_append [OF q(2), of w] ob by simp
qed

lemma observed_total:
  assumes "hex_digest H" "n < 5" "is_sha256 sha" "is_sha256 w" "path_upto H n p"
  shows "\<exists>ob q. build_temporal_release_observation H (int (Suc n)) sha (Some w) True = Inr ob
     \<and> build_temporal_path_context H (tp_observations p @ [ob]) = Inr q"
proof -
  from build_observation_total [OF assms(1) _ _ assms(3,4), of "int (Suc n)" True] assms(2)
  obtain ob where ob: "build_temporal_release_observation H (int (Suc n)) sha (Some w) True = Inr ob" by auto
  from assms(5) have p: "length (tp_observations p) \<le> Suc n" "\<forall>t \<in> set (tp_observations p). to_step_index t \<le> int n"
    "canonical (map observation_key (tp_observations p))"
    by (auto simp: path_upto_def valid_path_def validate_path_def)
  from p(2) build_observation_Inr(2) [OF ob] have "observation_key ob \<notin> observation_key ` set (tp_observations p)"
    by force
  with p(3) have "distinct (map observation_key (tp_observations p @ [ob]))" by (auto simp: canonical_iff)
  from build_path_total [OF assms(1) _ this] p(1) assms(2) ob show ?thesis by auto
qed

section \<open>Points that the search can reach\<close>

lemma initial_path_upto:
  assumes "initial_temporal_path H s g = Inr (Some p)"
  shows "path_upto H 0 p"
proof -
  from assms consider (empty) "build_temporal_path_context H [] = Inr p"
    | (one) ob sha w where "build_temporal_release_observation H 0 sha (Some w) True = Inr ob"
        "build_temporal_path_context H [ob] = Inr p"
    by (auto simp: initial_temporal_path_def Let_def split: if_splits option.splits)
  then show ?thesis
  proof cases
    case empty
    from build_path_Inr [OF this] show ?thesis by (simp add: path_upto_def valid_path_def)
  next
    case one
    from build_path_Inr [OF one(2)] build_observation_Inr [OF one(1)] show ?thesis
      by (simp add: path_upto_def valid_path_def)
  qed
qed

lemma direct_atoms_valid: "direct_atoms_for_release H sem k = Inr atoms \<Longrightarrow> valid_atoms H atoms"
proof -
  assume "direct_atoms_for_release H sem k = Inr atoms"
  then obtain built where built: "mapr (build_atom H) (release_atom_fields sem k) = Inr built"
    and atoms: "atoms = by_key at_atom_sha256 built"
    by (auto simp: direct_atoms_for_release_def)
  have "valid_atoms H built"
    unfolding valid_atoms_def using mapr_set [OF built] by (fastforce simp: build_atom_def validate_atom_def)
  then show ?thesis using set_by_key_subset [of at_atom_sha256 built] atoms by (auto simp: valid_atoms_def)
qed

lemma transition_valid_atoms:
  assumes "apply_future_action H s a g = Inr s'" and "valid_atoms H (ds_released_atoms s)"
  shows "valid_atoms H (ds_released_atoms s')"
proof (cases "fa_kind a = SNAPSHOT_ADVANCE")
  case True
  with transition_facts [OF assms(1)] assms(2) show ?thesis by simp
next
  case False
  with transition_facts [OF assms(1)] obtain sem k future where "direct_atoms_for_release H sem (Some k) = Inr future"
    "set (ds_released_atoms s') \<subseteq> set (ds_released_atoms s) \<union> set future" by auto
  with assms(2) direct_atoms_valid show ?thesis by (fastforce simp: valid_atoms_def)
qed

lemma reach_valid:
  assumes "valid_search (H, i)" and "reach (H, i) x"
  shows "case x of (n, s, t) \<Rightarrow> validate_state H s = Inr s \<and> valid_atoms H (ds_released_atoms s)
    \<and> (\<forall>p. t = Some p \<longrightarrow> path_upto H n p)"
  using assms(2)
proof (induction rule: explored.induct)
  case (at_start x)
  with valid_searchD(2,3) [OF assms(1)] initial_path_upto show ?case by (cases x) auto
next
  case (by_step x y)
  obtain n s t m s' t' where xy: "x = (n, s, t)" "y = (m, s', t')" by (cases x, cases y)
  with by_step(2) obtain p a d where st: "m = Suc n" "t = Some p" "admitted H i s a d s'"
    "extend_temporal_path H p a s' (Suc n) = Inr t'" by auto
  from st(3) have a: "apply_future_action H s a (si_grammar i) = Inr s'" "validate_action H a = Inr a"
    using valid_searchD(5) [OF assms(1)] by (auto simp: admitted_def)
  from by_step(3) xy st(2) have ih: "valid_atoms H (ds_released_atoms s)" "path_upto H n p" by auto
  have "path_upto H m q" if "t' = Some q" for q
    using a(2)
  proof (cases rule: extend_cases [where s' = s'])
    case keep
    with st(1,4) that path_upto_mono [OF ih(2), of m] show ?thesis by simp
  next
    case lost
    with st(4) that show ?thesis by simp
  next
    case (observe sem w)
    with st(1,4) that observed_path(1) [OF _ _ ih(2)] show ?thesis by auto
  qed
  with transition_facts [OF a(1)] transition_valid_atoms [OF a(1) ih(1)] xy show ?case by auto
qed

section \<open>Evaluation depends on the pairs only\<close>

lemma differenced_pairs: "sensitive_pairs p = sensitive_pairs q \<Longrightarrow> differenced p = differenced q"
  by (simp add: differenced_def)

lemma evaluate_same_pairs:
  assumes "hex_digest H" and "evaluate_forbidden_state H s policy binding (Some p) = Inr e"
    and "sensitive_pairs p = sensitive_pairs q" and "valid_path H q" and "minimums_set s"
  shows "\<exists>e'. evaluate_forbidden_state H s policy binding (Some q) = Inr e' \<and> se_forbidden e' = se_forbidden e
    \<and> se_indeterminate_predicates e' = []"
proof -
  let ?direct = "ds_released_atoms s"
  from assms(2) obtain x where x: "validate_state_evaluation H x = Inr e"
    unfolding evaluate_forbidden_state_def Let_def bindr_Inr_iff by blast
  then have "x = e" by (simp add: validate_state_evaluation_def)
  with x have "validate_state_evaluation H e = Inr e" by simp
  moreover have "se_state_sha256 e = ds_state_sha256 s" "se_policy_sha256 e = fp_policy_sha256 policy"
    "se_governance_binding_sha256 e = map_option gb_binding_sha256 binding"
    by (rule evaluate_forbidden_Inr [OF assms(2)], assumption)+
  ultimately have sha: "is_sha256 (ds_state_sha256 s)" "is_sha256 (fp_policy_sha256 policy)"
    "opt_all is_sha256 (map_option gb_binding_sha256 binding)"
    by (auto simp: validate_state_evaluation_def)
  from assms(2) obtain f1 f2 f3 f4 f5 f6 where f: "same_release_linkage H s F1_DIRECT_SENSITIVE_LINKAGE DIRECT_IDENTIFIER
             DIRECT_AND_SENSITIVE_LINKABLE_SAME_RELEASE (by_release (output_atoms forbidden_linkable_kinds ?direct)) = Inr f1"
    "same_release_linkage H s F2_STABLE_LINKABLE_SENSITIVE STABLE_PSEUDONYM
             STABLE_AND_SENSITIVE_LINKABLE_SAME_RELEASE (by_release (output_atoms forbidden_linkable_kinds ?direct)) = Inr f2"
    "small_cohort_sensitive H s policy (by_release (output_atoms forbidden_revealing_kinds ?direct)) (by_release ?direct) = Inr f3"
    "cross_release_composition H s (output_atoms forbidden_linkable_kinds ?direct) = Inr f4"
    "temporal_differencing H s (Some p) = Inr f5" "untrusted_governance H s binding = Inr f6"
    by (auto simp: evaluate_forbidden_state_def evaluate_predicates_def Let_def)
  obtain f5' where "temporal_differencing H s (Some q) = Inr f5'"
    using temporal_differencing_total [OF assms(1) sha(1), of "Some q"] assms(4) by auto
  with f have es: "evaluate_predicates H s policy binding (Some q) = Inr [f1, f2, f3, f4, f5', f6]"
    by (simp add: evaluate_predicates_def)
  note r = evaluate_predicates_Inr [OF es assms(5)]
  have "is_sha256 (tp_path_sha256 q)" using assms(4) by (auto simp: valid_path_def validate_path_def)
  then obtain e' where e': "evaluate_forbidden_state H s policy binding (Some q) = Inr e'"
    using sha r(1,2) by (simp add: evaluate_forbidden_state_def Let_def es validate_state_evaluation_def list_ex_iff
        compute_state_evaluation_sha256_def hex_digest_sha256 [OF assms(1)])
  have "predicate_holds s k binding (Some p) x = predicate_holds s k binding (Some q) x" for k x
    using differenced_pairs [OF assms(3)] by (cases x) simp_all
  with evaluate_summary [OF assms(2,5)] evaluate_summary [OF e' assms(5)] e' show ?thesis by auto
qed

section \<open>The space satisfies the search contract\<close>

lemma same_point_step:
  assumes "valid_search (H, i)" and "reach (H, i) x" "reach (H, i) y" "same_point x y"
    and "fst y < search_bound (H, i)" and "point_step (H, i) x x'"
  shows "\<exists>y'. point_step (H, i) y y' \<and> same_point x' y'"
proof -
  obtain n s t m s2 t2 n' s' t' where x: "x = (n, s, t)" "y = (m, s2, t2)" "x' = (n', s', t')"
    by (cases x, cases y, cases x')
  with assms(6) obtain p a d where st: "t = Some p" "admitted H i s a d s'" "extend_temporal_path H p a s' (Suc n) = Inr t'" by auto
  with assms(4) x obtain q where q: "s2 = s" "t2 = Some q" "sensitive_pairs p = sensitive_pairs q" by (cases t2) auto
  from reach_valid [OF assms(1,2)] reach_valid [OF assms(1,3)] x st(1) q(2)
  have upto: "path_upto H n p" "path_upto H m q" by auto
  from assms(5) x valid_searchD(9) [OF assms(1)] have m: "m < 5" by simp
  from st(2) have a: "a \<in> set (gm_actions (si_grammar i))" "validate_action H a = Inr a"
    "apply_future_action H s a (si_grammar i) = Inr s'"
    using valid_searchD(5) [OF assms(1)] by (auto simp: admitted_def)
  have "\<exists>u. extend_temporal_path H q a s' (Suc m) = Inr u \<and> rel_option (\<lambda>p q. sensitive_pairs p = sensitive_pairs q) t' u"
    using a(2)
  proof (cases rule: extend_cases [where s' = s'])
    case keep
    with st(3) q(3) show ?thesis by auto
  next
    case lost
    with st(3) show ?thesis by auto
  next
    case (observe sem w)
    from st(3) observe(3) obtain ob p' where p': "t' = Some p'"
      "build_temporal_release_observation H (int (Suc n)) (sr_semantic_sha256 sem) (Some w) True = Inr ob"
      "build_temporal_path_context H (tp_observations p @ [ob]) = Inr p'" by auto
    have "validate_state H s' = Inr s'" using transition_facts [OF a(3)] by blast
    with observe(2) have "is_sha256 w" by (auto simp: validate_state_def)
    from observed_total [OF valid_searchD(1) [OF assms(1)] m valid_searchD(6) [OF assms(1) a(1) observe(1)] this upto(2)]
    obtain ob2 q' where q': "build_temporal_release_observation H (int (Suc m)) (sr_semantic_sha256 sem) (Some w) True = Inr ob2"
      "build_temporal_path_context H (tp_observations q @ [ob2]) = Inr q'" by blast
    from observed_path(2) [OF p'(2,3) upto(1)] observed_path(2) [OF q' upto(2)] q(3)
    have "sensitive_pairs p' = sensitive_pairs q'" by simp
    with p'(1) q' observe(3) show ?thesis by simp
  qed
  then obtain u where u: "extend_temporal_path H q a s' (Suc m) = Inr u"
    "rel_option (\<lambda>p q. sensitive_pairs p = sensitive_pairs q) t' u" by blast
  with x q st(2) show ?thesis by (intro exI [of _ "(Suc m, s', u)"]) auto
qed

lemma same_point_safe:
  assumes "valid_search (H, i)" and "reach (H, i) x" "reach (H, i) y" "same_point x y" "proved_safe (H, i) y"
  shows "proved_safe (H, i) x"
proof -
  obtain n s t m s2 t2 where x: "x = (n, s, t)" "y = (m, s2, t2)" by (cases x, cases y)
  with assms(5) obtain e where e: "evaluate_forbidden_state H s2 (si_policy i) (si_binding i) t2 = Inr e" "\<not> se_forbidden e"
    "se_indeterminate_predicates e = []" by auto
  from reach_valid [OF assms(1,3)] x have "minimums_set s2" by (auto intro: valid_atoms_minimums)
  with evaluate_summary(2) [OF e(1)] e(3) obtain q where q: "t2 = Some q" by (cases t2) auto
  with assms(4) x obtain p where p: "t = Some p" "s = s2" "sensitive_pairs q = sensitive_pairs p" by (cases t) auto
  from reach_valid [OF assms(1,2)] x p have "valid_path H p" by (auto simp: path_upto_def)
  from evaluate_same_pairs [OF valid_searchD(1) [OF assms(1)] e(1) [unfolded q] p(3) this \<open>minimums_set s2\<close>] e p x
  show ?thesis by auto
qed

interpretation space: bounded_search valid_search point_start point_step fst search_bound same_point
    "\<lambda>E x. \<not> proved_safe E x"
proof
  show "point_step E x y \<Longrightarrow> fst y = Suc (fst x)" for E x y by (cases E; cases x; cases y) auto
  show "same_point x y \<Longrightarrow> same_point y z \<Longrightarrow> same_point x z" for x y z
    by (cases x; cases y; cases z) (auto simp: option.rel_sel)
  show "valid_search E \<Longrightarrow> reach E x \<Longrightarrow> reach E y \<Longrightarrow> same_point x y \<Longrightarrow> fst y < search_bound E \<Longrightarrow> point_step E x x'
      \<Longrightarrow> \<exists>y'. point_step E y y' \<and> same_point x' y'" for E x y x'
    by (cases E) (simp only: same_point_step)
  show "valid_search E \<Longrightarrow> reach E x \<Longrightarrow> reach E y \<Longrightarrow> same_point x y \<Longrightarrow> \<not> proved_safe E x \<Longrightarrow> \<not> proved_safe E y" for E x y
    using same_point_safe by (cases E) blast
qed

end
