(* ===== verification/Policy_Oracle.thy ===== *)
theory Policy_Oracle
  imports Policy Search_Space
begin

text \<open>
  The adapter between the model checker and the policy engine,
  \<open>src/toxicjoin/prospective/policy_oracle.py\<close>: the trusted governance context that keeps the
  lineage of each column, the reconstruction of a \<open>PolicyInput\<close> from a semantic release, and the
  local oracle that admits a release exactly when \<open>PolicyEngine.evaluate\<close> answers ALLOW. The
  engine's configuration is an argument of every call, since the engine is a shared object whose
  configuration can be replaced after the oracle was bound to it.
\<close>

section \<open>JSON forms of policy inputs and decisions\<close>

definition column_context_json :: "column_context \<Rightarrow> json" where
  "column_context_json c = JObj
     [(''ref'', column_ref_json (cc_ref c)), (''category'', JStr (category_value (cc_category c))),
      (''datahub_urn'', jopt JStr (cc_datahub_urn c)), (''tags'', jstrs (cc_tags c)),
      (''glossary_terms'', jstrs (cc_glossary_terms c)),
      (''lineage_sources'', JArr (map lineage_source_json (cc_lineage_sources c))),
      (''resolved'', JBool (cc_resolved c))]"

definition query_plan_json :: "query_plan \<Rightarrow> json" where
  "query_plan_json q = JObj
     [(''statement_type'', JStr (qp_statement_type q)), (''source_datasets'', jstrs (qp_source_datasets q)),
      (''projected_columns'', JArr (map column_ref_json (qp_projected_columns q))),
      (''projected_exposures'', JArr (map exposure_json (qp_projected_exposures q))),
      (''referenced_columns'', JArr (map column_ref_json (qp_referenced_columns q))),
      (''join_columns'', JArr (map column_ref_json (qp_join_columns q))),
      (''group_by_columns'', JArr (map column_ref_json (qp_group_by_columns q))),
      (''aggregate_functions'', jstrs (qp_aggregate_functions q)),
      (''minimum_group_size_present'', jopt JInt (qp_minimum_group_size_present q)),
      (''minimum_group_size_subject'', jopt column_ref_json (qp_minimum_group_size_subject q)),
      (''is_grouped'', JBool (qp_is_grouped q)), (''contains_wildcard'', JBool (qp_contains_wildcard q)),
      (''analysis_warnings'', jstrs (qp_analysis_warnings q))]"

definition policy_input_json :: "policy_input \<Rightarrow> json" where
  "policy_input_json p = JObj
     [(''task_purpose'', JStr (pi_task_purpose p)), (''query_plan'', query_plan_json (pi_query_plan p)),
      (''projected_context'', JArr (map column_context_json (pi_projected_context p))),
      (''all_referenced_context'', JArr (map column_context_json (pi_all_referenced_context p))),
      (''subject_key'', jopt column_ref_json (pi_subject_key p)),
      (''minimum_group_size_present'', jopt JInt (pi_minimum_group_size_present p)),
      (''upstream_failures'', jstrs (map reason_value (pi_upstream_failures p)))]"

definition policy_decision_json :: "policy_decision \<Rightarrow> json" where
  "policy_decision_json d = JObj
     [(''decision'', JStr (decision_value (pd_decision d))),
      (''reason_codes'', jstrs (map reason_value (pd_reason_codes d))),
      (''policy_version'', JStr (pd_policy_version d)), (''evidence'', JObj (pd_evidence d)),
      (''rewrite_required'', JBool (pd_rewrite_required d))]"

definition policy_config_json :: "policy_config \<Rightarrow> json" where
  "policy_config_json c = JObj
     [(''version'', JStr (cfg_version c)), (''minimum_group_size'', JInt (cfg_minimum_group_size c)),
      (''quasi_identifier_threshold'', JInt (cfg_quasi_identifier_threshold c)),
      (''fail_closed'', JBool (cfg_fail_closed c)), (''categories'', categories_json (cfg_categories c))]"

definition policy_input_sha256 :: "(string \<Rightarrow> string) \<Rightarrow> policy_input \<Rightarrow> string" where
  "policy_input_sha256 H p = canonical_json_sha256 H (policy_input_json p)"

definition policy_decision_sha256 :: "(string \<Rightarrow> string) \<Rightarrow> policy_decision \<Rightarrow> string" where
  "policy_decision_sha256 H d = canonical_json_sha256 H (policy_decision_json d)"

definition policy_config_sha256 :: "(string \<Rightarrow> string) \<Rightarrow> policy_config \<Rightarrow> string" where
  "policy_config_sha256 H c = canonical_json_sha256 H (policy_config_json c)"

section \<open>The governance context\<close>

record oracle_governance =
  og_columns :: "column_context list"
  og_context_sha256 :: string

text \<open>The key of a context under its dataset URN, and \<open>_governed_key\<close>, which needs that URN.\<close>

definition urn_key :: "string \<Rightarrow> column_context \<Rightarrow> string" where
  "urn_key urn c = urn @ ''#'' @ cr_field_path (cc_ref c)"

definition governed_key :: "column_context \<Rightarrow> string result" where
  "governed_key c = (case cc_datahub_urn c of
       None \<Rightarrow> Inl (PolicyOracleSemanticError ''governance column is missing dataset URN'')
     | Some urn \<Rightarrow> Inr (urn_key urn c))"

definition lineage_key :: "lineage_source \<Rightarrow> string \<times> string \<times> string \<times> string" where
  "lineage_key s = (cr_dataset (ls_ref s), cr_field_path (ls_ref s), category_value (ls_category s),
     py_or (ls_datahub_urn s) [])"

definition compute_oracle_governance_sha256 :: "(string \<Rightarrow> string) \<Rightarrow> oracle_governance \<Rightarrow> string" where
  "compute_oracle_governance_sha256 H g = canonical_json_sha256 H (JObj
     [(''schema_version'', JStr ''1.0''), (''columns'', JArr (map column_context_json (og_columns g)))])"

definition governance_column_checks :: "column_context \<Rightarrow> (bool \<times> error) list" where
  "governance_column_checks c =
     [(\<not> cc_resolved c \<or> cc_datahub_urn c = None \<or> cc_category c = UNCLASSIFIED \<or> cr_alias (cc_ref c) \<noteq> None,
         ValueError ''policy-oracle governance must be resolved and alias-insensitive''),
      (\<not> canonical (cc_tags c), ValueError ''policy-oracle governance tags must be canonical''),
      (\<not> canonical (cc_glossary_terms c), ValueError ''policy-oracle governance glossary terms must be canonical''),
      (\<not> canonical (map lineage_key (cc_lineage_sources c)),
         ValueError ''policy-oracle lineage must be canonical and unique''),
      (list_ex (\<lambda>s. cr_alias (ls_ref s) \<noteq> None \<or> ls_category s = UNCLASSIFIED) (cc_lineage_sources c),
         ValueError ''policy-oracle lineage must be classified and alias-insensitive'')]"

definition validate_oracle_governance :: "(string \<Rightarrow> string) \<Rightarrow> oracle_governance \<Rightarrow> oracle_governance result" where
  "validate_oracle_governance H g =
     bindr (raise_first
       [(\<not> len_between 1 512 (og_columns g), ValidationError ''columns length''),
        (\<not> is_sha256 (og_context_sha256 g), ValidationError ''context_sha256 pattern'')] ()) (\<lambda>_. in_validator (
       bindr (mapr governed_key (og_columns g)) (\<lambda>keys. raise_first
         ([(\<not> canonical keys, ValueError ''policy-oracle governance columns must be canonical and unique'')]
          @ concat (map governance_column_checks (og_columns g))
          @ [(og_context_sha256 g \<noteq> compute_oracle_governance_sha256 H g,
                ValueError ''policy-oracle governance context hash mismatch'')]) g)))"

text \<open>\<open>model_validate\<close> of a dumped context validates its columns and their lineage again.\<close>

definition revalidate_column_context :: "column_context \<Rightarrow> column_context result" where
  "revalidate_column_context c =
     bindr (validate_column_ref (cc_ref c)) (\<lambda>_.
     bindr (mapr (\<lambda>s. validate_column_ref (ls_ref s)) (cc_lineage_sources c)) (\<lambda>_. validate_column_context c))"

definition revalidate_oracle_governance :: "(string \<Rightarrow> string) \<Rightarrow> oracle_governance \<Rightarrow> oracle_governance result" where
  "revalidate_oracle_governance H g =
     bindr (mapr revalidate_column_context (og_columns g)) (\<lambda>_. validate_oracle_governance H g)"

text \<open>\<open>_normalize_context\<close>: the column and its lineage without aliases, in canonical order.\<close>

definition normalize_lineage :: "lineage_source \<Rightarrow> lineage_source result" where
  "normalize_lineage s = bindr (validate_column_ref ((ls_ref s)\<lparr>cr_alias := None\<rparr>)) (\<lambda>r. Inr (s\<lparr>ls_ref := r\<rparr>))"

definition normalize_context :: "column_context \<Rightarrow> column_context result" where
  "normalize_context c =
     (if \<not> cc_resolved c \<or> cc_datahub_urn c = None
      then Inl (PolicyOracleSemanticError ''prospective governance requires resolved dataset URNs'')
      else if cc_category c = UNCLASSIFIED
      then Inl (PolicyOracleSemanticError ''prospective governance cannot contain unclassified data'')
      else bindr (mapr normalize_lineage (cc_lineage_sources c)) (\<lambda>sources.
        let lineage = sort_key lineage_key sources
        in if list_ex (\<lambda>s. ls_category s = UNCLASSIFIED) lineage
           then Inl (PolicyOracleSemanticError ''prospective governance lineage is unclassified'')
           else bindr (validate_column_ref ((cc_ref c)\<lparr>cr_alias := None\<rparr>)) (\<lambda>ref. validate_column_context
             \<lparr>cc_ref = ref, cc_category = cc_category c, cc_datahub_urn = cc_datahub_urn c,
              cc_tags = sorted_set (cc_tags c), cc_glossary_terms = sorted_set (cc_glossary_terms c),
              cc_lineage_sources = lineage, cc_resolved = True\<rparr>)))"

fun index_governance ::
    "column_context list \<Rightarrow> (string \<times> column_context) list \<Rightarrow> (string \<times> column_context) list result" where
  "index_governance [] known = Inr known"
| "index_governance (c # cs) known =
     bindr (normalize_context c) (\<lambda>normalized. bindr (governed_key normalized) (\<lambda>key.
       if opt_all (\<lambda>existing. existing = normalized) (map_of known key)
       then index_governance cs (AList.update key normalized known)
       else Inl (PolicyOracleSemanticError (''conflicting governance for prospective column: '' @ key))))"

definition build_policy_oracle_governance_context ::
    "(string \<Rightarrow> string) \<Rightarrow> column_context list \<Rightarrow> oracle_governance result" where
  "build_policy_oracle_governance_context H columns =
     bindr (index_governance columns []) (\<lambda>known.
       let provisional = \<lparr>og_columns = sorted_values known, og_context_sha256 = zero_sha256\<rparr>
       in validate_oracle_governance H
            (provisional\<lparr>og_context_sha256 := compute_oracle_governance_sha256 H provisional\<rparr>))"

section \<open>Reconstructing a policy input\<close>

fun rethrow_oracle :: "'a result \<Rightarrow> 'a result" where
  "rethrow_oracle (Inl (ValidationError m)) =
     Inl (PolicyOracleSemanticError ''prospective policy input failed canonical validation'')"
| "rethrow_oracle r = r"

lemma rethrow_oracle_Inr [simp]: "rethrow_oracle r = Inr x \<longleftrightarrow> r = Inr x"
  by (cases r rule: rethrow_oracle.cases) auto

definition revalidate_oracle_inputs ::
    "(string \<Rightarrow> string) \<Rightarrow> disclosure_state \<Rightarrow> semantic_release \<Rightarrow> oracle_governance \<Rightarrow> unit result" where
  "revalidate_oracle_inputs H state semantic governance = rethrow_oracle (
     bindr (revalidate_state H state) (\<lambda>_. bindr (validate_release H semantic) (\<lambda>_.
     bindr (revalidate_oracle_governance H governance) (\<lambda>_. Inr ()))))"

definition oracle_semantic_columns :: "semantic_release \<Rightarrow> governed_column list result" where
  "oracle_semantic_columns s =
     bindr (index_columns (PolicyOracleSemanticError ''conflicting governed semantic column'')
       (sr_referenced_columns s @ sr_join_columns s @ sr_group_keys s @ concat (map so_sources (sr_outputs s))) [])
       (\<lambda>known. Inr (sorted_values known))"

definition governance_by_key :: "oracle_governance \<Rightarrow> (string \<times> column_context) list result" where
  "governance_by_key g = bindr (mapr governed_key (og_columns g)) (\<lambda>keys.
     Inr (fold (\<lambda>(k, c). AList.update k c) (zip keys (og_columns g)) []))"

fun trust_columns ::
    "(string \<times> column_context) list \<Rightarrow> governed_column list \<Rightarrow> (string \<times> column_context) list
      \<Rightarrow> (string \<times> column_context) list result" where
  "trust_columns governed [] trusted = Inr trusted"
| "trust_columns governed (c # cs) trusted = (case map_of governed (column_key c) of
       None \<Rightarrow> Inl (PolicyOracleSemanticError
         (''prospective semantic column lacks trusted governance: '' @ column_key c))
     | Some context \<Rightarrow>
         if cc_datahub_urn context \<noteq> Some (gc_dataset_urn c) \<or> cr_field_path (cc_ref context) \<noteq> gc_field_path c
              \<or> cc_category context \<noteq> gc_category c
         then Inl (PolicyOracleSemanticError (''prospective semantic governance mismatch: '' @ column_key c))
         else trust_columns governed cs (AList.update (column_key c) context trusted))"

definition dataset_candidates :: "oracle_governance \<Rightarrow> string \<Rightarrow> string list" where
  "dataset_candidates g urn =
     remdups (map (\<lambda>c. cr_dataset (cc_ref c)) (filter (\<lambda>c. cc_datahub_urn c = Some urn) (og_columns g)))"

definition source_dataset_names :: "semantic_release \<Rightarrow> oracle_governance \<Rightarrow> string list result" where
  "source_dataset_names s g =
     bindr (mapr (\<lambda>urn. case dataset_candidates g urn of
         [dataset] \<Rightarrow> Inr dataset
       | _ \<Rightarrow> Inl (PolicyOracleSemanticError (''source dataset governance is unresolved or ambiguous: '' @ urn)))
       (sr_source_dataset_urns s)) (\<lambda>names. Inr (sort names))"

text \<open>\<open>trusted[key]\<close> raises a \<open>KeyError\<close> for a column that was not trusted.\<close>

definition trusted_context :: "(string \<times> column_context) list \<Rightarrow> string \<Rightarrow> column_context result" where
  "trusted_context trusted key = (case map_of trusted key of None \<Rightarrow> Inl (KeyError key) | Some c \<Rightarrow> Inr c)"

definition trusted_contexts :: "(string \<times> column_context) list \<Rightarrow> string list \<Rightarrow> column_context list result" where
  "trusted_contexts trusted keys = mapr (trusted_context trusted) keys"

definition oracle_subject_key ::
    "disclosure_state \<Rightarrow> semantic_release \<Rightarrow> (string \<times> column_context) list \<Rightarrow> column_ref option result" where
  "oracle_subject_key state s trusted =
     (let subject = sc_subject (ds_scope state) in
      bindr (trusted_contexts trusted (map column_key (filter (\<lambda>c. gc_field_path c = sd_field_path subject
            \<and> gc_category c = sd_category subject \<and> gc_dataset_urn c \<in> set (sd_dataset_urns subject))
          (sr_referenced_columns s)))) (\<lambda>candidates.
        Inr (case candidates of [c] \<Rightarrow> Some (cc_ref c) | _ \<Rightarrow> None)))"

text \<open>\<open>f"ppmc_output_{index:03d}"\<close>.\<close>

definition output_label :: "nat \<Rightarrow> string" where
  "output_label n = ''ppmc_output_'' @ replicate (3 - length (nat_text n)) CHR ''0'' @ nat_text n"

definition reconstructed_exposure ::
    "(string \<times> column_context) list \<Rightarrow> nat \<times> semantic_output \<Rightarrow> projection_exposure result" where
  "reconstructed_exposure trusted = (\<lambda>(n, out).
     bindr (trusted_contexts trusted (map column_key (so_sources out))) (\<lambda>cs.
       Inr \<lparr>pe_output_name = output_label n, pe_kind = so_kind out, pe_source_columns = map cc_ref cs\<rparr>))"

definition assembled_plan ::
    "semantic_release \<Rightarrow> string list \<Rightarrow> column_context list \<Rightarrow> column_context list \<Rightarrow> column_context list
      \<Rightarrow> column_context list \<Rightarrow> projection_exposure list \<Rightarrow> column_ref option \<Rightarrow> query_plan" where
  "assembled_plan s names projected referenced joined grouped exposures subject =
     \<lparr>qp_statement_type = ''SELECT'', qp_source_datasets = names,
      qp_projected_columns = map cc_ref projected, qp_projected_exposures = exposures,
      qp_referenced_columns = map cc_ref referenced, qp_join_columns = map cc_ref joined,
      qp_group_by_columns = map cc_ref grouped, qp_aggregate_functions = sr_aggregate_functions s,
      qp_minimum_group_size_present = sr_minimum_group_size_present s,
      qp_minimum_group_size_subject = (if sr_minimum_group_size_present s \<noteq> None then subject else None),
      qp_is_grouped = (sr_group_keys s \<noteq> [] \<or> sr_aggregate_functions s \<noteq> []),
      qp_contains_wildcard = False, qp_analysis_warnings = []\<rparr>"

definition assembled_input ::
    "disclosure_state \<Rightarrow> semantic_release \<Rightarrow> query_plan \<Rightarrow> column_context list \<Rightarrow> column_context list
      \<Rightarrow> column_ref option \<Rightarrow> policy_input" where
  "assembled_input state s plan projected referenced subject =
     \<lparr>pi_task_purpose = ''ppmc:'' @ ds_purpose_commitment_sha256 state, pi_query_plan = plan,
      pi_projected_context = projected, pi_all_referenced_context = referenced, pi_subject_key = subject,
      pi_minimum_group_size_present = sr_minimum_group_size_present s, pi_upstream_failures = []\<rparr>"

definition assemble_policy_input ::
    "disclosure_state \<Rightarrow> semantic_release \<Rightarrow> string list \<Rightarrow> column_context list \<Rightarrow> column_context list
      \<Rightarrow> column_context list \<Rightarrow> column_context list \<Rightarrow> projection_exposure list \<Rightarrow> column_ref option
      \<Rightarrow> policy_input result" where
  "assemble_policy_input state s names projected referenced joined grouped exposures subject =
     (if sr_minimum_group_size_present s \<noteq> None \<and> subject = None
      then Inl (PolicyOracleSemanticError ''minimum-group-size evidence lacks one unambiguous governed subject'')
      else bindr (validate_query_plan (assembled_plan s names projected referenced joined grouped exposures subject))
        (\<lambda>plan. validate_policy_input (assembled_input state s plan projected referenced subject)))"

definition build_policy_input_from_semantic ::
    "(string \<Rightarrow> string) \<Rightarrow> disclosure_state \<Rightarrow> semantic_release \<Rightarrow> oracle_governance \<Rightarrow> policy_input result" where
  "build_policy_input_from_semantic H state s governance =
     bindr (revalidate_oracle_inputs H state s governance) (\<lambda>_.
     bindr (governance_by_key governance) (\<lambda>governed.
     bindr (oracle_semantic_columns s) (\<lambda>columns.
     bindr (trust_columns governed columns []) (\<lambda>trusted.
     bindr (source_dataset_names s governance) (\<lambda>names.
       let referenced = map column_key (sr_referenced_columns s);
           projected = map column_key (concat (map so_sources (sr_outputs s)));
           joined = map column_key (sr_join_columns s);
           grouped = map column_key (sr_group_keys s)
       in if \<not> set (projected @ joined @ grouped) \<subseteq> set referenced
          then Inl (PolicyOracleSemanticError ''semantic release is missing governed references'')
          else
            bindr (trusted_contexts trusted (sorted_set projected)) (\<lambda>projected_context.
            bindr (trusted_contexts trusted referenced) (\<lambda>referenced_context.
            bindr (trusted_contexts trusted joined) (\<lambda>joined_context.
            bindr (trusted_contexts trusted grouped) (\<lambda>grouped_context.
            bindr (mapr (reconstructed_exposure trusted) (List.enumerate 0 (sr_outputs s))) (\<lambda>exposures.
            bindr (oracle_subject_key state s trusted) (\<lambda>subject.
              assemble_policy_input state s names projected_context referenced_context joined_context
                grouped_context exposures subject)))))))))))"

definition evaluate_semantic_with_policy ::
    "(string \<Rightarrow> string) \<Rightarrow> policy_config \<Rightarrow> disclosure_state \<Rightarrow> semantic_release \<Rightarrow> oracle_governance
      \<Rightarrow> (policy_input \<times> policy_decision) result" where
  "evaluate_semantic_with_policy H cfg state s governance =
     bindr (build_policy_input_from_semantic H state s governance) (\<lambda>inp.
     bindr (evaluate cfg inp) (\<lambda>decision. Inr (inp, decision)))"

section \<open>The local oracle\<close>

record policy_oracle =
  po_grammar :: action_grammar
  po_governance :: oracle_governance
  po_actions :: "(string \<times> future_action) list"
  po_policy_config_sha256 :: string
  po_oracle_version :: string

definition bind_policy_oracle ::
    "(string \<Rightarrow> string) \<Rightarrow> policy_config \<Rightarrow> action_grammar \<Rightarrow> oracle_governance \<Rightarrow> policy_oracle result" where
  "bind_policy_oracle H cfg grammar governance =
     bindr (revalidate_grammar H grammar) (\<lambda>g. bindr (revalidate_oracle_governance H governance) (\<lambda>context.
       let config_sha256 = policy_config_sha256 H cfg
       in Inr \<lparr>po_grammar = g, po_governance = context, po_actions = dict_of fa_action_sha256 (gm_actions g),
            po_policy_config_sha256 = config_sha256,
            po_oracle_version = ''policy-engine-oracle/0.1.0:'' @ take 12 config_sha256 @ '':''
              @ take 12 (og_context_sha256 context)\<rparr>))"

definition require_bound_policy :: "(string \<Rightarrow> string) \<Rightarrow> policy_config \<Rightarrow> policy_oracle \<Rightarrow> unit result" where
  "require_bound_policy H cfg ora =
     (if policy_config_sha256 H cfg \<noteq> po_policy_config_sha256 ora
      then Inl (PolicyOracleError ''PolicyEngine configuration changed after oracle binding'') else Inr ())"

definition oracle_reject ::
    "(string \<Rightarrow> string) \<Rightarrow> policy_oracle \<Rightarrow> disclosure_state \<Rightarrow> future_action \<Rightarrow> string list \<Rightarrow> oracle_decision result" where
  "oracle_reject H ora state action reasons =
     build_local_oracle_decision H (po_oracle_version ora) (ds_state_sha256 state) (fa_action_sha256 action) False reasons"

text \<open>\<open>_reachable_snapshots\<close> is the loop of \<open>_reachable_snapshot_nodes\<close> over the same edges.\<close>

definition reachable_snapshots :: "action_grammar \<Rightarrow> string option list" where
  "reachable_snapshots g =
     reachable_nodes (cx_snapshot_transitions (gm_context g)) [cx_base_warehouse_snapshot_sha256 (gm_context g)]"

definition state_matches_grammar_context :: "disclosure_state \<Rightarrow> action_grammar \<Rightarrow> bool" where
  "state_matches_grammar_context state g = (let context = gm_context g in
     sc_scope_sha256 (ds_scope state) = cx_scope_sha256 context
     \<and> ds_purpose_commitment_sha256 state = cx_purpose_commitment_sha256 context
     \<and> ds_governance_commitment_sha256 state = cx_governance_commitment_sha256 context
     \<and> ds_evidence_root_sha256 state = cx_evidence_root_sha256 context
     \<and> set (cx_base_release_atom_sha256s context) \<subseteq> at_atom_sha256 ` set (ds_released_atoms state)
     \<and> ds_warehouse_snapshot_sha256 state \<in> set (reachable_snapshots g))"

definition policy_reasons :: "policy_decision \<Rightarrow> string list" where
  "policy_reasons d = (''POLICY_DECISION='' @ decision_value (pd_decision d))
     # map (\<lambda>r. ''POLICY_REASON='' @ reason_value r) (pd_reason_codes d)"

definition decide_release ::
    "(string \<Rightarrow> string) \<Rightarrow> policy_config \<Rightarrow> policy_oracle \<Rightarrow> disclosure_state \<Rightarrow> future_action \<Rightarrow> semantic_release
      \<Rightarrow> oracle_decision result" where
  "decide_release H cfg ora state action s =
     (case evaluate_semantic_with_policy H cfg state s (po_governance ora) of
        Inl (PolicyOracleSemanticError _) \<Rightarrow>
          oracle_reject H ora state action [''SEMANTIC_RECONSTRUCTION_FAIL_CLOSED'', ''PolicyOracleSemanticError'']
      | Inl e \<Rightarrow> Inl e
      | Inr (_, decision) \<Rightarrow> build_local_oracle_decision H (po_oracle_version ora) (ds_state_sha256 state)
          (fa_action_sha256 action) (pd_decision decision = ALLOW) (policy_reasons decision))"

definition policy_engine_oracle ::
    "(string \<Rightarrow> string) \<Rightarrow> policy_config \<Rightarrow> policy_oracle \<Rightarrow> disclosure_state \<Rightarrow> future_action \<Rightarrow> oracle_decision result" where
  "policy_engine_oracle H cfg ora state action =
     bindr (require_bound_policy H cfg ora) (\<lambda>_.
       if map_of (po_actions ora) (fa_action_sha256 action) \<noteq> Some action
       then oracle_reject H ora state action [''ACTION_OUTSIDE_BOUND_GRAMMAR'']
       else if \<not> state_matches_grammar_context state (po_grammar ora)
       then oracle_reject H ora state action [''STATE_OUTSIDE_BOUND_GRAMMAR'']
       else if fa_kind action = SNAPSHOT_ADVANCE
       then if ds_warehouse_snapshot_sha256 state \<noteq> fa_snapshot_from_sha256 action
            then oracle_reject H ora state action [''SNAPSHOT_SOURCE_MISMATCH'']
            else build_local_oracle_decision H (po_oracle_version ora) (ds_state_sha256 state)
              (fa_action_sha256 action) True [''DECLARED_NO_RELEASE_SNAPSHOT_TRANSITION'']
       else (case fa_semantic action of
           None \<Rightarrow> Inl (PolicyOracleError ''release action unexpectedly lacks semantic metadata'')
         | Some s \<Rightarrow> decide_release H cfg ora state action s))"

definition evaluate_release_action ::
    "(string \<Rightarrow> string) \<Rightarrow> policy_config \<Rightarrow> policy_oracle \<Rightarrow> disclosure_state \<Rightarrow> future_action
      \<Rightarrow> (policy_input \<times> policy_decision \<times> oracle_decision) result" where
  "evaluate_release_action H cfg ora state action =
     bindr (require_bound_policy H cfg ora) (\<lambda>_.
       case (map_of (po_actions ora) (fa_action_sha256 action) = Some action, fa_semantic action) of
         (True, Some s) \<Rightarrow>
           bindr (evaluate_semantic_with_policy H cfg state s (po_governance ora)) (\<lambda>(inp, decision).
           bindr (policy_engine_oracle H cfg ora state action) (\<lambda>local. Inr (inp, decision, local)))
       | _ \<Rightarrow> Inl (PolicyOracleSemanticError ''action is not a bound semantic release action''))"

text \<open>The oracle as the search calls it: an exception is no answer.\<close>

definition as_local_oracle :: "(string \<Rightarrow> string) \<Rightarrow> policy_config \<Rightarrow> policy_oracle \<Rightarrow> local_oracle" where
  "as_local_oracle H cfg ora state action = (case policy_engine_oracle H cfg ora state action of
       Inl _ \<Rightarrow> None | Inr decision \<Rightarrow> Some decision)"

section \<open>What the reconstruction does with its columns\<close>

definition column_matches :: "governed_column \<Rightarrow> column_context \<Rightarrow> bool" where
  "column_matches c ctx \<longleftrightarrow> cc_datahub_urn ctx = Some (gc_dataset_urn c)
     \<and> cr_field_path (cc_ref ctx) = gc_field_path c \<and> cc_category ctx = gc_category c"

lemma index_columns_bound:
  "index_columns e cs known = Inr known' \<Longrightarrow>
     (\<forall>c \<in> set cs. map_of known' (column_key c) = Some c) \<and> (\<forall>k x. map_of known k = Some x \<longrightarrow> map_of known' k = Some x)"
proof (induction e cs known rule: index_columns.induct)
  case (2 e c cs known)
  from 2(2) have fresh: "opt_all (\<lambda>x. x = c) (map_of known (column_key c))"
    and rest: "index_columns e cs (AList.update (column_key c) c known) = Inr known'" by (simp_all split: if_splits)
  note ih = 2(1) [OF fresh rest]
  have "map_of known' k = Some x" if "map_of known k = Some x" for k x
    using ih fresh that by (cases "k = column_key c") (simp_all add: update_conv')
  moreover have "map_of known' (column_key c) = Some c" using ih by (simp add: update_conv')
  ultimately show ?case using ih by simp
qed simp

lemma trust_columns_bound:
  "trust_columns governed cs trusted = Inr trusted' \<Longrightarrow> \<forall>c \<in> set cs. \<exists>ctx.
     map_of trusted' (column_key c) = Some ctx \<and> map_of governed (column_key c) = Some ctx \<and> column_matches c ctx"
proof (induction governed cs trusted rule: trust_columns.induct)
  case (2 governed c cs trusted)
  then obtain ctx where c: "map_of governed (column_key c) = Some ctx" "column_matches c ctx"
    and rest: "trust_columns governed cs (AList.update (column_key c) ctx trusted) = Inr trusted'"
    by (auto simp: column_matches_def split: option.splits if_splits)
  have "\<forall>k. k \<notin> column_key ` set cs \<longrightarrow> map_of trusted' k = map_of tr k"
    if "trust_columns governed cs tr = Inr trusted'" for tr
    using that by (induction governed cs tr rule: trust_columns.induct)
      (auto simp: update_conv' split: option.splits if_splits)
  from this [OF rest] have kept: "column_key c \<notin> column_key ` set cs \<Longrightarrow> map_of trusted' (column_key c) = Some ctx"
    by (simp add: update_conv')
  have ih: "\<forall>c \<in> set cs. \<exists>ctx. map_of trusted' (column_key c) = Some ctx \<and> map_of governed (column_key c) = Some ctx
      \<and> column_matches c ctx"
    using 2(1) [OF c(1)] c(2) rest by (simp add: column_matches_def)
  show ?case
  proof (cases "column_key c \<in> column_key ` set cs")
    case True
    then obtain c' where "c' \<in> set cs" "column_key c' = column_key c" by auto
    with ih c have "map_of trusted' (column_key c) = Some ctx" by fastforce
    with ih c show ?thesis by simp
  next
    case False
    with kept ih c show ?thesis by simp
  qed
qed simp

lemma trusted_contexts_bound:
  assumes "\<forall>k \<in> set keys. \<exists>ctx. map_of trusted k = Some ctx"
  shows "trusted_contexts trusted keys = Inr (map (\<lambda>k. the (map_of trusted k)) keys)"
  unfolding trusted_contexts_def by (rule mapr_map) (use assms in \<open>auto simp: trusted_context_def\<close>)

lemma fold_update_pairs:
  "length ks = length cs \<Longrightarrow> map_of (fold (\<lambda>(k, c). AList.update k c) (zip ks cs) d) k = Some c
    \<Longrightarrow> (k, c) \<in> set (zip ks cs) \<or> map_of d k = Some c"
proof (induction ks cs arbitrary: d rule: list_induct2)
  case (Cons k' ks c' cs)
  from Cons.IH [of "AList.update k' c' d"] Cons.prems show ?case by (auto simp: update_conv' split: if_splits)
qed simp

lemma governance_by_key_bound:
  assumes "governance_by_key g = Inr governed" and "map_of governed k = Some ctx"
  shows "ctx \<in> set (og_columns g) \<and> governed_key ctx = Inr k"
proof -
  from assms(1) obtain keys where keys: "list_all2 (\<lambda>c k. governed_key c = Inr k) (og_columns g) keys"
    and governed: "governed = fold (\<lambda>(k, c). AList.update k c) (zip keys (og_columns g)) []"
    by (auto simp: governance_by_key_def mapr_Inr_iff)
  note len = list_all2_lengthD [OF keys]
  from assms(2) governed fold_update_pairs [of keys "og_columns g" "[]" k ctx] len
  have "(k, ctx) \<in> set (zip keys (og_columns g))" by simp
  then obtain n where "n < length keys" "keys ! n = k" "og_columns g ! n = ctx"
    by (auto simp: set_zip)
  with keys len show ?thesis by (auto simp: list_all2_conv_all_nth)
qed

text \<open>Every error of the reconstruction is one the oracle turns into a rejection.\<close>

definition fails_closed :: "'a result \<Rightarrow> bool" where
  "fails_closed r \<longleftrightarrow> (\<forall>e. r = Inl e \<longrightarrow> (\<exists>m. e = PolicyOracleSemanticError m))"

lemma fails_closed_Inr [intro, simp]: "fails_closed (Inr x)"
  by (simp add: fails_closed_def)

lemma fails_closed_error [intro, simp]: "fails_closed (Inl (PolicyOracleSemanticError m))"
  by (simp add: fails_closed_def)

lemma fails_closed_bindr: "fails_closed r \<Longrightarrow> (\<And>x. r = Inr x \<Longrightarrow> fails_closed (f x)) \<Longrightarrow> fails_closed (bindr r f)"
  by (auto simp: fails_closed_def bindr_Inl_iff)

lemma fails_closed_mapr: "(\<And>x. x \<in> set xs \<Longrightarrow> fails_closed (f x)) \<Longrightarrow> fails_closed (mapr f xs)"
  by (induction xs) (auto intro!: fails_closed_bindr)

lemma index_columns_fails_closed: "fails_closed (index_columns (PolicyOracleSemanticError m) cs known)"
  by (induction cs arbitrary: known) simp_all

lemma trust_columns_fails_closed: "fails_closed (trust_columns governed cs trusted)"
  by (induction governed cs trusted rule: trust_columns.induct) (auto split: option.splits)

lemma source_names_fails_closed: "fails_closed (source_dataset_names s g)"
  unfolding source_dataset_names_def by (intro fails_closed_bindr fails_closed_mapr) (auto split: list.splits)

lemma governance_by_key_fails_closed: "fails_closed (governance_by_key g)"
  unfolding governance_by_key_def
  by (intro fails_closed_bindr fails_closed_mapr) (auto simp: governed_key_def split: option.splits)

lemma oracle_columns_fails_closed: "fails_closed (oracle_semantic_columns s)"
  unfolding oracle_semantic_columns_def by (intro fails_closed_bindr index_columns_fails_closed) simp

section \<open>The input that is reconstructed\<close>

definition governed_columns_of :: "semantic_release \<Rightarrow> governed_column list" where
  "governed_columns_of s = sr_referenced_columns s @ sr_join_columns s @ sr_group_keys s @ concat (map so_sources (sr_outputs s))"

definition output_columns :: "semantic_release \<Rightarrow> governed_column list" where
  "output_columns s = concat (map so_sources (sr_outputs s))"

definition context_of :: "(string \<times> column_context) list \<Rightarrow> string \<Rightarrow> column_context" where
  "context_of trusted k = the (map_of trusted k)"

definition subject_of :: "disclosure_state \<Rightarrow> semantic_release \<Rightarrow> (string \<times> column_context) list \<Rightarrow> column_ref option" where
  "subject_of state s trusted = (let subject = sc_subject (ds_scope state) in
     case filter (\<lambda>c. gc_field_path c = sd_field_path subject \<and> gc_category c = sd_category subject
         \<and> gc_dataset_urn c \<in> set (sd_dataset_urns subject)) (sr_referenced_columns s) of
       [c] \<Rightarrow> Some (cc_ref (context_of trusted (column_key c))) | _ \<Rightarrow> None)"

definition exposure_of :: "(string \<times> column_context) list \<Rightarrow> nat \<times> semantic_output \<Rightarrow> projection_exposure" where
  "exposure_of trusted = (\<lambda>(n, out). \<lparr>pe_output_name = output_label n, pe_kind = so_kind out,
     pe_source_columns = map (\<lambda>c. cc_ref (context_of trusted (column_key c))) (so_sources out)\<rparr>)"

definition projected_contexts_of :: "semantic_release \<Rightarrow> (string \<times> column_context) list \<Rightarrow> column_context list" where
  "projected_contexts_of s trusted = map (context_of trusted) (sorted_set (map column_key (output_columns s)))"

definition contexts_of :: "(string \<times> column_context) list \<Rightarrow> governed_column list \<Rightarrow> column_context list" where
  "contexts_of trusted cs = map (\<lambda>c. context_of trusted (column_key c)) cs"

definition reconstructed_plan ::
    "disclosure_state \<Rightarrow> semantic_release \<Rightarrow> (string \<times> column_context) list \<Rightarrow> string list \<Rightarrow> query_plan" where
  "reconstructed_plan state s trusted names = assembled_plan s names (projected_contexts_of s trusted)
     (contexts_of trusted (sr_referenced_columns s)) (contexts_of trusted (sr_join_columns s))
     (contexts_of trusted (sr_group_keys s)) (map (exposure_of trusted) (List.enumerate 0 (sr_outputs s)))
     (subject_of state s trusted)"

definition reconstructed_input ::
    "disclosure_state \<Rightarrow> semantic_release \<Rightarrow> (string \<times> column_context) list \<Rightarrow> string list \<Rightarrow> policy_input" where
  "reconstructed_input state s trusted names = assembled_input state s (reconstructed_plan state s trusted names)
     (projected_contexts_of s trusted) (contexts_of trusted (sr_referenced_columns s)) (subject_of state s trusted)"

definition references_complete :: "semantic_release \<Rightarrow> bool" where
  "references_complete s \<longleftrightarrow> column_key ` set (output_columns s @ sr_join_columns s @ sr_group_keys s)
     \<subseteq> column_key ` set (sr_referenced_columns s)"

lemma trusted_release:
  assumes "governance_by_key g = Inr governed" and "oracle_semantic_columns s = Inr columns"
    and "trust_columns governed columns [] = Inr trusted" and "c \<in> set (governed_columns_of s)"
  shows "map_of trusted (column_key c) = Some (context_of trusted (column_key c))
    \<and> context_of trusted (column_key c) \<in> set (og_columns g) \<and> column_matches c (context_of trusted (column_key c))"
proof -
  from assms(2) obtain known where known: "index_columns (PolicyOracleSemanticError ''conflicting governed semantic column'')
      (governed_columns_of s) [] = Inr known" "columns = sorted_values known"
    by (auto simp: oracle_semantic_columns_def governed_columns_of_def)
  from index_columns_bound [OF known(1)] assms(4) have c: "map_of known (column_key c) = Some c" by blast
  then have "column_key c \<in> fst ` set known" by (force dest: map_of_SomeD)
  with c known(2) have "c \<in> set columns" by (force simp: sorted_values_def)
  with trust_columns_bound [OF assms(3)] obtain ctx where ctx: "map_of trusted (column_key c) = Some ctx"
    "map_of governed (column_key c) = Some ctx" "column_matches c ctx" by blast
  with governance_by_key_bound [OF assms(1) ctx(2)] show ?thesis by (simp add: context_of_def)
qed

lemma reconstructed_exposures:
  assumes "\<forall>c \<in> set (output_columns s). map_of trusted (column_key c) = Some (context_of trusted (column_key c))"
  shows "mapr (reconstructed_exposure trusted) (List.enumerate 0 (sr_outputs s))
    = Inr (map (exposure_of trusted) (List.enumerate 0 (sr_outputs s)))"
proof (rule mapr_map)
  fix x
  assume x: "x \<in> set (List.enumerate 0 (sr_outputs s))"
  obtain n out where [simp]: "x = (n, out)" by (cases x)
  from x have "out \<in> set (sr_outputs s)" by (metis \<open>x = (n, out)\<close> enumerate_eq_zip set_zip_rightD)
  with assms have "\<forall>k \<in> set (map column_key (so_sources out)). \<exists>ctx. map_of trusted k = Some ctx"
    by (force simp: output_columns_def)
  from trusted_contexts_bound [OF this] show "reconstructed_exposure trusted x = Inr (exposure_of trusted x)"
    by (simp add: reconstructed_exposure_def exposure_of_def context_of_def)
qed

lemma reconstructed_subject:
  assumes "\<forall>c \<in> set (sr_referenced_columns s). map_of trusted (column_key c) = Some (context_of trusted (column_key c))"
  shows "oracle_subject_key state s trusted = Inr (subject_of state s trusted)"
proof -
  let ?sub = "sc_subject (ds_scope state)"
  let ?cs = "filter (\<lambda>c. gc_field_path c = sd_field_path ?sub \<and> gc_category c = sd_category ?sub
     \<and> gc_dataset_urn c \<in> set (sd_dataset_urns ?sub)) (sr_referenced_columns s)"
  have "\<forall>k \<in> set (map column_key ?cs). \<exists>ctx. map_of trusted k = Some ctx" using assms by fastforce
  from trusted_contexts_bound [OF this] show ?thesis
    by (auto simp: oracle_subject_key_def subject_of_def Let_def context_of_def o_def split: list.splits)
qed

lemma reconstructed_plan_valid:
  assumes "references_complete s" and "opt_all (\<lambda>n. 1 \<le> n) (sr_minimum_group_size_present s)"
    and "sr_minimum_group_size_present s \<noteq> None \<longrightarrow> subject_of state s trusted \<noteq> None"
  shows "validate_query_plan (reconstructed_plan state s trusted names) = Inr (reconstructed_plan state s trusted names)"
proof -
  let ?p = "reconstructed_plan state s trusted names"
  let ?key = "\<lambda>k. ref_key (cc_ref (context_of trusted k))"
  have fields: "map ref_key (qp_projected_columns ?p) = map ?key (sorted_set (map column_key (output_columns s)))"
    "map ref_key (qp_referenced_columns ?p) = map (\<lambda>c. ?key (column_key c)) (sr_referenced_columns s)"
    "map ref_key (qp_join_columns ?p) = map (\<lambda>c. ?key (column_key c)) (sr_join_columns s)"
    "map ref_key (qp_group_by_columns ?p) = map (\<lambda>c. ?key (column_key c)) (sr_group_keys s)"
    "qp_projected_exposures ?p = map (exposure_of trusted) (List.enumerate 0 (sr_outputs s))"
    "qp_minimum_group_size_present ?p = sr_minimum_group_size_present s"
    "qp_minimum_group_size_subject ?p = (if sr_minimum_group_size_present s \<noteq> None then subject_of state s trusted else None)"
    by (simp_all add: reconstructed_plan_def assembled_plan_def projected_contexts_of_def contexts_of_def)
  have "?key ` column_key ` set (output_columns s @ sr_join_columns s @ sr_group_keys s)
      \<subseteq> ?key ` column_key ` set (sr_referenced_columns s)"
    by (rule image_mono) (use assms(1) in \<open>simp add: references_complete_def\<close>)
  then have structural: "set (map ref_key (qp_projected_columns ?p @ qp_join_columns ?p @ qp_group_by_columns ?p))
      \<subseteq> set (map ref_key (qp_referenced_columns ?p))"
    unfolding map_append fields by (simp add: image_image image_Un)
  have out: "out \<in> set (sr_outputs s)" if "(n, out) \<in> set (List.enumerate 0 (sr_outputs s))" for n out
    using that by (metis enumerate_eq_zip set_zip_rightD)
  have exposed: "set (map ref_key (concat (map pe_source_columns (qp_projected_exposures ?p))))
      \<subseteq> set (map ref_key (qp_projected_columns ?p))"
    unfolding fields by (auto simp: exposure_of_def output_columns_def intro!: imageI dest!: out)
  show ?thesis
    unfolding validate_query_plan_def Let_def raise_first_Inr
    using structural exposed assms(2,3)
    by (cases "sr_minimum_group_size_present s") (simp_all add: fields(6,7) del: set_map map_append map_concat)
qed

lemma assemble_reconstructed:
  assumes "references_complete s" and "opt_all (\<lambda>n. 1 \<le> n) (sr_minimum_group_size_present s)"
  shows "assemble_policy_input state s names (projected_contexts_of s trusted)
     (contexts_of trusted (sr_referenced_columns s)) (contexts_of trusted (sr_join_columns s))
     (contexts_of trusted (sr_group_keys s)) (map (exposure_of trusted) (List.enumerate 0 (sr_outputs s)))
     (subject_of state s trusted) =
    (if sr_minimum_group_size_present s \<noteq> None \<and> subject_of state s trusted = None
     then Inl (PolicyOracleSemanticError ''minimum-group-size evidence lacks one unambiguous governed subject'')
     else Inr (reconstructed_input state s trusted names))"
proof (cases "sr_minimum_group_size_present s \<noteq> None \<and> subject_of state s trusted = None")
  case True
  then show ?thesis by (simp add: assemble_policy_input_def)
next
  case False
  from False have "sr_minimum_group_size_present s \<noteq> None \<longrightarrow> subject_of state s trusted \<noteq> None" by auto
  from reconstructed_plan_valid [OF assms this]
  have plan: "validate_query_plan (reconstructed_plan state s trusted names) = Inr (reconstructed_plan state s trusted names)" .
  moreover from assms(2) have "validate_policy_input (reconstructed_input state s trusted names)
      = Inr (reconstructed_input state s trusted names)"
    by (simp add: validate_policy_input_def reconstructed_input_def assembled_input_def)
  ultimately show ?thesis
    unfolding assemble_policy_input_def reconstructed_plan_def [symmetric] using False
    by (simp add: reconstructed_input_def)
qed

lemma build_input_tail:
  assumes "revalidate_oracle_inputs H state s g = Inr ()" and "governance_by_key g = Inr governed"
    and "oracle_semantic_columns s = Inr columns" and "trust_columns governed columns [] = Inr trusted"
    and "source_dataset_names s g = Inr names"
  shows "build_policy_input_from_semantic H state s g =
    (if \<not> references_complete s
     then Inl (PolicyOracleSemanticError ''semantic release is missing governed references'')
     else if sr_minimum_group_size_present s \<noteq> None \<and> subject_of state s trusted = None
     then Inl (PolicyOracleSemanticError ''minimum-group-size evidence lacks one unambiguous governed subject'')
     else Inr (reconstructed_input state s trusted names))"
proof -
  note bound = trusted_release [OF assms(2-4)]
  have at: "\<forall>k \<in> set (map column_key cs). \<exists>ctx. map_of trusted k = Some ctx" if "set cs \<subseteq> set (governed_columns_of s)" for cs
    using bound that by fastforce
  have sub: "set (output_columns s) \<subseteq> set (governed_columns_of s)" "set (sr_referenced_columns s) \<subseteq> set (governed_columns_of s)"
    "set (sr_join_columns s) \<subseteq> set (governed_columns_of s)" "set (sr_group_keys s) \<subseteq> set (governed_columns_of s)"
    by (auto simp: governed_columns_of_def output_columns_def)
  have look: "trusted_contexts trusted (map column_key cs) = Inr (contexts_of trusted cs)"
    if "set cs \<subseteq> set (governed_columns_of s)" for cs
    using trusted_contexts_bound [OF at [OF that]] by (simp add: contexts_of_def context_of_def o_def)
  have proj: "trusted_contexts trusted (sorted_set (map column_key (output_columns s))) = Inr (projected_contexts_of s trusted)"
    using trusted_contexts_bound [of "sorted_set (map column_key (output_columns s))" trusted] at [OF sub(1)]
    by (simp add: context_of_def [abs_def] projected_contexts_of_def)
  have exposures: "mapr (reconstructed_exposure trusted) (List.enumerate 0 (sr_outputs s))
      = Inr (map (exposure_of trusted) (List.enumerate 0 (sr_outputs s)))"
    by (rule reconstructed_exposures) (use bound sub(1) in blast)
  have subject: "oracle_subject_key state s trusted = Inr (subject_of state s trusted)"
    by (rule reconstructed_subject) (use bound sub(2) in blast)
  from assms(1) have "validate_release H s = Inr s"
    by (auto simp: revalidate_oracle_inputs_def validate_release_def)
  then have minimum: "opt_all (\<lambda>n. 1 \<le> n) (sr_minimum_group_size_present s)"
    by (simp add: validate_release_def release_checks_def)
  have complete: "set (map column_key (concat (map so_sources (sr_outputs s))) @ map column_key (sr_join_columns s)
      @ map column_key (sr_group_keys s)) \<subseteq> set (map column_key (sr_referenced_columns s)) \<longleftrightarrow> references_complete s"
    by (simp add: references_complete_def output_columns_def image_Un image_UN)
  show ?thesis
    unfolding build_policy_input_from_semantic_def Let_def complete
    by (simp add: assms proj [unfolded output_columns_def] look sub exposures subject assemble_reconstructed minimum)
qed

end
