(* ===== verification/Search_Invariant.thy ===== *)
theory Search_Invariant
  imports Search_Space
begin

text \<open>
  The invariant of the queue loop of \<open>ppmc_search.py\<close> and what each early return means. The set of
  seen keys is explained by a list of discovered nodes in the order of their discovery, which is
  the order of their depth: the nodes before the queue are expanded, each with every action
  answered, and every discovered node was evaluated safe.
\<close>

section \<open>What the checker reports\<close>

text \<open>A list of steps that the code's functions take from the initial state to a point.\<close>

inductive replays :: "(string \<Rightarrow> string) \<Rightarrow> search_input \<Rightarrow> trace_step list \<Rightarrow> search_point \<Rightarrow> bool"
  for H :: "string \<Rightarrow> string" and i :: search_input where
  replay_start: "point_start (H, i) x \<Longrightarrow> replays H i [] x"
| replay_step: "replays H i steps (n, s, Some p) \<Longrightarrow> admitted H i s a d s' \<Longrightarrow> extend_temporal_path H p a s' (Suc n) = Inr t
    \<Longrightarrow> cs_step_index st = int n \<Longrightarrow> cs_pre_state_sha256 st = ds_state_sha256 s
    \<Longrightarrow> cs_action_sha256 st = fa_action_sha256 a \<Longrightarrow> cs_local_oracle_commitment_sha256 st = od_decision_sha256 d
    \<Longrightarrow> cs_post_state_sha256 st = ds_state_sha256 s' \<Longrightarrow> replays H i (steps @ [st]) (Suc n, s', t)"

lemma replays_reach:
  assumes "replays H i steps x"
  shows "reach (H, i) x \<and> fst x = length steps \<and> map cs_step_index steps = map int [0..<length steps]
    \<and> steps_link (ds_state_sha256 (si_initial_state i)) steps (ds_state_sha256 (fst (snd x)))"
  using assms
proof induction
  case (replay_start x)
  then show ?case by (cases x) (auto intro: explored.at_start)
next
  case (replay_step steps n s p a d s' t st)
  then have "reach (H, i) (n, s, Some p)" "point_step (H, i) (n, s, Some p) (Suc n, s', t)" by auto
  then have "reach (H, i) (Suc n, s', t)" by (rule explored.by_step)
  with replay_step show ?case by simp
qed

text \<open>No two states or temporal signatures within the bound share a key.\<close>

fun faithful_keys :: "search_env \<Rightarrow> bool" where
  "faithful_keys (H, i) \<longleftrightarrow> (\<forall>n s p m t q. reach (H, i) (n, s, Some p) \<longrightarrow> reach (H, i) (m, t, Some q)
     \<longrightarrow> n \<le> search_bound (H, i) \<longrightarrow> m \<le> search_bound (H, i) \<longrightarrow> search_node_key H s p = search_node_key H t q
     \<longrightarrow> s = t \<and> sensitive_pairs p = sensitive_pairs q)"

definition answered :: "(string \<Rightarrow> string) \<Rightarrow> search_input \<Rightarrow> disclosure_state \<Rightarrow> future_action \<Rightarrow> bool" where
  "answered H i s a \<longleftrightarrow> (\<exists>m. apply_future_action H s a (si_grammar i) = Inl (FutureActionTransitionError m))
     \<or> (\<exists>s' d. apply_future_action H s a (si_grammar i) = Inr s' \<and> invoke_local_oracle H (si_oracle i) s a = Some d)"

text \<open>Every point up to depth \<open>k\<close> is safe, and below it every action was answered.\<close>

definition safe_upto :: "(string \<Rightarrow> string) \<Rightarrow> search_input \<Rightarrow> nat \<Rightarrow> bool" where
  "safe_upto H i k \<longleftrightarrow> (\<forall>n s t. reach (H, i) (n, s, t) \<longrightarrow> n \<le> k \<longrightarrow> proved_safe (H, i) (n, s, t)
     \<and> (n < k \<longrightarrow> (\<forall>a \<in> set (gm_actions (si_grammar i)). answered H i s a)))"

definition unsafe_outcome :: "(string \<Rightarrow> string) \<Rightarrow> search_input \<Rightarrow> ppmc_result \<Rightarrow> bool" where
  "unsafe_outcome H i r \<longleftrightarrow> (\<exists>trace n s t e. pr_counterexample r = Some trace \<and> replays H i (ct_steps trace) (n, s, t)
     \<and> int n \<le> pc_bound (si_config i)
     \<and> evaluate_forbidden_state H s (si_policy i) (si_binding i) t = Inr e \<and> se_forbidden e
     \<and> ct_terminal_state_sha256 trace = ds_state_sha256 s \<and> ct_terminal_forbidden_evaluation_sha256 trace = se_evaluation_sha256 e
     \<and> ct_terminal_matched_predicates trace = canonical_predicates (se_matched_predicates e)
     \<and> (valid_search (H, i) \<longrightarrow> faithful_keys (H, i) \<longrightarrow> (\<forall>k < n. safe_upto H i k)))"

definition failure_outcome :: "(string \<Rightarrow> string) \<Rightarrow> search_input \<Rightarrow> ppmc_result \<Rightarrow> bool" where
  "failure_outcome H i r \<longleftrightarrow> (case pr_failure_reason r of
       None \<Rightarrow> False
     | Some INDETERMINATE_SECURITY_PREDICATE \<Rightarrow> (\<exists>n s t e. reach (H, i) (n, s, t) \<and> int n \<le> pc_bound (si_config i)
         \<and> evaluate_forbidden_state H s (si_policy i) (si_binding i) t = Inr e \<and> \<not> se_forbidden e
         \<and> se_indeterminate_predicates e \<noteq> [] \<and> pr_indeterminate_predicates r = se_indeterminate_predicates e)
     | Some STATE_BUDGET_EXHAUSTED \<Rightarrow> pr_search_nodes_discovered r = pc_max_states (si_config i)
         \<and> (\<exists>keys. distinct keys \<and> int (length keys) = pc_max_states (si_config i) + 1
           \<and> (\<forall>k \<in> set keys. \<exists>n s p. reach (H, i) (n, s, Some p) \<and> int n \<le> pc_bound (si_config i) \<and> k = search_node_key H s p))
     | Some LOCAL_ORACLE_FAILURE \<Rightarrow> (\<exists>n s t a s'. reach (H, i) (n, s, t) \<and> int n < pc_bound (si_config i)
         \<and> a \<in> set (gm_actions (si_grammar i)) \<and> apply_future_action H s a (si_grammar i) = Inr s'
         \<and> invoke_local_oracle H (si_oracle i) s a = None)
     | Some TRANSITION_FAILURE \<Rightarrow> (\<exists>n s t a e. reach (H, i) (n, s, t) \<and> int n < pc_bound (si_config i)
         \<and> a \<in> set (gm_actions (si_grammar i)) \<and> apply_future_action H s a (si_grammar i) = Inl e
         \<and> (\<forall>m. e \<noteq> FutureActionTransitionError m))
     | Some PREDICATE_EVALUATION_FAILURE \<Rightarrow> (\<exists>n s t e. reach (H, i) (n, s, t) \<and> int n \<le> pc_bound (si_config i)
         \<and> evaluate_forbidden_state H s (si_policy i) (si_binding i) t = Inl e))"

definition counted :: "search_input \<Rightarrow> ppmc_result \<Rightarrow> bool" where
  "counted i r \<longleftrightarrow> 1 \<le> pr_search_nodes_discovered r \<and> pr_search_nodes_discovered r \<le> pc_max_states (si_config i)
     \<and> pr_nodes_expanded r \<le> pr_search_nodes_discovered r
     \<and> pr_oracle_admissions r + pr_oracle_rejections r \<le> pr_actions_considered r"

definition outcome :: "(string \<Rightarrow> string) \<Rightarrow> search_input \<Rightarrow> ppmc_result \<Rightarrow> bool" where
  "outcome H i r \<longleftrightarrow> counted i r \<and> (case pr_status r of
       PROSPECTIVE_UNSAFE \<Rightarrow> unsafe_outcome H i r
     | NO_COUNTEREXAMPLE_WITHIN_BOUND \<Rightarrow>
         valid_search (H, i) \<longrightarrow> faithful_keys (H, i) \<longrightarrow> safe_upto H i (search_bound (H, i))
     | FAIL_CLOSED \<Rightarrow> failure_outcome H i r)"

section \<open>The early returns\<close>

lemma search_result_Inr:
  assumes "search_result H i lp status failure terminal indeterminate counterexample = Inr r"
  shows "pr_status r = status" "pr_failure_reason r = failure" "pr_counterexample r = counterexample"
    "pr_indeterminate_predicates r = indeterminate" "pr_search_nodes_discovered r = nc_discovered (lp_counters lp)"
    "nc_discovered (lp_counters lp) \<le> pc_max_states (si_config i)" "counted i r"
  using assms unfolding search_result_def Let_def validate_ppmc_result_def raise_first_Inr
  by (auto simp: result_counters_def result_patterns_def counted_def)

lemma safe_result_outcome:
  assumes "safe_result H i lp = Inr r"
    and safe: "\<lbrakk>valid_search (H, i); faithful_keys (H, i)\<rbrakk> \<Longrightarrow> safe_upto H i (search_bound (H, i))"
  shows "outcome H i r"
proof -
  note r = search_result_Inr [OF assms(1) [unfolded safe_result_def]]
  show ?thesis unfolding outcome_def r(1) ppmc_status.case using safe r(7) by (intro conjI impI)
qed

lemma evaluate_state_Inr [simp]:
  "evaluate_state H i s t = Inr e \<longleftrightarrow> evaluate_forbidden_state H s (si_policy i) (si_binding i) t = Inr e"
  by (simp add: evaluate_state_def split: sum.split)

lemma evaluate_state_Inl:
  "evaluate_state H i s t = Inl x \<Longrightarrow> \<exists>e. evaluate_forbidden_state H s (si_policy i) (si_binding i) t = Inl e"
  by (auto simp: evaluate_state_def split: sum.splits)

lemma fail_closed_outcome:
  assumes "fail_closed H i lp failure = Inr r"
    and "\<lbrakk>pr_failure_reason r = Some failure; pr_search_nodes_discovered r = nc_discovered (lp_counters lp);
      nc_discovered (lp_counters lp) \<le> pc_max_states (si_config i)\<rbrakk> \<Longrightarrow> failure_outcome H i r"
  shows "outcome H i r"
  using search_result_Inr [OF assms(1) [unfolded fail_closed_def]] assms(2) by (simp add: outcome_def)

lemma evaluation_failure_outcome:
  assumes "fail_closed H i lp PREDICATE_EVALUATION_FAILURE = Inr r" and "evaluate_state H i s t = Inl x"
    and "reach (H, i) (n, s, t)" and "int n \<le> pc_bound (si_config i)"
  shows "outcome H i r"
  by (rule fail_closed_outcome [OF assms(1)])
    (use evaluate_state_Inl [OF assms(2)] assms(3,4) in \<open>auto simp: failure_outcome_def\<close>)

lemma indeterminate_outcome:
  assumes "indeterminate_result H i lp e = Inr r" and "reach (H, i) (n, s, t)" and "int n \<le> pc_bound (si_config i)"
    and "evaluate_forbidden_state H s (si_policy i) (si_binding i) t = Inr e" "\<not> se_forbidden e"
    and "se_indeterminate_predicates e \<noteq> []"
  shows "outcome H i r"
  using search_result_Inr [OF assms(1) [unfolded indeterminate_result_def]] assms(2-6)
  by (auto simp: outcome_def failure_outcome_def)

lemma unsafe_result_outcome:
  assumes "unsafe_result H i lp steps s e = Inr r" and "replays H i steps (n, s, t)" and "int n \<le> pc_bound (si_config i)"
    and "evaluate_forbidden_state H s (si_policy i) (si_binding i) t = Inr e" "se_forbidden e"
    and "valid_search (H, i) \<Longrightarrow> faithful_keys (H, i) \<Longrightarrow> \<forall>k < n. safe_upto H i k"
  shows "outcome H i r"
proof -
  from assms(1) obtain trace where trace: "build_counterexample_trace H (pc_bound (si_config i))
      (ds_state_sha256 (si_initial_state i)) (gm_grammar_sha256 (si_grammar i)) steps (ds_state_sha256 s)
      (se_evaluation_sha256 e) (se_matched_predicates e) = Inr trace"
    and r: "search_result H i lp PROSPECTIVE_UNSAFE None (Some e) [] (Some trace) = Inr r"
    by (auto simp: unsafe_result_def)
  note r = search_result_Inr(1,3,7) [OF r] and t = build_trace_Inr [OF trace]
  have "valid_search (H, i) \<longrightarrow> faithful_keys (H, i) \<longrightarrow> (\<forall>k < n. safe_upto H i k)" using assms(6) by blast
  then have "unsafe_outcome H i r"
    unfolding unsafe_outcome_def
    by (intro exI [of _ trace] exI [of _ n] exI [of _ s] exI [of _ t] exI [of _ e] conjI)
      (simp_all only: r t assms(2-5))
  with r(1,3) show ?thesis by (simp add: outcome_def)
qed

section \<open>The invariant\<close>

definition node_point :: "search_node \<Rightarrow> search_point" where
  "node_point n = (sn_depth n, sn_state n, Some (sn_temporal n))"

definition node_key :: "(string \<Rightarrow> string) \<Rightarrow> search_node \<Rightarrow> string \<times> string" where
  "node_key H n = search_node_key H (sn_state n) (sn_temporal n)"

definition node_ok :: "(string \<Rightarrow> string) \<Rightarrow> search_input \<Rightarrow> search_node \<Rightarrow> bool" where
  "node_ok H i n \<longleftrightarrow> replays H i (sn_steps n) (node_point n) \<and> int (sn_depth n) \<le> pc_bound (si_config i)
     \<and> proved_safe (H, i) (node_point n)"

text \<open>An action of a node is handled when it was answered and every point it leads to has a
  discovered node of the same key that is not deeper.\<close>

definition handled :: "(string \<Rightarrow> string) \<Rightarrow> search_input \<Rightarrow> search_node list \<Rightarrow> search_node \<Rightarrow> future_action \<Rightarrow> bool" where
  "handled H i D n a \<longleftrightarrow> answered H i (sn_state n) a
     \<and> (\<forall>d s' t. admitted H i (sn_state n) a d s' \<longrightarrow> extend_temporal_path H (sn_temporal n) a s' (Suc (sn_depth n)) = Inr t
         \<longrightarrow> (\<exists>z \<in> set D. \<exists>p. t = Some p \<and> node_key H z = search_node_key H s' p \<and> sn_depth z \<le> Suc (sn_depth n)))"

definition expanded :: "(string \<Rightarrow> string) \<Rightarrow> search_input \<Rightarrow> search_node list \<Rightarrow> search_node \<Rightarrow> bool" where
  "expanded H i D n \<longleftrightarrow> (\<forall>a \<in> set (gm_actions (si_grammar i)). handled H i D n a)"

lemma handled_mono: "handled H i D n a \<Longrightarrow> set D \<subseteq> set D' \<Longrightarrow> handled H i D' n a"
  unfolding handled_def by blast

lemma expanded_mono: "expanded H i D n \<Longrightarrow> set D \<subseteq> set D' \<Longrightarrow> expanded H i D' n"
  unfolding expanded_def using handled_mono by blast

text \<open>\<open>D\<close> are the discovered nodes, \<open>done_nodes\<close> those expanded, \<open>pending\<close> the node being expanded and
  the queue.\<close>

definition search_inv ::
    "(string \<Rightarrow> string) \<Rightarrow> search_input \<Rightarrow> search_node list \<Rightarrow> search_node list \<Rightarrow> search_node list \<Rightarrow> search_run \<Rightarrow> bool" where
  "search_inv H i D done_nodes pending lp \<longleftrightarrow>
     lp_seen lp = map (node_key H) D \<and> distinct (map (node_key H) D) \<and> nc_discovered (lp_counters lp) = int (length D)
     \<and> (\<forall>n \<in> set D. node_ok H i n) \<and> sorted (map sn_depth D)
     \<and> filter (\<lambda>n. int (sn_depth n) < pc_bound (si_config i)) D = done_nodes @ pending
     \<and> (\<forall>n \<in> set done_nodes. expanded H i D n)
     \<and> (\<forall>x. point_start (H, i) x \<longrightarrow> (\<exists>z \<in> set D. node_point z = x))
     \<and> (pending \<noteq> [] \<longrightarrow> (\<forall>n \<in> set D. sn_depth n \<le> Suc (sn_depth (hd pending))))"

lemma node_ok_reach: "node_ok H i n \<Longrightarrow> reach (H, i) (node_point n)"
  unfolding node_ok_def using replays_reach by blast

lemma search_invD:
  assumes "search_inv H i D done_nodes pending lp"
  shows "lp_seen lp = map (node_key H) D" "nc_discovered (lp_counters lp) = int (length D)"
    and "n \<in> set D \<Longrightarrow> node_ok H i n" and "sorted (map sn_depth D)"
    and "filter (\<lambda>n. int (sn_depth n) < pc_bound (si_config i)) D = done_nodes @ pending"
    and "n \<in> set done_nodes \<Longrightarrow> expanded H i D n" and "point_start (H, i) x \<Longrightarrow> \<exists>z \<in> set D. node_point z = x"
    and "pending \<noteq> [] \<Longrightarrow> n \<in> set D \<Longrightarrow> sn_depth n \<le> Suc (sn_depth (hd pending))"
    and "distinct (map (node_key H) D)"
  using assms unfolding search_inv_def by blast+

lemma search_bound_le: "valid_search (H, i) \<Longrightarrow> int (search_bound (H, i)) \<le> pc_bound (si_config i)"
  using valid_searchD(8) [of H i] by (simp del: valid_search.simps)

text \<open>When every discovered node above a depth is expanded, the contract gives safety up to it.\<close>

lemma shallow_safe:
  assumes "valid_search (H, i)" and "faithful_keys (H, i)" and "search_inv H i D done_nodes pending lp"
    and "\<And>n. n \<in> set D \<Longrightarrow> sn_depth n < k \<Longrightarrow> expanded H i D n" and "int k \<le> pc_bound (si_config i)"
  shows "safe_upto H i k"
proof -
  let ?P = "node_point ` set D"
  have ok: "\<And>n. n \<in> set D \<Longrightarrow> node_ok H i n" by (rule search_invD(3) [OF assms(3)])
  have k: "k \<le> search_bound (H, i)" using assms(5) by simp
  have start: "\<exists>y \<in> ?P. same_point x y \<and> fst y \<le> fst x" if "point_start (H, i) x" for x
  proof -
    from search_invD(7) [OF assms(3) that] obtain z where "z \<in> set D" "node_point z = x" by blast
    then show ?thesis by (intro bexI [of _ x]) (auto simp: node_point_def)
  qed
  have step: "\<exists>z \<in> ?P. same_point y' z \<and> fst z \<le> fst y'" if "y \<in> ?P" "fst y < k" "point_step (H, i) y y'" for y y'
  proof -
    from that(1,2) obtain n where n: "n \<in> set D" "y = node_point n" "sn_depth n < k" by (auto simp: node_point_def)
    obtain m s' t where y': "y' = (m, s', t)" by (cases y')
    with that(3) n(2) obtain a d where a: "admitted H i (sn_state n) a d s'" "m = Suc (sn_depth n)"
      "extend_temporal_path H (sn_temporal n) a s' (Suc (sn_depth n)) = Inr t" by (auto simp: node_point_def)
    then have "a \<in> set (gm_actions (si_grammar i))" by (simp add: admitted_def)
    with assms(4) [OF n(1,3)] have "handled H i D n a" by (simp add: expanded_def)
    with a(1,3) obtain z p where z: "z \<in> set D" "t = Some p" "node_key H z = search_node_key H s' p"
      "sn_depth z \<le> Suc (sn_depth n)" unfolding handled_def by blast
    have "reach (H, i) y" using node_ok_reach [OF ok [OF n(1)]] n(2) by simp
    then have "reach (H, i) y'" using that(3) by (rule explored.by_step)
    with y' z(2) have r1: "reach (H, i) (m, s', Some p)" by simp
    have r2: "reach (H, i) (sn_depth z, sn_state z, Some (sn_temporal z))"
      using node_ok_reach [OF ok [OF z(1)]] by (simp add: node_point_def)
    from a(2) n(3) k z(4) have "m \<le> search_bound (H, i)" "sn_depth z \<le> search_bound (H, i)" by linarith+
    with assms(2) r1 r2 z(3) have "s' = sn_state z" "sensitive_pairs p = sensitive_pairs (sn_temporal z)"
      unfolding faithful_keys.simps node_key_def by metis+
    with y' z a(2) show ?thesis by (intro bexI [of _ "node_point z"]) (auto simp: node_point_def)
  qed
  have members: "reach (H, i) y \<and> \<not> \<not> proved_safe (H, i) y" if "y \<in> ?P" for y
    using that ok node_ok_reach by (auto simp: node_ok_def)
  have safe: "proved_safe (H, i) x" if "reach (H, i) x" "fst x \<le> k" for x
  proof -
    have "\<not> \<not> proved_safe (H, i) x"
      by (rule space.none_bad [where D = ?P and k = k, OF assms(1)]) (fact members start step k that)+
    then show ?thesis by simp
  qed
  have "answered H i s a" if r: "reach (H, i) (n, s, t)" "n < k" and a: "a \<in> set (gm_actions (si_grammar i))" for n s t a
  proof -
    have "\<exists>y \<in> ?P. same_point (n, s, t) y \<and> fst y \<le> fst (n, s, t)"
      by (rule space.covered [where D = ?P and k = k, OF assms(1) _ _ _ k r(1)])
        (use members start step r(2) in \<open>simp_all only: fst_conv less_imp_le\<close>)
    then have "\<exists>y \<in> ?P. same_point (n, s, t) y \<and> fst y \<le> n" by (simp only: fst_conv)
    then obtain y where y: "y \<in> ?P" "same_point (n, s, t) y" "fst y \<le> n" by blast
    then obtain z where "z \<in> set D" "sn_state z = s" "sn_depth z < k" using r(2) by (auto simp: node_point_def)
    with assms(4) a show ?thesis by (auto simp: expanded_def handled_def)
  qed
  moreover have "proved_safe (H, i) (n, s, t)" if "reach (H, i) (n, s, t)" "n \<le> k" for n s t
    by (rule safe [OF that(1)]) (simp add: that(2))
  ultimately show ?thesis unfolding safe_upto_def by blast
qed

lemma shallow_pending:
  assumes "valid_search (H, i)" and "faithful_keys (H, i)" and "search_inv H i D done_nodes (node # queue) lp"
  shows "\<forall>k < Suc (sn_depth node). safe_upto H i k"
proof (intro allI impI)
  fix k assume k: "k < Suc (sn_depth node)"
  note inv = search_invD [OF assms(3)]
  have "sorted (map sn_depth (filter (\<lambda>n. int (sn_depth n) < pc_bound (si_config i)) D))"
    using inv(4) by (rule sorted_filter)
  then have front: "\<forall>n \<in> set (node # queue). sn_depth node \<le> sn_depth n" by (simp add: inv(5) sorted_append)
  have "node \<in> set (filter (\<lambda>n. int (sn_depth n) < pc_bound (si_config i)) D)" by (simp add: inv(5))
  then have bound: "int (sn_depth node) < pc_bound (si_config i)" by simp
  show "safe_upto H i k"
  proof (rule shallow_safe [OF assms])
    fix n assume n: "n \<in> set D" "sn_depth n < k"
    with k bound have "n \<in> set (filter (\<lambda>n. int (sn_depth n) < pc_bound (si_config i)) D)" by simp
    with inv(5) front k n(2) have "n \<in> set done_nodes" by auto
    then show "expanded H i D n" by (rule inv(6))
  qed (use k bound in simp)
qed

section \<open>One action preserves the invariant\<close>

text \<open>What a loop body may do: return an outcome, or go on with more discovered nodes.\<close>

definition progress_ok ::
    "(string \<Rightarrow> string) \<Rightarrow> search_input \<Rightarrow> search_node list \<Rightarrow> search_node list \<Rightarrow> search_node \<Rightarrow> (search_node list \<Rightarrow> bool)
      \<Rightarrow> progress \<Rightarrow> bool" where
  "progress_ok H i D done_nodes node P p \<longleftrightarrow> (case p of
       Return r \<Rightarrow> outcome H i r
     | Continue lp \<Rightarrow> (\<exists>new. search_inv H i (D @ new) done_nodes (node # lp_queue lp) lp \<and> P (D @ new)))"

lemma search_inv_cong:
  "search_inv H i D done_nodes pending lp \<Longrightarrow> lp_seen lp' = lp_seen lp
    \<Longrightarrow> nc_discovered (lp_counters lp') = nc_discovered (lp_counters lp) \<Longrightarrow> search_inv H i D done_nodes pending lp'"
  by (simp add: search_inv_def)

lemma search_inv_push:
  assumes "search_inv H i D done_nodes (node # lp_queue lp) lp" and "node_ok H i child" and "sn_depth child = Suc (sn_depth node)"
    and "lp_seen lp' = lp_seen lp @ [node_key H child]" "nc_discovered (lp_counters lp') = int (Suc (length (lp_seen lp)))"
    and "lp_queue lp' = lp_queue lp @ (if int (sn_depth child) < pc_bound (si_config i) then [child] else [])"
    and "node_key H child \<notin> set (lp_seen lp)"
  shows "search_inv H i (D @ [child]) done_nodes (node # lp_queue lp') lp'"
proof -
  note inv = search_invD [OF assms(1)]
  have "\<forall>n \<in> set D. sn_depth n \<le> sn_depth child" using inv(8) assms(3) by simp
  with inv(4) have "sorted (map sn_depth (D @ [child]))" by (simp add: sorted_append)
  moreover have "expanded H i (D @ [child]) n" if "n \<in> set done_nodes" for n
    by (rule expanded_mono [OF inv(6) [OF that]]) auto
  moreover have "\<exists>z \<in> set (D @ [child]). node_point z = x" if "point_start (H, i) x" for x
    using inv(7) [OF that] by auto
  ultimately show ?thesis
    using inv(1-3,5,8,9) assms(2-7) by (auto simp: search_inv_def)
qed

text \<open>An expanded node leaves the pending list; the next one is not shallower.\<close>

lemma search_inv_advance:
  assumes "search_inv H i D done_nodes (node # queue) lp" and "expanded H i D node"
  shows "search_inv H i D (done_nodes @ [node]) queue lp"
proof -
  note inv = search_invD [OF assms(1)]
  have "sorted (map sn_depth (filter (\<lambda>n. int (sn_depth n) < pc_bound (si_config i)) D))"
    using inv(4) by (rule sorted_filter)
  then have "\<forall>n \<in> set queue. sn_depth node \<le> sn_depth n" by (simp add: inv(5) sorted_append)
  then have "queue \<noteq> [] \<Longrightarrow> sn_depth node \<le> sn_depth (hd queue)" by simp
  then have "queue \<noteq> [] \<Longrightarrow> n \<in> set D \<Longrightarrow> sn_depth n \<le> Suc (sn_depth (hd queue))" for n
    using inv(8) [of n] by fastforce
  with inv(1-7,9) assms(2) show ?thesis by (simp add: search_inv_def)
qed

lemma visit_child_inv:
  assumes "visit_child H i child lp = Inr p" and "search_inv H i D done_nodes (node # lp_queue lp) lp"
    and "replays H i (sn_steps child) (node_point child)" and "sn_depth child = Suc (sn_depth node)"
    and "int (sn_depth node) < pc_bound (si_config i)"
  shows "progress_ok H i D done_nodes node
    (\<lambda>D'. \<exists>z \<in> set D'. node_key H z = node_key H child \<and> sn_depth z \<le> sn_depth child) p"
proof -
  note inv = search_invD [OF assms(2)]
  have r: "reach (H, i) (sn_depth child, sn_state child, Some (sn_temporal child))"
    using replays_reach [OF assms(3)] by (auto simp: node_point_def)
  have bound: "int (sn_depth child) \<le> pc_bound (si_config i)" using assms(4,5) by simp
  show ?thesis
  proof (cases "node_key H child \<in> set (lp_seen lp)")
    case True
    with assms(1) obtain event where p: "p = Continue (log_event H event lp)"
      by (auto simp: visit_child_def Let_def node_key_def)
    from True inv(1) obtain z where "z \<in> set D" "node_key H z = node_key H child" by auto
    moreover from inv(8) [OF _ this(1)] assms(4) have "sn_depth z \<le> sn_depth child" by simp
    moreover have "search_inv H i D done_nodes (node # lp_queue lp) (log_event H event lp)"
      by (rule search_inv_cong [OF assms(2)]) simp_all
    ultimately show ?thesis using p by (auto simp: progress_ok_def intro!: exI [of _ "[]"])
  next
    case new: False
    show ?thesis
    proof (cases "int (length (lp_seen lp)) \<ge> pc_max_states (si_config i)")
      case True
      with assms(1) new obtain event r where "fail_closed H i (log_event H event lp) STATE_BUDGET_EXHAUSTED = Inr r"
        and p: "p = Return r"
        by (auto simp: visit_child_def Let_def node_key_def returning_def)
      moreover have "\<exists>n s p. reach (H, i) (n, s, Some p) \<and> int n \<le> pc_bound (si_config i) \<and> k = search_node_key H s p"
        if "k \<in> set (lp_seen lp @ [node_key H child])" for k
      proof -
        from that inv(1) consider (old) z where "z \<in> set D" "k = node_key H z" | (child) "k = node_key H child" by auto
        then show ?thesis
        proof cases
          case old
          from inv(3) [OF old(1)] node_ok_reach show ?thesis
            unfolding old(2) node_key_def node_ok_def node_point_def by blast
        next
          case child
          from r bound show ?thesis unfolding child node_key_def by blast
        qed
      qed
      moreover from inv(1,9) new have "distinct (lp_seen lp @ [node_key H child])" by simp
      ultimately have "outcome H i r"
        using True inv(1,2)
        by (elim fail_closed_outcome)
          (auto simp: failure_outcome_def intro!: exI [of _ "lp_seen lp @ [node_key H child]"])
      with p show ?thesis by (simp add: progress_ok_def)
    next
      case budget: False
      let ?seen = "lp_seen lp @ [node_key H child]"
      let ?lp = "tally (\<lambda>c. c\<lparr>nc_discovered := int (length ?seen)\<rparr>) (lp\<lparr>lp_seen := ?seen\<rparr>)"
      show ?thesis
      proof (cases "evaluate_state H i (sn_state child) (Some (sn_temporal child))")
        case (Inl x)
        with assms(1) new budget obtain event r where "fail_closed H i (log_event H event ?lp) PREDICATE_EVALUATION_FAILURE = Inr r"
          and p: "p = Return r"
          by (auto simp: visit_child_def Let_def node_key_def returning_def)
        from evaluation_failure_outcome [OF this(1) Inl r bound] p show ?thesis by (simp add: progress_ok_def)
      next
        case (Inr e)
        let ?lp2 = "log_event H (evaluation_event ''STATE_EVALUATION'' e (sn_depth child)) ?lp"
        have e: "evaluate_forbidden_state H (sn_state child) (si_policy i) (si_binding i) (Some (sn_temporal child)) = Inr e"
          using Inr by simp
        have result: "(if se_forbidden e then returning (unsafe_result H i ?lp2 (sn_steps child) (sn_state child) e)
               else if se_indeterminate_predicates e \<noteq> [] then returning (indeterminate_result H i ?lp2 e)
               else if int (sn_depth child) < pc_bound (si_config i)
               then Inr (Continue (?lp2\<lparr>lp_queue := lp_queue ?lp2 @ [child]\<rparr>))
               else Inr (Continue ?lp2)) = Inr p"
          using assms(1) new budget Inr by (simp add: visit_child_def Let_def node_key_def del: evaluate_state_Inr cong: if_cong)
        consider (unsafe) "se_forbidden e" | (unknown) "\<not> se_forbidden e" "se_indeterminate_predicates e \<noteq> []"
          | (safe) "\<not> se_forbidden e" "se_indeterminate_predicates e = []" by blast
        then show ?thesis
        proof cases
          case unsafe
          with result obtain r where ret: "unsafe_result H i ?lp2 (sn_steps child) (sn_state child) e = Inr r" "p = Return r"
            by (auto simp: returning_def)
          have "outcome H i r"
            by (rule unsafe_result_outcome [OF ret(1) assms(3) [unfolded node_point_def] bound e unsafe])
              (unfold assms(4), rule shallow_pending [OF _ _ assms(2)])
          with ret(2) show ?thesis by (simp add: progress_ok_def)
        next
          case unknown
          with result obtain r where ret: "indeterminate_result H i ?lp2 e = Inr r" "p = Return r"
            by (auto simp: returning_def)
          from indeterminate_outcome [OF ret(1) r bound e unknown] ret(2) show ?thesis by (simp add: progress_ok_def)
        next
          case safe
          then have ok: "node_ok H i child" using assms(3) bound e by (simp add: node_ok_def node_point_def)
          from result safe obtain lp' where lp': "p = Continue lp'" "lp_seen lp' = lp_seen lp @ [node_key H child]"
            "nc_discovered (lp_counters lp') = int (Suc (length (lp_seen lp)))"
            "lp_queue lp' = lp_queue lp @ (if int (sn_depth child) < pc_bound (si_config i) then [child] else [])"
            by (auto split: if_splits)
          from search_inv_push [OF assms(2) ok assms(4) lp'(2-4) new] lp'(1) show ?thesis
            by (auto simp: progress_ok_def intro!: exI [of _ "[child]"])
        qed
      qed
    qed
  qed
qed

lemma progress_ok_mono:
  assumes "progress_ok H i D done_nodes node P p" and "\<And>D'. P D' \<Longrightarrow> Q D'"
  shows "progress_ok H i D done_nodes node Q p"
  using assms by (auto simp: progress_ok_def split: progress.splits)

text \<open>Without a temporal path the evaluation is never free of indeterminate predicates.\<close>

lemma evaluate_untimed:
  assumes "evaluate_forbidden_state H s policy binding None = Inr e"
  shows "se_indeterminate_predicates e \<noteq> []"
proof -
  from assms have es: "evaluate_predicates H s policy binding None = Inr (se_predicates e)"
    and i: "se_indeterminate_predicates e = with_status STATUS_INDETERMINATE (se_predicates e)"
    by (rule evaluate_forbidden_Inr, simp)+
  have "\<exists>f \<in> set fs. evaluation H s F5_TEMPORAL_DIFFERENCING STATUS_INDETERMINATE TEMPORAL_PATH_CONTEXT_MISSING [] [] = Inr f"
    if "evaluate_predicates H s policy binding None = Inr fs" for fs
    using that by (auto simp: evaluate_predicates_def Let_def temporal_differencing_def)
  with es obtain f where "f \<in> set (se_predicates e)"
    "evaluation H s F5_TEMPORAL_DIFFERENCING STATUS_INDETERMINATE TEMPORAL_PATH_CONTEXT_MISSING [] [] = Inr f" by blast
  with evaluation_Inr(2) [OF this(2)] i show ?thesis by (auto simp: with_status_def filter_empty_conv)
qed

lemma search_child_inv:
  assumes "search_child H i node a d s' lp = Inr p" and "search_inv H i D done_nodes (node # lp_queue lp) lp"
    and "node_ok H i node" "int (sn_depth node) < pc_bound (si_config i)" "admitted H i (sn_state node) a d s'"
  shows "progress_ok H i D done_nodes node (\<lambda>D'. handled H i D' node a) p"
proof -
  let ?depth = "Suc (sn_depth node)"
  from assms(1) obtain t st where t: "extend_temporal_path H (sn_temporal node) a s' ?depth = Inr t"
    and st: "build_counterexample_step H (int (sn_depth node)) (ds_state_sha256 (sn_state node)) (fa_action_sha256 a)
          (od_decision_sha256 d) (ds_state_sha256 s') = Inr st"
    and p: "(case t of None \<Rightarrow> conclude_untimed H i s' ?depth (sn_steps node @ [st]) lp
        | Some path \<Rightarrow> visit_child H i
            \<lparr>sn_state = s', sn_depth = ?depth, sn_steps = sn_steps node @ [st], sn_temporal = path\<rparr> lp) = Inr p"
    by (auto simp: search_child_def Let_def)
  from assms(3) have "replays H i (sn_steps node) (sn_depth node, sn_state node, Some (sn_temporal node))"
    by (simp add: node_ok_def node_point_def)
  from replay_step [OF this assms(5) t build_step_Inr [OF st]]
  have replay: "replays H i (sn_steps node @ [st]) (?depth, s', t)" .
  then have r: "reach (H, i) (?depth, s', t)" using replays_reach by blast
  have bound: "int ?depth \<le> pc_bound (si_config i)" using assms(4) by simp
  show ?thesis
  proof (cases t)
    case None
    with p obtain r where p: "p = Return r" by (auto simp: conclude_untimed_def returning_def)
    with None \<open>(case t of None \<Rightarrow> _ | Some path \<Rightarrow> _) = Inr p\<close> have ret: "(case evaluate_state H i s' None of
       Inl _ \<Rightarrow> fail_closed H i (log_event H (state_event ''PREDICATE_EVALUATION_FAILURE'' ?depth s') lp)
                 PREDICATE_EVALUATION_FAILURE
     | Inr e \<Rightarrow> (let lp' = log_event H (evaluation_event ''STATE_EVALUATION'' e ?depth) lp in
         if se_forbidden e then unsafe_result H i lp' (sn_steps node @ [st]) s' e else indeterminate_result H i lp' e)) = Inr r"
      by (simp add: conclude_untimed_def)
    have "outcome H i r"
    proof (cases "evaluate_state H i s' None")
      case (Inl x)
      with ret evaluation_failure_outcome [OF _ Inl r [unfolded None] bound] show ?thesis by simp
    next
      case (Inr e)
      then have e: "evaluate_forbidden_state H s' (si_policy i) (si_binding i) None = Inr e" by simp
      show ?thesis
      proof (cases "se_forbidden e")
        case True
        with ret Inr have "unsafe_result H i (log_event H (evaluation_event ''STATE_EVALUATION'' e ?depth) lp)
            (sn_steps node @ [st]) s' e = Inr r" by (simp del: evaluate_state_Inr)
        then show ?thesis
          by (rule unsafe_result_outcome [OF _ replay [unfolded None] bound e True]) (rule shallow_pending [OF _ _ assms(2)])
      next
        case False
        with ret Inr have ret: "indeterminate_result H i (log_event H (evaluation_event ''STATE_EVALUATION'' e ?depth) lp) e = Inr r"
          by (simp del: evaluate_state_Inr)
        show ?thesis by (rule indeterminate_outcome [OF ret r [unfolded None] bound e False])
            (rule evaluate_untimed [OF e])
      qed
    qed
    with p show ?thesis by (simp add: progress_ok_def)
  next
    case (Some path)
    let ?child = "\<lparr>sn_state = s', sn_depth = ?depth, sn_steps = sn_steps node @ [st], sn_temporal = path\<rparr>"
    from p Some have visit: "visit_child H i ?child lp = Inr p" by simp
    have "progress_ok H i D done_nodes node
        (\<lambda>D'. \<exists>z \<in> set D'. node_key H z = node_key H ?child \<and> sn_depth z \<le> sn_depth ?child) p"
      by (rule visit_child_inv [OF visit assms(2)]) (use replay Some assms(4) in \<open>simp_all add: node_point_def\<close>)
    then show ?thesis
    proof (rule progress_ok_mono)
      fix D' assume "\<exists>z \<in> set D'. node_key H z = node_key H ?child \<and> sn_depth z \<le> sn_depth ?child"
      then show "handled H i D' node a"
        using assms(5) t Some by (auto simp: handled_def answered_def admitted_def node_key_def)
    qed
  qed
qed

lemma search_action_inv:
  assumes "search_action H i node a lp = Inr p" and "search_inv H i D done_nodes (node # lp_queue lp) lp"
    and "node_ok H i node" "int (sn_depth node) < pc_bound (si_config i)" "a \<in> set (gm_actions (si_grammar i))"
  shows "progress_ok H i D done_nodes node (\<lambda>D'. handled H i D' node a) p"
proof -
  let ?s = "sn_state node" and ?lp = "tally (\<lambda>c. c\<lparr>nc_considered := nc_considered c + 1\<rparr>) lp"
  from node_ok_reach [OF assms(3)] have r: "reach (H, i) (sn_depth node, ?s, Some (sn_temporal node))"
    by (simp add: node_point_def)
  have keep: "search_inv H i D done_nodes (node # lp_queue lp') lp'"
    if "lp_queue lp' = lp_queue lp" "lp_seen lp' = lp_seen lp"
      "nc_discovered (lp_counters lp') = nc_discovered (lp_counters lp)" for lp'
    unfolding that(1) by (rule search_inv_cong [OF assms(2)]) (use that in simp_all)
  show ?thesis
  proof (cases "apply_future_action H ?s a (si_grammar i)")
    case (Inl e)
    show ?thesis
    proof (cases "\<exists>m. e = FutureActionTransitionError m")
      case True
      with Inl assms(1) obtain lp' where "p = Continue lp'" "lp_queue lp' = lp_queue lp" "lp_seen lp' = lp_seen lp"
        "nc_discovered (lp_counters lp') = nc_discovered (lp_counters lp)"
        by (auto simp: search_action_def Let_def)
      moreover have "handled H i D node a" using Inl True by (auto simp: handled_def answered_def admitted_def)
      ultimately show ?thesis using keep by (auto simp: progress_ok_def intro!: exI [of _ "[]"])
    next
      case False
      with Inl assms(1) obtain r' where ret: "fail_closed H i (log_event H (action_event ''TRANSITION_FAILURE'' node a) ?lp)
          TRANSITION_FAILURE = Inr r'" "p = Return r'"
        by (cases e) (auto simp: search_action_def Let_def returning_def)
      have "outcome H i r'"
        by (rule fail_closed_outcome [OF ret(1)]) (use r assms(4,5) Inl False in \<open>auto simp: failure_outcome_def\<close>)
      with ret(2) show ?thesis by (simp add: progress_ok_def)
    qed
  next
    case (Inr s')
    with assms(1) have consult: "consult_oracle H i node a s' ?lp = Inr p" by (simp add: search_action_def Let_def)
    show ?thesis
    proof (cases "invoke_local_oracle H (si_oracle i) ?s a")
      case None
      with consult obtain r' where ret: "fail_closed H i (log_event H (action_event ''LOCAL_ORACLE_FAILURE'' node a) ?lp)
          LOCAL_ORACLE_FAILURE = Inr r'" "p = Return r'"
        by (auto simp: consult_oracle_def returning_def)
      have "outcome H i r'"
        by (rule fail_closed_outcome [OF ret(1)]) (use r assms(4,5) Inr None in \<open>auto simp: failure_outcome_def\<close>)
      with ret(2) show ?thesis by (simp add: progress_ok_def)
    next
      case (Some d)
      show ?thesis
      proof (cases "od_admissible d")
        case False
        with Some consult obtain lp' where "p = Continue lp'" "lp_queue lp' = lp_queue lp" "lp_seen lp' = lp_seen lp"
          "nc_discovered (lp_counters lp') = nc_discovered (lp_counters lp)"
          by (auto simp: consult_oracle_def Let_def)
        moreover have "handled H i D node a" using Some Inr False by (auto simp: handled_def answered_def admitted_def)
        ultimately show ?thesis using keep by (auto simp: progress_ok_def intro!: exI [of _ "[]"])
      next
        case True
        with Some consult obtain lp' where lp': "search_child H i node a d s' lp' = Inr p" "lp_queue lp' = lp_queue lp"
          "lp_seen lp' = lp_seen lp" "nc_discovered (lp_counters lp') = nc_discovered (lp_counters lp)"
          by (auto simp: consult_oracle_def Let_def)
        show ?thesis
          by (rule search_child_inv [OF lp'(1) keep [OF lp'(2-4)] assms(3,4)])
            (simp add: admitted_def assms(5) Inr Some True)
      qed
    qed
  qed
qed

section \<open>The loops\<close>

lemma search_actions_inv:
  "search_actions H i node as lp = Inr p \<Longrightarrow> search_inv H i D done_nodes (node # lp_queue lp) lp \<Longrightarrow> node_ok H i node
    \<Longrightarrow> int (sn_depth node) < pc_bound (si_config i) \<Longrightarrow> set as \<subseteq> set (gm_actions (si_grammar i))
    \<Longrightarrow> \<forall>a \<in> A. handled H i D node a
    \<Longrightarrow> progress_ok H i D done_nodes node (\<lambda>D'. \<forall>a \<in> A \<union> set as. handled H i D' node a) p"
proof (induction H i node as lp arbitrary: D A rule: search_actions.induct)
  case (1 H i node lp)
  then show ?case by (auto simp: progress_ok_def intro!: exI [of _ "[]"])
next
  case (2 H i node a as lp)
  from 2(2) obtain q where q: "search_action H i node a lp = Inr q" by auto
  have "a \<in> set (gm_actions (si_grammar i))" using 2(6) by simp
  from search_action_inv [OF q 2(3-5) this] have step: "progress_ok H i D done_nodes node (\<lambda>D'. handled H i D' node a) q" .
  show ?case
  proof (cases q)
    case (Return r)
    with 2(2) q have "p = Return r" by simp
    with step Return show ?thesis by (simp add: progress_ok_def)
  next
    case (Continue lp')
    with step obtain new where inv: "search_inv H i (D @ new) done_nodes (node # lp_queue lp') lp'"
      and a: "handled H i (D @ new) node a" by (auto simp: progress_ok_def)
    from Continue 2(2) q have rest: "search_actions H i node as lp' = Inr p" by simp
    have "\<forall>b \<in> insert a A. handled H i (D @ new) node b"
      using a 2(7) handled_mono [of H i D node _ "D @ new"] by auto
    from 2(1) [OF rest inv 2(4,5) _ this] 2(6)
    have "progress_ok H i (D @ new) done_nodes node (\<lambda>D'. \<forall>b \<in> insert a A \<union> set as. handled H i D' node b) p" by simp
    then show ?thesis by (auto simp: progress_ok_def split: progress.splits)
  qed
qed

lemma search_loop_inv:
  "search_loop H i lp = Inr r \<Longrightarrow> search_inv H i D done_nodes (lp_queue lp) lp \<Longrightarrow> outcome H i r"
proof (induction H i lp arbitrary: D done_nodes rule: search_loop.induct)
  case (1 H i lp)
  show ?case
  proof (cases "lp_queue lp")
    case Nil
    with 1(2) have r: "safe_result H i lp = Inr r" by (subst (asm) search_loop.simps) simp
    note inv = search_invD [OF 1(3) [unfolded Nil]]
    have "safe_upto H i (search_bound (H, i))" if "valid_search (H, i)" "faithful_keys (H, i)"
    proof (rule shallow_safe [OF that 1(3) _ search_bound_le [OF that(1)]])
      fix n assume "n \<in> set D" "sn_depth n < search_bound (H, i)"
      then have "n \<in> set (filter (\<lambda>n. int (sn_depth n) < pc_bound (si_config i)) D)" by auto
      then have "n \<in> set done_nodes" by (simp only: inv(5) append_Nil2)
      then show "expanded H i D n" by (rule inv(6))
    qed
    with r show ?thesis by (rule safe_result_outcome)
  next
    case (Cons node rest)
    let ?lp = "lp\<lparr>lp_queue := rest\<rparr>" and ?lp1 = "tally (\<lambda>c. c\<lparr>nc_expanded := nc_expanded c + 1\<rparr>) (lp\<lparr>lp_queue := rest\<rparr>)"
    note inv = search_invD [OF 1(3) [unfolded Cons]]
    have "node \<in> set (filter (\<lambda>n. int (sn_depth n) < pc_bound (si_config i)) D)" by (simp add: inv(5))
    then have node: "node_ok H i node" and bound: "int (sn_depth node) < pc_bound (si_config i)" using inv(3) by simp_all
    from Cons 1(2) obtain p where p: "expand_node H i node ?lp = Inr p"
      by (subst (asm) search_loop.simps) (auto split: sum.splits)
    with bound have acts: "search_actions H i node (gm_actions (si_grammar i)) ?lp1 = Inr p"
      by (simp add: expand_node_def Let_def)
    have inv1: "search_inv H i D done_nodes (node # lp_queue ?lp1) ?lp1"
      using 1(3) unfolding Cons by (simp, elim search_inv_cong) simp_all
    from search_actions_inv [OF acts inv1 node bound subset_refl, of "{}"]
    have ok: "progress_ok H i D done_nodes node (\<lambda>D'. expanded H i D' node) p" by (simp add: expanded_def)
    show ?thesis
    proof (cases p)
      case (Return r')
      with 1(2) Cons p have "r' = r" by (subst (asm) search_loop.simps) simp
      with ok Return show ?thesis by (simp add: progress_ok_def)
    next
      case (Continue lp')
      with ok obtain new where new: "search_inv H i (D @ new) done_nodes (node # lp_queue lp') lp'"
        "expanded H i (D @ new) node" by (auto simp: progress_ok_def)
      have inv': "search_inv H i (D @ new) (done_nodes @ [node]) (lp_queue lp') lp'"
        by (rule search_inv_advance [OF new])
      from 1(2) Cons p Continue have "search_loop H i lp' = Inr r" by (subst (asm) search_loop.simps) simp
      from 1(1) [OF Cons p Continue this inv'] show ?thesis .
    qed
  qed
qed

lemma run_search_outcome:
  assumes "run_search H i t = Inr r" and "initial_temporal_path H (si_initial_state i) (si_grammar i) = Inr t"
    and "0 \<le> pc_bound (si_config i)"
  shows "outcome H i r"
proof -
  let ?s = "si_initial_state i"
  let ?lp = "\<lparr>lp_queue = [], lp_seen = [], lp_counters = initial_counters, lp_transcript = transcript_start H i\<rparr>"
  have start: "point_start (H, i) (0, ?s, t)" using assms(2) by simp
  note replay = replay_start [OF start] and r = explored.at_start [where start = "point_start (H, i)" and step = "point_step (H, i)", OF start]
  have bound: "int 0 \<le> pc_bound (si_config i)" using assms(3) by simp
  show ?thesis
  proof (cases "evaluate_state H i ?s t")
    case (Inl x)
    with assms(1) have "fail_closed H i (log_event H (state_event ''PREDICATE_EVALUATION_FAILURE'' 0 ?s) ?lp)
        PREDICATE_EVALUATION_FAILURE = Inr r" by (simp add: run_search_def Let_def)
    from evaluation_failure_outcome [OF this Inl r bound] show ?thesis .
  next
    case (Inr e)
    let ?lp1 = "log_event H (evaluation_event ''INITIAL_EVALUATION'' e 0) ?lp"
    from Inr have e: "evaluate_forbidden_state H ?s (si_policy i) (si_binding i) t = Inr e" by simp
    have run: "(if se_forbidden e then unsafe_result H i ?lp1 [] ?s e
             else if se_indeterminate_predicates e \<noteq> [] then indeterminate_result H i ?lp1 e
             else if pc_bound (si_config i) = 0 then safe_result H i ?lp1
             else case t of
                 None \<Rightarrow> Inl (AttributeError '''')
               | Some path \<Rightarrow> search_loop H i (?lp1
                   \<lparr>lp_queue := [\<lparr>sn_state = ?s, sn_depth = 0, sn_steps = [], sn_temporal = path\<rparr>],
                    lp_seen := [search_node_key H ?s path]\<rparr>)) = Inr r"
      using assms(1) Inr by (simp add: run_search_def Let_def del: evaluate_state_Inr)
    consider (unsafe) "se_forbidden e" | (unknown) "\<not> se_forbidden e" "se_indeterminate_predicates e \<noteq> []"
      | (safe) "\<not> se_forbidden e" "se_indeterminate_predicates e = []" by blast
    then show ?thesis
    proof cases
      case unsafe
      with run have "unsafe_result H i ?lp1 [] ?s e = Inr r" by simp
      then show ?thesis by (rule unsafe_result_outcome [OF _ replay bound e unsafe]) simp
    next
      case unknown
      with run have "indeterminate_result H i ?lp1 e = Inr r" by simp
      then show ?thesis by (rule indeterminate_outcome [OF _ r bound e unknown])
    next
      case safe
      with evaluate_untimed [of H ?s "si_policy i" "si_binding i" e] e obtain path where path: "t = Some path" by (cases t) auto
      let ?node = "\<lparr>sn_state = ?s, sn_depth = 0, sn_steps = [], sn_temporal = path\<rparr>"
      have ok: "node_ok H i ?node" using safe e replay bound path by (auto simp: node_ok_def node_point_def)
      have start: "\<exists>z \<in> {?node}. node_point z = x" if "point_start (H, i) x" for x
        using that assms(2) path by (cases x) (simp add: node_point_def)
      show ?thesis
      proof (cases "pc_bound (si_config i) = 0")
        case True
        with run safe have ret: "safe_result H i ?lp1 = Inr r" by simp
        have inv: "search_inv H i [?node] [] [] (?lp1\<lparr>lp_seen := [search_node_key H ?s path]\<rparr>)"
          using ok start True by (simp add: search_inv_def node_key_def initial_counters_def)
        have "safe_upto H i (search_bound (H, i))" if "valid_search (H, i)" "faithful_keys (H, i)"
          by (rule shallow_safe [OF that inv]) (use True in simp_all)
        with ret show ?thesis by (rule safe_result_outcome)
      next
        case False
        let ?lp2 = "?lp1\<lparr>lp_queue := [?node], lp_seen := [search_node_key H ?s path]\<rparr>"
        from False run safe path have loop: "search_loop H i ?lp2 = Inr r" by simp
        have "search_inv H i [?node] [] (lp_queue ?lp2) ?lp2"
          using ok start False bound by (simp add: search_inv_def node_key_def initial_counters_def)
        then show ?thesis by (rule search_loop_inv [OF loop])
      qed
    qed
  qed
qed

end
