(* ===== verification/Search_Returns.thy ===== *)
theory Search_Returns
  imports Search_Invariant
begin

text \<open>
  The search returns a result for every revalidated input: no step, trace or result that it builds
  is refused by its own validator. The counters stay in the relation the result validator
  checks, because an expanded node was discovered and every considered action is counted once.
\<close>

section \<open>The counters\<close>

definition run_ok :: "search_input \<Rightarrow> search_run \<Rightarrow> bool" where
  "run_ok i lp \<longleftrightarrow> (let c = lp_counters lp in is_sha256 (lp_transcript lp)
     \<and> 1 \<le> nc_discovered c \<and> nc_discovered c \<le> pc_max_states (si_config i) \<and> int (length (lp_seen lp)) \<le> nc_discovered c
     \<and> 0 \<le> nc_expanded c \<and> nc_expanded c + int (length (lp_queue lp)) \<le> int (length (lp_seen lp))
     \<and> 0 \<le> nc_transition_rejections c \<and> 0 \<le> nc_oracle_rejections c \<and> 0 \<le> nc_oracle_admissions c
     \<and> nc_transition_rejections c + nc_oracle_rejections c + nc_oracle_admissions c \<le> nc_considered c)"

lemma log_event_sha: "hex_digest H \<Longrightarrow> is_sha256 (lp_transcript (log_event H event lp))"
  by (auto simp: log_event_def transcript_add_def hex_digest_sha256)

lemma run_ok_log [simp]: "hex_digest H \<Longrightarrow> run_ok i lp \<Longrightarrow> run_ok i (log_event H event lp)"
  by (auto simp: run_ok_def Let_def log_event_sha)

lemma run_ok_considered:
  assumes "run_ok i lp"
  shows "run_ok i (tally (\<lambda>c. c\<lparr>nc_considered := nc_considered c + 1\<rparr>) lp)"
    "run_ok i (tally (\<lambda>c. c\<lparr>nc_transition_rejections := nc_transition_rejections c + 1\<rparr>)
      (tally (\<lambda>c. c\<lparr>nc_considered := nc_considered c + 1\<rparr>) lp))"
  using assms by (auto simp: run_ok_def Let_def)

text \<open>What the validator of a result needs of the artifacts.\<close>

definition evaluation_ok :: "state_evaluation \<Rightarrow> bool" where
  "evaluation_ok e \<longleftrightarrow> is_sha256 (se_evaluation_sha256 e) \<and> se_forbidden e = (se_matched_predicates e \<noteq> [])
     \<and> se_indeterminate_predicates e = canonical_predicates (se_indeterminate_predicates e)"

lemma all_predicates_UNIV: "p \<in> set all_predicates"
  by (cases p) (simp_all add: all_predicates_def)

lemma filter_map_key:
  "distinct (map f xs) \<Longrightarrow> map f (filter P xs) = filter (\<lambda>k. k \<in> f ` set (filter P xs)) (map f xs)"
proof (induction xs)
  case (Cons x xs)
  from Cons(2) have ne: "\<forall>y \<in> set xs. f y \<noteq> f x" by (auto simp: image_iff)
  have "filter (\<lambda>k. k \<in> f ` set (filter P (x # xs))) (map f xs) = filter (\<lambda>k. k \<in> f ` set (filter P xs)) (map f xs)"
    using ne by (intro filter_cong) auto
  moreover from ne have "f x \<notin> f ` {x \<in> set xs. P x}" by force
  ultimately show ?case using Cons by auto
qed simp

lemma with_status_canonical:
  assumes "map pe_predicate_id es = all_predicates"
  shows "with_status st es = canonical_predicates (with_status st es)"
proof -
  have "distinct (map pe_predicate_id es)" unfolding assms by (simp add: all_predicates_def)
  from filter_map_key [OF this, of "\<lambda>e. pe_status e = st"] show ?thesis
    unfolding assms by (simp add: with_status_def canonical_predicates_def all_predicates_UNIV)
qed

lemma evaluate_ok:
  assumes "evaluate_forbidden_state H s policy binding path = Inr e"
  shows "evaluation_ok e"
proof -
  from assms obtain x where "validate_state_evaluation H x = Inr e"
    unfolding evaluate_forbidden_state_def Let_def bindr_Inr_iff by blast
  then have "is_sha256 (se_evaluation_sha256 e)" "map pe_predicate_id (se_predicates e) = all_predicates"
    by (auto simp: validate_state_evaluation_def)
  with evaluate_forbidden_Inr [OF assms] with_status_canonical show ?thesis unfolding evaluation_ok_def by metis
qed

lemma search_result_returns:
  assumes "valid_search (H, i)" and "run_ok i lp" and "opt_all evaluation_ok terminal"
    and "indeterminate = canonical_predicates indeterminate"
    and "opt_all (\<lambda>t. ct_bound t = pc_bound (si_config i) \<and> ct_initial_state_sha256 t = ds_state_sha256 (si_initial_state i)
      \<and> ct_grammar_sha256 t = gm_grammar_sha256 (si_grammar i)
      \<and> Some (ct_terminal_forbidden_evaluation_sha256 t) = map_option se_evaluation_sha256 terminal) counterexample"
    and "case status of
       PROSPECTIVE_UNSAFE \<Rightarrow> failure = None \<and> counterexample \<noteq> None \<and> indeterminate = [] \<and> terminal \<noteq> None
     | NO_COUNTEREXAMPLE_WITHIN_BOUND \<Rightarrow> failure = None \<and> counterexample = None \<and> indeterminate = [] \<and> terminal = None
     | FAIL_CLOSED \<Rightarrow> failure \<noteq> None \<and> counterexample = None
         \<and> ((failure = Some INDETERMINATE_SECURITY_PREDICATE) = (indeterminate \<noteq> []))
         \<and> ((failure = Some INDETERMINATE_SECURITY_PREDICATE) = (terminal \<noteq> None))"
  shows "\<exists>r. search_result H i lp status failure terminal indeterminate counterexample = Inr r"
proof -
  note v = valid_searchD [OF assms(1)]
  have sha: "is_sha256 (ds_state_sha256 (si_initial_state i))" "is_sha256 (gm_grammar_sha256 (si_grammar i))"
    "is_sha256 (pc_config_sha256 (si_config i))" "is_sha256 (fp_policy_sha256 (si_policy i))"
    "opt_all is_sha256 (map_option gb_binding_sha256 (si_binding i))"
    "opt_all is_sha256 (map_option se_evaluation_sha256 terminal)"
    using v(2,4,12,13,14) assms(3)
    by (auto simp: validate_state_def validate_grammar_def validate_forbidden_policy_def validate_governance_binding_def
        evaluation_ok_def opt_all_def split: option.splits)
  let ?c = "lp_counters lp"
  let ?p = "\<lparr>pr_status = status, pr_failure_reason = failure,
            pr_initial_state_sha256 = ds_state_sha256 (si_initial_state i),
            pr_grammar_sha256 = gm_grammar_sha256 (si_grammar i), pr_config_sha256 = pc_config_sha256 (si_config i),
            pr_bound = pc_bound (si_config i), pr_max_states = pc_max_states (si_config i),
            pr_forbidden_policy_sha256 = fp_policy_sha256 (si_policy i),
            pr_governance_binding_sha256 = map_option gb_binding_sha256 (si_binding i),
            pr_search_nodes_discovered = nc_discovered ?c, pr_nodes_expanded = nc_expanded ?c,
            pr_actions_considered = nc_considered ?c, pr_transition_rejections = nc_transition_rejections ?c,
            pr_oracle_rejections = nc_oracle_rejections ?c, pr_oracle_admissions = nc_oracle_admissions ?c,
            pr_indeterminate_predicates = indeterminate,
            pr_terminal_forbidden_evaluation_sha256 = map_option se_evaluation_sha256 terminal,
            pr_counterexample = counterexample, pr_search_transcript_sha256 = lp_transcript lp,
            pr_result_sha256 = zero_sha256\<rparr>"
  let ?r = "?p\<lparr>pr_result_sha256 := compute_ppmc_result_sha256 H ?p\<rparr>"
  have digest: "is_sha256 (compute_ppmc_result_sha256 H ?p)"
    using v(1) by (simp add: compute_ppmc_result_sha256_def hex_digest_sha256)
  have hash: "pr_result_sha256 ?r = compute_ppmc_result_sha256 H ?r"
    by (simp add: compute_ppmc_result_sha256_def result_fields_json_def)
  have patterns: "raise_first (result_patterns ?r) x = Inr x" for x :: 'a
    using assms(2) sha digest v(8-11) by (simp add: result_patterns_def run_ok_def Let_def)
  have counters: "raise_first (result_counters ?r) x = Inr x" for x :: 'a
    using assms(2,4,5) by (cases counterexample) (auto simp: result_counters_def run_ok_def Let_def)
  have shape: "raise_first (result_shape ?r) x = Inr x" for x :: 'a
    using assms(5,6) by (cases status; cases counterexample) (auto simp: result_shape_def trace_commitments_differ_def)
  have "validate_ppmc_result H ?r = Inr ?r"
    unfolding validate_ppmc_result_def raise_first_append patterns counters shape bindr.simps using hash digest by simp
  then show ?thesis unfolding search_result_def Let_def by (intro exI [of _ ?r])
qed

text \<open>The four kinds of result.\<close>

lemma fail_closed_returns:
  assumes "valid_search (H, i)" and "run_ok i lp" and "failure \<noteq> INDETERMINATE_SECURITY_PREDICATE"
  shows "\<exists>r. fail_closed H i lp failure = Inr r"
  unfolding fail_closed_def
  by (rule search_result_returns [OF assms(1,2)]) (use assms(3) in \<open>simp_all add: canonical_predicates_def\<close>)

lemma indeterminate_returns:
  assumes "valid_search (H, i)" and "run_ok i lp" and "evaluation_ok e" and "se_indeterminate_predicates e \<noteq> []"
  shows "\<exists>r. indeterminate_result H i lp e = Inr r"
  unfolding indeterminate_result_def
  by (rule search_result_returns [OF assms(1,2)]) (use assms(3,4) in \<open>simp_all add: evaluation_ok_def\<close>)

lemma safe_returns:
  assumes "valid_search (H, i)" and "run_ok i lp"
  shows "\<exists>r. safe_result H i lp = Inr r"
  unfolding safe_result_def
  by (rule search_result_returns [OF assms]) (simp_all add: canonical_predicates_def)

lemma unsafe_returns:
  assumes "valid_search (H, i)" and "run_ok i lp" and "evaluation_ok e" and "se_forbidden e"
    and "replays H i steps (n, s, t)" "int n \<le> pc_bound (si_config i)"
  shows "\<exists>r. unsafe_result H i lp steps s e = Inr r"
proof -
  note v = valid_searchD [OF assms(1)] and steps = replays_reach [OF assms(5)]
  have "reach (H, i) (n, s, t)" using steps by blast
  from reach_valid [OF assms(1) this] have "validate_state H s = Inr s" by simp
  then have sha: "is_sha256 (ds_state_sha256 s)" "is_sha256 (ds_state_sha256 (si_initial_state i))"
    "is_sha256 (gm_grammar_sha256 (si_grammar i))"
    using v(2,4) by (auto simp: validate_state_def validate_grammar_def)
  have ev: "is_sha256 (se_evaluation_sha256 e)" "se_matched_predicates e \<noteq> []"
    using assms(3,4) by (auto simp: evaluation_ok_def)
  have "set (se_matched_predicates e) \<subseteq> set all_predicates" using all_predicates_UNIV by blast
  from build_trace_returns [OF v(1,8,9) sha(2,3,1) ev(1) _ _ _ ev(2) this, of steps] steps assms(6)
  obtain trace where trace: "build_counterexample_trace H (pc_bound (si_config i)) (ds_state_sha256 (si_initial_state i))
      (gm_grammar_sha256 (si_grammar i)) steps (ds_state_sha256 s) (se_evaluation_sha256 e) (se_matched_predicates e) = Inr trace"
    by auto
  have "\<exists>r. search_result H i lp PROSPECTIVE_UNSAFE None (Some e) [] (Some trace) = Inr r"
    by (rule search_result_returns [OF assms(1,2)])
      (use assms(3) build_trace_Inr [OF trace] in \<open>simp_all add: canonical_predicates_def\<close>)
  with trace show ?thesis by (simp add: unsafe_result_def)
qed

section \<open>The loops return\<close>

text \<open>A step of the search that returns, and leaves an intact queue and counters when it goes on.\<close>

definition goes_on :: "(string \<Rightarrow> string) \<Rightarrow> search_input \<Rightarrow> progress result \<Rightarrow> bool" where
  "goes_on H i x \<longleftrightarrow> (\<exists>p. x = Inr p \<and> (\<forall>lp. p = Continue lp \<longrightarrow> run_ok i lp
     \<and> (\<forall>n \<in> set (lp_queue lp). node_ok H i n \<and> int (sn_depth n) < pc_bound (si_config i))))"

lemma goes_on_returning: "\<exists>r. x = Inr r \<Longrightarrow> goes_on H i (returning x)"
  by (auto simp: goes_on_def returning_def)

lemma goes_on_Continue:
  "run_ok i lp \<Longrightarrow> \<forall>n \<in> set (lp_queue lp). node_ok H i n \<and> int (sn_depth n) < pc_bound (si_config i)
    \<Longrightarrow> goes_on H i (Inr (Continue lp))"
  by (simp add: goes_on_def)

lemma extend_returns:
  assumes "valid_search (H, i)" and "path_upto H m q" "m < 5" and "a \<in> set (gm_actions (si_grammar i))"
    and "validate_state H s' = Inr s'"
  shows "\<exists>u. extend_temporal_path H q a s' (Suc m) = Inr u"
  using valid_searchD(5) [OF assms(1,4)]
proof (cases rule: extend_cases [where s' = s'])
  case keep
  then show ?thesis by auto
next
  case lost
  then show ?thesis by auto
next
  case (observe sem w)
  from assms(5) observe(2) have "is_sha256 w" by (auto simp: validate_state_def)
  from observed_total [OF valid_searchD(1) [OF assms(1)] assms(3) valid_searchD(6) [OF assms(1,4) observe(1)] this assms(2)]
  show ?thesis using observe(3) by auto
qed

text \<open>A step that only adds an event or a count keeps what holds of the queue.\<close>

lemma conclude_untimed_goes_on:
  assumes "valid_search (H, i)" and "run_ok i lp" and "replays H i steps (depth, post, None)" "int depth \<le> pc_bound (si_config i)"
  shows "goes_on H i (conclude_untimed H i post depth steps lp)"
proof (cases "evaluate_state H i post None")
  case (Inl x)
  have "\<exists>r. fail_closed H i (log_event H (state_event ''PREDICATE_EVALUATION_FAILURE'' depth post) lp) PREDICATE_EVALUATION_FAILURE = Inr r"
    by (rule fail_closed_returns [OF assms(1)]) (use assms(2) valid_searchD(1) [OF assms(1)] in simp_all)
  with Inl show ?thesis unfolding conclude_untimed_def by (intro goes_on_returning) simp
next
  case (Inr e)
  let ?lp = "log_event H (evaluation_event ''STATE_EVALUATION'' e depth) lp"
  have e: "evaluate_forbidden_state H post (si_policy i) (si_binding i) None = Inr e" using Inr by simp
  have ok: "run_ok i ?lp" using assms(2) valid_searchD(1) [OF assms(1)] by simp
  have "\<exists>r. (if se_forbidden e then unsafe_result H i ?lp steps post e else indeterminate_result H i ?lp e) = Inr r"
    using unsafe_returns [OF assms(1) ok evaluate_ok [OF e] _ assms(3,4)]
      indeterminate_returns [OF assms(1) ok evaluate_ok [OF e] evaluate_untimed [OF e]] by simp
  with Inr show ?thesis unfolding conclude_untimed_def by (intro goes_on_returning) (simp add: Let_def del: evaluate_state_Inr)
qed

lemma visit_child_goes_on:
  assumes "valid_search (H, i)" and "run_ok i lp"
    and queue: "\<forall>n \<in> set (lp_queue lp). node_ok H i n \<and> int (sn_depth n) < pc_bound (si_config i)"
    and "replays H i (sn_steps child) (node_point child)" and "int (sn_depth child) \<le> pc_bound (si_config i)"
  shows "goes_on H i (visit_child H i child lp)"
proof -
  let ?key = "search_node_key H (sn_state child) (sn_temporal child)"
  let ?seen = "lp_seen lp @ [?key]"
  let ?lp = "tally (\<lambda>c. c\<lparr>nc_discovered := int (length ?seen)\<rparr>) (lp\<lparr>lp_seen := ?seen\<rparr>)"
  have hex: "hex_digest H" by (rule valid_searchD(1) [OF assms(1)])
  have failed: "goes_on H i (returning (fail_closed H i (log_event H event lp') failure))"
    if "run_ok i lp'" "failure \<noteq> INDETERMINATE_SECURITY_PREDICATE" for event lp' failure
    by (intro goes_on_returning fail_closed_returns [OF assms(1)]) (use that hex in simp_all)
  consider (seen) "?key \<in> set (lp_seen lp)" | (full) "?key \<notin> set (lp_seen lp)" "int (length (lp_seen lp)) \<ge> pc_max_states (si_config i)"
    | (room) "?key \<notin> set (lp_seen lp)" "int (length (lp_seen lp)) < pc_max_states (si_config i)" by linarith
  then show ?thesis
  proof cases
    case seen
    then show ?thesis
      using assms(2) queue hex by (auto simp: visit_child_def Let_def intro!: goes_on_Continue)
  next
    case full
    then show ?thesis using failed [OF assms(2)] by (simp add: visit_child_def Let_def)
  next
    case room
    from room assms(2) have lp: "run_ok i ?lp" by (auto simp: run_ok_def Let_def)
    show ?thesis
    proof (cases "evaluate_state H i (sn_state child) (Some (sn_temporal child))")
      case (Inl x)
      with room show ?thesis using failed [OF lp] by (simp add: visit_child_def Let_def)
    next
      case (Inr e)
      let ?lp2 = "log_event H (evaluation_event ''STATE_EVALUATION'' e (sn_depth child)) ?lp"
      have e: "evaluate_forbidden_state H (sn_state child) (si_policy i) (si_binding i) (Some (sn_temporal child)) = Inr e"
        using Inr by simp
      have lp2: "run_ok i ?lp2" using lp hex by simp
      have visit: "visit_child H i child lp = (if se_forbidden e then returning (unsafe_result H i ?lp2 (sn_steps child) (sn_state child) e)
               else if se_indeterminate_predicates e \<noteq> [] then returning (indeterminate_result H i ?lp2 e)
               else if int (sn_depth child) < pc_bound (si_config i)
               then Inr (Continue (?lp2\<lparr>lp_queue := lp_queue ?lp2 @ [child]\<rparr>))
               else Inr (Continue ?lp2))"
        using room Inr by (simp add: visit_child_def Let_def del: evaluate_state_Inr cong: if_cong)
      have queued: "run_ok i (?lp2\<lparr>lp_queue := lp_queue ?lp2 @ [child]\<rparr>)"
        using lp2 assms(2) by (auto simp: run_ok_def Let_def)
      have child: "node_ok H i child" if "\<not> se_forbidden e" "se_indeterminate_predicates e = []"
        using assms(4,5) e that by (simp add: node_ok_def node_point_def)
      show ?thesis unfolding visit
        using unsafe_returns [OF assms(1) lp2 evaluate_ok [OF e] _ assms(4) [unfolded node_point_def] assms(5)]
          indeterminate_returns [OF assms(1) lp2 evaluate_ok [OF e]] lp2 queued queue child
        by (auto intro!: goes_on_returning goes_on_Continue)
    qed
  qed
qed

lemma search_child_goes_on:
  assumes "valid_search (H, i)" and "run_ok i lp"
    and queue: "\<forall>n \<in> set (lp_queue lp). node_ok H i n \<and> int (sn_depth n) < pc_bound (si_config i)"
    and "node_ok H i node" "int (sn_depth node) < pc_bound (si_config i)" "admitted H i (sn_state node) a d s'"
    and "is_sha256 (od_decision_sha256 d)"
  shows "goes_on H i (search_child H i node a d s' lp)"
proof -
  let ?depth = "Suc (sn_depth node)"
  note v = valid_searchD [OF assms(1)]
  from assms(4) have node: "replays H i (sn_steps node) (sn_depth node, sn_state node, Some (sn_temporal node))"
    by (simp add: node_ok_def node_point_def)
  then have r: "reach (H, i) (sn_depth node, sn_state node, Some (sn_temporal node))" using replays_reach by blast
  from reach_valid [OF assms(1) r] have pre: "validate_state H (sn_state node) = Inr (sn_state node)"
    "path_upto H (sn_depth node) (sn_temporal node)" by simp_all
  from assms(6) have a: "a \<in> set (gm_actions (si_grammar i))" "apply_future_action H (sn_state node) a (si_grammar i) = Inr s'"
    by (simp_all add: admitted_def)
  have post: "validate_state H s' = Inr s'" using transition_facts [OF a(2)] by blast
  have depth: "sn_depth node < 5" "0 \<le> int (sn_depth node)" "int (sn_depth node) \<le> 4" using assms(5) v(9) by simp_all
  obtain t where t: "extend_temporal_path H (sn_temporal node) a s' ?depth = Inr t"
    using extend_returns [OF assms(1) pre(2) depth(1) a(1) post] by blast
  have "is_sha256 (ds_state_sha256 (sn_state node))" "is_sha256 (ds_state_sha256 s')" "is_sha256 (fa_action_sha256 a)"
    using pre(1) post validate_action_Inr(3) [OF v(5) [OF a(1)]] by (auto simp: validate_state_def)
  then obtain st where st: "build_counterexample_step H (int (sn_depth node)) (ds_state_sha256 (sn_state node)) (fa_action_sha256 a)
          (od_decision_sha256 d) (ds_state_sha256 s') = Inr st"
    using build_step_returns [OF v(1) depth(2,3)] assms(7) by blast
  have replay: "replays H i (sn_steps node @ [st]) (?depth, s', t)"
    by (rule replay_step [OF node assms(6) t build_step_Inr [OF st]])
  have bound: "int ?depth \<le> pc_bound (si_config i)" using assms(5) by simp
  show ?thesis
  proof (cases t)
    case None
    with t st have "search_child H i node a d s' lp = conclude_untimed H i s' ?depth (sn_steps node @ [st]) lp"
      by (simp add: search_child_def)
    with conclude_untimed_goes_on [OF assms(1,2) replay [unfolded None] bound] show ?thesis by simp
  next
    case (Some path)
    with t st have "search_child H i node a d s' lp = visit_child H i
        \<lparr>sn_state = s', sn_depth = ?depth, sn_steps = sn_steps node @ [st], sn_temporal = path\<rparr> lp"
      by (simp add: search_child_def)
    then show ?thesis
      using visit_child_goes_on [OF assms(1-3), of "\<lparr>sn_state = s', sn_depth = ?depth, sn_steps = sn_steps node @ [st], sn_temporal = path\<rparr>"]
        replay bound Some by (simp add: node_point_def)
  qed
qed

lemma search_action_goes_on:
  assumes "valid_search (H, i)" and "run_ok i lp"
    and queue: "\<forall>n \<in> set (lp_queue lp). node_ok H i n \<and> int (sn_depth n) < pc_bound (si_config i)"
    and "node_ok H i node" "int (sn_depth node) < pc_bound (si_config i)" "a \<in> set (gm_actions (si_grammar i))"
  shows "goes_on H i (search_action H i node a lp)"
proof -
  let ?s = "sn_state node"
  let ?lp = "tally (\<lambda>c. c\<lparr>nc_considered := nc_considered c + 1\<rparr>) lp"
  have hex: "hex_digest H" by (rule valid_searchD(1) [OF assms(1)])
  note lp = run_ok_considered [OF assms(2)]
  have failed: "goes_on H i (returning (fail_closed H i (log_event H event ?lp) failure))"
    if "failure \<noteq> INDETERMINATE_SECURITY_PREDICATE" for event failure
    by (intro goes_on_returning fail_closed_returns [OF assms(1)]) (use that lp(1) hex in simp_all)
  show ?thesis
  proof (cases "apply_future_action H ?s a (si_grammar i)")
    case (Inl e)
    show ?thesis
    proof (cases "\<exists>m. e = FutureActionTransitionError m")
      case True
      with Inl show ?thesis using lp(2) hex queue
        by (auto simp: search_action_def Let_def intro!: goes_on_Continue)
    next
      case False
      with Inl have "search_action H i node a lp = returning (fail_closed H i (log_event H (action_event ''TRANSITION_FAILURE'' node a) ?lp)
          TRANSITION_FAILURE)"
        by (cases e) (auto simp: search_action_def Let_def)
      with failed show ?thesis by simp
    qed
  next
    case (Inr s')
    then have step: "search_action H i node a lp = consult_oracle H i node a s' ?lp" by (simp add: search_action_def)
    show ?thesis
    proof (cases "invoke_local_oracle H (si_oracle i) ?s a")
      case None
      with step failed show ?thesis by (simp add: consult_oracle_def)
    next
      case (Some d)
      let ?lp1 = "log_event H (action_event ''LOCAL_ORACLE_DECISION'' node a
          @ [(''admissible'', JBool (od_admissible d)), (''decision_sha256'', JStr (od_decision_sha256 d))]) ?lp"
      have sha: "is_sha256 (od_decision_sha256 d)"
        using Some by (auto simp: invoke_local_oracle_def validate_decision_def split: option.splits sum.splits if_splits)
      have consult: "consult_oracle H i node a s' ?lp = (if \<not> od_admissible d
          then Inr (Continue (tally (\<lambda>c. c\<lparr>nc_oracle_rejections := nc_oracle_rejections c + 1\<rparr>) ?lp1))
          else search_child H i node a d s' (tally (\<lambda>c. c\<lparr>nc_oracle_admissions := nc_oracle_admissions c + 1\<rparr>) ?lp1))"
        using Some by (simp add: consult_oracle_def Let_def cong: if_cong)
      have counted: "run_ok i (tally (\<lambda>c. c\<lparr>nc_oracle_rejections := nc_oracle_rejections c + 1\<rparr>) ?lp1)"
        "run_ok i (tally (\<lambda>c. c\<lparr>nc_oracle_admissions := nc_oracle_admissions c + 1\<rparr>) ?lp1)"
        using assms(2) log_event_sha [OF hex] by (auto simp: run_ok_def Let_def)
      show ?thesis
      proof (cases "od_admissible d")
        case False
        with step consult counted(1) queue show ?thesis by (auto intro!: goes_on_Continue)
      next
        case True
        then have "admitted H i ?s a d s'" using assms(6) Inr Some by (simp add: admitted_def)
        from search_child_goes_on [OF assms(1) counted(2) _ assms(4,5) this sha] queue True step consult
        show ?thesis by simp
      qed
    qed
  qed
qed

lemma search_actions_goes_on:
  "valid_search (H, i) \<Longrightarrow> run_ok i lp
    \<Longrightarrow> \<forall>n \<in> set (lp_queue lp). node_ok H i n \<and> int (sn_depth n) < pc_bound (si_config i)
    \<Longrightarrow> node_ok H i node \<Longrightarrow> int (sn_depth node) < pc_bound (si_config i)
    \<Longrightarrow> set as \<subseteq> set (gm_actions (si_grammar i)) \<Longrightarrow> goes_on H i (search_actions H i node as lp)"
proof (induction H i node as lp rule: search_actions.induct)
  case (1 H i node lp)
  then show ?case by (simp add: goes_on_Continue)
next
  case (2 H i node a as lp)
  have "a \<in> set (gm_actions (si_grammar i))" using 2(7) by simp
  from search_action_goes_on [OF 2(2-6) this] obtain p where p: "search_action H i node a lp = Inr p"
    and go: "\<And>lp'. p = Continue lp' \<Longrightarrow> run_ok i lp'
      \<and> (\<forall>n \<in> set (lp_queue lp'). node_ok H i n \<and> int (sn_depth n) < pc_bound (si_config i))"
    by (auto simp: goes_on_def)
  show ?case
  proof (cases p)
    case (Return r)
    with p show ?thesis by (simp add: goes_on_def)
  next
    case (Continue lp')
    from go [OF Continue] have lp': "run_ok i lp'"
      "\<forall>n \<in> set (lp_queue lp'). node_ok H i n \<and> int (sn_depth n) < pc_bound (si_config i)" by blast+
    have "set as \<subseteq> set (gm_actions (si_grammar i))" using 2(7) by simp
    from 2(1) [OF 2(2) lp' 2(5,6) this] p Continue show ?thesis by simp
  qed
qed

lemma search_loop_returns:
  "valid_search (H, i) \<Longrightarrow> run_ok i lp
    \<Longrightarrow> \<forall>n \<in> set (lp_queue lp). node_ok H i n \<and> int (sn_depth n) < pc_bound (si_config i)
    \<Longrightarrow> \<exists>r. search_loop H i lp = Inr r"
proof (induction H i lp rule: search_loop.induct)
  case (1 H i lp)
  show ?case
  proof (cases "lp_queue lp")
    case Nil
    with safe_returns [OF 1(2,3)] show ?thesis by (subst search_loop.simps) simp
  next
    case (Cons node rest)
    let ?lp = "lp\<lparr>lp_queue := rest\<rparr>"
    let ?lp1 = "tally (\<lambda>c. c\<lparr>nc_expanded := nc_expanded c + 1\<rparr>) ?lp"
    from 1(4) Cons have node: "node_ok H i node" "int (sn_depth node) < pc_bound (si_config i)"
      and rest: "\<forall>n \<in> set (lp_queue ?lp1). node_ok H i n \<and> int (sn_depth n) < pc_bound (si_config i)" by simp_all
    have "run_ok i ?lp1" using 1(3) Cons by (auto simp: run_ok_def Let_def)
    from search_actions_goes_on [OF 1(2) this rest node subset_refl] node(2)
    have "goes_on H i (expand_node H i node ?lp)" by (simp add: expand_node_def Let_def)
    then obtain p where p: "expand_node H i node ?lp = Inr p"
      and go: "\<And>lp'. p = Continue lp' \<Longrightarrow> run_ok i lp'
        \<and> (\<forall>n \<in> set (lp_queue lp'). node_ok H i n \<and> int (sn_depth n) < pc_bound (si_config i))"
      by (auto simp: goes_on_def)
    show ?thesis
    proof (cases p)
      case (Return r)
      with Cons p show ?thesis by (subst search_loop.simps) simp
    next
      case (Continue lp')
      from go [OF Continue] have lp': "run_ok i lp'"
        "\<forall>n \<in> set (lp_queue lp'). node_ok H i n \<and> int (sn_depth n) < pc_bound (si_config i)" by blast+
      from 1(1) [OF Cons p Continue 1(2) lp'] Cons p Continue show ?thesis by (subst search_loop.simps) simp
    qed
  qed
qed

lemma initial_path_total:
  assumes "valid_search (H, i)"
  shows "\<exists>t. initial_temporal_path H (si_initial_state i) (si_grammar i) = Inr t"
proof -
  note v = valid_searchD [OF assms]
  have w: "is_sha256 w" if "ds_warehouse_snapshot_sha256 (si_initial_state i) = Some w" for w
    using v(2) that by (auto simp: validate_state_def)
  have empty: "\<exists>p. build_temporal_path_context H [] = Inr p" using build_path_total [OF v(1), of "[]"] by simp
  have one: "\<exists>ob p. build_temporal_release_observation H 0 (sr_semantic_sha256 (cx_base_semantic (gm_context (si_grammar i)))) (Some w) True = Inr ob
      \<and> build_temporal_path_context H [ob] = Inr p" if "is_sha256 w" for w
    using build_observation_total [OF v(1) _ _ v(7) that, of 0 True] build_path_total [OF v(1), of "[_]"] by fastforce
  show ?thesis
    using empty one w by (fastforce simp: initial_temporal_path_def Let_def split: option.split)
qed

lemma run_search_returns:
  assumes "valid_search (H, i)" and "initial_temporal_path H (si_initial_state i) (si_grammar i) = Inr t"
  shows "\<exists>r. run_search H i t = Inr r"
proof -
  let ?s = "si_initial_state i"
  let ?lp = "\<lparr>lp_queue = [], lp_seen = [], lp_counters = initial_counters, lp_transcript = transcript_start H i\<rparr>"
  note v = valid_searchD [OF assms(1)]
  have lp: "run_ok i ?lp"
    using v(1,10) by (simp add: run_ok_def initial_counters_def transcript_start_def hex_digest_sha256)
  have replay: "replays H i [] (0, ?s, t)" by (rule replay_start) (simp add: assms(2))
  have bound: "int 0 \<le> pc_bound (si_config i)" using v(8) by simp
  show ?thesis
  proof (cases "evaluate_state H i ?s t")
    case (Inl x)
    with fail_closed_returns [OF assms(1) run_ok_log [OF v(1) lp]] show ?thesis by (simp add: run_search_def Let_def)
  next
    case (Inr e)
    let ?lp1 = "log_event H (evaluation_event ''INITIAL_EVALUATION'' e 0) ?lp"
    from Inr have e: "evaluate_forbidden_state H ?s (si_policy i) (si_binding i) t = Inr e" by simp
    have lp1: "run_ok i ?lp1" using lp v(1) by simp
    have run: "run_search H i t = (if se_forbidden e then unsafe_result H i ?lp1 [] ?s e
             else if se_indeterminate_predicates e \<noteq> [] then indeterminate_result H i ?lp1 e
             else if pc_bound (si_config i) = 0 then safe_result H i ?lp1
             else case t of
                 None \<Rightarrow> Inl (AttributeError '''')
               | Some path \<Rightarrow> search_loop H i (?lp1
                   \<lparr>lp_queue := [\<lparr>sn_state = ?s, sn_depth = 0, sn_steps = [], sn_temporal = path\<rparr>],
                    lp_seen := [search_node_key H ?s path]\<rparr>))"
      using Inr by (simp add: run_search_def Let_def del: evaluate_state_Inr cong: if_cong)
    consider (unsafe) "se_forbidden e" | (unknown) "\<not> se_forbidden e" "se_indeterminate_predicates e \<noteq> []"
      | (zero) "\<not> se_forbidden e" "se_indeterminate_predicates e = []" "pc_bound (si_config i) = 0"
      | (loop) "\<not> se_forbidden e" "se_indeterminate_predicates e = []" "pc_bound (si_config i) \<noteq> 0" by blast
    then show ?thesis
    proof cases
      case unsafe
      with unsafe_returns [OF assms(1) lp1 evaluate_ok [OF e] unsafe replay bound] run show ?thesis by simp
    next
      case unknown
      with indeterminate_returns [OF assms(1) lp1 evaluate_ok [OF e] unknown(2)] run show ?thesis by simp
    next
      case zero
      with safe_returns [OF assms(1) lp1] run show ?thesis by simp
    next
      case loop
      with evaluate_untimed [of H ?s "si_policy i" "si_binding i" e] e obtain path where path: "t = Some path" by (cases t) auto
      let ?node = "\<lparr>sn_state = ?s, sn_depth = 0, sn_steps = [], sn_temporal = path\<rparr>"
      let ?lp2 = "?lp1\<lparr>lp_queue := [?node], lp_seen := [search_node_key H ?s path]\<rparr>"
      have "node_ok H i ?node" using loop e replay bound path by (auto simp: node_ok_def node_point_def)
      moreover have "run_ok i ?lp2" using lp1 by (auto simp: run_ok_def Let_def initial_counters_def)
      ultimately have "\<exists>r. search_loop H i ?lp2 = Inr r"
        using loop(3) bound by (intro search_loop_returns [OF assms(1)]) simp_all
      with run loop path show ?thesis by simp
    qed
  qed
qed

end
