(* ===== verification/Search_Samples.thy ===== *)
theory Search_Samples
  imports Search_Returns
begin

text \<open>
  Sample searches on the grammar of a raw-identifier release, for the witnesses: the release that
  adds the sensitive field leads to a forbidden state in one step, and an oracle that denies it
  leaves only safe points.
\<close>

section \<open>The state after the linking release\<close>

definition pair_atoms :: "disclosure_atom list" where
  "pair_atoms = (let sha = sample_digest ''36''; x = sample_column ''dx'' SENSITIVE_ATTRIBUTE;
       c = sample_column ''id'' DIRECT_IDENTIFIER in
     [(role_atom sha ROLE_REFERENCED x)\<lparr>at_atom_sha256 := sample_digest ''1a''\<rparr>,
      (output_atom sha RAW_VALUE x)\<lparr>at_atom_sha256 := sample_digest ''30''\<rparr>,
      (output_atom sha RAW_VALUE c)\<lparr>at_atom_sha256 := sample_digest ''56''\<rparr>,
      (release_atom SEMANTIC_RELEASE sha)\<lparr>at_atom_sha256 := sample_digest ''66''\<rparr>,
      (release_atom COHORT sha)\<lparr>at_release_family_sha256 := Some sha, at_cohort_hmac_sha256 := Some zero_sha256,
         at_protected_release := Some True, at_atom_sha256 := sample_digest ''a1''\<rparr>,
      (release_atom SOURCE_DATASET sha)\<lparr>at_dataset_urn := Some ''a'', at_atom_sha256 := sample_digest ''c2''\<rparr>,
      (role_atom sha ROLE_REFERENCED c)\<lparr>at_atom_sha256 := sample_digest ''d6''\<rparr>])"

definition both_atoms :: "disclosure_atom list" where
  "both_atoms = [pair_atoms ! 0, id_atoms ! 0, id_atoms ! 1, pair_atoms ! 1, id_atoms ! 2, pair_atoms ! 2,
     pair_atoms ! 3, id_atoms ! 3, pair_atoms ! 4, id_atoms ! 4, pair_atoms ! 5, pair_atoms ! 6]"

definition pair_rules :: "inference_rule list" where
  "pair_rules =
     [\<lparr>ru_family = FAMILY_COEXPOSURE, ru_antecedents = [sample_digest ''30'', sample_digest ''56''],
       ru_consequent = sample_derived ! 0, ru_rule_sha256 = sample_digest ''24''\<rparr>,
      \<lparr>ru_family = FAMILY_CATEGORY_PRESENCE, ru_antecedents = [sample_digest ''a5''],
       ru_consequent = sample_derived ! 1, ru_rule_sha256 = sample_digest ''66''\<rparr>,
      \<lparr>ru_family = FAMILY_CATEGORY_PRESENCE, ru_antecedents = [sample_digest ''30''],
       ru_consequent = sample_derived ! 2, ru_rule_sha256 = sample_digest ''87''\<rparr>,
      \<lparr>ru_family = FAMILY_CATEGORY_PRESENCE, ru_antecedents = [sample_digest ''56''],
       ru_consequent = sample_derived ! 1, ru_rule_sha256 = sample_digest ''b3''\<rparr>]"

definition pair_found :: "inference_rule list" where
  "pair_found = [pair_rules ! 2, pair_rules ! 3, pair_rules ! 1, pair_rules ! 0]"

definition pair_state :: disclosure_state where
  "pair_state = id_state\<lparr>ds_released_atoms := both_atoms, ds_derived_atoms := sample_derived,
     ds_inference_rules_sha256 := sample_digest ''2c'', ds_state_sha256 := sample_digest ''40''\<rparr>"

lemma pair_release_atoms: "direct_atoms_for_release sample_hash pair_release (fa_composition pair_action) = Inr pair_atoms"
  by code_simp

lemma pair_merge: "merge_atoms id_atoms pair_atoms = both_atoms"
  by code_simp

lemma pair_all_rules: "all_rules sample_hash both_atoms = Inr pair_found"
  by code_simp

lemma pair_closure: "least_fixed_point both_atoms pair_rules = Inr sample_derived"
  by code_simp

lemma pair_shas: "compute_inference_rules_sha256 sample_hash pair_rules = sample_digest ''2c''"
  "compute_state_sha256 sample_hash pair_state = sample_digest ''40''"
  "by_key ru_rule_sha256 pair_found = pair_rules"
  "require_canonical_atoms both_atoms direct_atom_kinds = Inr ()" "is_sha256 (sample_digest ''2c'')" "is_sha256 (sample_digest ''40'')"
  by code_simp+

lemma pair_atoms_valid: "list_all (\<lambda>a. validate_atom sample_hash a = Inr a) both_atoms"
  by code_simp

lemma id_atoms_valid: "list_all (\<lambda>a. validate_atom sample_hash a = Inr a) id_atoms"
  by code_simp

lemma pair_disjoint: "at_atom_sha256 ` set both_atoms \<inter> at_atom_sha256 ` set sample_derived = {}"
  by (simp add: both_atoms_def pair_atoms_def id_atoms_def sample_derived_def Let_def)

lemma pair_state_fields [simp]:
  "ds_released_atoms pair_state = both_atoms" "ds_derived_atoms pair_state = sample_derived"
  "ds_inference_rules_sha256 pair_state = sample_digest ''2c''" "ds_state_sha256 pair_state = sample_digest ''40''"
  "ds_purpose_commitment_sha256 pair_state = zero_sha256" "ds_governance_commitment_sha256 pair_state = zero_sha256"
  "ds_evidence_root_sha256 pair_state = zero_sha256" "ds_warehouse_snapshot_sha256 pair_state = Some zero_sha256"
  by (simp_all add: pair_state_def id_state_def)

lemma pair_state_valid: "validate_state sample_hash pair_state = Inr pair_state"
proof -
  have "instantiate_rules sample_hash both_atoms = Inr pair_rules"
    by (simp add: instantiate_rules_def pair_shas pair_all_rules Let_def) (simp add: pair_rules_def)
  moreover have "len_between 1 4096 both_atoms" "len_between 0 4096 sample_derived"
    by (simp_all add: len_between_def both_atoms_def sample_derived_def)
  ultimately show ?thesis
    by (simp add: validate_state_def pair_closure pair_shas sample_derived_canonical pair_disjoint sample_digests)
qed

lemma pair_transition: "apply_future_action sample_hash id_state pair_action id_grammar = Inr pair_state"
proof -
  obtain k where k: "fa_composition pair_action = Some k" by (simp add: pair_action_def)
  have "id_state\<lparr>ds_warehouse_snapshot_sha256 := Some zero_sha256, ds_released_atoms := both_atoms\<rparr>
      = pair_state\<lparr>ds_derived_atoms := ds_derived_atoms id_state,
          ds_inference_rules_sha256 := ds_inference_rules_sha256 id_state, ds_state_sha256 := ds_state_sha256 id_state\<rparr>"
    by (simp add: id_state_def pair_state_def)
  then have "rebuild_state sample_hash id_state both_atoms (Some zero_sha256) = Inr pair_state"
    by (simp only: rebuild_state_def close_again [OF pair_state_valid] rethrow_transition.simps)
  with pair_release_atoms k show ?thesis by (simp add: apply_future_action_def id_in_universe pair_merge)
qed

section \<open>Inputs of the search\<close>

definition sample_answer :: "bool \<Rightarrow> disclosure_state \<Rightarrow> future_action \<Rightarrow> oracle_decision" where
  "sample_answer admissible s a = (let d = \<lparr>od_oracle_version = ''v1'', od_state_sha256 = ds_state_sha256 s,
       od_action_sha256 = fa_action_sha256 a, od_admissible = admissible, od_reason_codes = [], od_decision_sha256 = zero_sha256\<rparr>
     in d\<lparr>od_decision_sha256 := compute_local_oracle_decision_sha256 sample_hash d\<rparr>)"

definition sample_oracle :: "(future_action \<Rightarrow> bool) \<Rightarrow> local_oracle" where
  "sample_oracle admits s a = Some (sample_answer (admits a) s a)"

definition sample_config :: search_config where
  "sample_config = (let c = \<lparr>pc_bound = 1, pc_max_states = 10, pc_config_sha256 = zero_sha256\<rparr>
     in c\<lparr>pc_config_sha256 := compute_ppmc_config_sha256 sample_hash c\<rparr>)"

definition sample_search :: "local_oracle \<Rightarrow> search_input" where
  "sample_search answer = \<lparr>si_initial_state = id_state, si_grammar = id_grammar, si_policy = sample_policy,
     si_binding = Some sample_binding, si_oracle = answer, si_config = sample_config\<rparr>"

lemma sample_search_simps [simp]:
  "si_initial_state (sample_search f) = id_state" "si_grammar (sample_search f) = id_grammar"
  "si_policy (sample_search f) = sample_policy" "si_binding (sample_search f) = Some sample_binding"
  "si_oracle (sample_search f) = f" "si_config (sample_search f) = sample_config"
  "pc_bound sample_config = 1" "pc_max_states sample_config = 10"
  by (simp_all add: sample_search_def sample_config_def Let_def)

lemma sample_answer_admissible [simp]: "od_admissible (sample_answer b s a) = b"
  by (simp add: sample_answer_def Let_def)

lemma sample_oracle_answers:
  assumes "is_sha256 (ds_state_sha256 s)" "is_sha256 (fa_action_sha256 a)"
  shows "invoke_local_oracle sample_hash (sample_oracle admits) s a = Some (sample_answer (admits a) s a)"
proof -
  have "canonical ([] :: string list)" by (simp add: canonical_iff)
  with assms show ?thesis
    by (simp add: invoke_local_oracle_def sample_oracle_def sample_answer_def Let_def validate_decision_def len_between_def
        compute_local_oracle_decision_sha256_def sample_json_digest)
qed

lemma sample_scope_valid: "validate_scope sample_hash sample_scope = Inr sample_scope"
  by code_simp

lemma sample_config_valid: "validate_config sample_hash sample_config = Inr sample_config"
  by (simp add: sample_config_def Let_def validate_config_def compute_ppmc_config_sha256_def sample_json_digest)

lemma revalidate_parts:
  "validate_release sample_hash id_release = Inr id_release" "validate_release sample_hash pair_release = Inr pair_release"
  "validate_composition id_composition = Inr id_composition"
  "validate_composition (id_composition\<lparr>co_release_family_sha256 := sample_digest ''36''\<rparr>)
    = Inr (id_composition\<lparr>co_release_family_sha256 := sample_digest ''36''\<rparr>)"
  "revalidate_columns (cx_relevant_projection_fields id_fields @ cx_group_key_fields id_fields) = Inr ()"
  "validate_transition snap_edge = Inr snap_edge"
  "validate_action sample_hash snap_action = Inr snap_action" "validate_action sample_hash replay_action = Inr replay_action"
  "list_all (\<lambda>a. validate_atom sample_hash a = Inr a) (ds_released_atoms id_state @ ds_derived_atoms id_state)"
  by code_simp+

lemma sample_state_revalidated: "revalidate_state sample_hash id_state = Inr id_state"
proof -
  have "ds_scope id_state = sample_scope" by (simp add: id_state_def)
  with mapr_same [OF revalidate_parts(9)] show ?thesis
    by (simp add: revalidate_state_def sample_scope_valid id_state_valid del: sample_grammar_simps)
qed

lemma sample_grammar_revalidated: "revalidate_grammar sample_hash id_grammar = Inr id_grammar"
proof -
  have context_fields: "cx_base_semantic id_context = id_release" "cx_base_composition id_context = id_composition"
    "cx_relevant_projection_fields id_context @ cx_group_key_fields id_context
      = cx_relevant_projection_fields id_fields @ cx_group_key_fields id_fields"
    "cx_snapshot_transitions id_context = [snap_edge]"
    by (simp_all add: id_context_def id_fields_def)
  have "revalidate_context sample_hash id_context = Inr id_context"
    by (simp add: revalidate_context_def context_fields revalidate_parts id_context_valid del: append_eq_conv_conj)
  moreover have "revalidate_action sample_hash snap_action = Inr snap_action"
    by (simp add: revalidate_action_def revalidate_parts) (simp add: snap_action_def)
  moreover have "revalidate_action sample_hash pair_action = Inr pair_action"
    by (simp add: revalidate_action_def revalidate_parts pair_action_valid) (simp add: pair_action_def revalidate_parts)
  moreover have "revalidate_action sample_hash replay_action = Inr replay_action"
    by (simp add: revalidate_action_def revalidate_parts)
  ultimately show ?thesis by (simp add: revalidate_grammar_def id_grammar_valid)
qed

lemma sample_search_revalidated: "revalidate_inputs sample_hash (sample_search answer) = Inr ()"
  by (simp add: revalidate_inputs_def sample_state_revalidated sample_grammar_revalidated sample_policy_valid
      sample_config_valid sample_binding_valid)

lemma sample_search_valid: "valid_search (sample_hash, sample_search answer)"
  by (simp add: sample_search_revalidated hex_digest_sample)

text \<open>An oracle that answers every transition from the two harmless states as \<open>admits\<close> says.\<close>

definition answers_as :: "local_oracle \<Rightarrow> (future_action \<Rightarrow> bool) \<Rightarrow> bool" where
  "answers_as f admits \<longleftrightarrow> (\<forall>s \<in> {id_state, snap_state}. \<forall>a \<in> set (gm_actions id_grammar). \<forall>s'.
     apply_future_action sample_hash s a id_grammar = Inr s' \<longrightarrow>
     (\<exists>d. invoke_local_oracle sample_hash f s a = Some d \<and> od_admissible d = admits a))"

lemma answers_asD:
  assumes "answers_as f admits" and "s \<in> {id_state, snap_state}" and "a \<in> set (gm_actions id_grammar)"
    and "apply_future_action sample_hash s a id_grammar = Inr s'"
  obtains d where "invoke_local_oracle sample_hash f s a = Some d" "od_admissible d = admits a"
  using assms unfolding answers_as_def by blast

lemma answer_digest: "invoke_local_oracle H f s a = Some d \<Longrightarrow> is_sha256 (od_decision_sha256 d)"
  by (auto simp: invoke_local_oracle_def validate_decision_def split: option.splits sum.splits if_splits)

lemma sample_oracle_answers_as: "answers_as (sample_oracle admits) admits"
  unfolding answers_as_def
proof (intro ballI allI impI)
  fix s a s'
  assume s: "s \<in> {id_state, snap_state}" and a: "a \<in> set (gm_actions id_grammar)"
  have "is_sha256 (ds_state_sha256 s)" using s id_state_valid snap_state_valid by (auto simp: validate_state_def)
  moreover have "is_sha256 (fa_action_sha256 a)"
    using valid_searchD(5) [OF sample_search_valid, of a "sample_oracle admits"] a by (auto dest: validate_action_Inr(3))
  ultimately show "\<exists>d. invoke_local_oracle sample_hash (sample_oracle admits) s a = Some d \<and> od_admissible d = admits a"
    by (simp add: sample_oracle_answers)
qed

lemma id_initial: "cx_initial_state_sha256 id_context = ds_state_sha256 id_state"
  by (simp add: id_context_def id_fields_def id_state_def)

lemma sample_initial_path: "initial_temporal_path sample_hash id_state id_grammar = Inr (Some empty_path)"
proof -
  have "historical_sensitive id_state \<lparr>gm_context = id_fields, gm_actions = [], gm_grammar_sha256 = zero_sha256\<rparr> = False"
    "semantic_is_sensitive id_release = False" "build_temporal_path_context sample_hash [] = Inr empty_path" by code_simp+
  then show ?thesis by (simp add: initial_temporal_path_def historical_sensitive_def id_context_def) (simp add: id_fields_def)
qed

lemma sample_check:
  "check_prospective_privacy sample_hash id_state id_grammar sample_policy (Some sample_binding) answer (Some sample_config)
    = run_search sample_hash (sample_search answer) (Some empty_path)"
  using sample_search_revalidated [of answer]
  by (simp add: check_prospective_privacy_def Let_def sample_initial_path id_initial sample_search_def)

section \<open>Evaluations\<close>

lemma harmless_predicates:
  assumes "list_all (\<lambda>a. at_category a \<noteq> Some SENSITIVE_ATTRIBUTE) (ds_released_atoms s)"
    and "ds_governance_commitment_sha256 s = zero_sha256"
  shows "\<not> predicate_holds s k (Some sample_binding) (Some empty_path) p"
proof -
  have "a \<in> set (ds_released_atoms s) \<Longrightarrow> at_category a \<noteq> Some SENSITIVE_ATTRIBUTE" for a
    using assms(1) by (simp add: list_all_iff)
  then show ?thesis
    using assms(2) by (cases p) (auto simp: same_release_linked_def cross_release_linked_def small_cohort_def
        linkable_outputs_def revealing_outputs_def governance_untrusted_def)
qed

lemma small_list:
  assumes "length atoms \<le> 15"
  shows "small_releases atoms"
  unfolding small_releases_def
proof
  fix r
  have "card (at_atom_sha256 ` {a \<in> set atoms. at_release_semantic_sha256 a = Some r \<and> at_kind a = COLUMN_EXPOSURE})
      \<le> card (set atoms)"
    by (rule le_trans [OF card_image_le card_mono]) auto
  also have "\<dots> \<le> length atoms" by (rule card_length)
  finally show "card (at_atom_sha256 ` {a \<in> set atoms. at_release_semantic_sha256 a = Some r
      \<and> at_kind a = COLUMN_EXPOSURE}) \<le> 15" using assms by simp
qed

lemma sample_evaluates:
  assumes "is_sha256 (ds_state_sha256 s)" and "list_all (\<lambda>a. validate_atom sample_hash a = Inr a) (ds_released_atoms s)"
    and "length (ds_released_atoms s) \<le> 15" and "valid_path sample_hash path"
  obtains e where "evaluate_forbidden_state sample_hash s sample_policy (Some sample_binding) (Some path) = Inr e"
    "se_forbidden e \<longleftrightarrow> (\<exists>p. predicate_holds s 5 (Some sample_binding) (Some path) p)"
    "se_indeterminate_predicates e = []"
proof -
  have v: "valid_atoms sample_hash (ds_released_atoms s)" using assms(2) by (simp add: valid_atoms_def list_all_iff)
  obtain e where e: "evaluate_forbidden_state sample_hash s sample_policy (Some sample_binding) (Some path) = Inr e"
    using evaluate_total [OF hex_digest_sample assms(1) v small_list [OF assms(3)], of "Some path" sample_policy "Some sample_binding"]
      assms(4) sample_policy_valid sample_binding_valid by auto
  from evaluate_summary(2,3) [OF e valid_atoms_minimums [OF v]] e show thesis by (intro that) simp_all
qed

lemma harmless_evaluation:
  assumes "s \<in> {id_state, snap_state}"
  obtains e where "evaluate_forbidden_state sample_hash s sample_policy (Some sample_binding) (Some empty_path) = Inr e"
    "\<not> se_forbidden e" "se_indeterminate_predicates e = []"
proof -
  have atoms: "ds_released_atoms s = id_atoms" using assms by auto
  have sha: "is_sha256 (ds_state_sha256 s)" using assms id_state_valid snap_state_valid by (auto simp: validate_state_def)
  have "ds_governance_commitment_sha256 s = zero_sha256" using assms by (auto simp: id_state_def snap_state_def)
  moreover have "list_all (\<lambda>a. at_category a \<noteq> Some SENSITIVE_ATTRIBUTE) id_atoms" by code_simp
  ultimately have harmless: "\<not> predicate_holds s k (Some sample_binding) (Some empty_path) p" for k p
    using harmless_predicates [of s k p] atoms by simp
  have "list_all (\<lambda>a. validate_atom sample_hash a = Inr a) (ds_released_atoms s)" "length (ds_released_atoms s) \<le> 15"
    using id_atoms_valid by (simp_all add: atoms id_atoms_def Let_def)
  from sample_evaluates [OF sha this empty_path_valid] harmless show thesis by (metis that)
qed

lemma pair_linked: "predicate_holds pair_state k b t F1_DIRECT_SENSITIVE_LINKAGE"
proof -
  have "pair_atoms ! 2 \<in> set (linkable_outputs both_atoms)" "pair_atoms ! 1 \<in> set (linkable_outputs both_atoms)"
    and "at_category (pair_atoms ! 2) = Some DIRECT_IDENTIFIER \<and> at_category (pair_atoms ! 1) = Some SENSITIVE_ATTRIBUTE
      \<and> at_release_semantic_sha256 (pair_atoms ! 2) \<noteq> None
      \<and> at_release_semantic_sha256 (pair_atoms ! 2) = at_release_semantic_sha256 (pair_atoms ! 1)"
    by code_simp+
  then show ?thesis unfolding predicate_holds.simps same_release_linked_def pair_state_fields by blast
qed

text \<open>One action of the initial node: denied by the oracle, or the visit of its child.\<close>

definition root_node :: search_node where
  "root_node = \<lparr>sn_state = id_state, sn_depth = 0, sn_steps = [], sn_temporal = empty_path\<rparr>"

lemma root_denied:
  assumes "answers_as f admits" and "apply_future_action sample_hash id_state a id_grammar = Inr s'" and "\<not> admits a"
    and "a \<in> set (gm_actions id_grammar)"
  shows "\<exists>lp'. search_action sample_hash (sample_search f) root_node a lp = Inr (Continue lp')
    \<and> lp_queue lp' = lp_queue lp \<and> lp_seen lp' = lp_seen lp"
proof -
  obtain d where "invoke_local_oracle sample_hash f id_state a = Some d" "od_admissible d = admits a"
    by (rule answers_asD [OF assms(1) _ assms(4,2)]) simp
  with assms(2,3) show ?thesis by (simp add: search_action_def root_node_def Let_def consult_oracle_def)
qed

lemma root_admitted:
  assumes "answers_as f admits" and "apply_future_action sample_hash id_state a id_grammar = Inr s'" and "admits a"
    and "a \<in> set (gm_actions id_grammar)" and "extend_temporal_path sample_hash empty_path a s' (Suc 0) = Inr (Some path)"
  shows "\<exists>lp' st. search_action sample_hash (sample_search f) root_node a lp
      = visit_child sample_hash (sample_search f) \<lparr>sn_state = s', sn_depth = Suc 0, sn_steps = [st], sn_temporal = path\<rparr> lp'
    \<and> lp_queue lp' = lp_queue lp \<and> lp_seen lp' = lp_seen lp"
proof -
  obtain d where d: "invoke_local_oracle sample_hash f id_state a = Some d" "od_admissible d = admits a"
    by (rule answers_asD [OF assms(1) _ assms(4,2)]) simp
  have sha: "is_sha256 (ds_state_sha256 id_state)" "is_sha256 (ds_state_sha256 s')"
    using id_state_valid transition_facts [OF assms(2)] by (auto simp: validate_state_def)
  have act: "is_sha256 (fa_action_sha256 a)"
    using valid_searchD(5) [OF sample_search_valid, of a f] assms(4) by (auto dest: validate_action_Inr(3))
  from build_step_returns [OF hex_digest_sample, of 0, OF _ _ sha(1) act answer_digest [OF d(1)] sha(2)]
  obtain st where "build_counterexample_step sample_hash 0 (ds_state_sha256 id_state) (fa_action_sha256 a)
      (od_decision_sha256 d) (ds_state_sha256 s') = Inr st" by auto
  with d assms(2,3,5) show ?thesis
    by (simp add: search_action_def root_node_def Let_def consult_oracle_def search_child_def)
      (intro exI conjI, rule refl, simp_all)
qed

lemma visit_new:
  assumes "search_node_key H (sn_state child) (sn_temporal child) \<notin> set (lp_seen lp)"
    and "int (length (lp_seen lp)) < pc_max_states (si_config i)" and "\<not> int (sn_depth child) < pc_bound (si_config i)"
    and "evaluate_forbidden_state H (sn_state child) (si_policy i) (si_binding i) (Some (sn_temporal child)) = Inr e"
    and "\<not> se_forbidden e" "se_indeterminate_predicates e = []"
  shows "\<exists>lp'. visit_child H i child lp = Inr (Continue lp') \<and> lp_queue lp' = lp_queue lp
    \<and> lp_seen lp' = lp_seen lp @ [search_node_key H (sn_state child) (sn_temporal child)]"
  using assms by (simp add: visit_child_def Let_def evaluate_state_def)

lemma visit_again:
  assumes "search_node_key H (sn_state child) (sn_temporal child) \<in> set (lp_seen lp)"
  shows "\<exists>lp'. visit_child H i child lp = Inr (Continue lp') \<and> lp_queue lp' = lp_queue lp \<and> lp_seen lp' = lp_seen lp"
  using assms by (simp add: visit_child_def Let_def)

lemma visit_forbidden:
  assumes "search_node_key H (sn_state child) (sn_temporal child) \<notin> set (lp_seen lp)"
    and "int (length (lp_seen lp)) < pc_max_states (si_config i)"
    and "evaluate_forbidden_state H (sn_state child) (si_policy i) (si_binding i) (Some (sn_temporal child)) = Inr e"
    and "se_forbidden e"
  shows "\<exists>lp'. visit_child H i child lp = returning (unsafe_result H i lp' (sn_steps child) (sn_state child) e)"
  using assms by (auto simp: visit_child_def Let_def evaluate_state_def)

lemma sample_paths:
  "extend_temporal_path sample_hash empty_path snap_action s (Suc 0) = Inr (Some empty_path)"
  "extend_temporal_path sample_hash empty_path replay_action s (Suc 0) = Inr (Some empty_path)"
proof -
  have "semantic_is_sensitive id_release = False" by code_simp
  then show "extend_temporal_path sample_hash empty_path replay_action s (Suc 0) = Inr (Some empty_path)"
    by (simp add: extend_temporal_path_def)
qed (simp add: extend_temporal_path_def)

lemma pair_path:
  obtains path where "extend_temporal_path sample_hash empty_path pair_action pair_state (Suc 0) = Inr (Some path)"
    "valid_path sample_hash path"
proof -
  have sensitive: "semantic_is_sensitive pair_release = True" by code_simp
  have start: "path_upto sample_hash 0 empty_path" by (rule initial_path_upto [OF sample_initial_path])
  have "is_sha256 (sr_semantic_sha256 pair_release)" using revalidate_parts(2) by (auto simp: validate_release_def release_checks_def)
  from observed_total [OF hex_digest_sample _ this sample_digests(1) start] obtain ob q where
    q: "build_temporal_release_observation sample_hash (int (Suc 0)) (sr_semantic_sha256 pair_release) (Some zero_sha256) True = Inr ob"
      "build_temporal_path_context sample_hash (tp_observations empty_path @ [ob]) = Inr q" by auto
  from observed_path(1) [OF q start] have "valid_path sample_hash q" by (simp add: path_upto_def)
  with q sensitive show thesis by (intro that [of q]) (simp_all add: extend_temporal_path_def)
qed

text \<open>The first node of a search is the initial state; all three answers start there.\<close>

lemma sample_run:
  obtains lp where "lp_queue lp = []" "lp_seen lp = [search_node_key sample_hash id_state empty_path]"
    "run_search sample_hash (sample_search answer) (Some empty_path)
      = (case search_actions sample_hash (sample_search answer) root_node [snap_action, pair_action, replay_action] lp of
           Inl e \<Rightarrow> Inl e
         | Inr (Return r) \<Rightarrow> Inr r
         | Inr (Continue lp') \<Rightarrow> search_loop sample_hash (sample_search answer) lp')"
proof -
  obtain e where e: "evaluate_forbidden_state sample_hash id_state sample_policy (Some sample_binding) (Some empty_path) = Inr e"
    "\<not> se_forbidden e" "se_indeterminate_predicates e = []" using harmless_evaluation [of id_state] by auto
  show thesis
    by (rule that [of "tally (\<lambda>c. c\<lparr>nc_expanded := nc_expanded c + 1\<rparr>) (log_event sample_hash (evaluation_event ''INITIAL_EVALUATION'' e 0)
          \<lparr>lp_queue = [], lp_seen = [search_node_key sample_hash id_state empty_path], lp_counters = initial_counters,
           lp_transcript = transcript_start sample_hash (sample_search answer)\<rparr>)"])
      (use e in \<open>simp_all add: run_search_def Let_def evaluate_state_def search_loop.simps expand_node_def root_node_def
        log_event_def tally_def\<close>)
qed

section \<open>Three searches\<close>

lemma sample_returns: "\<exists>r. run_search sample_hash (sample_search answer) (Some empty_path) = Inr r"
  by (rule run_search_returns [OF sample_search_valid]) (simp add: sample_initial_path)

lemma new_keys:
  "search_node_key sample_hash snap_state p \<noteq> search_node_key sample_hash id_state q"
  "search_node_key sample_hash pair_state p \<noteq> search_node_key sample_hash id_state q"
  "search_node_key sample_hash pair_state p \<noteq> search_node_key sample_hash snap_state q"
  by (simp_all add: search_node_key_def snap_state_def id_state_def)

definition no_projection :: "future_action \<Rightarrow> bool" where
  "no_projection a \<longleftrightarrow> fa_kind a \<noteq> ADD_PROJECTION"

lemma snap_visited:
  assumes "answers_as f admits" and "admits snap_action" and "lp_seen lp = [search_node_key sample_hash id_state empty_path]"
  shows "\<exists>lp'. search_action sample_hash (sample_search f) root_node snap_action lp = Inr (Continue lp')
    \<and> lp_queue lp' = lp_queue lp \<and> lp_seen lp' = [search_node_key sample_hash id_state empty_path, search_node_key sample_hash snap_state empty_path]"
proof -
  obtain lp1 st where s: "search_action sample_hash (sample_search f) root_node snap_action lp
      = visit_child sample_hash (sample_search f)
          \<lparr>sn_state = snap_state, sn_depth = Suc 0, sn_steps = [st], sn_temporal = empty_path\<rparr> lp1"
    "lp_queue lp1 = lp_queue lp" "lp_seen lp1 = lp_seen lp"
    using root_admitted [where admits = admits, OF assms(1) sample_transitions(1) assms(2) _ sample_paths(1), of lp] by auto
  obtain e where e: "evaluate_forbidden_state sample_hash snap_state sample_policy (Some sample_binding) (Some empty_path) = Inr e"
    "\<not> se_forbidden e" "se_indeterminate_predicates e = []" using harmless_evaluation [of snap_state] by auto
  have "\<exists>lp'. visit_child sample_hash (sample_search f)
        \<lparr>sn_state = snap_state, sn_depth = Suc 0, sn_steps = [st], sn_temporal = empty_path\<rparr> lp1 = Inr (Continue lp')
      \<and> lp_queue lp' = lp_queue lp1 \<and> lp_seen lp' = lp_seen lp1 @ [search_node_key sample_hash snap_state empty_path]"
    using visit_new [of sample_hash "\<lparr>sn_state = snap_state, sn_depth = Suc 0, sn_steps = [st], sn_temporal = empty_path\<rparr>" lp1
        "sample_search f" e] e s(3) assms(3) new_keys(1) by simp
  with s assms(3) show ?thesis by simp
qed

lemma safe_sample:
  assumes "answers_as f no_projection"
  shows "\<exists>r. run_search sample_hash (sample_search f) (Some empty_path) = Inr r \<and> pr_status r = NO_COUNTEREXAMPLE_WITHIN_BOUND"
proof -
  let ?i = "sample_search f"
  have admits: "no_projection snap_action" "no_projection replay_action" "\<not> no_projection pair_action"
    by (simp_all add: no_projection_def)
  obtain lp where lp: "lp_queue lp = []" "lp_seen lp = [search_node_key sample_hash id_state empty_path]"
    "run_search sample_hash ?i (Some empty_path)
      = (case search_actions sample_hash ?i root_node [snap_action, pair_action, replay_action] lp of
           Inl e \<Rightarrow> Inl e
         | Inr (Return r) \<Rightarrow> Inr r
         | Inr (Continue lp') \<Rightarrow> search_loop sample_hash ?i lp')" by (rule sample_run)
  obtain lp1 where one: "search_action sample_hash ?i root_node snap_action lp = Inr (Continue lp1)" "lp_queue lp1 = []"
    "lp_seen lp1 = [search_node_key sample_hash id_state empty_path, search_node_key sample_hash snap_state empty_path]"
    using snap_visited [where admits = no_projection, OF assms admits(1) lp(2)] lp(1) by auto
  obtain lp2 where two: "search_action sample_hash ?i root_node pair_action lp1 = Inr (Continue lp2)" "lp_queue lp2 = []"
    "lp_seen lp2 = lp_seen lp1" using root_denied [where admits = no_projection, OF assms pair_transition admits(3), of lp1] one(2) by auto
  obtain lp3 st where three: "search_action sample_hash ?i root_node replay_action lp2
      = visit_child sample_hash ?i \<lparr>sn_state = id_state, sn_depth = Suc 0, sn_steps = [st], sn_temporal = empty_path\<rparr> lp3"
    "lp_queue lp3 = lp_queue lp2" "lp_seen lp3 = lp_seen lp2"
    using root_admitted [where admits = no_projection, OF assms sample_transitions(2) admits(2) _ sample_paths(2), of lp2] by auto
  obtain lp4 where four: "search_action sample_hash ?i root_node replay_action lp2 = Inr (Continue lp4)" "lp_queue lp4 = []"
    using visit_again [of sample_hash "\<lparr>sn_state = id_state, sn_depth = Suc 0, sn_steps = [st], sn_temporal = empty_path\<rparr>" lp3 ?i]
      three one(3) two(2,3) by auto
  from one(1) two(1) four(1) have "search_actions sample_hash ?i root_node [snap_action, pair_action, replay_action] lp
      = Inr (Continue lp4)" by simp
  with lp(3) have "run_search sample_hash ?i (Some empty_path) = search_loop sample_hash ?i lp4"
    by (simp only: sum.case progress.case)
  with four(2) have run: "run_search sample_hash ?i (Some empty_path) = safe_result sample_hash ?i lp4"
    by (simp add: search_loop.simps)
  with sample_returns [of f] obtain r where r: "safe_result sample_hash ?i lp4 = Inr r" by auto
  with run search_result_Inr(1) [OF r [unfolded safe_result_def]] show ?thesis by auto
qed

lemma unsafe_sample:
  "\<exists>r. run_search sample_hash (sample_search (sample_oracle (\<lambda>_. True))) (Some empty_path) = Inr r
     \<and> pr_status r = PROSPECTIVE_UNSAFE"
proof -
  let ?i = "sample_search (sample_oracle (\<lambda>_. True))"
  obtain lp where lp: "lp_queue lp = []" "lp_seen lp = [search_node_key sample_hash id_state empty_path]"
    "run_search sample_hash ?i (Some empty_path)
      = (case search_actions sample_hash ?i root_node [snap_action, pair_action, replay_action] lp of
           Inl e \<Rightarrow> Inl e
         | Inr (Return r) \<Rightarrow> Inr r
         | Inr (Continue lp') \<Rightarrow> search_loop sample_hash ?i lp')" by (rule sample_run)
  obtain lp1 where one: "search_action sample_hash ?i root_node snap_action lp = Inr (Continue lp1)" "lp_queue lp1 = []"
    "lp_seen lp1 = [search_node_key sample_hash id_state empty_path, search_node_key sample_hash snap_state empty_path]"
    using snap_visited [where admits = "\<lambda>_. True", OF sample_oracle_answers_as TrueI lp(2)] lp(1) by auto
  obtain path where path: "extend_temporal_path sample_hash empty_path pair_action pair_state (Suc 0) = Inr (Some path)"
    "valid_path sample_hash path" by (rule pair_path)
  obtain lp2 st where two: "search_action sample_hash ?i root_node pair_action lp1
      = visit_child sample_hash ?i \<lparr>sn_state = pair_state, sn_depth = Suc 0, sn_steps = [st], sn_temporal = path\<rparr> lp2"
    "lp_seen lp2 = lp_seen lp1"
    using root_admitted [where admits = "\<lambda>_. True", OF sample_oracle_answers_as pair_transition TrueI _ path(1), of lp1] by auto
  have "length both_atoms \<le> 15" by (simp add: both_atoms_def)
  then obtain e where e: "evaluate_forbidden_state sample_hash pair_state sample_policy (Some sample_binding) (Some path) = Inr e"
    "se_forbidden e" using sample_evaluates [OF _ _ _ path(2), of pair_state] pair_atoms_valid pair_shas(6) pair_linked
    by (metis pair_state_fields(1,4))
  obtain lp3 where three: "search_action sample_hash ?i root_node pair_action lp1
      = returning (unsafe_result sample_hash ?i lp3 [st] pair_state e)"
    using visit_forbidden [of sample_hash "\<lparr>sn_state = pair_state, sn_depth = Suc 0, sn_steps = [st], sn_temporal = path\<rparr>" lp2 ?i e]
      two one(3) new_keys e by auto
  from sample_returns obtain r where r: "run_search sample_hash ?i (Some empty_path) = Inr r" by blast
  with lp(3) one(1) three have ret: "unsafe_result sample_hash ?i lp3 [st] pair_state e = Inr r"
    by (cases "unsafe_result sample_hash ?i lp3 [st] pair_state e") (simp_all add: returning_def)
  then have "pr_status r = PROSPECTIVE_UNSAFE"
    by (auto simp: unsafe_result_def dest: search_result_Inr(1))
  with r show ?thesis by blast
qed

text \<open>An oracle that raises on every call.\<close>

lemma silent_sample:
  "\<exists>r. run_search sample_hash (sample_search (\<lambda>_ _. None)) (Some empty_path) = Inr r
     \<and> pr_status r = FAIL_CLOSED \<and> pr_failure_reason r = Some LOCAL_ORACLE_FAILURE"
proof -
  let ?i = "sample_search (\<lambda>_ _. None)"
  obtain lp where lp: "run_search sample_hash ?i (Some empty_path)
      = (case search_actions sample_hash ?i root_node [snap_action, pair_action, replay_action] lp of
           Inl e \<Rightarrow> Inl e
         | Inr (Return r) \<Rightarrow> Inr r
         | Inr (Continue lp') \<Rightarrow> search_loop sample_hash ?i lp')" by (rule sample_run)
  obtain lp1 where one: "search_action sample_hash ?i root_node snap_action lp
      = returning (fail_closed sample_hash ?i lp1 LOCAL_ORACLE_FAILURE)"
    using sample_transitions(1)
    by (simp add: search_action_def root_node_def consult_oracle_def invoke_local_oracle_def Let_def)
  from sample_returns obtain r where r: "run_search sample_hash ?i (Some empty_path) = Inr r" by blast
  with lp one have ret: "fail_closed sample_hash ?i lp1 LOCAL_ORACLE_FAILURE = Inr r"
    by (cases "fail_closed sample_hash ?i lp1 LOCAL_ORACLE_FAILURE") (simp_all add: returning_def)
  from search_result_Inr(1,2) [OF ret [unfolded fail_closed_def]] r show ?thesis by blast
qed

section \<open>What the safe search can reach\<close>

lemma safe_reach:
  assumes "answers_as f no_projection" and "reach (sample_hash, sample_search f) x"
  shows "\<exists>n s. x = (n, s, Some empty_path) \<and> s \<in> {id_state, snap_state}"
  using assms(2)
proof (induction rule: explored.induct)
  case (at_start x)
  then show ?case by (cases x) (simp add: sample_initial_path)
next
  case (by_step x y)
  then obtain n s where x: "x = (n, s, Some empty_path)" "s \<in> {id_state, snap_state}" by blast
  obtain m s' t' where y: "y = (m, s', t')" by (cases y)
  from by_step(2) x y obtain a d where a: "admitted sample_hash (sample_search f) s a d s'"
    "extend_temporal_path sample_hash empty_path a s' (Suc n) = Inr t'" by auto
  from a(1) have step: "a \<in> set (gm_actions id_grammar)" "apply_future_action sample_hash s a id_grammar = Inr s'"
    by (simp_all add: admitted_def)
  from a(1) have "no_projection a" by (rule_tac answers_asD [OF assms(1) x(2) step]) (simp add: admitted_def)
  with a(1) consider (snap) "a = snap_action" | (replay) "a = replay_action" by (auto simp: admitted_def no_projection_def)
  then have "t' = Some empty_path \<and> s' \<in> {id_state, snap_state}"
  proof cases
    case snap
    from a(1) x(2) sample_transitions(1,4) have "s' = snap_state" by (auto simp: admitted_def snap)
    with a(2) snap show ?thesis by (simp add: extend_temporal_path_def)
  next
    case replay
    have "semantic_is_sensitive id_release = False" by code_simp
    moreover from a(1) x(2) sample_transitions(2,3) have "s' \<in> {id_state, snap_state}" by (auto simp: admitted_def replay)
    ultimately show ?thesis using a(2) replay by (simp add: extend_temporal_path_def)
  qed
  with y show ?case by simp
qed

lemma safe_faithful: "answers_as f no_projection \<Longrightarrow> faithful_keys (sample_hash, sample_search f)"
  unfolding faithful_keys.simps using safe_reach [of f] new_keys(1) by (metis insertE old.prod.inject option.inject singletonD)

lemma safe_reaches_snap:
  assumes "answers_as f no_projection"
  shows "reach (sample_hash, sample_search f) (1, snap_state, Some empty_path)"
proof -
  let ?E = "(sample_hash, sample_search f)"
  have start: "reach ?E (0, id_state, Some empty_path)" by (rule explored.at_start) (simp add: sample_initial_path)
  obtain d where "invoke_local_oracle sample_hash f id_state snap_action = Some d" "od_admissible d = no_projection snap_action"
    by (rule answers_asD [OF assms _ _ sample_transitions(1)]) simp_all
  with sample_transitions(1) have "admitted sample_hash (sample_search f) id_state snap_action d snap_state"
    by (simp add: admitted_def no_projection_def)
  with sample_paths(1) have "point_step ?E (0, id_state, Some empty_path) (1, snap_state, Some empty_path)" by auto
  with start show ?thesis by (rule explored.by_step)
qed

end
