(* ===== verification/Search_Theorems.thy ===== *)
theory Search_Theorems
  imports Search_Samples
begin

text \<open>
  The properties of \<open>check_prospective_privacy\<close>: what each of its three statuses says about the
  points the search can reach, that it returns a result for every revalidated input, and samples
  on which the search answers each way.
\<close>

section \<open>From the entry point to the loop\<close>

lemma check_Inr:
  assumes "check_prospective_privacy H (si_initial_state i) (si_grammar i) (si_policy i) (si_binding i) (si_oracle i)
      (Some (si_config i)) = Inr r"
  shows "revalidate_inputs H i = Inr ()"
    and "\<exists>t. initial_temporal_path H (si_initial_state i) (si_grammar i) = Inr t \<and> run_search H i t = Inr r"
  using assms by (cases i, auto simp: check_prospective_privacy_def Let_def split: if_splits)+

lemma check_outcome:
  assumes "check_prospective_privacy H (si_initial_state i) (si_grammar i) (si_policy i) (si_binding i) (si_oracle i)
      (Some (si_config i)) = Inr r"
  shows "outcome H i r"
proof -
  note c = check_Inr [OF assms]
  from c(1) have "0 \<le> pc_bound (si_config i)" by (auto simp: revalidate_inputs_def validate_config_def)
  with c(2) run_search_outcome show ?thesis by blast
qed

lemma check_valid:
  assumes "check_prospective_privacy H (si_initial_state i) (si_grammar i) (si_policy i) (si_binding i) (si_oracle i)
      (Some (si_config i)) = Inr r" and "\<forall>text. is_sha256 (H text)"
  shows "valid_search (H, i)"
  using check_Inr(1) [OF assms(1)] assms(2) by (simp add: hex_digest_def)

section \<open>What each status means\<close>

text \<open>C5: unsafe_replays. A PROSPECTIVE_UNSAFE result carries a counterexample whose steps replay
  through the code's own functions: from the initial state, each step takes a grammar action that
  the transition function accepts and the local oracle admits, its hashes commit to the states, the
  action and the decision, and the last state is evaluated forbidden with the evaluation and the
  predicates the trace names, within the bound. When keys identify states, no counterexample is
  shorter: every point reachable in fewer steps is evaluated, with nothing forbidden.\<close>

theorem unsafe_replays:
  assumes "check_prospective_privacy H (si_initial_state i) (si_grammar i) (si_policy i) (si_binding i) (si_oracle i)
      (Some (si_config i)) = Inr r" and "pr_status r = PROSPECTIVE_UNSAFE"
  shows "\<exists>trace s t e. pr_counterexample r = Some trace \<and> replays H i (ct_steps trace) (length (ct_steps trace), s, t)
     \<and> int (length (ct_steps trace)) \<le> pc_bound (si_config i)
     \<and> evaluate_forbidden_state H s (si_policy i) (si_binding i) t = Inr e \<and> se_forbidden e
     \<and> ct_terminal_state_sha256 trace = ds_state_sha256 s \<and> ct_terminal_forbidden_evaluation_sha256 trace = se_evaluation_sha256 e
     \<and> ct_terminal_matched_predicates trace = canonical_predicates (se_matched_predicates e)
     \<and> ((\<forall>text. is_sha256 (H text)) \<and> faithful_keys (H, i) \<longrightarrow>
          (\<forall>m s' t'. reach (H, i) (m, s', t') \<and> m < length (ct_steps trace) \<longrightarrow> proved_safe (H, i) (m, s', t')))"
proof -
  from check_outcome [OF assms(1)] assms(2) have "unsafe_outcome H i r" by (simp add: outcome_def)
  then obtain trace n s t e where u: "pr_counterexample r = Some trace" "replays H i (ct_steps trace) (n, s, t)"
    "int n \<le> pc_bound (si_config i)" "evaluate_forbidden_state H s (si_policy i) (si_binding i) t = Inr e" "se_forbidden e"
    "ct_terminal_state_sha256 trace = ds_state_sha256 s" "ct_terminal_forbidden_evaluation_sha256 trace = se_evaluation_sha256 e"
    "ct_terminal_matched_predicates trace = canonical_predicates (se_matched_predicates e)"
    and least: "valid_search (H, i) \<longrightarrow> faithful_keys (H, i) \<longrightarrow> (\<forall>k < n. safe_upto H i k)"
    unfolding unsafe_outcome_def by blast
  from replays_reach [OF u(2)] have n: "n = length (ct_steps trace)" by simp
  have "proved_safe (H, i) (m, s', t')"
    if "\<forall>text. is_sha256 (H text)" "faithful_keys (H, i)" "reach (H, i) (m, s', t')" "m < n" for m s' t'
    using least check_valid [OF assms(1) that(1)] that unfolding safe_upto_def by blast
  with u n show ?thesis by blast
qed

lemma unsafe_replays_witness:
  "\<exists>r trace s t. check_prospective_privacy sample_hash id_state id_grammar sample_policy (Some sample_binding)
       (sample_oracle (\<lambda>_. True)) (Some sample_config) = Inr r
     \<and> pr_counterexample r = Some trace \<and> length (ct_steps trace) \<le> 1
     \<and> replays sample_hash (sample_search (sample_oracle (\<lambda>_. True))) (ct_steps trace) (length (ct_steps trace), s, t)"
proof -
  let ?i = "sample_search (sample_oracle (\<lambda>_. True))"
  obtain r where r: "check_prospective_privacy sample_hash (si_initial_state ?i) (si_grammar ?i) (si_policy ?i) (si_binding ?i)
      (si_oracle ?i) (Some (si_config ?i)) = Inr r" "pr_status r = PROSPECTIVE_UNSAFE"
    using unsafe_sample sample_check by auto
  from unsafe_replays [OF r] r(1) show ?thesis by auto
qed

text \<open>C6: safe_exhaustive. A NO_COUNTEREXAMPLE_WITHIN_BOUND result of revalidated inputs, under a hash with hex digests
  and keys that identify states, is exhaustive: every point the admitted actions reach within the
  bound is evaluated with no forbidden and no indeterminate predicate, and below the bound every
  grammar action was either rejected by the transition function or answered by the oracle. No
  point was lost to deduplication, to the state budget or to an error.\<close>

theorem safe_exhaustive:
  assumes "check_prospective_privacy H (si_initial_state i) (si_grammar i) (si_policy i) (si_binding i) (si_oracle i)
      (Some (si_config i)) = Inr r" and "pr_status r = NO_COUNTEREXAMPLE_WITHIN_BOUND"
    and "\<forall>text. is_sha256 (H text)" and "faithful_keys (H, i)"
    and "reach (H, i) (n, s, t)" and "int n \<le> pc_bound (si_config i)"
  shows "(\<exists>e. evaluate_forbidden_state H s (si_policy i) (si_binding i) t = Inr e \<and> \<not> se_forbidden e
        \<and> se_indeterminate_predicates e = [])
    \<and> (\<forall>a \<in> set (gm_actions (si_grammar i)). int n < pc_bound (si_config i) \<longrightarrow>
        (\<exists>m. apply_future_action H s a (si_grammar i) = Inl (FutureActionTransitionError m))
        \<or> (\<exists>s' d. apply_future_action H s a (si_grammar i) = Inr s' \<and> invoke_local_oracle H (si_oracle i) s a = Some d))"
proof -
  have "outcome H i r" by (rule check_outcome [OF assms(1)])
  then have "valid_search (H, i) \<longrightarrow> faithful_keys (H, i) \<longrightarrow> safe_upto H i (search_bound (H, i))"
    unfolding outcome_def assms(2) ppmc_status.case by (rule conjunct2)
  with check_valid [OF assms(1,3)] assms(4) have "safe_upto H i (nat (pc_bound (si_config i)))"
    unfolding search_bound.simps by blast
  moreover have "n \<le> nat (pc_bound (si_config i))"
    and "int n < pc_bound (si_config i) \<Longrightarrow> n < nat (pc_bound (si_config i))" using assms(6) by simp_all
  ultimately show ?thesis using assms(5) unfolding safe_upto_def answered_def proved_safe.simps by blast
qed

lemma safe_exhaustive_witness:
  "\<exists>r e. check_prospective_privacy sample_hash id_state id_grammar sample_policy (Some sample_binding)
       (sample_oracle no_projection) (Some sample_config) = Inr r
     \<and> evaluate_forbidden_state sample_hash snap_state sample_policy (Some sample_binding) (Some empty_path) = Inr e
     \<and> \<not> se_forbidden e"
proof -
  let ?i = "sample_search (sample_oracle no_projection)"
  obtain r where r: "check_prospective_privacy sample_hash (si_initial_state ?i) (si_grammar ?i) (si_policy ?i) (si_binding ?i)
      (si_oracle ?i) (Some (si_config ?i)) = Inr r" "pr_status r = NO_COUNTEREXAMPLE_WITHIN_BOUND"
    using safe_sample [OF sample_oracle_answers_as] sample_check by auto
  have hex: "\<forall>text. is_sha256 (sample_hash text)" using hex_digest_sample by (simp add: hex_digest_def)
  have bound: "int 1 \<le> pc_bound (si_config ?i)" by simp
  from safe_exhaustive [OF r hex safe_faithful [OF sample_oracle_answers_as] safe_reaches_snap [OF sample_oracle_answers_as] bound] r(1) show ?thesis by auto
qed

text \<open>C23: fail_closed_truthful. A FAIL_CLOSED result names a cause that the search met: a reachable
  point within the bound whose evaluation leaves the reported predicates indeterminate, or whose
  evaluation raises; a reachable point and a grammar action on which the oracle gave no valid
  answer or the transition function raised something other than its own rejection; or a budget
  smaller than the number of distinct keys within the bound. Nothing else makes the checker fail closed.\<close>

theorem fail_closed_truthful:
  assumes "check_prospective_privacy H (si_initial_state i) (si_grammar i) (si_policy i) (si_binding i) (si_oracle i)
      (Some (si_config i)) = Inr r" and "pr_status r = FAIL_CLOSED"
  shows "case pr_failure_reason r of
       None \<Rightarrow> False
     | Some INDETERMINATE_SECURITY_PREDICATE \<Rightarrow> (\<exists>n s t e. reach (H, i) (n, s, t) \<and> int n \<le> pc_bound (si_config i)
         \<and> evaluate_forbidden_state H s (si_policy i) (si_binding i) t = Inr e \<and> \<not> se_forbidden e
         \<and> se_indeterminate_predicates e \<noteq> [] \<and> pr_indeterminate_predicates r = se_indeterminate_predicates e)
     | Some STATE_BUDGET_EXHAUSTED \<Rightarrow> pr_search_nodes_discovered r = pc_max_states (si_config i)
         \<and> (\<exists>keys. distinct keys \<and> int (length keys) = pc_max_states (si_config i) + 1
           \<and> (\<forall>k \<in> set keys. \<exists>n s p. reach (H, i) (n, s, Some p) \<and> int n \<le> pc_bound (si_config i) \<and> k = search_node_key H s p))
     | Some LOCAL_ORACLE_FAILURE \<Rightarrow> (\<exists>n s t a s'. reach (H, i) (n, s, t) \<and> int n < pc_bound (si_config i)
         \<and> a \<in> set (gm_actions (si_grammar i)) \<and> apply_future_action H s a (si_grammar i) = Inr s'
         \<and> invoke_local_oracle H (si_oracle i) s a = None)
     | Some TRANSITION_FAILURE \<Rightarrow> (\<exists>n s t a e. reach (H, i) (n, s, t) \<and> int n < pc_bound (si_config i)
         \<and> a \<in> set (gm_actions (si_grammar i)) \<and> apply_future_action H s a (si_grammar i) = Inl e
         \<and> (\<forall>m. e \<noteq> FutureActionTransitionError m))
     | Some PREDICATE_EVALUATION_FAILURE \<Rightarrow> (\<exists>n s t e. reach (H, i) (n, s, t) \<and> int n \<le> pc_bound (si_config i)
         \<and> evaluate_forbidden_state H s (si_policy i) (si_binding i) t = Inl e)"
proof -
  from check_outcome [OF assms(1)] assms(2) have "failure_outcome H i r" by (simp add: outcome_def)
  then show ?thesis unfolding failure_outcome_def .
qed

lemma fail_closed_truthful_witness:
  "\<exists>r n s t a. check_prospective_privacy sample_hash id_state id_grammar sample_policy (Some sample_binding)
       (\<lambda>_ _. None) (Some sample_config) = Inr r
     \<and> reach (sample_hash, sample_search (\<lambda>_ _. None)) (n, s, t) \<and> a \<in> set (gm_actions id_grammar)
     \<and> invoke_local_oracle sample_hash (\<lambda>_ _. None) s a = None"
proof -
  let ?i = "sample_search (\<lambda>_ _. None)"
  obtain r where r: "check_prospective_privacy sample_hash (si_initial_state ?i) (si_grammar ?i) (si_policy ?i) (si_binding ?i)
      (si_oracle ?i) (Some (si_config ?i)) = Inr r" "pr_status r = FAIL_CLOSED" "pr_failure_reason r = Some LOCAL_ORACLE_FAILURE"
    using silent_sample sample_check by auto
  from fail_closed_truthful [OF r(1,2)] obtain n s t a where f: "reach (sample_hash, ?i) (n, s, t)" "a \<in> set (gm_actions (si_grammar ?i))"
    "invoke_local_oracle sample_hash (si_oracle ?i) s a = None"
    unfolding r(3) option.case ppmc_failure.case by blast
  with r(1) show ?thesis unfolding sample_search_simps by blast
qed

text \<open>C22: check_returns. For every input that passes revalidation, under a grammar bound to the initial state
  and a hash with hex digests, the search ends and returns a result, whatever the oracle does and
  whatever the evaluation or a transition raises: no step, trace or result that it builds fails its
  own validation. The counters are consistent: the discovered nodes stay within the budget, at
  most the discovered nodes are expanded, and no action is counted twice.\<close>

theorem check_returns:
  assumes "revalidate_inputs H i = Inr ()"
    and "cx_initial_state_sha256 (gm_context (si_grammar i)) = ds_state_sha256 (si_initial_state i)"
    and "\<forall>text. is_sha256 (H text)"
  shows "\<exists>r. check_prospective_privacy H (si_initial_state i) (si_grammar i) (si_policy i) (si_binding i) (si_oracle i)
       (Some (si_config i)) = Inr r
     \<and> 1 \<le> pr_search_nodes_discovered r \<and> pr_search_nodes_discovered r \<le> pc_max_states (si_config i)
     \<and> pr_nodes_expanded r \<le> pr_search_nodes_discovered r
     \<and> pr_oracle_admissions r + pr_oracle_rejections r \<le> pr_actions_considered r"
proof -
  have valid: "valid_search (H, i)" using assms(1,3) by (simp add: hex_digest_def)
  obtain t where t: "initial_temporal_path H (si_initial_state i) (si_grammar i) = Inr t"
    using initial_path_total [OF valid] by blast
  obtain r where r: "run_search H i t = Inr r" using run_search_returns [OF valid t] by blast
  with assms(1,2) t have check: "check_prospective_privacy H (si_initial_state i) (si_grammar i) (si_policy i) (si_binding i)
      (si_oracle i) (Some (si_config i)) = Inr r"
    by (cases i) (simp add: check_prospective_privacy_def Let_def)
  with check_outcome [OF check] show ?thesis by (auto simp: outcome_def counted_def)
qed

lemma check_returns_witness:
  "\<exists>r. check_prospective_privacy sample_hash id_state id_grammar sample_policy (Some sample_binding) (\<lambda>_ _. None)
      (Some sample_config) = Inr r \<and> pr_search_nodes_discovered r \<le> 10"
proof -
  have hex: "\<forall>text. is_sha256 (sample_hash text)" using hex_digest_sample by (simp add: hex_digest_def)
  have bound: "cx_initial_state_sha256 (gm_context (si_grammar (sample_search (\<lambda>_ _. None))))
      = ds_state_sha256 (si_initial_state (sample_search (\<lambda>_ _. None)))" by (simp add: id_initial)
  from check_returns [OF sample_search_revalidated bound hex] show ?thesis by auto
qed

end
