(* ===== verification/Policy_Oracle_Theorems.thy ===== *)
theory Policy_Oracle_Theorems
  imports Policy_Oracle Search_Theorems
begin

text \<open>
  What the policy-engine oracle decides: on every state the search can reach it answers, and its
  answer is the policy engine's own decision on the reconstructed input. With this oracle the
  checker's verdict is a statement about sequences of individually allowed releases.
\<close>

section \<open>States that revalidate\<close>

lemma built_rule_consequent:
  "build_atom H b = Inr a \<Longrightarrow> build_rule H family ants a = Inr r \<Longrightarrow> validate_atom H (ru_consequent r) = Inr (ru_consequent r)"
  by (auto simp: build_atom_def validate_atom_def build_rule_def validate_rule_def Let_def)

lemma rule_consequents_valid:
  assumes "all_rules H atoms = Inr rules" and "r \<in> set rules"
  shows "validate_atom H (ru_consequent r) = Inr (ru_consequent r)"
proof -
  from assms(1) obtain ps cs vs where parts: "presence_rules H atoms = Inr ps" "coexposure_rules H atoms = Inr cs"
    "variation_rules H atoms = Inr vs" "rules = ps @ cs @ vs" by (auto simp: all_rules_def)
  from assms(2) parts(4) consider "r \<in> set ps" | "r \<in> set cs" | "r \<in> set vs" by auto
  then show ?thesis
  proof cases
    case 1
    with parts(1) show ?thesis
      by (auto simp: presence_rules_def dest!: mapr_member intro: built_rule_consequent split: option.splits)
  next
    case 2
    with parts(2) show ?thesis
      by (auto simp: coexposure_rules_def Let_def split: if_splits dest!: mapr_member intro: built_rule_consequent)
  next
    case 3
    from parts(3) obtain entries where "mapr cohort_entry (protected_cohorts atoms) = Inr entries"
      "mapr (\<lambda>family. bindr (build_atom H ((blank_atom PROTECTED_COHORT_VARIATION)\<lparr>at_release_family_sha256 := Some family\<rparr>))
         (build_rule H FAMILY_COHORT_VARIATION (map at_atom_sha256 (take 2 (cohort_representatives entries family)))))
         (filter (\<lambda>family. 2 \<le> length (cohort_representatives entries family)) (sorted_set (map fst entries))) = Inr vs"
      by (auto simp: variation_rules_def)
    from mapr_member [OF this(2) 3] show ?thesis by (auto intro: built_rule_consequent)
  qed
qed

text \<open>A validated state derives only atoms that validate, so it revalidates as soon as its scope and its
  released atoms do.\<close>

lemma state_revalidates:
  assumes "validate_state H s = Inr s" and "valid_atoms H (ds_released_atoms s)" and "validate_scope H (ds_scope s) = Inr sc"
  shows "revalidate_state H s = Inr s"
proof -
  from assms(1) obtain rules where rules: "instantiate_rules H (ds_released_atoms s) = Inr rules"
    "least_fixed_point (ds_released_atoms s) rules = Inr (ds_derived_atoms s)" by (rule validate_state_Inr)
  from rules(1) obtain all where all: "all_rules H (ds_released_atoms s) = Inr all" "rules = by_key ru_rule_sha256 all"
    by (auto simp: instantiate_rules_def Let_def split: if_splits)
  have "validate_atom H a = Inr a" if "a \<in> set (ds_derived_atoms s)" for a
    using that least_fixed_point_result(3) [OF rules(2)] set_by_key_subset [of ru_rule_sha256 all] all
      rule_consequents_valid [OF all(1)] by auto
  with assms(2) have "list_all (\<lambda>a. validate_atom H a = Inr a) (ds_released_atoms s @ ds_derived_atoms s)"
    by (auto simp: valid_atoms_def list_all_iff)
  from mapr_same [OF this] assms(1,3) show ?thesis by (simp add: revalidate_state_def)
qed

lemma reach_revalidates:
  assumes "valid_search (H, i)" and "reach (H, i) (n, s, t)"
  shows "revalidate_state H s = Inr s"
proof -
  have scope: "case x of (n, s, t) \<Rightarrow> ds_scope s = ds_scope (si_initial_state i)" if "reach (H, i) x" for x
    using that
  proof (induction rule: explored.induct)
    case (at_start x)
    then show ?case by (cases x) auto
  next
    case (by_step x y)
    then show ?case by (cases x; cases y) (auto simp: admitted_def dest!: transition_facts)
  qed
  from assms(1) have "\<exists>x. revalidate_state H (si_initial_state i) = Inr x" by (auto simp: revalidate_inputs_def)
  then obtain sc where "validate_scope H (ds_scope (si_initial_state i)) = Inr sc" by (auto simp: revalidate_state_def)
  moreover from scope [OF assms(2)] have "ds_scope s = ds_scope (si_initial_state i)" by simp
  ultimately show ?thesis using reach_valid [OF assms] by (auto intro: state_revalidates)
qed

section \<open>The bound oracle\<close>

lemma bind_policy_oracle_Inr:
  assumes "bind_policy_oracle H cfg g gov = Inr ora"
  shows "po_grammar ora = g" "po_governance ora = gov" "po_policy_config_sha256 ora = policy_config_sha256 H cfg"
    "po_actions ora = dict_of fa_action_sha256 (gm_actions g)" "length (po_oracle_version ora) \<le> 128" "po_oracle_version ora \<noteq> []"
    "\<exists>x. revalidate_grammar H g = Inr x" "\<exists>x. revalidate_oracle_governance H gov = Inr x"
proof -
  have same: "revalidate_grammar H g = Inr x \<Longrightarrow> x = g" "revalidate_oracle_governance H gov = Inr y \<Longrightarrow> y = gov" for x y
    by (auto simp: revalidate_grammar_def validate_grammar_def revalidate_oracle_governance_def validate_oracle_governance_def)
  show "po_grammar ora = g" "po_governance ora = gov" "po_policy_config_sha256 ora = policy_config_sha256 H cfg"
    "po_actions ora = dict_of fa_action_sha256 (gm_actions g)" "length (po_oracle_version ora) \<le> 128" "po_oracle_version ora \<noteq> []"
    "\<exists>x. revalidate_grammar H g = Inr x" "\<exists>x. revalidate_oracle_governance H gov = Inr x"
    using assms by (auto simp: bind_policy_oracle_def Let_def dest: same)
qed

lemma bound_action:
  assumes "bind_policy_oracle H cfg g gov = Inr ora" and "a \<in> set (gm_actions g)"
  shows "map_of (po_actions ora) (fa_action_sha256 a) = Some a" "revalidate_action H a = Inr a"
proof -
  note b = bind_policy_oracle_Inr [OF assms(1)]
  from b(7) obtain x where g: "revalidate_grammar H g = Inr x" by blast
  then have "canonical (map fa_action_sha256 (gm_actions g))"
    by (auto simp: revalidate_grammar_def validate_grammar_def)
  then have "inj_on fa_action_sha256 (set (gm_actions g))" by (auto simp: distinct_map dest: canonical_distinct)
  from map_of_dict_of_inj [OF this assms(2)] show "map_of (po_actions ora) (fa_action_sha256 a) = Some a" by (simp add: b(4))
  from g obtain acts where "mapr (revalidate_action H) (gm_actions g) = Inr acts" by (auto simp: revalidate_grammar_def)
  with assms(2) obtain y where "revalidate_action H a = Inr y"
    by (auto simp: mapr_Inr_iff list_all2_conv_all_nth in_set_conv_nth)
  then show "revalidate_action H a = Inr a" by (auto simp: revalidate_action_def dest: validate_action_Inr(1))
qed

text \<open>The oracle's test of the state is the transition function's own.\<close>

lemma state_matches_universe:
  "state_matches_grammar_context s g \<longleftrightarrow> require_state_in_model_universe s (gm_context g) = Inr ()"
  by (simp add: state_matches_grammar_context_def Let_def require_state_in_model_universe_def reachable_snapshots_def
      reachable_snapshot_nodes_def)

section \<open>Decisions that build\<close>

lemma build_decision_total:
  assumes "hex_digest H" and "version \<noteq> []" "length version \<le> 128" and "is_sha256 ss" "is_sha256 sa"
    and "card (set reasons) \<le> 16" and "\<forall>r \<in> set reasons. r \<noteq> [] \<and> length r \<le> 128"
  shows "\<exists>d. build_local_oracle_decision H version ss sa b reasons = Inr d \<and> validate_decision H d = Inr d
    \<and> od_state_sha256 d = ss \<and> od_action_sha256 d = sa \<and> od_admissible d = b \<and> od_reason_codes d = sorted_set reasons"
proof -
  have "length (sorted_set reasons) \<le> 16" using assms(6) by (simp add: sorted_set_def length_remdups_card_conv)
  with assms show ?thesis
    by (auto simp: build_local_oracle_decision_def Let_def validate_decision_def len_between_def list_ex_iff
        compute_local_oracle_decision_sha256_def hex_digest_sha256 Suc_le_eq)
qed

lemma reason_value_short: "reason_value r \<noteq> [] \<and> length (reason_value r) \<le> 40"
  by (cases r) simp_all

lemma policy_reasons_bound:
  assumes "evaluate cfg inp = Inr d" and "pi_upstream_failures inp = []"
  shows "card (set (policy_reasons d)) \<le> 16" and "\<forall>r \<in> set (policy_reasons d). r \<noteq> [] \<and> length r \<le> 128"
proof -
  let ?codes = "[UNCLASSIFIED_COLUMN, UNRESOLVED_COLUMN, COMPOSITIONAL_REIDENTIFICATION_RISK, DIRECT_SENSITIVE_LINKAGE,
    UNTRUSTED_SUBJECT_KEY, SMALL_GROUP_RISK, NO_COMPOSITIONAL_RISK]"
  have "set (block_reasons cfg inp) \<subseteq> set ?codes" by (auto simp: block_reasons_def Let_def assms(2))
  with evaluate_reasons [OF assms(1)] have codes: "set (pd_reason_codes d) \<subseteq> set ?codes"
    by (auto split: if_splits decision.splits)
  have "set (policy_reasons d) \<subseteq> insert (''POLICY_DECISION='' @ decision_value (pd_decision d))
      ((\<lambda>r. ''POLICY_REASON='' @ reason_value r) ` set ?codes)" using codes by (auto simp: policy_reasons_def)
  then have "card (set (policy_reasons d)) \<le> card (insert (''POLICY_DECISION='' @ decision_value (pd_decision d))
      ((\<lambda>r. ''POLICY_REASON='' @ reason_value r) ` set ?codes))" by (rule card_mono [rotated]) simp
  also have "\<dots> \<le> Suc (card ((\<lambda>r. ''POLICY_REASON='' @ reason_value r) ` set ?codes))" by (rule card_insert_le_m1) simp_all
  also have "card ((\<lambda>r. ''POLICY_REASON='' @ reason_value r) ` set ?codes) \<le> length ?codes"
    by (rule le_trans [OF card_image_le card_length]) simp
  finally show "card (set (policy_reasons d)) \<le> 16" by simp
  show "\<forall>r \<in> set (policy_reasons d). r \<noteq> [] \<and> length r \<le> 128"
  proof
    fix r
    assume "r \<in> set (policy_reasons d)"
    then consider "r = ''POLICY_DECISION='' @ decision_value (pd_decision d)"
      | c where "r = ''POLICY_REASON='' @ reason_value c" by (auto simp: policy_reasons_def)
    then show "r \<noteq> [] \<and> length r \<le> 128"
    proof cases
      case 1
      then show ?thesis by (cases "pd_decision d") simp_all
    next
      case (2 c)
      then show ?thesis using reason_value_short [of c] by simp
    qed
  qed
qed

section \<open>What the oracle decides\<close>

text \<open>An action the policy engine allows: a declared snapshot step, or a release whose reconstructed
  input the engine answers with ALLOW.\<close>

definition policy_allows ::
    "(string \<Rightarrow> string) \<Rightarrow> policy_config \<Rightarrow> oracle_governance \<Rightarrow> disclosure_state \<Rightarrow> future_action \<Rightarrow> bool" where
  "policy_allows H cfg gov s a = (case fa_semantic a of
       None \<Rightarrow> ds_warehouse_snapshot_sha256 s = fa_snapshot_from_sha256 a
     | Some sem \<Rightarrow> (case evaluate_semantic_with_policy H cfg s sem gov of
           Inl _ \<Rightarrow> False | Inr (_, decision) \<Rightarrow> pd_decision decision = ALLOW))"

lemma build_input_fails_closed:
  assumes "revalidate_oracle_inputs H s sem gov = Inr ()"
  shows "fails_closed (build_policy_input_from_semantic H s sem gov)"
proof (cases "\<exists>governed columns trusted names. governance_by_key gov = Inr governed \<and> oracle_semantic_columns sem = Inr columns
    \<and> trust_columns governed columns [] = Inr trusted \<and> source_dataset_names sem gov = Inr names")
  case True
  with build_input_tail [OF assms] show ?thesis by fastforce
next
  case False
  then show ?thesis
    unfolding build_policy_input_from_semantic_def assms
    using governance_by_key_fails_closed [of gov] oracle_columns_fails_closed [of sem]
      trust_columns_fails_closed source_names_fails_closed [of sem gov]
    by (auto simp: fails_closed_def bindr_Inl_iff)
qed

lemma build_input_failures:
  "build_policy_input_from_semantic H s sem gov = Inr inp \<Longrightarrow> pi_upstream_failures inp = []"
  unfolding build_policy_input_from_semantic_def Let_def
  by (auto simp: assemble_policy_input_def validate_policy_input_def assembled_input_def split: if_splits)

lemma release_inputs_revalidate:
  assumes "revalidate_state H s = Inr s" and "bind_policy_oracle H cfg g gov = Inr ora"
    and "a \<in> set (gm_actions g)" and "fa_semantic a = Some sem"
  shows "revalidate_oracle_inputs H s sem gov = Inr ()"
proof -
  from bound_action(2) [OF assms(2,3)] assms(4) obtain x where "validate_release H sem = Inr x"
    by (auto simp: revalidate_action_def)
  moreover obtain y where "revalidate_oracle_governance H gov = Inr y" using bind_policy_oracle_Inr(8) [OF assms(2)] by blast
  ultimately show ?thesis using assms(1) by (simp add: revalidate_oracle_inputs_def)
qed

text \<open>The reasons of a rejected action, of a snapshot step and of a release.\<close>

definition release_reasons ::
    "(string \<Rightarrow> string) \<Rightarrow> policy_config \<Rightarrow> oracle_governance \<Rightarrow> disclosure_state \<Rightarrow> semantic_release \<Rightarrow> string list" where
  "release_reasons H cfg gov s sem = (case evaluate_semantic_with_policy H cfg s sem gov of
       Inl _ \<Rightarrow> [''SEMANTIC_RECONSTRUCTION_FAIL_CLOSED'', ''PolicyOracleSemanticError'']
     | Inr (_, decision) \<Rightarrow> policy_reasons decision)"

definition bound_reasons ::
    "(string \<Rightarrow> string) \<Rightarrow> policy_config \<Rightarrow> oracle_governance \<Rightarrow> disclosure_state \<Rightarrow> future_action \<Rightarrow> string list" where
  "bound_reasons H cfg gov s a = (case fa_semantic a of
       None \<Rightarrow> [if ds_warehouse_snapshot_sha256 s = fa_snapshot_from_sha256 a
                then ''DECLARED_NO_RELEASE_SNAPSHOT_TRANSITION'' else ''SNAPSHOT_SOURCE_MISMATCH'']
     | Some sem \<Rightarrow> release_reasons H cfg gov s sem)"

text \<open>The oracle answers with a valid decision that names the state and the action, with this verdict and exactly these
  reasons in canonical order.\<close>

definition answers_with ::
    "(string \<Rightarrow> string) \<Rightarrow> policy_config \<Rightarrow> policy_oracle \<Rightarrow> disclosure_state \<Rightarrow> future_action \<Rightarrow> bool \<Rightarrow> string list \<Rightarrow> bool" where
  "answers_with H cfg ora s a admissible reasons \<longleftrightarrow>
     (\<exists>d. policy_engine_oracle H cfg ora s a = Inr d \<and> validate_decision H d = Inr d \<and> od_state_sha256 d = ds_state_sha256 s
        \<and> od_action_sha256 d = fa_action_sha256 a \<and> od_admissible d = admissible \<and> od_reason_codes d = sorted_set reasons)"

lemma decide_release_answers:
  assumes "hex_digest H" and "bind_policy_oracle H cfg g gov = Inr ora" and "revalidate_state H s = Inr s"
    and "a \<in> set (gm_actions g)" and "fa_semantic a = Some sem"
  shows "\<exists>d. decide_release H cfg ora s a sem = Inr d \<and> validate_decision H d = Inr d \<and> od_state_sha256 d = ds_state_sha256 s
    \<and> od_action_sha256 d = fa_action_sha256 a \<and> od_admissible d = policy_allows H cfg gov s a
    \<and> od_reason_codes d = sorted_set (release_reasons H cfg gov s sem)"
proof -
  note b = bind_policy_oracle_Inr [OF assms(2)]
  have sha: "is_sha256 (ds_state_sha256 s)" "is_sha256 (fa_action_sha256 a)"
    using assms(3) bound_action(2) [OF assms(2,4)]
    by (auto simp: revalidate_state_def validate_state_def revalidate_action_def dest: validate_action_Inr(3))
  note build = build_decision_total [OF assms(1) b(6,5) sha]
  note revalidated = release_inputs_revalidate [OF assms(3,2,4,5)]
  show ?thesis
  proof (cases "build_policy_input_from_semantic H s sem gov")
    case (Inl e)
    with build_input_fails_closed [OF revalidated] obtain m where e: "e = PolicyOracleSemanticError m"
      by (auto simp: fails_closed_def)
    with Inl have fail: "evaluate_semantic_with_policy H cfg s sem gov = Inl (PolicyOracleSemanticError m)"
      by (simp add: evaluate_semantic_with_policy_def)
    with build [of "[''SEMANTIC_RECONSTRUCTION_FAIL_CLOSED'', ''PolicyOracleSemanticError'']" False] show ?thesis
      by (simp add: decide_release_def b(2) fail oracle_reject_def policy_allows_def assms(5) card_insert_if release_reasons_def)
  next
    case (Inr inp)
    obtain d where d: "evaluate cfg inp = Inr d" using evaluate_refines_spec by blast
    with Inr have run: "evaluate_semantic_with_policy H cfg s sem gov = Inr (inp, d)" by (simp add: evaluate_semantic_with_policy_def)
    from build [OF policy_reasons_bound [OF d build_input_failures [OF Inr]], of "pd_decision d = ALLOW"]
    show ?thesis by (simp add: decide_release_def b(2) run policy_allows_def assms(5) release_reasons_def)
  qed
qed

lemma oracle_answers_bound:
  assumes "hex_digest H" and "bind_policy_oracle H cfg g gov = Inr ora" and "revalidate_state H s = Inr s"
    and "a \<in> set (gm_actions g)" and "require_state_in_model_universe s (gm_context g) = Inr ()"
  shows "answers_with H cfg ora s a (policy_allows H cfg gov s a) (bound_reasons H cfg gov s a)"
proof -
  note b = bind_policy_oracle_Inr [OF assms(2)]
  note act = bound_action [OF assms(2,4)]
  have valid: "validate_action H a = Inr a" using act(2) by (auto simp: revalidate_action_def dest: validate_action_Inr(1))
  note shape = validate_action_Inr(4,5) [OF valid]
  have start: "require_bound_policy H cfg ora = Inr ()" "map_of (po_actions ora) (fa_action_sha256 a) = Some a"
    "state_matches_grammar_context s (po_grammar ora)"
    using b act(1) assms(5) by (simp_all add: require_bound_policy_def state_matches_universe)
  show ?thesis
  proof (cases "fa_kind a = SNAPSHOT_ADVANCE")
    case True
    have sha: "is_sha256 (ds_state_sha256 s)" "is_sha256 (fa_action_sha256 a)"
      using assms(3) validate_action_Inr(3) [OF valid] by (auto simp: revalidate_state_def validate_state_def)
    note build = build_decision_total [OF assms(1) b(6,5) sha]
    from True shape(2) have "fa_semantic a = None" by simp
    with True build [of "[''SNAPSHOT_SOURCE_MISMATCH'']" False]
      build [of "[''DECLARED_NO_RELEASE_SNAPSHOT_TRANSITION'']" True] show ?thesis
      by (simp add: answers_with_def policy_engine_oracle_def start oracle_reject_def policy_allows_def bound_reasons_def)
  next
    case False
    with shape(1) obtain sem where "fa_semantic a = Some sem" by blast
    with False decide_release_answers [OF assms(1-4) this] show ?thesis
      by (simp add: answers_with_def policy_engine_oracle_def start bound_reasons_def)
  qed
qed

lemma oracle_answers_unbound:
  assumes "hex_digest H" and "bind_policy_oracle H cfg g gov = Inr ora" and "revalidate_state H s = Inr s"
    and "is_sha256 (fa_action_sha256 a)"
  shows "a \<notin> set (gm_actions g) \<Longrightarrow> answers_with H cfg ora s a False [''ACTION_OUTSIDE_BOUND_GRAMMAR'']"
    and "a \<in> set (gm_actions g) \<Longrightarrow> require_state_in_model_universe s (gm_context g) \<noteq> Inr () \<Longrightarrow>
      answers_with H cfg ora s a False [''STATE_OUTSIDE_BOUND_GRAMMAR'']"
proof -
  note b = bind_policy_oracle_Inr [OF assms(2)]
  have policy: "require_bound_policy H cfg ora = Inr ()" by (simp add: require_bound_policy_def b(3))
  have "is_sha256 (ds_state_sha256 s)" using assms(3) by (auto simp: revalidate_state_def validate_state_def)
  note build = build_decision_total [OF assms(1) b(6,5) this assms(4)]
  {
    assume "a \<notin> set (gm_actions g)"
    then have "map_of (po_actions ora) (fa_action_sha256 a) \<noteq> Some a" unfolding b(4) by (blast dest: map_of_dict_of_Some(1))
    with build [of "[''ACTION_OUTSIDE_BOUND_GRAMMAR'']" False]
    show "answers_with H cfg ora s a False [''ACTION_OUTSIDE_BOUND_GRAMMAR'']"
      by (simp add: answers_with_def policy_engine_oracle_def policy oracle_reject_def)
  }
  assume "a \<in> set (gm_actions g)" "require_state_in_model_universe s (gm_context g) \<noteq> Inr ()"
  then have "map_of (po_actions ora) (fa_action_sha256 a) = Some a" "\<not> state_matches_grammar_context s (po_grammar ora)"
    using bound_action(1) [OF assms(2)] b(1) by (simp_all add: state_matches_universe)
  with build [of "[''STATE_OUTSIDE_BOUND_GRAMMAR'']" False]
  show "answers_with H cfg ora s a False [''STATE_OUTSIDE_BOUND_GRAMMAR'']"
    by (simp add: answers_with_def policy_engine_oracle_def policy oracle_reject_def)
qed

lemma oracle_answers:
  assumes "hex_digest H" and "bind_policy_oracle H cfg g gov = Inr ora" and "revalidate_state H s = Inr s"
    and "a \<in> set (gm_actions g)" and "require_state_in_model_universe s (gm_context g) = Inr ()"
  shows "\<exists>d. policy_engine_oracle H cfg ora s a = Inr d \<and> validate_decision H d = Inr d \<and> od_state_sha256 d = ds_state_sha256 s
    \<and> od_action_sha256 d = fa_action_sha256 a \<and> od_admissible d = policy_allows H cfg gov s a"
  using oracle_answers_bound [OF assms] by (auto simp: answers_with_def)

lemma local_oracle_answers:
  assumes "hex_digest H" and "bind_policy_oracle H cfg g gov = Inr ora" and "revalidate_state H s = Inr s"
    and "apply_future_action H s a g = Inr s'"
  shows "\<exists>d. invoke_local_oracle H (as_local_oracle H cfg ora) s a = Some d \<and> od_admissible d = policy_allows H cfg gov s a"
proof -
  from transition_facts [OF assms(4)] have "a \<in> set (gm_actions g)" "require_state_in_model_universe s (gm_context g) = Inr ()" by auto
  from oracle_answers [OF assms(1-3) this] obtain d where "policy_engine_oracle H cfg ora s a = Inr d" "validate_decision H d = Inr d"
    "od_state_sha256 d = ds_state_sha256 s" "od_action_sha256 d = fa_action_sha256 a" "od_admissible d = policy_allows H cfg gov s a" by blast
  then show ?thesis by (simp add: invoke_local_oracle_def as_local_oracle_def)
qed

section \<open>What an admitted release exposes\<close>

text \<open>The categories trusted governance gives a column: its own and those of its lineage.\<close>

definition governed_as :: "oracle_governance \<Rightarrow> governed_column \<Rightarrow> sensitivity_category \<Rightarrow> bool" where
  "governed_as gov c k \<longleftrightarrow> (\<exists>ctx \<in> set (og_columns gov). column_matches c ctx
     \<and> (k = cc_category ctx \<or> k \<in> ls_category ` set (cc_lineage_sources ctx)))"

definition exposes :: "semantic_release \<Rightarrow> governed_column \<Rightarrow> bool" where
  "exposes sem c \<longleftrightarrow> (\<exists>out \<in> set (sr_outputs sem). so_kind out \<in> set exposed_value_kinds \<and> c \<in> set (so_sources out))"

definition subject_columns :: "disclosure_state \<Rightarrow> semantic_release \<Rightarrow> governed_column list" where
  "subject_columns s sem = (let subject = sc_subject (ds_scope s) in
     filter (\<lambda>c. gc_field_path c = sd_field_path subject \<and> gc_category c = sd_category subject
       \<and> gc_dataset_urn c \<in> set (sd_dataset_urns subject)) (sr_referenced_columns sem))"

lemma matching_context_unique:
  assumes "revalidate_oracle_governance H gov = Inr x" and "ctx \<in> set (og_columns gov)" "ctx' \<in> set (og_columns gov)"
    and "column_matches c ctx" "column_matches c ctx'"
  shows "ctx = ctx'"
proof -
  from assms(1) obtain keys where keys: "mapr governed_key (og_columns gov) = Inr keys" "canonical keys"
    by (auto simp: revalidate_oracle_governance_def validate_oracle_governance_def)
  from keys(1) have nth: "length keys = length (og_columns gov)"
    "\<And>i. i < length (og_columns gov) \<Longrightarrow> governed_key (og_columns gov ! i) = Inr (keys ! i)"
    by (auto simp: mapr_Inr_iff list_all2_conv_all_nth)
  have key: "column_matches c y \<Longrightarrow> governed_key y = Inr (column_key c)" for y
    by (simp add: column_matches_def governed_key_def urn_key_def column_key_def)
  from assms(2,3) obtain i j where ij: "i < length (og_columns gov)" "og_columns gov ! i = ctx"
    "j < length (og_columns gov)" "og_columns gov ! j = ctx'" by (auto simp: in_set_conv_nth)
  with nth key assms(4,5) have "keys ! i = keys ! j" by (metis sum.inject(2))
  with canonical_distinct [OF keys(2)] ij nth(1) have "i = j" by (metis nth_eq_iff_index_eq)
  with ij show ?thesis by simp
qed

lemma oracle_admits_release:
  assumes "bind_policy_oracle H cfg0 g gov = Inr ora" and "policy_engine_oracle H cfg ora s a = Inr d" and "od_admissible d"
    and "fa_semantic a = Some sem"
  obtains inp pd where "build_policy_input_from_semantic H s sem gov = Inr inp" "evaluate cfg inp = Inr pd" "pd_decision pd = ALLOW"
proof -
  note b = bind_policy_oracle_Inr [OF assms(1)]
  have adm: "build_local_oracle_decision H v ss sa x rs = Inr d \<Longrightarrow> od_admissible d = x" for v ss sa x rs
    by (auto simp: build_local_oracle_decision_def Let_def validate_decision_def)
  with assms(3) have rejected [simp]: "oracle_reject H ora s a rs \<noteq> Inr d" for rs by (auto simp: oracle_reject_def)
  from assms(2) have "map_of (po_actions ora) (fa_action_sha256 a) = Some a"
    by (auto simp: policy_engine_oracle_def split: if_splits)
  then have "a \<in> set (gm_actions g)" unfolding b(4) by (rule map_of_dict_of_Some)
  then have "validate_action H a = Inr a"
    using bound_action(2) [OF assms(1)] by (auto simp: revalidate_action_def dest: validate_action_Inr(1))
  with assms(4) validate_action_Inr(5) have "fa_kind a \<noteq> SNAPSHOT_ADVANCE" by fastforce
  with assms(2-4) adm have "decide_release H cfg ora s a sem = Inr d"
    by (auto simp: policy_engine_oracle_def split: if_splits)
  then obtain inp pd where run: "evaluate_semantic_with_policy H cfg s sem gov = Inr (inp, pd)" "pd_decision pd = ALLOW"
    using assms(3) by (auto simp: decide_release_def b(2) split: sum.splits error.splits dest: adm)
  then show thesis by (intro that) (auto simp: evaluate_semantic_with_policy_def)
qed

lemma build_input_Inr:
  assumes "build_policy_input_from_semantic H s sem gov = Inr inp"
  obtains trusted names where "inp = reconstructed_input s sem trusted names"
    and "\<forall>c \<in> set (governed_columns_of sem). context_of trusted (column_key c) \<in> set (og_columns gov)
      \<and> column_matches c (context_of trusted (column_key c))"
    and "references_complete sem" "sr_minimum_group_size_present sem \<noteq> None \<longrightarrow> subject_of s sem trusted \<noteq> None"
    and "\<exists>x. revalidate_oracle_governance H gov = Inr x"
proof -
  from assms obtain governed columns trusted names where run: "revalidate_oracle_inputs H s sem gov = Inr ()"
    "governance_by_key gov = Inr governed" "oracle_semantic_columns sem = Inr columns"
    "trust_columns governed columns [] = Inr trusted" "source_dataset_names sem gov = Inr names"
    unfolding build_policy_input_from_semantic_def by auto
  from assms have tail: "references_complete sem" "inp = reconstructed_input s sem trusted names"
    "sr_minimum_group_size_present sem \<noteq> None \<longrightarrow> subject_of s sem trusted \<noteq> None"
    by (auto simp: build_input_tail [OF run] split: if_splits)
  have bound: "\<forall>c \<in> set (governed_columns_of sem). context_of trusted (column_key c) \<in> set (og_columns gov)
      \<and> column_matches c (context_of trusted (column_key c))" using trusted_release [OF run(2-4)] by blast
  have "\<exists>x. revalidate_oracle_governance H gov = Inr x" using run(1) by (auto simp: revalidate_oracle_inputs_def)
  with tail bound show thesis by (intro that)
qed

lemma enumerate_member: "out \<in> set outs \<Longrightarrow> \<exists>n. (n, out) \<in> set (List.enumerate 0 outs)"
proof -
  assume "out \<in> set outs"
  then obtain i where i: "i < length outs" "outs ! i = out" by (auto simp: in_set_conv_nth)
  then have "List.enumerate 0 outs ! i = (i, out)" by (simp add: nth_enumerate_eq)
  with i(1) nth_mem [of i "List.enumerate 0 outs"] show ?thesis by auto
qed

text \<open>The context the engine looks a column up by is the trusted one, as long as one logical name stands
  for one governed column.\<close>

lemma reconstructed_lookup:
  assumes "\<forall>c \<in> set (governed_columns_of sem). context_of trusted (column_key c) \<in> set (og_columns gov)"
    and "inj_on (\<lambda>c. ref_key (cc_ref c)) (set (og_columns gov))" and "c \<in> set (output_columns sem)"
  shows "context_by_key (reconstructed_input s sem trusted names) (ref_key (cc_ref (context_of trusted (column_key c))))
    = Some (context_of trusted (column_key c))"
proof -
  have contexts: "set (projected_contexts_of sem trusted) = (\<lambda>c. context_of trusted (column_key c)) ` set (output_columns sem)"
    by (simp add: projected_contexts_of_def image_image)
  also have "\<dots> \<subseteq> set (og_columns gov)" using assms(1) by (auto simp: governed_columns_of_def output_columns_def)
  finally have "inj_on (\<lambda>c. ref_key (cc_ref c)) (set (projected_contexts_of sem trusted))"
    by (rule inj_on_subset [OF assms(2)])
  from map_of_dict_of_inj [OF this] contexts assms(3) show ?thesis
    by (simp add: context_by_key_def reconstructed_input_def assembled_input_def)
qed

lemma exposed_risk:
  assumes "revalidate_oracle_governance H gov = Inr x" and "inj_on (\<lambda>c. ref_key (cc_ref c)) (set (og_columns gov))"
    and "\<forall>c \<in> set (governed_columns_of sem). context_of trusted (column_key c) \<in> set (og_columns gov)
      \<and> column_matches c (context_of trusted (column_key c))"
    and "exposes sem c" and "governed_as gov c k"
  shows "k \<in> set (risk_categories (reconstructed_input s sem trusted names))" "sr_outputs sem \<noteq> []"
proof -
  from assms(4) obtain out where out: "out \<in> set (sr_outputs sem)" "so_kind out \<in> set exposed_value_kinds" "c \<in> set (so_sources out)"
    by (auto simp: exposes_def)
  then show "sr_outputs sem \<noteq> []" by auto
  obtain n where n: "(n, out) \<in> set (List.enumerate 0 (sr_outputs sem))" using enumerate_member [OF out(1)] by blast
  have c: "c \<in> set (output_columns sem)" "c \<in> set (governed_columns_of sem)"
    using out by (auto simp: output_columns_def governed_columns_of_def)
  let ?ctx = "context_of trusted (column_key c)" and ?e = "exposure_of trusted (n, out)"
  from assms(5) obtain ctx where ctx: "ctx \<in> set (og_columns gov)" "column_matches c ctx"
    "k = cc_category ctx \<or> k \<in> ls_category ` set (cc_lineage_sources ctx)" by (auto simp: governed_as_def)
  have "ctx = ?ctx" using matching_context_unique [OF assms(1) ctx(1) _ ctx(2)] assms(3) c(2) by blast
  moreover have "?e \<in> set (qp_projected_exposures (pi_query_plan (reconstructed_input s sem trusted names)))"
    using n by (simp add: reconstructed_input_def assembled_input_def reconstructed_plan_def assembled_plan_def)
  moreover have "cc_ref ?ctx \<in> set (pe_source_columns ?e)" "pe_kind ?e \<in> set exposed_value_kinds"
    using out by (auto simp: exposure_of_def)
  ultimately show "k \<in> set (risk_categories (reconstructed_input s sem trusted names))"
    using risk_category_of_exposure reconstructed_lookup [OF _ assms(2) c(1)] assms(3) ctx(3) by metis
qed

lemma allowed_input:
  assumes "evaluate cfg inp = Inr pd" and "pd_decision pd = ALLOW"
  shows "block_reasons cfg inp = []" "qp_is_grouped (pi_query_plan inp) \<Longrightarrow> sensitive_anywhere inp \<Longrightarrow>
    subject_is_governed_identifier inp \<and> \<not> below_minimum cfg (trusted_threshold inp)"
  using evaluate_decision [OF assms(1)] assms(2) by (auto simp: spec_decision_def Let_def split: if_splits)

lemma allowed_risks:
  assumes "evaluate cfg inp = Inr pd" and "pd_decision pd = ALLOW" and "qp_projected_exposures (pi_query_plan inp) \<noteq> []"
  shows "\<not> (DIRECT_IDENTIFIER \<in> set (risk_categories inp) \<and> SENSITIVE_ATTRIBUTE \<in> set (risk_categories inp))"
    "\<not> qp_is_grouped (pi_query_plan inp) \<Longrightarrow>
      \<not> (STABLE_PSEUDONYM \<in> set (risk_categories inp) \<and> SENSITIVE_ATTRIBUTE \<in> set (risk_categories inp))"
  using allowed_input(1) [OF assms(1,2)] assms(3)
  by (auto simp: block_reasons_def Let_def semantic_projected_context_def split: if_splits)

lemma subject_of_columns:
  "subject_of s sem trusted = Some subject \<longleftrightarrow>
     (\<exists>c. subject_columns s sem = [c] \<and> subject = cc_ref (context_of trusted (column_key c)))"
  by (auto simp: subject_of_def subject_columns_def Let_def split: list.splits)

lemma grouped_subject:
  assumes "evaluate cfg inp = Inr pd" "pd_decision pd = ALLOW" and "inp = reconstructed_input s sem trusted names"
    and "\<forall>c \<in> set (governed_columns_of sem). context_of trusted (column_key c) \<in> set (og_columns gov)
      \<and> column_matches c (context_of trusted (column_key c))"
    and "revalidate_oracle_governance H gov = Inr x" and "inj_on (\<lambda>c. ref_key (cc_ref c)) (set (og_columns gov))"
    and "sr_group_keys sem \<noteq> [] \<or> sr_aggregate_functions sem \<noteq> []"
    and "c \<in> set (sr_referenced_columns sem)" "governed_as gov c SENSITIVE_ATTRIBUTE"
  shows "\<exists>n c. sr_minimum_group_size_present sem = Some n \<and> cfg_minimum_group_size cfg \<le> n \<and> subject_columns s sem = [c]
    \<and> gc_category c \<in> {DIRECT_IDENTIFIER, STABLE_PSEUDONYM}"
proof -
  have fields: "qp_is_grouped (pi_query_plan inp)" "pi_minimum_group_size_present inp = sr_minimum_group_size_present sem"
    "pi_subject_key inp = subject_of s sem trusted"
    "pi_all_referenced_context inp = contexts_of trusted (sr_referenced_columns sem)"
    using assms(7) by (simp_all add: assms(3) reconstructed_input_def assembled_input_def reconstructed_plan_def assembled_plan_def)
  have here: "context_of trusted (column_key c') \<in> set (og_columns gov) \<and> column_matches c' (context_of trusted (column_key c'))"
    if "c' \<in> set (sr_referenced_columns sem)" for c' using assms(4) that by (simp add: governed_columns_of_def)
  from assms(9) obtain ctx where ctx: "ctx \<in> set (og_columns gov)" "column_matches c ctx"
    "SENSITIVE_ATTRIBUTE = cc_category ctx \<or> SENSITIVE_ATTRIBUTE \<in> ls_category ` set (cc_lineage_sources ctx)"
    by (auto simp: governed_as_def)
  have "ctx = context_of trusted (column_key c)"
    using matching_context_unique [OF assms(5) ctx(1) _ ctx(2)] here [OF assms(8)] by blast
  with ctx(3) assms(8) have "sensitive_anywhere inp"
    unfolding sensitive_anywhere_def set_effective_categories fields(4) contexts_of_def by force
  from allowed_input(2) [OF assms(1,2) fields(1) this] obtain n subject c0 where n: "pi_minimum_group_size_present inp = Some n"
    "cfg_minimum_group_size cfg \<le> n" and subject: "pi_subject_key inp = Some subject" "c0 \<in> set (pi_all_referenced_context inp)"
    "ref_key (cc_ref c0) = ref_key subject" "cc_category c0 \<in> {DIRECT_IDENTIFIER, STABLE_PSEUDONYM}"
    by (elim conjE trusted_thresholdD governed_subjectD) fastforce
  from subject(1) fields(3) subject_of_columns obtain c' where c': "subject_columns s sem = [c']"
    "subject = cc_ref (context_of trusted (column_key c'))" by metis
  then have "c' \<in> set (subject_columns s sem)" by simp
  then have "c' \<in> set (sr_referenced_columns sem)" by (simp add: subject_columns_def Let_def)
  note known = here [OF this]
  from subject(2) fields(4) here have "c0 \<in> set (og_columns gov)" by (auto simp: contexts_of_def)
  with inj_onD [OF assms(6), of c0 "context_of trusted (column_key c')"] subject(3) c'(2) known
  have "c0 = context_of trusted (column_key c')" by simp
  with known subject(4) have "gc_category c' \<in> {DIRECT_IDENTIFIER, STABLE_PSEUDONYM}" by (simp add: column_matches_def)
  with n fields(2) c'(1) show ?thesis by auto
qed

section \<open>The properties of the oracle\<close>

text \<open>C27: oracle_decides_policy. The oracle bound to a grammar and a policy configuration answers every validated state
  and every action hash, and its verdict and its reasons are determined: an action that is not of the
  grammar, even under the hash of one that is, and a state outside the grammar's universe are
  rejected with that reason; a snapshot step is admitted exactly from its source snapshot; a release
  whose policy input cannot be reconstructed is rejected as such; every other release is admitted
  exactly when the policy engine answers the reconstructed input with ALLOW, and the reasons name
  the engine's decision and each of its reason codes. No error of the reconstruction escapes as an
  exception. Only under another configuration than the bound one is there no answer but an error.\<close>

theorem oracle_decides_policy:
  assumes "\<forall>text. is_sha256 (H text)" and "bind_policy_oracle H cfg g gov = Inr ora" and "revalidate_state H s = Inr s"
    and "is_sha256 (fa_action_sha256 a)"
  shows "(a \<notin> set (gm_actions g) \<longrightarrow> answers_with H cfg ora s a False [''ACTION_OUTSIDE_BOUND_GRAMMAR''])
    \<and> (a \<in> set (gm_actions g) \<and> require_state_in_model_universe s (gm_context g) \<noteq> Inr () \<longrightarrow>
        answers_with H cfg ora s a False [''STATE_OUTSIDE_BOUND_GRAMMAR''])
    \<and> (a \<in> set (gm_actions g) \<and> require_state_in_model_universe s (gm_context g) = Inr () \<longrightarrow>
        (case fa_semantic a of
           None \<Rightarrow> fa_kind a = SNAPSHOT_ADVANCE
             \<and> (if ds_warehouse_snapshot_sha256 s = fa_snapshot_from_sha256 a
                then answers_with H cfg ora s a True [''DECLARED_NO_RELEASE_SNAPSHOT_TRANSITION'']
                else answers_with H cfg ora s a False [''SNAPSHOT_SOURCE_MISMATCH''])
         | Some sem \<Rightarrow> (case build_policy_input_from_semantic H s sem gov of
               Inl _ \<Rightarrow> answers_with H cfg ora s a False [''SEMANTIC_RECONSTRUCTION_FAIL_CLOSED'', ''PolicyOracleSemanticError'']
             | Inr inp \<Rightarrow> (\<exists>pd. evaluate cfg inp = Inr pd \<and> answers_with H cfg ora s a (pd_decision pd = ALLOW)
                  ((''POLICY_DECISION='' @ decision_value (pd_decision pd))
                     # map (\<lambda>r. ''POLICY_REASON='' @ reason_value r) (pd_reason_codes pd))))))
    \<and> (policy_config_sha256 H cfg' \<noteq> policy_config_sha256 H cfg \<longrightarrow> policy_engine_oracle H cfg' ora s a
          = Inl (PolicyOracleError ''PolicyEngine configuration changed after oracle binding''))"
proof (intro conjI impI)
  have hex: "hex_digest H" using assms(1) by (simp add: hex_digest_def)
  note unbound = oracle_answers_unbound [OF hex assms(2-4)]
  show "answers_with H cfg ora s a False [''ACTION_OUTSIDE_BOUND_GRAMMAR'']" if "a \<notin> set (gm_actions g)"
    by (rule unbound(1) [OF that])
  show "answers_with H cfg ora s a False [''STATE_OUTSIDE_BOUND_GRAMMAR'']"
    if "a \<in> set (gm_actions g) \<and> require_state_in_model_universe s (gm_context g) \<noteq> Inr ()" using that unbound(2) by blast
  show "policy_engine_oracle H cfg' ora s a = Inl (PolicyOracleError ''PolicyEngine configuration changed after oracle binding'')"
    if "policy_config_sha256 H cfg' \<noteq> policy_config_sha256 H cfg"
    using that by (simp add: policy_engine_oracle_def require_bound_policy_def bind_policy_oracle_Inr(3) [OF assms(2)])
  assume bound: "a \<in> set (gm_actions g) \<and> require_state_in_model_universe s (gm_context g) = Inr ()"
  have "answers_with H cfg ora s a (policy_allows H cfg gov s a) (bound_reasons H cfg gov s a)"
    using oracle_answers_bound [OF hex assms(2,3)] bound by blast
  note answer = this [unfolded policy_allows_def bound_reasons_def release_reasons_def evaluate_semantic_with_policy_def]
  have valid: "validate_action H a = Inr a"
    using bound_action(2) [OF assms(2)] bound by (auto simp: revalidate_action_def dest: validate_action_Inr(1))
  show "case fa_semantic a of
      None \<Rightarrow> fa_kind a = SNAPSHOT_ADVANCE
        \<and> (if ds_warehouse_snapshot_sha256 s = fa_snapshot_from_sha256 a
           then answers_with H cfg ora s a True [''DECLARED_NO_RELEASE_SNAPSHOT_TRANSITION'']
           else answers_with H cfg ora s a False [''SNAPSHOT_SOURCE_MISMATCH''])
    | Some sem \<Rightarrow> (case build_policy_input_from_semantic H s sem gov of
          Inl _ \<Rightarrow> answers_with H cfg ora s a False [''SEMANTIC_RECONSTRUCTION_FAIL_CLOSED'', ''PolicyOracleSemanticError'']
        | Inr inp \<Rightarrow> (\<exists>pd. evaluate cfg inp = Inr pd \<and> answers_with H cfg ora s a (pd_decision pd = ALLOW)
             ((''POLICY_DECISION='' @ decision_value (pd_decision pd))
                # map (\<lambda>r. ''POLICY_REASON='' @ reason_value r) (pd_reason_codes pd))))"
  proof (cases "fa_semantic a")
    case None
    with validate_action_Inr(4) [OF valid] have "fa_kind a = SNAPSHOT_ADVANCE" by (cases "fa_kind a = SNAPSHOT_ADVANCE") auto
    with None answer show ?thesis by (simp split: if_splits)
  next
    case (Some sem)
    show ?thesis
    proof (cases "build_policy_input_from_semantic H s sem gov")
      case (Inl e)
      with Some answer show ?thesis by simp
    next
      case (Inr inp)
      obtain pd where "evaluate cfg inp = Inr pd" using evaluate_refines_spec by blast
      with Some Inr answer show ?thesis by (simp add: policy_reasons_def)
    qed
  qed
qed

text \<open>A release the oracle admits is safe by itself, judged by the trusted governance with its
  lineage, as long as one logical column name stands for one governed column: its value-bearing
  outputs do not link a direct identifier to a sensitive attribute; an ungrouped release does not
  link a pseudonym to one either; and a grouped release that touches a sensitive attribute counts
  at least the configured minimum of the one referenced column of the scope's own subject.\<close>

theorem admitted_release_safe:
  assumes "bind_policy_oracle H cfg0 g gov = Inr ora" and "policy_engine_oracle H cfg ora s a = Inr d" and "od_admissible d"
    and "fa_semantic a = Some sem" and "inj_on (\<lambda>c. ref_key (cc_ref c)) (set (og_columns gov))"
  shows "\<not> (\<exists>c c'. exposes sem c \<and> exposes sem c' \<and> governed_as gov c DIRECT_IDENTIFIER \<and> governed_as gov c' SENSITIVE_ATTRIBUTE)
    \<and> (sr_group_keys sem = [] \<and> sr_aggregate_functions sem = [] \<longrightarrow>
         \<not> (\<exists>c c'. exposes sem c \<and> exposes sem c' \<and> governed_as gov c STABLE_PSEUDONYM \<and> governed_as gov c' SENSITIVE_ATTRIBUTE))
    \<and> ((sr_group_keys sem \<noteq> [] \<or> sr_aggregate_functions sem \<noteq> [])
         \<and> (\<exists>c \<in> set (sr_referenced_columns sem). governed_as gov c SENSITIVE_ATTRIBUTE) \<longrightarrow>
         (\<exists>n c. sr_minimum_group_size_present sem = Some n \<and> cfg_minimum_group_size cfg \<le> n \<and> subject_columns s sem = [c]
           \<and> gc_category c \<in> {DIRECT_IDENTIFIER, STABLE_PSEUDONYM}))"
proof -
  obtain inp pd where inp: "build_policy_input_from_semantic H s sem gov = Inr inp" "evaluate cfg inp = Inr pd" "pd_decision pd = ALLOW"
    by (rule oracle_admits_release [OF assms(1-4)])
  obtain trusted names where t: "inp = reconstructed_input s sem trusted names"
    "\<forall>c \<in> set (governed_columns_of sem). context_of trusted (column_key c) \<in> set (og_columns gov)
      \<and> column_matches c (context_of trusted (column_key c))"
    "\<exists>x. revalidate_oracle_governance H gov = Inr x" by (rule build_input_Inr [OF inp(1)])
  from t(3) obtain x where gov: "revalidate_oracle_governance H gov = Inr x" by blast
  note risk = exposed_risk [OF gov assms(5) t(2)]
  have plan: "qp_projected_exposures (pi_query_plan inp) = map (exposure_of trusted) (List.enumerate 0 (sr_outputs sem))"
    "qp_is_grouped (pi_query_plan inp) = (sr_group_keys sem \<noteq> [] \<or> sr_aggregate_functions sem \<noteq> [])"
    by (simp_all add: t(1) reconstructed_input_def assembled_input_def reconstructed_plan_def assembled_plan_def)
  have out: "exposes sem c \<Longrightarrow> qp_projected_exposures (pi_query_plan inp) \<noteq> []" for c
    unfolding plan(1) exposes_def by (auto dest: enumerate_member)
  have "\<not> (\<exists>c c'. exposes sem c \<and> exposes sem c' \<and> governed_as gov c DIRECT_IDENTIFIER \<and> governed_as gov c' SENSITIVE_ATTRIBUTE)"
    using allowed_risks(1) [OF inp(2,3)] out risk(1) t(1) by blast
  moreover have "\<not> (\<exists>c c'. exposes sem c \<and> exposes sem c' \<and> governed_as gov c STABLE_PSEUDONYM \<and> governed_as gov c' SENSITIVE_ATTRIBUTE)"
    if "sr_group_keys sem = [] \<and> sr_aggregate_functions sem = []"
    using allowed_risks(2) [OF inp(2,3)] out risk(1) t(1) that plan(2) by blast
  ultimately show ?thesis using grouped_subject [OF inp(2,3) t(1,2) gov assms(5)] by blast
qed

section \<open>The checker over the policy engine\<close>

text \<open>The points that sequences of transitions reach in which the policy engine allows every single action.\<close>

inductive allowed_run ::
    "(string \<Rightarrow> string) \<Rightarrow> policy_config \<Rightarrow> oracle_governance \<Rightarrow> search_input \<Rightarrow> nat \<Rightarrow> disclosure_state
      \<Rightarrow> temporal_path option \<Rightarrow> bool"
  for H :: "string \<Rightarrow> string" and cfg :: policy_config and gov :: oracle_governance and i :: search_input where
  run_start: "initial_temporal_path H (si_initial_state i) (si_grammar i) = Inr t
    \<Longrightarrow> allowed_run H cfg gov i 0 (si_initial_state i) t"
| run_step: "allowed_run H cfg gov i n s (Some p) \<Longrightarrow> apply_future_action H s a (si_grammar i) = Inr s'
    \<Longrightarrow> policy_allows H cfg gov s a \<Longrightarrow> extend_temporal_path H p a s' (Suc n) = Inr t
    \<Longrightarrow> allowed_run H cfg gov i (Suc n) s' t"

lemma allowed_run_reach:
  assumes "valid_search (H, i)" and "si_oracle i = as_local_oracle H cfg ora"
    and "bind_policy_oracle H cfg (si_grammar i) gov = Inr ora"
  shows "allowed_run H cfg gov i n s t \<longleftrightarrow> reach (H, i) (n, s, t)"
proof
  have hex: "hex_digest H" using assms(1) by simp
  note answers = local_oracle_answers [OF hex assms(3)]
  show "allowed_run H cfg gov i n s t \<Longrightarrow> reach (H, i) (n, s, t)"
  proof (induction rule: allowed_run.induct)
    case (run_start t)
    then show ?case by (intro explored.at_start) simp
  next
    case (run_step n s p a s' t)
    note r = reach_revalidates [OF assms(1) run_step.IH]
    from answers [OF r run_step.hyps(2)] run_step.hyps(3) obtain d where
      "invoke_local_oracle H (si_oracle i) s a = Some d" "od_admissible d" using assms(2) by auto
    with run_step.hyps(2,4) transition_facts [OF run_step.hyps(2)] have "point_step (H, i) (n, s, Some p) (Suc n, s', t)"
      by (auto simp: admitted_def)
    with run_step.IH show ?case by (rule explored.by_step)
  qed
  have "case x of (n, s, t) \<Rightarrow> allowed_run H cfg gov i n s t" if "reach (H, i) x" for x
    using that
  proof (induction rule: explored.induct)
    case (at_start x)
    then show ?case by (cases x) (auto intro: allowed_run.run_start)
  next
    case (by_step x y)
    obtain n s t m s' t' where xy: "x = (n, s, t)" "y = (m, s', t')" by (cases x, cases y)
    with by_step(2) obtain p a d where st: "m = Suc n" "t = Some p" "admitted H i s a d s'"
      "extend_temporal_path H p a s' (Suc n) = Inr t'" by auto
    from by_step(1) xy have "revalidate_state H s = Inr s" by (auto intro: reach_revalidates [OF assms(1)])
    from answers [OF this] st(3) have "policy_allows H cfg gov s a" by (fastforce simp: admitted_def assms(2))
    with by_step(3) xy st show ?case by (auto simp: admitted_def intro: allowed_run.run_step)
  qed
  from this [of "(n, s, t)"] show "reach (H, i) (n, s, t) \<Longrightarrow> allowed_run H cfg gov i n s t" by simp
qed

text \<open>C24: checker_over_policy. With the oracle of the policy engine plugged in, the checker's answer is about
  sequences of individually allowed actions: PROSPECTIVE_UNSAFE means that some such sequence within
  the bound ends in a forbidden state although the policy engine allows every step of it;
  NO_COUNTEREXAMPLE_WITHIN_BOUND, when keys identify states, means that every such sequence within
  the bound ends in a state evaluated safe; and the checker never fails closed for lack of an
  answer of this oracle.\<close>

theorem checker_over_policy:
  assumes "check_prospective_privacy H (si_initial_state i) (si_grammar i) (si_policy i) (si_binding i) (si_oracle i)
      (Some (si_config i)) = Inr r" and "\<forall>text. is_sha256 (H text)"
    and "bind_policy_oracle H cfg (si_grammar i) gov = Inr ora" and "si_oracle i = as_local_oracle H cfg ora"
  shows "(pr_status r = PROSPECTIVE_UNSAFE \<longrightarrow> (\<exists>n s t e. allowed_run H cfg gov i n s t \<and> int n \<le> pc_bound (si_config i)
         \<and> evaluate_forbidden_state H s (si_policy i) (si_binding i) t = Inr e \<and> se_forbidden e))
    \<and> (pr_status r = NO_COUNTEREXAMPLE_WITHIN_BOUND \<and> faithful_keys (H, i) \<longrightarrow>
         (\<forall>n s t. allowed_run H cfg gov i n s t \<and> int n \<le> pc_bound (si_config i) \<longrightarrow>
           (\<exists>e. evaluate_forbidden_state H s (si_policy i) (si_binding i) t = Inr e \<and> \<not> se_forbidden e
             \<and> se_indeterminate_predicates e = [])))
    \<and> \<not> (pr_status r = FAIL_CLOSED \<and> pr_failure_reason r = Some LOCAL_ORACLE_FAILURE)"
proof -
  note valid = check_valid [OF assms(1,2)]
  note runs = allowed_run_reach [OF valid assms(4,3)]
  note result = check_outcome [OF assms(1)]
  have "\<exists>n s t e. allowed_run H cfg gov i n s t \<and> int n \<le> pc_bound (si_config i)
      \<and> evaluate_forbidden_state H s (si_policy i) (si_binding i) t = Inr e \<and> se_forbidden e" if "pr_status r = PROSPECTIVE_UNSAFE"
  proof -
    from result that have "unsafe_outcome H i r" by (simp add: outcome_def)
    then obtain trace :: counterexample_trace and n s t e where u: "replays H i (ct_steps trace) (n, s, t)" "int n \<le> pc_bound (si_config i)"
      "evaluate_forbidden_state H s (si_policy i) (si_binding i) t = Inr e" "se_forbidden e"
      unfolding unsafe_outcome_def by blast
    moreover from replays_reach [OF u(1)] have "allowed_run H cfg gov i n s t" unfolding runs ..
    ultimately show ?thesis by blast
  qed
  moreover have "\<exists>e. evaluate_forbidden_state H s (si_policy i) (si_binding i) t = Inr e \<and> \<not> se_forbidden e
      \<and> se_indeterminate_predicates e = []"
    if "pr_status r = NO_COUNTEREXAMPLE_WITHIN_BOUND" "faithful_keys (H, i)" "reach (H, i) (n, s, t)" "int n \<le> pc_bound (si_config i)" for n s t
  proof -
    from result have "valid_search (H, i) \<longrightarrow> faithful_keys (H, i) \<longrightarrow> safe_upto H i (search_bound (H, i))"
      unfolding outcome_def that(1) ppmc_status.case by (rule conjunct2)
    with valid that(2) have "safe_upto H i (search_bound (H, i))" by blast
    moreover from that(4) have "n \<le> search_bound (H, i)" by simp
    ultimately have "proved_safe (H, i) (n, s, t)" using that(3) unfolding safe_upto_def by blast
    then show ?thesis by simp
  qed
  moreover have False if failure: "pr_status r = FAIL_CLOSED" "pr_failure_reason r = Some LOCAL_ORACLE_FAILURE"
  proof -
    from result failure obtain n s t a s' where f: "reach (H, i) (n, s, t)" "apply_future_action H s a (si_grammar i) = Inr s'"
      "invoke_local_oracle H (si_oracle i) s a = None" by (auto simp: outcome_def failure_outcome_def)
    have "hex_digest H" using assms(2) by (simp add: hex_digest_def)
    from local_oracle_answers [OF this assms(3) reach_revalidates [OF valid f(1)] f(2)] f(3) assms(4) show False by simp
  qed
  ultimately show ?thesis unfolding runs by blast
qed

section \<open>Witnesses\<close>

definition oracle_column :: "string \<Rightarrow> sensitivity_category \<Rightarrow> column_context" where
  "oracle_column field k = \<lparr>cc_ref = \<lparr>cr_dataset = ''t'', cr_field_path = field, cr_alias = None\<rparr>, cc_category = k,
     cc_datahub_urn = Some ''a'', cc_tags = [], cc_glossary_terms = [], cc_lineage_sources = [], cc_resolved = True\<rparr>"

definition sample_governance :: oracle_governance where
  "sample_governance = (let g = \<lparr>og_columns = [oracle_column ''dx'' SENSITIVE_ATTRIBUTE, oracle_column ''id'' DIRECT_IDENTIFIER],
       og_context_sha256 = zero_sha256\<rparr> in g\<lparr>og_context_sha256 := compute_oracle_governance_sha256 sample_hash g\<rparr>)"

lemma sample_governance_columns [simp]:
  "og_columns sample_governance = [oracle_column ''dx'' SENSITIVE_ATTRIBUTE, oracle_column ''id'' DIRECT_IDENTIFIER]"
  by (simp add: sample_governance_def Let_def)

lemma sample_governance_valid: "revalidate_oracle_governance sample_hash sample_governance = Inr sample_governance"
proof -
  let ?cs = "[oracle_column ''dx'' SENSITIVE_ATTRIBUTE, oracle_column ''id'' DIRECT_IDENTIFIER]"
  have "mapr revalidate_column_context ?cs = Inr ?cs" "mapr governed_key ?cs = Inr [''a#dx'', ''a#id'']"
    "canonical [''a#dx'', ''a#id'']" "list_all (\<lambda>(bad, _). \<not> bad) (concat (map governance_column_checks ?cs))" by code_simp+
  moreover have "og_context_sha256 sample_governance = compute_oracle_governance_sha256 sample_hash sample_governance"
    and "is_sha256 (og_context_sha256 sample_governance)"
    by (simp_all add: sample_governance_def Let_def compute_oracle_governance_sha256_def hex_digest_sha256 [OF hex_digest_sample])
  moreover have "raise_first xs x = Inr x" if "list_all (\<lambda>(bad, _). \<not> bad) xs" for xs and x :: oracle_governance
    using that by (induction xs) auto
  ultimately show ?thesis
    by (simp add: revalidate_oracle_governance_def validate_oracle_governance_def len_between_def raise_first_append del: raise_first_Inr)
qed

definition sample_bound_oracle :: policy_oracle where
  "sample_bound_oracle = \<lparr>po_grammar = id_grammar, po_governance = sample_governance,
     po_actions = dict_of fa_action_sha256 (gm_actions id_grammar),
     po_policy_config_sha256 = policy_config_sha256 sample_hash Policy.sample_config,
     po_oracle_version = ''policy-engine-oracle/0.1.0:'' @ take 12 (policy_config_sha256 sample_hash Policy.sample_config) @ '':''
       @ take 12 (og_context_sha256 sample_governance)\<rparr>"

lemma sample_bound: "bind_policy_oracle sample_hash Policy.sample_config id_grammar sample_governance = Inr sample_bound_oracle"
  by (simp add: bind_policy_oracle_def sample_grammar_revalidated sample_governance_valid sample_bound_oracle_def Let_def)

text \<open>The engine allows the raw identifier alone, and blocks it beside the sensitive field.\<close>

lemma sample_reconstruction:
  "governance_by_key sample_governance = Inr [(''a#dx'', oracle_column ''dx'' SENSITIVE_ATTRIBUTE), (''a#id'', oracle_column ''id'' DIRECT_IDENTIFIER)]"
  "source_dataset_names id_release sample_governance = Inr [''t'']" "source_dataset_names pair_release sample_governance = Inr [''t'']"
  unfolding governance_by_key_def source_dataset_names_def dataset_candidates_def sample_governance_columns by code_simp+

definition sample_trusted :: "(string \<times> column_context) list" where
  "sample_trusted = [(''a#dx'', oracle_column ''dx'' SENSITIVE_ATTRIBUTE), (''a#id'', oracle_column ''id'' DIRECT_IDENTIFIER)]"

lemma sample_columns_trusted:
  "oracle_semantic_columns id_release = Inr [sample_column ''id'' DIRECT_IDENTIFIER]"
  "oracle_semantic_columns pair_release = Inr [sample_column ''dx'' SENSITIVE_ATTRIBUTE, sample_column ''id'' DIRECT_IDENTIFIER]"
  "trust_columns sample_trusted [sample_column ''id'' DIRECT_IDENTIFIER] [] = Inr (tl sample_trusted)"
  "trust_columns sample_trusted [sample_column ''dx'' SENSITIVE_ATTRIBUTE, sample_column ''id'' DIRECT_IDENTIFIER] []
     = Inr sample_trusted"
  "references_complete id_release" "references_complete pair_release"
  by code_simp+

lemma sample_decisions:
  assumes "s \<in> {id_state, snap_state}"
  shows "spec_decision Policy.sample_config (reconstructed_input s id_release (tl sample_trusted) [''t'']) = ALLOW"
    "spec_decision Policy.sample_config (reconstructed_input s pair_release sample_trusted [''t'']) = BLOCK"
proof -
  have "spec_decision Policy.sample_config (reconstructed_input id_state id_release (tl sample_trusted) [''t'']) = ALLOW"
    "spec_decision Policy.sample_config (reconstructed_input snap_state id_release (tl sample_trusted) [''t'']) = ALLOW"
    "spec_decision Policy.sample_config (reconstructed_input id_state pair_release sample_trusted [''t'']) = BLOCK"
    "spec_decision Policy.sample_config (reconstructed_input snap_state pair_release sample_trusted [''t'']) = BLOCK" by code_simp+
  with assms show "spec_decision Policy.sample_config (reconstructed_input s id_release (tl sample_trusted) [''t'']) = ALLOW"
    "spec_decision Policy.sample_config (reconstructed_input s pair_release sample_trusted [''t'']) = BLOCK" by auto
qed

lemma sample_built:
  assumes "s \<in> {id_state, snap_state}" and "revalidate_state sample_hash s = Inr s"
  shows "build_policy_input_from_semantic sample_hash s id_release sample_governance
      = Inr (reconstructed_input s id_release (tl sample_trusted) [''t''])"
    "build_policy_input_from_semantic sample_hash s pair_release sample_governance
      = Inr (reconstructed_input s pair_release sample_trusted [''t''])"
proof -
  note inputs = sample_reconstruction [folded sample_trusted_def] sample_columns_trusted
  have ok: "revalidate_oracle_inputs sample_hash s id_release sample_governance = Inr ()"
    "revalidate_oracle_inputs sample_hash s pair_release sample_governance = Inr ()"
    by (simp_all add: revalidate_oracle_inputs_def assms(2) revalidate_parts(1,2) sample_governance_valid)
  have "sr_minimum_group_size_present id_release = None" "sr_minimum_group_size_present pair_release = None"
    by (simp_all add: id_release_def pair_release_def)
  with build_input_tail [OF ok(1) inputs(1,4,6,2)] build_input_tail [OF ok(2) inputs(1,5,7,3)] inputs(8,9)
  show "build_policy_input_from_semantic sample_hash s id_release sample_governance
      = Inr (reconstructed_input s id_release (tl sample_trusted) [''t''])"
    "build_policy_input_from_semantic sample_hash s pair_release sample_governance
      = Inr (reconstructed_input s pair_release sample_trusted [''t''])" by simp_all
qed

lemma sample_policy_allows:
  assumes "s \<in> {id_state, snap_state}" and "revalidate_state sample_hash s = Inr s"
  shows "policy_allows sample_hash Policy.sample_config sample_governance s replay_action"
    "\<not> policy_allows sample_hash Policy.sample_config sample_governance s pair_action"
proof -
  note built = sample_built [OF assms]
  obtain d e where "evaluate Policy.sample_config (reconstructed_input s id_release (tl sample_trusted) [''t'']) = Inr d"
    "evaluate Policy.sample_config (reconstructed_input s pair_release sample_trusted [''t'']) = Inr e"
    "pd_decision d = ALLOW" "pd_decision e = BLOCK"
    using evaluate_refines_spec sample_decisions [OF assms(1)] by metis
  with built show "policy_allows sample_hash Policy.sample_config sample_governance s replay_action"
    "\<not> policy_allows sample_hash Policy.sample_config sample_governance s pair_action"
    by (simp_all add: policy_allows_def evaluate_semantic_with_policy_def)
qed

lemma snap_state_revalidated: "revalidate_state sample_hash snap_state = Inr snap_state"
proof -
  have "ds_scope snap_state = sample_scope" by (simp add: snap_state_def id_state_def)
  moreover have "valid_atoms sample_hash (ds_released_atoms snap_state)"
    using id_atoms_valid by (simp add: valid_atoms_def list_all_iff)
  ultimately show ?thesis using state_revalidates [OF snap_state_valid] sample_scope_valid by simp
qed

lemma sample_policy_answers: "answers_as (as_local_oracle sample_hash Policy.sample_config sample_bound_oracle) no_projection"
  unfolding answers_as_def
proof (intro ballI allI impI)
  fix s a s'
  assume s: "s \<in> {id_state, snap_state}" and a: "a \<in> set (gm_actions id_grammar)"
    and step: "apply_future_action sample_hash s a id_grammar = Inr s'"
  have valid: "revalidate_state sample_hash s = Inr s" using s sample_state_revalidated snap_state_revalidated by auto
  from local_oracle_answers [OF hex_digest_sample sample_bound valid step]
  obtain d where d: "invoke_local_oracle sample_hash (as_local_oracle sample_hash Policy.sample_config sample_bound_oracle) s a = Some d"
    "od_admissible d = policy_allows sample_hash Policy.sample_config sample_governance s a" by blast
  have "policy_allows sample_hash Policy.sample_config sample_governance s a = no_projection a"
  proof (cases "a = snap_action")
    case True
    with s step sample_transitions(4) have "s = id_state" by auto
    with True show ?thesis by (simp add: policy_allows_def no_projection_def) (simp add: snap_action_def id_state_def)
  next
    case False
    with a sample_policy_allows [OF s valid] show ?thesis
      by (auto simp: no_projection_def replay_action_def pair_action_def)
  qed
  with d show "\<exists>d. invoke_local_oracle sample_hash (as_local_oracle sample_hash Policy.sample_config sample_bound_oracle) s a = Some d
      \<and> od_admissible d = no_projection a" by auto
qed

lemma sample_pair_grounds:
  "block_reasons Policy.sample_config (reconstructed_input id_state pair_release sample_trusted [''t'']) = [DIRECT_SENSITIVE_LINKAGE]"
  by code_simp

lemma distinct_single: "distinct xs \<Longrightarrow> set xs = {x} \<Longrightarrow> xs = [x]"
  by (cases xs; cases "tl xs") auto

lemma oracle_decides_policy_witness:
  "answers_with sample_hash Policy.sample_config sample_bound_oracle id_state replay_action True
      [''POLICY_DECISION=ALLOW'', ''POLICY_REASON=NO_COMPOSITIONAL_RISK'']
   \<and> answers_with sample_hash Policy.sample_config sample_bound_oracle id_state pair_action False
      [''POLICY_DECISION=BLOCK'', ''POLICY_REASON=DIRECT_SENSITIVE_LINKAGE'']
   \<and> answers_with sample_hash Policy.sample_config sample_bound_oracle id_state (replay_action\<lparr>fa_semantic := None\<rparr>) False
      [''ACTION_OUTSIDE_BOUND_GRAMMAR'']"
proof -
  have hex: "\<forall>text. is_sha256 (sample_hash text)" using hex_digest_sample by (simp add: hex_digest_def)
  note decides = oracle_decides_policy [OF hex sample_bound sample_state_revalidated]
  have acts: "replay_action \<in> set (gm_actions id_grammar)" "pair_action \<in> set (gm_actions id_grammar)"
    "require_state_in_model_universe id_state (gm_context id_grammar) = Inr ()" by (simp_all add: id_in_universe)
  have sha: "is_sha256 (fa_action_sha256 a)" if "a \<in> set (gm_actions id_grammar)" for a
    using bound_action(2) [OF sample_bound that] by (auto simp: revalidate_action_def dest: validate_action_Inr(3))
  note built = sample_built [OF _ sample_state_revalidated, simplified]
  let ?allow = "reconstructed_input id_state id_release (tl sample_trusted) [''t'']"
  let ?block = "reconstructed_input id_state pair_release sample_trusted [''t'']"
  obtain d e where d: "evaluate Policy.sample_config ?allow = Inr d" "pd_decision d = ALLOW"
    and e: "evaluate Policy.sample_config ?block = Inr e" "pd_decision e = BLOCK"
    using evaluate_refines_spec sample_decisions [of id_state] by (metis insertI1)
  have "block_reasons Policy.sample_config ?allow = []"
    using evaluate_decision [OF d(1)] d(2) by (auto simp: spec_decision_def Let_def split: if_splits)
  with evaluate_reasons [OF d(1)] evaluate_decision [OF d(1)] d(2)
  have "set (pd_reason_codes d) = {NO_COMPOSITIONAL_RISK}" by simp
  moreover have "set (pd_reason_codes e) = {DIRECT_SENSITIVE_LINKAGE}"
    using evaluate_reasons [OF e(1)] by (simp add: sample_pair_grounds)
  ultimately have codes: "pd_reason_codes d = [NO_COMPOSITIONAL_RISK]" "pd_reason_codes e = [DIRECT_SENSITIVE_LINKAGE]"
    using evaluate_distinct [OF d(1)] evaluate_distinct [OF e(1)] by (simp_all add: distinct_single)
  have "replay_action\<lparr>fa_semantic := None\<rparr> \<notin> set (gm_actions id_grammar)"
    by (simp add: replay_action_def pair_action_def snap_action_def)
  with decides [of "replay_action\<lparr>fa_semantic := None\<rparr>"] sha [OF acts(1)]
  have "answers_with sample_hash Policy.sample_config sample_bound_oracle id_state (replay_action\<lparr>fa_semantic := None\<rparr>) False
      [''ACTION_OUTSIDE_BOUND_GRAMMAR'']" by simp
  moreover have "fa_semantic replay_action = Some id_release" "fa_semantic pair_action = Some pair_release" by simp_all
  ultimately show ?thesis
    using decides [OF sha [OF acts(1)]] decides [OF sha [OF acts(2)]] acts built d e codes by simp
qed

lemma admitted_release_safe_witness:
  "\<exists>d. policy_engine_oracle sample_hash Policy.sample_config sample_bound_oracle id_state replay_action = Inr d \<and> od_admissible d
     \<and> \<not> (\<exists>c. exposes id_release c \<and> governed_as sample_governance c SENSITIVE_ATTRIBUTE)"
proof -
  have act: "replay_action \<in> set (gm_actions id_grammar)"
    "require_state_in_model_universe id_state (gm_context id_grammar) = Inr ()" by (simp_all add: id_in_universe)
  from oracle_answers [OF hex_digest_sample sample_bound sample_state_revalidated act] sample_policy_allows(1) [OF _ sample_state_revalidated]
  obtain d where d: "policy_engine_oracle sample_hash Policy.sample_config sample_bound_oracle id_state replay_action = Inr d"
    "od_admissible d" by auto
  have sem: "fa_semantic replay_action = Some id_release" by simp
  have names: "inj_on (\<lambda>c. ref_key (cc_ref c)) (set (og_columns sample_governance))"
    by (simp add: oracle_column_def ref_key_def)
  have "exposes id_release (sample_column ''id'' DIRECT_IDENTIFIER)"
    "governed_as sample_governance (sample_column ''id'' DIRECT_IDENTIFIER) DIRECT_IDENTIFIER"
    by (simp_all add: exposes_def id_release_def exposed_value_kinds_def governed_as_def column_matches_def oracle_column_def
        sample_column_def)
  with admitted_release_safe [OF sample_bound d sem names] d show ?thesis by blast
qed

lemma checker_over_policy_witness:
  "\<exists>r e. check_prospective_privacy sample_hash id_state id_grammar sample_policy (Some sample_binding)
       (as_local_oracle sample_hash Policy.sample_config sample_bound_oracle) (Some Search_Samples.sample_config) = Inr r
     \<and> pr_status r = NO_COUNTEREXAMPLE_WITHIN_BOUND
     \<and> allowed_run sample_hash Policy.sample_config sample_governance
          (sample_search (as_local_oracle sample_hash Policy.sample_config sample_bound_oracle)) 1 snap_state (Some empty_path)
     \<and> evaluate_forbidden_state sample_hash snap_state sample_policy (Some sample_binding) (Some empty_path) = Inr e
     \<and> \<not> se_forbidden e"
proof -
  let ?f = "as_local_oracle sample_hash Policy.sample_config sample_bound_oracle"
  let ?i = "sample_search ?f"
  obtain r where r: "check_prospective_privacy sample_hash (si_initial_state ?i) (si_grammar ?i) (si_policy ?i) (si_binding ?i)
      (si_oracle ?i) (Some (si_config ?i)) = Inr r" "pr_status r = NO_COUNTEREXAMPLE_WITHIN_BOUND"
    using safe_sample [OF sample_policy_answers] sample_check by auto
  have hex: "\<forall>text. is_sha256 (sample_hash text)" using hex_digest_sample by (simp add: hex_digest_def)
  have bound: "bind_policy_oracle sample_hash Policy.sample_config (si_grammar ?i) sample_governance = Inr sample_bound_oracle"
    by (simp add: sample_bound)
  have plugged: "si_oracle ?i = ?f" by simp
  have run: "allowed_run sample_hash Policy.sample_config sample_governance ?i 1 snap_state (Some empty_path)"
    using safe_reaches_snap [OF sample_policy_answers] allowed_run_reach [OF sample_search_valid plugged bound] by blast
  have "int 1 \<le> pc_bound (si_config ?i)" by simp
  with checker_over_policy [OF r(1) hex bound plugged] r(2) safe_faithful [OF sample_policy_answers] run
  have "\<exists>e. evaluate_forbidden_state sample_hash snap_state (si_policy ?i) (si_binding ?i) (Some empty_path) = Inr e \<and> \<not> se_forbidden e"
    by blast
  with r run show ?thesis by auto
qed

end
