(* ===== verification/Auth.thy ===== *)
theory Auth
  imports Prelude
begin

text \<open>
  API-key authentication and request identities, \<open>src/toxicjoin/auth.py\<close>. Keys are kept as keyed
  hashes under a process-local pepper; \<open>K\<close> is that keyed hash. The identity bound to a request is
  a context variable, which the other components take as an argument; reading the configuration
  from the environment and parsing it as JSON is left out.
\<close>

datatype auth_scope = SCOPE_ANALYZE | SCOPE_EXECUTE | SCOPE_RECEIPTS_READ | SCOPE_SYSTEM_READ

record request_identity =
  ri_principal_id :: string
  ri_credential_id :: string
  ri_agent_id :: "string option"
  ri_session_id :: "string option"

definition is_session :: "string \<Rightarrow> bool" where
  "is_session s = (case s of [] \<Rightarrow> False
     | c # cs \<Rightarrow> is_alnum c \<and> length cs \<le> 127 \<and> list_all (\<lambda>d. is_alnum d \<or> d \<in> set ''._:-'') cs)"

definition validate_identity :: "request_identity \<Rightarrow> request_identity result" where
  "validate_identity i = raise_first
     [(\<not> is_identifier (ri_principal_id i), ValidationError ''principal_id pattern''),
      (\<not> is_identifier (ri_credential_id i), ValidationError ''credential_id pattern''),
      (\<not> opt_all is_identifier (ri_agent_id i), ValidationError ''agent_id pattern''),
      (\<not> opt_all is_session (ri_session_id i), ValidationError ''session_id pattern'')] i"

definition identity_json :: "request_identity \<Rightarrow> json" where
  "identity_json i = JObj [(''principal_id'', JStr (ri_principal_id i)), (''credential_id'', JStr (ri_credential_id i)),
     (''agent_id'', jopt JStr (ri_agent_id i)), (''session_id'', jopt JStr (ri_session_id i))]"

record authenticated_request =
  ar_identity :: request_identity
  ar_scopes :: "auth_scope list"

definition has_scope :: "authenticated_request \<Rightarrow> auth_scope \<Rightarrow> bool" where
  "has_scope request scope \<longleftrightarrow> scope \<in> set (ar_scopes request)"

record credential_config =
  kc_credential_id :: string
  kc_api_key :: string
  kc_principal_id :: string
  kc_scopes :: "auth_scope list"
  kc_agent_id :: "string option"

definition validate_credential_config :: "credential_config \<Rightarrow> credential_config result" where
  "validate_credential_config c = raise_first
     [(\<not> is_identifier (kc_credential_id c), ValidationError ''credential_id pattern''),
      (\<not> len_between 32 512 (kc_api_key c), ValidationError ''api_key length''),
      (\<not> is_identifier (kc_principal_id c), ValidationError ''principal_id pattern''),
      (\<not> opt_all is_identifier (kc_agent_id c), ValidationError ''agent_id pattern'')] c"

record stored_credential =
  sk_credential_id :: string
  sk_key_sha256 :: string
  sk_principal_id :: string
  sk_scopes :: "auth_scope list"
  sk_agent_id :: "string option"

definition validate_stored_credential :: "stored_credential \<Rightarrow> stored_credential result" where
  "validate_stored_credential c = raise_first
     [(\<not> is_identifier (sk_credential_id c), ValidationError ''credential_id pattern''),
      (\<not> is_sha256 (sk_key_sha256 c), ValidationError ''key_sha256 pattern''),
      (\<not> is_identifier (sk_principal_id c), ValidationError ''principal_id pattern''),
      (\<not> opt_all is_identifier (sk_agent_id c), ValidationError ''agent_id pattern'')] c"

definition stored_of :: "(string \<Rightarrow> string) \<Rightarrow> credential_config \<Rightarrow> stored_credential" where
  "stored_of K c = \<lparr>sk_credential_id = kc_credential_id c, sk_key_sha256 = K (kc_api_key c),
     sk_principal_id = kc_principal_id c, sk_scopes = map fst (dict_of (\<lambda>x. x) (kc_scopes c)), sk_agent_id = kc_agent_id c\<rparr>"

text \<open>The loop of \<open>ApiKeyAuthenticator.__init__\<close>, with the ids and hashes seen so far.\<close>

fun store_credentials ::
    "(string \<Rightarrow> string) \<Rightarrow> credential_config list \<Rightarrow> string list \<Rightarrow> string list \<Rightarrow> stored_credential list result" where
  "store_credentials K [] ids digests = Inr []"
| "store_credentials K (c # cs) ids digests =
     (if kc_credential_id c \<in> set ids then Inl (ValueError ''duplicate API credential_id'')
      else if K (kc_api_key c) \<in> set digests then Inl (ValueError ''duplicate API key material'')
      else if kc_scopes c = [] then Inl (ValueError ''API credential must grant at least one scope'')
      else bindr (validate_stored_credential (stored_of K c)) (\<lambda>stored.
        bindr (store_credentials K cs (ids @ [kc_credential_id c]) (digests @ [K (kc_api_key c)])) (\<lambda>rest.
          Inr (stored # rest))))"

definition build_authenticator :: "(string \<Rightarrow> string) \<Rightarrow> credential_config list \<Rightarrow> stored_credential list result" where
  "build_authenticator K configs =
     (if configs = [] then Inl (ValueError ''at least one API credential is required'')
      else store_credentials K configs [] [])"

text \<open>The constant-time loop compares every credential and keeps the last match.\<close>

fun match_credential :: "string \<Rightarrow> stored_credential list \<Rightarrow> stored_credential option \<Rightarrow> stored_credential option" where
  "match_credential presented [] matched = matched"
| "match_credential presented (c # cs) matched =
     match_credential presented cs (if sk_key_sha256 c = presented then Some c else matched)"

fun rethrow_session :: "'a result \<Rightarrow> 'a result" where
  "rethrow_session (Inl (ValidationError m)) = Inl (AuthenticationError ''AUTH_INVALID_SESSION'')"
| "rethrow_session r = r"

lemma rethrow_session_Inr [simp]: "rethrow_session r = Inr x \<longleftrightarrow> r = Inr x"
  by (cases r rule: rethrow_session.cases) auto

definition authenticate ::
    "(string \<Rightarrow> string) \<Rightarrow> stored_credential list \<Rightarrow> string \<Rightarrow> string option \<Rightarrow> authenticated_request result" where
  "authenticate K credentials api_key session_id =
     (if api_key = [] then Inl (AuthenticationError ''AUTH_MISSING_API_KEY'')
      else case match_credential (K api_key) credentials None of
          None \<Rightarrow> Inl (AuthenticationError ''AUTH_INVALID_API_KEY'')
        | Some matched \<Rightarrow> bindr (rethrow_session (validate_identity
            \<lparr>ri_principal_id = sk_principal_id matched, ri_credential_id = sk_credential_id matched,
             ri_agent_id = sk_agent_id matched, ri_session_id = session_id\<rparr>))
            (\<lambda>identity. Inr \<lparr>ar_identity = identity, ar_scopes = sk_scopes matched\<rparr>))"

definition require_scope ::
    "(string \<Rightarrow> string) \<Rightarrow> stored_credential list \<Rightarrow> string \<Rightarrow> auth_scope \<Rightarrow> string option \<Rightarrow> authenticated_request result" where
  "require_scope K credentials api_key scope session_id =
     bindr (authenticate K credentials api_key session_id) (\<lambda>authenticated.
       if \<not> has_scope authenticated scope then Inl (AuthorizationError ''AUTH_INSUFFICIENT_SCOPE'')
       else Inr authenticated)"

definition fixture_anonymous_request :: authenticated_request where
  "fixture_anonymous_request = \<lparr>ar_identity = \<lparr>ri_principal_id = ''fixture:anonymous'',
       ri_credential_id = ''fixture:anonymous'', ri_agent_id = Some ''fixture:judge'', ri_session_id = None\<rparr>,
     ar_scopes = [SCOPE_ANALYZE, SCOPE_EXECUTE, SCOPE_RECEIPTS_READ, SCOPE_SYSTEM_READ]\<rparr>"

section \<open>What authentication accepts\<close>

lemma store_credentials_Inr:
  "store_credentials K configs ids digests = Inr stored \<Longrightarrow> stored = map (stored_of K) configs
     \<and> distinct (map (\<lambda>c. K (kc_api_key c)) configs) \<and> (\<lambda>c. K (kc_api_key c)) ` set configs \<inter> set digests = {}
     \<and> (\<forall>c \<in> set configs. validate_stored_credential (stored_of K c) = Inr (stored_of K c) \<and> kc_scopes c \<noteq> [])"
proof (induction K configs ids digests arbitrary: stored rule: store_credentials.induct)
  case (2 K c cs ids digests)
  then obtain s rest where s: "validate_stored_credential (stored_of K c) = Inr s" "stored = s # rest"
    and rest: "store_credentials K cs (ids @ [kc_credential_id c]) (digests @ [K (kc_api_key c)]) = Inr rest"
    and guards: "kc_credential_id c \<notin> set ids" "K (kc_api_key c) \<notin> set digests" "kc_scopes c \<noteq> []"
    by (auto split: if_splits)
  then have "s = stored_of K c" by (auto simp: validate_stored_credential_def)
  with 2(1) [OF guards rest] s guards show ?case by auto
qed simp

lemma match_credential_fold:
  "match_credential presented cs matched =
     (case filter (\<lambda>c. sk_key_sha256 c = presented) cs of [] \<Rightarrow> matched | ms \<Rightarrow> Some (last ms))"
  by (induction presented cs matched rule: match_credential.induct) (auto split: list.splits)

lemma match_credential_unique:
  assumes "distinct (map sk_key_sha256 cs)"
  shows "match_credential presented cs None = Some c \<longleftrightarrow> c \<in> set cs \<and> sk_key_sha256 c = presented"
proof
  assume "match_credential presented cs None = Some c"
  then obtain m ms where ms: "filter (\<lambda>c. sk_key_sha256 c = presented) cs = m # ms" "c = last (m # ms)"
    by (auto simp: match_credential_fold split: list.splits)
  then have "c \<in> set (filter (\<lambda>c. sk_key_sha256 c = presented) cs)" by (metis last_in_set list.distinct(1))
  then show "c \<in> set cs \<and> sk_key_sha256 c = presented" by simp
next
  assume c: "c \<in> set cs \<and> sk_key_sha256 c = presented"
  let ?ms = "filter (\<lambda>c. sk_key_sha256 c = presented) cs"
  from c have ne: "?ms \<noteq> []" by (auto simp: filter_empty_conv)
  then have "last ?ms \<in> set ?ms" by (rule last_in_set)
  then have "last ?ms = c" using c assms by (auto simp: distinct_map dest: inj_onD)
  moreover have "match_credential presented cs None = Some (last ?ms)"
    unfolding match_credential_fold using ne by (simp only: neq_Nil_conv) (elim exE, simp only: list.case)
  ultimately show "match_credential presented cs None = Some c" by simp
qed

text \<open>C28: authentication_exact. An authenticator accepts exactly the non-empty keys whose keyed hash is that of a
  configured credential, for a well-formed session, and then returns the identity and the scopes of
  that one credential: no two configured credentials share a hash. A scope is granted exactly when
  that credential lists it.\<close>

theorem authentication_exact:
  assumes "build_authenticator K configs = Inr credentials"
  shows "(authenticate K credentials api_key session = Inr request \<longleftrightarrow> api_key \<noteq> [] \<and> opt_all is_session session
      \<and> (\<exists>c \<in> set configs. K (kc_api_key c) = K api_key
          \<and> request = \<lparr>ar_identity = \<lparr>ri_principal_id = kc_principal_id c, ri_credential_id = kc_credential_id c,
               ri_agent_id = kc_agent_id c, ri_session_id = session\<rparr>, ar_scopes = map fst (dict_of (\<lambda>x. x) (kc_scopes c))\<rparr>))
    \<and> (require_scope K credentials api_key scope session = Inr request \<longleftrightarrow>
         authenticate K credentials api_key session = Inr request \<and> scope \<in> set (ar_scopes request))
    \<and> distinct (map (\<lambda>c. K (kc_api_key c)) configs)"
proof -
  from assms have s: "credentials = map (stored_of K) configs" "distinct (map (\<lambda>c. K (kc_api_key c)) configs)"
    "\<forall>c \<in> set configs. validate_stored_credential (stored_of K c) = Inr (stored_of K c)"
    by (auto simp: build_authenticator_def dest: store_credentials_Inr split: if_splits)
  have keys: "map sk_key_sha256 credentials = map (\<lambda>c. K (kc_api_key c)) configs" by (simp add: s(1) stored_of_def)
  have match: "match_credential (K api_key) credentials None = Some m
      \<longleftrightarrow> (\<exists>c \<in> set configs. m = stored_of K c \<and> K (kc_api_key c) = K api_key)" for m
    by (subst match_credential_unique [OF s(2) [folded keys]]) (auto simp: s(1) stored_of_def)
  have session: "validate_identity \<lparr>ri_principal_id = kc_principal_id c, ri_credential_id = kc_credential_id c,
      ri_agent_id = kc_agent_id c, ri_session_id = session\<rparr> = Inr i \<longleftrightarrow> opt_all is_session session
      \<and> i = \<lparr>ri_principal_id = kc_principal_id c, ri_credential_id = kc_credential_id c,
         ri_agent_id = kc_agent_id c, ri_session_id = session\<rparr>" if "c \<in> set configs" for c i
    using s(3) that by (auto simp: validate_identity_def validate_stored_credential_def stored_of_def)
  have "authenticate K credentials api_key session = Inr request \<longleftrightarrow> api_key \<noteq> [] \<and> opt_all is_session session
      \<and> (\<exists>c \<in> set configs. K (kc_api_key c) = K api_key
          \<and> request = \<lparr>ar_identity = \<lparr>ri_principal_id = kc_principal_id c, ri_credential_id = kc_credential_id c,
               ri_agent_id = kc_agent_id c, ri_session_id = session\<rparr>, ar_scopes = map fst (dict_of (\<lambda>x. x) (kc_scopes c))\<rparr>)"
    by (auto simp: authenticate_def match session stored_of_def intro!: bexI)
  then show ?thesis using s(2) by (auto simp: require_scope_def has_scope_def)
qed

definition sample_key :: "string \<Rightarrow> credential_config" where
  "sample_key name = \<lparr>kc_credential_id = name, kc_api_key = name @ replicate 32 CHR ''k'', kc_principal_id = ''alice'',
     kc_scopes = [SCOPE_ANALYZE, SCOPE_ANALYZE], kc_agent_id = None\<rparr>"

text \<open>A keyed hash that tells the two sample keys apart.\<close>

definition sample_keyed_hash :: "string \<Rightarrow> string" where
  "sample_keyed_hash s = replicate 64 (if take 1 s = ''a'' then CHR ''a'' else if take 1 s = ''b'' then CHR ''b'' else CHR ''0'')"

lemma sample_authenticator: "build_authenticator sample_keyed_hash [sample_key ''a'', sample_key ''b'']
   = Inr (map (stored_of sample_keyed_hash) [sample_key ''a'', sample_key ''b''])"
  by code_simp

lemma authentication_exact_witness:
  "\<exists>request. authenticate sample_keyed_hash (map (stored_of sample_keyed_hash) [sample_key ''a'', sample_key ''b''])
       (kc_api_key (sample_key ''b'')) None = Inr request \<and> ri_credential_id (ar_identity request) = ''b''
     \<and> ar_scopes request = [SCOPE_ANALYZE]
     \<and> \<not> (\<exists>r. require_scope sample_keyed_hash (map (stored_of sample_keyed_hash) [sample_key ''a'', sample_key ''b''])
       (kc_api_key (sample_key ''b'')) SCOPE_EXECUTE None = Inr r)"
proof -
  let ?r = "\<lparr>ar_identity = \<lparr>ri_principal_id = ''alice'', ri_credential_id = ''b'', ri_agent_id = None, ri_session_id = None\<rparr>,
    ar_scopes = [SCOPE_ANALYZE]\<rparr>"
  note exact = authentication_exact [OF sample_authenticator, of "kc_api_key (sample_key ''b'')" None]
  have fields: "sample_keyed_hash (kc_api_key (sample_key ''a'')) \<noteq> sample_keyed_hash (kc_api_key (sample_key ''b''))"
    "map fst (dict_of (\<lambda>x. x) (kc_scopes (sample_key ''b''))) = [SCOPE_ANALYZE]" "kc_principal_id (sample_key ''b'') = ''alice''"
    "kc_credential_id (sample_key ''b'') = ''b''" "kc_agent_id (sample_key ''b'') = None" "kc_api_key (sample_key ''b'') \<noteq> []"
    by code_simp+
  have accepted: "authenticate sample_keyed_hash (map (stored_of sample_keyed_hash) [sample_key ''a'', sample_key ''b''])
      (kc_api_key (sample_key ''b'')) None = Inr request \<longleftrightarrow> request = ?r" for request
    using exact [of request] fields by simp
  then have "\<not> (\<exists>r. require_scope sample_keyed_hash (map (stored_of sample_keyed_hash) [sample_key ''a'', sample_key ''b''])
       (kc_api_key (sample_key ''b'')) SCOPE_EXECUTE None = Inr r)"
    using conjunct1 [OF conjunct2 [OF exact]] by simp
  with accepted show ?thesis by simp
qed

end
