(* ===== verification/Context.thy ===== *)
theory Context
  imports Policy
begin

text \<open>
  Governed metadata for a query plan, \<open>src/toxicjoin/context\<close>: the provider-neutral
  \<open>ContextResolution\<close> of \<open>models.py\<close>, the fixture catalog and its resolver of \<open>fixture.py\<close>, and the
  snapshot bindings of \<open>governance.py\<close>. A dictionary of the catalog is an association list; instants
  are microseconds since the epoch, and a binding's timestamps are already UTC. Reading a catalog
  file and parsing its JSON is left out.
\<close>

section \<open>Resolutions\<close>

record context_resolution =
  rs_projected_context :: "column_context list"
  rs_all_referenced_context :: "column_context list"
  rs_failures :: "reason_code list"

definition to_policy_input ::
    "context_resolution \<Rightarrow> string \<Rightarrow> query_plan \<Rightarrow> column_ref option \<Rightarrow> int option \<Rightarrow> policy_input result" where
  "to_policy_input r task_purpose plan subject_key minimum = validate_policy_input
     \<lparr>pi_task_purpose = task_purpose, pi_query_plan = plan, pi_projected_context = rs_projected_context r,
      pi_all_referenced_context = rs_all_referenced_context r, pi_subject_key = subject_key,
      pi_minimum_group_size_present =
        (if minimum \<noteq> None then minimum else qp_minimum_group_size_present plan),
      pi_upstream_failures = rs_failures r\<rparr>"

section \<open>The fixture catalog\<close>

record fixture_field =
  ff_category :: sensitivity_category
  ff_tags :: "string list"
  ff_glossary_terms :: "string list"
  ff_lineage_sources :: "lineage_source list"

record fixture_dataset =
  fd_urn :: string
  fd_owner :: "string option"
  fd_domain :: "string option"
  fd_fields :: "(string \<times> fixture_field) list"

record fixture_catalog =
  fc_version :: string
  fc_datasets :: "(string \<times> fixture_dataset) list"

definition unresolved_context :: "column_ref \<Rightarrow> column_context" where
  "unresolved_context ref = \<lparr>cc_ref = ref, cc_category = UNCLASSIFIED, cc_datahub_urn = None, cc_tags = [],
     cc_glossary_terms = [], cc_lineage_sources = [], cc_resolved = False\<rparr>"

definition resolve_one :: "fixture_catalog \<Rightarrow> column_ref \<Rightarrow> (column_context \<times> reason_code option) result" where
  "resolve_one catalog ref =
     (if take 1 (cr_dataset ref) = ''@'' then Inr (unresolved_context ref, Some UNRESOLVED_DATASET)
      else case map_of (fc_datasets catalog) (cr_dataset ref) of
          None \<Rightarrow> Inr (unresolved_context ref, Some UNRESOLVED_DATASET)
        | Some dataset \<Rightarrow> (case map_of (fd_fields dataset) (cr_field_path ref) of
              None \<Rightarrow> Inr (unresolved_context ref, Some UNRESOLVED_COLUMN)
            | Some field \<Rightarrow> bindr (validate_column_context
                \<lparr>cc_ref = ref, cc_category = ff_category field, cc_datahub_urn = Some (fd_urn dataset),
                 cc_tags = ff_tags field, cc_glossary_terms = ff_glossary_terms field,
                 cc_lineage_sources = ff_lineage_sources field, cc_resolved = True\<rparr>) (\<lambda>ctx.
                Inr (ctx, if ff_category field = UNCLASSIFIED
                       \<or> list_ex (\<lambda>s. ls_category s = UNCLASSIFIED) (ff_lineage_sources field)
                     then Some UNCLASSIFIED_COLUMN else None))))"

text \<open>\<open>_resolve_many\<close>: the failures and the cache are shared between the two calls of \<open>resolve\<close>.\<close>

fun resolve_refs ::
    "fixture_catalog \<Rightarrow> column_ref list \<Rightarrow> reason_code list \<Rightarrow> (string \<times> column_context) list
      \<Rightarrow> (string \<times> column_context) list
      \<Rightarrow> (reason_code list \<times> (string \<times> column_context) list \<times> (string \<times> column_context) list) result" where
  "resolve_refs catalog [] failures cache resolved = Inr (failures, cache, resolved)"
| "resolve_refs catalog (ref # refs) failures cache resolved =
     (case map_of cache (ref_key ref) of
        Some ctx \<Rightarrow> resolve_refs catalog refs failures cache (AList.update (ref_key ref) ctx resolved)
      | None \<Rightarrow> bindr (resolve_one catalog ref) (\<lambda>(ctx, failure).
          resolve_refs catalog refs (failures @ (case failure of None \<Rightarrow> [] | Some f \<Rightarrow> [f]))
            (AList.update (ref_key ref) ctx cache) (AList.update (ref_key ref) ctx resolved)))"

definition resolve_many ::
    "fixture_catalog \<Rightarrow> column_ref list \<Rightarrow> reason_code list \<Rightarrow> (string \<times> column_context) list
      \<Rightarrow> (reason_code list \<times> (string \<times> column_context) list \<times> column_context list) result" where
  "resolve_many catalog refs failures cache =
     bindr (resolve_refs catalog refs failures cache []) (\<lambda>(failures', cache', resolved).
       Inr (failures', cache', sorted_values resolved))"

definition merge_refs :: "column_ref list list \<Rightarrow> column_ref list" where
  "merge_refs collections = by_key ref_key (concat collections)"

definition resolve :: "fixture_catalog \<Rightarrow> query_plan \<Rightarrow> context_resolution result" where
  "resolve catalog plan =
     (let failures = (if qp_contains_wildcard plan then [UNRESOLVED_COLUMN] else []) in
      bindr (resolve_many catalog (qp_projected_columns plan) failures []) (\<lambda>(failures1, cache, projected).
        let referenced = (if qp_referenced_columns plan \<noteq> [] then qp_referenced_columns plan
              else merge_refs [qp_projected_columns plan, qp_join_columns plan, qp_group_by_columns plan])
        in bindr (resolve_many catalog referenced failures1 cache) (\<lambda>(failures2, _, all_referenced).
          Inr \<lparr>rs_projected_context = projected, rs_all_referenced_context = all_referenced,
               rs_failures = map fst (dict_of (\<lambda>x. x) failures2)\<rparr>)))"

section \<open>Governance bindings\<close>

record governance_snapshot =
  gb_source :: string
  gb_snapshot_sha256 :: string
  gb_catalog_version :: string
  gb_observed_at :: int
  gb_expires_at :: int

definition validate_snapshot_binding :: "governance_snapshot \<Rightarrow> governance_snapshot result" where
  "validate_snapshot_binding b = raise_first
     [(\<not> len_between 1 64 (gb_source b), ValidationError ''source length''),
      (\<not> is_sha256 (gb_snapshot_sha256 b), ValidationError ''snapshot_sha256 pattern''),
      (\<not> len_between 1 256 (gb_catalog_version b), ValidationError ''catalog_version length''),
      (gb_expires_at b \<le> gb_observed_at b,
         ValidationError ''governance binding expires_at must follow observed_at'')] b"

definition assert_fresh :: "governance_snapshot \<Rightarrow> int \<Rightarrow> unit result" where
  "assert_fresh b now = (if gb_expires_at b \<le> now
     then Inl (GovernanceContextStaleError ''governance snapshot exceeded its freshness SLA'') else Inr ())"

definition binding_json :: "(int \<Rightarrow> string) \<Rightarrow> governance_snapshot \<Rightarrow> json" where
  "binding_json ts b = JObj [(''source'', JStr (gb_source b)), (''snapshot_sha256'', JStr (gb_snapshot_sha256 b)),
     (''catalog_version'', JStr (gb_catalog_version b)), (''observed_at'', JStr (ts (gb_observed_at b))),
     (''expires_at'', JStr (ts (gb_expires_at b)))]"

definition require_same_governance_binding ::
    "governance_snapshot option \<Rightarrow> governance_snapshot option \<Rightarrow> unit result" where
  "require_same_governance_binding expected actual = (if expected \<noteq> actual
     then Inl (GovernanceContextDriftError ''governance snapshot changed during the protected operation'') else Inr ())"

text \<open>A resolver is a service the code calls: its \<open>resolve\<close>, and for a provider with provenance the two
  binding operations. Each may raise anything.\<close>

record context_resolver =
  cv_resolve :: "query_plan \<Rightarrow> context_resolution result"
  cv_bound_resolve :: "(query_plan \<Rightarrow> (context_resolution \<times> governance_snapshot) result) option"
  cv_current_binding :: "governance_snapshot result option"

definition resolve_with_governance_binding ::
    "context_resolver \<Rightarrow> query_plan \<Rightarrow> (context_resolution \<times> governance_snapshot option) result" where
  "resolve_with_governance_binding resolver plan = (case cv_bound_resolve resolver of
       Some bound \<Rightarrow> bindr (bound plan) (\<lambda>(resolution, binding). Inr (resolution, Some binding))
     | None \<Rightarrow> bindr (cv_resolve resolver plan) (\<lambda>resolution. Inr (resolution, None)))"

definition current_governance_binding :: "context_resolver \<Rightarrow> governance_snapshot option result" where
  "current_governance_binding resolver = (case cv_current_binding resolver of
       None \<Rightarrow> Inr None | Some r \<Rightarrow> bindr r (\<lambda>binding. Inr (Some binding)))"

definition fixture_resolver :: "fixture_catalog \<Rightarrow> context_resolver" where
  "fixture_resolver catalog = \<lparr>cv_resolve = resolve catalog, cv_bound_resolve = None, cv_current_binding = None\<rparr>"

end
