(* ===== verification/Semantics.thy ===== *)
theory Semantics
  imports Disclosure_Models Auth Context
begin

text \<open>
  Governed disclosure semantics of an analyzed query, \<open>src/toxicjoin/disclosure/semantic.py\<close>: the
  stable subject namespace, the privacy scope, the semantic release and the disclosure event, each
  derived once from a fixture catalog and once through a context resolver. \<open>H\<close> is SHA-256. The names
  that error messages interpolate are left out of them.
\<close>

section \<open>Contexts by column\<close>

definition same_governance_context :: "column_context \<Rightarrow> column_context \<Rightarrow> bool" where
  "same_governance_context left right \<longleftrightarrow>
     cr_dataset (cc_ref left) = cr_dataset (cc_ref right)
     \<and> cr_field_path (cc_ref left) = cr_field_path (cc_ref right)
     \<and> cc_category left = cc_category right
     \<and> cc_datahub_urn left = cc_datahub_urn right
     \<and> sort (cc_tags left) = sort (cc_tags right)
     \<and> sort (cc_glossary_terms left) = sort (cc_glossary_terms right)
     \<and> cc_resolved left = cc_resolved right"

fun context_entries ::
    "column_context list \<Rightarrow> (string \<times> column_context) list \<Rightarrow> (string \<times> column_context) list result" where
  "context_entries [] contexts = Inr contexts"
| "context_entries (ctx # rest) contexts =
     (case map_of contexts (ref_key (cc_ref ctx)) of
        Some existing \<Rightarrow>
          (if \<not> same_governance_context existing ctx
           then Inl (DisclosureSemanticError ''conflicting governance context for column'')
           else context_entries rest contexts)
      | None \<Rightarrow> context_entries rest (AList.update (ref_key (cc_ref ctx)) ctx contexts))"

definition context_map :: "column_context list \<Rightarrow> (string \<times> column_context) list result" where
  "context_map values = context_entries values []"

definition validate_governed_column :: "governed_column \<Rightarrow> governed_column result" where
  "validate_governed_column c = raise_first (column_checks c) c"

definition governed_column_of :: "fixture_catalog \<Rightarrow> column_ref \<Rightarrow> governed_column result" where
  "governed_column_of catalog ref =
     (case map_of (fc_datasets catalog) (cr_dataset ref) of
        None \<Rightarrow> Inl (DisclosureSemanticError ''source dataset is not governed'')
      | Some dataset \<Rightarrow> (case map_of (fd_fields dataset) (cr_field_path ref) of
            None \<Rightarrow> Inl (DisclosureSemanticError ''source column is not governed'')
          | Some field \<Rightarrow>
              (if ff_category field = UNCLASSIFIED
               then Inl (DisclosureSemanticError ''source column is unclassified'')
               else validate_governed_column \<lparr>gc_dataset_urn = fd_urn dataset,
                      gc_field_path = cr_field_path ref, gc_category = ff_category field\<rparr>)))"

definition governed_columns :: "fixture_catalog \<Rightarrow> column_ref list \<Rightarrow> governed_column list result" where
  "governed_columns catalog refs =
     bindr (mapr (governed_column_of catalog) refs) (\<lambda>columns. Inr (by_key column_key columns))"

definition context_column :: "(string \<times> column_context) list \<Rightarrow> column_ref \<Rightarrow> governed_column result" where
  "context_column contexts ref =
     (case map_of contexts (ref_key ref) of
        None \<Rightarrow> Inl (DisclosureSemanticError ''source column is not governed'')
      | Some ctx \<Rightarrow>
          (if \<not> cc_resolved ctx then Inl (DisclosureSemanticError ''source column is not governed'')
           else if cc_category ctx = UNCLASSIFIED
           then Inl (DisclosureSemanticError ''source column is unclassified'')
           else case cc_datahub_urn ctx of
               None \<Rightarrow> Inl (DisclosureSemanticError ''source column is missing dataset URN'')
             | Some urn \<Rightarrow> validate_governed_column \<lparr>gc_dataset_urn = urn,
                 gc_field_path = cr_field_path ref, gc_category = cc_category ctx\<rparr>))"

definition governed_columns_from_context ::
    "column_ref list \<Rightarrow> (string \<times> column_context) list \<Rightarrow> governed_column list result" where
  "governed_columns_from_context refs contexts =
     bindr (mapr (context_column contexts) refs) (\<lambda>columns. Inr (by_key column_key columns))"

definition dataset_urn_of :: "fixture_catalog \<Rightarrow> string \<Rightarrow> string result" where
  "dataset_urn_of catalog logical_name =
     (case map_of (fc_datasets catalog) logical_name of
        None \<Rightarrow> Inl (DisclosureSemanticError ''source dataset is not governed'')
      | Some dataset \<Rightarrow> Inr (fd_urn dataset))"

section \<open>Semantic releases\<close>

definition validate_output :: "semantic_output \<Rightarrow> semantic_output result" where
  "validate_output out = raise_first (output_checks out) out"

definition build_release ::
    "(string \<Rightarrow> string) \<Rightarrow> string list \<Rightarrow> semantic_output list \<Rightarrow> governed_column list
      \<Rightarrow> governed_column list \<Rightarrow> governed_column list \<Rightarrow> query_plan \<Rightarrow> semantic_release result" where
  "build_release H source_dataset_urns outputs referenced joins groups plan =
     (let provisional = \<lparr>sr_source_dataset_urns = source_dataset_urns, sr_outputs = outputs,
            sr_referenced_columns = referenced, sr_join_columns = joins, sr_group_keys = groups,
            sr_aggregate_functions = sorted_set (map (\<lambda>f. py_upper (py_strip f)) (qp_aggregate_functions plan)),
            sr_minimum_group_size_present = qp_minimum_group_size_present plan,
            sr_semantic_sha256 = zero_sha256\<rparr>
      in validate_release H (provisional\<lparr>sr_semantic_sha256 := compute_semantic_sha256 H provisional\<rparr>))"

definition semantic_output_of :: "fixture_catalog \<Rightarrow> projection_exposure \<Rightarrow> semantic_output result" where
  "semantic_output_of catalog exposure = bindr (governed_columns catalog (pe_source_columns exposure))
     (\<lambda>sources. validate_output \<lparr>so_kind = pe_kind exposure, so_sources = sources\<rparr>)"

definition build_semantic_release ::
    "(string \<Rightarrow> string) \<Rightarrow> fixture_catalog \<Rightarrow> query_plan \<Rightarrow> semantic_release result" where
  "build_semantic_release H catalog plan =
     bindr (mapr (dataset_urn_of catalog) (remdups (qp_source_datasets plan))) (\<lambda>urns.
     bindr (mapr (semantic_output_of catalog) (qp_projected_exposures plan)) (\<lambda>outputs.
     bindr (governed_columns catalog (qp_referenced_columns plan)) (\<lambda>referenced.
     bindr (governed_columns catalog (qp_join_columns plan)) (\<lambda>joins.
     bindr (governed_columns catalog (qp_group_by_columns plan)) (\<lambda>groups.
       build_release H (sort urns) outputs referenced joins groups plan)))))"

definition context_output :: "(string \<times> column_context) list \<Rightarrow> projection_exposure \<Rightarrow> semantic_output result" where
  "context_output contexts exposure = bindr (governed_columns_from_context (pe_source_columns exposure) contexts)
     (\<lambda>sources. validate_output \<lparr>so_kind = pe_kind exposure, so_sources = sources\<rparr>)"

text \<open>The set of URNs of one source dataset, and the single one it must hold.\<close>

definition context_urns :: "(string \<times> column_context) list \<Rightarrow> string \<Rightarrow> string list" where
  "context_urns contexts dataset = remdups (List.map_filter
     (\<lambda>(_, ctx). if cr_dataset (cc_ref ctx) = dataset \<and> cc_resolved ctx then cc_datahub_urn ctx else None) contexts)"

definition context_dataset_urn :: "(string \<times> column_context) list \<Rightarrow> string \<Rightarrow> string result" where
  "context_dataset_urn contexts dataset = (case context_urns contexts dataset of
       [urn] \<Rightarrow> Inr urn
     | _ \<Rightarrow> Inl (DisclosureSemanticError ''source dataset governance is unresolved or ambiguous''))"

definition build_semantic_release_from_resolution ::
    "(string \<Rightarrow> string) \<Rightarrow> query_plan \<Rightarrow> context_resolution \<Rightarrow> column_context list \<Rightarrow> semantic_release result" where
  "build_semantic_release_from_resolution H plan resolution additional_context =
     bindr (context_map (rs_all_referenced_context resolution @ rs_projected_context resolution
              @ additional_context)) (\<lambda>contexts.
     bindr (mapr (context_dataset_urn contexts) (sorted_set (qp_source_datasets plan))) (\<lambda>urns.
     bindr (mapr (context_output contexts) (qp_projected_exposures plan)) (\<lambda>outputs.
     bindr (governed_columns_from_context (qp_referenced_columns plan) contexts) (\<lambda>referenced.
     bindr (governed_columns_from_context (qp_join_columns plan) contexts) (\<lambda>joins.
     bindr (governed_columns_from_context (qp_group_by_columns plan) contexts) (\<lambda>groups.
       build_release H urns outputs referenced joins groups plan))))))"

section \<open>Subject domains\<close>

definition conflicting_categories :: error where
  "conflicting_categories =
     DisclosureSemanticError ''conflicting governed subject categories across query source datasets''"

text \<open>The scan of the source datasets: URNs, categories and domains of those that carry the field.\<close>

fun scan_sources ::
    "fixture_catalog \<Rightarrow> string \<Rightarrow> string list
      \<Rightarrow> string list \<times> sensitivity_category list \<times> string list
      \<Rightarrow> (string list \<times> sensitivity_category list \<times> string list) result" where
  "scan_sources catalog field_path [] found = Inr found"
| "scan_sources catalog field_path (name # names) (urns, categories, domains) =
     (case map_of (fc_datasets catalog) name of
        None \<Rightarrow> Inl (DisclosureSemanticError ''source dataset is not governed'')
      | Some dataset \<Rightarrow> (case map_of (fd_fields dataset) field_path of
            None \<Rightarrow> scan_sources catalog field_path names (urns, categories, domains)
          | Some field \<Rightarrow>
              (if ff_category field \<notin> set SUBJECT_IDENTIFIER_CATEGORIES then Inl conflicting_categories
               else scan_sources catalog field_path names
                 (urns @ [fd_urn dataset], categories @ [ff_category field],
                  domains @ (case fd_domain dataset of None \<Rightarrow> [] | Some d \<Rightarrow> [d])))))"

definition subject_domain_of ::
    "(string \<Rightarrow> string) \<Rightarrow> string \<Rightarrow> sensitivity_category \<Rightarrow> string list \<Rightarrow> string list \<Rightarrow> subject_domain result" where
  "subject_domain_of H field_path category urns domains = validate_subject_domain H
     \<lparr>sd_field_path = field_path, sd_category = category, sd_dataset_urns = sorted_set urns,
      sd_governance_domains = sorted_set domains,
      sd_namespace_sha256 = compute_subject_namespace_sha256 H field_path category\<rparr>"

definition resolve_governed_subject_domain ::
    "(string \<Rightarrow> string) \<Rightarrow> fixture_catalog \<Rightarrow> column_ref \<Rightarrow> string list \<Rightarrow> subject_domain result" where
  "resolve_governed_subject_domain H catalog subject_key source_datasets =
     (let sources = sorted_set source_datasets in
      if sources = [] then Inl (DisclosureSemanticError ''subject domain requires at least one source dataset'')
      else case map_of (fc_datasets catalog) (cr_dataset subject_key) of
        None \<Rightarrow> Inl (DisclosureSemanticError ''subject key dataset is not governed'')
      | Some requested_dataset \<Rightarrow> (case map_of (fd_fields requested_dataset) (cr_field_path subject_key) of
          None \<Rightarrow> Inl (DisclosureSemanticError ''subject key field is not governed'')
        | Some requested_field \<Rightarrow>
            (if ff_category requested_field \<notin> set SUBJECT_IDENTIFIER_CATEGORIES
             then Inl (DisclosureSemanticError ''subject key must be a direct identifier or stable pseudonym'')
             else bindr (scan_sources catalog (cr_field_path subject_key) sources ([], [], []))
               (\<lambda>(urns, categories, domains).
                 if urns = [] then Inl (DisclosureSemanticError ''no governed subject identifier exists in query sources'')
                 else if remdups categories \<noteq> [ff_category requested_field] then Inl conflicting_categories
                 else subject_domain_of H (cr_field_path subject_key) (ff_category requested_field) urns domains))))"

fun scan_contexts ::
    "(string \<times> column_context) list \<Rightarrow> column_ref \<Rightarrow> string list
      \<Rightarrow> column_context list \<times> sensitivity_category list \<times> string list
      \<Rightarrow> (column_context list \<times> sensitivity_category list \<times> string list) result" where
  "scan_contexts contexts subject_key [] found = Inr found"
| "scan_contexts contexts subject_key (dataset # datasets) (resolved, categories, urns) =
     (case Option.bind (map_of contexts (dataset @ ''.'' @ cr_field_path subject_key))
           (\<lambda>ctx. if cc_resolved ctx then Some ctx else None) of
        None \<Rightarrow> (if dataset = cr_dataset subject_key
           then Inl (DisclosureSemanticError ''subject key field is not governed'')
           else scan_contexts contexts subject_key datasets (resolved, categories, urns))
      | Some ctx \<Rightarrow>
          (if cc_category ctx \<notin> set SUBJECT_IDENTIFIER_CATEGORIES then Inl conflicting_categories
           else case cc_datahub_urn ctx of
               None \<Rightarrow> Inl (DisclosureSemanticError ''subject governance is missing dataset URN'')
             | Some urn \<Rightarrow> scan_contexts contexts subject_key datasets
                 (resolved @ [ctx], categories @ [cc_category ctx], urns @ [urn])))"

definition subject_probe :: "string list \<Rightarrow> column_ref list \<Rightarrow> query_plan" where
  "subject_probe sources refs = \<lparr>qp_statement_type = ''SELECT'', qp_source_datasets = sources,
     qp_projected_columns = [], qp_projected_exposures = [], qp_referenced_columns = refs,
     qp_join_columns = [], qp_group_by_columns = [], qp_aggregate_functions = [],
     qp_minimum_group_size_present = None, qp_minimum_group_size_subject = None,
     qp_is_grouped = False, qp_contains_wildcard = False, qp_analysis_warnings = []\<rparr>"

text \<open>Any exception of the resolver is a failed probe.\<close>

fun probe_result :: "context_resolution result \<Rightarrow> context_resolution result" where
  "probe_result (Inl e) = Inl (DisclosureSemanticError ''subject governance probe failed'')"
| "probe_result (Inr r) = Inr r"

definition resolve_governed_subject_domain_from_resolver ::
    "(string \<Rightarrow> string) \<Rightarrow> context_resolver \<Rightarrow> query_plan \<Rightarrow> column_ref
      \<Rightarrow> (subject_domain \<times> column_context list) result" where
  "resolve_governed_subject_domain_from_resolver H resolver plan subject_key =
     (let sources = sorted_set (qp_source_datasets plan) in
      if sources = [] then Inl (DisclosureSemanticError ''subject domain requires at least one source dataset'')
      else bindr (mapr (\<lambda>dataset. validate_column_ref
             \<lparr>cr_dataset = dataset, cr_field_path = cr_field_path subject_key, cr_alias = None\<rparr>)
             (sources @ [cr_dataset subject_key])) (\<lambda>refs.
      bindr (validate_query_plan (subject_probe sources refs)) (\<lambda>probe.
      bindr (probe_result (cv_resolve resolver probe)) (\<lambda>resolution.
      bindr (context_map (rs_all_referenced_context resolution)) (\<lambda>contexts.
      case Option.bind (map_of contexts (cr_dataset subject_key @ ''.'' @ cr_field_path subject_key))
          (\<lambda>ctx. if cc_resolved ctx then Some ctx else None) of
        None \<Rightarrow> Inl (DisclosureSemanticError ''subject key field is not governed'')
      | Some requested \<Rightarrow>
          (if cc_category requested \<notin> set SUBJECT_IDENTIFIER_CATEGORIES
           then Inl (DisclosureSemanticError ''subject key must be a direct identifier or stable pseudonym'')
           else bindr (scan_contexts contexts subject_key sources ([], [], [])) (\<lambda>(resolved, categories, urns).
             if resolved = [] then Inl (DisclosureSemanticError ''no governed subject identifier exists in query sources'')
             else if remdups categories \<noteq> [cc_category requested] then Inl conflicting_categories
             else bindr (subject_domain_of H (cr_field_path subject_key) (cc_category requested) urns [])
               (\<lambda>subject. Inr (subject, sort_key (\<lambda>ctx. ref_key (cc_ref ctx)) resolved)))))))))"

section \<open>Scopes and events\<close>

definition build_disclosure_scope ::
    "(string \<Rightarrow> string) \<Rightarrow> request_identity \<Rightarrow> subject_domain \<Rightarrow> disclosure_scope result" where
  "build_disclosure_scope H identity subject = validate_scope H
     \<lparr>sc_principal_id = ri_principal_id identity, sc_agent_id = ri_agent_id identity, sc_subject = subject,
      sc_scope_sha256 = compute_scope_sha256 H (ri_principal_id identity) (ri_agent_id identity)
        (sd_namespace_sha256 subject)\<rparr>"

definition audit_identity :: "request_identity \<Rightarrow> string result" where
  "audit_identity identity = raise_first
     [(\<not> is_identifier (ri_credential_id identity), ValidationError ''credential_id pattern'')]
     (ri_credential_id identity)"

definition event_of ::
    "(string \<Rightarrow> string) \<Rightarrow> disclosure_scope \<Rightarrow> string \<Rightarrow> string \<Rightarrow> string \<Rightarrow> semantic_release \<Rightarrow> disclosure_event result" where
  "event_of H scope credential_id receipt_id policy_version semantic = validate_event H
     \<lparr>ev_scope = scope, ev_credential_id = credential_id, ev_receipt_id = receipt_id,
      ev_policy_version = policy_version, ev_semantic = semantic, ev_composition = None\<rparr>"

definition build_disclosure_event ::
    "(string \<Rightarrow> string) \<Rightarrow> request_identity \<Rightarrow> fixture_catalog \<Rightarrow> query_plan \<Rightarrow> column_ref
      \<Rightarrow> string \<Rightarrow> string \<Rightarrow> disclosure_event result" where
  "build_disclosure_event H identity catalog plan subject_key receipt_id policy_version =
     bindr (resolve_governed_subject_domain H catalog subject_key (qp_source_datasets plan)) (\<lambda>subject.
     bindr (build_disclosure_scope H identity subject) (\<lambda>scope.
     bindr (audit_identity identity) (\<lambda>credential_id.
     bindr (build_semantic_release H catalog plan) (\<lambda>semantic.
       event_of H scope credential_id receipt_id policy_version semantic))))"

definition build_disclosure_event_from_resolver ::
    "(string \<Rightarrow> string) \<Rightarrow> request_identity \<Rightarrow> context_resolver \<Rightarrow> context_resolution \<Rightarrow> query_plan
      \<Rightarrow> column_ref \<Rightarrow> string \<Rightarrow> string \<Rightarrow> disclosure_event result" where
  "build_disclosure_event_from_resolver H identity resolver resolution plan subject_key receipt_id policy_version =
     bindr (resolve_governed_subject_domain_from_resolver H resolver plan subject_key) (\<lambda>(subject, subject_context).
     bindr (build_semantic_release_from_resolution H plan resolution subject_context) (\<lambda>semantic.
     bindr (build_disclosure_scope H identity subject) (\<lambda>scope.
     bindr (audit_identity identity) (\<lambda>credential_id.
       event_of H scope credential_id receipt_id policy_version semantic))))"

end
