(* ===== verification/Semantics_Theorems.thy ===== *)
theory Semantics_Theorems
  imports Semantics
begin

text \<open>
  What the two derivations of a disclosure event promise: the resolver path over a fixture catalog
  derives what the catalog path derives, and the semantic release ignores how the query was written.
\<close>

section \<open>Contexts that agree with the catalog\<close>

definition lookup_field :: "fixture_catalog \<Rightarrow> column_ref \<Rightarrow> (string \<times> sensitivity_category) option" where
  "lookup_field catalog ref = (if take 1 (cr_dataset ref) = ''@'' then None
     else Option.bind (map_of (fc_datasets catalog) (cr_dataset ref)) (\<lambda>dataset.
       map_option (\<lambda>field. (fd_urn dataset, ff_category field)) (map_of (fd_fields dataset) (cr_field_path ref))))"

text \<open>A context that says of its column what the catalog says.\<close>

definition agrees :: "fixture_catalog \<Rightarrow> column_context \<Rightarrow> bool" where
  "agrees catalog ctx \<longleftrightarrow> (case lookup_field catalog (cc_ref ctx) of
       None \<Rightarrow> \<not> cc_resolved ctx
     | Some (urn, category) \<Rightarrow> cc_resolved ctx \<and> cc_datahub_urn ctx = Some urn \<and> cc_category ctx = category)"

definition sound_contexts :: "fixture_catalog \<Rightarrow> column_ref set \<Rightarrow> (string \<times> column_context) list \<Rightarrow> bool" where
  "sound_contexts catalog refs d \<longleftrightarrow> (\<forall>k ctx. map_of d k = Some ctx \<longrightarrow>
     k = ref_key (cc_ref ctx) \<and> cc_ref ctx \<in> refs \<and> agrees catalog ctx)"

lemma sound_Nil [simp]: "sound_contexts catalog refs []"
  by (simp add: sound_contexts_def)

lemma sound_update:
  "sound_contexts catalog refs d \<Longrightarrow> cc_ref ctx \<in> refs \<Longrightarrow> agrees catalog ctx \<Longrightarrow> k = ref_key (cc_ref ctx)
     \<Longrightarrow> sound_contexts catalog refs (AList.update k ctx d)"
  by (auto simp: sound_contexts_def update_conv')

lemma sound_mono: "sound_contexts catalog refs d \<Longrightarrow> refs \<subseteq> refs' \<Longrightarrow> sound_contexts catalog refs' d"
  by (auto simp: sound_contexts_def)

lemma resolve_one_agrees:
  assumes "resolve_one catalog ref = Inr (ctx, failure)"
  shows "cc_ref ctx = ref \<and> agrees catalog ctx"
  using assms
  by (auto simp: resolve_one_def agrees_def lookup_field_def unresolved_context_def validate_column_context_def
      split: if_splits option.splits)

lemma resolve_refs_sound:
  assumes "resolve_refs catalog refs failures cache resolved = Inr (failures', cache', resolved')"
    and "sound_contexts catalog S cache" "sound_contexts catalog S resolved" "set refs \<subseteq> S"
  shows "sound_contexts catalog S cache' \<and> sound_contexts catalog S resolved'
     \<and> fst ` set resolved' = fst ` set resolved \<union> ref_key ` set refs"
  using assms
proof (induction catalog refs failures cache resolved rule: resolve_refs.induct)
  case (2 catalog ref refs failures cache resolved)
  show ?case
  proof (cases "map_of cache (ref_key ref)")
    case None
    with 2(3) obtain ctx failure where ctx: "resolve_one catalog ref = Inr (ctx, failure)"
      and rest: "resolve_refs catalog refs (failures @ (case failure of None \<Rightarrow> [] | Some f \<Rightarrow> [f]))
        (AList.update (ref_key ref) ctx cache) (AList.update (ref_key ref) ctx resolved) = Inr (failures', cache', resolved')"
      by auto
    from resolve_one_agrees [OF ctx] have "cc_ref ctx = ref" "agrees catalog ctx" by auto
    with 2(4-6) show ?thesis
      using 2(1) [OF None rest] by (auto simp: sound_update dom_update)
  next
    case (Some ctx)
    with 2(4) have "ref_key ref = ref_key (cc_ref ctx)" "cc_ref ctx \<in> S" "agrees catalog ctx"
      by (auto simp: sound_contexts_def)
    with Some 2(3-6) show ?thesis
      using 2(2) [OF Some] by (auto simp: sound_update dom_update)
  qed
qed simp

lemma sound_sorted_values:
  assumes "sound_contexts catalog S d"
  shows "\<forall>ctx \<in> set (sorted_values d). cc_ref ctx \<in> S \<and> agrees catalog ctx"
    and "(\<lambda>ctx. ref_key (cc_ref ctx)) ` set (sorted_values d) = fst ` set d"
proof -
  have *: "\<exists>ctx. map_of d k = Some ctx \<and> k = ref_key (cc_ref ctx) \<and> cc_ref ctx \<in> S \<and> agrees catalog ctx"
    if "k \<in> fst ` set d" for k
  proof -
    from that obtain ctx where "map_of d k = Some ctx" by (metis map_of_eq_None_iff not_None_eq)
    then show ?thesis using assms by (auto simp: sound_contexts_def)
  qed
  then show "\<forall>ctx \<in> set (sorted_values d). cc_ref ctx \<in> S \<and> agrees catalog ctx"
    by (fastforce simp: sorted_values_def)
  have "ref_key (cc_ref (the (map_of d k))) = k" if "k \<in> fst ` set d" for k
    using * [OF that] by auto
  then show "(\<lambda>ctx. ref_key (cc_ref ctx)) ` set (sorted_values d) = fst ` set d"
    by (simp add: sorted_values_def image_image)
qed

definition resolved_refs :: "query_plan \<Rightarrow> column_ref list" where
  "resolved_refs plan = qp_projected_columns plan @ (if qp_referenced_columns plan \<noteq> [] then qp_referenced_columns plan
     else merge_refs [qp_projected_columns plan, qp_join_columns plan, qp_group_by_columns plan])"

text \<open>The fixture resolver says of every column of the plan what the catalog says.\<close>

lemma resolve_agrees:
  assumes "resolve catalog plan = Inr resolution"
  shows "\<forall>ctx \<in> set (rs_all_referenced_context resolution @ rs_projected_context resolution).
      cc_ref ctx \<in> set (resolved_refs plan) \<and> agrees catalog ctx"
    and "qp_referenced_columns plan \<noteq> [] \<Longrightarrow>
      (\<lambda>ctx. ref_key (cc_ref ctx)) ` set (rs_all_referenced_context resolution) = ref_key ` set (qp_referenced_columns plan)"
proof -
  let ?S = "set (resolved_refs plan)"
  let ?refs = "if qp_referenced_columns plan \<noteq> [] then qp_referenced_columns plan
     else merge_refs [qp_projected_columns plan, qp_join_columns plan, qp_group_by_columns plan]"
  from assms obtain f0 f1 f2 c1 c2 d1 d2 where
    one: "resolve_refs catalog (qp_projected_columns plan) f0 [] [] = Inr (f1, c1, d1)"
    and two: "resolve_refs catalog ?refs f1 c1 [] = Inr (f2, c2, d2)"
    and resolution: "rs_projected_context resolution = sorted_values d1" "rs_all_referenced_context resolution = sorted_values d2"
    unfolding resolve_def resolve_many_def Let_def by (auto split: if_splits)
  have sub: "set (qp_projected_columns plan) \<subseteq> ?S" "set ?refs \<subseteq> ?S" by (auto simp: resolved_refs_def)
  note s1 = resolve_refs_sound [OF one _ _ sub(1)]
  then have c1: "sound_contexts catalog ?S c1" and d1: "sound_contexts catalog ?S d1" by simp_all
  note s2 = resolve_refs_sound [OF two c1 _ sub(2)]
  then have d2: "sound_contexts catalog ?S d2" and keys: "fst ` set d2 = ref_key ` set ?refs" by simp_all
  show "\<forall>ctx \<in> set (rs_all_referenced_context resolution @ rs_projected_context resolution).
      cc_ref ctx \<in> set (resolved_refs plan) \<and> agrees catalog ctx"
    using sound_sorted_values(1) [OF d1] sound_sorted_values(1) [OF d2] by (auto simp: resolution)
  show "(\<lambda>ctx. ref_key (cc_ref ctx)) ` set (rs_all_referenced_context resolution) = ref_key ` set (qp_referenced_columns plan)"
    if "qp_referenced_columns plan \<noteq> []"
    using sound_sorted_values(2) [OF d2] that by (simp add: resolution keys)
qed

lemma context_entries_sound:
  assumes "context_entries ctxs d = Inr d'" "sound_contexts catalog S d"
    and "\<forall>ctx \<in> set ctxs. cc_ref ctx \<in> S \<and> agrees catalog ctx"
  shows "sound_contexts catalog S d' \<and> fst ` set d' = fst ` set d \<union> (\<lambda>ctx. ref_key (cc_ref ctx)) ` set ctxs"
  using assms
proof (induction ctxs d rule: context_entries.induct)
  case (2 ctx rest d)
  then show ?case
  proof (cases "map_of d (ref_key (cc_ref ctx))")
    case (Some existing)
    then have "ref_key (cc_ref ctx) \<in> fst ` set d" by (metis map_of_eq_None_iff option.distinct(1))
    with Some 2 show ?thesis by (auto split: if_splits)
  qed (auto simp: sound_update dom_update)
qed simp

lemma context_map_sound:
  assumes "context_map ctxs = Inr contexts" "\<forall>ctx \<in> set ctxs. cc_ref ctx \<in> S \<and> agrees catalog ctx"
  shows "sound_contexts catalog S contexts" "fst ` set contexts = (\<lambda>ctx. ref_key (cc_ref ctx)) ` set ctxs"
  using context_entries_sound [OF assms(1) [unfolded context_map_def] sound_Nil assms(2)] by simp_all

text \<open>The dotted key of a column names one column.\<close>

definition unambiguous :: "column_ref set \<Rightarrow> bool" where
  "unambiguous refs \<longleftrightarrow> (\<forall>a \<in> refs. \<forall>b \<in> refs. ref_key a = ref_key b
     \<longrightarrow> cr_dataset a = cr_dataset b \<and> cr_field_path a = cr_field_path b)"

lemma sound_lookup:
  assumes "sound_contexts catalog S contexts" "map_of contexts (ref_key ref) = Some ctx" "unambiguous S" "ref \<in> S"
  shows "cr_dataset (cc_ref ctx) = cr_dataset ref" "cr_field_path (cc_ref ctx) = cr_field_path ref"
    "agrees catalog ctx" "lookup_field catalog (cc_ref ctx) = lookup_field catalog ref"
proof -
  from assms(1,2) have ctx: "ref_key ref = ref_key (cc_ref ctx)" "cc_ref ctx \<in> S" "agrees catalog ctx"
    by (simp_all add: sound_contexts_def)
  with assms(3,4) show *: "cr_dataset (cc_ref ctx) = cr_dataset ref" "cr_field_path (cc_ref ctx) = cr_field_path ref" "agrees catalog ctx"
    unfolding unambiguous_def by metis+
  then show "lookup_field catalog (cc_ref ctx) = lookup_field catalog ref" by (simp add: lookup_field_def)
qed

lemma lookup_field_Some:
  "lookup_field catalog ref = Some (urn, category) \<longleftrightarrow> take 1 (cr_dataset ref) \<noteq> ''@''
     \<and> (\<exists>dataset field. map_of (fc_datasets catalog) (cr_dataset ref) = Some dataset
        \<and> map_of (fd_fields dataset) (cr_field_path ref) = Some field \<and> urn = fd_urn dataset \<and> category = ff_category field)"
  by (auto simp: lookup_field_def bind_eq_Some_conv)

lemma context_column_agrees:
  assumes "sound_contexts catalog S contexts" "unambiguous S" "ref \<in> S" "context_column contexts ref = Inr column"
  shows "governed_column_of catalog ref = Inr column"
proof -
  from assms(4) obtain ctx urn where ctx: "map_of contexts (ref_key ref) = Some ctx" "cc_resolved ctx"
    "cc_category ctx \<noteq> UNCLASSIFIED" "cc_datahub_urn ctx = Some urn"
    and column: "validate_governed_column \<lparr>gc_dataset_urn = urn, gc_field_path = cr_field_path ref, gc_category = cc_category ctx\<rparr> = Inr column"
    by (auto simp: context_column_def split: option.splits if_splits)
  from sound_lookup [OF assms(1) ctx(1) assms(2,3)] ctx have "lookup_field catalog ref = Some (urn, cc_category ctx)"
    by (auto simp: agrees_def split: option.splits)
  then show ?thesis using column ctx(3) by (auto simp: lookup_field_Some governed_column_of_def)
qed

lemma governed_columns_agree:
  assumes "sound_contexts catalog S contexts" "unambiguous S" "set refs \<subseteq> S"
    and "governed_columns_from_context refs contexts = Inr columns"
  shows "governed_columns catalog refs = Inr columns"
proof -
  from assms(4) obtain cs where cs: "mapr (context_column contexts) refs = Inr cs" "columns = by_key column_key cs"
    by (auto simp: governed_columns_from_context_def)
  have "mapr (governed_column_of catalog) refs = Inr cs"
    using cs(1) by (rule mapr_transfer) (use assms(3) context_column_agrees [OF assms(1,2)] in blast)
  then show ?thesis by (simp add: governed_columns_def cs(2))
qed

lemma context_output_agrees:
  assumes "sound_contexts catalog S contexts" "unambiguous S" "set (pe_source_columns exposure) \<subseteq> S"
    and "context_output contexts exposure = Inr out"
  shows "semantic_output_of catalog exposure = Inr out"
  using assms(4) governed_columns_agree [OF assms(1-3)] by (auto simp: context_output_def semantic_output_of_def)

text \<open>A source dataset with one URN is a catalog dataset the resolver looks up.\<close>

lemma context_dataset_urn_agrees:
  assumes "sound_contexts catalog S contexts" "distinct (map fst contexts)" "context_dataset_urn contexts dataset = Inr urn"
  shows "dataset_urn_of catalog dataset = Inr urn \<and> take 1 dataset \<noteq> ''@''"
proof -
  from assms(3) have "context_urns contexts dataset = [urn]"
    by (auto simp: context_dataset_urn_def split: list.splits)
  then have "urn \<in> set (context_urns contexts dataset)" by simp
  then obtain k ctx where "(k, ctx) \<in> set contexts" "cr_dataset (cc_ref ctx) = dataset" "cc_resolved ctx" "cc_datahub_urn ctx = Some urn"
    by (auto simp: context_urns_def map_filter_def split: if_splits)
  moreover from this(1) have "agrees catalog ctx"
    using assms(1,2) by (auto simp: sound_contexts_def)
  ultimately obtain category where "lookup_field catalog (cc_ref ctx) = Some (urn, category)" "cr_dataset (cc_ref ctx) = dataset"
    by (auto simp: agrees_def split: option.splits)
  then show ?thesis by (auto simp: lookup_field_Some dataset_urn_of_def)
qed

lemma context_entries_distinct:
  "context_entries ctxs d = Inr d' \<Longrightarrow> distinct (map fst d) \<Longrightarrow> distinct (map fst d')"
  by (induction ctxs d rule: context_entries.induct) (auto simp: distinct_update split: option.splits if_splits)

lemma context_map_distinct: "context_map ctxs = Inr contexts \<Longrightarrow> distinct (map fst contexts)"
  unfolding context_map_def by (erule context_entries_distinct) simp

section \<open>The release of a resolution is the release of the catalog\<close>

definition plan_columns :: "query_plan \<Rightarrow> column_ref list" where
  "plan_columns plan = qp_projected_columns plan @ qp_referenced_columns plan @ qp_join_columns plan
     @ qp_group_by_columns plan @ concat (map pe_source_columns (qp_projected_exposures plan))"

lemma build_release_urns:
  "build_release H urns outputs referenced joins groups plan = Inr release
     \<Longrightarrow> canonical urns \<and> length urns \<le> 64"
  by (auto simp: build_release_def validate_release_def release_checks_def Let_def len_between_def)

definition catalog_urn :: "fixture_catalog \<Rightarrow> string \<Rightarrow> string" where
  "catalog_urn catalog dataset = fd_urn (the (map_of (fc_datasets catalog) dataset))"

lemma release_agrees:
  assumes contexts: "sound_contexts catalog S contexts" "distinct (map fst contexts)"
    and S: "unambiguous S" "set (plan_columns plan) \<subseteq> S"
    and urns: "mapr (context_dataset_urn contexts) (sorted_set (qp_source_datasets plan)) = Inr urns"
    and outputs: "mapr (context_output contexts) (qp_projected_exposures plan) = Inr outputs"
    and referenced: "governed_columns_from_context (qp_referenced_columns plan) contexts = Inr referenced"
    and joins: "governed_columns_from_context (qp_join_columns plan) contexts = Inr joins"
    and groups: "governed_columns_from_context (qp_group_by_columns plan) contexts = Inr groups"
    and release: "build_release H urns outputs referenced joins groups plan = Inr release"
  shows "build_semantic_release H catalog plan = Inr release"
    and "canonical (map (catalog_urn catalog) (sorted_set (qp_source_datasets plan)))"
proof -
  let ?sources = "qp_source_datasets plan"
  let ?urn = "catalog_urn catalog"
  have urn: "dataset_urn_of catalog d = Inr (?urn d)" if "d \<in> set ?sources" for d
  proof -
    from that obtain u where "context_dataset_urn contexts d = Inr u"
      using mapr_defined [OF urns] by auto
    from context_dataset_urn_agrees [OF contexts this] show ?thesis
      by (auto simp: dataset_urn_of_def catalog_urn_def split: option.splits)
  qed
  have "mapr (dataset_urn_of catalog) (sorted_set ?sources) = Inr urns"
    using urns by (rule mapr_transfer) (simp add: context_dataset_urn_agrees [OF contexts])
  moreover have "mapr (dataset_urn_of catalog) (sorted_set ?sources) = Inr (map ?urn (sorted_set ?sources))"
    by (rule mapr_map) (simp add: urn)
  ultimately have eq: "urns = map ?urn (sorted_set ?sources)" by simp
  then show "canonical (map (catalog_urn catalog) (sorted_set (qp_source_datasets plan)))" using build_release_urns [OF release] by simp
  have "mapr (dataset_urn_of catalog) (remdups ?sources) = Inr (map ?urn (remdups ?sources))"
    by (rule mapr_map) (simp add: urn)
  moreover have "sort (map ?urn (remdups ?sources)) = urns"
    using build_release_urns [OF release] eq
    by (intro canonical_inj) (auto simp: canonical_iff distinct_map)
  moreover have "mapr (semantic_output_of catalog) (qp_projected_exposures plan) = Inr outputs"
    using outputs by (rule mapr_transfer)
      (rule context_output_agrees [OF contexts(1) S(1)], use S(2) in \<open>auto simp: plan_columns_def\<close>)
  moreover have "governed_columns catalog (qp_referenced_columns plan) = Inr referenced"
    "governed_columns catalog (qp_join_columns plan) = Inr joins" "governed_columns catalog (qp_group_by_columns plan) = Inr groups"
    using S(2) referenced joins groups by (auto simp: plan_columns_def intro: governed_columns_agree [OF contexts(1) S(1)])
  ultimately show "build_semantic_release H catalog plan = Inr release" using release by (simp add: build_semantic_release_def)
qed

section \<open>The subject of a resolver is the subject of the catalog\<close>

definition subject_refs :: "column_ref \<Rightarrow> string list \<Rightarrow> column_ref list" where
  "subject_refs subject_key datasets = map (\<lambda>dataset.
     \<lparr>cr_dataset = dataset, cr_field_path = cr_field_path subject_key, cr_alias = None\<rparr>) datasets"

text \<open>What a covered context map answers for the subject field of a dataset.\<close>

lemma subject_context:
  assumes contexts: "sound_contexts catalog S contexts" "unambiguous S"
    and ref: "\<lparr>cr_dataset = dataset, cr_field_path = field_path, cr_alias = None\<rparr> \<in> S"
    and covered: "dataset @ ''.'' @ field_path \<in> fst ` set contexts"
    and looked: "take 1 dataset \<noteq> ''@''"
  shows "Option.bind (map_of contexts (dataset @ ''.'' @ field_path)) (\<lambda>ctx. if cc_resolved ctx then Some ctx else None)
      = None \<longleftrightarrow> Option.bind (map_of (fc_datasets catalog) dataset) (\<lambda>ds. map_of (fd_fields ds) field_path) = None"
    and "Option.bind (map_of contexts (dataset @ ''.'' @ field_path)) (\<lambda>ctx. if cc_resolved ctx then Some ctx else None)
      = Some ctx \<Longrightarrow> \<exists>ds field. map_of (fc_datasets catalog) dataset = Some ds \<and> map_of (fd_fields ds) field_path = Some field
        \<and> cc_datahub_urn ctx = Some (fd_urn ds) \<and> cc_category ctx = ff_category field"
proof -
  let ?ref = "\<lparr>cr_dataset = dataset, cr_field_path = field_path, cr_alias = None\<rparr>"
  have key: "ref_key ?ref = dataset @ ''.'' @ field_path" by (simp add: ref_key_def)
  from covered obtain c where c: "map_of contexts (ref_key ?ref) = Some c"
    unfolding key by (metis map_of_eq_None_iff not_None_eq)
  from sound_lookup(3,4) [OF contexts(1) c contexts(2) ref]
  have agrees: "case lookup_field catalog ?ref of None \<Rightarrow> \<not> cc_resolved c
     | Some (urn, category) \<Rightarrow> cc_resolved c \<and> cc_datahub_urn c = Some urn \<and> cc_category c = category"
    by (simp add: agrees_def)
  then show "Option.bind (map_of contexts (dataset @ ''.'' @ field_path)) (\<lambda>ctx. if cc_resolved ctx then Some ctx else None)
      = None \<longleftrightarrow> Option.bind (map_of (fc_datasets catalog) dataset) (\<lambda>ds. map_of (fd_fields ds) field_path) = None"
    using c looked by (auto simp: key lookup_field_def bind_eq_None_conv bind_eq_Some_conv split: option.splits)
  show "\<exists>ds field. map_of (fc_datasets catalog) dataset = Some ds \<and> map_of (fd_fields ds) field_path = Some field
        \<and> cc_datahub_urn ctx = Some (fd_urn ds) \<and> cc_category ctx = ff_category field"
    if "Option.bind (map_of contexts (dataset @ ''.'' @ field_path)) (\<lambda>ctx. if cc_resolved ctx then Some ctx else None) = Some ctx"
  proof -
    from that c have "cc_resolved c" "ctx = c" by (simp_all add: key split: if_splits)
    with agrees show ?thesis by (auto simp: lookup_field_Some split: option.splits)
  qed
qed

lemma scan_contexts_sound:
  assumes "scan_contexts contexts subject_key datasets (resolved0, categories0, urns0) = Inr (resolved, categories, urns)"
    and "sound_contexts catalog S contexts" "\<forall>ctx \<in> set resolved0. cc_ref ctx \<in> S \<and> agrees catalog ctx"
  shows "\<forall>ctx \<in> set resolved. cc_ref ctx \<in> S \<and> agrees catalog ctx"
  using assms
  by (induction datasets arbitrary: resolved0 categories0 urns0)
    (fastforce simp: sound_contexts_def split: option.splits if_splits Option.bind_splits)+

lemma scan_agrees:
  assumes contexts: "sound_contexts catalog S contexts" "unambiguous S"
    and "set (subject_refs subject_key datasets) \<subseteq> S"
    and "\<forall>dataset \<in> set datasets. dataset @ ''.'' @ cr_field_path subject_key \<in> fst ` set contexts
        \<and> take 1 dataset \<noteq> ''@'' \<and> map_of (fc_datasets catalog) dataset \<noteq> None"
    and "scan_contexts contexts subject_key datasets (resolved0, categories0, urns0) = Inr (resolved, categories, urns)"
  shows "\<exists>domains. scan_sources catalog (cr_field_path subject_key) datasets (urns0, categories0, domains0)
        = Inr (urns, categories, domains) \<and> length domains \<le> length domains0 + length datasets
     \<and> (length resolved0 = length urns0 \<longrightarrow> length resolved = length urns)"
  using assms(3-5)
proof (induction datasets arbitrary: resolved0 categories0 urns0 domains0)
  case (Cons dataset datasets)
  let ?f = "cr_field_path subject_key"
  let ?c = "Option.bind (map_of contexts (dataset @ ''.'' @ ?f)) (\<lambda>ctx. if cc_resolved ctx then Some ctx else None)"
  from Cons(3) have head: "dataset @ ''.'' @ ?f \<in> fst ` set contexts" "take 1 dataset \<noteq> ''@''"
    "map_of (fc_datasets catalog) dataset \<noteq> None" by simp_all
  from Cons(2) have ref: "\<lparr>cr_dataset = dataset, cr_field_path = ?f, cr_alias = None\<rparr> \<in> S"
    and refs: "set (subject_refs subject_key datasets) \<subseteq> S" by (simp_all add: subject_refs_def)
  from Cons(3) have tail: "\<forall>dataset \<in> set datasets. dataset @ ''.'' @ ?f \<in> fst ` set contexts
        \<and> take 1 dataset \<noteq> ''@'' \<and> map_of (fc_datasets catalog) dataset \<noteq> None" by simp
  note subject = subject_context [OF contexts ref head(1,2)]
  show ?case
  proof (cases ?c)
    case None
    with subject(1) head(3) obtain ds where ds: "map_of (fc_datasets catalog) dataset = Some ds" "map_of (fd_fields ds) ?f = None"
      by auto
    from None Cons(4) have "scan_contexts contexts subject_key datasets (resolved0, categories0, urns0) = Inr (resolved, categories, urns)"
      by (simp split: if_splits)
    from Cons(1) [OF refs tail this, of domains0] show ?thesis by (auto simp: ds)
  next
    case (Some ctx)
    from subject(2) [OF Some] obtain ds field where ds: "map_of (fc_datasets catalog) dataset = Some ds"
      "map_of (fd_fields ds) ?f = Some field" "cc_datahub_urn ctx = Some (fd_urn ds)" "cc_category ctx = ff_category field" by blast
    from Some ds Cons(4) have "cc_category ctx \<in> set SUBJECT_IDENTIFIER_CATEGORIES"
      "scan_contexts contexts subject_key datasets (resolved0 @ [ctx], categories0 @ [cc_category ctx], urns0 @ [fd_urn ds])
         = Inr (resolved, categories, urns)"
      by (simp_all split: if_splits)
    with Cons(1) [OF refs tail this(2), of "domains0 @ (case fd_domain ds of None \<Rightarrow> [] | Some d \<Rightarrow> [d])"] show ?thesis
      by (auto simp: ds split: option.splits)
  qed
qed auto

lemma probe_refs:
  assumes "mapr (\<lambda>dataset. validate_column_ref
      \<lparr>cr_dataset = dataset, cr_field_path = cr_field_path subject_key, cr_alias = None\<rparr>) datasets = Inr refs"
  shows "refs = subject_refs subject_key datasets"
  using assms by (induction datasets arbitrary: refs) (auto simp: subject_refs_def validate_column_ref_def)

definition with_domains :: "string list \<Rightarrow> subject_domain \<Rightarrow> subject_domain" where
  "with_domains domains subject = subject\<lparr>sd_governance_domains := domains\<rparr>"

lemma subject_domain_of_domains:
  assumes "subject_domain_of H field_path category urns [] = Inr subject" "length domains \<le> 64"
  shows "subject_domain_of H field_path category urns domains = Inr (with_domains (sorted_set domains) subject)"
proof -
  have "length (sorted_set domains) \<le> 64"
    using le_trans [OF length_remdups_leq assms(2)] by (simp add: sorted_set_def)
  with assms(1) show ?thesis
    by (auto simp: subject_domain_of_def validate_subject_domain_def subject_checks_def with_domains_def len_between_def)
qed

lemma subject_agrees:
  assumes subject: "resolve_governed_subject_domain_from_resolver H (fixture_resolver catalog) plan subject_key
        = Inr (subject, subject_context)"
    and S: "unambiguous S" "set (subject_refs subject_key (qp_source_datasets plan @ [cr_dataset subject_key])) \<subseteq> S"
  shows "\<forall>ctx \<in> set subject_context. cc_ref ctx \<in> S \<and> agrees catalog ctx"
    and "\<forall>dataset \<in> set (qp_source_datasets plan). take 1 dataset \<noteq> ''@'' \<and> map_of (fc_datasets catalog) dataset \<noteq> None
      \<Longrightarrow> length (sorted_set (qp_source_datasets plan)) \<le> 64
      \<Longrightarrow> \<exists>domains. resolve_governed_subject_domain H catalog subject_key (qp_source_datasets plan)
            = Inr (with_domains domains subject)"
proof -
  let ?sources = "sorted_set (qp_source_datasets plan)"
  let ?f = "cr_field_path subject_key"
  let ?refs = "subject_refs subject_key (?sources @ [cr_dataset subject_key])"
  from subject obtain resolution contexts requested resolved categories urns where
    nonempty: "?sources \<noteq> []"
    and resolution: "resolve catalog (subject_probe ?sources ?refs) = Inr resolution"
    and map: "context_map (rs_all_referenced_context resolution) = Inr contexts"
    and requested: "map_of contexts (cr_dataset subject_key @ ''.'' @ ?f) = Some requested" "cc_resolved requested"
      "cc_category requested \<in> set SUBJECT_IDENTIFIER_CATEGORIES"
    and scan: "scan_contexts contexts subject_key ?sources ([], [], []) = Inr (resolved, categories, urns)"
    and found: "resolved \<noteq> []" "remdups categories = [cc_category requested]"
    and domain: "subject_domain_of H ?f (cc_category requested) urns [] = Inr subject"
    and subject_context: "subject_context = sort_key (\<lambda>ctx. ref_key (cc_ref ctx)) resolved"
    by (auto simp: resolve_governed_subject_domain_from_resolver_def Let_def fixture_resolver_def validate_query_plan_def
        elim!: probe_result.elims dest!: probe_refs split: option.splits if_splits Option.bind_splits)
  let ?probe = "subject_probe ?sources ?refs"
  have refs: "set ?refs \<subseteq> S" using S(2) by (auto simp: subject_refs_def)
  have probed: "set (resolved_refs ?probe) = set ?refs" "qp_referenced_columns ?probe = ?refs" "?refs \<noteq> []"
    by (simp_all add: resolved_refs_def subject_probe_def subject_refs_def)
  have ctxs: "\<forall>ctx \<in> set (rs_all_referenced_context resolution). cc_ref ctx \<in> S \<and> agrees catalog ctx"
    using resolve_agrees(1) [OF resolution] refs unfolding probed(1) by auto
  have sound: "sound_contexts catalog S contexts" and keys: "fst ` set contexts = ref_key ` set ?refs"
    using context_map_sound [OF map ctxs] resolve_agrees(2) [OF resolution] by (simp_all add: probed)
  have covered: "dataset @ ''.'' @ ?f \<in> fst ` set contexts" if "dataset \<in> set (qp_source_datasets plan)" for dataset
    unfolding keys by (rule image_eqI [of _ ref_key "\<lparr>cr_dataset = dataset, cr_field_path = ?f, cr_alias = None\<rparr>"])
      (use that in \<open>auto simp: subject_refs_def ref_key_def\<close>)
  have "\<forall>ctx \<in> set resolved. cc_ref ctx \<in> S \<and> agrees catalog ctx"
    using scan by (rule scan_contexts_sound) (simp_all add: sound)
  then show "\<forall>ctx \<in> set subject_context. cc_ref ctx \<in> S \<and> agrees catalog ctx" by (simp add: subject_context)
  show "\<exists>domains. resolve_governed_subject_domain H catalog subject_key (qp_source_datasets plan)
            = Inr (with_domains domains subject)"
    if sources: "\<forall>dataset \<in> set (qp_source_datasets plan). take 1 dataset \<noteq> ''@'' \<and> map_of (fc_datasets catalog) dataset \<noteq> None"
      "length ?sources \<le> 64"
  proof -
    have ref: "\<lparr>cr_dataset = cr_dataset subject_key, cr_field_path = ?f, cr_alias = None\<rparr> \<in> S"
      using refs by (simp add: subject_refs_def)
    have key: "map_of contexts (ref_key \<lparr>cr_dataset = cr_dataset subject_key, cr_field_path = ?f, cr_alias = None\<rparr>) = Some requested"
      using requested(1) by (simp add: ref_key_def)
    from sound_lookup(3,4) [OF sound key S(1) ref] requested(2) obtain urn where
      "lookup_field catalog \<lparr>cr_dataset = cr_dataset subject_key, cr_field_path = ?f, cr_alias = None\<rparr>
         = Some (urn, cc_category requested)"
      by (auto simp: agrees_def split: option.splits)
    then obtain ds field where ds: "map_of (fc_datasets catalog) (cr_dataset subject_key) = Some ds"
      "map_of (fd_fields ds) ?f = Some field" "ff_category field = cc_category requested"
      by (auto simp: lookup_field_Some)
    obtain domains where domains: "scan_sources catalog ?f ?sources ([], [], []) = Inr (urns, categories, domains)"
      "length domains \<le> length ?sources" "length resolved = length urns"
      using scan_agrees [OF sound S(1) _ _ scan, of "[]"] refs covered sources(1) by (auto simp: subject_refs_def)
    then have "urns \<noteq> []" using found(1) by auto
    with ds nonempty found(2) requested(3) domains(1)
      subject_domain_of_domains [OF domain le_trans [OF domains(2) sources(2)]]
    show ?thesis by (auto simp: resolve_governed_subject_domain_def Let_def)
  qed
qed

lemma resolution_agrees:
  assumes "resolve catalog plan = Inr resolution"
    and "\<forall>ctx \<in> set additional. cc_ref ctx \<in> S \<and> agrees catalog ctx"
    and S: "unambiguous S" "set (plan_columns plan) \<subseteq> S"
    and release: "build_semantic_release_from_resolution H plan resolution additional = Inr semantic"
  shows "build_semantic_release H catalog plan = Inr semantic"
    and "\<forall>dataset \<in> set (qp_source_datasets plan). take 1 dataset \<noteq> ''@'' \<and> map_of (fc_datasets catalog) dataset \<noteq> None"
    and "length (sorted_set (qp_source_datasets plan)) \<le> 64"
    and "canonical (map (catalog_urn catalog) (sorted_set (qp_source_datasets plan)))"
proof -
  from release obtain contexts urns outputs referenced joins groups where
    map: "context_map (rs_all_referenced_context resolution @ rs_projected_context resolution @ additional) = Inr contexts"
    and urns: "mapr (context_dataset_urn contexts) (sorted_set (qp_source_datasets plan)) = Inr urns"
    and parts: "mapr (context_output contexts) (qp_projected_exposures plan) = Inr outputs"
      "governed_columns_from_context (qp_referenced_columns plan) contexts = Inr referenced"
      "governed_columns_from_context (qp_join_columns plan) contexts = Inr joins"
      "governed_columns_from_context (qp_group_by_columns plan) contexts = Inr groups"
    and built: "build_release H urns outputs referenced joins groups plan = Inr semantic"
    unfolding build_semantic_release_from_resolution_def by auto
  have "set (resolved_refs plan) \<subseteq> set (plan_columns plan)"
    using set_by_key_subset [of ref_key "qp_projected_columns plan @ qp_join_columns plan @ qp_group_by_columns plan"]
    by (auto simp: resolved_refs_def merge_refs_def plan_columns_def)
  then have "\<forall>ctx \<in> set (rs_all_referenced_context resolution @ rs_projected_context resolution @ additional).
      cc_ref ctx \<in> S \<and> agrees catalog ctx"
    using resolve_agrees(1) [OF assms(1)] assms(2) S(2) by auto
  note sound = context_map_sound(1) [OF map this] context_map_distinct [OF map]
  show "build_semantic_release H catalog plan = Inr semantic" "canonical (map (catalog_urn catalog) (sorted_set (qp_source_datasets plan)))"
    by (rule release_agrees [OF sound S urns parts built])+
  show "\<forall>dataset \<in> set (qp_source_datasets plan). take 1 dataset \<noteq> ''@'' \<and> map_of (fc_datasets catalog) dataset \<noteq> None"
  proof
    fix dataset assume "dataset \<in> set (qp_source_datasets plan)"
    then obtain urn where "context_dataset_urn contexts dataset = Inr urn"
      using mapr_defined [OF urns] by auto
    from context_dataset_urn_agrees [OF sound this]
    show "take 1 dataset \<noteq> ''@'' \<and> map_of (fc_datasets catalog) dataset \<noteq> None" by (auto simp: dataset_urn_of_def split: option.splits)
  qed
  show "length (sorted_set (qp_source_datasets plan)) \<le> 64"
    using build_release_urns [OF built] mapr_length [OF urns] by simp
qed

definition scope_with_domains :: "string list \<Rightarrow> disclosure_scope \<Rightarrow> disclosure_scope" where
  "scope_with_domains domains scope = scope\<lparr>sc_subject := with_domains domains (sc_subject scope)\<rparr>"

lemma scope_domains:
  assumes "build_disclosure_scope H identity subject = Inr scope" "validate_subject_domain H (with_domains domains subject) = Inr s"
  shows "build_disclosure_scope H identity (with_domains domains subject) = Inr (scope_with_domains domains scope)"
  using assms
  by (auto simp: build_disclosure_scope_def validate_scope_def scope_checks_def validate_subject_domain_def scope_with_domains_def
      with_domains_def)

lemma event_domains:
  assumes "event_of H scope credential receipt policy semantic = Inr event" "validate_scope H (scope_with_domains domains scope) = Inr s"
  shows "event_of H (scope_with_domains domains scope) credential receipt policy semantic
    = Inr (event\<lparr>ev_scope := scope_with_domains domains (ev_scope event)\<rparr>)"
  using assms by (auto simp: event_of_def validate_event_def event_checks_def validate_scope_def)

text \<open>C26: resolver_event_agrees. Over a fixture catalog, whatever event the resolver path derives the catalog path
  derives too, for the same query, identity and receipt: the two events are equal but for the list of
  governance domains of the subject. So they have the same subject namespace, the same privacy scope
  hash, which leaves the domains out, and the same semantic release, hence the same release family.
  The hash of the whole event and the content hash of its record do cover the domains and may differ.
  The resolver path derives an event only when the URNs of the source datasets, taken in the order
  of their names, are sorted. All this for columns whose dotted keys name one column each.\<close>

theorem resolver_event_agrees:
  assumes "resolve catalog plan = Inr resolution"
    and "build_disclosure_event_from_resolver H identity (fixture_resolver catalog) resolution plan subject_key receipt policy = Inr event"
    and "unambiguous (set (plan_columns plan @ subject_refs subject_key (qp_source_datasets plan @ [cr_dataset subject_key])))"
  shows "(\<exists>domains. build_disclosure_event H identity catalog plan subject_key receipt policy
      = Inr (event\<lparr>ev_scope := scope_with_domains domains (ev_scope event)\<rparr>))
    \<and> canonical (map (catalog_urn catalog) (sorted_set (qp_source_datasets plan)))"
proof -
  let ?S = "set (plan_columns plan @ subject_refs subject_key (qp_source_datasets plan @ [cr_dataset subject_key]))"
  from assms(2) obtain subject subject_context semantic scope credential where
    subject: "resolve_governed_subject_domain_from_resolver H (fixture_resolver catalog) plan subject_key = Inr (subject, subject_context)"
    and semantic: "build_semantic_release_from_resolution H plan resolution subject_context = Inr semantic"
    and scope: "build_disclosure_scope H identity subject = Inr scope" and credential: "audit_identity identity = Inr credential"
    and event: "event_of H scope credential receipt policy semantic = Inr event"
    unfolding build_disclosure_event_from_resolver_def by auto
  have sub: "set (subject_refs subject_key (qp_source_datasets plan @ [cr_dataset subject_key])) \<subseteq> ?S" "set (plan_columns plan) \<subseteq> ?S"
    by auto
  note agree = subject_agrees [OF subject assms(3) sub(1)]
  note release = resolution_agrees [OF assms(1) agree(1) assms(3) sub(2) semantic]
  from agree(2) [OF release(2,3)] obtain domains where
    catalog: "resolve_governed_subject_domain H catalog subject_key (qp_source_datasets plan) = Inr (with_domains domains subject)" by blast
  then have "validate_subject_domain H (with_domains domains subject) = Inr (with_domains domains subject)"
    by (auto simp: resolve_governed_subject_domain_def Let_def subject_domain_of_def validate_subject_domain_def
        split: option.splits if_splits)
  note scope' = scope_domains [OF scope this]
  then have "validate_scope H (scope_with_domains domains scope) = Inr (scope_with_domains domains scope)"
    unfolding build_disclosure_scope_def validate_scope_def by auto
  from event_domains [OF event this] show ?thesis
    using catalog scope' credential release(1,4) by (auto simp: build_disclosure_event_def)
qed

section \<open>The release family ignores how the query is written\<close>

definition column_ids :: "column_ref list \<Rightarrow> (string \<times> string) set" where
  "column_ids refs = (\<lambda>ref. (cr_dataset ref, cr_field_path ref)) ` set refs"

text \<open>Two plans of the same query: aliases, output names, order and repetition may differ.\<close>

definition same_query :: "query_plan \<Rightarrow> query_plan \<Rightarrow> bool" where
  "same_query plan plan' \<longleftrightarrow>
     set (qp_source_datasets plan) = set (qp_source_datasets plan')
     \<and> (\<lambda>e. (pe_kind e, column_ids (pe_source_columns e))) ` set (qp_projected_exposures plan)
        = (\<lambda>e. (pe_kind e, column_ids (pe_source_columns e))) ` set (qp_projected_exposures plan')
     \<and> column_ids (qp_referenced_columns plan) = column_ids (qp_referenced_columns plan')
     \<and> column_ids (qp_join_columns plan) = column_ids (qp_join_columns plan')
     \<and> column_ids (qp_group_by_columns plan) = column_ids (qp_group_by_columns plan')
     \<and> (\<lambda>f. py_upper (py_strip f)) ` set (qp_aggregate_functions plan)
        = (\<lambda>f. py_upper (py_strip f)) ` set (qp_aggregate_functions plan')
     \<and> qp_minimum_group_size_present plan = qp_minimum_group_size_present plan'"

text \<open>A catalog whose datasets have one URN each, free of the separator of column keys.\<close>

definition urns_identify :: "fixture_catalog \<Rightarrow> bool" where
  "urns_identify catalog \<longleftrightarrow> (\<forall>d d' ds ds'. map_of (fc_datasets catalog) d = Some ds
     \<longrightarrow> map_of (fc_datasets catalog) d' = Some ds' \<longrightarrow> CHR ''#'' \<notin> set (fd_urn ds) \<and> (fd_urn ds = fd_urn ds' \<longrightarrow> d = d'))"

lemma governed_column_of_Inr:
  "governed_column_of catalog ref = Inr column \<Longrightarrow> \<exists>ds field. map_of (fc_datasets catalog) (cr_dataset ref) = Some ds
     \<and> map_of (fd_fields ds) (cr_field_path ref) = Some field
     \<and> column = \<lparr>gc_dataset_urn = fd_urn ds, gc_field_path = cr_field_path ref, gc_category = ff_category field\<rparr>"
  by (auto simp: governed_column_of_def validate_governed_column_def split: option.splits if_splits)

lemma column_key_inj:
  assumes "urns_identify catalog" "governed_column_of catalog r = Inr c" "governed_column_of catalog r' = Inr c'"
    and "column_key c = column_key c'"
  shows "c = c'"
proof -
  from governed_column_of_Inr [OF assms(2)] obtain ds field where
    c: "map_of (fc_datasets catalog) (cr_dataset r) = Some ds" "map_of (fd_fields ds) (cr_field_path r) = Some field"
      "c = \<lparr>gc_dataset_urn = fd_urn ds, gc_field_path = cr_field_path r, gc_category = ff_category field\<rparr>" by blast
  from governed_column_of_Inr [OF assms(3)] obtain ds' field' where
    c': "map_of (fc_datasets catalog) (cr_dataset r') = Some ds'" "map_of (fd_fields ds') (cr_field_path r') = Some field'"
      "c' = \<lparr>gc_dataset_urn = fd_urn ds', gc_field_path = cr_field_path r', gc_category = ff_category field'\<rparr>" by blast
  have free: "CHR ''#'' \<notin> set (fd_urn ds)" "CHR ''#'' \<notin> set (fd_urn ds')"
    and same: "fd_urn ds = fd_urn ds' \<longrightarrow> cr_dataset r = cr_dataset r'"
    using assms(1) c(1) c'(1) unfolding urns_identify_def by blast+
  have "fd_urn ds @ [CHR ''#''] @ cr_field_path r = fd_urn ds' @ [CHR ''#''] @ cr_field_path r'"
    using assms(4) by (simp add: c(3) c'(3) column_key_def)
  from separator_inj [OF free this] have eq: "fd_urn ds = fd_urn ds'" "cr_field_path r = cr_field_path r'"
    by simp_all
  from eq(1) same have "cr_dataset r = cr_dataset r'" by blast
  with c(1) c'(1) have ds: "ds = ds'" by (metis option.inject)
  have "field = field'" using c(2) c'(2) unfolding ds eq(2) by (metis option.inject)
  then show ?thesis unfolding c(3) c'(3) eq by simp
qed

lemma governed_column_of_ids:
  assumes "cr_dataset r = cr_dataset r'" "cr_field_path r = cr_field_path r'"
  shows "governed_column_of catalog r = governed_column_of catalog r'"
  unfolding governed_column_of_def assms ..

lemma governed_columns_same:
  assumes "urns_identify catalog" "column_ids refs = column_ids refs'"
    and "governed_columns catalog refs = Inr columns" "governed_columns catalog refs' = Inr columns'"
  shows "columns = columns'"
proof -
  from assms(3,4) obtain cs cs' where cs: "mapr (governed_column_of catalog) refs = Inr cs" "columns = by_key column_key cs"
    and cs': "mapr (governed_column_of catalog) refs' = Inr cs'" "columns' = by_key column_key cs'"
    by (auto simp: governed_columns_def)
  have half: "set as \<subseteq> set bs" if ab: "mapr (governed_column_of catalog) ra = Inr as"
    "mapr (governed_column_of catalog) rb = Inr bs" "column_ids ra = column_ids rb" for ra rb as bs
  proof
    fix c assume "c \<in> set as"
    then obtain r where r: "r \<in> set ra" "governed_column_of catalog r = Inr c" using mapr_set [OF ab(1)] by auto
    then have "(cr_dataset r, cr_field_path r) \<in> column_ids rb" using ab(3) by (auto simp: column_ids_def)
    then obtain r' where "r' \<in> set rb" "cr_dataset r = cr_dataset r'" "cr_field_path r = cr_field_path r'"
      by (auto simp: column_ids_def)
    moreover from this have "governed_column_of catalog r' = Inr c" using r(2) governed_column_of_ids by metis
    ultimately show "c \<in> set bs" using mapr_set [OF ab(2)] by auto
  qed
  have set: "set cs = set cs'" using half [OF cs(1) cs'(1) assms(2)] half [OF cs'(1) cs(1) assms(2) [symmetric]] by blast
  have "inj_on column_key (set cs)"
    unfolding mapr_set [OF cs(1)] by (rule inj_onI) (use column_key_inj [OF assms(1)] in blast)
  then show ?thesis unfolding cs(2) cs'(2) by (rule by_key_cong) (rule set)
qed

lemma outputs_same:
  assumes "urns_identify catalog"
    and "mapr (semantic_output_of catalog) es = Inr outs" "mapr (semantic_output_of catalog) es' = Inr outs'"
    and "(\<lambda>e. (pe_kind e, column_ids (pe_source_columns e))) ` set es \<subseteq> (\<lambda>e. (pe_kind e, column_ids (pe_source_columns e))) ` set es'"
  shows "set outs \<subseteq> set outs'"
proof
  fix out assume "out \<in> set outs"
  then obtain e where e: "e \<in> set es" "semantic_output_of catalog e = Inr out" using mapr_set [OF assms(2)] by auto
  with assms(4) obtain e' where e': "e' \<in> set es'" "pe_kind e' = pe_kind e" "column_ids (pe_source_columns e) = column_ids (pe_source_columns e')"
    by (auto dest!: subsetD [of _ _ "(pe_kind e, column_ids (pe_source_columns e))"])
  from mapr_defined [OF assms(3) e'(1)] obtain out' where out': "semantic_output_of catalog e' = Inr out'" by blast
  from e(2) out' obtain cs cs' where "governed_columns catalog (pe_source_columns e) = Inr cs" "out = \<lparr>so_kind = pe_kind e, so_sources = cs\<rparr>"
    "governed_columns catalog (pe_source_columns e') = Inr cs'" "out' = \<lparr>so_kind = pe_kind e', so_sources = cs'\<rparr>"
    by (auto simp: semantic_output_of_def validate_output_def)
  with governed_columns_same [OF assms(1) e'(3)] e'(2) have "out = out'" by simp
  with out' e'(1) show "out \<in> set outs'" using mapr_set [OF assms(3)] by auto
qed

lemma release_same:
  assumes "urns_identify catalog" "same_query plan plan'"
    and "build_semantic_release H catalog plan = Inr r" "build_semantic_release H catalog plan' = Inr r'"
  shows "sr_semantic_sha256 r = sr_semantic_sha256 r'"
proof -
  obtain urns outs refs joins groups where p: "mapr (dataset_urn_of catalog) (remdups (qp_source_datasets plan)) = Inr urns"
    "mapr (semantic_output_of catalog) (qp_projected_exposures plan) = Inr outs"
    "governed_columns catalog (qp_referenced_columns plan) = Inr refs" "governed_columns catalog (qp_join_columns plan) = Inr joins"
    "governed_columns catalog (qp_group_by_columns plan) = Inr groups" "build_release H (sort urns) outs refs joins groups plan = Inr r"
    using assms(3) by (auto simp: build_semantic_release_def)
  obtain urns' outs' refs' joins' groups' where p': "mapr (dataset_urn_of catalog) (remdups (qp_source_datasets plan')) = Inr urns'"
    "mapr (semantic_output_of catalog) (qp_projected_exposures plan') = Inr outs'"
    "governed_columns catalog (qp_referenced_columns plan') = Inr refs'" "governed_columns catalog (qp_join_columns plan') = Inr joins'"
    "governed_columns catalog (qp_group_by_columns plan') = Inr groups'" "build_release H (sort urns') outs' refs' joins' groups' plan' = Inr r'"
    using assms(4) by (auto simp: build_semantic_release_def)
  note same = assms(2) [unfolded same_query_def]
  have "set urns = set urns'" using mapr_set [OF p(1)] mapr_set [OF p'(1)] same by simp
  then have urns: "sort urns = sort urns'"
    using build_release_urns [OF p(6)] build_release_urns [OF p'(6)] by (intro canonical_inj) simp_all
  have "set outs = set outs'"
    using outputs_same [OF assms(1) p(2) p'(2)] outputs_same [OF assms(1) p'(2) p(2)] same by simp
  then have outs: "sorted_set (map (\<lambda>out. canonical_json_sha256 H (output_json out)) outs)
      = sorted_set (map (\<lambda>out. canonical_json_sha256 H (output_json out)) outs')"
    by (intro sorted_set_cong) simp
  have refs: "refs = refs'" "joins = joins'" "groups = groups'"
    using governed_columns_same [OF assms(1) _ p(3) p'(3)] governed_columns_same [OF assms(1) _ p(4) p'(4)]
      governed_columns_same [OF assms(1) _ p(5) p'(5)] same by simp_all
  have aggregates: "sorted_set (map (\<lambda>f. py_upper (py_strip f)) (qp_aggregate_functions plan))
      = sorted_set (map (\<lambda>f. py_upper (py_strip f)) (qp_aggregate_functions plan'))"
    using same by (intro sorted_set_cong) simp
  show ?thesis using p(6) p'(6) same
    by (auto simp: build_release_def Let_def validate_release_def compute_semantic_sha256_def urns outs refs aggregates)
qed

text \<open>C25: event_ignores_writing. Renaming aliases and output columns, reordering or repeating columns, sources,
  outputs and aggregates, or changing their case, moves an event neither to another privacy scope
  nor to another release family: the scope is the same and so is the semantic hash the cumulative
  budget counts repetitions by. The URNs of the catalog must identify its datasets.\<close>

theorem event_ignores_writing:
  assumes "urns_identify catalog" "same_query plan plan'"
    and "build_disclosure_event H identity catalog plan subject_key receipt policy = Inr event"
    and "build_disclosure_event H identity catalog plan' subject_key receipt' policy = Inr event'"
  shows "ev_scope event = ev_scope event' \<and> sr_semantic_sha256 (ev_semantic event) = sr_semantic_sha256 (ev_semantic event')"
proof -
  from assms(2) have "sorted_set (qp_source_datasets plan) = sorted_set (qp_source_datasets plan')"
    by (intro sorted_set_cong) (simp add: same_query_def)
  then have subject: "resolve_governed_subject_domain H catalog subject_key (qp_source_datasets plan)
      = resolve_governed_subject_domain H catalog subject_key (qp_source_datasets plan')"
    by (simp add: resolve_governed_subject_domain_def)
  from assms(3) obtain subject scope credential semantic where e: "resolve_governed_subject_domain H catalog subject_key (qp_source_datasets plan) = Inr subject"
    "build_disclosure_scope H identity subject = Inr scope" "build_semantic_release H catalog plan = Inr semantic"
    "event_of H scope credential receipt policy semantic = Inr event" by (auto simp: build_disclosure_event_def)
  from assms(4) obtain semantic' credential' where e': "build_semantic_release H catalog plan' = Inr semantic'"
    "event_of H scope credential' receipt' policy semantic' = Inr event'" using subject e(1,2) by (auto simp: build_disclosure_event_def)
  from e(4) e'(2) have "ev_scope event = scope" "ev_scope event' = scope" "ev_semantic event = semantic" "ev_semantic event' = semantic'"
    by (auto simp: event_of_def validate_event_def)
  with release_same [OF assms(1,2) e(3) e'(1)] show ?thesis by simp
qed

section \<open>A sample catalog\<close>

definition sample_catalog :: "string \<Rightarrow> string \<Rightarrow> fixture_catalog" where
  "sample_catalog orders_urn people_urn = \<lparr>fc_version = ''1'', fc_datasets =
     [(''orders'', \<lparr>fd_urn = orders_urn, fd_owner = None, fd_domain = Some ''sales'', fd_fields =
        [(''pid'', \<lparr>ff_category = STABLE_PSEUDONYM, ff_tags = [], ff_glossary_terms = [], ff_lineage_sources = []\<rparr>),
         (''total'', \<lparr>ff_category = PUBLIC_OR_LOW_RISK, ff_tags = [], ff_glossary_terms = [], ff_lineage_sources = []\<rparr>)]\<rparr>),
      (''people'', \<lparr>fd_urn = people_urn, fd_owner = None, fd_domain = None, fd_fields =
        [(''pid'', \<lparr>ff_category = STABLE_PSEUDONYM, ff_tags = [], ff_glossary_terms = [], ff_lineage_sources = []\<rparr>)]\<rparr>)]\<rparr>"

definition orders_total :: column_ref where
  "orders_total = \<lparr>cr_dataset = ''orders'', cr_field_path = ''total'', cr_alias = Some ''o''\<rparr>"

definition people_pid :: column_ref where
  "people_pid = \<lparr>cr_dataset = ''people'', cr_field_path = ''pid'', cr_alias = None\<rparr>"

definition sample_plan :: query_plan where
  "sample_plan = \<lparr>qp_statement_type = ''SELECT'', qp_source_datasets = [''orders'', ''people''],
     qp_projected_columns = [orders_total],
     qp_projected_exposures = [\<lparr>pe_output_name = ''t'', pe_kind = RAW_VALUE, pe_source_columns = [orders_total]\<rparr>],
     qp_referenced_columns = [orders_total, people_pid], qp_join_columns = [people_pid],
     qp_group_by_columns = [], qp_aggregate_functions = [], qp_minimum_group_size_present = None,
     qp_minimum_group_size_subject = None, qp_is_grouped = False, qp_contains_wildcard = False,
     qp_analysis_warnings = []\<rparr>"

definition sample_identity :: request_identity where
  "sample_identity = \<lparr>ri_principal_id = ''alice'', ri_credential_id = ''key'', ri_agent_id = None, ri_session_id = None\<rparr>"

definition sample_receipt :: string where
  "sample_receipt = ''tj_0123456789abcdef''"

definition sample_resolution :: "fixture_catalog \<Rightarrow> context_resolution" where
  "sample_resolution catalog = projr (resolve catalog sample_plan)"

definition resolver_event :: "fixture_catalog \<Rightarrow> disclosure_event result" where
  "resolver_event catalog = build_disclosure_event_from_resolver (\<lambda>_. zero_sha256) sample_identity (fixture_resolver catalog)
     (sample_resolution catalog) sample_plan people_pid sample_receipt ''1''"

definition catalog_event :: "fixture_catalog \<Rightarrow> disclosure_event result" where
  "catalog_event catalog = build_disclosure_event (\<lambda>_. zero_sha256) sample_identity catalog sample_plan people_pid sample_receipt ''1''"

lemma sample_resolution: "resolve (sample_catalog o_urn p_urn) sample_plan = Inr (sample_resolution (sample_catalog o_urn p_urn))"
  by code_simp

text \<open>The same query with another alias, another output name, and columns and sources repeated.\<close>

definition rewritten_plan :: query_plan where
  "rewritten_plan = sample_plan\<lparr>qp_source_datasets := [''people'', ''orders'', ''people''],
     qp_projected_exposures := [\<lparr>pe_output_name = ''renamed'', pe_kind = RAW_VALUE,
        pe_source_columns = [orders_total\<lparr>cr_alias := None\<rparr>, orders_total]\<rparr>],
     qp_referenced_columns := [people_pid, orders_total, people_pid\<lparr>cr_alias := Some ''p''\<rparr>]\<rparr>"

definition rewritten_event :: "fixture_catalog \<Rightarrow> disclosure_event result" where
  "rewritten_event catalog = build_disclosure_event (\<lambda>_. zero_sha256) sample_identity catalog rewritten_plan people_pid sample_receipt ''1''"

lemma sample_resolver_event: "resolver_event (sample_catalog ''u1'' ''u2'') = Inr (projr (resolver_event (sample_catalog ''u1'' ''u2'')))"
  by code_simp

lemma sample_catalog_event: "catalog_event (sample_catalog ''u2'' ''u1'') = Inr (projr (catalog_event (sample_catalog ''u2'' ''u1'')))"
  by code_simp

lemma sample_rewritten_event: "rewritten_event (sample_catalog ''u2'' ''u1'') = Inr (projr (rewritten_event (sample_catalog ''u2'' ''u1'')))"
  by code_simp

lemma sample_unambiguous:
  "unambiguous (set (plan_columns sample_plan @ subject_refs people_pid (qp_source_datasets sample_plan @ [cr_dataset people_pid])))"
  by code_simp

lemma sample_same_query: "same_query sample_plan rewritten_plan"
  by code_simp

lemma sample_urns: "urns_identify (sample_catalog ''u2'' ''u1'')"
  by (simp add: urns_identify_def sample_catalog_def)

lemma resolver_event_agrees_witness:
  "\<exists>event domains. resolver_event (sample_catalog ''u1'' ''u2'') = Inr event
     \<and> catalog_event (sample_catalog ''u1'' ''u2'') = Inr (event\<lparr>ev_scope := scope_with_domains domains (ev_scope event)\<rparr>)"
proof -
  obtain domains where "catalog_event (sample_catalog ''u1'' ''u2'') = Inr (projr (resolver_event (sample_catalog ''u1'' ''u2''))
      \<lparr>ev_scope := scope_with_domains domains (ev_scope (projr (resolver_event (sample_catalog ''u1'' ''u2''))))\<rparr>)"
    using resolver_event_agrees [OF sample_resolution sample_resolver_event [unfolded resolver_event_def] sample_unambiguous,
      folded resolver_event_def catalog_event_def] by (elim conjE exE)
  then show ?thesis by (intro exI conjI) (rule sample_resolver_event)
qed

lemma event_ignores_writing_witness:
  "\<exists>event event'. catalog_event (sample_catalog ''u2'' ''u1'') = Inr event \<and> rewritten_event (sample_catalog ''u2'' ''u1'') = Inr event'
     \<and> sample_plan \<noteq> rewritten_plan \<and> ev_scope event = ev_scope event'
     \<and> sr_semantic_sha256 (ev_semantic event) = sr_semantic_sha256 (ev_semantic event')"
proof -
  have "qp_source_datasets sample_plan \<noteq> qp_source_datasets rewritten_plan" by code_simp
  then have differ: "sample_plan \<noteq> rewritten_plan" by (rule contrapos_nn) simp
  note same = event_ignores_writing [OF sample_urns sample_same_query sample_catalog_event [unfolded catalog_event_def]
        sample_rewritten_event [unfolded rewritten_event_def], folded catalog_event_def rewritten_event_def]
  show ?thesis
  proof (intro exI conjI)
    show "catalog_event (sample_catalog ''u2'' ''u1'') = Inr (projr (catalog_event (sample_catalog ''u2'' ''u1'')))"
      by (rule sample_catalog_event)
    show "rewritten_event (sample_catalog ''u2'' ''u1'') = Inr (projr (rewritten_event (sample_catalog ''u2'' ''u1'')))"
      by (rule sample_rewritten_event)
  qed (use differ same in simp_all)
qed

text \<open>The converse of the agreement fails. The resolver path lists the URNs of the source datasets in the order of
  their names, where the release requires them sorted: a query whose URNs sort in another order is
  governed by the catalog path and refused by the resolver path.\<close>

lemma urn_order_refused:
  "resolver_event (sample_catalog ''u2'' ''u1'') = Inl (ValidationError ''source_dataset_urns must be sorted and unique'')
     \<and> (\<exists>event. catalog_event (sample_catalog ''u2'' ''u1'') = Inr event)"
proof
  show "resolver_event (sample_catalog ''u2'' ''u1'') = Inl (ValidationError ''source_dataset_urns must be sorted and unique'')"
    by code_simp
qed (use sample_catalog_event in blast)

end
