(* ===== verification/Secure_Ledger.thy ===== *)
theory Secure_Ledger
  imports Ledger
begin

text \<open>
  The two-phase ledger of \<open>src/toxicjoin/disclosure/secure_ledger.py\<close>: the append-only
  release-state journal layered over the disclosure ledger. A database is the base ledger's
  tables and the rows of \<open>disclosure_release_transitions\<close>, in insertion order. The runtime
  operations are the steps of a transition relation; reachability carries the clock, and the
  invariants of every reachable database are proved by rule induction.
\<close>

section \<open>The journal\<close>

datatype release_state = PENDING | RELEASED | ABORTED

record secure_db = ledger_db +
  db_transitions :: "(string \<times> release_state) list"

definition transition_states :: "secure_db \<Rightarrow> string \<Rightarrow> release_state list" where
  "transition_states db record_id = map snd (filter (\<lambda>t. fst t = record_id) (db_transitions db))"

text \<open>\<open>_release_state_connection\<close>. A record without transitions predates the journal and
  counts as released.\<close>

definition release_state_of :: "secure_db \<Rightarrow> string \<Rightarrow> release_state result" where
  "release_state_of db record_id =
     (let states = transition_states db record_id in
      if states = [] then Inr RELEASED
      else if states = [PENDING] then Inr PENDING
      else if states = [PENDING, RELEASED] then Inr RELEASED
      else if states = [PENDING, ABORTED] then Inr ABORTED
      else Inl (DisclosureLedgerIntegrityError ''invalid disclosure release transition sequence''))"

text \<open>An INSERT into the journal: the trigger \<open>disclosure_release_transition_valid_insert\<close>
  and the foreign key to \<open>disclosure_records\<close>.\<close>

definition insert_transition :: "secure_db \<Rightarrow> string \<Rightarrow> release_state \<Rightarrow> secure_db result" where
  "insert_transition db record_id st =
     (let states = transition_states db record_id in
      raise_first
       [(st = PENDING \<and> states \<noteq> [],
           SqliteIntegrityError ''PENDING must be the first release transition''),
        (st \<in> {RELEASED, ABORTED} \<and> PENDING \<notin> set states,
           SqliteIntegrityError ''terminal release transition requires PENDING''),
        (st \<in> {RELEASED, ABORTED} \<and> (RELEASED \<in> set states \<or> ABORTED \<in> set states),
           SqliteIntegrityError ''release transition is already terminal''),
        (record_id \<notin> lr_record_id ` set (db_records db),
           SqliteIntegrityError ''FOREIGN KEY constraint failed'')]
       (db\<lparr>db_transitions := db_transitions db @ [(record_id, st)]\<rparr>))"

text \<open>\<open>_active_history_connection\<close>: the records that are not aborted.\<close>

fun active_history :: "secure_db \<Rightarrow> disclosure_record list \<Rightarrow> disclosure_record list result" where
  "active_history db [] = Inr []"
| "active_history db (r # rs) =
     bindr (release_state_of db (dr_record_id r)) (\<lambda>st.
       bindr (active_history db rs) (\<lambda>active. Inr (if st \<noteq> ABORTED then r # active else active)))"

section \<open>Reserving a release\<close>

definition commit_txn ::
    "ledger_env \<Rightarrow> secure_db \<Rightarrow> ledger_io \<Rightarrow> disclosure_event
      \<Rightarrow> (composition_decision \<times> secure_db) result" where
  "commit_txn env db io bound =
     bindr (records_for_scope env db (ev_scope bound)) (\<lambda>audit_history.
     bindr (active_history db audit_history) (\<lambda>active.
     bindr (existing_receipt env db (ev_receipt_id bound)) (\<lambda>existing.
     case existing of
       Some old \<Rightarrow>
         if dr_event old \<noteq> bound
         then Inl (DisclosureLedgerConflict ''receipt_id already records different disclosure content'')
         else if old \<notin> set audit_history
         then Inl (DisclosureLedgerIntegrityError
                ''receipt index points outside validated privacy scope history'')
         else bindr (release_state_of db (dr_record_id old)) (\<lambda>st.
           if st = ABORTED
           then Inl (DisclosureLedgerConflict ''aborted disclosure receipt cannot be replayed'')
           else bindr (replayed bound active old) (\<lambda>d. Inr (d, db)))
     | None \<Rightarrow>
         bindr (evaluate_composition_history (le_budget env) (io_now io) active bound) (\<lambda>ev.
           if \<not> ce_allowed ev then bindr (denied ev) (\<lambda>d. Inr (d, db))
           else bindr (append_event env db io bound audit_history) (\<lambda>(r, db').
                bindr (insert_transition db' (dr_record_id r) PENDING) (\<lambda>db''.
                bindr (committed ev r) (\<lambda>d. Inr (d, db''))))))))"

definition evaluate_and_commit ::
    "ledger_env \<Rightarrow> secure_db \<Rightarrow> ledger_io \<Rightarrow> disclosure_event \<Rightarrow> string \<Rightarrow> string
      \<Rightarrow> composition_decision result \<times> secure_db" where
  "evaluate_and_commit env db io event sql dialect =
     (case bindr (bind_event env event sql dialect)
             (\<lambda>bound. bindr (validate_event_composition bound) (\<lambda>_. Inr bound)) of
        Inl e \<Rightarrow> (Inl e, db)
      | Inr bound \<Rightarrow> finish evaluate_handler db (commit_txn env db io bound))"

section \<open>Commitments, claims and the second phase\<close>

definition require_pending :: "ledger_env \<Rightarrow> secure_db \<Rightarrow> disclosure_commitment \<Rightarrow> unit result" where
  "require_pending env db c =
     bindr (record_for_commitment env db c) (\<lambda>_.
     bindr (release_state_of db (cm_record_id c)) (\<lambda>st.
       if st \<noteq> PENDING
       then Inl (DisclosureLedgerIntegrityError ''disclosure commitment is not pending'')
       else Inr ()))"

definition verify_commitment ::
    "ledger_env \<Rightarrow> secure_db \<Rightarrow> disclosure_commitment \<Rightarrow> disclosure_event \<Rightarrow> string \<Rightarrow> string
      \<Rightarrow> disclosure_record result" where
  "verify_commitment env db c event sql dialect =
     bindr (base_verify_commitment env db c event sql dialect) (\<lambda>r.
       bindr (require_pending env db c) (\<lambda>_. Inr r))"

definition claim_commitment ::
    "ledger_env \<Rightarrow> secure_db \<Rightarrow> disclosure_commitment \<Rightarrow> string \<Rightarrow> unit result \<times> secure_db" where
  "claim_commitment env db c authorization_id =
     (case require_pending env db c of
        Inl e \<Rightarrow> (Inl e, db)
      | Inr _ \<Rightarrow> base_claim_commitment env db c authorization_id)"

definition verify_authorization_claim ::
    "ledger_env \<Rightarrow> secure_db \<Rightarrow> disclosure_commitment \<Rightarrow> string \<Rightarrow> unit result" where
  "verify_authorization_claim env db c authorization_id =
     bindr (require_pending env db c) (\<lambda>_. base_verify_authorization_claim env db c authorization_id)"

definition mark_released ::
    "ledger_env \<Rightarrow> secure_db \<Rightarrow> disclosure_commitment \<Rightarrow> unit result \<times> secure_db" where
  "mark_released env db c = finish id db
     (bindr (record_for_commitment env db c) (\<lambda>_.
      bindr (release_state_of db (cm_record_id c)) (\<lambda>st.
        if st = RELEASED then Inr ((), db)
        else if st \<noteq> PENDING
        then Inl (DisclosureLedgerIntegrityError ''cannot release disclosure from this state'')
        else if find_claim db (cm_record_id c) = None
        then Inl (DisclosureLedgerIntegrityError
               ''cannot release disclosure without an execution authorization claim'')
        else bindr (insert_transition db (cm_record_id c) RELEASED) (\<lambda>db'. Inr ((), db')))))"

definition mark_aborted ::
    "ledger_env \<Rightarrow> secure_db \<Rightarrow> disclosure_commitment \<Rightarrow> unit result \<times> secure_db" where
  "mark_aborted env db c = finish id db
     (bindr (record_for_commitment env db c) (\<lambda>_.
      bindr (release_state_of db (cm_record_id c)) (\<lambda>st.
        if st = ABORTED then Inr ((), db)
        else if st \<noteq> PENDING
        then Inl (DisclosureLedgerIntegrityError ''cannot abort disclosure from this state'')
        else bindr (insert_transition db (cm_record_id c) ABORTED) (\<lambda>db'. Inr ((), db')))))"

definition release_state_query ::
    "ledger_env \<Rightarrow> secure_db \<Rightarrow> disclosure_commitment \<Rightarrow> release_state result" where
  "release_state_query env db c =
     bindr (record_for_commitment env db c) (\<lambda>_. release_state_of db (cm_record_id c))"

section \<open>Verifying everything\<close>

definition verify_release :: "secure_db \<Rightarrow> string \<Rightarrow> unit result" where
  "verify_release db record_id =
     bindr (release_state_of db record_id) (\<lambda>st.
       if st = RELEASED \<and> transition_states db record_id \<noteq> [] \<and> find_claim db record_id = None
       then Inl (DisclosureLedgerIntegrityError
              ''released disclosure is missing execution authorization claim'')
       else Inr ())"

definition verify_all :: "ledger_env \<Rightarrow> secure_db \<Rightarrow> nat result" where
  "verify_all env db =
     bindr (base_verify_all env db) (\<lambda>count.
     bindr (mapr (\<lambda>row. verify_release db (lr_record_id row)) (sort_key lr_sequence (db_records db)))
       (\<lambda>_. Inr count))"

section \<open>Runs of the ledger\<close>

text \<open>The operations that change the database. \<open>claim_commitment\<close> runs two transactions: the
  check that the record is pending and the claim itself. \<open>Claim_write\<close> is the second one
  alone, so that a run may interleave another operation between the two.\<close>

datatype ledger_op =
    Append disclosure_event
  | Commit disclosure_event string string
  | Claim disclosure_commitment string
  | Claim_write disclosure_commitment string
  | Release disclosure_commitment
  | Abort disclosure_commitment

fun apply_op :: "ledger_env \<Rightarrow> ledger_io \<Rightarrow> ledger_op \<Rightarrow> secure_db \<Rightarrow> secure_db" where
  "apply_op env io (Append e) db = snd (ledger_append env db io e)"
| "apply_op env io (Commit e sql dialect) db = snd (evaluate_and_commit env db io e sql dialect)"
| "apply_op env io (Claim c a) db = snd (claim_commitment env db c a)"
| "apply_op env io (Claim_write c a) db = snd (base_claim_commitment env db c a)"
| "apply_op env io (Release c) db = snd (mark_released env db c)"
| "apply_op env io (Abort c) db = snd (mark_aborted env db c)"

definition empty_db :: secure_db where
  "empty_db = \<lparr>db_records = [], db_claims = [], db_transitions = []\<rparr>"

text \<open>\<open>reachable env ops t db\<close>: operations of \<open>ops\<close> lead from the empty database to
  \<open>db\<close>, the clock not running backwards between evaluations; \<open>t\<close> is its last reading.\<close>

inductive reachable :: "ledger_env \<Rightarrow> ledger_op set \<Rightarrow> int \<Rightarrow> secure_db \<Rightarrow> bool"
  for env :: ledger_env and ops :: "ledger_op set" where
  start: "reachable env ops t empty_db"
| step: "reachable env ops t db \<Longrightarrow> op \<in> ops \<Longrightarrow> t \<le> io_now io
    \<Longrightarrow> reachable env ops (io_now io) (apply_op env io op db)"

text \<open>The runtime gate never uses the ungated append.\<close>

definition runtime_ops :: "ledger_op set" where
  "runtime_ops = {op. \<not> (\<exists>e. op = Append e)}"

section \<open>The shape of the journal\<close>

lemmas journal_defs = transition_states_def release_state_of_def

definition journal_ok :: "secure_db \<Rightarrow> bool" where
  "journal_ok db \<longleftrightarrow> fst ` set (db_transitions db) \<subseteq> lr_record_id ` set (db_records db)
     \<and> (\<forall>record_id. transition_states db record_id \<in>
          {[], [PENDING], [PENDING, RELEASED], [PENDING, ABORTED]})
     \<and> (\<forall>record_id. RELEASED \<in> set (transition_states db record_id)
          \<longrightarrow> find_claim db record_id \<noteq> None)"

definition secure_ok :: "ledger_env \<Rightarrow> secure_db \<Rightarrow> bool" where
  "secure_ok env db \<longleftrightarrow> ledger_ok env db \<and> journal_ok db"

lemma insert_transition_Inr:
  "insert_transition db rid st = Inr db' \<longleftrightarrow>
     db' = db\<lparr>db_transitions := db_transitions db @ [(rid, st)]\<rparr>
     \<and> rid \<in> lr_record_id ` set (db_records db)
     \<and> (if st = PENDING then transition_states db rid = []
        else PENDING \<in> set (transition_states db rid) \<and> RELEASED \<notin> set (transition_states db rid)
             \<and> ABORTED \<notin> set (transition_states db rid))"
  by (cases st) (auto simp: insert_transition_def Let_def)

lemma transition_states_insert:
  "transition_states (db\<lparr>db_transitions := db_transitions db @ [(rid, st)]\<rparr>) rid' =
     transition_states db rid' @ (if rid' = rid then [st] else [])"
  by (simp add: transition_states_def)

lemma same_transitions:
  "db_transitions db' = db_transitions db \<Longrightarrow> transition_states db' = transition_states db"
  "db_transitions db' = db_transitions db \<Longrightarrow> release_state_of db' = release_state_of db"
  by (simp_all add: fun_eq_iff journal_defs)

lemma release_state_of_Inr:
  "release_state_of db rid = Inr st \<longleftrightarrow>
     transition_states db rid \<in> (case st of PENDING \<Rightarrow> {[PENDING]}
       | RELEASED \<Rightarrow> {[], [PENDING, RELEASED]} | ABORTED \<Rightarrow> {[PENDING, ABORTED]})"
  by (cases st) (auto simp: release_state_of_def Let_def)

lemma journal_ok_state:
  "journal_ok db \<Longrightarrow> \<exists>st. release_state_of db rid = Inr st"
proof -
  assume "journal_ok db"
  then have "transition_states db rid \<in> {[], [PENDING], [PENDING, RELEASED], [PENDING, ABORTED]}"
    by (simp add: journal_ok_def)
  then show ?thesis by (auto simp: release_state_of_def Let_def)
qed

lemma journal_ok_fresh:
  "journal_ok db \<Longrightarrow> rid \<notin> lr_record_id ` set (db_records db) \<Longrightarrow> transition_states db rid = []"
  by (force simp: journal_ok_def transition_states_def filter_empty_conv)

lemma active_history_Inr:
  assumes "journal_ok db"
  shows "active_history db rs = Inr (filter (\<lambda>r. release_state_of db (dr_record_id r) \<noteq> Inr ABORTED) rs)"
proof (induction rs)
  case (Cons r rs)
  obtain st where "release_state_of db (dr_record_id r) = Inr st"
    using journal_ok_state [OF assms] by blast
  with Cons show ?case by simp
qed simp

section \<open>Steps\<close>

text \<open>What an operation does when it changes the database.\<close>

inductive ledger_step :: "ledger_env \<Rightarrow> ledger_io \<Rightarrow> ledger_op \<Rightarrow> secure_db \<Rightarrow> secure_db \<Rightarrow> bool"
  for env :: ledger_env and io :: ledger_io where
  append_step: "records_for_scope env db (ev_scope e) = Inr h \<Longrightarrow>
     append_event env db io e h = Inr (r, db') \<Longrightarrow> ledger_step env io (Append e) db db'"
| commit_step: "bind_event env e sql dialect = Inr b \<Longrightarrow>
     records_for_scope env db (ev_scope b) = Inr h \<Longrightarrow> active_history db h = Inr active \<Longrightarrow>
     existing_receipt env db (ev_receipt_id b) = Inr None \<Longrightarrow>
     evaluate_composition_history (le_budget env) (io_now io) active b = Inr ev \<Longrightarrow> ce_allowed ev \<Longrightarrow>
     append_event env db io b h = Inr (r, mid) \<Longrightarrow>
     insert_transition mid (dr_record_id r) PENDING = Inr db' \<Longrightarrow>
     ledger_step env io (Commit e sql dialect) db db'"
| claim_step: "require_pending env db c = Inr () \<Longrightarrow>
     base_claim_commitment env db c a = (Inr (), db') \<Longrightarrow> ledger_step env io (Claim c a) db db'"
| claim_write_step: "base_claim_commitment env db c a = (Inr (), db') \<Longrightarrow>
     ledger_step env io (Claim_write c a) db db'"
| release_step: "record_for_commitment env db c = Inr r \<Longrightarrow>
     release_state_of db (cm_record_id c) = Inr PENDING \<Longrightarrow> find_claim db (cm_record_id c) \<noteq> None \<Longrightarrow>
     insert_transition db (cm_record_id c) RELEASED = Inr db' \<Longrightarrow> ledger_step env io (Release c) db db'"
| abort_step: "record_for_commitment env db c = Inr r \<Longrightarrow>
     release_state_of db (cm_record_id c) = Inr PENDING \<Longrightarrow>
     insert_transition db (cm_record_id c) ABORTED = Inr db' \<Longrightarrow> ledger_step env io (Abort c) db db'"

inductive_cases commit_stepE: "ledger_step env io (Commit e sql dialect) db db'"
inductive_cases abort_stepE: "ledger_step env io (Abort c) db db'"
inductive_cases release_stepE: "ledger_step env io (Release c) db db'"

lemma commit_txn_Inr:
  assumes "commit_txn env db io b = Inr (d, db')"
  obtains (same) "db' = db"
  | (new) h active ev r mid where "records_for_scope env db (ev_scope b) = Inr h"
      "active_history db h = Inr active" "existing_receipt env db (ev_receipt_id b) = Inr None"
      "evaluate_composition_history (le_budget env) (io_now io) active b = Inr ev" "ce_allowed ev"
      "append_event env db io b h = Inr (r, mid)"
      "insert_transition mid (dr_record_id r) PENDING = Inr db'" "committed ev r = Inr d"
proof -
  from assms obtain h active existing where h: "records_for_scope env db (ev_scope b) = Inr h"
    and active: "active_history db h = Inr active"
    and ex: "existing_receipt env db (ev_receipt_id b) = Inr existing"
    unfolding commit_txn_def by auto
  show thesis
  proof (cases existing)
    case (Some old)
    with assms h active ex have "db' = db" by (auto simp: commit_txn_def split: if_splits)
    then show thesis by (rule same)
  next
    case None
    with assms h active ex obtain ev where
      ev: "evaluate_composition_history (le_budget env) (io_now io) active b = Inr ev"
      unfolding commit_txn_def by auto
    show thesis
    proof (cases "ce_allowed ev")
      case False
      with assms h active ex None ev have "db' = db" by (auto simp: commit_txn_def)
      then show thesis by (rule same)
    next
      case True
      with assms h active ex None ev obtain r mid where
        "append_event env db io b h = Inr (r, mid)"
        "insert_transition mid (dr_record_id r) PENDING = Inr db'" "committed ev r = Inr d"
        by (auto simp: commit_txn_def split_beta)
      with True h active ex None ev new show thesis by blast
    qed
  qed
qed

lemma evaluate_and_commit_result:
  assumes "evaluate_and_commit env db io e sql dialect = (res, db')"
  shows "db' = db \<or> ledger_step env io (Commit e sql dialect) db db'"
proof (cases "bindr (bind_event env e sql dialect)
      (\<lambda>bound. bindr (validate_event_composition bound) (\<lambda>_. Inr bound))")
  case (Inl er)
  with assms show ?thesis by (simp add: evaluate_and_commit_def)
next
  case (Inr b)
  then have b: "bind_event env e sql dialect = Inr b" by auto
  from Inr assms have fin: "finish evaluate_handler db (commit_txn env db io b) = (res, db')"
    by (simp add: evaluate_and_commit_def)
  show ?thesis
  proof (cases res)
    case (Inl er)
    with fin show ?thesis by (auto dest: finish_Inl)
  next
    case (Inr d)
    with fin have "commit_txn env db io b = Inr (d, db')" by (simp add: finish_Inr)
    then show ?thesis by (cases rule: commit_txn_Inr) (use b in \<open>auto intro: commit_step\<close>)
  qed
qed

lemma claim_result:
  assumes "base_claim_commitment env db c a = (res, db')"
  shows "db' = db \<or> res = Inr ()"
proof (cases res)
  case (Inl er)
  with assms show ?thesis by (auto simp: base_claim_commitment_def dest: finish_Inl split: if_splits)
qed simp

lemma ledger_append_result:
  assumes "ledger_append env db io e = (res, db')"
  shows "db' = db \<or> (\<exists>h r. records_for_scope env db (ev_scope e) = Inr h
     \<and> append_event env db io e h = Inr (r, db'))"
proof (cases res)
  case (Inl er)
  with assms show ?thesis by (auto simp: ledger_append_def dest: finish_Inl)
next
  case (Inr r)
  with assms show ?thesis
    by (auto simp: ledger_append_def finish_Inr split: option.splits if_splits)
qed

lemma mark_released_result:
  assumes "mark_released env db c = (res, db')"
  shows "db' = db \<or> ledger_step env io (Release c) db db'"
proof (cases res)
  case (Inl er)
  with assms show ?thesis by (auto simp: mark_released_def dest: finish_Inl)
next
  case (Inr u)
  with assms show ?thesis
    by (auto simp: mark_released_def finish_Inr split: if_splits intro: release_step)
qed

lemma mark_aborted_result:
  assumes "mark_aborted env db c = (res, db')"
  shows "db' = db \<or> ledger_step env io (Abort c) db db'"
proof (cases res)
  case (Inl er)
  with assms show ?thesis by (auto simp: mark_aborted_def dest: finish_Inl)
next
  case (Inr u)
  with assms show ?thesis
    by (auto simp: mark_aborted_def finish_Inr split: if_splits intro: abort_step)
qed

lemma claim_commitment_result:
  assumes "claim_commitment env db c a = (res, db')"
  shows "db' = db \<or> ledger_step env io (Claim c a) db db'"
proof (cases "require_pending env db c")
  case (Inl er)
  with assms show ?thesis by (simp add: claim_commitment_def)
next
  case (Inr u)
  with assms have "base_claim_commitment env db c a = (res, db')" by (simp add: claim_commitment_def)
  with Inr claim_result [OF this] show ?thesis by (auto intro: claim_step)
qed

lemma apply_op_step: "apply_op env io op db = db \<or> ledger_step env io op db (apply_op env io op db)"
proof (cases op)
  case (Append e)
  then show ?thesis using ledger_append_result [of env db io e] by (auto simp: prod_eq_iff intro: append_step)
next
  case (Commit e sql dialect)
  then show ?thesis using evaluate_and_commit_result [of env db io e sql dialect] by (simp add: prod_eq_iff)
next
  case (Claim c a)
  then show ?thesis using claim_commitment_result [of env db c a _ _ io] by (simp add: prod_eq_iff)
next
  case (Claim_write c a)
  then show ?thesis using claim_result [of env db c a]
    by (metis apply_op.simps(4) claim_write_step prod.collapse)
next
  case (Release c)
  then show ?thesis using mark_released_result [of env db c _ _ io] by (simp add: prod_eq_iff)
next
  case (Abort c)
  then show ?thesis using mark_aborted_result [of env db c _ _ io] by (simp add: prod_eq_iff)
qed

section \<open>Every step keeps the invariant\<close>

lemma ledger_ok_cong:
  assumes "db_records db' = db_records db" and "db_claims db' = db_claims db"
  shows "ledger_ok env db' \<longleftrightarrow> ledger_ok env db"
  by (simp add: ledger_ok_def claims_ok_def assms same_records_reads [OF assms(1)])

lemma insert_transition_same:
  assumes "insert_transition db rid st = Inr db'"
  shows "db_records db' = db_records db" "db_claims db' = db_claims db"
    "transition_states db' rid' = transition_states db rid' @ (if rid' = rid then [st] else [])"
  using assms by (simp_all add: insert_transition_Inr transition_states_insert)

lemma ledger_ok_insert:
  assumes "insert_transition db rid st = Inr db'"
  shows "ledger_ok env db' \<longleftrightarrow> ledger_ok env db"
  by (rule ledger_ok_cong) (rule insert_transition_same [OF assms])+

lemma journal_ok_append:
  assumes "journal_ok db" and "append_event env db io e h = Inr (r, db')"
  shows "journal_ok db'" "transition_states db' = transition_states db"
proof -
  have db': "db' = db\<lparr>db_records := db_records db @ [row_of r]\<rparr>" using append_eventD(1) [OF assms(2)] .
  show "transition_states db' = transition_states db" by (rule same_transitions) (simp add: db')
  then show "journal_ok db'" using assms(1) by (auto simp: journal_ok_def db' find_claim_def)
qed

lemma journal_ok_insert:
  assumes "journal_ok db" and ins: "insert_transition db rid st = Inr db'"
    and "st = RELEASED \<Longrightarrow> find_claim db rid \<noteq> None"
  shows "journal_ok db'"
proof -
  have "transition_states db rid' \<in> {[], [PENDING], [PENDING, RELEASED], [PENDING, ABORTED]}" for rid'
    using assms(1) by (simp add: journal_ok_def)
  from this [of rid] have "transition_states db rid @ [st] \<in> {[PENDING], [PENDING, RELEASED], [PENDING, ABORTED]}"
    using ins by (cases st) (auto simp: insert_transition_Inr)
  with assms show ?thesis
    using insert_transition_same [OF ins]
    by (auto simp: journal_ok_def find_claim_def insert_transition_Inr)
qed

lemma journal_ok_claim:
  assumes "journal_ok db" and "insert_claim db cl = Inr db'"
  shows "journal_ok db'" "transition_states db' = transition_states db"
proof -
  have db': "db' = db\<lparr>db_claims := db_claims db @ [cl]\<rparr>" using assms(2) by (simp add: insert_claim_Inr)
  show "transition_states db' = transition_states db" by (rule same_transitions) (simp add: db')
  then show "journal_ok db'" using assms(1) by (auto simp: journal_ok_def db' find_claim_def find_append)
qed

lemma base_claim_step:
  assumes "secure_ok env db" and "base_claim_commitment env db c a = (Inr (), db')"
  shows "secure_ok env db'" "db_records db' = db_records db" "transition_states db' = transition_states db"
proof -
  obtain cl where ins: "insert_claim db cl = Inr db'" using base_claim_Inr [OF assms(2)] by blast
  then show "secure_ok env db'" "transition_states db' = transition_states db"
    using assms claims_ok_insert [OF _ assms(2)] journal_ok_claim by (auto simp: secure_ok_def)
  show "db_records db' = db_records db" using ins by (simp add: insert_claim_Inr)
qed

lemma ledger_step_ok:
  assumes "ledger_step env io op db db'" and "secure_ok env db"
  shows "secure_ok env db'"
  using assms
proof cases
  case (append_step e h r)
  with assms(2) show ?thesis
    using ledger_ok_append journal_ok_append unfolding secure_ok_def by blast
next
  case (commit_step e sql dialect b h active ev r mid)
  have "ledger_ok env mid" "journal_ok mid"
    using assms(2) ledger_ok_append [OF _ commit_step(8,3)] journal_ok_append [OF _ commit_step(8)]
    by (simp_all add: secure_ok_def)
  with ledger_ok_insert [OF commit_step(9)] journal_ok_insert [OF _ commit_step(9)]
  show ?thesis by (simp add: secure_ok_def)
next
  case (release_step c r)
  with assms(2) ledger_ok_insert [OF release_step(5)] journal_ok_insert [OF _ release_step(5)]
  show ?thesis by (simp add: secure_ok_def)
next
  case (abort_step c r)
  with assms(2) ledger_ok_insert [OF abort_step(4)] journal_ok_insert [OF _ abort_step(4)]
  show ?thesis by (simp add: secure_ok_def)
qed (auto dest: base_claim_step)

lemma apply_op_ok: "secure_ok env db \<Longrightarrow> secure_ok env (apply_op env io op db)"
  using apply_op_step [of env io op db] ledger_step_ok by auto

lemma empty_db_ok: "secure_ok env empty_db"
  by (simp add: secure_ok_def ledger_ok_def records_ok_def claims_ok_def journal_ok_def
      empty_db_def transition_states_def)

lemma reachable_ok: "reachable env ops t db \<Longrightarrow> secure_ok env db"
  by (induction rule: reachable.induct) (simp_all add: empty_db_ok apply_op_ok)

section \<open>The exposure bound\<close>

definition active :: "secure_db \<Rightarrow> disclosure_record \<Rightarrow> bool" where
  "active db r \<longleftrightarrow> release_state_of db (dr_record_id r) \<noteq> Inr ABORTED"

definition exposed_count :: "int \<Rightarrow> disclosure_record list \<Rightarrow> int" where
  "exposed_count h rs = int (length (filter (\<lambda>r. protected_record r \<and> h < dr_created_at r) rs))"

definition bounded :: "ledger_env \<Rightarrow> int \<Rightarrow> secure_db \<Rightarrow> bool" where
  "bounded env t db \<longleftrightarrow> (\<forall>scope rs h. records_for_scope env db scope = Inr rs
     \<longrightarrow> t - bu_window_us (le_budget env) \<le> h
     \<longrightarrow> exposed_count h (filter (active db) rs) \<le> bu_max_protected_releases (le_budget env))"

lemma boundedD:
  "bounded env t db \<Longrightarrow> records_for_scope env db scope = Inr rs \<Longrightarrow>
     t - bu_window_us (le_budget env) \<le> h \<Longrightarrow>
     exposed_count h (filter (active db) rs) \<le> bu_max_protected_releases (le_budget env)"
  by (simp add: bounded_def)

lemma bounded_later: "bounded env t db \<Longrightarrow> t \<le> t' \<Longrightarrow> bounded env t' db"
  unfolding bounded_def by force

lemma exposed_count_filter: "exposed_count h (filter p rs) \<le> exposed_count h rs"
  unfolding exposed_count_def using composition_gate.count_subset [of h p rs] by simp

lemma bounded_shrink:
  assumes "bounded env t db" and "db_records db' = db_records db"
    and "\<And>r. active db' r \<Longrightarrow> active db r"
  shows "bounded env t db'"
  unfolding bounded_def
proof (intro allI impI)
  fix scope rs h
  assume "records_for_scope env db' scope = Inr rs" and h: "t - bu_window_us (le_budget env) \<le> h"
  then have rs: "records_for_scope env db scope = Inr rs"
    by (simp add: same_records_reads [OF assms(2)])
  have "filter (active db') rs = filter (active db') (filter (active db) rs)"
    using assms(3) by (auto intro: filter_cong)
  then have "exposed_count h (filter (active db') rs) \<le> exposed_count h (filter (active db) rs)"
    using exposed_count_filter [of h "active db'" "filter (active db) rs"] by simp
  with boundedD [OF assms(1) rs h]
  show "exposed_count h (filter (active db') rs) \<le> bu_max_protected_releases (le_budget env)" by simp
qed

lemma insert_transition_active:
  assumes "insert_transition db rid st = Inr db'" and "release_state_of db rid = Inr PENDING"
    and "active db' r"
  shows "active db r"
  using assms insert_transition_same(3) [OF assms(1), of "dr_record_id r"]
  by (cases "dr_record_id r = rid") (simp_all add: active_def release_state_of_Inr release_state_of_def)

lemma records_for_scope_ids:
  "records_for_scope env db scope = Inr rs \<Longrightarrow> r \<in> set rs \<Longrightarrow> dr_record_id r \<in> lr_record_id ` set (db_records db)"
  using records_for_scope_set [of env db scope rs] by (auto dest: row_to_record_indexes)

text \<open>What a commit leaves behind: the history of the scope with the new record, which is
  pending; every other record keeps its state.\<close>

lemma commit_after:
  assumes ok: "secure_ok env db" and h: "records_for_scope env db (ev_scope b) = Inr h"
    and app: "append_event env db io b h = Inr (r, mid)"
    and ins: "insert_transition mid (dr_record_id r) PENDING = Inr db'"
  shows "db_records db' = db_records db @ [row_of r]" "db_claims db' = db_claims db"
    "row_to_record env (row_of r) = Inr r" "dr_event r = b"
    "dr_record_id r \<notin> lr_record_id ` set (db_records db)"
    "release_state_of db' (dr_record_id r) = Inr PENDING"
    "rid \<noteq> dr_record_id r \<Longrightarrow> release_state_of db' rid = release_state_of db rid"
    "records_for_scope env db' (ev_scope b) = Inr (h @ [r])"
    "sc_scope_sha256 t \<noteq> sc_scope_sha256 (ev_scope b) \<Longrightarrow> records_for_scope env db' t = records_for_scope env db t"
    "find_claim db' (dr_record_id r) = None"
proof -
  have recs: "records_ok env db" and jok: "journal_ok db" using ok by (simp_all add: secure_ok_def ledger_ok_def)
  have same: "db_records db' = db_records mid" "db_claims db' = db_claims mid"
    using insert_transition_same [OF ins] by simp_all
  note reads = same_records_reads(2) [OF same(1)]
  have mid: "mid = db\<lparr>db_records := db_records db @ [row_of r]\<rparr>" by (rule append_eventD(1) [OF app])
  show "db_records db' = db_records db @ [row_of r]" "db_claims db' = db_claims db"
    using same mid by simp_all
  show "row_to_record env (row_of r) = Inr r" "dr_event r = b" by (rule append_eventD [OF app])+
  show fresh: "dr_record_id r \<notin> lr_record_id ` set (db_records db)"
    using append_eventD(5) [OF app] by fastforce
  have trans: "transition_states db' rid = transition_states db rid @ (if rid = dr_record_id r then [PENDING] else [])" for rid
    using insert_transition_same(3) [OF ins] journal_ok_append(2) [OF jok app] by simp
  show "release_state_of db' (dr_record_id r) = Inr PENDING"
    using trans [of "dr_record_id r"] journal_ok_fresh [OF jok fresh] by (simp add: release_state_of_def)
  show "rid \<noteq> dr_record_id r \<Longrightarrow> release_state_of db' rid = release_state_of db rid"
    using trans [of rid] by (simp add: release_state_of_def)
  show "records_for_scope env db' (ev_scope b) = Inr (h @ [r])"
    using records_for_scope_append_same [OF recs app h same_privacy_scope_refl] by (simp add: reads)
  show "sc_scope_sha256 t \<noteq> sc_scope_sha256 (ev_scope b) \<Longrightarrow> records_for_scope env db' t = records_for_scope env db t"
    using records_for_scope_append_other [OF recs app] by (simp add: reads)
  have "cl_record_id cl \<in> lr_record_id ` set (db_records db)" if "cl \<in> set (db_claims db)" for cl
  proof -
    from ok that have "verify_claim env db cl = Inr ()" by (simp add: secure_ok_def ledger_ok_def claims_ok_def)
    then obtain row where "find (\<lambda>row. lr_record_id row = cl_record_id cl) (db_records db) = Some row"
      unfolding verify_claim_def by auto
    from find_SomeD [OF this] show ?thesis by force
  qed
  with fresh \<open>db_claims db' = db_claims db\<close> show "find_claim db' (dr_record_id r) = None"
    by (force simp: find_claim_def find_None_iff)
qed

lemma bounded_commit:
  assumes ok: "secure_ok env db" and bnd: "bounded env t db" and "t \<le> io_now io"
    and "ledger_step env io (Commit e sql dialect) db db'"
  shows "bounded env (io_now io) db'"
proof -
  let ?w = "bu_window_us (le_budget env)" and ?max = "bu_max_protected_releases (le_budget env)"
  from assms(4) obtain b h act ev r mid where h: "records_for_scope env db (ev_scope b) = Inr h"
    and act: "active_history db h = Inr act"
    and ev: "evaluate_composition_history (le_budget env) (io_now io) act b = Inr ev" "ce_allowed ev"
    and app: "append_event env db io b h = Inr (r, mid)"
    and ins: "insert_transition mid (dr_record_id r) PENDING = Inr db'"
    by (rule commit_stepE) blast
  note after = commit_after [OF ok h app ins]
  have act_eq: "act = filter (active db) h"
    using act active_history_Inr [of db h] ok by (simp add: secure_ok_def active_def [abs_def])
  have old: "filter (active db') rs = filter (active db) rs"
    if "records_for_scope env db scope = Inr rs" for scope rs
  proof (rule filter_cong [OF refl])
    fix x assume "x \<in> set rs"
    with records_for_scope_ids [OF that] after(5) have "dr_record_id x \<noteq> dr_record_id r" by metis
    then show "active db' x = active db x" by (simp add: active_def after(7))
  qed
  show ?thesis
    unfolding bounded_def
  proof (intro allI impI)
    fix scope rs k
    assume rs: "records_for_scope env db' scope = Inr rs" and k: "io_now io - ?w \<le> k"
    show "exposed_count k (filter (active db') rs) \<le> ?max"
    proof (cases "sc_scope_sha256 scope = sc_scope_sha256 (ev_scope b)")
      case False
      with rs after(9) have rs': "records_for_scope env db scope = Inr rs" by simp
      with old [OF rs'] boundedD [OF bnd rs', of k] k \<open>t \<le> io_now io\<close> show ?thesis by simp
    next
      case True
      have "r \<in> set rs"
        using records_for_scope_set [OF rs] after(1,3,4) True by auto
      then have "same_privacy_scope (ev_scope b) scope"
        using rs check_chain_same_scope [of scope None rs "()" r] after(4) by (simp add: records_for_scope_Inr)
      then have "rs = h @ [r]" using records_for_scope_same [of "ev_scope b" scope env db'] after(8) rs by simp
      then have "filter (active db') rs = act @ [r]"
        using old [OF h] act_eq after(6) by (simp add: active_def)
      moreover have "exposed_count k (act @ [r]) \<le> ?max"
        unfolding exposed_count_def
      proof (rule composition_gate.admit_keeps_bound [where now = "io_now io" and e = b and t = t])
        fix k' assume "t - ?w \<le> k'"
        then show "int (length (filter (\<lambda>r. protected_record r \<and> k' < dr_created_at r) act)) \<le> ?max"
          using boundedD [OF bnd h] act_eq by (simp add: exposed_count_def)
      qed (use ev k \<open>t \<le> io_now io\<close> after(4) in \<open>auto simp: protected_record_def\<close>)
      ultimately show ?thesis by simp
    qed
  qed
qed

lemma bounded_step:
  assumes "ledger_step env io op db db'" and "op \<in> runtime_ops" and "secure_ok env db"
    and "bounded env t db" and "t \<le> io_now io"
  shows "bounded env (io_now io) db'"
proof -
  note later = bounded_later [OF assms(4,5)]
  from assms(1) show ?thesis
  proof cases
    case append_step
    with assms(2) show ?thesis by (simp add: runtime_ops_def)
  next
    case (commit_step e sql dialect)
    with assms show ?thesis using bounded_commit by blast
  next
    case (claim_step c a)
    note same = base_claim_step [OF assms(3) claim_step(3)]
    from later same(2) show ?thesis
      by (rule bounded_shrink) (use same(3) in \<open>simp add: active_def release_state_of_def\<close>)
  next
    case (claim_write_step c a)
    note same = base_claim_step [OF assms(3) claim_write_step(2)]
    from later same(2) show ?thesis
      by (rule bounded_shrink) (use same(3) in \<open>simp add: active_def release_state_of_def\<close>)
  next
    case (release_step c r)
    from later insert_transition_same(1) [OF release_step(5)] show ?thesis
      by (rule bounded_shrink) (rule insert_transition_active [OF release_step(5,3)])
  next
    case (abort_step c r)
    from later insert_transition_same(1) [OF abort_step(4)] show ?thesis
      by (rule bounded_shrink) (rule insert_transition_active [OF abort_step(4,3)])
  qed
qed

lemma reachable_bounded:
  assumes "reachable env ops t db" and "ops \<subseteq> runtime_ops"
    and "0 \<le> bu_max_protected_releases (le_budget env)"
  shows "bounded env t db"
  using assms(1)
proof (induction rule: reachable.induct)
  case (start t)
  have "records_for_scope env empty_db scope = Inr rs \<Longrightarrow> rs = []" for scope rs
    by (simp add: records_for_scope_def select_scope_def empty_db_def)
  with assms(3) show ?case by (fastforce simp: bounded_def exposed_count_def)
next
  case (step t db op io)
  then show ?case
    using apply_op_step [of env io op db] bounded_later [OF step.IH step.hyps(3)]
      bounded_step [OF _ _ reachable_ok [OF step.hyps(1)] step.IH] assms(2) by auto
qed

section \<open>Outcomes of a commit\<close>

lemma denied_simps [simp]: "denied ev = Inr d \<Longrightarrow> \<not> cd_allowed d \<and> cd_commitment d = None"
  by (auto simp: denied_def validate_composition_decision_def)

lemma committed_simps:
  "committed ev r = Inr d \<Longrightarrow> cd_allowed d \<and> cd_rule d = ce_rule ev \<and> cd_commitment d = Some (commitment_of r)"
  by (auto simp: committed_def validate_composition_decision_def)

lemma replayed_simps:
  "replayed e h r = Inr d \<longleftrightarrow> d = \<lparr>cd_allowed = True, cd_rule = IDEMPOTENT_REPLAY,
     cd_protected_release = is_protected_release (ev_semantic e),
     cd_prior_protected_count = protected_count h, cd_commitment = Some (commitment_of r)\<rparr>"
  by (auto simp: replayed_def validate_composition_decision_def)

lemma evaluate_rule_not_replay:
  assumes "evaluate_composition_history budget now h e = Inr ev"
  shows "ce_rule ev \<noteq> IDEMPOTENT_REPLAY"
proof -
  from assms obtain c scan where c: "ev_composition e = Some c"
    and v: "validate_event_composition e = Inr ()"
    and scan: "scan_history (now - bu_window_us budget) h [] = Inr scan"
    unfolding evaluate_composition_history_def by auto
  note eq = assms [unfolded evaluate_composition_history_def c v scan bindr.simps option.case]
  show ?thesis
  proof (cases scan)
    case (Legacy n)
    with eq have "ce_rule ev = LEGACY_HISTORY_BLOCK" by auto
    then show ?thesis by simp
  next
    case (Prior ps)
    with eq have "ce_rule ev \<in> {UNPROTECTED_RELEASE, CUMULATIVE_BUDGET_EXHAUSTED,
        FIRST_PROTECTED_RELEASE, PROTECTED_RELEASE_WITHIN_BUDGET}"
      by (cases "ps = []"; cases "co_protected_release c"; cases "bu_max_protected_releases budget \<le> int (length ps)") auto
    then show ?thesis by auto
  qed
qed

lemma evaluate_and_commit_Inr:
  assumes "evaluate_and_commit env db io e sql dialect = (Inr d, db')"
  obtains b where "bind_event env e sql dialect = Inr b" "validate_event_composition b = Inr ()"
    "commit_txn env db io b = Inr (d, db')"
proof (cases "bindr (bind_event env e sql dialect)
      (\<lambda>bound. bindr (validate_event_composition bound) (\<lambda>_. Inr bound))")
  case (Inl er)
  with assms show thesis by (simp add: evaluate_and_commit_def)
next
  case (Inr b)
  moreover from this assms have "commit_txn env db io b = Inr (d, db')"
    by (simp add: evaluate_and_commit_def finish_Inr)
  ultimately show thesis using that by auto
qed

text \<open>A transaction that finds the receipt is a replay, one that does not is a fresh decision.\<close>

lemma commit_txn_existing:
  assumes "records_for_scope env db (ev_scope b) = Inr h" and "active_history db h = Inr act"
    and "existing_receipt env db (ev_receipt_id b) = Inr (Some old)"
    and "commit_txn env db io b = Inr (d, db')"
  shows "db' = db" "dr_event old = b" "old \<in> set h" "cd_allowed d" "cd_rule d = IDEMPOTENT_REPLAY"
    "cd_commitment d = Some (commitment_of old)"
    "\<exists>st. release_state_of db (dr_record_id old) = Inr st \<and> st \<noteq> ABORTED"
proof -
  note eq = assms(4) [unfolded commit_txn_def assms(1-3) bindr.simps option.case]
  have ev: "dr_event old = b" and mem: "old \<in> set h" using eq by (auto split: if_splits)
  with eq obtain st where st: "release_state_of db (dr_record_id old) = Inr st" by auto
  with eq ev mem have "st \<noteq> ABORTED" by auto
  with st show "\<exists>st. release_state_of db (dr_record_id old) = Inr st \<and> st \<noteq> ABORTED" by blast
  from eq ev mem st \<open>st \<noteq> ABORTED\<close> show "db' = db" "cd_allowed d" "cd_rule d = IDEMPOTENT_REPLAY"
    "cd_commitment d = Some (commitment_of old)" by (auto simp: replayed_simps)
  from ev mem show "dr_event old = b" "old \<in> set h" .
qed

lemma commit_txn_fresh:
  assumes "records_for_scope env db (ev_scope b) = Inr h" and "active_history db h = Inr act"
    and "existing_receipt env db (ev_receipt_id b) = Inr None"
    and "commit_txn env db io b = Inr (d, db')"
  obtains ev where "evaluate_composition_history (le_budget env) (io_now io) act b = Inr ev"
    "\<not> ce_allowed ev \<Longrightarrow> db' = db \<and> \<not> cd_allowed d \<and> cd_commitment d = None"
    "ce_allowed ev \<Longrightarrow> \<exists>r mid. append_event env db io b h = Inr (r, mid)
       \<and> insert_transition mid (dr_record_id r) PENDING = Inr db'
       \<and> cd_allowed d \<and> cd_rule d = ce_rule ev \<and> cd_commitment d = Some (commitment_of r)"
proof -
  from assms obtain ev where ev: "evaluate_composition_history (le_budget env) (io_now io) act b = Inr ev"
    unfolding commit_txn_def by auto
  moreover have "\<not> ce_allowed ev \<Longrightarrow> db' = db \<and> \<not> cd_allowed d \<and> cd_commitment d = None"
    using assms ev by (auto simp: commit_txn_def dest: denied_simps)
  moreover have "ce_allowed ev \<Longrightarrow> \<exists>r mid. append_event env db io b h = Inr (r, mid)
       \<and> insert_transition mid (dr_record_id r) PENDING = Inr db'
       \<and> cd_allowed d \<and> cd_rule d = ce_rule ev \<and> cd_commitment d = Some (commitment_of r)"
    using assms ev by (auto simp: commit_txn_def split_beta dest: committed_simps)
  ultimately show thesis using that by blast
qed

lemma bind_event_scope:
  assumes "bind_event env e sql dialect = Inr b"
  shows "\<exists>c. b = e\<lparr>ev_composition := Some c\<rparr>" and "validate_event (le_H env) b = Inr b"
proof -
  from assms obtain c where c: "validate_event (le_H env) (e\<lparr>ev_composition := Some c\<rparr>) = Inr b"
    by (auto simp: bind_event_def)
  with validate_event_same [OF c] show "\<exists>c. b = e\<lparr>ev_composition := Some c\<rparr>"
    and "validate_event (le_H env) b = Inr b" by auto
qed

text \<open>The three outcomes of \<open>evaluate_and_commit\<close> that return.\<close>

lemma commit_outcome:
  assumes "evaluate_and_commit env db io e sql dialect = (Inr d, db')" and "secure_ok env db"
  obtains (replay) b old where "bind_event env e sql dialect = Inr b" "db' = db"
      "cd_allowed d" "cd_rule d = IDEMPOTENT_REPLAY" "cd_commitment d = Some (commitment_of old)"
      "dr_event old = b" "existing_receipt env db (ev_receipt_id b) = Inr (Some old)"
  | (denial) "db' = db" "\<not> cd_allowed d" "cd_commitment d = None"
  | (fresh) b h r mid where "bind_event env e sql dialect = Inr b"
      "records_for_scope env db (ev_scope b) = Inr h" "append_event env db io b h = Inr (r, mid)"
      "insert_transition mid (dr_record_id r) PENDING = Inr db'"
      "cd_allowed d" "cd_rule d \<noteq> IDEMPOTENT_REPLAY" "cd_commitment d = Some (commitment_of r)"
proof -
  from assms(1) obtain b where b: "bind_event env e sql dialect = Inr b"
    and txn: "commit_txn env db io b = Inr (d, db')" by (rule evaluate_and_commit_Inr)
  then obtain h act ex where h: "records_for_scope env db (ev_scope b) = Inr h"
    and act: "active_history db h = Inr act"
    and ex: "existing_receipt env db (ev_receipt_id b) = Inr ex"
    unfolding commit_txn_def by auto
  show thesis
  proof (cases ex)
    case (Some old)
    with commit_txn_existing [OF h act _ txn] ex b replay show thesis by blast
  next
    case None
    with ex have "existing_receipt env db (ev_receipt_id b) = Inr None" by simp
    from commit_txn_fresh [OF h act this txn] obtain ev where
      ev: "evaluate_composition_history (le_budget env) (io_now io) act b = Inr ev"
      "\<not> ce_allowed ev \<Longrightarrow> db' = db \<and> \<not> cd_allowed d \<and> cd_commitment d = None"
      "ce_allowed ev \<Longrightarrow> \<exists>r mid. append_event env db io b h = Inr (r, mid)
         \<and> insert_transition mid (dr_record_id r) PENDING = Inr db'
         \<and> cd_allowed d \<and> cd_rule d = ce_rule ev \<and> cd_commitment d = Some (commitment_of r)" by blast
    show thesis
    proof (cases "ce_allowed ev")
      case True
      with ev(3) evaluate_rule_not_replay [OF ev(1)] fresh b h show thesis by metis
    next
      case False
      from ev(2) [OF False] show thesis by (intro denial) simp_all
    qed
  qed
qed

lemma not_allowed_not_replay:
  assumes "commit_txn env db io b = Inr (d, db')" and "\<not> cd_allowed d"
  shows "cd_rule d \<noteq> IDEMPOTENT_REPLAY"
proof -
  from assms(1) obtain h act ex where h: "records_for_scope env db (ev_scope b) = Inr h"
    and act: "active_history db h = Inr act"
    and ex: "existing_receipt env db (ev_receipt_id b) = Inr ex"
    unfolding commit_txn_def by auto
  show ?thesis
  proof (cases ex)
    case (Some old)
    with commit_txn_existing(4) [OF h act _ assms(1)] ex assms(2) show ?thesis by simp
  next
    case None
    with assms(1) h act ex obtain ev where
      ev: "evaluate_composition_history (le_budget env) (io_now io) act b = Inr ev"
      unfolding commit_txn_def by auto
    with assms h act ex None have "cd_rule d = ce_rule ev"
      by (cases "ce_allowed ev")
        (auto simp: commit_txn_def split_beta denied_def committed_def validate_composition_decision_def)
    with evaluate_rule_not_replay [OF ev] show ?thesis by simp
  qed
qed

section \<open>Verification of reachable ledgers\<close>

lemma secure_ok_verifies:
  assumes "secure_ok env db"
  shows "verify_all env db = Inr (length (db_records db))"
proof -
  have jok: "journal_ok db" using assms by (simp add: secure_ok_def)
  have "verify_release db rid = Inr ()" for rid
  proof -
    obtain st where "release_state_of db rid = Inr st" using journal_ok_state [OF jok] by blast
    moreover from this jok have "st = RELEASED \<Longrightarrow> transition_states db rid \<noteq> [] \<Longrightarrow> find_claim db rid \<noteq> None"
      by (auto simp: release_state_of_Inr journal_ok_def)
    ultimately show ?thesis by (auto simp: verify_release_def)
  qed
  then have "mapr (\<lambda>row. verify_release db (lr_record_id row)) rows = Inr (map (\<lambda>_. ()) rows)"
    for rows :: "ledger_row list"
    by (intro mapr_map) simp
  with assms show ?thesis by (simp add: verify_all_def ledger_ok_verifies secure_ok_def)
qed

section \<open>What steps leave unchanged\<close>

text \<open>No step edits or deletes a stored row, and a release state moves only out of PENDING.\<close>

lemma step_appends:
  assumes "ledger_step env io op db db'" and "secure_ok env db"
  shows "\<exists>xs. db_records db' = db_records db @ xs" "\<exists>ys. db_claims db' = db_claims db @ ys"
    "\<exists>zs. db_transitions db' = db_transitions db @ zs"
proof -
  from assms have "(\<exists>xs. db_records db' = db_records db @ xs) \<and> (\<exists>ys. db_claims db' = db_claims db @ ys)
    \<and> (\<exists>zs. db_transitions db' = db_transitions db @ zs)"
  proof cases
    case (append_step e h r)
    with append_eventD(1) [OF append_step(3)] show ?thesis by simp
  next
    case (commit_step e sql dialect b h act ev r mid)
    with append_eventD(1) [OF commit_step(8)] show ?thesis by (simp add: insert_transition_Inr)
  next
    case (claim_step c a)
    then obtain cl where "insert_claim db cl = Inr db'" using base_claim_Inr [OF claim_step(3)] by blast
    then show ?thesis by (simp add: insert_claim_Inr)
  next
    case (claim_write_step c a)
    then obtain cl where "insert_claim db cl = Inr db'" using base_claim_Inr [OF claim_write_step(2)] by blast
    then show ?thesis by (simp add: insert_claim_Inr)
  next
    case (release_step c r)
    then show ?thesis by (simp add: insert_transition_Inr)
  next
    case (abort_step c r)
    then show ?thesis by (simp add: insert_transition_Inr)
  qed
  then show "\<exists>xs. db_records db' = db_records db @ xs" "\<exists>ys. db_claims db' = db_claims db @ ys"
    "\<exists>zs. db_transitions db' = db_transitions db @ zs" by blast+
qed

lemma insert_transition_moves:
  assumes "insert_transition db rid st = Inr db'" and "release_state_of db rid = Inr PENDING"
    and "release_state_of db rid' = Inr s"
  shows "release_state_of db' rid' = Inr s \<or> rid' = rid \<and> s = PENDING \<and> release_state_of db' rid' = Inr st"
proof (cases "rid' = rid")
  case True
  then have "s = PENDING" using assms(2,3) by simp
  moreover have "transition_states db rid = [PENDING]"
    using assms(2) by (simp add: release_state_of_Inr)
  moreover from this have "st \<noteq> PENDING" using assms(1) by (auto simp: insert_transition_Inr)
  ultimately show ?thesis
    using insert_transition_same(3) [OF assms(1), of rid'] True
    by (cases st) (simp_all add: release_state_of_Inr)
next
  case False
  with insert_transition_same(3) [OF assms(1), of rid'] assms(3) show ?thesis
    by (simp add: release_state_of_def)
qed

lemma step_states:
  assumes "ledger_step env io op db db'" and "secure_ok env db"
    and "rid \<in> lr_record_id ` set (db_records db)" and "release_state_of db rid = Inr st"
  shows "release_state_of db' rid = Inr st
    \<or> st = PENDING \<and> release_state_of db' rid = Inr RELEASED
        \<and> (\<exists>c. op = Release c \<and> cm_record_id c = rid)
    \<or> st = PENDING \<and> release_state_of db' rid = Inr ABORTED
        \<and> (\<exists>c. op = Abort c \<and> cm_record_id c = rid)"
  using assms(1)
proof cases
  case (append_step e h r)
  with assms journal_ok_append(2) [OF _ append_step(3)] show ?thesis
    by (simp add: secure_ok_def release_state_of_def)
next
  case (commit_step e sql dialect b h act ev r mid)
  note after = commit_after [OF assms(2) commit_step(3,8,9)]
  from after(5) assms(3) have "rid \<noteq> dr_record_id r" by blast
  with after(7) assms(4) show ?thesis by simp
next
  case (claim_step c a)
  with assms(4) base_claim_step(3) [OF assms(2) claim_step(3)] show ?thesis by (simp add: release_state_of_def)
next
  case (claim_write_step c a)
  with assms(4) base_claim_step(3) [OF assms(2) claim_write_step(2)] show ?thesis
    by (simp add: release_state_of_def)
next
  case (release_step c r)
  with insert_transition_moves [OF release_step(5,3) assms(4)] show ?thesis by auto
next
  case (abort_step c r)
  with insert_transition_moves [OF abort_step(4,3) assms(4)] show ?thesis by auto
qed

section \<open>The life of one release\<close>

text \<open>A stored pending record: its row, its history and its state.\<close>

lemma stored_record:
  assumes "secure_ok env db" and "row \<in> set (db_records db)"
  obtains r rs where "row_to_record env row = Inr r" "records_for_scope env db (ev_scope (dr_event r)) = Inr rs"
    "r \<in> set rs" "record_for_commitment env db (commitment_of r) = Inr r"
    "existing_receipt env db (ev_receipt_id (dr_event r)) = Inr (Some r)"
    "filter (\<lambda>r'. ev_receipt_id (dr_event r') = ev_receipt_id (dr_event r)) rs = [r]"
proof -
  have ok: "records_ok env db" using assms(1) by (simp add: secure_ok_def ledger_ok_def)
  then obtain r rs where r: "row_to_record env row = Inr r"
    and rs: "records_for_scope env db (ev_scope (dr_event r)) = Inr rs"
    using records_okD(5) [OF ok assms(2)] unfolding scope_reads_def by blast
  have mem: "r \<in> set rs"
    using records_for_scope_set [OF rs] assms(2) r row_to_record_indexes [OF r] by auto
  let ?p = "\<lambda>r'. ev_receipt_id (dr_event r') = ev_receipt_id (dr_event r)"
  have sel: "list_all2 (\<lambda>row r. row_to_record env row = Inr r)
      (filter (\<lambda>row'. lr_scope_sha256 row' = sc_scope_sha256 (ev_scope (dr_event r))) (db_records db)) rs"
    using rs by (simp add: records_for_scope_Inr select_scope_filter [OF records_okD(1) [OF ok]])
  have "map lr_receipt_id (filter (\<lambda>row'. lr_scope_sha256 row' = sc_scope_sha256 (ev_scope (dr_event r))) (db_records db))
      = map (\<lambda>r'. ev_receipt_id (dr_event r')) rs"
    using sel by (induction rule: list_all2_induct) (auto dest: row_to_record_indexes)
  then have "distinct (map (\<lambda>r'. ev_receipt_id (dr_event r')) rs)"
    using records_okD(4) [OF ok] by (metis distinct_map_filter)
  then have "filter ?p rs = [r]"
    using mem
  proof (induction rs)
    case (Cons x xs)
    then show ?case by (auto simp: filter_empty_conv image_iff)
  qed simp
  with that r rs mem record_for_commitment_stored [OF ok assms(2) r]
    existing_receipt_stored(1) [OF ok assms(2) r] show thesis by blast
qed

lemma pending_requires:
  assumes "record_for_commitment env db c = Inr r"
  shows "require_pending env db c = Inr () \<longleftrightarrow> release_state_of db (cm_record_id c) = Inr PENDING"
  using assms by (auto simp: require_pending_def)

lemma claim_commitment_pending:
  assumes "record_for_commitment env db c = Inr r" and "release_state_of db (cm_record_id c) = Inr PENDING"
    and "is_authorization_id a" and "find_claim db (cm_record_id c) = None"
    and "\<forall>cl \<in> set (db_claims db). cl_authorization_id cl \<noteq> a"
  shows "claim_commitment env db c a = (Inr (), db\<lparr>db_claims := db_claims db @
     [\<lparr>cl_record_id = cm_record_id c, cl_authorization_id = a, cl_receipt_id = cm_receipt_id c,
       cl_content_sha256 = cm_content_sha256 c\<rparr>]\<rparr>)"
proof -
  have "commitment_of r = c" using record_for_commitment_Inr [OF assms(1)] by blast
  then have [simp]: "dr_record_id r = cm_record_id c" "ev_receipt_id (dr_event r) = cm_receipt_id c"
    "dr_content_sha256 r = cm_content_sha256 c" by (simp_all flip: commitment_of_simps)
  have "require_pending env db c = Inr ()" using assms(2) by (simp add: pending_requires [OF assms(1)])
  moreover have "\<forall>cl \<in> set (db_claims db). cl_record_id cl \<noteq> cm_record_id c"
    using assms(4) by (simp add: find_claim_def find_None_iff)
  ultimately show ?thesis
    using assms by (simp add: claim_commitment_def base_claim_commitment_def insert_claim_def list_ex_iff)
qed

lemma insert_terminal:
  assumes "release_state_of db rid = Inr PENDING" and "rid \<in> lr_record_id ` set (db_records db)"
    and "st \<noteq> PENDING"
  shows "insert_transition db rid st = Inr (db\<lparr>db_transitions := db_transitions db @ [(rid, st)]\<rparr>)"
    and "release_state_of (db\<lparr>db_transitions := db_transitions db @ [(rid, st)]\<rparr>) rid = Inr st"
proof -
  have ts: "transition_states db rid = [PENDING]" using assms(1) by (simp add: release_state_of_Inr)
  with assms(2,3) show "insert_transition db rid st = Inr (db\<lparr>db_transitions := db_transitions db @ [(rid, st)]\<rparr>)"
    by (simp add: insert_transition_Inr)
  show "release_state_of (db\<lparr>db_transitions := db_transitions db @ [(rid, st)]\<rparr>) rid = Inr st"
    using ts assms(3) by (cases st) (simp_all add: release_state_of_Inr transition_states_insert)
qed

lemma record_for_commitment_row:
  "record_for_commitment env db c = Inr r \<Longrightarrow> cm_record_id c \<in> lr_record_id ` set (db_records db)"
proof -
  assume "record_for_commitment env db c = Inr r"
  then obtain row where "find (\<lambda>row. lr_record_id row = cm_record_id c) (db_records db) = Some row"
    unfolding record_for_commitment_def by auto
  from find_SomeD [OF this] show ?thesis by force
qed

lemma mark_released_pending:
  assumes "record_for_commitment env db c = Inr r" and "release_state_of db (cm_record_id c) = Inr PENDING"
    and "find_claim db (cm_record_id c) \<noteq> None"
  shows "mark_released env db c = (Inr (), db\<lparr>db_transitions := db_transitions db @ [(cm_record_id c, RELEASED)]\<rparr>)"
  using assms insert_terminal(1) [OF assms(2) record_for_commitment_row [OF assms(1)], of RELEASED]
  by (simp add: mark_released_def)

lemma mark_aborted_pending:
  assumes "record_for_commitment env db c = Inr r" and "release_state_of db (cm_record_id c) = Inr PENDING"
  shows "mark_aborted env db c = (Inr (), db\<lparr>db_transitions := db_transitions db @ [(cm_record_id c, ABORTED)]\<rparr>)"
  using assms insert_terminal(1) [OF assms(2) record_for_commitment_row [OF assms(1)], of ABORTED]
  by (simp add: mark_aborted_def)

section \<open>A small run for the witnesses\<close>

lemma sample_bind: "bind_event sample_env (sample_event None) ''q'' ''duckdb'' = Inr sample_bound"
proof -
  have "validate_composition sample_composition = Inr sample_composition"
    by (simp add: validate_composition_def composition_checks_def sample_composition_def)
  moreover have "(sample_event None)\<lparr>ev_composition := Some sample_composition\<rparr> = sample_bound"
    by (simp add: sample_event_def sample_bound_def)
  ultimately show ?thesis
    using sample_event_valid
    by (simp add: bind_event_def build_composition_metadata_def sample_env_def is_protected_release_def
        sample_event_def sample_semantic_def sample_composition_def)
qed

definition sample_record_1 :: disclosure_record where
  "sample_record_1 = new_record sample_env empty_db sample_io sample_bound []"

definition sample_pending :: secure_db where
  "sample_pending = \<lparr>db_records = [row_of sample_record_1], db_claims = [],
     db_transitions = [(dr_record_id sample_record_1, PENDING)]\<rparr>"

definition sample_decision :: composition_decision where
  "sample_decision = \<lparr>cd_allowed = True, cd_rule = FIRST_PROTECTED_RELEASE, cd_protected_release = True,
     cd_prior_protected_count = 0, cd_commitment = Some (commitment_of sample_record_1)\<rparr>"

lemma sample_record_1_simps [simp]:
  "dr_event sample_record_1 = sample_bound" "dr_previous_content_sha256 sample_record_1 = None"
  by (simp_all add: sample_record_1_def)

lemma sample_commit:
  "evaluate_and_commit sample_env empty_db sample_io (sample_event None) ''q'' ''duckdb''
     = (Inr sample_decision, sample_pending)"
proof -
  have comp: "validate_event_composition sample_bound = Inr ()" by (simp add: sample_bound_def)
  have valid: "validate_record (le_H sample_env) (le_ts sample_env) sample_record_1 = Inr sample_record_1"
    unfolding sample_record_1_def
    by (rule new_record_valid)
      (simp_all add: sample_event_valid sample_io_def is_hex_zeros next_sequence_def empty_db_def)
  have "records_for_scope sample_env empty_db (ev_scope sample_bound) = Inr []"
    by (simp add: records_for_scope_def select_scope_def empty_db_def)
  moreover have "existing_receipt sample_env empty_db (ev_receipt_id sample_bound) = Inr None"
    by (simp add: existing_receipt_None empty_db_def)
  moreover have "evaluate_composition_history (le_budget sample_env) (io_now sample_io) [] sample_bound =
      Inr \<lparr>ce_allowed = True, ce_rule = FIRST_PROTECTED_RELEASE, ce_protected_release = True,
        ce_prior_protected_count = 0\<rparr>"
    using comp by (simp add: evaluate_composition_history_def sample_env_def default_disclosure_budget_def
        sample_bound_def)
  moreover have "append_event sample_env empty_db sample_io sample_bound [] =
      Inr (sample_record_1, empty_db\<lparr>db_records := [row_of sample_record_1]\<rparr>)"
    using comp valid by (simp add: append_event_Inr insert_record_Inr sample_record_1_def empty_db_def)
  moreover have "insert_transition (empty_db\<lparr>db_records := [row_of sample_record_1]\<rparr>)
      (dr_record_id sample_record_1) PENDING = Inr sample_pending"
    by (simp add: insert_transition_Inr transition_states_def empty_db_def sample_pending_def)
  ultimately show ?thesis
    using comp
    by (simp add: evaluate_and_commit_def sample_bind commit_txn_def committed_def sample_decision_def
        validate_composition_decision_def)
qed

lemma sample_reachable: "reachable sample_env runtime_ops 10 sample_pending"
proof -
  have "reachable sample_env runtime_ops (io_now sample_io)
      (apply_op sample_env sample_io (Commit (sample_event None) ''q'' ''duckdb'') empty_db)"
    by (rule reachable.step [OF reachable.start _ order_refl])
      (simp_all add: runtime_ops_def)
  moreover have "io_now sample_io = 10" by (simp add: sample_io_def)
  ultimately show ?thesis by (simp add: sample_commit)
qed

lemma sample_pending_facts:
  "row_to_record sample_env (row_of sample_record_1) = Inr sample_record_1"
  "release_state_of sample_pending (dr_record_id sample_record_1) = Inr PENDING"
  "record_for_commitment sample_env sample_pending (commitment_of sample_record_1) = Inr sample_record_1"
  "db_records sample_pending = [row_of sample_record_1]" "db_claims sample_pending = []"
  "records_for_scope sample_env sample_pending sample_scope = Inr [sample_record_1]"
proof -
  show recs: "db_records sample_pending = [row_of sample_record_1]" "db_claims sample_pending = []"
    by (simp_all add: sample_pending_def)
  show "release_state_of sample_pending (dr_record_id sample_record_1) = Inr PENDING"
    by (simp add: release_state_of_def transition_states_def sample_pending_def)
  have row: "row_of sample_record_1 \<in> set (db_records sample_pending)" by (simp add: recs)
  obtain r rs where r: "row_to_record sample_env (row_of sample_record_1) = Inr r"
    "records_for_scope sample_env sample_pending (ev_scope (dr_event r)) = Inr rs"
    "record_for_commitment sample_env sample_pending (commitment_of r) = Inr r"
    by (rule stored_record [OF reachable_ok [OF sample_reachable] row])
  then have same: "r = sample_record_1" by (simp add: row_to_record_Inr)
  with r show "row_to_record sample_env (row_of sample_record_1) = Inr sample_record_1"
    "record_for_commitment sample_env sample_pending (commitment_of sample_record_1) = Inr sample_record_1"
    by simp_all
  with r(2) same recs show "records_for_scope sample_env sample_pending sample_scope = Inr [sample_record_1]"
    by (auto simp: records_for_scope_Inr select_scope_def sample_bound_def sample_event_def)
qed

definition sample_released :: secure_db where
  "sample_released = apply_op sample_env sample_io (Release (commitment_of sample_record_1))
     (apply_op sample_env sample_io (Claim (commitment_of sample_record_1) sample_authorization) sample_pending)"

lemma sample_released_facts:
  "reachable sample_env runtime_ops 10 sample_released"
  "row_of sample_record_1 \<in> set (db_records sample_released)"
  "release_state_of sample_released (dr_record_id sample_record_1) = Inr RELEASED"
  "transition_states sample_released (dr_record_id sample_record_1) \<noteq> []"
proof -
  have "io_now sample_io = 10" by (simp add: sample_io_def)
  then show "reachable sample_env runtime_ops 10 sample_released"
    unfolding sample_released_def
    using reachable.step [OF reachable.step [OF sample_reachable], of
        "Claim (commitment_of sample_record_1) sample_authorization" sample_io
        "Release (commitment_of sample_record_1)" sample_io]
    by (simp add: runtime_ops_def)
  let ?c = "commitment_of sample_record_1"
  define claimed where "claimed = apply_op sample_env sample_io (Claim ?c sample_authorization) sample_pending"
  have claim: "claim_commitment sample_env sample_pending ?c sample_authorization = (Inr (), claimed)"
    and cl: "claimed = sample_pending\<lparr>db_claims := [\<lparr>cl_record_id = dr_record_id sample_record_1,
      cl_authorization_id = sample_authorization, cl_receipt_id = ev_receipt_id sample_bound,
      cl_content_sha256 = dr_content_sha256 sample_record_1\<rparr>]\<rparr>"
    using claim_commitment_pending [of sample_env sample_pending ?c sample_record_1 sample_authorization]
    by (simp_all add: sample_pending_facts find_claim_def claimed_def)
  have rec: "record_for_commitment sample_env claimed ?c = Inr sample_record_1"
    using sample_pending_facts(3) same_records_reads(5) [of claimed sample_pending sample_env] by (simp add: cl)
  have st: "release_state_of claimed (cm_record_id ?c) = Inr PENDING"
    using sample_pending_facts(2) same_transitions(2) [of claimed sample_pending] by (simp add: cl)
  have "find_claim claimed (cm_record_id ?c) \<noteq> None" by (simp add: cl find_claim_def)
  from mark_released_pending [OF rec st this]
  have rel: "sample_released = claimed\<lparr>db_transitions := db_transitions claimed @ [(cm_record_id ?c, RELEASED)]\<rparr>"
    by (simp add: sample_released_def claimed_def)
  show "row_of sample_record_1 \<in> set (db_records sample_released)"
    by (simp add: rel cl sample_pending_def)
  show released: "release_state_of sample_released (dr_record_id sample_record_1) = Inr RELEASED"
    using insert_terminal(2) [OF st record_for_commitment_row [OF rec], of RELEASED] by (simp add: rel)
  show "transition_states sample_released (dr_record_id sample_record_1) \<noteq> []"
    by (simp add: rel transition_states_insert)
qed

section \<open>Properties\<close>

text \<open>C1: the exposure bound. However evaluations, claims, releases and aborts are interleaved,
  in every database the runtime operations reach from an empty one, every privacy scope that
  reads has at most the budgeted number of protected releases that are pending or released and
  still inside the rolling window, at the last evaluation and at every later time.\<close>

theorem exposure_bound:
  assumes "reachable env runtime_ops t db"
    and "validate_disclosure_budget (le_budget env) = Inr (le_budget env)"
    and "records_for_scope env db scope = Inr rs" and "t \<le> now"
  shows "\<exists>live. active_history db rs = Inr live
    \<and> int (length (in_window (now - bu_window_us (le_budget env)) live))
        \<le> bu_max_protected_releases (le_budget env)"
proof -
  have "1 \<le> bu_max_protected_releases (le_budget env)"
    using assms(2) by (simp add: validate_disclosure_budget_def)
  then have "bounded env t db" using reachable_bounded [OF assms(1)] by simp
  from boundedD [OF bounded_later [OF this assms(4)] assms(3) order_refl]
  have "exposed_count (now - bu_window_us (le_budget env)) (filter (active db) rs)
      \<le> bu_max_protected_releases (le_budget env)" .
  moreover have "active_history db rs = Inr (filter (active db) rs)"
    using active_history_Inr reachable_ok [OF assms(1)]
    by (simp add: secure_ok_def active_def [abs_def])
  ultimately show ?thesis by (simp add: exposed_count_def in_window_def)
qed

theorem exposure_bound_witness:
  "\<exists>live. active_history sample_pending [sample_record_1] = Inr live
    \<and> int (length (in_window (10 - bu_window_us (le_budget sample_env)) live)) \<le> 5"
proof -
  have "validate_disclosure_budget (le_budget sample_env) = Inr (le_budget sample_env)"
    by (simp add: validate_disclosure_budget_def sample_env_def default_disclosure_budget_def)
  from exposure_bound [OF sample_reachable this sample_pending_facts(6) order_refl]
  show ?thesis by (simp add: sample_env_def default_disclosure_budget_def)
qed

text \<open>C7: every database that any sequence of ledger operations reaches verifies, with the
  number of its records.\<close>

theorem reachable_verifies:
  assumes "reachable env ops t db"
  shows "verify_all env db = Inr (length (db_records db))"
  by (rule secure_ok_verifies) (rule reachable_ok [OF assms])

theorem reachable_verifies_witness: "verify_all sample_env sample_released = Inr (length (db_records sample_released))"
  by (rule reachable_verifies [OF sample_released_facts(1)])

text \<open>C11: the ledger is append-only and its release states are final. Whatever operation runs on
  a reachable database, the rows of the three tables stay where they are, and the state of a
  stored record changes only from PENDING, to RELEASED by a release of that record or to ABORTED
  by an abort of it.\<close>

theorem ledger_append_only:
  assumes "reachable env ops t db" and "row \<in> set (db_records db)"
    and "release_state_of db (lr_record_id row) = Inr st"
  shows "(\<exists>xs ys zs. db_records (apply_op env io op db) = db_records db @ xs
        \<and> db_claims (apply_op env io op db) = db_claims db @ ys
        \<and> db_transitions (apply_op env io op db) = db_transitions db @ zs)
    \<and> (release_state_of (apply_op env io op db) (lr_record_id row) = Inr st
       \<or> st = PENDING \<and> (\<exists>c. cm_record_id c = lr_record_id row
           \<and> (op = Release c \<and> release_state_of (apply_op env io op db) (lr_record_id row) = Inr RELEASED
              \<or> op = Abort c \<and> release_state_of (apply_op env io op db) (lr_record_id row) = Inr ABORTED)))"
proof (cases "apply_op env io op db = db")
  case True
  with assms(3) show ?thesis by simp
next
  case False
  then have step: "ledger_step env io op db (apply_op env io op db)" using apply_op_step by blast
  note ok = reachable_ok [OF assms(1)]
  from assms(2) have "lr_record_id row \<in> lr_record_id ` set (db_records db)" by simp
  from step_states [OF step ok this assms(3)] step_appends [OF step ok] show ?thesis by blast
qed

theorem ledger_append_only_witness:
  "let db' = apply_op sample_env sample_io (Abort (commitment_of sample_record_1)) sample_pending in
     (\<exists>xs. db_records db' = row_of sample_record_1 # xs)
     \<and> release_state_of db' (dr_record_id sample_record_1) \<in> {Inr PENDING, Inr ABORTED}"
proof -
  have "row_of sample_record_1 \<in> set (db_records sample_pending)"
    "release_state_of sample_pending (lr_record_id (row_of sample_record_1)) = Inr PENDING"
    by (simp_all add: sample_pending_facts)
  from ledger_append_only [OF sample_reachable this, of sample_io "Abort (commitment_of sample_record_1)"]
  show ?thesis by (auto simp: sample_pending_facts)
qed

text \<open>C21: nothing is released without an execution claim. In every reachable database a record
  that went through the journal and counts as released has an authorization claim that carries
  its receipt and its content hash.\<close>

theorem released_was_claimed:
  assumes "reachable env ops t db" and "row \<in> set (db_records db)"
    and "release_state_of db (lr_record_id row) = Inr RELEASED"
    and "transition_states db (lr_record_id row) \<noteq> []"
  shows "\<exists>cl \<in> set (db_claims db). cl_record_id cl = lr_record_id row
    \<and> is_authorization_id (cl_authorization_id cl) \<and> cl_receipt_id cl = lr_receipt_id row
    \<and> cl_content_sha256 cl = lr_content_sha256 row"
proof -
  have ok: "ledger_ok env db" "journal_ok db" using reachable_ok [OF assms(1)] by (simp_all add: secure_ok_def)
  from assms(3,4) have "RELEASED \<in> set (transition_states db (lr_record_id row))"
    by (auto simp: release_state_of_Inr)
  with ok(2) obtain cl where find: "find_claim db (lr_record_id row) = Some cl"
    unfolding journal_ok_def by blast
  then have cl: "cl \<in> set (db_claims db)" "cl_record_id cl = lr_record_id row"
    by (auto simp: find_claim_def dest: find_SomeD)
  with ok(1) have "verify_claim env db cl = Inr ()" by (simp add: ledger_ok_def claims_ok_def)
  moreover have "find (\<lambda>row'. lr_record_id row' = lr_record_id row) (db_records db) = Some row"
    using ok(1) assms(2) by (intro find_unique) (auto simp: ledger_ok_def records_ok_def)
  ultimately have "is_authorization_id (cl_authorization_id cl) \<and> cl_receipt_id cl = lr_receipt_id row
      \<and> cl_content_sha256 cl = lr_content_sha256 row"
    using cl(2) by (auto simp: verify_claim_def dest: row_to_record_indexes)
  with cl show ?thesis by blast
qed

theorem released_was_claimed_witness:
  "\<exists>cl \<in> set (db_claims sample_released). cl_record_id cl = dr_record_id sample_record_1
     \<and> is_authorization_id (cl_authorization_id cl)"
  using released_was_claimed [of sample_env runtime_ops 10 sample_released "row_of sample_record_1"]
    sample_released_facts by auto

text \<open>An evaluation either leaves the ledger as it was (a denial, a replay, any error) or
  appends exactly one record, pending and unclaimed, whose commitment it returns.\<close>

theorem commit_reserves:
  assumes "reachable env ops t db" and "evaluate_and_commit env db io e sql dialect = (res, db')"
  shows "(db' \<noteq> db \<longrightarrow> (\<exists>d r. res = Inr d \<and> cd_allowed d \<and> cd_rule d \<noteq> IDEMPOTENT_REPLAY
        \<and> cd_commitment d = Some (commitment_of r) \<and> db_records db' = db_records db @ [row_of r]
        \<and> db_claims db' = db_claims db \<and> find_claim db' (dr_record_id r) = None
        \<and> release_state_of db' (dr_record_id r) = Inr PENDING))
    \<and> (\<forall>d. res = Inr d \<and> db' = db \<longrightarrow> cd_allowed d = (cd_rule d = IDEMPOTENT_REPLAY))"
proof -
  note ok = reachable_ok [OF assms(1)]
  show ?thesis
  proof (cases res)
    case (Inl er)
    with assms(2) show ?thesis
      by (auto simp: evaluate_and_commit_def dest: finish_Inl split: sum.splits)
  next
    case (Inr d)
    with assms(2) have "evaluate_and_commit env db io e sql dialect = (Inr d, db')" by simp
    then show ?thesis
      using ok
    proof (cases rule: commit_outcome)
      case (replay b old)
      with Inr show ?thesis by simp
    next
      case denial
      from assms(2) Inr have "evaluate_and_commit env db io e sql dialect = (Inr d, db')" by simp
      then obtain b where "commit_txn env db io b = Inr (d, db')" by (rule evaluate_and_commit_Inr)
      with denial Inr show ?thesis using not_allowed_not_replay by auto
    next
      case (fresh b h r mid)
      note after = commit_after [OF ok fresh(2-4)]
      from after(1) have "db' \<noteq> db" by auto
      with fresh after Inr show ?thesis by auto
    qed
  qed
qed

theorem commit_reserves_witness:
  "\<exists>r. cd_commitment sample_decision = Some (commitment_of r) \<and> db_records sample_pending = [row_of r]
     \<and> release_state_of sample_pending (dr_record_id r) = Inr PENDING"
proof -
  have "sample_pending \<noteq> empty_db" by (simp add: sample_pending_def empty_db_def)
  with commit_reserves [OF reachable.start sample_commit] show ?thesis
    by (auto simp: empty_db_def)
qed

text \<open>C12: the lifecycle of an allowed release. On every reachable ledger, a fresh reservation
  verifies against the same event and query, can be claimed by any unused authorization, the
  claim verifies, the release can be finalised; then it is released for good, no authorization
  can claim it again, and the ledger verifies.\<close>

theorem release_lifecycle:
  assumes "reachable env ops t db" and "evaluate_and_commit env db io e sql dialect = (Inr d, db1)"
    and "cd_commitment d = Some c" and "cd_rule d \<noteq> IDEMPOTENT_REPLAY" and "is_authorization_id a"
    and "\<forall>cl \<in> set (db_claims db). cl_authorization_id cl \<noteq> a"
  shows "\<exists>r db2 db3. verify_commitment env db1 c e sql dialect = Inr r
    \<and> claim_commitment env db1 c a = (Inr (), db2) \<and> verify_authorization_claim env db2 c a = Inr ()
    \<and> mark_released env db2 c = (Inr (), db3) \<and> release_state_query env db3 c = Inr RELEASED
    \<and> (\<forall>a'. fst (claim_commitment env db3 c a') \<noteq> Inr ())
    \<and> verify_all env db3 = Inr (length (db_records db) + 1)"
proof -
  note ok = reachable_ok [OF assms(1)]
  from assms(2) ok assms(3,4) obtain b h r mid where b: "bind_event env e sql dialect = Inr b"
    and h: "records_for_scope env db (ev_scope b) = Inr h"
    and app: "append_event env db io b h = Inr (r, mid)"
    and ins: "insert_transition mid (dr_record_id r) PENDING = Inr db1" and c: "c = commitment_of r"
    by (cases rule: commit_outcome) auto
  note after = commit_after [OF ok h app ins]
  have ok1: "secure_ok env db1"
    using apply_op_ok [OF ok, of io "Commit e sql dialect"] assms(2) by simp
  from after(1) have row: "row_of r \<in> set (db_records db1)" by simp
  obtain rs where rs: "records_for_scope env db1 (ev_scope b) = Inr rs"
      "record_for_commitment env db1 c = Inr r"
      "filter (\<lambda>r'. ev_receipt_id (dr_event r') = ev_receipt_id b) rs = [r]"
  proof -
    obtain r' rs where s: "row_to_record env (row_of r) = Inr r'"
      "records_for_scope env db1 (ev_scope (dr_event r')) = Inr rs"
      "record_for_commitment env db1 (commitment_of r') = Inr r'"
      "filter (\<lambda>x. ev_receipt_id (dr_event x) = ev_receipt_id (dr_event r')) rs = [r']"
      by (rule stored_record [OF ok1 row])
    with after(3) have "r' = r" by simp
    with s after(4) c that show thesis by simp
  qed
  have cid: "cm_record_id c = dr_record_id r" "cm_receipt_id c = ev_receipt_id b"
    using c after(4) by simp_all
  have pending: "release_state_of db1 (cm_record_id c) = Inr PENDING" using after(6) cid by simp
  then have "verify_commitment env db1 c e sql dialect = Inr r"
    using rs after(4) cid c pending_requires [OF rs(2)]
    by (simp add: verify_commitment_def base_verify_commitment_def b list_for_scope_def)
  moreover define db2 where "db2 = db1\<lparr>db_claims := db_claims db1 @
     [\<lparr>cl_record_id = cm_record_id c, cl_authorization_id = a, cl_receipt_id = cm_receipt_id c,
       cl_content_sha256 = cm_content_sha256 c\<rparr>]\<rparr>"
  have claim: "claim_commitment env db1 c a = (Inr (), db2)"
    using claim_commitment_pending [OF rs(2) pending assms(5)] after(2,10) cid assms(6)
    by (simp add: db2_def)
  moreover have rec2: "record_for_commitment env db2 c = Inr r"
    using rs(2) same_records_reads(5) [of db2 db1 env] by (simp add: db2_def)
  moreover have state2: "release_state_of db2 (cm_record_id c) = Inr PENDING"
    using pending same_transitions(2) [of db2 db1] by (simp add: db2_def)
  moreover have found: "find_claim db2 (cm_record_id c) = Some \<lparr>cl_record_id = cm_record_id c,
      cl_authorization_id = a, cl_receipt_id = cm_receipt_id c, cl_content_sha256 = cm_content_sha256 c\<rparr>"
    using after(10) cid by (simp add: db2_def find_claim_def find_append)
  moreover have "verify_authorization_claim env db2 c a = Inr ()"
    using pending_requires [OF rec2] state2 found assms(5) rec2 c
    by (simp add: verify_authorization_claim_def base_verify_authorization_claim_def)
  moreover define db3 where "db3 = db2\<lparr>db_transitions := db_transitions db2 @ [(cm_record_id c, RELEASED)]\<rparr>"
  have released: "mark_released env db2 c = (Inr (), db3)"
    using mark_released_pending [OF rec2 state2] found by (simp add: db3_def)
  moreover have rec3: "record_for_commitment env db3 c = Inr r"
    using rec2 same_records_reads(5) [of db3 db2 env] by (simp add: db3_def)
  moreover have state3: "release_state_of db3 (cm_record_id c) = Inr RELEASED"
    unfolding db3_def by (rule insert_terminal(2) [OF state2 record_for_commitment_row [OF rec2]]) simp
  moreover have "fst (claim_commitment env db3 c a') \<noteq> Inr ()" for a'
    using state3 rec3 by (simp add: claim_commitment_def require_pending_def)
  moreover have "secure_ok env db3"
    using apply_op_ok [OF apply_op_ok [OF ok1, of io "Claim c a"], of io "Release c"] claim released by simp
  then have "verify_all env db3 = Inr (length (db_records db) + 1)"
    using after(1) by (simp add: secure_ok_verifies db3_def db2_def)
  ultimately show ?thesis by (auto simp: release_state_query_def)
qed

theorem release_lifecycle_witness:
  "\<exists>db2 db3. claim_commitment sample_env sample_pending (commitment_of sample_record_1) sample_authorization = (Inr (), db2)
     \<and> mark_released sample_env db2 (commitment_of sample_record_1) = (Inr (), db3)
     \<and> verify_all sample_env db3 = Inr 1"
proof -
  have "cd_commitment sample_decision = Some (commitment_of sample_record_1)"
    "cd_rule sample_decision \<noteq> IDEMPOTENT_REPLAY" by (simp_all add: sample_decision_def)
  moreover have "\<forall>cl \<in> set (db_claims empty_db). cl_authorization_id cl \<noteq> sample_authorization"
    by (simp add: empty_db_def)
  ultimately show ?thesis
    using release_lifecycle [OF reachable.start sample_commit, where a = sample_authorization]
      sample_authorization_id by (fastforce simp: empty_db_def)
qed

text \<open>C13: a failed execution does not consume the budget. Aborting a pending record leaves the
  audit chain of every scope as it was, takes exactly that record out of the history the gate
  counts, and makes its commitment and its receipt unusable.\<close>

theorem abort_frees_budget:
  assumes "reachable env ops t db" and "row \<in> set (db_records db)" and "row_to_record env row = Inr r"
    and "release_state_of db (dr_record_id r) = Inr PENDING"
    and "records_for_scope env db scope = Inr rs"
  shows "\<exists>db' live. mark_aborted env db (commitment_of r) = (Inr (), db')
    \<and> records_for_scope env db' scope = Inr rs \<and> active_history db rs = Inr live
    \<and> active_history db' rs = Inr (filter (\<lambda>x. dr_record_id x \<noteq> dr_record_id r) live)
    \<and> fst (claim_commitment env db' (commitment_of r) a) \<noteq> Inr ()
    \<and> fst (mark_released env db' (commitment_of r)) \<noteq> Inr ()
    \<and> (bind_event env e sql dialect = Inr (dr_event r) \<longrightarrow> evaluate_and_commit env db' io e sql dialect
         = (Inl (DisclosureLedgerConflict ''aborted disclosure receipt cannot be replayed''), db'))"
proof -
  note ok = reachable_ok [OF assms(1)]
  from stored_record [OF ok assms(2)] assms(3) obtain rs0 where
    rs0: "records_for_scope env db (ev_scope (dr_event r)) = Inr rs0" "r \<in> set rs0"
    and rec: "record_for_commitment env db (commitment_of r) = Inr r"
    and ex: "existing_receipt env db (ev_receipt_id (dr_event r)) = Inr (Some r)" by auto
  have state: "release_state_of db (cm_record_id (commitment_of r)) = Inr PENDING" using assms(4) by simp
  define db' where "db' = db\<lparr>db_transitions := db_transitions db @ [(dr_record_id r, ABORTED)]\<rparr>"
  have abort: "mark_aborted env db (commitment_of r) = (Inr (), db')"
    using mark_aborted_pending [OF rec state] by (simp add: db'_def)
  have ok': "journal_ok db'" "journal_ok db"
    using apply_op_ok [OF ok, of undefined "Abort (commitment_of r)"] abort ok by (simp_all add: secure_ok_def)
  have same: "db_records db' = db_records db" by (simp add: db'_def)
  note reads = same_records_reads [OF same]
  have aborted: "release_state_of db' (dr_record_id r) = Inr ABORTED"
    using insert_terminal(2) [OF state record_for_commitment_row [OF rec], of ABORTED] by (simp add: db'_def)
  have others: "release_state_of db' rid = release_state_of db rid" if "rid \<noteq> dr_record_id r" for rid
    using that by (simp add: release_state_of_def transition_states_insert db'_def)
  have "(release_state_of db' (dr_record_id x) \<noteq> Inr ABORTED) =
      (release_state_of db (dr_record_id x) \<noteq> Inr ABORTED \<and> dr_record_id x \<noteq> dr_record_id r)" for x :: disclosure_record
    using aborted others by (cases "dr_record_id x = dr_record_id r") auto
  then have "active_history db' rs = Inr (filter (\<lambda>x. dr_record_id x \<noteq> dr_record_id r)
      (filter (\<lambda>x. release_state_of db (dr_record_id x) \<noteq> Inr ABORTED) rs))"
    by (simp add: active_history_Inr [OF ok'(1)] conj_commute)
  moreover have "active_history db rs = Inr (filter (\<lambda>x. release_state_of db (dr_record_id x) \<noteq> Inr ABORTED) rs)"
    by (rule active_history_Inr [OF ok'(2)])
  moreover have "fst (claim_commitment env db' (commitment_of r) a) \<noteq> Inr ()"
    "fst (mark_released env db' (commitment_of r)) \<noteq> Inr ()"
    using aborted rec by (simp_all add: claim_commitment_def require_pending_def mark_released_def reads)
  moreover have "evaluate_and_commit env db' io e sql dialect
      = (Inl (DisclosureLedgerConflict ''aborted disclosure receipt cannot be replayed''), db')"
    if "bind_event env e sql dialect = Inr (dr_event r)"
    using that rs0 ex aborted assms(3)
    by (simp add: evaluate_and_commit_def commit_txn_def reads active_history_Inr [OF ok'(1)] row_to_record_Inr)
  ultimately show ?thesis using abort assms(5) reads(2) by auto
qed

theorem abort_frees_budget_witness:
  "\<exists>db'. mark_aborted sample_env sample_pending (commitment_of sample_record_1) = (Inr (), db')
     \<and> records_for_scope sample_env db' sample_scope = Inr [sample_record_1]
     \<and> active_history db' [sample_record_1] = Inr []"
proof -
  have "row_of sample_record_1 \<in> set (db_records sample_pending)" by (simp add: sample_pending_facts)
  from abort_frees_budget [OF sample_reachable this sample_pending_facts(1,2,6)]
  obtain db' live where "mark_aborted sample_env sample_pending (commitment_of sample_record_1) = (Inr (), db')"
    "records_for_scope sample_env db' sample_scope = Inr [sample_record_1]"
    "active_history sample_pending [sample_record_1] = Inr live"
    "active_history db' [sample_record_1] = Inr (filter (\<lambda>x. dr_record_id x \<noteq> dr_record_id sample_record_1) live)"
    by blast
  then show ?thesis by (auto simp: sample_pending_facts(2))
qed

text \<open>A retried request is idempotent. Repeating an evaluation that allowed a release, with
  the same event and query and at any time, returns the same commitment and writes nothing.\<close>

theorem commit_retry:
  assumes "reachable env ops t db" and "evaluate_and_commit env db io e sql dialect = (Inr d, db')"
    and "cd_allowed d"
  shows "\<exists>d'. evaluate_and_commit env db' io' e sql dialect = (Inr d', db')
    \<and> cd_rule d' = IDEMPOTENT_REPLAY \<and> cd_commitment d' = cd_commitment d"
proof -
  note ok = reachable_ok [OF assms(1)]
  have ok': "secure_ok env db'"
    using apply_op_ok [OF ok, of io "Commit e sql dialect"] assms(2) by simp
  have "\<exists>b row r. bind_event env e sql dialect = Inr b \<and> row \<in> set (db_records db')
    \<and> row_to_record env row = Inr r \<and> dr_event r = b \<and> cd_commitment d = Some (commitment_of r)
    \<and> (\<exists>st. release_state_of db' (dr_record_id r) = Inr st \<and> st \<noteq> ABORTED)"
    using assms(2) ok
  proof (cases rule: commit_outcome)
    case (replay b old)
    from assms(2) obtain b' where b': "bind_event env e sql dialect = Inr b'"
      "commit_txn env db io b' = Inr (d, db')" by (rule evaluate_and_commit_Inr)
    with replay(1) have "b' = b" by simp
    with b' obtain h act where "records_for_scope env db (ev_scope b) = Inr h"
      "active_history db h = Inr act" unfolding commit_txn_def by auto
    from commit_txn_existing(7) [OF this replay(7)] b' \<open>b' = b\<close> replay(2)
    have "\<exists>st. release_state_of db' (dr_record_id old) = Inr st \<and> st \<noteq> ABORTED" by simp
    with existing_receipt_Some [OF replay(7)] replay show ?thesis by blast
  next
    case denial
    with assms(3) show ?thesis by simp
  next
    case (fresh b h r mid)
    from commit_after [OF ok fresh(2-4)] fresh(1,7) show ?thesis by fastforce
  qed
  then obtain b row r st where b: "bind_event env e sql dialect = Inr b" and row: "row \<in> set (db_records db')"
    and r: "row_to_record env row = Inr r" and ev: "dr_event r = b"
    and cm: "cd_commitment d = Some (commitment_of r)"
    and st: "release_state_of db' (dr_record_id r) = Inr st" "st \<noteq> ABORTED" by blast
  from stored_record [OF ok' row] r ev obtain rs where
    "records_for_scope env db' (ev_scope b) = Inr rs" "r \<in> set rs"
    "existing_receipt env db' (ev_receipt_id b) = Inr (Some r)" by auto
  moreover have "validate_event_composition b = Inr ()" using r ev by (auto simp: row_to_record_Inr)
  moreover have "journal_ok db'" using ok' by (simp add: secure_ok_def)
  ultimately show ?thesis
    using b ev st cm
    by (simp add: evaluate_and_commit_def commit_txn_def active_history_Inr replayed_def
        validate_composition_decision_def)
qed

theorem commit_retry_witness:
  "\<exists>d'. evaluate_and_commit sample_env sample_pending sample_io (sample_event None) ''q'' ''duckdb'' = (Inr d', sample_pending)
    \<and> cd_rule d' = IDEMPOTENT_REPLAY \<and> cd_commitment d' = Some (commitment_of sample_record_1)"
  using commit_retry [OF reachable.start sample_commit, where io' = sample_io]
  by (simp add: sample_decision_def)

end
