(* ===== verification/Repair_Models.thy ===== *)
theory Repair_Models
  imports Ppmc_Models
begin

text \<open>
  The finite remediation models of the repair compiler, \<open>src/toxicjoin/repair/models.py\<close>:
  remediation actions with their frozen costs, the committed space, candidates of one or two
  actions, the commitment to the validation chain of a candidate, and the result of a selection.
  Each \<open>*_checks\<close> function lists the guards of a model in the order they run.
\<close>

datatype remediation_operator =
    REMOVE_STABLE_IDENTIFIER
  | REMOVE_SENSITIVE_PROJECTION
  | REMOVE_PROJECTION
  | COARSEN_QI
  | AGGREGATE_SENSITIVE
  | ADD_MINIMUM_GROUP_THRESHOLD
  | INCREASE_MINIMUM_GROUP_THRESHOLD

fun operator_value :: "remediation_operator \<Rightarrow> string" where
  "operator_value REMOVE_STABLE_IDENTIFIER = ''REMOVE_STABLE_IDENTIFIER''"
| "operator_value REMOVE_SENSITIVE_PROJECTION = ''REMOVE_SENSITIVE_PROJECTION''"
| "operator_value REMOVE_PROJECTION = ''REMOVE_PROJECTION''"
| "operator_value COARSEN_QI = ''COARSEN_QI''"
| "operator_value AGGREGATE_SENSITIVE = ''AGGREGATE_SENSITIVE''"
| "operator_value ADD_MINIMUM_GROUP_THRESHOLD = ''ADD_MINIMUM_GROUP_THRESHOLD''"
| "operator_value INCREASE_MINIMUM_GROUP_THRESHOLD = ''INCREASE_MINIMUM_GROUP_THRESHOLD''"

datatype qi_transformation = DATE_TO_MONTH | DATE_TO_YEAR

fun transformation_value :: "qi_transformation \<Rightarrow> string" where
  "transformation_value DATE_TO_MONTH = ''DATE_TO_MONTH''"
| "transformation_value DATE_TO_YEAR = ''DATE_TO_YEAR''"

datatype sensitive_aggregate = COUNT | COUNT_DISTINCT

fun aggregate_value :: "sensitive_aggregate \<Rightarrow> string" where
  "aggregate_value COUNT = ''COUNT''"
| "aggregate_value COUNT_DISTINCT = ''COUNT_DISTINCT''"

datatype validation_stage =
    ST_GENERATE
  | ST_REPARSE
  | ST_REGROUND
  | ST_REBUILD_EVIDENCE
  | ST_LOCAL_POLICY
  | ST_REBUILD_DISCLOSURE_STATE
  | ST_PPMC

fun stage_value :: "validation_stage \<Rightarrow> string" where
  "stage_value ST_GENERATE = ''GENERATE''"
| "stage_value ST_REPARSE = ''REPARSE''"
| "stage_value ST_REGROUND = ''REGROUND''"
| "stage_value ST_REBUILD_EVIDENCE = ''REBUILD_EVIDENCE''"
| "stage_value ST_LOCAL_POLICY = ''LOCAL_POLICY''"
| "stage_value ST_REBUILD_DISCLOSURE_STATE = ''REBUILD_DISCLOSURE_STATE''"
| "stage_value ST_PPMC = ''PPMC''"

text \<open>The position of a stage in \<open>_VALIDATION_STAGE_ORDER\<close>.\<close>

fun stage_index :: "validation_stage \<Rightarrow> nat" where
  "stage_index ST_GENERATE = 0"
| "stage_index ST_REPARSE = 1"
| "stage_index ST_REGROUND = 2"
| "stage_index ST_REBUILD_EVIDENCE = 3"
| "stage_index ST_LOCAL_POLICY = 4"
| "stage_index ST_REBUILD_DISCLOSURE_STATE = 5"
| "stage_index ST_PPMC = 6"

datatype validation_outcome = ELIGIBLE_SAFE | INELIGIBLE | VALIDATION_FAIL_CLOSED

fun outcome_value :: "validation_outcome \<Rightarrow> string" where
  "outcome_value ELIGIBLE_SAFE = ''ELIGIBLE_SAFE''"
| "outcome_value INELIGIBLE = ''INELIGIBLE''"
| "outcome_value VALIDATION_FAIL_CLOSED = ''FAIL_CLOSED''"

datatype cpcc_status = REPAIR_FOUND | NO_ELIGIBLE_REPAIR | CPCC_FAIL_CLOSED

fun cpcc_status_value :: "cpcc_status \<Rightarrow> string" where
  "cpcc_status_value REPAIR_FOUND = ''REPAIR_FOUND''"
| "cpcc_status_value NO_ELIGIBLE_REPAIR = ''NO_ELIGIBLE_REPAIR''"
| "cpcc_status_value CPCC_FAIL_CLOSED = ''FAIL_CLOSED''"

section \<open>Costs and actions\<close>

record remediation_cost =
  ro_goal_loss :: int
  ro_information_loss :: int
  ro_structural_change :: int

definition cost_checks :: "remediation_cost \<Rightarrow> (bool \<times> error) list" where
  "cost_checks c =
     [(\<not> (0 \<le> ro_goal_loss c \<and> ro_goal_loss c \<le> 100), ValidationError ''goal_loss range''),
      (\<not> (0 \<le> ro_information_loss c \<and> ro_information_loss c \<le> 100), ValidationError ''information_loss range''),
      (\<not> (0 \<le> ro_structural_change c \<and> ro_structural_change c \<le> 100), ValidationError ''structural_change range'')]"

definition validate_cost :: "remediation_cost \<Rightarrow> remediation_cost result" where
  "validate_cost c = raise_first (cost_checks c) c"

definition cost_key :: "remediation_cost \<Rightarrow> int \<times> int \<times> int" where
  "cost_key c = (ro_goal_loss c, ro_information_loss c, ro_structural_change c)"

definition cost_json :: "remediation_cost \<Rightarrow> json" where
  "cost_json c = JObj [(''goal_loss'', JInt (ro_goal_loss c)), (''information_loss'', JInt (ro_information_loss c)),
     (''structural_change'', JInt (ro_structural_change c))]"

fun operator_cost :: "remediation_operator \<Rightarrow> int \<times> int \<times> int" where
  "operator_cost ADD_MINIMUM_GROUP_THRESHOLD = (0, 1, 1)"
| "operator_cost INCREASE_MINIMUM_GROUP_THRESHOLD = (0, 1, 1)"
| "operator_cost COARSEN_QI = (1, 2, 1)"
| "operator_cost AGGREGATE_SENSITIVE = (2, 3, 2)"
| "operator_cost REMOVE_STABLE_IDENTIFIER = (3, 4, 1)"
| "operator_cost REMOVE_PROJECTION = (4, 4, 1)"
| "operator_cost REMOVE_SENSITIVE_PROJECTION = (5, 5, 1)"

definition remediation_operator_cost :: "remediation_operator \<Rightarrow> remediation_cost" where
  "remediation_operator_cost op = (case operator_cost op of (goal, information, structural) \<Rightarrow>
     \<lparr>ro_goal_loss = goal, ro_information_loss = information, ro_structural_change = structural\<rparr>)"

record remediation_action =
  rm_operator :: remediation_operator
  rm_field_key :: "string option"
  rm_qi_transformation :: "qi_transformation option"
  rm_aggregate_operator :: "sensitive_aggregate option"
  rm_minimum_group_size :: "int option"
  rm_cost :: remediation_cost
  rm_action_sha256 :: string

definition remediation_fields_json :: "remediation_action \<Rightarrow> (string \<times> json) list" where
  "remediation_fields_json a =
     [(''schema_version'', JStr ''1.0''), (''model_version'', JStr ''0.1.0''),
      (''operator'', JStr (operator_value (rm_operator a))), (''field_key'', jopt JStr (rm_field_key a)),
      (''qi_transformation'', jopt (\<lambda>t. JStr (transformation_value t)) (rm_qi_transformation a)),
      (''aggregate_operator'', jopt (\<lambda>g. JStr (aggregate_value g)) (rm_aggregate_operator a)),
      (''minimum_group_size'', jopt JInt (rm_minimum_group_size a)), (''cost'', cost_json (rm_cost a))]"

definition compute_remediation_action_sha256 :: "(string \<Rightarrow> string) \<Rightarrow> remediation_action \<Rightarrow> string" where
  "compute_remediation_action_sha256 H a = canonical_json_sha256 H (JObj (remediation_fields_json a))"

definition remediation_json :: "remediation_action \<Rightarrow> json" where
  "remediation_json a = JObj (remediation_fields_json a @ [(''action_sha256'', JStr (rm_action_sha256 a))])"

definition field_operators :: "remediation_operator list" where
  "field_operators = [REMOVE_PROJECTION, COARSEN_QI, AGGREGATE_SENSITIVE]"

definition threshold_operators :: "remediation_operator list" where
  "threshold_operators = [ADD_MINIMUM_GROUP_THRESHOLD, INCREASE_MINIMUM_GROUP_THRESHOLD]"

definition remediation_checks :: "(string \<Rightarrow> string) \<Rightarrow> remediation_action \<Rightarrow> (bool \<times> error) list" where
  "remediation_checks H a =
     [(\<not> opt_all (len_between 1 4096) (rm_field_key a), ValidationError ''field_key length''),
      (\<not> opt_all (\<lambda>n. 2 \<le> n \<and> n \<le> 1000000) (rm_minimum_group_size a), ValidationError ''minimum_group_size range'')]
     @ cost_checks (rm_cost a) @
     [(\<not> is_sha256 (rm_action_sha256 a), ValidationError ''action_sha256 pattern''),
      ((rm_operator a \<in> set field_operators) \<noteq> (rm_field_key a \<noteq> None),
         ValidationError ''CPCC remediation field binding does not match operator''),
      (rm_operator a = COARSEN_QI \<and> rm_qi_transformation a = None,
         ValidationError ''COARSEN_QI requires a trusted transformation''),
      (rm_operator a \<noteq> COARSEN_QI \<and> rm_qi_transformation a \<noteq> None,
         ValidationError ''only COARSEN_QI may carry qi_transformation''),
      (rm_operator a = AGGREGATE_SENSITIVE \<and> rm_aggregate_operator a = None,
         ValidationError ''AGGREGATE_SENSITIVE requires a trusted aggregate''),
      (rm_operator a \<noteq> AGGREGATE_SENSITIVE \<and> rm_aggregate_operator a \<noteq> None,
         ValidationError ''only AGGREGATE_SENSITIVE may carry aggregate_operator''),
      ((rm_operator a \<in> set threshold_operators) \<noteq> (rm_minimum_group_size a \<noteq> None),
         ValidationError ''CPCC threshold binding does not match operator''),
      (rm_cost a \<noteq> remediation_operator_cost (rm_operator a),
         ValidationError ''CPCC remediation cost does not match frozen operator cost''),
      (rm_action_sha256 a \<noteq> compute_remediation_action_sha256 H a,
         ValidationError ''CPCC remediation action hash mismatch'')]"

definition validate_remediation :: "(string \<Rightarrow> string) \<Rightarrow> remediation_action \<Rightarrow> remediation_action result" where
  "validate_remediation H a = raise_first (remediation_checks H a) a"

section \<open>The committed space and its candidates\<close>

record remediation_space =
  sp_actions :: "remediation_action list"
  sp_space_sha256 :: string

definition compute_remediation_space_sha256 :: "(string \<Rightarrow> string) \<Rightarrow> remediation_space \<Rightarrow> string" where
  "compute_remediation_space_sha256 H s = canonical_json_sha256 H (JObj
     [(''schema_version'', JStr ''1.0''), (''model_version'', JStr ''0.1.0''),
      (''actions'', JArr (map remediation_json (sp_actions s))), (''max_actions_per_candidate'', JInt 2)])"

definition space_checks :: "(string \<Rightarrow> string) \<Rightarrow> remediation_space \<Rightarrow> (bool \<times> error) list" where
  "space_checks H s = concat (map (remediation_checks H) (sp_actions s)) @
     (let n = length (sp_actions s) in
     [(\<not> len_between 1 32 (sp_actions s), ValidationError ''actions length''),
      (\<not> is_sha256 (sp_space_sha256 s), ValidationError ''space_sha256 pattern''),
      (\<not> canonical (map rm_action_sha256 (sp_actions s)),
         ValidationError ''CPCC remediation actions must be sorted and unique''),
      (n + n * (n - 1) div 2 > 528, ValidationError ''CPCC remediation-space candidate budget exceeded''),
      (sp_space_sha256 s \<noteq> compute_remediation_space_sha256 H s,
         ValidationError ''CPCC remediation-space hash mismatch'')])"

definition validate_space :: "(string \<Rightarrow> string) \<Rightarrow> remediation_space \<Rightarrow> remediation_space result" where
  "validate_space H s = raise_first (space_checks H s) s"

record cpcc_candidate =
  cn_remediation_space_sha256 :: string
  cn_actions :: "remediation_action list"
  cn_cost :: remediation_cost
  cn_candidate_sha256 :: string

definition candidate_fields_json :: "cpcc_candidate \<Rightarrow> (string \<times> json) list" where
  "candidate_fields_json c =
     [(''schema_version'', JStr ''1.0''), (''model_version'', JStr ''0.1.0''),
      (''remediation_space_sha256'', JStr (cn_remediation_space_sha256 c)),
      (''actions'', JArr (map remediation_json (cn_actions c))), (''cost'', cost_json (cn_cost c))]"

definition compute_cpcc_candidate_sha256 :: "(string \<Rightarrow> string) \<Rightarrow> cpcc_candidate \<Rightarrow> string" where
  "compute_cpcc_candidate_sha256 H c = canonical_json_sha256 H (JObj (candidate_fields_json c))"

definition candidate_json :: "cpcc_candidate \<Rightarrow> json" where
  "candidate_json c = JObj (candidate_fields_json c @ [(''candidate_sha256'', JStr (cn_candidate_sha256 c))])"

definition total_cost :: "remediation_action list \<Rightarrow> remediation_cost" where
  "total_cost actions = \<lparr>ro_goal_loss = sum_list (map (\<lambda>a. ro_goal_loss (rm_cost a)) actions),
     ro_information_loss = sum_list (map (\<lambda>a. ro_information_loss (rm_cost a)) actions),
     ro_structural_change = sum_list (map (\<lambda>a. ro_structural_change (rm_cost a)) actions)\<rparr>"

definition candidate_checks :: "(string \<Rightarrow> string) \<Rightarrow> cpcc_candidate \<Rightarrow> (bool \<times> error) list" where
  "candidate_checks H c = concat (map (remediation_checks H) (cn_actions c)) @ cost_checks (cn_cost c) @
     [(\<not> is_sha256 (cn_remediation_space_sha256 c), ValidationError ''remediation_space_sha256 pattern''),
      (\<not> len_between 1 2 (cn_actions c), ValidationError ''actions length''),
      (\<not> is_sha256 (cn_candidate_sha256 c), ValidationError ''candidate_sha256 pattern''),
      (\<not> canonical (map rm_action_sha256 (cn_actions c)),
         ValidationError ''CPCC candidate actions must be sorted and unique'')]
     @ cost_checks (total_cost (cn_actions c)) @
     [(cn_cost c \<noteq> total_cost (cn_actions c), ValidationError ''CPCC candidate cost does not match action costs''),
      (cn_candidate_sha256 c \<noteq> compute_cpcc_candidate_sha256 H c, ValidationError ''CPCC candidate hash mismatch'')]"

definition validate_candidate :: "(string \<Rightarrow> string) \<Rightarrow> cpcc_candidate \<Rightarrow> cpcc_candidate result" where
  "validate_candidate H c = raise_first (candidate_checks H c) c"

definition candidate_key :: "cpcc_candidate \<Rightarrow> (int \<times> int \<times> int) \<times> string" where
  "candidate_key c = (cost_key (cn_cost c), cn_candidate_sha256 c)"

section \<open>Commitments to a validation chain\<close>

record candidate_validation =
  vd_candidate_sha256 :: string
  vd_outcome :: validation_outcome
  vd_failure_stage :: "validation_stage option"
  vd_generated_sql_sha256 :: "string option"
  vd_reparsed_plan_sha256 :: "string option"
  vd_reground_governance_sha256 :: "string option"
  vd_evidence_root_sha256 :: "string option"
  vd_local_policy_decision_sha256 :: "string option"
  vd_local_policy_allowed :: bool
  vd_disclosure_state_sha256 :: "string option"
  vd_ppmc_result_sha256 :: "string option"
  vd_ppmc_status :: "ppmc_status option"
  vd_validation_sha256 :: string

definition compute_cpcc_candidate_validation_sha256 :: "(string \<Rightarrow> string) \<Rightarrow> candidate_validation \<Rightarrow> string" where
  "compute_cpcc_candidate_validation_sha256 H v = canonical_json_sha256 H (JObj
     [(''schema_version'', JStr ''1.0''), (''model_version'', JStr ''0.1.0''),
      (''candidate_sha256'', JStr (vd_candidate_sha256 v)), (''outcome'', JStr (outcome_value (vd_outcome v))),
      (''failure_stage'', jopt (\<lambda>s. JStr (stage_value s)) (vd_failure_stage v)),
      (''generated_sql_sha256'', jopt JStr (vd_generated_sql_sha256 v)),
      (''reparsed_plan_sha256'', jopt JStr (vd_reparsed_plan_sha256 v)),
      (''reground_governance_sha256'', jopt JStr (vd_reground_governance_sha256 v)),
      (''evidence_root_sha256'', jopt JStr (vd_evidence_root_sha256 v)),
      (''local_policy_decision_sha256'', jopt JStr (vd_local_policy_decision_sha256 v)),
      (''local_policy_allowed'', JBool (vd_local_policy_allowed v)),
      (''disclosure_state_sha256'', jopt JStr (vd_disclosure_state_sha256 v)),
      (''ppmc_result_sha256'', jopt JStr (vd_ppmc_result_sha256 v)),
      (''ppmc_status'', jopt (\<lambda>s. JStr (ppmc_status_value s)) (vd_ppmc_status v))])"

text \<open>The commitments of the first six stages; a stage requires those before it.\<close>

definition chain_commitments :: "candidate_validation \<Rightarrow> string option list" where
  "chain_commitments v = [vd_generated_sql_sha256 v, vd_reparsed_plan_sha256 v, vd_reground_governance_sha256 v,
     vd_evidence_root_sha256 v, vd_local_policy_decision_sha256 v, vd_disclosure_state_sha256 v]"

definition failure_prefix_checks :: "candidate_validation \<Rightarrow> validation_stage \<Rightarrow> (bool \<times> error) list" where
  "failure_prefix_checks v stage =
     [(None \<in> set (take (stage_index stage) (chain_commitments v)),
         ValidationError ''CPCC failed candidate is missing a prior-stage commitment''),
      (stage_index stage < stage_index ST_LOCAL_POLICY
         \<and> (vd_local_policy_decision_sha256 v \<noteq> None \<or> vd_local_policy_allowed v),
         ValidationError ''CPCC failure carries a premature local-policy artifact''),
      (stage_index stage < stage_index ST_REBUILD_DISCLOSURE_STATE \<and> vd_disclosure_state_sha256 v \<noteq> None,
         ValidationError ''CPCC failure carries a premature disclosure-state artifact''),
      (stage_index stage < stage_index ST_PPMC \<and> vd_ppmc_result_sha256 v \<noteq> None,
         ValidationError ''CPCC failure carries a premature PPMC artifact'')]"

fun deterministic_rejection_checks :: "candidate_validation \<Rightarrow> validation_stage \<Rightarrow> (bool \<times> error) list" where
  "deterministic_rejection_checks v ST_LOCAL_POLICY =
     [(vd_local_policy_decision_sha256 v = None \<or> vd_local_policy_allowed v,
         ValidationError ''local-policy ineligible candidate requires a committed non-ALLOW decision'')]"
| "deterministic_rejection_checks v ST_REBUILD_DISCLOSURE_STATE =
     [(\<not> vd_local_policy_allowed v,
         ValidationError ''state-build ineligible candidate requires prior local PolicyEngine ALLOW'')]"
| "deterministic_rejection_checks v ST_PPMC =
     [(\<not> vd_local_policy_allowed v, ValidationError ''PPMC-ineligible CPCC candidate requires prior local ALLOW''),
      (vd_ppmc_result_sha256 v = None, ValidationError ''PPMC-ineligible candidate requires a PPMC commitment''),
      (vd_ppmc_status v \<noteq> Some PROSPECTIVE_UNSAFE,
         ValidationError ''PPMC-ineligible candidate requires PROSPECTIVE_UNSAFE'')]"
| "deterministic_rejection_checks v _ =
     [(vd_local_policy_allowed v, ValidationError ''early ineligible candidate cannot carry local ALLOW'')]"

definition fail_closed_rejection_checks :: "candidate_validation \<Rightarrow> validation_stage \<Rightarrow> (bool \<times> error) list" where
  "fail_closed_rejection_checks v stage =
     [(stage_index ST_REBUILD_DISCLOSURE_STATE \<le> stage_index stage \<and> \<not> vd_local_policy_allowed v,
         ValidationError ''late fail-closed candidate requires prior local PolicyEngine ALLOW''),
      (stage = ST_PPMC \<and> vd_ppmc_status v \<notin> {None, Some FAIL_CLOSED},
         ValidationError ''fail-closed PPMC candidate cannot carry a safe/unsafe status''),
      (stage \<noteq> ST_PPMC \<and> vd_ppmc_status v \<noteq> None,
         ValidationError ''pre-PPMC fail-closed candidate cannot carry PPMC status'')]"

definition eligible_checks :: "candidate_validation \<Rightarrow> (bool \<times> error) list" where
  "eligible_checks v =
     [(vd_failure_stage v \<noteq> None \<or> None \<in> set (chain_commitments v) \<or> vd_ppmc_result_sha256 v = None
         \<or> vd_ppmc_status v = None, ValidationError ''eligible CPCC candidate requires the complete validation chain''),
      (\<not> vd_local_policy_allowed v, ValidationError ''eligible CPCC candidate requires local PolicyEngine ALLOW''),
      (vd_ppmc_status v \<noteq> Some NO_COUNTEREXAMPLE_WITHIN_BOUND,
         ValidationError ''eligible CPCC candidate requires bounded PPMC no-counterexample result'')]"

definition rejected_checks :: "candidate_validation \<Rightarrow> (bool \<times> error) list" where
  "rejected_checks v =
     [((vd_ppmc_result_sha256 v = None) \<noteq> (vd_ppmc_status v = None),
         ValidationError ''CPCC PPMC result hash/status must be present together''),
      (vd_local_policy_allowed v \<and> vd_local_policy_decision_sha256 v = None,
         ValidationError ''CPCC local ALLOW requires a local policy decision commitment'')]
     @ (case vd_failure_stage v of
          None \<Rightarrow> [(True, ValidationError ''failed CPCC candidate validation requires a failure stage'')]
        | Some stage \<Rightarrow> failure_prefix_checks v stage
            @ (if vd_outcome v = INELIGIBLE then deterministic_rejection_checks v stage
               else fail_closed_rejection_checks v stage))"

definition validation_checks :: "(string \<Rightarrow> string) \<Rightarrow> candidate_validation \<Rightarrow> (bool \<times> error) list" where
  "validation_checks H v =
     [(\<not> is_sha256 (vd_candidate_sha256 v), ValidationError ''candidate_sha256 pattern''),
      (\<not> list_all (opt_all is_sha256) (chain_commitments v @ [vd_ppmc_result_sha256 v]),
         ValidationError ''chain commitment pattern''),
      (\<not> is_sha256 (vd_validation_sha256 v), ValidationError ''validation_sha256 pattern'')]
     @ (if vd_outcome v = ELIGIBLE_SAFE then eligible_checks v else rejected_checks v)
     @ [(vd_validation_sha256 v \<noteq> compute_cpcc_candidate_validation_sha256 H v,
          ValidationError ''CPCC candidate-validation hash mismatch'')]"

definition validate_validation :: "(string \<Rightarrow> string) \<Rightarrow> candidate_validation \<Rightarrow> candidate_validation result" where
  "validate_validation H v = raise_first (validation_checks H v) v"

section \<open>Results\<close>

record cpcc_result =
  cq_status :: cpcc_status
  cq_remediation_space_sha256 :: string
  cq_candidates_considered :: int
  cq_validation_sha256s :: "string list"
  cq_eligible_candidate_sha256s :: "string list"
  cq_selected_candidate :: "cpcc_candidate option"
  cq_failed_candidate_sha256 :: "string option"
  cq_result_sha256 :: string

definition compute_cpcc_result_sha256 :: "(string \<Rightarrow> string) \<Rightarrow> cpcc_result \<Rightarrow> string" where
  "compute_cpcc_result_sha256 H r = canonical_json_sha256 H (JObj
     [(''schema_version'', JStr ''1.0''), (''model_version'', JStr ''0.1.0''),
      (''status'', JStr (cpcc_status_value (cq_status r))),
      (''remediation_space_sha256'', JStr (cq_remediation_space_sha256 r)),
      (''candidates_considered'', JInt (cq_candidates_considered r)),
      (''validation_sha256s'', jstrs (cq_validation_sha256s r)),
      (''eligible_candidate_sha256s'', jstrs (cq_eligible_candidate_sha256s r)),
      (''selected_candidate'', jopt candidate_json (cq_selected_candidate r)),
      (''failed_candidate_sha256'', jopt JStr (cq_failed_candidate_sha256 r))])"

fun status_checks :: "cpcc_status \<Rightarrow> cpcc_result \<Rightarrow> (bool \<times> error) list" where
  "status_checks REPAIR_FOUND r =
     [(cq_selected_candidate r = None \<or> cq_failed_candidate_sha256 r \<noteq> None,
         ValidationError ''CPCC repair result requires one selected candidate''),
      (\<not> opt_all (\<lambda>c. cn_remediation_space_sha256 c = cq_remediation_space_sha256 r) (cq_selected_candidate r),
         ValidationError ''CPCC selected candidate belongs to another space''),
      (\<not> opt_all (\<lambda>c. cn_candidate_sha256 c \<in> set (cq_eligible_candidate_sha256s r)) (cq_selected_candidate r),
         ValidationError ''CPCC selected candidate is not eligible'')]"
| "status_checks NO_ELIGIBLE_REPAIR r =
     [(cq_selected_candidate r \<noteq> None \<or> cq_failed_candidate_sha256 r \<noteq> None,
         ValidationError ''no-repair CPCC result cannot contain selected/failed candidate''),
      (cq_eligible_candidate_sha256s r \<noteq> [],
         ValidationError ''no-repair CPCC result cannot contain eligible candidates'')]"
| "status_checks CPCC_FAIL_CLOSED r =
     [(cq_selected_candidate r \<noteq> None \<or> cq_failed_candidate_sha256 r = None,
         ValidationError ''fail-closed CPCC result requires failed candidate only'')]"

definition cpcc_result_checks :: "(string \<Rightarrow> string) \<Rightarrow> cpcc_result \<Rightarrow> (bool \<times> error) list" where
  "cpcc_result_checks H r = (case cq_selected_candidate r of None \<Rightarrow> [] | Some c \<Rightarrow> candidate_checks H c) @
     [(\<not> is_sha256 (cq_remediation_space_sha256 r), ValidationError ''remediation_space_sha256 pattern''),
      (\<not> (0 \<le> cq_candidates_considered r \<and> cq_candidates_considered r \<le> 528),
         ValidationError ''candidates_considered range''),
      (\<not> (len_between 0 528 (cq_validation_sha256s r) \<and> list_all is_sha256 (cq_validation_sha256s r)),
         ValidationError ''validation_sha256s''),
      (\<not> (len_between 0 528 (cq_eligible_candidate_sha256s r) \<and> list_all is_sha256 (cq_eligible_candidate_sha256s r)),
         ValidationError ''eligible_candidate_sha256s''),
      (\<not> opt_all is_sha256 (cq_failed_candidate_sha256 r), ValidationError ''failed_candidate_sha256 pattern''),
      (\<not> is_sha256 (cq_result_sha256 r), ValidationError ''result_sha256 pattern''),
      (int (length (cq_validation_sha256s r)) \<noteq> cq_candidates_considered r,
         ValidationError ''CPCC validation count does not match considered candidates''),
      (\<not> canonical (cq_eligible_candidate_sha256s r),
         ValidationError ''CPCC eligible candidate hashes must be sorted and unique'')]
     @ status_checks (cq_status r) r
     @ [(cq_result_sha256 r \<noteq> compute_cpcc_result_sha256 H r, ValidationError ''CPCC result hash mismatch'')]"

definition validate_cpcc_result :: "(string \<Rightarrow> string) \<Rightarrow> cpcc_result \<Rightarrow> cpcc_result result" where
  "validate_cpcc_result H r = raise_first (cpcc_result_checks H r) r"

end
