(* ===== verification/Cpcc.thy ===== *)
theory Cpcc
  imports Repair_Models
begin

text \<open>
  The exhaustive core of the repair compiler, \<open>src/toxicjoin/repair/cpcc.py\<close>: the builders of
  actions, spaces, candidates, validations and results, the enumeration of all single actions and
  pairs in the order of their cost, and the run that validates every candidate before it selects
  the cheapest eligible one. The validator of a candidate is a parameter that may raise.
\<close>

section \<open>Builders\<close>

definition build_remediation_action ::
    "(string \<Rightarrow> string) \<Rightarrow> remediation_operator \<Rightarrow> string option \<Rightarrow> qi_transformation option
      \<Rightarrow> sensitive_aggregate option \<Rightarrow> int option \<Rightarrow> remediation_action result" where
  "build_remediation_action H op field_key transformation aggregate minimum =
     (let provisional = \<lparr>rm_operator = op, rm_field_key = field_key, rm_qi_transformation = transformation,
            rm_aggregate_operator = aggregate, rm_minimum_group_size = minimum,
            rm_cost = remediation_operator_cost op, rm_action_sha256 = zero_sha256\<rparr>
      in validate_remediation H (provisional\<lparr>rm_action_sha256 := compute_remediation_action_sha256 H provisional\<rparr>))"

definition build_remediation_space ::
    "(string \<Rightarrow> string) \<Rightarrow> remediation_action list \<Rightarrow> remediation_space result" where
  "build_remediation_space H actions =
     (let provisional = \<lparr>sp_actions = sort_key rm_action_sha256 actions, sp_space_sha256 = zero_sha256\<rparr>
      in validate_space H (provisional\<lparr>sp_space_sha256 := compute_remediation_space_sha256 H provisional\<rparr>))"

definition build_candidate ::
    "(string \<Rightarrow> string) \<Rightarrow> string \<Rightarrow> remediation_action list \<Rightarrow> cpcc_candidate result" where
  "build_candidate H space_sha actions =
     (let ordered = sort_key rm_action_sha256 actions in
      bindr (validate_cost (total_cost ordered)) (\<lambda>cost.
        let provisional = \<lparr>cn_remediation_space_sha256 = space_sha, cn_actions = ordered, cn_cost = cost,
              cn_candidate_sha256 = zero_sha256\<rparr>
        in validate_candidate H (provisional\<lparr>cn_candidate_sha256 := compute_cpcc_candidate_sha256 H provisional\<rparr>)))"

definition build_cpcc_candidate_validation ::
    "(string \<Rightarrow> string) \<Rightarrow> candidate_validation \<Rightarrow> candidate_validation result" where
  "build_cpcc_candidate_validation H payload =
     validate_validation H (payload\<lparr>vd_validation_sha256 := compute_cpcc_candidate_validation_sha256 H payload\<rparr>)"

section \<open>Enumeration\<close>

text \<open>\<open>itertools.combinations(xs, 2)\<close>.\<close>

fun pairs_of :: "'a list \<Rightarrow> 'a list list" where
  "pairs_of [] = []"
| "pairs_of (x # xs) = map (\<lambda>y. [x, y]) xs @ pairs_of xs"

definition action_groups :: "'a list \<Rightarrow> 'a list list" where
  "action_groups actions = map (\<lambda>a. [a]) actions @ pairs_of actions"

definition enumerate_cpcc_candidates ::
    "(string \<Rightarrow> string) \<Rightarrow> remediation_space \<Rightarrow> cpcc_candidate list result" where
  "enumerate_cpcc_candidates H space =
     bindr (validate_space H space) (\<lambda>validated.
     bindr (mapr (build_candidate H (sp_space_sha256 validated)) (action_groups (sp_actions validated))) (\<lambda>candidates.
       Inr (sort_key candidate_key candidates)))"

section \<open>The run\<close>

definition build_cpcc_result ::
    "(string \<Rightarrow> string) \<Rightarrow> cpcc_status \<Rightarrow> remediation_space \<Rightarrow> candidate_validation list \<Rightarrow> cpcc_candidate list
      \<Rightarrow> cpcc_candidate option \<Rightarrow> string option \<Rightarrow> cpcc_result result" where
  "build_cpcc_result H status space validations eligible selected failed =
     (let provisional = \<lparr>cq_status = status, cq_remediation_space_sha256 = sp_space_sha256 space,
            cq_candidates_considered = int (length validations),
            cq_validation_sha256s = map vd_validation_sha256 validations,
            cq_eligible_candidate_sha256s = sort (map cn_candidate_sha256 eligible),
            cq_selected_candidate = selected, cq_failed_candidate_sha256 = failed, cq_result_sha256 = zero_sha256\<rparr>
      in validate_cpcc_result H (provisional\<lparr>cq_result_sha256 := compute_cpcc_result_sha256 H provisional\<rparr>))"

definition revalidate_validation ::
    "(string \<Rightarrow> string) \<Rightarrow> (cpcc_candidate \<Rightarrow> candidate_validation result) \<Rightarrow> cpcc_candidate \<Rightarrow> candidate_validation result" where
  "revalidate_validation H validator candidate = bindr (validator candidate) (validate_validation H)"

definition cheapest :: "cpcc_candidate list \<Rightarrow> cpcc_candidate option" where
  "cheapest eligible = (if eligible = [] then None else Some (arg_min_list candidate_key eligible))"

fun validate_candidates ::
    "(string \<Rightarrow> string) \<Rightarrow> remediation_space \<Rightarrow> (cpcc_candidate \<Rightarrow> candidate_validation result) \<Rightarrow> cpcc_candidate list
      \<Rightarrow> candidate_validation list \<Rightarrow> cpcc_candidate list \<Rightarrow> cpcc_result result" where
  "validate_candidates H space validator [] validations eligible =
     (let selected = cheapest eligible in
      build_cpcc_result H (if selected \<noteq> None then REPAIR_FOUND else NO_ELIGIBLE_REPAIR) space validations eligible selected None)"
| "validate_candidates H space validator (candidate # candidates) validations eligible =
     (case revalidate_validation H validator candidate of
        Inl _ \<Rightarrow> build_cpcc_result H CPCC_FAIL_CLOSED space validations eligible None (Some (cn_candidate_sha256 candidate))
      | Inr validation \<Rightarrow>
          (if vd_candidate_sha256 validation \<noteq> cn_candidate_sha256 candidate
           then build_cpcc_result H CPCC_FAIL_CLOSED space validations eligible None (Some (cn_candidate_sha256 candidate))
           else if vd_outcome validation = VALIDATION_FAIL_CLOSED
           then build_cpcc_result H CPCC_FAIL_CLOSED space (validations @ [validation]) eligible None
                  (Some (cn_candidate_sha256 candidate))
           else validate_candidates H space validator candidates (validations @ [validation])
                  (if vd_outcome validation = ELIGIBLE_SAFE then eligible @ [candidate] else eligible)))"

text \<open>A space that fails its validation is a malformed model.\<close>

fun rethrow_space :: "'a result \<Rightarrow> 'a result" where
  "rethrow_space (Inl (ValidationError m)) = Inl (CpccError ''CPCC remediation space failed canonical validation'')"
| "rethrow_space r = r"

lemma rethrow_space_Inr [simp]: "rethrow_space r = Inr x \<longleftrightarrow> r = Inr x"
  by (cases r rule: rethrow_space.cases) auto

definition run_cpcc ::
    "(string \<Rightarrow> string) \<Rightarrow> remediation_space \<Rightarrow> (cpcc_candidate \<Rightarrow> candidate_validation result) \<Rightarrow> cpcc_result result" where
  "run_cpcc H remediation_space validator =
     bindr (rethrow_space (bindr (validate_space H remediation_space) (\<lambda>space.
         bindr (enumerate_cpcc_candidates H space) (\<lambda>candidates. Inr (space, candidates))))) (\<lambda>(space, candidates).
       validate_candidates H space validator candidates [] [])"

end
