(* ===== verification/Cpcc_Theorems.thy ===== *)
theory Cpcc_Theorems
  imports Cpcc
begin

text \<open>
  What the exhaustive core promises: the enumeration is every choice of one or two actions of the
  space, in the order of cost, the run always ends, and its result says exactly how the validator
  answered over the whole space.
\<close>

section \<open>Enumeration\<close>

lemma length_pairs: "length (pairs_of xs) = length xs * (length xs - 1) div 2"
proof (induction xs)
  case (Cons x xs)
  have "length (pairs_of (x # xs)) * 2 = length xs * 2 + length xs * (length xs - 1)"
    using Cons by (cases xs) simp_all
  also have "\<dots> = length (x # xs) * (length (x # xs) - 1)" by (cases xs) (simp_all add: algebra_simps)
  finally show ?case by simp
qed simp

lemma pairs_of_sets:
  "distinct xs \<Longrightarrow> set ` set (pairs_of xs) = {A. A \<subseteq> set xs \<and> card A = 2}"
proof (induction xs)
  case (Cons x xs)
  have "set ` set (pairs_of (x # xs)) = (\<lambda>y. {x, y}) ` set xs \<union> {A. A \<subseteq> set xs \<and> card A = 2}"
    using Cons by (simp add: image_Un image_image)
  also have "\<dots> = {A. A \<subseteq> set (x # xs) \<and> card A = 2}"
  proof (rule set_eqI, rule iffI)
    fix A assume "A \<in> {A. A \<subseteq> set (x # xs) \<and> card A = 2}"
    then have A: "A \<subseteq> insert x (set xs)" "card A = 2" by simp_all
    then obtain a b where ab: "A = {a, b}" "a \<noteq> b" by (auto simp: card_2_iff)
    with A show "A \<in> (\<lambda>y. {x, y}) ` set xs \<union> {A. A \<subseteq> set xs \<and> card A = 2}" by auto
  qed (use Cons(2) in \<open>auto simp: card_insert_if\<close>)
  finally show ?case .
qed auto

lemma pairs_of_members: "g \<in> set (pairs_of xs) \<Longrightarrow> \<exists>a b. g = [a, b] \<and> a \<in> set xs \<and> b \<in> set xs"
  by (induction xs) auto

lemma action_group_sets:
  assumes "distinct xs"
  shows "set ` set (action_groups xs) = {A. A \<subseteq> set xs \<and> A \<noteq> {} \<and> card A \<le> 2}"
proof -
  have "set ` set (action_groups xs) = {A. A \<subseteq> set xs \<and> card A = 1} \<union> {A. A \<subseteq> set xs \<and> card A = 2}"
    unfolding action_groups_def set_append image_Un pairs_of_sets [OF assms] by (auto simp: card_1_singleton_iff image_image)
  also have "\<dots> = {A. A \<subseteq> set xs \<and> A \<noteq> {} \<and> card A \<le> 2}"
  proof -
    have "(A \<noteq> {} \<and> card A \<le> 2) = (card A = 1 \<or> card A = 2)" if "A \<subseteq> set xs" for A
      using card_gt_0_iff [of A] finite_subset [OF that] by fastforce
    then show ?thesis by blast
  qed
  finally show ?thesis .
qed

lemma action_group_length: "g \<in> set (action_groups xs) \<Longrightarrow> 1 \<le> length g \<and> length g \<le> 2 \<and> set g \<subseteq> set xs"
  by (auto simp: action_groups_def dest: pairs_of_members)

lemma pairs_of_distinct: "distinct xs \<Longrightarrow> g \<in> set (pairs_of xs) \<Longrightarrow> distinct g"
  by (induction xs) auto

lemma action_group_distinct: "distinct xs \<Longrightarrow> g \<in> set (action_groups xs) \<Longrightarrow> distinct g"
  by (auto simp: action_groups_def dest: pairs_of_distinct)

lemma length_action_groups: "length (action_groups xs) = length xs + length xs * (length xs - 1) div 2"
  by (simp add: action_groups_def length_pairs)

section \<open>Candidates\<close>

lemma operator_cost_range:
  "0 \<le> ro_goal_loss (remediation_operator_cost op) \<and> ro_goal_loss (remediation_operator_cost op) \<le> 5
   \<and> 0 \<le> ro_information_loss (remediation_operator_cost op) \<and> ro_information_loss (remediation_operator_cost op) \<le> 5
   \<and> 0 \<le> ro_structural_change (remediation_operator_cost op) \<and> ro_structural_change (remediation_operator_cost op) \<le> 2"
  by (cases op) (simp_all add: remediation_operator_cost_def)

lemma validate_remediation_cost: "validate_remediation H a = Inr a \<Longrightarrow> rm_cost a = remediation_operator_cost (rm_operator a)"
  by (auto simp: validate_remediation_def remediation_checks_def)

lemma space_actions_valid:
  assumes "validate_space H space = Inr space"
  shows "\<forall>a \<in> set (sp_actions space). validate_remediation H a = Inr a"
    and "distinct (map rm_action_sha256 (sp_actions space))" "sorted (map rm_action_sha256 (sp_actions space))"
    and "length (sp_actions space) + length (sp_actions space) * (length (sp_actions space) - 1) div 2 \<le> 528"
    and "1 \<le> length (sp_actions space)" "is_sha256 (sp_space_sha256 space)"
  using assms by (auto simp: validate_space_def space_checks_def validate_remediation_def canonical_iff Let_def len_between_def)

lemma total_cost_valid:
  assumes "length g \<le> 2" "\<forall>a \<in> set g. validate_remediation H a = Inr a"
  shows "\<forall>(bad, e) \<in> set (cost_checks (total_cost g)). \<not> bad"
proof -
  have c: "0 \<le> ro_goal_loss (rm_cost a) \<and> ro_goal_loss (rm_cost a) \<le> 5 \<and> 0 \<le> ro_information_loss (rm_cost a)
      \<and> ro_information_loss (rm_cost a) \<le> 5 \<and> 0 \<le> ro_structural_change (rm_cost a) \<and> ro_structural_change (rm_cost a) \<le> 2"
    if "a \<in> set g" for a
    using validate_remediation_cost [of H a] that assms(2) operator_cost_range [of "rm_operator a"] by simp
  consider "g = []" | a where "g = [a]" | a b where "g = [a, b]"
    using assms(1) by (cases g; cases "tl g") (auto simp: neq_Nil_conv)
  then show ?thesis
  proof cases
    case (2 a)
    with c [of a] show ?thesis by (simp add: cost_checks_def total_cost_def)
  next
    case (3 a b)
    with c [of a] c [of b] show ?thesis by (simp add: cost_checks_def total_cost_def)
  qed (simp add: cost_checks_def total_cost_def)
qed

lemma build_candidate_Inr:
  assumes "build_candidate H space_sha g = Inr c"
  shows "cn_actions c = sort_key rm_action_sha256 g \<and> cn_cost c = total_cost (cn_actions c)
     \<and> cn_remediation_space_sha256 c = space_sha \<and> validate_candidate H c = Inr c"
  using assms unfolding build_candidate_def Let_def by (auto simp: validate_candidate_def validate_cost_def)

lemma build_candidate_total:
  assumes "hex_digest H" "is_sha256 space_sha" "1 \<le> length g" "length g \<le> 2" "distinct g"
    and "\<forall>a \<in> set g. validate_remediation H a = Inr a" "inj_on rm_action_sha256 (set g)"
  shows "\<exists>c. build_candidate H space_sha g = Inr c"
proof -
  let ?o = "sort_key rm_action_sha256 g"
  let ?p = "\<lparr>cn_remediation_space_sha256 = space_sha, cn_actions = ?o, cn_cost = total_cost ?o, cn_candidate_sha256 = zero_sha256\<rparr>"
  let ?c = "?p\<lparr>cn_candidate_sha256 := compute_cpcc_candidate_sha256 H ?p\<rparr>"
  have cost: "\<forall>(bad, e) \<in> set (cost_checks (total_cost ?o)). \<not> bad"
    by (rule total_cost_valid [of _ H]) (use assms(4,6) in simp_all)
  have "canonical (map rm_action_sha256 ?o)" using assms(5,7) by (simp add: canonical_iff distinct_map)
  moreover have "\<forall>(bad, e) \<in> set (concat (map (remediation_checks H) ?o)). \<not> bad"
    using assms(6) by (auto simp: validate_remediation_def)
  moreover have "is_sha256 (compute_cpcc_candidate_sha256 H ?p)"
    unfolding compute_cpcc_candidate_sha256_def by (rule hex_digest_sha256 [OF assms(1)])
  ultimately have "validate_candidate H ?c = Inr ?c"
    using cost assms(2-4)
    by (simp add: validate_candidate_def candidate_checks_def len_between_def compute_cpcc_candidate_sha256_def candidate_fields_json_def ball_Un)
  then show ?thesis unfolding build_candidate_def Let_def using cost by (auto simp: validate_cost_def)
qed

lemma groups_ok:
  assumes "validate_space H space = Inr space" "g \<in> set (action_groups (sp_actions space))"
  shows "1 \<le> length g" "length g \<le> 2" "distinct g" "\<forall>a \<in> set g. validate_remediation H a = Inr a" "inj_on rm_action_sha256 (set g)"
proof -
  note ok = space_actions_valid [OF assms(1)]
  show "1 \<le> length g" "length g \<le> 2" "\<forall>a \<in> set g. validate_remediation H a = Inr a" "inj_on rm_action_sha256 (set g)"
    using action_group_length [OF assms(2)] ok(1,2) by (auto simp: distinct_map intro: inj_on_subset)
  show "distinct g" using action_group_distinct [OF _ assms(2)] ok(2) by (simp add: distinct_map)
qed

text \<open>C32: enumeration_exact. For a validated space the enumeration always succeeds: it is one candidate for
  every choice of one or two of the space's actions, no choice left out or pruned, at most 528 of
  them, each carrying the sum of the frozen costs of its actions, in the order of their cost with
  ties broken by hash.\<close>

theorem enumeration_exact:
  assumes "hex_digest H" and "validate_space H space = Inr space"
  shows "\<exists>candidates. enumerate_cpcc_candidates H space = Inr candidates
     \<and> (\<lambda>c. set (cn_actions c)) ` set candidates = {A. A \<subseteq> set (sp_actions space) \<and> A \<noteq> {} \<and> card A \<le> 2}
     \<and> length candidates = length (sp_actions space) + length (sp_actions space) * (length (sp_actions space) - 1) div 2
     \<and> length candidates \<le> 528 \<and> sorted (map candidate_key candidates)
     \<and> (\<forall>c \<in> set candidates. validate_candidate H c = Inr c \<and> cn_cost c = total_cost (cn_actions c)
          \<and> cn_remediation_space_sha256 c = sp_space_sha256 space)"
proof -
  let ?groups = "action_groups (sp_actions space)"
  note ok = space_actions_valid [OF assms(2)]
  have "\<exists>c. build_candidate H (sp_space_sha256 space) g = Inr c" if "g \<in> set ?groups" for g
    by (rule build_candidate_total [OF assms(1) ok(6) groups_ok [OF assms(2) that]])
  then obtain cs where cs: "mapr (build_candidate H (sp_space_sha256 space)) ?groups = Inr cs"
    using mapr_total [of ?groups "build_candidate H (sp_space_sha256 space)"] by blast
  have set: "set cs = {c. \<exists>g \<in> set ?groups. build_candidate H (sp_space_sha256 space) g = Inr c}" by (rule mapr_set [OF cs])
  have "(\<lambda>c. set (cn_actions c)) ` set cs = set ` set ?groups"
  proof (rule set_eqI, rule iffI)
    fix A assume "A \<in> set ` set ?groups"
    then obtain g where g: "g \<in> set ?groups" "A = set g" by blast
    then obtain c where c: "build_candidate H (sp_space_sha256 space) g = Inr c" using mapr_defined [OF cs] by blast
    with g have "A = set (cn_actions c)" using build_candidate_Inr [OF c] by simp
    with g c show "A \<in> (\<lambda>c. set (cn_actions c)) ` set cs" unfolding set by blast
  qed (auto simp: set dest!: build_candidate_Inr)
  moreover have "distinct (sp_actions space)" using ok(2) by (simp add: distinct_map)
  moreover have "\<forall>c \<in> set cs. validate_candidate H c = Inr c \<and> cn_cost c = total_cost (cn_actions c)
      \<and> cn_remediation_space_sha256 c = sp_space_sha256 space"
    unfolding set by (auto dest: build_candidate_Inr)
  ultimately show ?thesis
    using cs assms(2) mapr_length [OF cs] ok(4)
    by (simp add: enumerate_cpcc_candidates_def action_group_sets length_action_groups)
qed

section \<open>The run\<close>

text \<open>What the run can use of a validator's answer to a candidate.\<close>

definition usable ::
    "(string \<Rightarrow> string) \<Rightarrow> (cpcc_candidate \<Rightarrow> candidate_validation result) \<Rightarrow> cpcc_candidate \<Rightarrow> candidate_validation option" where
  "usable H validator c = (case revalidate_validation H validator c of
       Inl _ \<Rightarrow> None
     | Inr v \<Rightarrow> (if vd_candidate_sha256 v = cn_candidate_sha256 c \<and> vd_outcome v \<noteq> VALIDATION_FAIL_CLOSED
         then Some v else None))"

definition eligible ::
    "(string \<Rightarrow> string) \<Rightarrow> (cpcc_candidate \<Rightarrow> candidate_validation result) \<Rightarrow> cpcc_candidate \<Rightarrow> bool" where
  "eligible H validator c \<longleftrightarrow> (case usable H validator c of None \<Rightarrow> False | Some v \<Rightarrow> vd_outcome v = ELIGIBLE_SAFE)"

lemma eligibleD:
  assumes "eligible H validator c"
  shows "\<exists>v. validator c = Inr v \<and> vd_candidate_sha256 v = cn_candidate_sha256 c \<and> vd_outcome v = ELIGIBLE_SAFE
     \<and> vd_local_policy_allowed v \<and> vd_ppmc_status v = Some NO_COUNTEREXAMPLE_WITHIN_BOUND
     \<and> None \<notin> set (chain_commitments v) \<and> vd_ppmc_result_sha256 v \<noteq> None"
proof -
  from assms obtain v where v: "validator c = Inr v" "validate_validation H v = Inr v" "vd_candidate_sha256 v = cn_candidate_sha256 c"
    "vd_outcome v = ELIGIBLE_SAFE"
    by (auto simp: eligible_def usable_def revalidate_validation_def validate_validation_def split: sum.splits if_splits)
  from v(2,4) have "vd_local_policy_allowed v" "vd_ppmc_status v = Some NO_COUNTEREXAMPLE_WITHIN_BOUND"
    "None \<notin> set (chain_commitments v)" "vd_ppmc_result_sha256 v \<noteq> None"
    by (auto simp: validate_validation_def validation_checks_def eligible_checks_def)
  with v show ?thesis by blast
qed

lemma build_cpcc_result_Inr:
  assumes "build_cpcc_result H status space vs es selected failed = Inr r"
  shows "cq_status r = status \<and> cq_selected_candidate r = selected \<and> cq_failed_candidate_sha256 r = failed
     \<and> cq_candidates_considered r = int (length vs) \<and> cq_eligible_candidate_sha256s r = sort (map cn_candidate_sha256 es)
     \<and> cq_validation_sha256s r = map vd_validation_sha256 vs \<and> cq_remediation_space_sha256 r = sp_space_sha256 space"
  using assms by (auto simp: build_cpcc_result_def Let_def validate_cpcc_result_def)

lemma validate_candidates_usable:
  assumes "\<forall>c \<in> set cs. usable H validator c \<noteq> None"
  shows "validate_candidates H space validator cs vs es = validate_candidates H space validator []
     (vs @ map (\<lambda>c. the (usable H validator c)) cs) (es @ filter (eligible H validator) cs)"
  using assms
proof (induction cs arbitrary: vs es)
  case (Cons c cs)
  from Cons(2) obtain v where v: "usable H validator c = Some v" by auto
  then have r: "revalidate_validation H validator c = Inr v" "vd_candidate_sha256 v = cn_candidate_sha256 c"
    "vd_outcome v \<noteq> VALIDATION_FAIL_CLOSED"
    by (auto simp: usable_def split: sum.splits if_splits)
  have "eligible H validator c \<longleftrightarrow> vd_outcome v = ELIGIBLE_SAFE" by (simp add: eligible_def v)
  with r v Cons show ?case by simp
qed simp

lemma validate_candidates_stops:
  assumes "usable H validator c = None"
  shows "\<exists>ws. validate_candidates H space validator (c # cs) vs es
     = build_cpcc_result H CPCC_FAIL_CLOSED space (vs @ ws) es None (Some (cn_candidate_sha256 c))
     \<and> length ws \<le> 1 \<and> (\<forall>v \<in> set ws. is_sha256 (vd_validation_sha256 v))"
proof (cases "revalidate_validation H validator c")
  case (Inl e)
  then show ?thesis by (intro exI [of _ "[]"]) simp
next
  case (Inr v)
  show ?thesis
  proof (cases "vd_candidate_sha256 v = cn_candidate_sha256 c")
    case True
    with Inr assms have "vd_outcome v = VALIDATION_FAIL_CLOSED" by (auto simp: usable_def split: if_splits)
    moreover have "is_sha256 (vd_validation_sha256 v)"
      using Inr by (auto simp: revalidate_validation_def validate_validation_def validation_checks_def)
    ultimately show ?thesis using Inr True by (intro exI [of _ "[v]"]) simp
  qed (use Inr in \<open>intro exI [of _ "[]"], simp\<close>)
qed

lemma validate_candidates_split:
  assumes "\<forall>c \<in> set pre. usable H validator c \<noteq> None" "usable H validator c = None"
  shows "\<exists>ws. validate_candidates H space validator (pre @ c # post) vs es
     = build_cpcc_result H CPCC_FAIL_CLOSED space (vs @ map (\<lambda>c. the (usable H validator c)) pre @ ws)
         (es @ filter (eligible H validator) pre) None (Some (cn_candidate_sha256 c))
     \<and> length ws \<le> 1 \<and> (\<forall>v \<in> set ws. is_sha256 (vd_validation_sha256 v))"
  using assms(1)
proof (induction pre arbitrary: vs es)
  case Nil
  then show ?case using validate_candidates_stops [OF assms(2), of space post vs es] by simp
next
  case (Cons d pre)
  from Cons(2) obtain v where v: "usable H validator d = Some v" by auto
  then have r: "revalidate_validation H validator d = Inr v" "vd_candidate_sha256 v = cn_candidate_sha256 d"
    "vd_outcome v \<noteq> VALIDATION_FAIL_CLOSED"
    by (auto simp: usable_def split: sum.splits if_splits)
  have "eligible H validator d \<longleftrightarrow> vd_outcome v = ELIGIBLE_SAFE" by (simp add: eligible_def v)
  with r v Cons(2) Cons(1) [of "vs @ [v]" "if vd_outcome v = ELIGIBLE_SAFE then es @ [d] else es"] show ?case by auto
qed

lemma cheapest_Some:
  "cheapest cs = Some c \<Longrightarrow> c \<in> set cs \<and> (\<forall>c' \<in> set cs. candidate_key c \<le> candidate_key c')"
  unfolding cheapest_def using arg_min_list_in [of cs candidate_key] arg_min_list_le [of _ cs candidate_key]
  by (auto split: if_splits)

lemma run_cpcc_Inr:
  assumes "run_cpcc H space validator = Inr r"
  shows "\<exists>candidates. enumerate_cpcc_candidates H space = Inr candidates
     \<and> validate_candidates H space validator candidates [] [] = Inr r"
  using assms by (auto simp: run_cpcc_def validate_space_def)

lemma first_unusable:
  "\<exists>c \<in> set cs. P c \<Longrightarrow> \<exists>pre c post. cs = pre @ c # post \<and> P c \<and> (\<forall>d \<in> set pre. \<not> P d)"
  using split_list_first_prop [of cs P] by blast

text \<open>C29: repair_exact. A run says exactly how the validator answered. It fails closed iff some candidate has
  no usable answer (the validator raised, answered for another candidate, failed closed, or gave a
  malformed commitment), and names the first such one in cost order. Otherwise every candidate was
  answered: a repair is found iff one is eligible, and the selected candidate is the cheapest
  eligible one of the whole space, with a complete validation chain, a local ALLOW and a bounded
  no-counterexample result; no repair is reported iff none is eligible.\<close>

theorem repair_exact:
  assumes "run_cpcc H space validator = Inr r"
  shows "\<exists>candidates. enumerate_cpcc_candidates H space = Inr candidates
     \<and> (cq_status r = CPCC_FAIL_CLOSED \<longleftrightarrow> (\<exists>c \<in> set candidates. usable H validator c = None))
     \<and> (cq_status r = CPCC_FAIL_CLOSED \<longrightarrow> (\<exists>pre c post. candidates = pre @ c # post \<and> usable H validator c = None
          \<and> (\<forall>d \<in> set pre. usable H validator d \<noteq> None) \<and> cq_failed_candidate_sha256 r = Some (cn_candidate_sha256 c)
          \<and> cq_selected_candidate r = None))
     \<and> (cq_status r = NO_ELIGIBLE_REPAIR \<longleftrightarrow> (\<forall>c \<in> set candidates. usable H validator c \<noteq> None \<and> \<not> eligible H validator c))
     \<and> (cq_status r = REPAIR_FOUND \<longrightarrow> (\<exists>c \<in> set candidates. cq_selected_candidate r = Some c \<and> eligible H validator c
          \<and> (\<forall>c' \<in> set candidates. eligible H validator c' \<longrightarrow> candidate_key c \<le> candidate_key c')
          \<and> (\<exists>v. validator c = Inr v \<and> vd_candidate_sha256 v = cn_candidate_sha256 c \<and> vd_local_policy_allowed v
               \<and> vd_ppmc_status v = Some NO_COUNTEREXAMPLE_WITHIN_BOUND \<and> None \<notin> set (chain_commitments v))))"
proof -
  from run_cpcc_Inr [OF assms] obtain cs where enum: "enumerate_cpcc_candidates H space = Inr cs"
    and run: "validate_candidates H space validator cs [] [] = Inr r" by blast
  show ?thesis
  proof (cases "\<exists>c \<in> set cs. usable H validator c = None")
    case True
    from first_unusable [OF this] obtain pre c post where split: "cs = pre @ c # post" "usable H validator c = None"
      "\<forall>d \<in> set pre. usable H validator d \<noteq> None" by blast
    from validate_candidates_split [OF split(3,2), of space post "[]" "[]"] run obtain ws es where
      "build_cpcc_result H CPCC_FAIL_CLOSED space ws es None (Some (cn_candidate_sha256 c)) = Inr r"
      unfolding split(1) by auto
    note result = build_cpcc_result_Inr [OF this]
    then show ?thesis using enum split True by (intro exI [of _ cs]) auto
  next
    case False
    then have all: "\<forall>c \<in> set cs. usable H validator c \<noteq> None" by simp
    let ?es = "filter (eligible H validator) cs"
    from run have "build_cpcc_result H (if cheapest ?es \<noteq> None then REPAIR_FOUND else NO_ELIGIBLE_REPAIR) space
        (map (\<lambda>c. the (usable H validator c)) cs) ?es (cheapest ?es) None = Inr r"
      unfolding validate_candidates_usable [OF all] by (simp add: Let_def)
    from build_cpcc_result_Inr [OF this] have result: "cq_status r = (if cheapest ?es \<noteq> None then REPAIR_FOUND else NO_ELIGIBLE_REPAIR)"
      "cq_selected_candidate r = cheapest ?es" by simp_all
    have none: "cheapest ?es = None \<longleftrightarrow> (\<forall>c \<in> set cs. \<not> eligible H validator c)"
      by (simp add: cheapest_def filter_empty_conv)
    show ?thesis
    proof (cases "cheapest ?es")
      case None
      with result none all enum show ?thesis by (intro exI [of _ cs]) auto
    next
      case (Some c)
      from cheapest_Some [OF Some] have c: "c \<in> set cs" "eligible H validator c"
        "\<forall>c' \<in> set cs. eligible H validator c' \<longrightarrow> candidate_key c \<le> candidate_key c'" by auto
      from eligibleD [OF c(2)] have chain: "\<exists>v. validator c = Inr v \<and> vd_candidate_sha256 v = cn_candidate_sha256 c
          \<and> vd_local_policy_allowed v \<and> vd_ppmc_status v = Some NO_COUNTEREXAMPLE_WITHIN_BOUND \<and> None \<notin> set (chain_commitments v)"
        by blast
      show ?thesis
        by (intro exI [of _ cs] conjI) (use enum result Some all c chain in \<open>auto intro!: bexI [of _ c]\<close>)
    qed
  qed
qed

lemma usable_sha256: "usable H validator c = Some v \<Longrightarrow> is_sha256 (vd_validation_sha256 v)"
  by (auto simp: usable_def revalidate_validation_def validate_validation_def validation_checks_def split: sum.splits if_splits)

lemma build_cpcc_result_total:
  assumes "hex_digest H" "is_sha256 (sp_space_sha256 space)"
    and "length vs \<le> 528" "\<forall>v \<in> set vs. is_sha256 (vd_validation_sha256 v)"
    and "length es \<le> 528" "\<forall>c \<in> set es. is_sha256 (cn_candidate_sha256 c)" "distinct (map cn_candidate_sha256 es)"
    and "opt_all is_sha256 failed"
    and "\<And>c. selected = Some c \<Longrightarrow> c \<in> set es \<and> validate_candidate H c = Inr c \<and> cn_remediation_space_sha256 c = sp_space_sha256 space"
    and "status = REPAIR_FOUND \<longrightarrow> selected \<noteq> None \<and> failed = None"
    and "status = NO_ELIGIBLE_REPAIR \<longrightarrow> selected = None \<and> failed = None \<and> es = []"
    and "status = CPCC_FAIL_CLOSED \<longrightarrow> selected = None \<and> failed \<noteq> None"
  shows "\<exists>r. build_cpcc_result H status space vs es selected failed = Inr r \<and> validate_cpcc_result H r = Inr r"
proof -
  let ?p = "\<lparr>cq_status = status, cq_remediation_space_sha256 = sp_space_sha256 space,
            cq_candidates_considered = int (length vs), cq_validation_sha256s = map vd_validation_sha256 vs,
            cq_eligible_candidate_sha256s = sort (map cn_candidate_sha256 es),
            cq_selected_candidate = selected, cq_failed_candidate_sha256 = failed, cq_result_sha256 = zero_sha256\<rparr>"
  let ?r = "?p\<lparr>cq_result_sha256 := compute_cpcc_result_sha256 H ?p\<rparr>"
  have sha: "is_sha256 (compute_cpcc_result_sha256 H ?p)"
    unfolding compute_cpcc_result_sha256_def by (rule hex_digest_sha256 [OF assms(1)])
  have candidate: "\<forall>(bad, e) \<in> set (case selected of None \<Rightarrow> [] | Some c \<Rightarrow> candidate_checks H c). \<not> bad"
    using assms(9) by (auto simp: validate_candidate_def split: option.splits)
  have status: "\<forall>(bad, e) \<in> set (status_checks status ?r). \<not> bad"
    using assms(9-12) by (cases status; cases selected) auto
  have same: "compute_cpcc_result_sha256 H ?r = compute_cpcc_result_sha256 H ?p" by (simp add: compute_cpcc_result_sha256_def)
  have "validate_cpcc_result H ?r = Inr ?r"
    using candidate status sha same assms(2-8)
    by (simp add: validate_cpcc_result_def cpcc_result_checks_def len_between_def list_all_iff canonical_iff ball_Un)
  then show ?thesis by (simp add: build_cpcc_result_def Let_def)
qed

text \<open>Over a validated space whose candidate hashes do not collide the run ends with a result
  that passes the validation of results, whatever the validator does: it may raise, answer for
  another candidate or answer with a malformed commitment.\<close>

theorem run_returns:
  assumes "hex_digest H" and "validate_space H space = Inr space"
    and "\<And>candidates. enumerate_cpcc_candidates H space = Inr candidates \<Longrightarrow> distinct (map cn_candidate_sha256 candidates)"
  shows "\<exists>r. run_cpcc H space validator = Inr r \<and> validate_cpcc_result H r = Inr r"
proof -
  from enumeration_exact [OF assms(1,2)] obtain cs where cs: "enumerate_cpcc_candidates H space = Inr cs" "length cs \<le> 528"
    "\<forall>c \<in> set cs. validate_candidate H c = Inr c \<and> cn_remediation_space_sha256 c = sp_space_sha256 space" by blast
  have run: "run_cpcc H space validator = validate_candidates H space validator cs [] []"
    by (simp add: run_cpcc_def assms(2) cs(1))
  have space: "is_sha256 (sp_space_sha256 space)" by (rule space_actions_valid(6) [OF assms(2)])
  have sha: "\<forall>c \<in> set cs. is_sha256 (cn_candidate_sha256 c)"
    using cs(3) by (auto simp: validate_candidate_def candidate_checks_def)
  have valid: "\<forall>v \<in> set (map (\<lambda>c. the (usable H validator c)) pre). is_sha256 (vd_validation_sha256 v)"
    if "\<forall>c \<in> set pre. usable H validator c \<noteq> None" for pre
    using that usable_sha256 [of H validator] by force
  show ?thesis
  proof (cases "\<forall>c \<in> set cs. usable H validator c \<noteq> None")
    case True
    let ?es = "filter (eligible H validator) cs"
    have "\<exists>r. build_cpcc_result H (if cheapest ?es \<noteq> None then REPAIR_FOUND else NO_ELIGIBLE_REPAIR) space
        (map (\<lambda>c. the (usable H validator c)) cs) ?es (cheapest ?es) None = Inr r \<and> validate_cpcc_result H r = Inr r"
    proof (rule build_cpcc_result_total [OF assms(1) space])
      show "length ?es \<le> 528" using cs(2) length_filter_le [of "eligible H validator" cs] by linarith
      show "distinct (map cn_candidate_sha256 ?es)" using assms(3) [OF cs(1)] by (rule distinct_map_filter)
      show "c \<in> set ?es \<and> validate_candidate H c = Inr c \<and> cn_remediation_space_sha256 c = sp_space_sha256 space"
        if "cheapest ?es = Some c" for c using cheapest_Some [OF that] cs(3) by auto
    qed (use cs(2,3) sha valid [OF True] in \<open>auto simp: cheapest_def split: if_splits\<close>)
    then show ?thesis unfolding run validate_candidates_usable [OF True] by (simp add: Let_def)
  next
    case False
    then have "\<exists>c \<in> set cs. usable H validator c = None" by simp
    from first_unusable [OF this] obtain pre c post where split: "cs = pre @ c # post" "usable H validator c = None"
      "\<forall>d \<in> set pre. usable H validator d \<noteq> None" by blast
    let ?es = "filter (eligible H validator) pre" and ?vs = "map (\<lambda>c. the (usable H validator c)) pre"
    from validate_candidates_split [OF split(3,2), of space post "[]" "[]"] obtain ws where
      eq: "validate_candidates H space validator cs [] [] = build_cpcc_result H CPCC_FAIL_CLOSED space (?vs @ ws) ?es None
        (Some (cn_candidate_sha256 c))" and ws: "length ws \<le> 1" "\<forall>v \<in> set ws. is_sha256 (vd_validation_sha256 v)"
      unfolding split(1) by auto
    have "\<exists>r. build_cpcc_result H CPCC_FAIL_CLOSED space (?vs @ ws) ?es None (Some (cn_candidate_sha256 c)) = Inr r
        \<and> validate_cpcc_result H r = Inr r"
    proof (rule build_cpcc_result_total [OF assms(1) space])
      show "length ?es \<le> 528" using cs(2) le_trans [OF length_filter_le, of pre 528 "eligible H validator"] by (simp add: split(1))
      show "distinct (map cn_candidate_sha256 ?es)" using assms(3) [OF cs(1)] by (simp add: split(1) distinct_map_filter)
    qed (use cs(2) sha ws valid [OF split(3)] in \<open>auto simp: split(1)\<close>)
    then show ?thesis unfolding run eq .
  qed
qed

section \<open>A sample space\<close>

definition sample_remediation :: remediation_action where
  "sample_remediation = \<lparr>rm_operator = REMOVE_PROJECTION, rm_field_key = Some ''u#name'', rm_qi_transformation = None,
     rm_aggregate_operator = None, rm_minimum_group_size = None, rm_cost = remediation_operator_cost REMOVE_PROJECTION,
     rm_action_sha256 = zero_sha256\<rparr>"

definition sample_space :: remediation_space where
  "sample_space = \<lparr>sp_actions = [sample_remediation], sp_space_sha256 = zero_sha256\<rparr>"

definition sample_candidate :: cpcc_candidate where
  "sample_candidate = \<lparr>cn_remediation_space_sha256 = zero_sha256, cn_actions = [sample_remediation],
     cn_cost = remediation_operator_cost REMOVE_PROJECTION, cn_candidate_sha256 = zero_sha256\<rparr>"

definition sample_validation :: candidate_validation where
  "sample_validation = (let sha = Some zero_sha256 in
     \<lparr>vd_candidate_sha256 = zero_sha256, vd_outcome = ELIGIBLE_SAFE, vd_failure_stage = None,
       vd_generated_sql_sha256 = sha, vd_reparsed_plan_sha256 = sha, vd_reground_governance_sha256 = sha,
       vd_evidence_root_sha256 = sha, vd_local_policy_decision_sha256 = sha, vd_local_policy_allowed = True,
       vd_disclosure_state_sha256 = sha, vd_ppmc_result_sha256 = sha,
       vd_ppmc_status = Some NO_COUNTEREXAMPLE_WITHIN_BOUND, vd_validation_sha256 = zero_sha256\<rparr>)"

text \<open>A validator that finds every candidate safe, and one that raises.\<close>

definition safe_validator :: "cpcc_candidate \<Rightarrow> candidate_validation result" where
  "safe_validator c = build_cpcc_candidate_validation (\<lambda>_. zero_sha256) sample_validation"

definition raising_validator :: "cpcc_candidate \<Rightarrow> candidate_validation result" where
  "raising_validator c = Inl (AssertionError ''validator'')"

lemma zero_hash [simp]: "canonical_json_sha256 (\<lambda>_. zero_sha256) j = zero_sha256" "is_sha256 zero_sha256"
  using hex_digest_const by (simp_all add: canonical_json_sha256_def hex_digest_def)

lemma sample_remediation_valid: "validate_remediation (\<lambda>_. zero_sha256) sample_remediation = Inr sample_remediation"
  by (simp add: validate_remediation_def remediation_checks_def cost_checks_def sample_remediation_def len_between_def
      field_operators_def threshold_operators_def compute_remediation_action_sha256_def remediation_operator_cost_def)

lemma sample_space_valid: "validate_space (\<lambda>_. zero_sha256) sample_space = Inr sample_space"
  using sample_remediation_valid
  by (simp add: validate_space_def space_checks_def sample_space_def validate_remediation_def len_between_def canonical_iff
      compute_remediation_space_sha256_def ball_Un)

lemma sample_candidate_valid: "validate_candidate (\<lambda>_. zero_sha256) sample_candidate = Inr sample_candidate"
  using sample_remediation_valid
  by (simp add: validate_candidate_def candidate_checks_def sample_candidate_def validate_remediation_def len_between_def
      canonical_iff compute_cpcc_candidate_sha256_def cost_checks_def remediation_operator_cost_def total_cost_def
      sample_remediation_def ball_Un)

lemma sample_enumeration: "enumerate_cpcc_candidates (\<lambda>_. zero_sha256) sample_space = Inr [sample_candidate]"
proof -
  have "build_candidate (\<lambda>_. zero_sha256) zero_sha256 [sample_remediation] = Inr sample_candidate"
    using sample_candidate_valid
    by (simp add: build_candidate_def sample_candidate_def validate_cost_def cost_checks_def remediation_operator_cost_def
        total_cost_def sample_remediation_def compute_cpcc_candidate_sha256_def)
  then show ?thesis
    by (simp add: enumerate_cpcc_candidates_def sample_space_valid) (simp add: sample_space_def action_groups_def)
qed

lemma sample_validation_valid: "safe_validator c = Inr sample_validation \<and> validate_validation (\<lambda>_. zero_sha256) sample_validation = Inr sample_validation"
  by (simp add: safe_validator_def build_cpcc_candidate_validation_def validate_validation_def validation_checks_def
      eligible_checks_def sample_validation_def chain_commitments_def compute_cpcc_candidate_validation_sha256_def Let_def)

lemma sample_cpcc_run:
  "run_cpcc (\<lambda>_. zero_sha256) sample_space validator = validate_candidates (\<lambda>_. zero_sha256) sample_space validator [sample_candidate] [] []"
  by (simp add: run_cpcc_def sample_space_valid sample_enumeration)

lemma sample_repair: "\<exists>r. run_cpcc (\<lambda>_. zero_sha256) sample_space safe_validator = Inr r \<and> cq_status r = REPAIR_FOUND"
proof -
  have "run_cpcc (\<lambda>_. zero_sha256) sample_space safe_validator = build_cpcc_result (\<lambda>_. zero_sha256) REPAIR_FOUND sample_space
      [sample_validation] [sample_candidate] (Some sample_candidate) None"
    using sample_validation_valid
    by (simp add: sample_cpcc_run revalidate_validation_def cheapest_def) (simp add: sample_validation_def sample_candidate_def Let_def)
  moreover have "\<exists>r. build_cpcc_result (\<lambda>_. zero_sha256) REPAIR_FOUND sample_space [sample_validation] [sample_candidate]
      (Some sample_candidate) None = Inr r \<and> validate_cpcc_result (\<lambda>_. zero_sha256) r = Inr r"
    by (rule build_cpcc_result_total [OF hex_digest_const])
      (use sample_candidate_valid in \<open>simp_all add: sample_space_def sample_validation_def sample_candidate_def Let_def\<close>)
  ultimately show ?thesis by (auto dest: build_cpcc_result_Inr)
qed

lemma enumeration_exact_witness:
  "\<exists>candidates. enumerate_cpcc_candidates (\<lambda>_. zero_sha256) sample_space = Inr candidates \<and> length candidates = 1
     \<and> (\<lambda>c. set (cn_actions c)) ` set candidates = {{sample_remediation}}"
proof -
  have actions: "sp_actions sample_space = [sample_remediation]" by (simp add: sample_space_def)
  from enumeration_exact [OF hex_digest_const sample_space_valid] obtain candidates where
    "enumerate_cpcc_candidates (\<lambda>_. zero_sha256) sample_space = Inr candidates" "length candidates = 1"
    "(\<lambda>c. set (cn_actions c)) ` set candidates = {A. A \<subseteq> {sample_remediation} \<and> A \<noteq> {} \<and> card A \<le> 2}"
    unfolding actions by auto
  moreover have "{A. A \<subseteq> {sample_remediation} \<and> A \<noteq> {} \<and> card A \<le> 2} = {{sample_remediation}}" by auto
  ultimately show ?thesis by auto
qed

lemma repair_exact_witness:
  "\<exists>r c. run_cpcc (\<lambda>_. zero_sha256) sample_space safe_validator = Inr r \<and> cq_selected_candidate r = Some c
     \<and> eligible (\<lambda>_. zero_sha256) safe_validator c"
proof -
  obtain r where r: "run_cpcc (\<lambda>_. zero_sha256) sample_space safe_validator = Inr r" "cq_status r = REPAIR_FOUND"
    using sample_repair by blast
  with repair_exact [OF r(1)] show ?thesis by auto
qed

lemma run_returns_witness:
  "\<exists>r. run_cpcc (\<lambda>_. zero_sha256) sample_space raising_validator = Inr r \<and> cq_status r = CPCC_FAIL_CLOSED"
proof -
  have "distinct (map cn_candidate_sha256 candidates)"
    if "enumerate_cpcc_candidates (\<lambda>_. zero_sha256) sample_space = Inr candidates" for candidates
    using that by (auto simp: sample_enumeration)
  from run_returns [OF hex_digest_const sample_space_valid this, of raising_validator] obtain r where
    r: "run_cpcc (\<lambda>_. zero_sha256) sample_space raising_validator = Inr r" by blast
  then have "cq_status r = CPCC_FAIL_CLOSED"
    by (simp add: sample_cpcc_run revalidate_validation_def raising_validator_def build_cpcc_result_Inr)
  with r show ?thesis by blast
qed

end
