(* ===== verification/Evidence.thy ===== *)
theory Evidence
  imports Domain
begin

text \<open>
  Evidence claims and their resolution, \<open>src/toxicjoin/evidence\<close>: the models of \<open>models.py\<close> with
  their builders and hashes, the security-owned trust policies of \<open>policy.py\<close>, and the
  deterministic resolver of \<open>resolver.py\<close>. \<open>H\<close> is SHA-256 and \<open>ts\<close> the text of a UTC timestamp
  (microseconds since the epoch); rejecting naive timestamps is left out.
\<close>

section \<open>Origins and derivations\<close>

datatype evidence_source =
    DATAHUB_MCP
  | WAREHOUSE_RUNTIME
  | STATIC_MANIFEST
  | SQL_ANALYZER
  | HUMAN_GOVERNANCE
  | AGENT

fun source_value :: "evidence_source \<Rightarrow> string" where
  "source_value DATAHUB_MCP = ''DATAHUB_MCP''"
| "source_value WAREHOUSE_RUNTIME = ''WAREHOUSE_RUNTIME''"
| "source_value STATIC_MANIFEST = ''STATIC_MANIFEST''"
| "source_value SQL_ANALYZER = ''SQL_ANALYZER''"
| "source_value HUMAN_GOVERNANCE = ''HUMAN_GOVERNANCE''"
| "source_value AGENT = ''AGENT''"

datatype derivation_kind =
    RUNTIME_OBSERVED
  | EXPLICIT_MAPPING
  | SQL_DERIVED
  | STRICT_NAME_MATCH
  | FUZZY_INFERRED
  | HUMAN_ASSERTED
  | DERIVED_AGENT_ASSERTED

fun derivation_value :: "derivation_kind \<Rightarrow> string" where
  "derivation_value RUNTIME_OBSERVED = ''RUNTIME_OBSERVED''"
| "derivation_value EXPLICIT_MAPPING = ''EXPLICIT_MAPPING''"
| "derivation_value SQL_DERIVED = ''SQL_DERIVED''"
| "derivation_value STRICT_NAME_MATCH = ''STRICT_NAME_MATCH''"
| "derivation_value FUZZY_INFERRED = ''FUZZY_INFERRED''"
| "derivation_value HUMAN_ASSERTED = ''HUMAN_ASSERTED''"
| "derivation_value DERIVED_AGENT_ASSERTED = ''AGENT_ASSERTED''"

datatype trust_state =
    TRUSTED
  | CONTESTED
  | UNKNOWN
  | STALE
  | INCOMPLETE
  | AGENT_ASSERTED

fun trust_value :: "trust_state \<Rightarrow> string" where
  "trust_value TRUSTED = ''TRUSTED''"
| "trust_value CONTESTED = ''CONTESTED''"
| "trust_value UNKNOWN = ''UNKNOWN''"
| "trust_value STALE = ''STALE''"
| "trust_value INCOMPLETE = ''INCOMPLETE''"
| "trust_value AGENT_ASSERTED = ''AGENT_ASSERTED''"

section \<open>Trust policies\<close>

record evidence_rule =
  er_source :: evidence_source
  er_derivation :: derivation_kind

definition rule_key :: "evidence_rule \<Rightarrow> string" where
  "rule_key r = source_value (er_source r) @ '':'' @ derivation_value (er_derivation r)"

record evidence_policy =
  ep_version :: string
  ep_trusted_rules :: "evidence_rule list"

definition unsafe_rule :: "evidence_rule \<Rightarrow> bool" where
  "unsafe_rule r \<longleftrightarrow> er_source r = AGENT \<or> er_derivation r \<in> {DERIVED_AGENT_ASSERTED, FUZZY_INFERRED}"

definition validate_evidence_policy :: "evidence_policy \<Rightarrow> evidence_policy result" where
  "validate_evidence_policy p = raise_first
     [(\<not> len_between 1 128 (ep_version p), ValidationError ''version length''),
      (\<not> len_between 1 64 (ep_trusted_rules p), ValidationError ''trusted_rules length''),
      (\<not> canonical (map rule_key (ep_trusted_rules p)), ValidationError ''trusted_rules must be sorted and unique''),
      (list_ex unsafe_rule (ep_trusted_rules p),
         ValidationError ''Agent or fuzzy evidence cannot establish trusted authority'')] p"

section \<open>Claims\<close>

record evidence_claim =
  ec_claim_id :: string
  ec_subject :: string
  ec_predicate :: string
  ec_value :: string
  ec_source :: evidence_source
  ec_derivation :: derivation_kind
  ec_source_identity :: string
  ec_observed_at :: int
  ec_expires_at :: "int option"
  ec_effective_from :: "int option"
  ec_effective_until :: "int option"
  ec_complete :: bool
  ec_supporting_claim_ids :: "string list"
  ec_content_sha256 :: string

definition trusts :: "evidence_policy \<Rightarrow> evidence_claim \<Rightarrow> bool" where
  "trusts p c \<longleftrightarrow> list_ex (\<lambda>r. rule_key r = source_value (ec_source c) @ '':'' @ derivation_value (ec_derivation c))
     (ep_trusted_rules p)"

definition compute_claim_sha256 :: "(string \<Rightarrow> string) \<Rightarrow> (int \<Rightarrow> string) \<Rightarrow> evidence_claim \<Rightarrow> string" where
  "compute_claim_sha256 H ts c = canonical_json_sha256 H (JObj
     [(''schema_version'', JStr ''1.0''), (''subject'', JStr (ec_subject c)), (''predicate'', JStr (ec_predicate c)),
      (''value'', JStr (ec_value c)), (''source'', JStr (source_value (ec_source c))),
      (''derivation'', JStr (derivation_value (ec_derivation c))), (''source_identity'', JStr (ec_source_identity c)),
      (''observed_at'', JStr (ts (ec_observed_at c))), (''expires_at'', jopt (\<lambda>t. JStr (ts t)) (ec_expires_at c)),
      (''effective_from'', jopt (\<lambda>t. JStr (ts t)) (ec_effective_from c)),
      (''effective_until'', jopt (\<lambda>t. JStr (ts t)) (ec_effective_until c)),
      (''complete'', JBool (ec_complete c)), (''supporting_claim_ids'', jstrs (ec_supporting_claim_ids c))])"

text \<open>\<open>evc_\<close> and the first 32 digits of the content hash.\<close>

definition short_id :: "string \<Rightarrow> string \<Rightarrow> string" where
  "short_id prefix digest = prefix @ take 32 digest"

definition claim_checks :: "(string \<Rightarrow> string) \<Rightarrow> (int \<Rightarrow> string) \<Rightarrow> evidence_claim \<Rightarrow> (bool \<times> error) list" where
  "claim_checks H ts c =
     [(\<not> has_prefix_hex ''evc_'' 32 (ec_claim_id c), ValidationError ''claim_id pattern''),
      (\<not> len_between 1 2048 (ec_subject c), ValidationError ''subject length''),
      (\<not> len_between 1 256 (ec_predicate c), ValidationError ''predicate length''),
      (\<not> len_between 1 4096 (ec_value c), ValidationError ''value length''),
      (\<not> len_between 1 2048 (ec_source_identity c), ValidationError ''source_identity length''),
      (\<not> len_between 0 128 (ec_supporting_claim_ids c), ValidationError ''supporting_claim_ids length''),
      (\<not> is_sha256 (ec_content_sha256 c), ValidationError ''content_sha256 pattern''),
      (\<not> opt_all (\<lambda>t. ec_observed_at c < t) (ec_expires_at c), ValidationError ''expires_at must follow observed_at''),
      (\<not> opt_all (\<lambda>f. opt_all (\<lambda>u. f < u) (ec_effective_until c)) (ec_effective_from c),
         ValidationError ''effective_until must follow effective_from''),
      (\<not> canonical (ec_supporting_claim_ids c), ValidationError ''supporting_claim_ids must be sorted and unique''),
      (ec_content_sha256 c \<noteq> compute_claim_sha256 H ts c, ValidationError ''evidence claim content hash mismatch''),
      (ec_claim_id c \<noteq> short_id ''evc_'' (compute_claim_sha256 H ts c), ValidationError ''evidence claim id mismatch'')]"

definition validate_claim :: "(string \<Rightarrow> string) \<Rightarrow> (int \<Rightarrow> string) \<Rightarrow> evidence_claim \<Rightarrow> evidence_claim result" where
  "validate_claim H ts c = raise_first (claim_checks H ts c) c"

text \<open>\<open>build_evidence_claim\<close>, its arguments given as a claim whose id and hash are still open.\<close>

definition build_evidence_claim ::
    "(string \<Rightarrow> string) \<Rightarrow> (int \<Rightarrow> string) \<Rightarrow> evidence_claim \<Rightarrow> evidence_claim result" where
  "build_evidence_claim H ts arguments =
     (let payload = arguments\<lparr>ec_supporting_claim_ids := sorted_set (ec_supporting_claim_ids arguments)\<rparr>;
          digest = compute_claim_sha256 H ts payload
      in validate_claim H ts (payload\<lparr>ec_claim_id := short_id ''evc_'' digest, ec_content_sha256 := digest\<rparr>))"

definition not_yet_applicable :: "evidence_claim \<Rightarrow> int \<Rightarrow> bool" where
  "not_yet_applicable c now \<longleftrightarrow> ec_observed_at c > now
     \<or> (case ec_effective_from c of None \<Rightarrow> False | Some t \<Rightarrow> t > now)"

definition claim_stale :: "evidence_claim \<Rightarrow> int \<Rightarrow> bool" where
  "claim_stale c now \<longleftrightarrow> (case ec_expires_at c of None \<Rightarrow> False | Some t \<Rightarrow> now \<ge> t)
     \<or> (case ec_effective_until c of None \<Rightarrow> False | Some t \<Rightarrow> now \<ge> t)"

section \<open>Resolutions\<close>

record evidence_resolution =
  rv_resolution_id :: string
  rv_subject :: string
  rv_predicate :: string
  rv_state :: trust_state
  rv_value :: "string option"
  rv_claim_ids :: "string list"
  rv_policy_version :: string
  rv_content_sha256 :: string

definition compute_resolution_sha256 :: "(string \<Rightarrow> string) \<Rightarrow> evidence_resolution \<Rightarrow> string" where
  "compute_resolution_sha256 H r = canonical_json_sha256 H (JObj
     [(''schema_version'', JStr ''1.0''), (''subject'', JStr (rv_subject r)), (''predicate'', JStr (rv_predicate r)),
      (''state'', JStr (trust_value (rv_state r))), (''value'', jopt JStr (rv_value r)),
      (''claim_ids'', jstrs (rv_claim_ids r)), (''policy_version'', JStr (rv_policy_version r))])"

definition resolution_checks :: "(string \<Rightarrow> string) \<Rightarrow> evidence_resolution \<Rightarrow> (bool \<times> error) list" where
  "resolution_checks H r =
     [(\<not> has_prefix_hex ''evr_'' 32 (rv_resolution_id r), ValidationError ''resolution_id pattern''),
      (\<not> len_between 1 2048 (rv_subject r), ValidationError ''subject length''),
      (\<not> len_between 1 256 (rv_predicate r), ValidationError ''predicate length''),
      (\<not> opt_all (len_between 0 4096) (rv_value r), ValidationError ''value length''),
      (\<not> len_between 0 256 (rv_claim_ids r), ValidationError ''claim_ids length''),
      (\<not> len_between 1 128 (rv_policy_version r), ValidationError ''policy_version length''),
      (\<not> is_sha256 (rv_content_sha256 r), ValidationError ''content_sha256 pattern''),
      (\<not> canonical (rv_claim_ids r), ValidationError ''claim_ids must be sorted and unique''),
      (rv_state r = TRUSTED \<and> rv_value r = None, ValidationError ''trusted evidence resolution requires a value''),
      (rv_state r \<noteq> TRUSTED \<and> rv_value r \<noteq> None,
         ValidationError ''only trusted evidence resolution may expose an authority value''),
      (rv_content_sha256 r \<noteq> compute_resolution_sha256 H r,
         ValidationError ''evidence resolution content hash mismatch''),
      (rv_resolution_id r \<noteq> short_id ''evr_'' (compute_resolution_sha256 H r),
         ValidationError ''evidence resolution id mismatch'')]"

definition validate_resolution :: "(string \<Rightarrow> string) \<Rightarrow> evidence_resolution \<Rightarrow> evidence_resolution result" where
  "validate_resolution H r = raise_first (resolution_checks H r) r"

definition build_evidence_resolution ::
    "(string \<Rightarrow> string) \<Rightarrow> string \<Rightarrow> string \<Rightarrow> trust_state \<Rightarrow> string option \<Rightarrow> string list \<Rightarrow> string
      \<Rightarrow> evidence_resolution result" where
  "build_evidence_resolution H subject predicate state v claim_ids policy_version =
     (let payload = \<lparr>rv_resolution_id = [], rv_subject = subject, rv_predicate = predicate, rv_state = state,
            rv_value = v, rv_claim_ids = sorted_set claim_ids, rv_policy_version = policy_version, rv_content_sha256 = []\<rparr>;
          digest = compute_resolution_sha256 H payload
      in validate_resolution H (payload\<lparr>rv_resolution_id := short_id ''evr_'' digest, rv_content_sha256 := digest\<rparr>))"

section \<open>The resolver\<close>

definition is_agent_claim :: "evidence_claim \<Rightarrow> bool" where
  "is_agent_claim c \<longleftrightarrow> ec_source c = AGENT \<or> ec_derivation c = DERIVED_AGENT_ASSERTED"

text \<open>The state and value the resolver settles on, for claims in the order of their ids.\<close>

definition settled :: "evidence_policy \<Rightarrow> int \<Rightarrow> evidence_claim list \<Rightarrow> trust_state \<times> string option" where
  "settled policy now ordered =
     (let admissible = filter (trusts policy) ordered;
          observed = filter (\<lambda>c. \<not> not_yet_applicable c now) admissible;
          fresh = filter (\<lambda>c. \<not> claim_stale c now) observed;
          values = sorted_set (map ec_value fresh)
      in if ordered = [] then (UNKNOWN, None)
         else if admissible = [] then (if list_all is_agent_claim ordered then AGENT_ASSERTED else UNKNOWN, None)
         else if fresh = [] then (if observed \<noteq> [] then STALE else UNKNOWN, None)
         else if list_ex (\<lambda>c. \<not> ec_complete c) fresh then (INCOMPLETE, None)
         else if length values \<noteq> 1 then (CONTESTED, None)
         else (TRUSTED, Some (hd values)))"

definition resolve_evidence ::
    "(string \<Rightarrow> string) \<Rightarrow> string \<Rightarrow> string \<Rightarrow> evidence_claim list \<Rightarrow> evidence_policy \<Rightarrow> int \<Rightarrow> evidence_resolution result" where
  "resolve_evidence H subject predicate claims policy now =
     (let ordered = sort_key ec_claim_id claims in
      if list_ex (\<lambda>c. ec_subject c \<noteq> subject \<or> ec_predicate c \<noteq> predicate) ordered
      then Inl (EvidenceResolutionError ''resolver received claims for a different subject/predicate'')
      else case settled policy now ordered of (state, v) \<Rightarrow>
        build_evidence_resolution H subject predicate state v (map ec_claim_id ordered) (ep_version policy))"

definition require_trusted :: "evidence_resolution \<Rightarrow> string result" where
  "require_trusted r = (case (rv_state r = TRUSTED, rv_value r) of
       (True, Some v) \<Rightarrow> Inr v
     | _ \<Rightarrow> Inl (EvidenceResolutionError ''evidence is not authorizable''))"

section \<open>The trust policies of the program\<close>

definition default_evidence_policy :: "evidence_policy result" where
  "default_evidence_policy = validate_evidence_policy \<lparr>ep_version = ''0.1.0'', ep_trusted_rules = sort_key rule_key
     [\<lparr>er_source = DATAHUB_MCP, er_derivation = RUNTIME_OBSERVED\<rparr>,
      \<lparr>er_source = HUMAN_GOVERNANCE, er_derivation = HUMAN_ASSERTED\<rparr>,
      \<lparr>er_source = SQL_ANALYZER, er_derivation = SQL_DERIVED\<rparr>,
      \<lparr>er_source = STATIC_MANIFEST, er_derivation = EXPLICIT_MAPPING\<rparr>,
      \<lparr>er_source = WAREHOUSE_RUNTIME, er_derivation = RUNTIME_OBSERVED\<rparr>]\<rparr>"

definition datahub_governance_evidence_policy :: "evidence_policy result" where
  "datahub_governance_evidence_policy = validate_evidence_policy \<lparr>ep_version = ''datahub-governance-v1'',
     ep_trusted_rules = sort_key rule_key
       [\<lparr>er_source = DATAHUB_MCP, er_derivation = EXPLICIT_MAPPING\<rparr>,
        \<lparr>er_source = DATAHUB_MCP, er_derivation = RUNTIME_OBSERVED\<rparr>]\<rparr>"

section \<open>What can become trusted\<close>

lemma source_value_inj: "source_value a = source_value b \<longleftrightarrow> a = b"
  by (cases a; cases b) simp_all

lemma derivation_value_inj: "derivation_value a = derivation_value b \<longleftrightarrow> a = b"
  by (cases a; cases b) simp_all

lemma trusts_rule:
  "trusts p c \<longleftrightarrow> \<lparr>er_source = ec_source c, er_derivation = ec_derivation c\<rparr> \<in> set (ep_trusted_rules p)"
proof -
  have colon: "CHR '':'' \<notin> set (source_value s)" for s by (cases s) simp_all
  have "rule_key r = source_value s @ '':'' @ derivation_value d \<longleftrightarrow> r = \<lparr>er_source = s, er_derivation = d\<rparr>" for r s d
    using separator_inj [OF colon colon, of "er_source r" "derivation_value (er_derivation r)" s "derivation_value d"]
    by (cases r) (auto simp: rule_key_def source_value_inj derivation_value_inj)
  then show ?thesis by (auto simp: trusts_def list_ex_iff)
qed

end
