(* ===== verification/Evidence_Theorems.thy ===== *)
theory Evidence_Theorems
  imports Evidence
begin

text \<open>
  What the evidence resolver promises: a value is trusted exactly when the admissible, applicable,
  fresh and complete evidence agrees on it, whatever order the claims come in, and what an agent or
  a fuzzy inference asserts never matters.
\<close>

definition live_claims :: "evidence_policy \<Rightarrow> int \<Rightarrow> evidence_claim list \<Rightarrow> evidence_claim set" where
  "live_claims policy now claims =
     {c \<in> set claims. trusts policy c \<and> \<not> not_yet_applicable c now \<and> \<not> claim_stale c now}"

lemma sorted_set_single: "length (sorted_set xs) = 1 \<longleftrightarrow> (\<exists>x. set xs = {x})"
proof
  assume "length (sorted_set xs) = 1"
  then obtain x where "sorted_set xs = [x]" by (auto simp: length_Suc_conv)
  then have "set xs = {x}" using set_sorted_set [of xs] by simp
  then show "\<exists>x. set xs = {x}" ..
next
  assume "\<exists>x. set xs = {x}"
  then obtain x where "set xs = {x}" ..
  then have "sorted_set xs = [x]" by (intro sorted_set_unique) simp_all
  then show "length (sorted_set xs) = 1" by simp
qed

lemma sorted_set_hd: "set xs = {x} \<Longrightarrow> hd (sorted_set xs) = x"
  using sorted_set_unique [of "[x]" xs] by simp

lemma map_single: "xs \<noteq> [] \<Longrightarrow> set (map f xs) = {x} \<longleftrightarrow> (\<forall>c \<in> set xs. f c = x)"
  by (cases xs) auto

lemma settled_trusted: "settled policy now ordered = (state, v) \<Longrightarrow> state = TRUSTED \<longleftrightarrow> v \<noteq> None"
  by (auto simp: settled_def Let_def split: if_splits)

text \<open>The settled state in terms of the sets of claims.\<close>

lemma settled_live:
  assumes "settled policy now ordered = (state, v)"
  shows "state = TRUSTED \<longleftrightarrow> (\<exists>x. live_claims policy now ordered \<noteq> {}
      \<and> (\<forall>c \<in> live_claims policy now ordered. ec_complete c \<and> ec_value c = x))"
    and "v = Some x \<longleftrightarrow> live_claims policy now ordered \<noteq> {}
      \<and> (\<forall>c \<in> live_claims policy now ordered. ec_complete c \<and> ec_value c = x)"
proof -
  let ?fresh = "filter (\<lambda>c. \<not> claim_stale c now) (filter (\<lambda>c. \<not> not_yet_applicable c now) (filter (trusts policy) ordered))"
  have live: "live_claims policy now ordered = set ?fresh" by (auto simp: live_claims_def)
  show "v = Some x \<longleftrightarrow> live_claims policy now ordered \<noteq> {}
      \<and> (\<forall>c \<in> live_claims policy now ordered. ec_complete c \<and> ec_value c = x)" for x
  proof (cases "?fresh = [] \<or> list_ex (\<lambda>c. \<not> ec_complete c) ?fresh")
    case True
    then show ?thesis using assms unfolding live
      by (auto simp: settled_def Let_def list_ex_iff filter_empty_conv split: if_splits)
  next
    case False
    then have fresh: "?fresh \<noteq> []" "\<forall>c \<in> set ?fresh. ec_complete c" by (auto simp: list_ex_iff)
    have nonempty: "ordered \<noteq> []" "filter (trusts policy) ordered \<noteq> []" using fresh(1) by (auto simp: filter_empty_conv)
    have s: "settled policy now ordered = (if length (sorted_set (map ec_value ?fresh)) \<noteq> 1 then (CONTESTED, None)
        else (TRUSTED, Some (hd (sorted_set (map ec_value ?fresh)))))"
      using False nonempty by (simp add: settled_def Let_def)
    have "v = Some x \<longleftrightarrow> set (map ec_value ?fresh) = {x}"
    proof (cases "\<exists>y. set (map ec_value ?fresh) = {y}")
      case True
      then obtain y where y: "set (map ec_value ?fresh) = {y}" by blast
      then show ?thesis using assms s sorted_set_single [of "map ec_value ?fresh"] sorted_set_hd [OF y] by auto
    next
      case False
      then show ?thesis using assms s sorted_set_single [of "map ec_value ?fresh"] by auto
    qed
    also have "\<dots> \<longleftrightarrow> (\<forall>c \<in> set ?fresh. ec_value c = x)"
      by (rule map_single [OF fresh(1)])
    also have "\<dots> \<longleftrightarrow> live_claims policy now ordered \<noteq> {} \<and> (\<forall>c \<in> live_claims policy now ordered. ec_complete c \<and> ec_value c = x)"
      unfolding live set_empty using fresh by blast
    finally show ?thesis .
  qed
  then have "(\<exists>x. v = Some x) \<longleftrightarrow> (\<exists>x. live_claims policy now ordered \<noteq> {}
      \<and> (\<forall>c \<in> live_claims policy now ordered. ec_complete c \<and> ec_value c = x))" by simp
  moreover have "state = TRUSTED \<longleftrightarrow> (\<exists>x. v = Some x)" using settled_trusted [OF assms] by simp
  ultimately show "state = TRUSTED \<longleftrightarrow> (\<exists>x. live_claims policy now ordered \<noteq> {}
      \<and> (\<forall>c \<in> live_claims policy now ordered. ec_complete c \<and> ec_value c = x))" by simp
qed

lemma build_evidence_resolution_Inr:
  assumes "build_evidence_resolution H subject predicate state v ids version = Inr r"
  shows "rv_state r = state \<and> rv_value r = v \<and> rv_claim_ids r = sorted_set ids
     \<and> (state = TRUSTED \<longleftrightarrow> v \<noteq> None) \<and> validate_resolution H r = Inr r"
  using assms by (auto simp: build_evidence_resolution_def Let_def validate_resolution_def resolution_checks_def)

lemma resolve_evidence_Inr:
  assumes "resolve_evidence H subject predicate claims policy now = Inr r"
  shows "settled policy now (sort_key ec_claim_id claims) = (rv_state r, rv_value r)
     \<and> (\<forall>c \<in> set claims. ec_subject c = subject \<and> ec_predicate c = predicate)"
proof -
  obtain state v where s: "settled policy now (sort_key ec_claim_id claims) = (state, v)" by fastforce
  from assms have scope: "\<forall>c \<in> set claims. ec_subject c = subject \<and> ec_predicate c = predicate"
    and built: "build_evidence_resolution H subject predicate state v (map ec_claim_id (sort_key ec_claim_id claims)) (ep_version policy) = Inr r"
    by (auto simp: resolve_evidence_def Let_def s list_ex_iff split: if_splits)
  from build_evidence_resolution_Inr [OF built] s scope show ?thesis by simp
qed

lemma live_claims_sort [simp]: "live_claims policy now (sort_key f claims) = live_claims policy now claims"
  by (simp add: live_claims_def)

text \<open>C30: trusted_exact. A resolution lets a value be used exactly when some claim about the fact is live, that is
  admitted by the policy, observed and effective by now, neither expired nor superseded, and every
  live claim is complete and asserts that value. Everything else, an empty set of claims, stale,
  incomplete or contradicting evidence, fails closed without exposing a value.\<close>

theorem trusted_exact:
  assumes "resolve_evidence H subject predicate claims policy now = Inr r"
  shows "(require_trusted r = Inr v \<longleftrightarrow> live_claims policy now claims \<noteq> {}
        \<and> (\<forall>c \<in> live_claims policy now claims. ec_complete c \<and> ec_value c = v))
     \<and> (rv_value r = Some v \<longleftrightarrow> require_trusted r = Inr v)"
proof -
  note settled = conjunct1 [OF resolve_evidence_Inr [OF assms]]
  have "require_trusted r = Inr v \<longleftrightarrow> rv_value r = Some v"
    using settled_trusted [OF settled] by (auto simp: require_trusted_def split: option.splits)
  then show ?thesis using settled_live(2) [OF settled] by simp
qed

lemma agent_not_trusted:
  assumes "validate_evidence_policy policy = Inr policy" "is_agent_claim c \<or> ec_derivation c = FUZZY_INFERRED"
  shows "\<not> trusts policy c"
  using assms by (auto simp: trusts_rule validate_evidence_policy_def list_ex_iff unsafe_rule_def is_agent_claim_def)

text \<open>C31: agent_evidence_inert. Under a validated policy, adding any number of claims that an agent asserted or a
  fuzzy inference produced neither creates nor contests trusted authority: the same value is exposed
  with them as without them, and once some admissible claim exists the whole trust state is
  unchanged.\<close>

theorem agent_evidence_inert:
  assumes "validate_evidence_policy policy = Inr policy"
    and "resolve_evidence H subject predicate claims policy now = Inr r"
    and "resolve_evidence H subject predicate (claims @ asserted) policy now = Inr r'"
    and "\<forall>c \<in> set asserted. is_agent_claim c \<or> ec_derivation c = FUZZY_INFERRED"
  shows "require_trusted r' = require_trusted r \<and> rv_value r' = rv_value r
     \<and> ((\<exists>c \<in> set claims. trusts policy c) \<longrightarrow> rv_state r' = rv_state r)"
proof -
  have asserted: "\<not> trusts policy c" if "c \<in> set asserted" for c
    using agent_not_trusted [OF assms(1)] assms(4) that by blast
  then have "live_claims policy now (claims @ asserted) = live_claims policy now claims"
    by (auto simp: live_claims_def)
  then have same: "require_trusted r' = Inr v \<longleftrightarrow> require_trusted r = Inr v" "rv_value r' = Some v \<longleftrightarrow> rv_value r = Some v" for v
    using trusted_exact [OF assms(2), of v] trusted_exact [OF assms(3), of v] by auto
  have "require_trusted q = Inl (EvidenceResolutionError ''evidence is not authorizable'')" if "\<nexists>v. require_trusted q = Inr v" for q
    using that by (auto simp: require_trusted_def split: option.splits bool.splits)
  then have "require_trusted r' = require_trusted r" using same(1) by metis
  moreover have "rv_value r' = rv_value r" using same(2) by (metis not_Some_eq)
  moreover have "rv_state r' = rv_state r" if "\<exists>c \<in> set claims. trusts policy c"
  proof -
    have "filter (trusts policy) (claims @ asserted) = filter (trusts policy) claims"
      using asserted by (simp add: filter_empty_conv)
    then have "filter (trusts policy) (sort_key ec_claim_id (claims @ asserted)) = filter (trusts policy) (sort_key ec_claim_id claims)"
      by (simp add: filter_sort)
    moreover have "filter (trusts policy) (sort_key ec_claim_id claims) \<noteq> []" "sort_key ec_claim_id claims \<noteq> []"
      "sort_key ec_claim_id (claims @ asserted) \<noteq> []"
      using that by (auto simp: filter_empty_conv simp flip: set_empty)
    ultimately have "settled policy now (sort_key ec_claim_id (claims @ asserted)) = settled policy now (sort_key ec_claim_id claims)"
      by (simp add: settled_def Let_def del: filter_filter)
    then show ?thesis using resolve_evidence_Inr [OF assms(2)] resolve_evidence_Inr [OF assms(3)] by simp
  qed
  ultimately show ?thesis by blast
qed

section \<open>Sample evidence\<close>

definition sample_rules :: evidence_policy where
  "sample_rules = projr datahub_governance_evidence_policy"

definition sample_claim :: "string \<Rightarrow> evidence_source \<Rightarrow> evidence_claim" where
  "sample_claim v source = projr (build_evidence_claim (\<lambda>_. zero_sha256) (\<lambda>_. ''t'')
     \<lparr>ec_claim_id = [], ec_subject = ''s'', ec_predicate = ''p'', ec_value = v, ec_source = source,
      ec_derivation = (if source = AGENT then DERIVED_AGENT_ASSERTED else RUNTIME_OBSERVED), ec_source_identity = ''i'',
      ec_observed_at = 0, ec_expires_at = Some 10, ec_effective_from = None, ec_effective_until = None, ec_complete = True,
      ec_supporting_claim_ids = [], ec_content_sha256 = []\<rparr>)"

definition sample_evidence :: "evidence_claim list \<Rightarrow> int \<Rightarrow> evidence_resolution result" where
  "sample_evidence claims now = resolve_evidence (\<lambda>_. zero_sha256) ''s'' ''p'' claims sample_rules now"

lemma sample_rules_valid: "validate_evidence_policy sample_rules = Inr sample_rules"
  by code_simp

lemma sample_trusted:
  "sample_evidence [sample_claim ''x'' DATAHUB_MCP] 5 = Inr (projr (sample_evidence [sample_claim ''x'' DATAHUB_MCP] 5))"
  "sample_evidence ([sample_claim ''x'' DATAHUB_MCP] @ [sample_claim ''y'' AGENT]) 5
     = Inr (projr (sample_evidence ([sample_claim ''x'' DATAHUB_MCP] @ [sample_claim ''y'' AGENT]) 5))"
  by code_simp+

lemma trusted_exact_witness:
  "\<exists>r. sample_evidence [sample_claim ''x'' DATAHUB_MCP] 5 = Inr r \<and> require_trusted r = Inr ''x''"
proof -
  have "live_claims sample_rules 5 [sample_claim ''x'' DATAHUB_MCP] = {sample_claim ''x'' DATAHUB_MCP}"
    "ec_complete (sample_claim ''x'' DATAHUB_MCP)" "ec_value (sample_claim ''x'' DATAHUB_MCP) = ''x''"
    unfolding live_claims_def by code_simp+
  with trusted_exact [OF sample_trusted(1) [unfolded sample_evidence_def], of "''x''"] sample_trusted(1) show ?thesis
    by (auto simp: sample_evidence_def)
qed

lemma agent_evidence_inert_witness:
  "\<exists>r r'. sample_evidence [sample_claim ''x'' DATAHUB_MCP] 5 = Inr r
     \<and> sample_evidence [sample_claim ''x'' DATAHUB_MCP, sample_claim ''y'' AGENT] 5 = Inr r'
     \<and> require_trusted r' = require_trusted r \<and> rv_state r' = rv_state r"
proof -
  have agent: "\<forall>c \<in> set [sample_claim ''y'' AGENT]. is_agent_claim c \<or> ec_derivation c = FUZZY_INFERRED" by code_simp
  have "trusts sample_rules (sample_claim ''x'' DATAHUB_MCP)" by code_simp
  with agent_evidence_inert [OF sample_rules_valid sample_trusted [unfolded sample_evidence_def] agent] sample_trusted
  show ?thesis by (auto simp: sample_evidence_def)
qed

end
