(* ===== verification/Floats.thy ===== *)
theory Floats
  imports Prelude
begin

text \<open>
  The double-precision sums of clock readings and durations in \<open>src/toxicjoin/execute\<close>. A double
  is an integer number of ticks of \<open>2^-82\<close> seconds, which is exact for every double of at least
  \<open>2^-30\<close> seconds, so for the wall clock, for every usable time to live and for the tolerance
  \<open>1e-9\<close>. A sum or a difference is the exact integer rounded to 53 significant bits, ties to even,
  as IEEE 754 has it.
\<close>

function bit_size :: "int \<Rightarrow> nat" where
  "bit_size n = (if n \<le> 0 then 0 else Suc (bit_size (n div 2)))"
  by auto
termination by (relation "measure nat") auto

declare bit_size.simps [simp del]

definition round53 :: "int \<Rightarrow> int" where
  "round53 x =
     (let n = \<bar>x\<bar>; unit = 2 ^ (bit_size n - 53); m = n div unit; r = n mod unit;
          up = (unit < 2 * r \<or> unit = 2 * r \<and> m mod 2 = 1)
      in sgn x * ((if up then m + 1 else m) * unit))"

definition float_add :: "int \<Rightarrow> int \<Rightarrow> int" where
  "float_add x y = round53 (x + y)"

definition float_sub :: "int \<Rightarrow> int \<Rightarrow> int" where
  "float_sub x y = round53 (x - y)"

definition one_second :: int where
  "one_second = 2 ^ 82"

text \<open>The double nearest to \<open>1e-9\<close>, \<open>0x1.12e0be826d695p-30\<close>.\<close>

definition one_nano :: int where
  "one_nano = 0x112e0be826d695"

lemma bit_size_bound: "n < 2 ^ k \<Longrightarrow> bit_size n \<le> k"
proof (induction k arbitrary: n)
  case 0
  then show ?case by (simp add: bit_size.simps)
next
  case (Suc k)
  then have "bit_size (n div 2) \<le> k" by (intro Suc.IH) simp
  then show ?case by (subst bit_size.simps) simp
qed

text \<open>Numbers of at most 53 bits are exact.\<close>

lemma round53_exact: "\<bar>x\<bar> < 2 ^ 53 \<Longrightarrow> round53 x = x"
proof -
  assume "\<bar>x\<bar> < 2 ^ 53"
  then have "bit_size \<bar>x\<bar> - 53 = 0" using bit_size_bound [of "\<bar>x\<bar>" 53] by simp
  then show ?thesis by (simp add: round53_def Let_def sgn_mult_abs)
qed

end
