(* ===== verification/Authorization.thy ===== *)
theory Authorization
  imports Semantics Secure_Ledger Policy_Oracle Floats
begin

text \<open>
  Execution capabilities, \<open>src/toxicjoin/execute/authorization.py\<close>: the authorization and its MAC,
  \<open>issue\<close>, which re-evaluates the exact query and claims its disclosure commitment, and
  \<open>verify_and_consume\<close>, which re-evaluates it once more and uses the capability up. SHA-256, the
  HMAC under the authorizer's secret key, the texts of instants and of floats, and the SQL analyzer
  are parameters. Clock readings are ticks of \<open>Floats\<close>.
\<close>

section \<open>Capabilities\<close>

record execution_authorization =
  xa_authorization_id :: string
  xa_issued_at :: int
  xa_expires_at :: int
  xa_dialect :: string
  xa_sql_sha256 :: string
  xa_query_plan_sha256 :: string
  xa_context_sha256 :: string
  xa_governance_binding :: "governance_snapshot option"
  xa_policy_sha256 :: string
  xa_policy_decision_sha256 :: string
  xa_task_purpose_sha256 :: string
  xa_request_identity_sha256 :: "string option"
  xa_subject_key :: column_ref
  xa_rewrite_parent_sha256 :: "string option"
  xa_disclosure_commitment :: "disclosure_commitment option"
  xa_mac_sha256 :: string

definition authorization_checks :: "execution_authorization \<Rightarrow> (bool \<times> error) list" where
  "authorization_checks a =
     [(\<not> has_prefix_hex ''tj_auth_'' 32 (xa_authorization_id a), ValidationError ''authorization_id pattern''),
      (xa_dialect a \<noteq> ''duckdb'', ValidationError ''dialect pattern''),
      (\<not> is_sha256 (xa_sql_sha256 a), ValidationError ''sql_sha256 pattern''),
      (\<not> is_sha256 (xa_query_plan_sha256 a), ValidationError ''query_plan_sha256 pattern''),
      (\<not> is_sha256 (xa_context_sha256 a), ValidationError ''context_sha256 pattern''),
      (\<not> is_sha256 (xa_policy_sha256 a), ValidationError ''policy_sha256 pattern''),
      (\<not> is_sha256 (xa_policy_decision_sha256 a), ValidationError ''policy_decision_sha256 pattern''),
      (\<not> is_sha256 (xa_task_purpose_sha256 a), ValidationError ''task_purpose_sha256 pattern''),
      (\<not> opt_all is_sha256 (xa_request_identity_sha256 a), ValidationError ''request_identity_sha256 pattern''),
      (\<not> opt_all is_sha256 (xa_rewrite_parent_sha256 a), ValidationError ''rewrite_parent_sha256 pattern''),
      (\<not> is_sha256 (xa_mac_sha256 a), ValidationError ''mac_sha256 pattern'')]"

definition validate_authorization :: "execution_authorization \<Rightarrow> execution_authorization result" where
  "validate_authorization a = raise_first (authorization_checks a) a"

text \<open>An authorizer; \<open>za_hmac\<close> is HMAC-SHA-256 under its secret key.\<close>

record authorizer =
  za_H :: "string \<Rightarrow> string"
  za_hmac :: "string \<Rightarrow> string"
  za_ts :: "int \<Rightarrow> string"
  za_float :: "int \<Rightarrow> string"
  za_analyze :: "string \<Rightarrow> string \<Rightarrow> query_plan result"
  za_ledger :: "ledger_env option"
  za_require_commitment :: bool
  za_ttl :: int

text \<open>The constructor; without a given key it draws one of 32 bytes.\<close>

definition build_authorizer :: "authorizer \<Rightarrow> string option \<Rightarrow> authorizer result" where
  "build_authorizer az secret_key = raise_first
     [(za_ttl az \<le> 0 \<or> za_ttl az > 60 * one_second,
         ValueError ''execution authorization ttl must be in (0, 60] seconds''),
      (za_require_commitment az \<and> za_ledger az = None,
         ValueError ''required disclosure commitment needs a disclosure ledger''),
      (\<not> opt_all (\<lambda>key. 32 \<le> length key) secret_key,
         ValueError ''execution authorization key must be at least 32 bytes'')] az"

text \<open>What the caller passes to both operations.\<close>

record auth_request =
  aq_sql :: string
  aq_task_purpose :: string
  aq_subject_key :: column_ref
  aq_privacy_proof :: bool
  aq_dialect :: string
  aq_rewrite_parent :: "string option"

text \<open>The outside of one call: the random token, the clock, the authenticated identity of the
  request, the engine's configuration, and the context resolver as it answers when the query is
  resolved, when the subject is probed and when the binding is read again.\<close>

record auth_io =
  ai_token :: string
  ai_now :: int
  ai_identity :: "request_identity option"
  ai_config :: policy_config
  ai_resolving :: context_resolver
  ai_probing :: context_resolver
  ai_revalidating :: context_resolver

abbreviation auth_error :: "string \<Rightarrow> error" where
  "auth_error \<equiv> ExecutionAuthorizationError"

fun on_error :: "(error \<Rightarrow> error) \<Rightarrow> 'a result \<Rightarrow> 'a result" where
  "on_error f (Inl e) = Inl (f e)"
| "on_error f (Inr x) = Inr x"

lemma on_error_Inr [simp]: "on_error f r = Inr x \<longleftrightarrow> r = Inr x"
  by (cases r) simp_all

section \<open>Hashes\<close>

definition context_item_json :: "column_context \<Rightarrow> json" where
  "context_item_json c = JObj
     [(''key'', JStr (ref_key (cc_ref c))), (''category'', JStr (category_value (cc_category c))),
      (''datahub_urn'', jopt JStr (cc_datahub_urn c)), (''tags'', jstrs (sort (cc_tags c))),
      (''glossary_terms'', jstrs (sort (cc_glossary_terms c))), (''resolved'', JBool (cc_resolved c))]"

definition normalized_context :: "context_resolution \<Rightarrow> json" where
  "normalized_context r = JObj
     [(''all_referenced_context'',
         JArr (map context_item_json (sort_key (\<lambda>c. ref_key (cc_ref c)) (rs_all_referenced_context r)))),
      (''projected_context_keys'', jstrs (sort (map (\<lambda>c. ref_key (cc_ref c)) (rs_projected_context r)))),
      (''failures'', jstrs (sort (map reason_value (rs_failures r))))]"

definition hash_context :: "(string \<Rightarrow> string) \<Rightarrow> context_resolution \<Rightarrow> string" where
  "hash_context H r = canonical_json_sha256 H (normalized_context r)"

definition hash_query_plan :: "(string \<Rightarrow> string) \<Rightarrow> query_plan \<Rightarrow> string" where
  "hash_query_plan H q = canonical_json_sha256 H (query_plan_json q)"

definition hash_identity :: "(string \<Rightarrow> string) \<Rightarrow> request_identity option \<Rightarrow> string option" where
  "hash_identity H i = map_option (\<lambda>i. canonical_json_sha256 H (identity_json i)) i"

definition commitment_json :: "disclosure_commitment \<Rightarrow> json" where
  "commitment_json c = JObj
     [(''record_id'', JStr (cm_record_id c)), (''receipt_id'', JStr (cm_receipt_id c)),
      (''scope_sha256'', JStr (cm_scope_sha256 c)), (''event_sha256'', JStr (cm_event_sha256 c)),
      (''content_sha256'', JStr (cm_content_sha256 c))]"

text \<open>The payload of the MAC: the whole capability with an empty \<open>mac_sha256\<close>.\<close>

definition mac_payload :: "authorizer \<Rightarrow> execution_authorization \<Rightarrow> json" where
  "mac_payload az a = JObj
     [(''authorization_id'', JStr (xa_authorization_id a)), (''issued_at'', JNum (za_float az (xa_issued_at a))),
      (''expires_at'', JNum (za_float az (xa_expires_at a))), (''dialect'', JStr (xa_dialect a)),
      (''sql_sha256'', JStr (xa_sql_sha256 a)), (''query_plan_sha256'', JStr (xa_query_plan_sha256 a)),
      (''context_sha256'', JStr (xa_context_sha256 a)),
      (''governance_binding'', jopt (binding_json (za_ts az)) (xa_governance_binding a)),
      (''policy_sha256'', JStr (xa_policy_sha256 a)),
      (''policy_decision_sha256'', JStr (xa_policy_decision_sha256 a)),
      (''task_purpose_sha256'', JStr (xa_task_purpose_sha256 a)),
      (''request_identity_sha256'', jopt JStr (xa_request_identity_sha256 a)),
      (''subject_key'', column_ref_json (xa_subject_key a)),
      (''rewrite_parent_sha256'', jopt JStr (xa_rewrite_parent_sha256 a)),
      (''disclosure_commitment'', jopt commitment_json (xa_disclosure_commitment a)), (''mac_sha256'', JStr [])]"

definition mac_of :: "authorizer \<Rightarrow> execution_authorization \<Rightarrow> string" where
  "mac_of az a = za_hmac az (json_dumps (mac_payload az a))"

section \<open>The steps both operations share\<close>

fun analysis_error :: "error \<Rightarrow> error" where
  "analysis_error (SqlAnalysisError _ _) = auth_error ''AUTH_SQL_ANALYSIS_FAILED''"
| "analysis_error e = e"

definition analyze_exact :: "authorizer \<Rightarrow> auth_request \<Rightarrow> query_plan result" where
  "analyze_exact az q = on_error analysis_error (za_analyze az (aq_sql q) (aq_dialect q))"

fun resolution_error :: "error \<Rightarrow> error" where
  "resolution_error (GovernanceContextStaleError _) = auth_error ''AUTH_CONTEXT_STALE''"
| "resolution_error (GovernanceContextDriftError _) = auth_error ''AUTH_CONTEXT_DRIFT''"
| "resolution_error e = auth_error ''AUTH_CONTEXT_RESOLUTION_FAILED''"

definition resolve_with_binding ::
    "auth_io \<Rightarrow> query_plan \<Rightarrow> (context_resolution \<times> governance_snapshot option) result" where
  "resolve_with_binding io plan =
     on_error resolution_error (resolve_with_governance_binding (ai_resolving io) plan)"

fun drift_error :: "error \<Rightarrow> error" where
  "drift_error (GovernanceContextDriftError _) = auth_error ''AUTH_CONTEXT_DRIFT''"
| "drift_error e = e"

definition require_expected_binding ::
    "governance_snapshot option \<Rightarrow> governance_snapshot option \<Rightarrow> unit result" where
  "require_expected_binding expected actual =
     on_error drift_error (require_same_governance_binding expected actual)"

definition revalidate_binding :: "auth_io \<Rightarrow> governance_snapshot option \<Rightarrow> unit result" where
  "revalidate_binding io expected = on_error resolution_error
     (bindr (current_governance_binding (ai_revalidating io)) (require_same_governance_binding expected))"

definition evaluate_request ::
    "auth_io \<Rightarrow> auth_request \<Rightarrow> query_plan \<Rightarrow> context_resolution \<Rightarrow> policy_decision result" where
  "evaluate_request io q plan resolution =
     bindr (to_policy_input resolution (aq_task_purpose q) plan (Some (aq_subject_key q)) None)
       (evaluate (ai_config io))"

definition require_allow :: "policy_decision \<Rightarrow> unit result" where
  "require_allow d = (if pd_decision d \<noteq> ALLOW \<or> pd_rewrite_required d
     then Inl (auth_error ''AUTH_POLICY_NOT_ALLOW'') else Inr ())"

definition commitment_error :: "error \<Rightarrow> error" where
  "commitment_error e = (if is_ledger_error e \<or> is_value_error e
     then auth_error ''AUTH_DISCLOSURE_COMMITMENT_INVALID'' else e)"

fun claim_error :: "error \<Rightarrow> error" where
  "claim_error (DisclosureCommitmentReplay _) = auth_error ''AUTH_DISCLOSURE_COMMITMENT_REPLAYED''"
| "claim_error e = commitment_error e"

definition verify_disclosure ::
    "authorizer \<Rightarrow> auth_io \<Rightarrow> secure_db \<Rightarrow> auth_request \<Rightarrow> disclosure_commitment option \<Rightarrow> query_plan
      \<Rightarrow> context_resolution \<Rightarrow> policy_decision \<Rightarrow> unit result" where
  "verify_disclosure az io db q commitment plan resolution d =
     (case commitment of
        None \<Rightarrow> (if za_require_commitment az
                 then Inl (auth_error ''AUTH_DISCLOSURE_COMMITMENT_REQUIRED'') else Inr ())
      | Some c \<Rightarrow> (case za_ledger az of
            None \<Rightarrow> Inl (auth_error ''AUTH_DISCLOSURE_LEDGER_UNAVAILABLE'')
          | Some env \<Rightarrow> (case ai_identity io of
                None \<Rightarrow> Inl (auth_error ''AUTH_DISCLOSURE_IDENTITY_REQUIRED'')
              | Some identity \<Rightarrow> on_error commitment_error
                  (bindr (build_disclosure_event_from_resolver (za_H az) identity (ai_probing io) resolution plan
                      (aq_subject_key q) (cm_receipt_id c) (pd_policy_version d)) (\<lambda>event.
                   bindr (verify_commitment env db c event (aq_sql q) (aq_dialect q)) (\<lambda>_. Inr ()))))))"

definition check_request :: "auth_request \<Rightarrow> unit result" where
  "check_request q = raise_first
     [(aq_dialect q \<noteq> ''duckdb'', auth_error ''AUTH_UNSUPPORTED_DIALECT''),
      (aq_privacy_proof q, auth_error ''AUTH_PRIVACY_PROOF_BINDING_REQUIRED'')] ()"

section \<open>Issuing\<close>

text \<open>Everything before the commitment is claimed.\<close>

definition issue_checks ::
    "authorizer \<Rightarrow> auth_io \<Rightarrow> secure_db \<Rightarrow> auth_request \<Rightarrow> disclosure_commitment option \<Rightarrow> governance_snapshot option
      \<Rightarrow> (query_plan \<times> context_resolution \<times> governance_snapshot option \<times> policy_decision) result" where
  "issue_checks az io db q commitment expected =
     bindr (check_request q) (\<lambda>_.
     bindr (if py_strip (aq_task_purpose q) = [] then Inl (auth_error ''AUTH_INVALID_TASK_PURPOSE'') else Inr ()) (\<lambda>_.
     bindr (analyze_exact az q) (\<lambda>plan.
     bindr (resolve_with_binding io plan) (\<lambda>(resolution, binding).
     bindr (require_expected_binding expected binding) (\<lambda>_.
     bindr (evaluate_request io q plan resolution) (\<lambda>d.
     bindr (require_allow d) (\<lambda>_.
     bindr (verify_disclosure az io db q commitment plan resolution d) (\<lambda>_.
     bindr (revalidate_binding io binding) (\<lambda>_.
       Inr (plan, resolution, binding, d))))))))))"

definition claim_for ::
    "authorizer \<Rightarrow> secure_db \<Rightarrow> disclosure_commitment option \<Rightarrow> string \<Rightarrow> unit result \<times> secure_db" where
  "claim_for az db commitment authorization_id =
     (case commitment of
        None \<Rightarrow> (Inr (), db)
      | Some c \<Rightarrow> (case za_ledger az of
            None \<Rightarrow> (Inl (AssertionError ''disclosure ledger is required''), db)
          | Some env \<Rightarrow> (case claim_commitment env db c authorization_id of
                (res, db') \<Rightarrow> (on_error claim_error res, db'))))"

definition unsigned_authorization ::
    "authorizer \<Rightarrow> auth_io \<Rightarrow> auth_request \<Rightarrow> disclosure_commitment option \<Rightarrow> query_plan \<Rightarrow> context_resolution
      \<Rightarrow> governance_snapshot option \<Rightarrow> policy_decision \<Rightarrow> execution_authorization" where
  "unsigned_authorization az io q commitment plan resolution binding d =
     \<lparr>xa_authorization_id = ''tj_auth_'' @ ai_token io, xa_issued_at = ai_now io,
      xa_expires_at = float_add (ai_now io) (za_ttl az), xa_dialect = aq_dialect q,
      xa_sql_sha256 = za_H az (aq_sql q), xa_query_plan_sha256 = hash_query_plan (za_H az) plan,
      xa_context_sha256 = hash_context (za_H az) resolution, xa_governance_binding = binding,
      xa_policy_sha256 = policy_config_sha256 (za_H az) (ai_config io),
      xa_policy_decision_sha256 = policy_decision_sha256 (za_H az) d,
      xa_task_purpose_sha256 = za_H az (aq_task_purpose q),
      xa_request_identity_sha256 = hash_identity (za_H az) (ai_identity io), xa_subject_key = aq_subject_key q,
      xa_rewrite_parent_sha256 = map_option (za_H az) (aq_rewrite_parent q),
      xa_disclosure_commitment = commitment, xa_mac_sha256 = zero_sha256\<rparr>"

definition issue ::
    "authorizer \<Rightarrow> auth_io \<Rightarrow> secure_db \<Rightarrow> auth_request \<Rightarrow> disclosure_commitment option \<Rightarrow> governance_snapshot option
      \<Rightarrow> execution_authorization result \<times> secure_db" where
  "issue az io db q commitment expected =
     (case issue_checks az io db q commitment expected of
        Inl e \<Rightarrow> (Inl e, db)
      | Inr (plan, resolution, binding, d) \<Rightarrow>
          (case claim_for az db commitment (''tj_auth_'' @ ai_token io) of
             (Inl e, db') \<Rightarrow> (Inl e, db')
           | (Inr _, db') \<Rightarrow>
               (bindr (validate_authorization (unsigned_authorization az io q commitment plan resolution binding d))
                  (\<lambda>unsigned. Inr (unsigned\<lparr>xa_mac_sha256 := mac_of az unsigned\<rparr>)), db')))"

section \<open>Verifying and consuming\<close>

definition capability_checks :: "authorizer \<Rightarrow> auth_io \<Rightarrow> execution_authorization \<Rightarrow> auth_request \<Rightarrow> (bool \<times> error) list" where
  "capability_checks az io a q =
     [(mac_of az a \<noteq> xa_mac_sha256 a, auth_error ''AUTH_INVALID_MAC''),
      (xa_issued_at a > float_add (ai_now io) one_second, auth_error ''AUTH_NOT_YET_VALID''),
      (ai_now io \<ge> xa_expires_at a, auth_error ''AUTH_EXPIRED''),
      (float_sub (xa_expires_at a) (xa_issued_at a) > float_add (za_ttl az) one_nano, auth_error ''AUTH_INVALID_TTL''),
      (xa_dialect a \<noteq> aq_dialect q, auth_error ''AUTH_DIALECT_MISMATCH''),
      (xa_subject_key a \<noteq> aq_subject_key q, auth_error ''AUTH_SUBJECT_MISMATCH''),
      (xa_request_identity_sha256 a \<noteq> hash_identity (za_H az) (ai_identity io), auth_error ''AUTH_IDENTITY_MISMATCH''),
      (xa_rewrite_parent_sha256 a \<noteq> map_option (za_H az) (aq_rewrite_parent q),
         auth_error ''AUTH_REWRITE_PARENT_MISMATCH''),
      (xa_task_purpose_sha256 a \<noteq> za_H az (aq_task_purpose q), auth_error ''AUTH_TASK_MISMATCH''),
      (xa_sql_sha256 a \<noteq> za_H az (aq_sql q), auth_error ''AUTH_SQL_MISMATCH'')]"

definition verify_claimed :: "authorizer \<Rightarrow> secure_db \<Rightarrow> execution_authorization \<Rightarrow> unit result" where
  "verify_claimed az db a =
     (case xa_disclosure_commitment a of
        None \<Rightarrow> Inr ()
      | Some c \<Rightarrow> (case za_ledger az of
            None \<Rightarrow> Inl (AssertionError ''disclosure ledger is required'')
          | Some env \<Rightarrow> on_error commitment_error (verify_authorization_claim env db c (xa_authorization_id a))))"

text \<open>Everything before the consume lock is taken.\<close>

definition verify_authorization ::
    "authorizer \<Rightarrow> auth_io \<Rightarrow> secure_db \<Rightarrow> execution_authorization \<Rightarrow> auth_request \<Rightarrow> query_plan result" where
  "verify_authorization az io db a q =
     bindr (check_request q) (\<lambda>_.
     bindr (raise_first (capability_checks az io a q) ()) (\<lambda>_.
     bindr (analyze_exact az q) (\<lambda>plan.
     bindr (if xa_query_plan_sha256 a \<noteq> hash_query_plan (za_H az) plan
            then Inl (auth_error ''AUTH_QUERY_PLAN_MISMATCH'') else Inr ()) (\<lambda>_.
     bindr (resolve_with_binding io plan) (\<lambda>(resolution, binding).
     bindr (require_expected_binding (xa_governance_binding a) binding) (\<lambda>_.
     bindr (raise_first
        [(xa_context_sha256 a \<noteq> hash_context (za_H az) resolution, auth_error ''AUTH_CONTEXT_MISMATCH''),
         (xa_policy_sha256 a \<noteq> policy_config_sha256 (za_H az) (ai_config io), auth_error ''AUTH_POLICY_MISMATCH'')] ()) (\<lambda>_.
     bindr (evaluate_request io q plan resolution) (\<lambda>d.
     bindr (require_allow d) (\<lambda>_.
     bindr (if xa_policy_decision_sha256 a \<noteq> policy_decision_sha256 (za_H az) d
            then Inl (auth_error ''AUTH_DECISION_MISMATCH'') else Inr ()) (\<lambda>_.
     bindr (verify_disclosure az io db q (xa_disclosure_commitment a) plan resolution d) (\<lambda>_.
     bindr (revalidate_binding io (xa_governance_binding a)) (\<lambda>_.
     bindr (verify_claimed az db a) (\<lambda>_.
       Inr plan)))))))))))))"

text \<open>The section under the lock, with the clock reading the verification began with. The
  dictionary of used capabilities is pruned first.\<close>

definition consume ::
    "execution_authorization \<Rightarrow> int \<Rightarrow> (string \<times> int) list \<Rightarrow> unit result \<times> (string \<times> int) list" where
  "consume a now consumed =
     (let live = filter (\<lambda>(_, expiry). expiry > now) consumed in
      if xa_authorization_id a \<in> fst ` set live then (Inl (auth_error ''AUTH_REPLAYED''), live)
      else (Inr (), AList.update (xa_authorization_id a) (xa_expires_at a) live))"

definition verify_and_consume ::
    "authorizer \<Rightarrow> auth_io \<Rightarrow> secure_db \<Rightarrow> (string \<times> int) list \<Rightarrow> execution_authorization \<Rightarrow> auth_request
      \<Rightarrow> query_plan result \<times> (string \<times> int) list" where
  "verify_and_consume az io db consumed a q =
     (case verify_authorization az io db a q of
        Inl e \<Rightarrow> (Inl e, consumed)
      | Inr plan \<Rightarrow> (case consume a (ai_now io) consumed of
            (Inl e, consumed') \<Rightarrow> (Inl e, consumed')
          | (Inr _, consumed') \<Rightarrow> (Inr plan, consumed')))"

end
