(* ===== verification/Execution.thy ===== *)
theory Execution
  imports Authorization
begin

text \<open>
  The executor, \<open>src/toxicjoin/execute/duckdb_executor.py\<close>, and its output budgets, \<open>limits.py\<close>: the
  authority it is bound to, capabilities issued and consumed through it, and the bounded preview of
  the rows. DuckDB is a parameter: for a query text it gives the column names and the rows, or the
  text of a failure, a timeout among them. Sizes are those of the UTF-8 encoding of the unescaped JSON text, as the
  code counts them. Timing is left out. Privacy proofs are rejected, as the
  authorizer of \<open>Authorization\<close> is not the proof-bound one.
\<close>

section \<open>Budgets\<close>

record output_limits =
  ol_max_cell_bytes :: int
  ol_max_result_bytes :: int

definition validate_output_limits :: "output_limits \<Rightarrow> output_limits result" where
  "validate_output_limits l = raise_first
     [(ol_max_cell_bytes l < 1024 \<or> 1048576 < ol_max_cell_bytes l, ValidationError ''max_cell_bytes range''),
      (ol_max_result_bytes l < 4096 \<or> 4194304 < ol_max_result_bytes l, ValidationError ''max_result_bytes range''),
      (ol_max_result_bytes l < ol_max_cell_bytes l, ValidationError ''max_cell_bytes cannot exceed max_result_bytes'')] l"

section \<open>Cells\<close>

text \<open>A value that DuckDB returns. A float is given by its text; \<open>Cell_shown\<close> is a decimal, a date, a time, a UUID
  or any other object with the text it is shown as. The keys of a dictionary are given as text.\<close>

datatype cell =
    Cell_none
  | Cell_bool bool
  | Cell_int int
  | Cell_float string
  | Cell_text string
  | Cell_shown string
  | Cell_bytes "nat list"
  | Cell_list "cell list"
  | Cell_dict "(string \<times> cell) list"

definition hex_text :: "nat list \<Rightarrow> string" where
  "hex_text bytes = concat (map (\<lambda>b. [hex_digit (b div 16), hex_digit b]) bytes)"

text \<open>\<open>_json_safe\<close>; the limit on nesting is 32 levels.\<close>

definition nesting_error :: error where
  "nesting_error = ValueError ''cell nesting limit exceeded''"

fun json_safe :: "nat \<Rightarrow> cell \<Rightarrow> json result"
  and json_safe_list :: "nat \<Rightarrow> cell list \<Rightarrow> json list result"
  and json_safe_dict :: "nat \<Rightarrow> (string \<times> cell) list \<Rightarrow> (string \<times> json) list result" where
  "json_safe depth Cell_none = (if depth > 32 then Inl nesting_error else Inr JNull)"
| "json_safe depth (Cell_bool b) = (if depth > 32 then Inl nesting_error else Inr (JBool b))"
| "json_safe depth (Cell_int i) = (if depth > 32 then Inl nesting_error else Inr (JInt i))"
| "json_safe depth (Cell_float t) = (if depth > 32 then Inl nesting_error else Inr (JNum t))"
| "json_safe depth (Cell_text s) = (if depth > 32 then Inl nesting_error else Inr (JStr s))"
| "json_safe depth (Cell_shown s) = (if depth > 32 then Inl nesting_error else Inr (JStr s))"
| "json_safe depth (Cell_bytes bs) = (if depth > 32 then Inl nesting_error else Inr (JStr (hex_text bs)))"
| "json_safe depth (Cell_list cs) = (if depth > 32 then Inl nesting_error
     else bindr (json_safe_list (Suc depth) cs) (\<lambda>js. Inr (JArr js)))"
| "json_safe depth (Cell_dict kcs) = (if depth > 32 then Inl nesting_error
     else bindr (json_safe_dict (Suc depth) kcs) (\<lambda>kjs. Inr (JObj (fold (\<lambda>(k, j). AList.update k j) kjs []))))"
| "json_safe_list depth [] = Inr []"
| "json_safe_list depth (c # cs) = bindr (json_safe depth c) (\<lambda>j. bindr (json_safe_list depth cs) (\<lambda>js. Inr (j # js)))"
| "json_safe_dict depth [] = Inr []"
| "json_safe_dict depth ((k, c) # kcs) =
     bindr (json_safe depth c) (\<lambda>j. bindr (json_safe_dict depth kcs) (\<lambda>kjs. Inr ((k, j) # kjs)))"

text \<open>\<open>_serialized_json_bytes\<close>: the text of \<open>json.dumps\<close> with \<open>ensure_ascii=False\<close> has no escapes but those of the
  quote, the backslash and the control characters below 32. Its size is that of its UTF-8 encoding: a
  character, a code point below 256, takes one byte below 128 and two bytes from there.\<close>

definition raw_escape :: "char \<Rightarrow> string" where
  "raw_escape c =
     (if (of_char c :: nat) < 32 \<or> c = CHR 0x22 \<or> c = CHR 0x5C then json_escape c else [c])"

lemma raw_escape_code [code]:
  "raw_escape (Char b0 b1 b2 b3 b4 b5 b6 b7) =
     (if (b5 \<or> b6 \<or> b7)
         \<and> \<not> (\<not> b0 \<and> b1 \<and> \<not> b2 \<and> \<not> b3 \<and> \<not> b4 \<and> b5 \<and> \<not> b6 \<and> \<not> b7)
         \<and> \<not> (\<not> b0 \<and> \<not> b1 \<and> b2 \<and> b3 \<and> b4 \<and> \<not> b5 \<and> b6 \<and> \<not> b7)
      then [Char b0 b1 b2 b3 b4 b5 b6 b7] else json_escape (Char b0 b1 b2 b3 b4 b5 b6 b7))"
  by (cases b0; cases b1; cases b2; cases b3; cases b4; cases b5; cases b6; cases b7)
    (simp_all add: raw_escape_def)

definition raw_quote :: "string \<Rightarrow> string" where
  "raw_quote s = CHR 0x22 # concat (map raw_escape s) @ [CHR 0x22]"

fun json_dumps_raw :: "json \<Rightarrow> string" where
  "json_dumps_raw JNull = ''null''"
| "json_dumps_raw (JBool b) = (if b then ''true'' else ''false'')"
| "json_dumps_raw (JInt i) = int_text i"
| "json_dumps_raw (JNum t) = t"
| "json_dumps_raw (JStr s) = raw_quote s"
| "json_dumps_raw (JArr xs) = ''['' @ str_join '','' (map json_dumps_raw xs) @ '']''"
| "json_dumps_raw (JObj kvs) =
     ''{'' @ str_join '','' (map (\<lambda>(k, t). raw_quote k @ '':'' @ t)
        (sort_key fst (map (\<lambda>(k, v). (k, json_dumps_raw v)) kvs))) @ ''}''"

definition char_bytes :: "char \<Rightarrow> int" where
  "char_bytes c = (if (of_char c :: nat) < 128 then 1 else 2)"

lemma char_bytes_code [code]: "char_bytes (Char b0 b1 b2 b3 b4 b5 b6 b7) = (if b7 then 2 else 1)"
  by (cases b0; cases b1; cases b2; cases b3; cases b4; cases b5; cases b6; cases b7)
    (simp_all add: char_bytes_def)

definition utf8_bytes :: "string \<Rightarrow> int" where
  "utf8_bytes s = sum_list (map char_bytes s)"

definition serialized_bytes :: "json \<Rightarrow> int" where
  "serialized_bytes j = utf8_bytes (json_dumps_raw j)"

lemma utf8_bytes_bounds: "int (length s) \<le> utf8_bytes s \<and> utf8_bytes s \<le> 2 * int (length s)"
  by (induction s) (auto simp: utf8_bytes_def char_bytes_def)

lemma serialized_bytes_samples:
  "serialized_bytes (JStr [CHR 0x7F]) = 3" "serialized_bytes (JStr [CHR 0xE9]) = 4"
  "serialized_bytes (JStr [CHR 0x22]) = 4" "serialized_bytes (JStr [CHR 0x1F]) = 8"
  by code_simp+

definition cell_size_error :: "output_limits \<Rightarrow> error" where
  "cell_size_error l = ExecutionError RESULT_SIZE_LIMIT
     (''serialized cell exceeds '' @ int_text (ol_max_cell_bytes l) @ '' byte budget'')"

definition normalize_cell :: "output_limits \<Rightarrow> cell \<Rightarrow> json result" where
  "normalize_cell l c =
     (if (case c of Cell_text s \<Rightarrow> utf8_bytes s > ol_max_cell_bytes l
            | Cell_bytes bs \<Rightarrow> int (length bs) * 2 + 2 > ol_max_cell_bytes l | _ \<Rightarrow> False)
      then Inl (cell_size_error l)
      else case json_safe 0 c of
          Inl _ \<Rightarrow> Inl (ExecutionError RESULT_SIZE_LIMIT ''serialized cell nesting exceeds 32 levels'')
        | Inr j \<Rightarrow> if serialized_bytes j > ol_max_cell_bytes l then Inl (cell_size_error l) else Inr j)"

definition payload_json :: "string list \<Rightarrow> json list list \<Rightarrow> json" where
  "payload_json columns rows = JObj [(''columns'', jstrs columns), (''rows'', JArr (map JArr rows))]"

fun normalize_rows ::
    "output_limits \<Rightarrow> string list \<Rightarrow> cell list list \<Rightarrow> json list list \<Rightarrow> json list list result" where
  "normalize_rows l columns [] done_rows = Inr done_rows"
| "normalize_rows l columns (row # rows) done_rows =
     bindr (mapr (normalize_cell l) row) (\<lambda>normalized.
       if serialized_bytes (payload_json columns (done_rows @ [normalized])) > ol_max_result_bytes l
       then Inl (ExecutionError RESULT_SIZE_LIMIT
              (''serialized execution payload exceeds '' @ int_text (ol_max_result_bytes l) @ '' byte budget''))
       else normalize_rows l columns rows (done_rows @ [normalized]))"

section \<open>The executor\<close>

text \<open>The objects an authorizer was built over, by identity: the authorizer itself, the resolver, the engine and
  the ledger, and whether a commitment is required.\<close>

record authority =
  ty_authorizer :: nat
  ty_resolver :: nat
  ty_engine :: nat
  ty_ledger :: "nat option"
  ty_require :: bool

record executor =
  ex_authorizer :: "(authorizer \<times> authority) option"
  ex_max_preview_rows :: nat
  ex_limits :: output_limits

text \<open>The constructor, without the authorizer that is bound later; the timeout is in microseconds.\<close>

definition build_executor :: "nat \<Rightarrow> int \<Rightarrow> output_limits \<Rightarrow> executor result" where
  "build_executor max_preview_rows timeout limits = raise_first
     [(max_preview_rows < 1, ValueError ''max_preview_rows must be at least 1''),
      (timeout \<le> 0, ValueError ''timeout_seconds must be positive'')]
     \<lparr>ex_authorizer = None, ex_max_preview_rows = max_preview_rows, ex_limits = limits\<rparr>"

definition bind_authorizer :: "executor \<Rightarrow> authorizer \<times> authority \<Rightarrow> executor result" where
  "bind_authorizer ex new =
     (case ex_authorizer ex of
        Some (_, old) \<Rightarrow> if ty_authorizer old \<noteq> ty_authorizer (snd new)
          then Inl (ValueError ''executor is already bound to a different execution authorizer'')
          else Inr (ex\<lparr>ex_authorizer := Some new\<rparr>)
      | None \<Rightarrow> Inr (ex\<lparr>ex_authorizer := Some new\<rparr>))"

definition bind_authority :: "executor \<Rightarrow> nat \<Rightarrow> nat \<Rightarrow> nat option \<Rightarrow> bool \<Rightarrow> unit result" where
  "bind_authority ex resolver engine ledger required =
     (case ex_authorizer ex of
        None \<Rightarrow> Inl (ValueError ''executor has no execution authorizer bound'')
      | Some (_, ty) \<Rightarrow>
          if ty_resolver ty \<noteq> resolver \<or> ty_engine ty \<noteq> engine \<or> ty_ledger ty \<noteq> ledger \<or> ty_require ty \<noteq> required
          then Inl (ValueError ''executor authority does not match verifier authority'') else Inr ())"

definition authorization_failure_reason :: "string \<Rightarrow> reason_code" where
  "authorization_failure_reason code =
     (if take 16 code = ''AUTH_DISCLOSURE_'' then DISCLOSURE_STATE_UNAVAILABLE
      else if code = ''AUTH_CONTEXT_STALE'' then DATAHUB_CONTEXT_STALE
      else if code = ''AUTH_CONTEXT_DRIFT'' then DATAHUB_CONTEXT_DRIFT
      else if code = ''AUTH_CONTEXT_RESOLUTION_FAILED'' then DATAHUB_UNAVAILABLE
      else VERIFICATION_FAILED)"

fun authorization_failure :: "string \<Rightarrow> error \<Rightarrow> error" where
  "authorization_failure what (ExecutionAuthorizationError code) =
     ExecutionError (authorization_failure_reason code) (what @ code)"
| "authorization_failure what e = e"

definition require_authorizer :: "executor \<Rightarrow> auth_request \<Rightarrow> string \<Rightarrow> authorizer result" where
  "require_authorizer ex q what =
     (case ex_authorizer ex of
        None \<Rightarrow> Inl (ExecutionError VERIFICATION_FAILED ''executor has no execution authorizer bound'')
      | Some (az, _) \<Rightarrow> if aq_privacy_proof q
          then Inl (ExecutionError VERIFICATION_FAILED (what @ ''AUTH_PRIVACY_PROOF_BINDING_REQUIRED'')) else Inr az)"

definition issue_authorization ::
    "executor \<Rightarrow> auth_io \<Rightarrow> secure_db \<Rightarrow> auth_request \<Rightarrow> disclosure_commitment option \<Rightarrow> governance_snapshot option
      \<Rightarrow> execution_authorization result \<times> secure_db" where
  "issue_authorization ex io db q commitment expected =
     (case require_authorizer ex q ''execution authorization issuance rejected: '' of
        Inl e \<Rightarrow> (Inl e, db)
      | Inr az \<Rightarrow> (case issue az io db q commitment expected of
            (res, db') \<Rightarrow> (on_error (authorization_failure ''execution authorization issuance rejected: '') res, db')))"

record execution_result =
  xr_authorization_id :: string
  xr_query_sha256 :: string
  xr_query_plan :: query_plan
  xr_columns :: "string list"
  xr_rows :: "json list list"
  xr_preview_row_count :: nat
  xr_truncated :: bool

definition validate_execution_result :: "execution_result \<Rightarrow> execution_result result" where
  "validate_execution_result x = raise_first
     [(\<not> has_prefix_hex ''tj_auth_'' 32 (xr_authorization_id x), ValidationError ''authorization_id pattern''),
      (\<not> is_sha256 (xr_query_sha256 x), ValidationError ''query_sha256 pattern'')] x"

text \<open>The warehouse: whether its file exists, and what it answers to a query text.\<close>

record warehouse =
  wh_present :: bool
  wh_run :: "string \<Rightarrow> string + (string list \<times> cell list list)"

definition run_query :: "executor \<Rightarrow> warehouse \<Rightarrow> authorizer \<Rightarrow> execution_authorization \<Rightarrow> string \<Rightarrow> query_plan \<Rightarrow> execution_result result" where
  "run_query ex wh az a sql plan =
     (if qp_contains_wildcard plan
      then Inl (ExecutionError UNRESOLVED_COLUMN ''wildcard output must be expanded and governed before execution'')
      else case wh_run wh sql of
          Inl text \<Rightarrow> Inl (ExecutionError VERIFICATION_FAILED text)
        | Inr (columns, rows) \<Rightarrow>
            (let fetched = take (Suc (ex_max_preview_rows ex)) rows in
             bindr (normalize_rows (ex_limits ex) columns (take (ex_max_preview_rows ex) fetched) []) (\<lambda>normalized.
               validate_execution_result
                 \<lparr>xr_authorization_id = xa_authorization_id a, xr_query_sha256 = za_H az sql, xr_query_plan = plan,
                  xr_columns = columns, xr_rows = normalized, xr_preview_row_count = length normalized,
                  xr_truncated = (length fetched > ex_max_preview_rows ex)\<rparr>)))"

definition execute_authorized ::
    "executor \<Rightarrow> warehouse \<Rightarrow> auth_io \<Rightarrow> secure_db \<Rightarrow> (string \<times> int) list \<Rightarrow> execution_authorization \<Rightarrow> auth_request
      \<Rightarrow> execution_result result \<times> (string \<times> int) list" where
  "execute_authorized ex wh io db consumed a q =
     (if \<not> wh_present wh then (Inl (ExecutionError VERIFICATION_FAILED ''database file does not exist''), consumed)
      else case require_authorizer ex q ''execution authorization rejected: '' of
          Inl e \<Rightarrow> (Inl e, consumed)
        | Inr az \<Rightarrow> (case verify_and_consume az io db consumed a q of
              (Inl e, consumed') \<Rightarrow> (Inl (authorization_failure ''execution authorization rejected: '' e), consumed')
            | (Inr plan, consumed') \<Rightarrow> (run_query ex wh az a (aq_sql q) plan, consumed')))"

end
