(* ===== verification/Verification.thy ===== *)
theory Verification
  imports Execution
begin

text \<open>
  Verification and release, \<open>src/toxicjoin/verify\<close>: the core verifier of \<open>engine.py\<close>, which checks the exact
  query, reserves its disclosure, has a capability issued and consumed and inspects the rows before
  they are released, and the wrapper of \<open>governance.py\<close>, which pins one governance snapshot for the
  whole run and finalises the reservation. Each call to the resolver may see another state of it:
  the outside of a run holds the resolver once per call site. The text of an exception that a
  check's detail would show is shortened.
\<close>

section \<open>Checks and results\<close>

record verification_check =
  vk_name :: string
  vk_passed :: bool
  vk_detail :: string

record verification_result =
  vr_passed :: bool
  vr_query_plan :: "query_plan option"
  vr_policy_decision :: "policy_decision option"
  vr_checks :: "verification_check list"
  vr_execution :: "execution_result option"
  vr_execution_attempted :: bool
  vr_execution_quarantined :: bool
  vr_execution_error :: "string option"
  vr_failure_reason_codes :: "reason_code list"

definition verification_result_checks :: "verification_result \<Rightarrow> (bool \<times> error) list" where
  "verification_result_checks r =
     [(vr_execution r \<noteq> None \<and> \<not> vr_passed r, ValidationError ''failed verification cannot release execution rows''),
      (vr_execution r \<noteq> None \<and> vr_execution_quarantined r, ValidationError ''released execution cannot also be quarantined''),
      (vr_execution_quarantined r \<and> \<not> vr_execution_attempted r, ValidationError ''quarantined execution requires execution_attempted''),
      (vr_execution_quarantined r \<and> vr_passed r, ValidationError ''successful verification cannot quarantine execution''),
      (vr_passed r \<and> vr_failure_reason_codes r \<noteq> [], ValidationError ''successful verification cannot carry failure reason codes'')]"

definition validate_verification_result :: "verification_result \<Rightarrow> verification_result result" where
  "validate_verification_result r = raise_first (verification_result_checks r) r"

text \<open>\<open>_result\<close>.\<close>

definition verdict ::
    "query_plan option \<Rightarrow> policy_decision option \<Rightarrow> verification_check list \<Rightarrow> execution_result option \<Rightarrow> bool
      \<Rightarrow> string option \<Rightarrow> reason_code list \<Rightarrow> verification_result result" where
  "verdict plan d checks execution attempted err reasons =
     (let passed = (checks \<noteq> [] \<and> list_all vk_passed checks) in validate_verification_result
      \<lparr>vr_passed = passed, vr_query_plan = plan, vr_policy_decision = d, vr_checks = checks,
       vr_execution = (if passed then execution else None), vr_execution_attempted = attempted,
       vr_execution_quarantined = (execution \<noteq> None \<and> \<not> passed), vr_execution_error = err,
       vr_failure_reason_codes = reasons\<rparr>)"

section \<open>A run and its outside\<close>

text \<open>What the caller passes beside the request itself.\<close>

record verify_request =
  vq_request :: auth_request
  vq_required_minimum :: int
  vq_require_threshold :: bool
  vq_subject_count_column :: string
  vq_forbidden_fields :: "string list"
  vq_receipt_id :: "string option"
  vq_require_commitment :: bool
  vq_expected_binding :: "governance_snapshot option"

text \<open>The outside: the analyzer, SHA-256, the engine's configuration, the identity of the request; the ledger
  with its object identity and its clock and UUID; the identities of resolver and engine; the
  resolver where the wrapper resolves the query, where the pinned binding is asserted, and where the
  verifier probes the subject; the authorizer's outside when the capability is issued and when it is
  consumed; the warehouse; and Python's \<open>int()\<close> of a float given by its
  text, which fails for NaN and for an infinity.\<close>

record verify_world =
  vw_analyze :: "string \<Rightarrow> string \<Rightarrow> query_plan result"
  vw_H :: "string \<Rightarrow> string"
  vw_config :: policy_config
  vw_identity :: "request_identity option"
  vw_ledger :: "(nat \<times> ledger_env) option"
  vw_ledger_io :: ledger_io
  vw_resolver_id :: nat
  vw_engine_id :: nat
  vw_resolving :: context_resolver
  vw_asserting :: context_resolver
  vw_probing :: context_resolver
  vw_issuing :: auth_io
  vw_consuming :: auth_io
  vw_warehouse :: warehouse
  vw_float_int :: "string \<Rightarrow> int option result"

section \<open>Checks before anything is reserved\<close>

text \<open>\<open>str.lower\<close> on the code points below 256.\<close>

definition lower_char :: "char \<Rightarrow> char" where
  "lower_char c = (let n = (of_char c :: nat) in
     if 65 \<le> n \<and> n \<le> 90 \<or> 192 \<le> n \<and> n \<le> 222 \<and> n \<noteq> 215 then char_of (n + 32) else c)"

definition py_lower :: "string \<Rightarrow> string" where
  "py_lower s = map lower_char s"

definition policy_check :: "policy_decision \<Rightarrow> verification_check" where
  "policy_check d = \<lparr>vk_name = ''policy_allow'', vk_passed = (pd_decision d = ALLOW),
     vk_detail = ''final deterministic decision is '' @ decision_value (pd_decision d)\<rparr>"

definition threshold_matches :: "query_plan \<Rightarrow> column_ref \<Rightarrow> int \<Rightarrow> bool" where
  "threshold_matches plan subject_key required =
     (case (qp_minimum_group_size_present plan, qp_minimum_group_size_subject plan) of
        (Some n, Some s) \<Rightarrow> n \<ge> required \<and> ref_key s = ref_key subject_key
      | _ \<Rightarrow> False)"

definition threshold_check :: "query_plan \<Rightarrow> verify_request \<Rightarrow> verification_check" where
  "threshold_check plan v =
     (let subject = aq_subject_key (vq_request v); holds = threshold_matches plan subject (vq_required_minimum v) in
      \<lparr>vk_name = ''trusted_subject_threshold'', vk_passed = (vq_require_threshold v \<longrightarrow> holds),
       vk_detail = (if holds then ''COUNT(DISTINCT '' @ ref_key subject @ '') >= '' @ int_text (vq_required_minimum v)
          else if \<not> vq_require_threshold v then ''subject threshold is not required for this policy outcome''
          else ''required subject-bound minimum group threshold is absent or insufficient'')\<rparr>)"

definition value_exposing_kinds :: "exposure_kind list" where
  "value_exposing_kinds = [RAW_VALUE, TRANSFORMED_RAW_VALUE, GROUP_KEY, AGGREGATE_OPERAND]"

text \<open>\<open>_semantic_forbidden_outputs\<close>.\<close>

definition semantic_forbidden_outputs :: "query_plan \<Rightarrow> string list \<Rightarrow> string list \<times> string list" where
  "semantic_forbidden_outputs plan forbidden =
     (sorted_set (filter (\<lambda>f. f \<in> set forbidden) (concat (map (\<lambda>e. map (\<lambda>ref. py_lower (cr_field_path ref)) (pe_source_columns e))
        (filter (\<lambda>e. pe_kind e \<in> set value_exposing_kinds) (qp_projected_exposures plan))))),
      sorted_set (map pe_output_name (filter (\<lambda>e. pe_kind e = NESTED_SCOPE) (qp_projected_exposures plan))))"

definition forbidden_output_detail :: "string list \<Rightarrow> string list \<Rightarrow> string" where
  "forbidden_output_detail leaked unresolved = str_join ''; ''
     ((if leaked \<noteq> [] then [''forbidden source lineage exposed by output: '' @ str_join '', '' leaked] else [])
      @ (if unresolved \<noteq> [] then [''output lineage could not be proven safe: '' @ str_join '', '' unresolved] else []))"

definition forbidden_check :: "query_plan \<Rightarrow> verify_request \<Rightarrow> verification_check" where
  "forbidden_check plan v =
     (case semantic_forbidden_outputs plan (map py_lower (vq_forbidden_fields v)) of (leaked, unresolved) \<Rightarrow>
        \<lparr>vk_name = ''no_raw_forbidden_output'', vk_passed = (leaked = [] \<and> unresolved = []),
         vk_detail = (if leaked = [] \<and> unresolved = []
            then ''no forbidden field is exposed through final-output semantic lineage''
            else forbidden_output_detail leaked unresolved)\<rparr>)"

definition static_checks :: "query_plan \<Rightarrow> policy_decision \<Rightarrow> verify_request \<Rightarrow> verification_check list" where
  "static_checks plan d v = [policy_check d, threshold_check plan v, forbidden_check plan v]"

section \<open>Reserving the disclosure\<close>

fun composition_rule_value :: "composition_rule \<Rightarrow> string" where
  "composition_rule_value UNPROTECTED_RELEASE = ''UNPROTECTED_RELEASE''"
| "composition_rule_value FIRST_PROTECTED_RELEASE = ''FIRST_PROTECTED_RELEASE''"
| "composition_rule_value PROTECTED_RELEASE_WITHIN_BUDGET = ''PROTECTED_RELEASE_WITHIN_BUDGET''"
| "composition_rule_value REPEAT_IDENTICAL_RELEASE = ''REPEAT_IDENTICAL_RELEASE''"
| "composition_rule_value REPEAT_PROTECTED_RELEASE_BLOCK = ''REPEAT_PROTECTED_RELEASE_BLOCK''"
| "composition_rule_value IDEMPOTENT_REPLAY = ''IDEMPOTENT_REPLAY''"
| "composition_rule_value CUMULATIVE_VARIATION_BLOCK = ''CUMULATIVE_VARIATION_BLOCK''"
| "composition_rule_value CUMULATIVE_BUDGET_EXHAUSTED = ''CUMULATIVE_BUDGET_EXHAUSTED''"
| "composition_rule_value LEGACY_HISTORY_BLOCK = ''LEGACY_HISTORY_BLOCK''"

definition disclosure_check :: "bool \<Rightarrow> string \<Rightarrow> verification_check" where
  "disclosure_check passed detail = \<lparr>vk_name = ''cumulative_disclosure'', vk_passed = passed, vk_detail = detail\<rparr>"

definition composition_detail :: "string \<Rightarrow> composition_decision \<Rightarrow> string" where
  "composition_detail what d = what @ composition_rule_value (cd_rule d) @ ''; prior protected releases=''
     @ nat_text (cd_prior_protected_count d)"

text \<open>The outcome of the reservation: a failed check with its reason, or the commitment, if one is kept, and the
  checks that passed. Exceptions that the verifier does not catch are errors.\<close>

type_synonym reservation = "(verification_check \<times> reason_code) + (disclosure_commitment option \<times> verification_check list)"

definition reserve_with ::
    "verify_world \<Rightarrow> secure_db \<Rightarrow> verify_request \<Rightarrow> ledger_env \<Rightarrow> request_identity \<Rightarrow> string \<Rightarrow> context_resolver
      \<Rightarrow> query_plan \<Rightarrow> context_resolution \<Rightarrow> policy_decision \<Rightarrow> composition_decision result \<times> secure_db" where
  "reserve_with w db v env identity receipt_id probing plan resolution d =
     (case build_disclosure_event_from_resolver (vw_H w) identity probing resolution plan
         (aq_subject_key (vq_request v)) receipt_id (pd_policy_version d) of
        Inl e \<Rightarrow> (Inl e, db)
      | Inr event \<Rightarrow> evaluate_and_commit env db (vw_ledger_io w) event (aq_sql (vq_request v)) (aq_dialect (vq_request v)))"

definition settle_reservation :: "composition_decision result \<Rightarrow> reservation result" where
  "settle_reservation res =
     (case res of
        Inl e \<Rightarrow> (if is_ledger_error e \<or> is_value_error e
            then Inr (Inl (disclosure_check False ''cumulative disclosure state could not be validated safely'',
              DISCLOSURE_STATE_UNAVAILABLE))
            else Inl e)
      | Inr cd \<Rightarrow> (case (cd_allowed cd, cd_commitment cd) of
            (True, Some c) \<Rightarrow> Inr (Inr (Some c, [disclosure_check True (composition_detail ''release committed by '' cd)]))
          | _ \<Rightarrow> Inr (Inl (disclosure_check False (composition_detail ''blocked by '' cd), CUMULATIVE_DISCLOSURE_RISK))))"

definition reserve ::
    "verify_world \<Rightarrow> secure_db \<Rightarrow> verify_request \<Rightarrow> context_resolver \<Rightarrow> query_plan \<Rightarrow> context_resolution \<Rightarrow> policy_decision
      \<Rightarrow> reservation result \<times> secure_db" where
  "reserve w db v probing plan resolution d =
     (if vw_ledger w = None \<and> \<not> vq_require_commitment v then (Inr (Inr (None, [])), db)
      else case (vw_ledger w, vq_receipt_id v, vw_identity w) of
          (Some (_, env), Some receipt_id, Some identity) \<Rightarrow>
            (case reserve_with w db v env identity receipt_id probing plan resolution d of
               (res, db') \<Rightarrow> (settle_reservation res, db'))
        | _ \<Rightarrow> (Inr (Inl (disclosure_check False
              ''required disclosure ledger, receipt identity, or request identity is unavailable'',
              DISCLOSURE_STATE_UNAVAILABLE)), db))"

section \<open>Inspecting the rows\<close>

text \<open>Python's \<open>int()\<close> of a string: surrounding white space, a sign, at most 4300 digits, single underscores
  between digits.\<close>

definition is_digit :: "char \<Rightarrow> bool" where
  "is_digit c \<longleftrightarrow> (let n = (of_char c :: nat) in 48 \<le> n \<and> n \<le> 57)"

fun digits_value :: "bool \<Rightarrow> int \<Rightarrow> string \<Rightarrow> int option" where
  "digits_value after_digit n [] = (if after_digit then Some n else None)"
| "digits_value after_digit n (c # cs) =
     (if is_digit c then digits_value True (10 * n + (of_char c - 48)) cs
      else if c = CHR ''_'' \<and> after_digit then digits_value False n cs else None)"

definition int_of_text :: "string \<Rightarrow> int option" where
  "int_of_text s = (if length (filter is_digit s) > 4300 then None
     else case py_strip s of
         [] \<Rightarrow> None
       | c # cs \<Rightarrow> if c = CHR ''-'' then map_option uminus (digits_value False 0 cs)
           else if c = CHR ''+'' then digits_value False 0 cs else digits_value False 0 (c # cs))"

text \<open>\<open>int()\<close> of a cell: a number, nothing for an exception the verifier catches, or the \<open>OverflowError\<close> of an
  infinite float.\<close>

fun json_int :: "(string \<Rightarrow> int option result) \<Rightarrow> json \<Rightarrow> int option result" where
  "json_int float_int (JInt i) = Inr (Some i)"
| "json_int float_int (JBool b) = Inr (Some (if b then 1 else 0))"
| "json_int float_int (JNum t) = float_int t"
| "json_int float_int (JStr s) = Inr (int_of_text s)"
| "json_int float_int _ = Inr None"

definition cell_int :: "(string \<Rightarrow> int option result) \<Rightarrow> nat \<Rightarrow> json list \<Rightarrow> int option result" where
  "cell_int float_int index row = (if index < length row then json_int float_int (row ! index) else Inr None)"

text \<open>The counts of the groups, up to the first that is no integer.\<close>

fun group_sizes :: "(string \<Rightarrow> int option result) \<Rightarrow> nat \<Rightarrow> json list list \<Rightarrow> int list option result" where
  "group_sizes float_int index [] = Inr (Some [])"
| "group_sizes float_int index (row # rows) =
     (case cell_int float_int index row of
        Inl e \<Rightarrow> Inl e
      | Inr None \<Rightarrow> Inr None
      | Inr (Some n) \<Rightarrow> bindr (group_sizes float_int index rows) (\<lambda>sizes. Inr (map_option ((#) n) sizes)))"

text \<open>\<open>_subject_count_is_governed\<close>.\<close>

definition subject_count_is_governed :: "query_plan \<Rightarrow> string \<Rightarrow> column_ref \<Rightarrow> bool" where
  "subject_count_is_governed plan column subject_key =
     (case filter (\<lambda>e. py_lower (pe_output_name e) = py_lower column) (qp_projected_exposures plan) of
        [e] \<Rightarrow> pe_kind e = AGGREGATE_VALUE
          \<and> (case pe_source_columns e of [s] \<Rightarrow> ref_key s = ref_key subject_key | _ \<Rightarrow> False)
      | _ \<Rightarrow> False)"

definition complete_check :: "execution_result \<Rightarrow> verification_check" where
  "complete_check x = \<lparr>vk_name = ''complete_result_set'', vk_passed = (\<not> xr_truncated x),
     vk_detail = (if xr_truncated x then ''result preview was truncated; all groups could not be verified''
       else ''all result groups were inspected'')\<rparr>"

definition count_column_present :: "verify_request \<Rightarrow> execution_result \<Rightarrow> bool" where
  "count_column_present v x \<longleftrightarrow> py_lower (vq_subject_count_column v) \<in> set (map py_lower (xr_columns x))"

definition count_column_proven :: "verify_request \<Rightarrow> query_plan \<Rightarrow> execution_result \<Rightarrow> bool" where
  "count_column_proven v plan x \<longleftrightarrow> count_column_present v x
     \<and> subject_count_is_governed plan (vq_subject_count_column v) (aq_subject_key (vq_request v))"

definition count_check :: "verify_request \<Rightarrow> query_plan \<Rightarrow> execution_result \<Rightarrow> verification_check" where
  "count_check v plan x = (let column = vq_subject_count_column v; subject = ref_key (aq_subject_key (vq_request v)) in
     \<lparr>vk_name = ''subject_count_output'', vk_passed = count_column_proven v plan x,
      vk_detail = (if count_column_proven v plan x
         then ''result contains '' @ column @ '' proven by lineage to be COUNT(DISTINCT '' @ subject @ '')''
         else if \<not> count_column_present v x then ''result does not contain required '' @ column @ '' column''
         else column @ '' is not proven by output lineage to count distinct '' @ subject)\<rparr>)"

definition count_index :: "verify_request \<Rightarrow> execution_result \<Rightarrow> nat" where
  "count_index v x = length (takeWhile (\<lambda>c. c \<noteq> py_lower (vq_subject_count_column v)) (map py_lower (xr_columns x)))"

definition sizes_check :: "verify_world \<Rightarrow> verify_request \<Rightarrow> query_plan \<Rightarrow> execution_result \<Rightarrow> verification_check result" where
  "sizes_check w v plan x =
     bindr (if count_column_proven v plan x \<and> \<not> xr_truncated x
            then bindr (group_sizes (vw_float_int w) (count_index v x) (xr_rows x)) (\<lambda>counts. Inr (case counts of
                None \<Rightarrow> (False, ''subject counts are not valid integers'')
              | Some [] \<Rightarrow> (False, ''query returned no groups; usefulness could not be verified'')
              | Some sizes \<Rightarrow> (Min (set sizes) \<ge> vq_required_minimum v,
                  ''minimum observed group size is '' @ int_text (Min (set sizes)))))
            else Inr (False, ''group sizes were not evaluated''))
       (\<lambda>(valid, detail). Inr \<lparr>vk_name = ''observed_group_sizes'', vk_passed = valid, vk_detail = detail\<rparr>)"

definition preview_check :: "execution_result \<Rightarrow> verification_check" where
  "preview_check x = \<lparr>vk_name = ''bounded_preview'', vk_passed = True,
     vk_detail = ''returned '' @ nat_text (xr_preview_row_count x) @ '' preview rows''
       @ (if xr_truncated x then '' with truncation'' else '' without truncation'')\<rparr>"

definition result_checks :: "verify_world \<Rightarrow> verify_request \<Rightarrow> query_plan \<Rightarrow> execution_result \<Rightarrow> verification_check list result" where
  "result_checks w v plan x =
     (if vq_require_threshold v
      then bindr (sizes_check w v plan x) (\<lambda>sizes. Inr [complete_check x, count_check v plan x, sizes])
      else Inr [preview_check x])"

section \<open>The core verifier\<close>

definition failed_check :: "string \<Rightarrow> string \<Rightarrow> verification_check" where
  "failed_check name detail = \<lparr>vk_name = name, vk_passed = False, vk_detail = detail\<rparr>"

definition issued_check :: "disclosure_commitment option \<Rightarrow> verification_check" where
  "issued_check commitment = \<lparr>vk_name = ''execution_authorization'', vk_passed = True,
     vk_detail = ''single-use capability issued for exact SQL, plan, governance context, policy, task, subject, identity, ''
       @ (if commitment \<noteq> None then ''rewrite lineage, and disclosure commitment'' else ''and optional rewrite lineage'')\<rparr>"

text \<open>\<open>str()\<close> of the two exceptions that carry a reason.\<close>

definition reason_text :: "reason_code \<Rightarrow> string \<Rightarrow> string" where
  "reason_text reason detail = reason_value reason @ '': '' @ detail"

type_synonym verify_state = "secure_db \<times> (string \<times> int) list"

definition execute_and_inspect ::
    "verify_world \<Rightarrow> executor \<Rightarrow> verify_state \<Rightarrow> verify_request \<Rightarrow> query_plan \<Rightarrow> policy_decision
      \<Rightarrow> verification_check list \<Rightarrow> execution_authorization \<Rightarrow> verification_result result \<times> verify_state" where
  "execute_and_inspect w ex st v plan d checks a =
     (case execute_authorized ex (vw_warehouse w) (vw_consuming w) (fst st) (snd st) a (vq_request v) of
        (Inl (ExecutionError reason detail), consumed) \<Rightarrow>
          (verdict (Some plan) (Some d) (checks @ [failed_check ''execution'' (reason_text reason detail)]) None True
             (Some (reason_text reason detail)) [reason], fst st, consumed)
      | (Inl e, consumed) \<Rightarrow> (Inl e, fst st, consumed)
      | (Inr x, consumed) \<Rightarrow>
          (bindr (result_checks w v plan x) (\<lambda>inspected.
             verdict (Some plan) (Some d) (checks @ inspected) (Some x) True None []), fst st, consumed))"

definition authorize_and_execute ::
    "verify_world \<Rightarrow> executor \<Rightarrow> verify_state \<Rightarrow> verify_request \<Rightarrow> query_plan \<Rightarrow> policy_decision
      \<Rightarrow> verification_check list \<Rightarrow> disclosure_commitment option \<Rightarrow> governance_snapshot option
      \<Rightarrow> verification_result result \<times> verify_state" where
  "authorize_and_execute w ex st v plan d checks commitment expected =
     (case bind_authority ex (vw_resolver_id w) (vw_engine_id w) (map_option fst (vw_ledger w)) (vq_require_commitment v) of
        Inl (ValueError m) \<Rightarrow>
          (verdict (Some plan) (Some d) (checks @ [failed_check ''execution_authorization'' m]) None False (Some m) [], st)
      | Inl e \<Rightarrow> (Inl e, st)
      | Inr _ \<Rightarrow>
          (case issue_authorization ex (vw_issuing w) (fst st) (vq_request v) commitment expected of
             (Inl (ExecutionError reason detail), db) \<Rightarrow>
               (verdict (Some plan) (Some d)
                  (checks @ [failed_check ''execution_authorization'' (reason_text reason detail)]) None False
                  (Some (reason_text reason detail)) [reason], db, snd st)
           | (Inl e, db) \<Rightarrow> (Inl e, db, snd st)
           | (Inr a, db) \<Rightarrow> execute_and_inspect w ex (db, snd st) v plan d (checks @ [issued_check commitment]) a))"

definition decide ::
    "verify_world \<Rightarrow> context_resolver \<Rightarrow> verify_request \<Rightarrow> query_plan \<Rightarrow> (context_resolution \<times> policy_decision) result" where
  "decide w resolving v plan =
     bindr (cv_resolve resolving plan) (\<lambda>resolution.
     bindr (to_policy_input resolution (aq_task_purpose (vq_request v)) plan (Some (aq_subject_key (vq_request v))) None) (\<lambda>i.
     bindr (evaluate (vw_config w) i) (\<lambda>d. Inr (resolution, d))))"

definition verify_core ::
    "verify_world \<Rightarrow> executor \<Rightarrow> verify_state \<Rightarrow> verify_request \<Rightarrow> context_resolver \<Rightarrow> context_resolver
      \<Rightarrow> governance_snapshot option \<Rightarrow> verification_result result \<times> verify_state" where
  "verify_core w ex st v resolving probing expected =
     (case vw_analyze w (aq_sql (vq_request v)) (aq_dialect (vq_request v)) of
        Inl (SqlAnalysisError reason detail) \<Rightarrow>
          (verdict None None [failed_check ''sql_analysis'' (reason_text reason detail)] None False
             (Some (reason_text reason detail)) [], st)
      | Inl e \<Rightarrow> (Inl e, st)
      | Inr plan \<Rightarrow>
          (case decide w resolving v plan of
             Inl e \<Rightarrow> (Inl e, st)
           | Inr (resolution, d) \<Rightarrow>
               (let checks = static_checks plan d v in
                if \<not> list_all vk_passed checks then (verdict (Some plan) (Some d) checks None False None [], st)
                else case reserve w (fst st) v probing plan resolution d of
                    (Inl e, db) \<Rightarrow> (Inl e, db, snd st)
                  | (Inr (Inl (check, reason)), db) \<Rightarrow>
                      (verdict (Some plan) (Some d) (checks @ [check]) None False None [reason], db, snd st)
                  | (Inr (Inr (commitment, extra)), db) \<Rightarrow>
                      authorize_and_execute w ex (db, snd st) v plan d (checks @ extra) commitment expected)))"

section \<open>Finalising the reservation\<close>

definition commitment_for_receipt :: "ledger_env \<Rightarrow> secure_db \<Rightarrow> string \<Rightarrow> disclosure_commitment option result" where
  "commitment_for_receipt env db receipt_id =
     (case read_receipt env db receipt_id of
        Inl (KeyError _) \<Rightarrow> Inr None
      | Inl e \<Rightarrow> Inl e
      | Inr r \<Rightarrow> Inr (Some (commitment_of r)))"

definition execution_failed :: "verification_check \<Rightarrow> bool" where
  "execution_failed k \<longleftrightarrow> \<not> vk_passed k \<and> vk_name k = ''execution''"

definition sanitize_execution_failure :: "verification_result \<Rightarrow> verification_result" where
  "sanitize_execution_failure r =
     (if list_ex execution_failed (vr_checks r)
      then let public = reason_value (case vr_failure_reason_codes r of [] \<Rightarrow> VERIFICATION_FAILED | reason # _ \<Rightarrow> reason)
               @ '': protected execution failed''
           in r\<lparr>vr_checks := map (\<lambda>k. if vk_name k = ''execution'' then k\<lparr>vk_detail := public\<rparr> else k) (vr_checks r),
                vr_execution_error := map_option (\<lambda>_. public) (vr_execution_error r)\<rparr>
      else r)"

definition disclosure_state_failure :: "verification_result \<Rightarrow> verification_result result" where
  "disclosure_state_failure r =
     (let detail = ''DISCLOSURE_STATE_UNAVAILABLE: release state could not be finalized safely'' in validate_verification_result
      \<lparr>vr_passed = False, vr_query_plan = vr_query_plan r, vr_policy_decision = vr_policy_decision r,
       vr_checks = vr_checks r @ [failed_check ''disclosure_release_state'' detail], vr_execution = None,
       vr_execution_attempted = vr_execution_attempted r, vr_execution_quarantined = vr_execution_attempted r,
       vr_execution_error = Some detail,
       vr_failure_reason_codes = map fst (dict_of (\<lambda>x. x) (vr_failure_reason_codes r @ [DISCLOSURE_STATE_UNAVAILABLE]))\<rparr>)"

definition finalize_release ::
    "verify_world \<Rightarrow> secure_db \<Rightarrow> verify_request \<Rightarrow> verification_result \<Rightarrow> verification_result result \<times> secure_db" where
  "finalize_release w db v r =
     (case (vw_ledger w, vq_receipt_id v) of
        (Some (_, env), Some receipt_id) \<Rightarrow>
          (case commitment_for_receipt env db receipt_id of
             Inl e \<Rightarrow> (Inl e, db)
           | Inr None \<Rightarrow> (Inr r, db)
           | Inr (Some c) \<Rightarrow>
               (case (if vr_passed r \<and> vr_execution r \<noteq> None then mark_released env db c else mark_aborted env db c) of
                  (Inl _, db') \<Rightarrow> (disclosure_state_failure r, db')
                | (Inr _, db') \<Rightarrow> (Inr r, db')))
      | _ \<Rightarrow> (Inr r, db))"

definition abort_pending :: "verify_world \<Rightarrow> secure_db \<Rightarrow> verify_request \<Rightarrow> unit result \<times> secure_db" where
  "abort_pending w db v =
     (case (vw_ledger w, vq_receipt_id v) of
        (Some (_, env), Some receipt_id) \<Rightarrow>
          (case commitment_for_receipt env db receipt_id of
             Inl e \<Rightarrow> (Inl e, db)
           | Inr None \<Rightarrow> (Inr (), db)
           | Inr (Some c) \<Rightarrow> (Inr (), snd (mark_aborted env db c)))
      | _ \<Rightarrow> (Inr (), db))"

definition run_core ::
    "verify_world \<Rightarrow> executor \<Rightarrow> verify_state \<Rightarrow> verify_request \<Rightarrow> context_resolver \<Rightarrow> context_resolver
      \<Rightarrow> governance_snapshot option \<Rightarrow> verification_result result \<times> verify_state" where
  "run_core w ex st v resolving probing expected =
     (case verify_core w ex st v resolving probing expected of
        (Inl e, db, consumed) \<Rightarrow>
          (case abort_pending w db v of
             (Inl e', db') \<Rightarrow> (Inl e', db', consumed)
           | (Inr _, db') \<Rightarrow> (Inl e, db', consumed))
      | (Inr r, db, consumed) \<Rightarrow>
          (case finalize_release w db v (sanitize_execution_failure r) of (res, db') \<Rightarrow> (res, db', consumed)))"

section \<open>Pinning the governance snapshot\<close>

definition assert_binding :: "context_resolver \<Rightarrow> governance_snapshot \<Rightarrow> governance_snapshot option result" where
  "assert_binding resolver binding =
     bindr (current_governance_binding resolver) (\<lambda>current.
     bindr (require_same_governance_binding (Some binding) current) (\<lambda>_. Inr current))"

definition lost_provenance :: error where
  "lost_provenance = GovernanceContextDriftError ''governance-aware verifier lost snapshot provenance''"

text \<open>\<open>_PinnedGovernanceResolver\<close>, over the resolver as it answers at the moment of the call.\<close>

definition pinned_bound ::
    "context_resolver \<Rightarrow> query_plan \<Rightarrow> context_resolution \<Rightarrow> governance_snapshot \<Rightarrow> query_plan
      \<Rightarrow> (context_resolution \<times> governance_snapshot) result" where
  "pinned_bound resolver plan resolution binding q =
     (if q = plan then bindr (assert_binding resolver binding) (\<lambda>_. Inr (resolution, binding))
      else bindr (resolve_with_governance_binding resolver q) (\<lambda>(other, current).
           bindr (require_same_governance_binding (Some binding) current) (\<lambda>_.
             case current of None \<Rightarrow> Inl lost_provenance | Some b \<Rightarrow> Inr (other, b))))"

definition pinned_resolver ::
    "context_resolver \<Rightarrow> query_plan \<Rightarrow> context_resolution \<Rightarrow> governance_snapshot \<Rightarrow> context_resolver" where
  "pinned_resolver resolver plan resolution binding =
     \<lparr>cv_resolve = (\<lambda>q. bindr (pinned_bound resolver plan resolution binding q) (\<lambda>(r, _). Inr r)),
      cv_bound_resolve = Some (pinned_bound resolver plan resolution binding),
      cv_current_binding = Some (bindr (assert_binding resolver binding) (\<lambda>current.
        case current of None \<Rightarrow> Inl lost_provenance | Some b \<Rightarrow> Inr b))\<rparr>"

definition governance_failure :: "query_plan \<Rightarrow> reason_code \<Rightarrow> string \<Rightarrow> verification_result result" where
  "governance_failure plan reason detail = validate_verification_result
     \<lparr>vr_passed = False, vr_query_plan = Some plan, vr_policy_decision = None,
      vr_checks = [failed_check ''governance_binding'' detail], vr_execution = None, vr_execution_attempted = False,
      vr_execution_quarantined = False, vr_execution_error = Some detail, vr_failure_reason_codes = [reason]\<rparr>"

fun governance_handler :: "query_plan \<Rightarrow> error \<Rightarrow> verification_result result" where
  "governance_handler plan (GovernanceContextStaleError m) = governance_failure plan DATAHUB_CONTEXT_STALE m"
| "governance_handler plan (GovernanceContextDriftError m) = governance_failure plan DATAHUB_CONTEXT_DRIFT m"
| "governance_handler plan e = Inl e"

text \<open>The resolution and the binding that are pinned.\<close>

definition capture_binding ::
    "verify_world \<Rightarrow> verify_request \<Rightarrow> query_plan \<Rightarrow> (context_resolution \<times> governance_snapshot) result" where
  "capture_binding w v plan =
     bindr (resolve_with_governance_binding (vw_resolving w) plan) (\<lambda>(resolution, current).
       case current of
         None \<Rightarrow> Inl (GovernanceContextDriftError ''governance-aware resolver returned no provenance binding'')
       | Some binding \<Rightarrow>
           bindr (if vq_expected_binding v = None then Inr ()
                  else require_same_governance_binding (vq_expected_binding v) current) (\<lambda>_. Inr (resolution, binding)))"

text \<open>\<open>verify_and_execute\<close> of \<open>governance.py\<close>, the one the program uses.\<close>

definition verify_and_execute ::
    "verify_world \<Rightarrow> executor \<Rightarrow> verify_state \<Rightarrow> verify_request \<Rightarrow> verification_result result \<times> verify_state" where
  "verify_and_execute w ex st v =
     (let unpinned = run_core w ex st v (vw_resolving w) (vw_probing w) None in
      if cv_bound_resolve (vw_resolving w) = None \<and> vq_expected_binding v = None then unpinned
      else case vw_analyze w (aq_sql (vq_request v)) (aq_dialect (vq_request v)) of
          Inl (SqlAnalysisError _ _) \<Rightarrow> unpinned
        | Inl e \<Rightarrow> (Inl e, st)
        | Inr plan \<Rightarrow>
            (if cv_bound_resolve (vw_resolving w) = None
             then (governance_failure plan DATAHUB_CONTEXT_DRIFT
                     ''expected governance provenance is unavailable from the resolver'', st)
             else case capture_binding w v plan of
                 Inl e \<Rightarrow> (governance_handler plan e, st)
               | Inr (resolution, binding) \<Rightarrow>
                   (case run_core w ex st v (pinned_resolver (vw_asserting w) plan resolution binding)
                           (pinned_resolver (vw_probing w) plan resolution binding) (Some binding) of
                      (Inl e, st') \<Rightarrow> (governance_handler plan e, st')
                    | (Inr r, st') \<Rightarrow> (Inr r, st'))))"


end
