(* ===== verification/Authorization_Theorems.thy ===== *)
theory Authorization_Theorems
  imports Authorization Semantics_Theorems
begin

text \<open>
  What execution capabilities guarantee: an accepted capability is the one that was issued, for the
  same query under a policy decision that is ALLOW now, a fresh capability is accepted, and it and
  the disclosure commitment it claimed are used at most once as long as clock readings do not run
  backwards. Two observations about the code are stated as well: the rounding of the expiry, and
  the clock reading that is taken before the consume lock.
\<close>

lemmas step_defs = check_request_def analyze_exact_def resolve_with_binding_def require_expected_binding_def
  revalidate_binding_def evaluate_request_def require_allow_def

text \<open>What a verification that succeeds has checked.\<close>

lemma verify_authorization_Inr:
  "verify_authorization az io db a q = Inr plan \<longleftrightarrow>
     check_request q = Inr () \<and> (\<forall>(bad, e) \<in> set (capability_checks az io a q). \<not> bad)
     \<and> analyze_exact az q = Inr plan \<and> xa_query_plan_sha256 a = hash_query_plan (za_H az) plan
     \<and> (\<exists>resolution binding d. resolve_with_binding io plan = Inr (resolution, binding)
          \<and> require_expected_binding (xa_governance_binding a) binding = Inr ()
          \<and> xa_context_sha256 a = hash_context (za_H az) resolution
          \<and> xa_policy_sha256 a = policy_config_sha256 (za_H az) (ai_config io)
          \<and> evaluate_request io q plan resolution = Inr d \<and> require_allow d = Inr ()
          \<and> xa_policy_decision_sha256 a = policy_decision_sha256 (za_H az) d
          \<and> verify_disclosure az io db q (xa_disclosure_commitment a) plan resolution d = Inr ()
          \<and> revalidate_binding io (xa_governance_binding a) = Inr () \<and> verify_claimed az db a = Inr ())"
  by (auto simp: verify_authorization_def split: if_splits)

lemma verify_and_consume_Inr:
  "verify_and_consume az io db consumed a q = (Inr plan, consumed') \<longleftrightarrow>
     verify_authorization az io db a q = Inr plan \<and> consume a (ai_now io) consumed = (Inr (), consumed')"
  by (auto simp: verify_and_consume_def split: sum.splits prod.splits)

lemma issue_checks_Inr:
  "issue_checks az io db q commitment expected = Inr (plan, resolution, binding, d) \<longleftrightarrow>
     check_request q = Inr () \<and> py_strip (aq_task_purpose q) \<noteq> [] \<and> analyze_exact az q = Inr plan
     \<and> resolve_with_binding io plan = Inr (resolution, binding) \<and> require_expected_binding expected binding = Inr ()
     \<and> evaluate_request io q plan resolution = Inr d \<and> require_allow d = Inr ()
     \<and> verify_disclosure az io db q commitment plan resolution d = Inr () \<and> revalidate_binding io binding = Inr ()"
  by (auto simp: issue_checks_def split: if_splits)

lemma issue_Inr:
  "issue az io db q commitment expected = (Inr a, db') \<longleftrightarrow>
     (\<exists>plan resolution binding d. issue_checks az io db q commitment expected = Inr (plan, resolution, binding, d)
        \<and> claim_for az db commitment (''tj_auth_'' @ ai_token io) = (Inr (), db')
        \<and> (let unsigned = unsigned_authorization az io q commitment plan resolution binding d
           in validate_authorization unsigned = Inr unsigned \<and> a = unsigned\<lparr>xa_mac_sha256 := mac_of az unsigned\<rparr>))"
  unfolding issue_def Let_def
  by (auto simp: validate_authorization_def split: sum.splits prod.splits)

lemma require_expected_binding_Inr [simp]: "require_expected_binding expected actual = Inr u \<longleftrightarrow> expected = actual"
  by (auto simp: require_expected_binding_def require_same_governance_binding_def)

lemma mac_of_update [simp]: "mac_of az (a\<lparr>xa_mac_sha256 := m\<rparr>) = mac_of az a"
  by (simp add: mac_of_def mac_payload_def)

lemma unsigned_simps [simp]:
  "xa_authorization_id (unsigned_authorization az io q c plan resolution b d) = ''tj_auth_'' @ ai_token io"
  "xa_issued_at (unsigned_authorization az io q c plan resolution b d) = ai_now io"
  "xa_expires_at (unsigned_authorization az io q c plan resolution b d) = float_add (ai_now io) (za_ttl az)"
  "xa_dialect (unsigned_authorization az io q c plan resolution b d) = aq_dialect q"
  "xa_sql_sha256 (unsigned_authorization az io q c plan resolution b d) = za_H az (aq_sql q)"
  "xa_query_plan_sha256 (unsigned_authorization az io q c plan resolution b d) = hash_query_plan (za_H az) plan"
  "xa_context_sha256 (unsigned_authorization az io q c plan resolution b d) = hash_context (za_H az) resolution"
  "xa_governance_binding (unsigned_authorization az io q c plan resolution b d) = b"
  "xa_policy_sha256 (unsigned_authorization az io q c plan resolution b d) = policy_config_sha256 (za_H az) (ai_config io)"
  "xa_policy_decision_sha256 (unsigned_authorization az io q c plan resolution b d) = policy_decision_sha256 (za_H az) d"
  "xa_task_purpose_sha256 (unsigned_authorization az io q c plan resolution b d) = za_H az (aq_task_purpose q)"
  "xa_request_identity_sha256 (unsigned_authorization az io q c plan resolution b d) = hash_identity (za_H az) (ai_identity io)"
  "xa_subject_key (unsigned_authorization az io q c plan resolution b d) = aq_subject_key q"
  "xa_rewrite_parent_sha256 (unsigned_authorization az io q c plan resolution b d) = map_option (za_H az) (aq_rewrite_parent q)"
  "xa_disclosure_commitment (unsigned_authorization az io q c plan resolution b d) = c"
  by (simp_all add: unsigned_authorization_def)

section \<open>Consumption\<close>

lemma consume_Inr:
  "consume a now consumed = (Inr u, consumed') \<longleftrightarrow>
     xa_authorization_id a \<notin> fst ` set (filter (\<lambda>(_, expiry). expiry > now) consumed)
     \<and> consumed' = AList.update (xa_authorization_id a) (xa_expires_at a) (filter (\<lambda>(_, expiry). expiry > now) consumed)"
  by (auto simp: consume_def Let_def)

text \<open>The calls of \<open>verify_and_consume\<close> on one authorizer, in the order in which they take the lock, and
  the capabilities they accepted.\<close>

fun accepted_of ::
    "authorizer \<Rightarrow> (auth_io \<times> secure_db \<times> execution_authorization \<times> auth_request) list \<Rightarrow> (string \<times> int) list
      \<Rightarrow> execution_authorization list" where
  "accepted_of az [] consumed = []"
| "accepted_of az ((io, db, a, q) # calls) consumed =
     (case verify_and_consume az io db consumed a q of
        (Inl _, consumed') \<Rightarrow> accepted_of az calls consumed'
      | (Inr _, consumed') \<Rightarrow> a # accepted_of az calls consumed')"

abbreviation call_time :: "auth_io \<times> secure_db \<times> execution_authorization \<times> auth_request \<Rightarrow> int" where
  "call_time call \<equiv> ai_now (fst call)"

abbreviation call_capability :: "auth_io \<times> secure_db \<times> execution_authorization \<times> auth_request \<Rightarrow> execution_authorization" where
  "call_capability call \<equiv> fst (snd (snd call))"

text \<open>One expiry per capability id, as for capabilities that were issued with fresh tokens.\<close>

definition same_expiry :: "string \<Rightarrow> int \<Rightarrow> (auth_io \<times> secure_db \<times> execution_authorization \<times> auth_request) list \<Rightarrow> bool" where
  "same_expiry auth_id expiry calls \<longleftrightarrow> (\<forall>call \<in> set calls. xa_authorization_id (call_capability call) = auth_id
      \<longrightarrow> xa_expires_at (call_capability call) = expiry)"

text \<open>After a capability was used: its entry is there, or no later call can find it unexpired.\<close>

definition used_up :: "string \<Rightarrow> int \<Rightarrow> (auth_io \<times> secure_db \<times> execution_authorization \<times> auth_request) list
    \<Rightarrow> (string \<times> int) list \<Rightarrow> bool" where
  "used_up auth_id expiry calls consumed \<longleftrightarrow> (auth_id, expiry) \<in> set consumed \<or> (\<forall>call \<in> set calls. expiry \<le> call_time call)"

lemma verify_authorization_unexpired:
  "verify_authorization az io db a q = Inr plan \<Longrightarrow> ai_now io < xa_expires_at a"
  by (auto simp: verify_authorization_Inr capability_checks_def)

lemma consumed_after:
  "snd (verify_and_consume az io db consumed a q) = (case verify_authorization az io db a q of
       Inl _ \<Rightarrow> consumed | Inr _ \<Rightarrow> snd (consume a (ai_now io) consumed))"
  by (auto simp: verify_and_consume_def split: sum.splits prod.splits)

lemma update_keeps: "(k, v) \<in> set d \<Longrightarrow> k' \<noteq> k \<Longrightarrow> (k, v) \<in> set (AList.update k' v' d)"
  by (induction d) auto

lemma update_fresh: "k \<notin> fst ` set d \<Longrightarrow> AList.update k v d = d @ [(k, v)]"
  by (induction d) auto

lemma dom_update_subset: "fst ` set (AList.update k v d) = insert k (fst ` set d)"
  by (induction d) auto

lemma used_up_step:
  assumes "used_up auth_id expiry ((io, db, a, q) # calls) consumed"
    and "sorted (map call_time ((io, db, a, q) # calls))"
    and "xa_authorization_id a = auth_id \<longrightarrow> xa_expires_at a = expiry"
  shows "used_up auth_id expiry calls (snd (verify_and_consume az io db consumed a q))"
    and "xa_authorization_id a = auth_id \<Longrightarrow> \<exists>e. fst (verify_and_consume az io db consumed a q) = Inl e"
proof -
  let ?live = "filter (\<lambda>(_, expiry). expiry > ai_now io) consumed"
  have kept: "(auth_id, expiry) \<in> set consumed \<Longrightarrow> expiry > ai_now io \<Longrightarrow> (auth_id, expiry) \<in> set ?live" by simp
  have late: "expiry \<le> ai_now io \<Longrightarrow> \<forall>call \<in> set calls. expiry \<le> call_time call" using assms(2) by fastforce
  show "used_up auth_id expiry calls (snd (verify_and_consume az io db consumed a q))"
  proof (cases "(auth_id, expiry) \<in> set consumed \<and> expiry > ai_now io")
    case True
    then have live: "(auth_id, expiry) \<in> set ?live" by simp
    then have other: "xa_authorization_id a \<notin> fst ` set ?live \<Longrightarrow> xa_authorization_id a \<noteq> auth_id"
      by (metis fst_conv image_eqI)
    have "(auth_id, expiry) \<in> set (snd (consume a (ai_now io) consumed))"
    proof (cases "xa_authorization_id a \<in> fst ` set ?live")
      case True
      then show ?thesis using live unfolding consume_def Let_def by (simp only: if_True snd_conv)
    next
      case False
      then show ?thesis using update_keeps [OF live other] unfolding consume_def Let_def by (simp only: if_False snd_conv not_False_eq_True)
    qed
    with True show ?thesis by (auto simp: used_up_def consumed_after split: sum.splits)
  next
    case False
    with assms(1) late have "\<forall>call \<in> set calls. expiry \<le> call_time call"
      unfolding used_up_def by (metis list.set_intros(2) not_le)
    then show ?thesis unfolding used_up_def by blast
  qed
  assume id: "xa_authorization_id a = auth_id"
  show "\<exists>e. fst (verify_and_consume az io db consumed a q) = Inl e"
  proof (rule ccontr)
    assume "\<nexists>e. fst (verify_and_consume az io db consumed a q) = Inl e"
    then obtain plan consumed' where acc: "verify_and_consume az io db consumed a q = (Inr plan, consumed')"
      by (metis obj_sumE prod.collapse)
    then have "ai_now io < expiry" using verify_authorization_unexpired id assms(3) by (auto simp: verify_and_consume_Inr)
    with assms(1) have "(auth_id, expiry) \<in> set ?live" by (auto simp: used_up_def)
    then have "auth_id \<in> fst ` set ?live" by force
    moreover have "xa_authorization_id a \<notin> fst ` set ?live"
      using acc unfolding verify_and_consume_Inr consume_Inr by blast
    ultimately show False using id by blast
  qed
qed

lemma used_up_never_accepted:
  assumes "used_up auth_id expiry calls consumed" and "sorted (map call_time calls)" and "same_expiry auth_id expiry calls"
  shows "auth_id \<notin> xa_authorization_id ` set (accepted_of az calls consumed)"
  using assms
proof (induction calls arbitrary: consumed)
  case (Cons call calls)
  obtain io db a q where call: "call = (io, db, a, q)" by (metis prod.exhaust)
  have expiry: "xa_authorization_id a = auth_id \<longrightarrow> xa_expires_at a = expiry"
    using Cons.prems(3) by (simp add: same_expiry_def call)
  note step = used_up_step [OF Cons.prems(1,2) [unfolded call] expiry]
  have "auth_id \<notin> xa_authorization_id ` set (accepted_of az calls (snd (verify_and_consume az io db consumed a q)))"
    using Cons.prems by (intro Cons.IH step(1)) (simp_all add: same_expiry_def)
  then show ?case using step(2) [of az]
    by (cases "verify_and_consume az io db consumed a q"; cases "fst (verify_and_consume az io db consumed a q)")
       (auto simp: call)
qed simp

lemma accepted_once:
  assumes "sorted (map call_time calls)" and "same_expiry auth_id expiry calls"
  shows "length (filter (\<lambda>a. xa_authorization_id a = auth_id) (accepted_of az calls consumed)) \<le> 1"
  using assms
proof (induction calls arbitrary: consumed)
  case (Cons call calls)
  obtain io db a q where call: "call = (io, db, a, q)" by (metis prod.exhaust)
  obtain res consumed' where run: "verify_and_consume az io db consumed a q = (res, consumed')" by force
  have IH: "length (filter (\<lambda>a. xa_authorization_id a = auth_id) (accepted_of az calls c)) \<le> 1" for c
    using Cons.prems by (intro Cons.IH) (simp_all add: same_expiry_def)
  show ?case
  proof (cases "\<exists>plan. res = Inr plan \<and> xa_authorization_id a = auth_id")
    case True
    then obtain plan where plan: "res = Inr plan" "xa_authorization_id a = auth_id" by blast
    then have "xa_expires_at a = expiry" using Cons.prems(2) by (simp add: same_expiry_def call)
    moreover have "(xa_authorization_id a, xa_expires_at a) \<in> set consumed'"
      using run unfolding plan(1) verify_and_consume_Inr consume_Inr by (auto simp: update_conv' intro: map_of_SomeD)
    ultimately have "used_up auth_id expiry calls consumed'" using plan(2) by (simp add: used_up_def)
    then have "auth_id \<notin> xa_authorization_id ` set (accepted_of az calls consumed')"
      by (rule used_up_never_accepted) (use Cons.prems in \<open>auto simp: same_expiry_def\<close>)
    then have "filter (\<lambda>a. xa_authorization_id a = auth_id) (accepted_of az calls consumed') = []"
      by (auto simp: filter_empty_conv)
    with run plan call show ?thesis by simp
  next
    case False
    with run IH call show ?thesis by (cases res) auto
  qed
qed simp

section \<open>What an accepted capability stands for\<close>

lemma capability_checks_pass:
  assumes "\<forall>(bad, e) \<in> set (capability_checks az io a q). \<not> bad"
  shows "xa_mac_sha256 a = mac_of az a" "xa_issued_at a \<le> float_add (ai_now io) one_second" "ai_now io < xa_expires_at a"
    "float_sub (xa_expires_at a) (xa_issued_at a) \<le> float_add (za_ttl az) one_nano"
    "xa_dialect a = aq_dialect q" "xa_subject_key a = aq_subject_key q"
    "xa_request_identity_sha256 a = hash_identity (za_H az) (ai_identity io)"
    "xa_rewrite_parent_sha256 a = map_option (za_H az) (aq_rewrite_parent q)"
    "xa_task_purpose_sha256 a = za_H az (aq_task_purpose q)" "xa_sql_sha256 a = za_H az (aq_sql q)"
  using assms by (simp_all add: capability_checks_def)

text \<open>The governed state of a request at one moment: its plan, its context, the binding of the snapshot and the
  decision of the engine.\<close>

definition governed_state ::
    "authorizer \<Rightarrow> auth_io \<Rightarrow> auth_request
      \<Rightarrow> (query_plan \<times> context_resolution \<times> governance_snapshot option \<times> policy_decision) result" where
  "governed_state az io q =
     bindr (analyze_exact az q) (\<lambda>plan.
     bindr (resolve_with_binding io plan) (\<lambda>(resolution, binding).
     bindr (evaluate_request io q plan resolution) (\<lambda>d. Inr (plan, resolution, binding, d))))"

lemma governed_state_Inr:
  "governed_state az io q = Inr (plan, resolution, binding, d) \<longleftrightarrow> analyze_exact az q = Inr plan
     \<and> resolve_with_binding io plan = Inr (resolution, binding) \<and> evaluate_request io q plan resolution = Inr d"
  by (auto simp: governed_state_def)

text \<open>C10: authorization_binds. A capability that was issued is accepted only for the request it was issued for and
  only in the governed state it was issued in: at the moment of acceptance it has not expired, the
  engine decides ALLOW without a rewrite, and SQL, purpose, rewrite parent, identity, plan, context,
  policy configuration and decision have the committed hashes, the subject key and the governance
  binding are the very same.\<close>

theorem authorization_binds:
  assumes "issue az io db q commitment expected = (Inr a, issued_db)"
    and "verify_and_consume az io' db' consumed a q' = (Inr plan', consumed')"
  shows "\<exists>plan resolution resolution' binding d d'.
      governed_state az io q = Inr (plan, resolution, binding, d)
    \<and> governed_state az io' q' = Inr (plan', resolution', binding, d')
    \<and> pd_decision d' = ALLOW \<and> \<not> pd_rewrite_required d' \<and> ai_now io' < float_add (ai_now io) (za_ttl az)
    \<and> za_H az (aq_sql q') = za_H az (aq_sql q) \<and> za_H az (aq_task_purpose q') = za_H az (aq_task_purpose q)
    \<and> map_option (za_H az) (aq_rewrite_parent q') = map_option (za_H az) (aq_rewrite_parent q)
    \<and> aq_subject_key q' = aq_subject_key q \<and> aq_dialect q' = ''duckdb''
    \<and> hash_identity (za_H az) (ai_identity io') = hash_identity (za_H az) (ai_identity io)
    \<and> hash_query_plan (za_H az) plan' = hash_query_plan (za_H az) plan
    \<and> hash_context (za_H az) resolution' = hash_context (za_H az) resolution
    \<and> policy_config_sha256 (za_H az) (ai_config io') = policy_config_sha256 (za_H az) (ai_config io)
    \<and> policy_decision_sha256 (za_H az) d' = policy_decision_sha256 (za_H az) d"
proof -
  from assms(1) obtain plan resolution binding d where i: "issue_checks az io db q commitment expected = Inr (plan, resolution, binding, d)"
    "a = unsigned_authorization az io q commitment plan resolution binding d
       \<lparr>xa_mac_sha256 := mac_of az (unsigned_authorization az io q commitment plan resolution binding d)\<rparr>"
    by (auto simp: issue_Inr Let_def)
  from assms(2) have v: "verify_authorization az io' db' a q' = Inr plan'" by (simp add: verify_and_consume_Inr)
  note checked = v [unfolded verify_authorization_Inr]
  note passed = capability_checks_pass [OF conjunct1 [OF conjunct2 [OF checked]], unfolded i(2)]
  from checked obtain resolution' binding' d' where c: "check_request q' = Inr ()" "analyze_exact az q' = Inr plan'"
    "resolve_with_binding io' plan' = Inr (resolution', binding')" "evaluate_request io' q' plan' resolution' = Inr d'"
    "require_allow d' = Inr ()" "xa_query_plan_sha256 a = hash_query_plan (za_H az) plan'"
    "xa_governance_binding a = binding'" "xa_context_sha256 a = hash_context (za_H az) resolution'"
    "xa_policy_sha256 a = policy_config_sha256 (za_H az) (ai_config io')"
    "xa_policy_decision_sha256 a = policy_decision_sha256 (za_H az) d'" by auto
  have issued: "governed_state az io q = Inr (plan, resolution, binding, d)"
    using i(1) by (simp add: issue_checks_Inr governed_state_Inr)
  have bound: "binding' = binding" "hash_query_plan (za_H az) plan' = hash_query_plan (za_H az) plan"
    "hash_context (za_H az) resolution' = hash_context (za_H az) resolution"
    "policy_config_sha256 (za_H az) (ai_config io') = policy_config_sha256 (za_H az) (ai_config io)"
    "policy_decision_sha256 (za_H az) d' = policy_decision_sha256 (za_H az) d"
    using c(6-10) by (simp_all add: i(2))
  have now: "governed_state az io' q' = Inr (plan', resolution', binding, d')"
    using c(2-4) bound(1) by (simp add: governed_state_Inr)
  have allow: "pd_decision d' = ALLOW \<and> \<not> pd_rewrite_required d'" "aq_dialect q' = ''duckdb''"
    using c(1,5) by (auto simp: require_allow_def check_request_def split: if_splits)
  show ?thesis
    by (rule exI [of _ plan], rule exI [of _ resolution], rule exI [of _ resolution'], rule exI [of _ binding],
        rule exI [of _ d], rule exI [of _ d'])
       (use issued now allow bound passed in \<open>simp add: eq_commute\<close>)
qed

section \<open>Single use\<close>

text \<open>C14: single_use. However many calls present a capability, with whatever requests and in whatever states of the
  ledger, at most one is accepted, provided the clock does not run backwards from one call to the
  next; other capabilities may be used in between.\<close>

theorem single_use:
  assumes "sorted (map call_time calls)" and "same_expiry (xa_authorization_id a) (xa_expires_at a) calls"
  shows "length (filter (\<lambda>b. xa_authorization_id b = xa_authorization_id a) (accepted_of az calls consumed)) \<le> 1"
  using assms by (rule accepted_once)

text \<open>C20: stalled_verification_replays. The clock condition of single use is needed. Two verifications of one
  capability that both read the clock before it expired both succeed when a consumption of another
  capability with a reading after the expiry comes between them: it prunes the entry of the first.
  The clock is read at the start of a verification, before the lock is taken.\<close>

theorem stalled_verification_replays:
  assumes "verify_authorization az io1 db1 a q1 = Inr plan1" and "verify_authorization az io2 db2 a q2 = Inr plan2"
    and "xa_expires_at a \<le> now" and "xa_authorization_id b \<noteq> xa_authorization_id a"
    and "consume a (ai_now io1) consumed = (Inr (), used)" and "consume b now used = (res, pruned)"
  shows "verify_and_consume az io1 db1 consumed a q1 = (Inr plan1, used)
    \<and> (\<exists>again. verify_and_consume az io2 db2 pruned a q2 = (Inr plan2, again))"
proof -
  let ?id = "xa_authorization_id a"
  let ?live = "filter (\<lambda>(_, expiry). expiry > ai_now io1) consumed"
  from assms(5) have "?id \<notin> fst ` set ?live" "used = AList.update ?id (xa_expires_at a) ?live"
    unfolding consume_Inr by blast+
  then have "used = ?live @ [(?id, xa_expires_at a)]" by (simp add: update_fresh)
  with assms(3) \<open>?id \<notin> fst ` set ?live\<close> have gone: "?id \<notin> fst ` set (filter (\<lambda>(_, expiry). expiry > now) used)"
    by auto
  from assms(6) have "pruned = filter (\<lambda>(_, expiry). expiry > now) used
      \<or> pruned = AList.update (xa_authorization_id b) (xa_expires_at b) (filter (\<lambda>(_, expiry). expiry > now) used)"
    by (auto simp: consume_def Let_def split: if_splits)
  then have "fst ` set pruned \<subseteq> insert (xa_authorization_id b) (fst ` set (filter (\<lambda>(_, expiry). expiry > now) used))"
    by (elim disjE) (simp_all only: dom_update_subset subset_insertI subset_refl)
  with gone assms(4) have "?id \<notin> fst ` set pruned" by (metis insert_iff subsetD)
  moreover have "fst ` set (filter (\<lambda>(_, expiry). expiry > ai_now io2) pruned) \<subseteq> fst ` set pruned" by auto
  ultimately have fresh: "?id \<notin> fst ` set (filter (\<lambda>(_, expiry). expiry > ai_now io2) pruned)" by blast
  have "\<exists>again. consume a (ai_now io2) pruned = (Inr (), again)" by (rule exI) (simp only: consume_Inr fresh not_False_eq_True simp_thms)
  then show ?thesis using assms(1,2,5) by (simp add: verify_and_consume_Inr)
qed

section \<open>A fresh capability is accepted\<close>

lemma claim_then_verify:
  assumes "claim_commitment env db c a = (Inr u, db')"
  shows "verify_commitment env db' = verify_commitment env db" "verify_authorization_claim env db' c a = Inr ()"
    "is_authorization_id a"
proof -
  from assms have pend: "require_pending env db c = Inr ()" and base: "base_claim_commitment env db c a = (Inr u, db')"
    by (auto simp: claim_commitment_def split: sum.splits)
  obtain r where r: "is_authorization_id a" "record_for_commitment env db c = Inr r" "find_claim db (cm_record_id c) = None"
    "insert_claim db \<lparr>cl_record_id = cm_record_id c, cl_authorization_id = a,
       cl_receipt_id = cm_receipt_id c, cl_content_sha256 = cm_content_sha256 c\<rparr> = Inr db'" by (rule base_claim_Inr [OF base])
  let ?cl = "\<lparr>cl_record_id = cm_record_id c, cl_authorization_id = a, cl_receipt_id = cm_receipt_id c,
    cl_content_sha256 = cm_content_sha256 c\<rparr>"
  have db': "db' = db\<lparr>db_claims := db_claims db @ [?cl]\<rparr>" using r(4) by (simp add: insert_claim_Inr)
  then have same: "db_records db' = db_records db" "db_transitions db' = db_transitions db" by simp_all
  note reads = same_records_reads [OF same(1)] and states = same_transitions [OF same(2)]
  have pending: "require_pending env db' = require_pending env db"
    by (rule ext) (simp add: require_pending_def reads(5) states)
  have "base_verify_commitment env db' = base_verify_commitment env db"
    by (intro ext) (simp add: base_verify_commitment_def list_for_scope_def reads(2))
  with pending show "verify_commitment env db' = verify_commitment env db"
    by (intro ext) (simp add: verify_commitment_def)
  have "find_claim db' (cm_record_id c) = Some ?cl" using r(3) by (simp add: db' find_claim_def find_append)
  moreover have "commitment_of r = c" "record_for_commitment env db' c = Inr r"
    using r(2) by (auto dest: record_for_commitment_Inr simp: reads(5))
  ultimately show "verify_authorization_claim env db' c a = Inr ()"
    using r(1) pend pending by (auto simp: verify_authorization_claim_def base_verify_authorization_claim_def)
  show "is_authorization_id a" by (rule r(1))
qed

lemma claim_for_then_verify:
  assumes "claim_for az db commitment auth_id = (Inr u, db')"
  shows "verify_disclosure az io db' q commitment plan resolution d = verify_disclosure az io db q commitment plan resolution d"
    and "xa_authorization_id a = auth_id \<Longrightarrow> xa_disclosure_commitment a = commitment \<Longrightarrow> verify_claimed az db' a = Inr ()"
  using assms claim_then_verify
  by (auto simp: claim_for_def verify_disclosure_def verify_claimed_def split: option.splits prod.splits)

lemma issued_fields:
  assumes "issue az io db q commitment expected = (Inr a, db')"
  shows "xa_mac_sha256 a = mac_of az a" "xa_issued_at a = ai_now io" "xa_expires_at a = float_add (ai_now io) (za_ttl az)"
    "xa_authorization_id a = ''tj_auth_'' @ ai_token io" "xa_disclosure_commitment a = commitment"
  using assms by (auto simp: issue_Inr Let_def)

text \<open>Nothing but the clock and the token differs between the two calls.\<close>

lemma fresh_verifies:
  assumes "issue az io db q commitment expected = (Inr a, db')"
    and "ai_now io \<le> float_add t one_second" and "t < xa_expires_at a"
  shows "verify_authorization az (io\<lparr>ai_now := t, ai_token := s\<rparr>) db' a q =
      (if float_sub (xa_expires_at a) (ai_now io) \<le> float_add (za_ttl az) one_nano
       then Inr (projr (analyze_exact az q)) else Inl (auth_error ''AUTH_INVALID_TTL''))"
proof -
  from assms(1) obtain plan resolution binding d where i: "issue_checks az io db q commitment expected = Inr (plan, resolution, binding, d)"
    "claim_for az db commitment (''tj_auth_'' @ ai_token io) = (Inr (), db')"
    "a = unsigned_authorization az io q commitment plan resolution binding d
       \<lparr>xa_mac_sha256 := mac_of az (unsigned_authorization az io q commitment plan resolution binding d)\<rparr>"
    by (auto simp: issue_Inr Let_def)
  note issued = i(1) [unfolded issue_checks_Inr]
  have request: "check_request q = Inr ()" and plan: "analyze_exact az q = Inr plan" using issued by simp_all
  note a_simps = issued_fields(1,2,4,5) [OF assms(1)]
  have same: "ai_identity (io\<lparr>ai_now := t, ai_token := s\<rparr>) = ai_identity io"
    "resolve_with_binding (io\<lparr>ai_now := t, ai_token := s\<rparr>) = resolve_with_binding io"
    "evaluate_request (io\<lparr>ai_now := t, ai_token := s\<rparr>) = evaluate_request io"
    "revalidate_binding (io\<lparr>ai_now := t, ai_token := s\<rparr>) = revalidate_binding io"
    "ai_config (io\<lparr>ai_now := t, ai_token := s\<rparr>) = ai_config io"
    "verify_disclosure az (io\<lparr>ai_now := t, ai_token := s\<rparr>) = verify_disclosure az io"
    by (simp_all add: fun_eq_iff step_defs verify_disclosure_def cong: option.case_cong)
  show ?thesis
  proof (cases "float_sub (xa_expires_at a) (ai_now io) \<le> float_add (za_ttl az) one_nano")
    case True
    have "verify_authorization az (io\<lparr>ai_now := t, ai_token := s\<rparr>) db' a q = Inr plan"
      unfolding verify_authorization_Inr
      using True assms(2,3) issued claim_for_then_verify [OF i(2)]
      by (simp add: capability_checks_def same a_simps) (simp add: i(3))
    with True plan show ?thesis by simp
  next
    case False
    with assms(2,3) request show ?thesis by (simp add: verify_authorization_def capability_checks_def a_simps)
  qed
qed

lemma consume_fresh:
  "\<forall>expiry. (xa_authorization_id a, expiry) \<in> set consumed \<longrightarrow> expiry \<le> now \<Longrightarrow> \<exists>consumed'.
     consume a now consumed = (Inr (), consumed') \<and> (xa_authorization_id a, xa_expires_at a) \<in> set consumed'"
  unfolding consume_Inr by (auto simp: not_less update_conv' intro: map_of_SomeD)

lemma consume_used:
  assumes "(xa_authorization_id a, expiry) \<in> set consumed" and "now < expiry"
  shows "\<exists>rest. consume a now consumed = (Inl (auth_error ''AUTH_REPLAYED''), rest)"
proof -
  have "xa_authorization_id a \<in> fst ` set (filter (\<lambda>(_, expiry). expiry > now) consumed)" using assms by force
  then show ?thesis by (simp only: consume_def Let_def if_True) simp
qed

text \<open>C19: issued_accepted. A freshly issued capability is accepted for the same request while nothing has changed,
  at any clock reading between its issue and its expiry, and is refused as a replay when it is
  presented again before it expires. The exception is the lifetime check: the expiry is rounded to a
  double, and a time to live whose rounded lifetime exceeds it by more than the tolerance is refused
  as an invalid one, at every presentation.\<close>

theorem issued_accepted:
  assumes "issue az io db q commitment expected = (Inr a, db')"
    and "io' = io\<lparr>ai_now := now, ai_token := token\<rparr>" and "ai_now io \<le> float_add now one_second" and "now < xa_expires_at a"
    and "\<forall>expiry. (xa_authorization_id a, expiry) \<in> set consumed \<longrightarrow> expiry \<le> now"
  shows "if float_sub (xa_expires_at a) (ai_now io) \<le> float_add (za_ttl az) one_nano
      then \<exists>plan consumed'. verify_and_consume az io' db' consumed a q = (Inr plan, consumed')
        \<and> (\<forall>io'' later. io'' = io'\<lparr>ai_now := later\<rparr> \<longrightarrow> now \<le> later \<longrightarrow> later < xa_expires_at a
             \<longrightarrow> ai_now io \<le> float_add later one_second
             \<longrightarrow> fst (verify_and_consume az io'' db' consumed' a q) = Inl (auth_error ''AUTH_REPLAYED''))
      else verify_and_consume az io' db' consumed a q = (Inl (auth_error ''AUTH_INVALID_TTL''), consumed)"
proof (cases "float_sub (xa_expires_at a) (ai_now io) \<le> float_add (za_ttl az) one_nano")
  case True
  obtain consumed' where used: "consume a now consumed = (Inr (), consumed')" "(xa_authorization_id a, xa_expires_at a) \<in> set consumed'"
    using consume_fresh [OF assms(5)] by blast
  have "verify_and_consume az io' db' consumed a q = (Inr (projr (analyze_exact az q)), consumed')"
    using fresh_verifies [OF assms(1,3,4), of token] True used(1) by (simp add: verify_and_consume_Inr assms(2))
  moreover have "fst (verify_and_consume az (io'\<lparr>ai_now := later\<rparr>) db' consumed' a q) = Inl (auth_error ''AUTH_REPLAYED'')"
    if "later < xa_expires_at a" "ai_now io \<le> float_add later one_second" for later
  proof -
    have "io'\<lparr>ai_now := later\<rparr> = io\<lparr>ai_now := later, ai_token := token\<rparr>" by (cases io) (simp add: assms(2))
    with fresh_verifies [OF assms(1) that(2,1), of token] True consume_used [OF used(2) that(1)]
    show ?thesis by (auto simp: verify_and_consume_def)
  qed
  ultimately show ?thesis using True by auto
next
  case False
  with fresh_verifies [OF assms(1,3,4), of token] show ?thesis by (simp add: verify_and_consume_def assms(2))
qed

section \<open>One release, one execution\<close>

definition ledger_later :: "ledger_env \<Rightarrow> secure_db \<Rightarrow> secure_db \<Rightarrow> bool" where
  "ledger_later env db db' \<longleftrightarrow> (\<exists>ops. db' = fold (\<lambda>(io, op). apply_op env io op) ops db)"

lemma apply_op_claims: "secure_ok env db \<Longrightarrow> \<exists>ys. db_claims (apply_op env io op db) = db_claims db @ ys"
  using apply_op_step [of env io op db] step_appends(2) [of env io op db] by (metis append_Nil2)

lemma later_claims:
  assumes "secure_ok env db" and "ledger_later env db db'"
  shows "\<exists>ys. db_claims db' = db_claims db @ ys"
proof -
  have "\<exists>ys. db_claims (fold (\<lambda>(io, op). apply_op env io op) ops db) = db_claims db @ ys" if "secure_ok env db" for ops db
    using that
  proof (induction ops arbitrary: db)
    case (Cons x ops)
    obtain io op where x: "x = (io, op)" by force
    from Cons.IH [OF apply_op_ok [OF Cons.prems], of io op] apply_op_claims [OF Cons.prems, of io op]
    show ?case by (auto simp: x)
  qed simp
  with assms show ?thesis by (auto simp: ledger_later_def)
qed

lemma verify_claimed_find:
  assumes "verify_claimed az db a = Inr ()" and "xa_disclosure_commitment a = Some c" and "za_ledger az = Some env"
  shows "\<exists>cl. find_claim db (cm_record_id c) = Some cl \<and> cl_authorization_id cl = xa_authorization_id a"
  using assms by (auto simp: verify_claimed_def verify_authorization_claim_def base_verify_authorization_claim_def
      split: if_splits)

lemma one_claimant:
  assumes "verify_claimed az db a = Inr ()" and "verify_claimed az db' b = Inr ()" and "za_ledger az = Some env"
    and "xa_disclosure_commitment a = Some c" and "xa_disclosure_commitment b = Some c"
    and "secure_ok env db" and "ledger_later env db db'"
  shows "xa_authorization_id a = xa_authorization_id b"
proof -
  obtain cl cl' where "find_claim db (cm_record_id c) = Some cl" "cl_authorization_id cl = xa_authorization_id a"
    "find_claim db' (cm_record_id c) = Some cl'" "cl_authorization_id cl' = xa_authorization_id b"
    using verify_claimed_find [OF assms(1,4,3)] verify_claimed_find [OF assms(2,5,3)] by blast
  moreover obtain ys where "db_claims db' = db_claims db @ ys" using later_claims [OF assms(6,7)] by blast
  ultimately show ?thesis by (simp add: find_claim_def find_append)
qed

abbreviation call_ledger :: "auth_io \<times> secure_db \<times> execution_authorization \<times> auth_request \<Rightarrow> secure_db" where
  "call_ledger call \<equiv> fst (snd call)"

lemma accepted_claimed:
  "a \<in> set (accepted_of az calls consumed) \<Longrightarrow> \<exists>call \<in> set calls. call_capability call = a \<and> verify_claimed az (call_ledger call) a = Inr ()"
proof (induction calls arbitrary: consumed)
  case (Cons call calls)
  obtain io db b q where call: "call = (io, db, b, q)" by (metis prod.exhaust)
  obtain res consumed' where run: "verify_and_consume az io db consumed b q = (res, consumed')" by force
  show ?case
  proof (cases "a \<in> set (accepted_of az calls consumed')")
    case True
    from Cons.IH [OF this] show ?thesis by auto
  next
    case False
    with Cons.prems run obtain plan where "res = Inr plan" "a = b" by (cases res) (auto simp: call)
    with run show ?thesis by (auto simp: call verify_and_consume_Inr verify_authorization_Inr)
  qed
qed simp

text \<open>C15: commitment_executes_once. Over any run of the ledger, by any operations between the calls, a reserved
  disclosure executes at most once: of all calls to one authorizer, whatever capabilities they
  present, at most one with this disclosure commitment is accepted, provided that clock readings do
  not run backwards from call to call, that one capability id stands for one expiry, and that the
  ledger changes between the calls by its own operations only.\<close>

theorem commitment_executes_once:
  assumes "za_ledger az = Some env" and "\<forall>call \<in> set calls. secure_ok env (call_ledger call)"
    and "sorted_wrt (ledger_later env) (map call_ledger calls)" and "sorted (map call_time calls)"
    and "\<forall>call \<in> set calls. same_expiry (xa_authorization_id (call_capability call)) (xa_expires_at (call_capability call)) calls"
  shows "length (filter (\<lambda>a. xa_disclosure_commitment a = Some c) (accepted_of az calls consumed)) \<le> 1"
proof (cases "filter (\<lambda>a. xa_disclosure_commitment a = Some c) (accepted_of az calls consumed)")
  case (Cons a rest)
  have claimant: "xa_authorization_id b = xa_authorization_id a"
    if b: "b \<in> set (accepted_of az calls consumed)" "xa_disclosure_commitment b = Some c" for b
  proof -
    have "a \<in> set (accepted_of az calls consumed)" "xa_disclosure_commitment a = Some c"
      using Cons by (auto simp: filter_eq_Cons_iff)
    obtain i j where ij: "i < length calls" "verify_claimed az (call_ledger (calls ! i)) a = Inr ()"
      "j < length calls" "verify_claimed az (call_ledger (calls ! j)) b = Inr ()"
      using accepted_claimed [OF b(1)] accepted_claimed [OF \<open>a \<in> set (accepted_of az calls consumed)\<close>]
      by (auto simp: in_set_conv_nth)
    have refl: "ledger_later env db db" for db unfolding ledger_later_def by (rule exI [of _ "[]"]) simp
    have later: "ledger_later env (call_ledger (calls ! k)) (call_ledger (calls ! l))" if "k \<le> l" "l < length calls" for k l
      using sorted_wrt_nth_less [OF assms(3), of k l] that refl by (cases "k = l") simp_all
    note ok = assms(2) [rule_format, OF nth_mem]
    show ?thesis
    proof (cases "i \<le> j")
      case True
      from one_claimant [OF ij(2,4) assms(1) \<open>xa_disclosure_commitment a = Some c\<close> b(2) ok [OF ij(1)] later [OF True ij(3)]]
      show ?thesis by simp
    next
      case False
      then have "j \<le> i" by simp
      from one_claimant [OF ij(4,2) assms(1) b(2) \<open>xa_disclosure_commitment a = Some c\<close> ok [OF ij(3)] later [OF this ij(1)]]
      show ?thesis .
    qed
  qed
  have "a \<in> set (accepted_of az calls consumed)" using Cons by (auto simp: filter_eq_Cons_iff)
  then obtain call where "call \<in> set calls" "call_capability call = a" by (meson accepted_claimed)
  with assms(5) have "same_expiry (xa_authorization_id a) (xa_expires_at a) calls" by blast
  from accepted_once [OF assms(4) this]
  have "length (filter (\<lambda>b. xa_authorization_id b = xa_authorization_id a) (accepted_of az calls consumed)) \<le> 1" .
  moreover have "length (filter P xs) \<le> length (filter Q xs)" if "\<And>x. x \<in> set xs \<Longrightarrow> P x \<Longrightarrow> Q x" for P Q and xs :: "execution_authorization list"
    using that by (induction xs) auto
  from this [of "accepted_of az calls consumed" "\<lambda>b. xa_disclosure_commitment b = Some c"
      "\<lambda>b. xa_authorization_id b = xa_authorization_id a", OF claimant]
  have "length (filter (\<lambda>b. xa_disclosure_commitment b = Some c) (accepted_of az calls consumed))
    \<le> length (filter (\<lambda>b. xa_authorization_id b = xa_authorization_id a) (accepted_of az calls consumed))" .
  ultimately show ?thesis by (rule order_trans [rotated])
qed simp

section \<open>A sample capability\<close>

text \<open>A grouped query over the sample catalog, with a threshold on the subject, whose disclosure is reserved on an
  empty ledger, authorized at a wall clock of 2026 with a time to live of five seconds, or of a
  fifth of a second. The resolver has provenance: it answers from the catalog with a snapshot binding.\<close>

definition cap_plan :: query_plan where
  "cap_plan = sample_plan\<lparr>
     qp_projected_exposures := [\<lparr>pe_output_name = ''t'', pe_kind = GROUP_KEY, pe_source_columns = [orders_total]\<rparr>,
       \<lparr>pe_output_name = ''subject_count'', pe_kind = AGGREGATE_VALUE, pe_source_columns = [people_pid]\<rparr>],
     qp_group_by_columns := [orders_total], qp_aggregate_functions := [''COUNT''], qp_minimum_group_size_present := Some 25,
     qp_minimum_group_size_subject := Some people_pid, qp_is_grouped := True\<rparr>"

definition cap_resolution :: context_resolution where
  "cap_resolution = projr (resolve (sample_catalog ''u1'' ''u2'') cap_plan)"

definition cap_binding :: governance_snapshot where
  "cap_binding = \<lparr>gb_source = ''datahub'', gb_snapshot_sha256 = zero_sha256, gb_catalog_version = ''v7'',
     gb_observed_at = 1789999900000000, gb_expires_at = 1790000200000000\<rparr>"

definition cap_resolver :: context_resolver where
  "cap_resolver = \<lparr>cv_resolve = resolve (sample_catalog ''u1'' ''u2''),
     cv_bound_resolve = Some (\<lambda>q. bindr (resolve (sample_catalog ''u1'' ''u2'') q) (\<lambda>r. Inr (r, cap_binding))),
     cv_current_binding = Some (Inr cap_binding)\<rparr>"

lemma cap_binding_valid: "validate_snapshot_binding cap_binding = Inr cap_binding"
  by (simp add: validate_snapshot_binding_def cap_binding_def len_between_def)

lemma cap_resolver_simps [simp]:
  "cv_resolve cap_resolver = resolve (sample_catalog ''u1'' ''u2'')" "cv_bound_resolve cap_resolver \<noteq> None"
  "current_governance_binding cap_resolver = Inr (Some cap_binding)"
  by (simp_all add: cap_resolver_def current_governance_binding_def)

lemma cap_resolves [simp]:
  "resolve_with_governance_binding cap_resolver q = bindr (resolve (sample_catalog ''u1'' ''u2'') q) (\<lambda>r. Inr (r, Some cap_binding))"
  by (cases "resolve (sample_catalog ''u1'' ''u2'') q") (simp_all add: cap_resolver_def resolve_with_governance_binding_def)

definition cap_authorizer :: "int \<Rightarrow> authorizer" where
  "cap_authorizer ttl = \<lparr>za_H = (\<lambda>_. zero_sha256), za_hmac = (\<lambda>_. zero_sha256), za_ts = (\<lambda>_. ''''), za_float = (\<lambda>_. ''''),
     za_analyze = (\<lambda>_ _. Inr cap_plan), za_ledger = Some sample_env, za_require_commitment = True, za_ttl = ttl\<rparr>"

definition five_seconds :: int where
  "five_seconds = 5 * one_second"

text \<open>The double nearest to \<open>0.2\<close>.\<close>

definition fifth_second :: int where
  "fifth_second = 0x1999999999999a * 2 ^ 27"

definition wall_clock :: int where
  "wall_clock = 1790000000 * one_second"

definition cap_io :: "int \<Rightarrow> auth_io" where
  "cap_io now = \<lparr>ai_token = replicate 32 CHR ''0'', ai_now = now, ai_identity = Some sample_identity, ai_config = sample_config,
     ai_resolving = cap_resolver, ai_probing = cap_resolver, ai_revalidating = cap_resolver\<rparr>"

definition cap_request :: auth_request where
  "cap_request = \<lparr>aq_sql = ''q'', aq_task_purpose = ''churn'', aq_subject_key = people_pid, aq_privacy_proof = False,
     aq_dialect = ''duckdb'', aq_rewrite_parent = None\<rparr>"

definition cap_event :: disclosure_event where
  "cap_event = projr (build_disclosure_event_from_resolver (\<lambda>_. zero_sha256) sample_identity
     cap_resolver cap_resolution cap_plan people_pid sample_receipt ''0.2.0'')"

definition cap_reserved :: secure_db where
  "cap_reserved = apply_op sample_env sample_io (Commit cap_event ''q'' ''duckdb'') empty_db"

definition cap_commitment :: disclosure_commitment where
  "cap_commitment = the (cd_commitment (projr (fst (evaluate_and_commit sample_env empty_db sample_io cap_event ''q'' ''duckdb''))))"

definition cap_issue :: "int \<Rightarrow> execution_authorization result \<times> secure_db" where
  "cap_issue ttl = issue (cap_authorizer ttl) (cap_io wall_clock) cap_reserved cap_request (Some cap_commitment) (Some cap_binding)"

definition cap_capability :: "int \<Rightarrow> execution_authorization" where
  "cap_capability ttl = projr (fst (cap_issue ttl))"

definition cap_claimed :: secure_db where
  "cap_claimed = apply_op sample_env sample_io (Claim cap_commitment (''tj_auth_'' @ replicate 32 CHR ''0'')) cap_reserved"

lemma cap_checks: "\<not> isl (issue_checks (cap_authorizer 0) (cap_io 0) cap_reserved cap_request (Some cap_commitment) (Some cap_binding))"
  by code_simp

lemma cap_claims: "fst (claim_for (cap_authorizer 0) cap_reserved (Some cap_commitment) (''tj_auth_'' @ replicate 32 CHR ''0'')) = Inr ()"
  by code_simp

lemma cap_issue_succeeds: "\<not> isl (fst (cap_issue ttl))"
proof -
  have same: "issue_checks (cap_authorizer ttl) (cap_io t) = issue_checks (cap_authorizer 0) (cap_io 0)"
    "claim_for (cap_authorizer ttl) = claim_for (cap_authorizer 0)" for t
    by (simp_all add: fun_eq_iff issue_checks_def step_defs verify_disclosure_def claim_for_def cap_authorizer_def cap_io_def
        cong: option.case_cong)
  obtain plan resolution binding d where checks: "issue_checks (cap_authorizer 0) (cap_io 0) cap_reserved cap_request
      (Some cap_commitment) (Some cap_binding) = Inr (plan, resolution, binding, d)"
    using cap_checks by (metis prod_cases4 sum.collapse(2))
  have "has_prefix_hex ''tj_auth_'' 32 (''tj_auth_'' @ replicate 32 CHR ''0'')" by (simp add: has_prefix_hex_def is_hex_zeros)
  moreover have "za_H (cap_authorizer ttl) = (\<lambda>_. zero_sha256)" "ai_token (cap_io wall_clock) = replicate 32 CHR ''0''"
    "aq_dialect cap_request = ''duckdb''" "aq_rewrite_parent cap_request = None"
    by (simp_all add: cap_authorizer_def cap_io_def cap_request_def)
  ultimately have "validate_authorization (unsigned_authorization (cap_authorizer ttl) (cap_io wall_clock) cap_request (Some cap_commitment)
       plan resolution binding d) = Inr (unsigned_authorization (cap_authorizer ttl) (cap_io wall_clock) cap_request (Some cap_commitment)
       plan resolution binding d)"
    by (simp add: validate_authorization_def authorization_checks_def unsigned_authorization_def hash_query_plan_def hash_context_def
        policy_config_sha256_def policy_decision_sha256_def canonical_json_sha256_def hash_identity_def cap_io_def option.map_comp)
  with checks cap_claims show ?thesis
    by (auto simp: cap_issue_def issue_def same split: prod.splits) (simp_all add: cap_io_def)
qed

lemma cap_issue_claims: "isl (fst (cap_issue ttl)) \<or> snd (cap_issue ttl) = cap_claimed"
  by (auto simp: cap_issue_def cap_claimed_def issue_def claim_for_def cap_authorizer_def cap_io_def split: sum.splits prod.splits)

lemma cap_issued: "ttl \<in> {five_seconds, fifth_second} \<Longrightarrow>
   issue (cap_authorizer ttl) (cap_io wall_clock) cap_reserved cap_request (Some cap_commitment) (Some cap_binding) = (Inr (cap_capability ttl), cap_claimed)"
  using cap_issue_succeeds [of ttl] cap_issue_claims [of ttl] unfolding cap_issue_def [symmetric] cap_capability_def
  by (metis prod.collapse sum.collapse(2))

lemma cap_lifetimes:
  "float_add wall_clock five_seconds = wall_clock + five_seconds"
  "float_sub (float_add wall_clock five_seconds) wall_clock \<le> float_add five_seconds one_nano"
  "float_sub (float_add wall_clock fifth_second) wall_clock > float_add fifth_second one_nano"
  "wall_clock + 2 * one_second < float_add wall_clock five_seconds"
  "wall_clock < float_add wall_clock fifth_second"
  "wall_clock \<le> float_add wall_clock one_second" "wall_clock \<le> float_add (wall_clock + one_second) one_second"
  "wall_clock \<le> float_add (wall_clock + 2 * one_second) one_second"
  by code_simp+

lemma cap_fields:
  assumes "ttl \<in> {five_seconds, fifth_second}"
  shows "xa_expires_at (cap_capability ttl) = float_add wall_clock ttl"
    "xa_authorization_id (cap_capability ttl) = ''tj_auth_'' @ replicate 32 CHR ''0''"
    "xa_disclosure_commitment (cap_capability ttl) = Some cap_commitment"
  using issued_fields [OF cap_issued [OF assms]] by (simp_all add: cap_io_def cap_authorizer_def)

lemma cap_times:
  "cap_io t = (cap_io wall_clock)\<lparr>ai_now := t, ai_token := replicate 32 CHR ''0''\<rparr>" "ai_now (cap_io t) = t"
  by (simp_all add: cap_io_def)

lemma five_among: "five_seconds \<in> {five_seconds, fifth_second}" and fifth_among: "fifth_second \<in> {five_seconds, fifth_second}"
  by simp_all

text \<open>Verified one and two seconds after its issue.\<close>

lemma cap_verifies:
  assumes "k \<in> {one_second, 2 * one_second}"
  shows "verify_authorization (cap_authorizer five_seconds) (cap_io (wall_clock + k)) cap_claimed (cap_capability five_seconds) cap_request
     = Inr cap_plan"
proof -
  have "one_second > 0" by (simp add: one_second_def)
  then have "wall_clock \<le> float_add (wall_clock + k) one_second" "wall_clock + k < float_add wall_clock five_seconds"
    using assms cap_lifetimes by auto
  with fresh_verifies [OF cap_issued [OF five_among], of "wall_clock + k" "replicate 32 CHR ''0''"] cap_lifetimes(2)
  show ?thesis unfolding cap_times(1) [of "wall_clock + k"]
    by (simp add: cap_fields [OF five_among] cap_times(2) analyze_exact_def cap_authorizer_def)
qed

lemma cap_consumes:
  "verify_and_consume (cap_authorizer five_seconds) (cap_io (wall_clock + one_second)) cap_claimed [] (cap_capability five_seconds) cap_request
     = (Inr cap_plan, [(xa_authorization_id (cap_capability five_seconds), xa_expires_at (cap_capability five_seconds))])"
  using cap_verifies [of one_second] by (simp add: verify_and_consume_Inr consume_def Let_def)

theorem authorization_binds_witness:
  "\<exists>resolution d. governed_state (cap_authorizer five_seconds) (cap_io (wall_clock + one_second)) cap_request
      = Inr (cap_plan, resolution, Some cap_binding, d) \<and> pd_decision d = ALLOW"
proof -
  obtain plan resolution resolution' binding d d' where b:
    "governed_state (cap_authorizer five_seconds) (cap_io (wall_clock + one_second)) cap_request = Inr (cap_plan, resolution', binding, d')"
    "pd_decision d' = ALLOW"
    using authorization_binds [OF cap_issued [OF five_among] cap_consumes] by (elim exE conjE)
  then have "binding = Some cap_binding"
    by (auto simp: governed_state_Inr resolve_with_binding_def cap_io_def)
  with b show ?thesis by blast
qed

theorem issued_accepted_witness:
  "(\<exists>plan consumed. verify_and_consume (cap_authorizer five_seconds) (cap_io (wall_clock + one_second)) cap_claimed []
        (cap_capability five_seconds) cap_request = (Inr plan, consumed))
   \<and> verify_and_consume (cap_authorizer fifth_second) (cap_io wall_clock) cap_claimed [] (cap_capability fifth_second) cap_request
       = (Inl (auth_error ''AUTH_INVALID_TTL''), [])"
proof
  have "wall_clock + one_second < float_add wall_clock five_seconds" using cap_lifetimes(4) by (simp add: one_second_def)
  with issued_accepted [OF cap_issued [OF five_among] cap_times(1), of "wall_clock + one_second" "[]"] cap_lifetimes
  show "\<exists>plan consumed. verify_and_consume (cap_authorizer five_seconds) (cap_io (wall_clock + one_second)) cap_claimed []
        (cap_capability five_seconds) cap_request = (Inr plan, consumed)"
    by (auto simp: cap_fields [OF five_among] cap_times(2) cap_authorizer_def)
  from issued_accepted [OF cap_issued [OF fifth_among] cap_times(1), of wall_clock "[]"] cap_lifetimes
  show "verify_and_consume (cap_authorizer fifth_second) (cap_io wall_clock) cap_claimed [] (cap_capability fifth_second) cap_request
       = (Inl (auth_error ''AUTH_INVALID_TTL''), [])"
    by (auto simp: cap_fields [OF fifth_among] cap_times(2) cap_authorizer_def not_le [symmetric])
qed

definition cap_calls :: "(auth_io \<times> secure_db \<times> execution_authorization \<times> auth_request) list" where
  "cap_calls = [(cap_io (wall_clock + one_second), cap_claimed, cap_capability five_seconds, cap_request),
     (cap_io (wall_clock + 2 * one_second), cap_claimed, cap_capability five_seconds, cap_request)]"

lemma cap_calls_ordered: "sorted (map call_time cap_calls)"
  "same_expiry (xa_authorization_id (cap_capability five_seconds)) (xa_expires_at (cap_capability five_seconds)) cap_calls"
  by (simp_all add: cap_calls_def cap_times(2) one_second_def same_expiry_def)

lemma cap_accepted_first: "\<exists>rest. accepted_of (cap_authorizer five_seconds) cap_calls [] = cap_capability five_seconds # rest"
  by (simp add: cap_calls_def cap_consumes)

theorem single_use_witness:
  "accepted_of (cap_authorizer five_seconds) cap_calls [] = [cap_capability five_seconds]"
proof -
  obtain rest where rest: "accepted_of (cap_authorizer five_seconds) cap_calls [] = cap_capability five_seconds # rest"
    using cap_accepted_first by blast
  then have "rest = [] \<or> rest = [cap_capability five_seconds]"
    by (auto simp: cap_calls_def cap_consumes split: prod.splits sum.splits)
  then show ?thesis using single_use [OF cap_calls_ordered, of "cap_authorizer five_seconds" "[]"] rest by auto
qed

theorem commitment_executes_once_witness:
  "length (filter (\<lambda>a. xa_disclosure_commitment a = Some cap_commitment) (accepted_of (cap_authorizer five_seconds) cap_calls [])) = 1"
proof -
  have ok: "secure_ok sample_env cap_claimed"
    unfolding cap_claimed_def cap_reserved_def by (intro apply_op_ok empty_db_ok)
  have "ledger_later sample_env cap_claimed cap_claimed" unfolding ledger_later_def by (rule exI [of _ "[]"]) simp
  then have "length (filter (\<lambda>a. xa_disclosure_commitment a = Some cap_commitment) (accepted_of (cap_authorizer five_seconds) cap_calls [])) \<le> 1"
    using ok cap_calls_ordered by (intro commitment_executes_once [of _ sample_env]) (simp_all add: cap_calls_def cap_authorizer_def)
  then show ?thesis using cap_accepted_first cap_fields(3) [OF five_among] by auto
qed

text \<open>A verification that stalls past the expiry of its capability uses it a second time.\<close>

theorem stalled_verification_replays_witness:
  "\<exists>other pruned again. consume other (wall_clock + 6 * one_second)
        [(xa_authorization_id (cap_capability five_seconds), xa_expires_at (cap_capability five_seconds))] = (Inr (), pruned)
     \<and> verify_and_consume (cap_authorizer five_seconds) (cap_io (wall_clock + one_second)) cap_claimed [] (cap_capability five_seconds) cap_request
        = (Inr cap_plan, [(xa_authorization_id (cap_capability five_seconds), xa_expires_at (cap_capability five_seconds))])
     \<and> verify_and_consume (cap_authorizer five_seconds) (cap_io (wall_clock + 2 * one_second)) cap_claimed pruned (cap_capability five_seconds) cap_request
        = (Inr cap_plan, again)"
proof -
  define other where "other = (cap_capability five_seconds)\<lparr>xa_authorization_id := ''tj_auth_other''\<rparr>"
  have id: "xa_authorization_id other \<noteq> xa_authorization_id (cap_capability five_seconds)"
    by (simp add: other_def cap_fields(2) [OF five_among] numeral_eq_Suc)
  have late: "xa_expires_at (cap_capability five_seconds) \<le> wall_clock + 6 * one_second"
    by (simp add: cap_fields(1) [OF five_among] cap_lifetimes(1)) (simp add: five_seconds_def one_second_def)
  let ?used = "[(xa_authorization_id (cap_capability five_seconds), xa_expires_at (cap_capability five_seconds))]"
  obtain pruned where pruned: "consume other (wall_clock + 6 * one_second) ?used = (Inr (), pruned)"
    using late by (simp add: consume_def Let_def)
  have first: "consume (cap_capability five_seconds) (ai_now (cap_io (wall_clock + one_second))) [] = (Inr (), ?used)"
    by (simp add: consume_def Let_def)
  from stalled_verification_replays [OF cap_verifies cap_verifies late id first pruned] pruned
  show ?thesis by blast
qed


end
