(* ===== verification/Verification_Theorems.thy ===== *)
theory Verification_Theorems
  imports Verification Authorization_Theorems
begin

text \<open>
  What a verification run guarantees: rows leave it only when every check passed, under an ALLOW of
  the engine and a consumed capability, bounded in size and, where required, with every group large
  enough; a run pins one governance snapshot; and the ledger counts a release exactly when rows were
  released.
\<close>

section \<open>Verdicts\<close>

lemma verdict_Inr:
  "verdict plan d checks execution attempted err reasons = Inr r \<Longrightarrow> vr_query_plan r = plan \<and> vr_policy_decision r = d
     \<and> vr_checks r = checks \<and> vr_execution r = (if checks \<noteq> [] \<and> list_all vk_passed checks then execution else None)
     \<and> vr_passed r = (checks \<noteq> [] \<and> list_all vk_passed checks) \<and> vr_failure_reason_codes r = reasons
     \<and> vr_execution_attempted r = attempted \<and> vr_execution_error r = err \<and> validate_verification_result r = Inr r"
  by (auto simp: verdict_def Let_def validate_verification_result_def)

text \<open>The verifier builds no result that fails its validation.\<close>

lemma verdict_defined:
  "(execution \<noteq> None \<longrightarrow> attempted) \<Longrightarrow> (reasons \<noteq> [] \<longrightarrow> \<not> list_all vk_passed checks)
     \<Longrightarrow> \<exists>r. verdict plan d checks execution attempted err reasons = Inr r"
  by (auto simp: verdict_def Let_def validate_verification_result_def verification_result_checks_def)

lemma failed_check_simps [simp]: "\<not> vk_passed (failed_check name detail)" "vk_name (failed_check name detail) = name"
  by (simp_all add: failed_check_def)

lemma issued_check_passed [simp]: "vk_passed (issued_check c)"
  by (simp add: issued_check_def)

lemma disclosure_check_simps [simp]: "vk_passed (disclosure_check b t) \<longleftrightarrow> b"
  by (simp add: disclosure_check_def)

section \<open>Results that release rows\<close>

lemma require_authorizer_Inr:
  "require_authorizer ex q what = Inr az \<longleftrightarrow> (\<exists>ty. ex_authorizer ex = Some (az, ty)) \<and> \<not> aq_privacy_proof q"
  by (cases "ex_authorizer ex") (auto simp: require_authorizer_def)

lemma execute_authorized_Inr:
  assumes "execute_authorized ex wh io db consumed a q = (Inr x, consumed')"
  obtains az ty plan where "ex_authorizer ex = Some (az, ty)" "verify_and_consume az io db consumed a q = (Inr plan, consumed')"
    "run_query ex wh az a (aq_sql q) plan = Inr x"
proof (cases "require_authorizer ex q ''execution authorization rejected: ''")
  case (Inl e)
  with assms show thesis by (simp add: execute_authorized_def split: if_splits)
next
  case (Inr az)
  obtain res used where run: "verify_and_consume az io db consumed a q = (res, used)" by force
  obtain ty where ty: "ex_authorizer ex = Some (az, ty)" using Inr by (auto simp: require_authorizer_Inr)
  from assms run Inr have "(case res of Inl e \<Rightarrow> (Inl (authorization_failure ''execution authorization rejected: '' e), used)
      | Inr plan \<Rightarrow> (run_query ex wh az a (aq_sql q) plan, used)) = (Inr x, consumed')"
    by (cases res) (simp_all add: execute_authorized_def split: if_splits)
  with run ty that show thesis by (cases res) simp_all
qed

lemma run_query_plan: "run_query ex wh az a sql plan = Inr x \<Longrightarrow> xr_query_plan x = plan"
  by (auto simp: run_query_def Let_def validate_execution_result_def split: if_splits sum.splits)

lemma execute_and_inspect_released:
  assumes "execute_and_inspect w ex st v plan d checks a = (Inr r, st')" and "vr_execution r = Some x"
  shows "\<exists>az ty. ex_authorizer ex = Some (az, ty)
     \<and> verify_and_consume az (vw_consuming w) (fst st) (snd st) a (vq_request v) = (Inr (xr_query_plan x), snd st')
     \<and> run_query ex (vw_warehouse w) az a (aq_sql (vq_request v)) (xr_query_plan x) = Inr x
     \<and> (\<exists>inspected. result_checks w v plan x = Inr inspected \<and> vr_checks r = checks @ inspected) \<and> list_all vk_passed (vr_checks r) \<and> vr_passed r
     \<and> vr_query_plan r = Some plan \<and> vr_policy_decision r = Some d \<and> fst st' = fst st"
proof -
  obtain res consumed where run: "execute_authorized ex (vw_warehouse w) (vw_consuming w) (fst st) (snd st) a (vq_request v) = (res, consumed)"
    by force
  show ?thesis
  proof (cases res)
    case (Inl e)
    with run assms show ?thesis
      by (cases e) (auto simp: execute_and_inspect_def dest!: verdict_Inr)
  next
    case (Inr y)
    with run assms obtain inspected where inspected: "result_checks w v plan y = Inr inspected"
      and v: "verdict (Some plan) (Some d) (checks @ inspected) (Some y) True None [] = Inr r" "fst st' = fst st" "snd st' = consumed"
      by (auto simp: execute_and_inspect_def)
    note fields = verdict_Inr [OF v(1)]
    have passed: "list_all vk_passed (checks @ inspected)" and [simp]: "y = x"
      using fields assms(2) by (auto split: if_splits)
    from run Inr have "execute_authorized ex (vw_warehouse w) (vw_consuming w) (fst st) (snd st) a (vq_request v) = (Inr x, consumed)" by simp
    then obtain az ty plan' where az: "ex_authorizer ex = Some (az, ty)"
      "verify_and_consume az (vw_consuming w) (fst st) (snd st) a (vq_request v) = (Inr plan', consumed)"
      "run_query ex (vw_warehouse w) az a (aq_sql (vq_request v)) plan' = Inr x" by (rule execute_authorized_Inr)
    have "vr_passed r" using fields assms(2) by (metis option.distinct(1))
    with az passed inspected fields v(2,3) show ?thesis unfolding run_query_plan [OF az(3)]
      by (intro exI [of _ az] exI [of _ ty]) simp
  qed
qed

lemma authorize_and_execute_released:
  assumes "authorize_and_execute w ex st v plan d checks commitment expected = (Inr r, st')" and "vr_execution r = Some x"
  shows "\<exists>az ty a db. ex_authorizer ex = Some (az, ty)
     \<and> issue az (vw_issuing w) (fst st) (vq_request v) commitment expected = (Inr a, db) \<and> fst st' = db
     \<and> verify_and_consume az (vw_consuming w) db (snd st) a (vq_request v) = (Inr (xr_query_plan x), snd st')
     \<and> run_query ex (vw_warehouse w) az a (aq_sql (vq_request v)) (xr_query_plan x) = Inr x
     \<and> (\<exists>inspected. result_checks w v plan x = Inr inspected \<and> vr_checks r = checks @ [issued_check commitment] @ inspected)
     \<and> list_all vk_passed (vr_checks r) \<and> vr_passed r \<and> vr_query_plan r = Some plan \<and> vr_policy_decision r = Some d
     \<and> bind_authority ex (vw_resolver_id w) (vw_engine_id w) (map_option fst (vw_ledger w)) (vq_require_commitment v) = Inr ()"
proof (cases "bind_authority ex (vw_resolver_id w) (vw_engine_id w) (map_option fst (vw_ledger w)) (vq_require_commitment v)")
  case (Inl e)
  with assms show ?thesis by (cases e) (auto simp: authorize_and_execute_def dest!: verdict_Inr)
next
  case (Inr u)
  obtain res db where issued: "issue_authorization ex (vw_issuing w) (fst st) (vq_request v) commitment expected = (res, db)" by force
  show ?thesis
  proof (cases res)
    case (Inl e)
    with Inr issued assms show ?thesis by (cases e) (auto simp: authorize_and_execute_def dest!: verdict_Inr)
  next
    case a: (Inr a)
    with Inr issued assms(1) have "execute_and_inspect w ex (db, snd st) v plan d (checks @ [issued_check commitment]) a = (Inr r, st')"
      by (simp add: authorize_and_execute_def)
    from execute_and_inspect_released [OF this assms(2)] obtain az ty where x: "ex_authorizer ex = Some (az, ty)"
      "verify_and_consume az (vw_consuming w) db (snd st) a (vq_request v) = (Inr (xr_query_plan x), snd st')"
      "run_query ex (vw_warehouse w) az a (aq_sql (vq_request v)) (xr_query_plan x) = Inr x"
      "\<exists>inspected. result_checks w v plan x = Inr inspected \<and> vr_checks r = (checks @ [issued_check commitment]) @ inspected" "list_all vk_passed (vr_checks r)" "vr_passed r"
      "vr_query_plan r = Some plan" "vr_policy_decision r = Some d" "fst st' = db" by auto
    have "issue az (vw_issuing w) (fst st) (vq_request v) commitment expected = (Inr a, db)"
      using issued a x(1) by (auto simp: issue_authorization_def require_authorizer_def split: if_splits prod.splits)
    with x Inr show ?thesis by auto
  qed
qed

section \<open>What a run does to the ledger\<close>

lemma claim_commitment_same:
  assumes "claim_commitment env db c a = (res, db')"
  shows "db_records db' = db_records db" "db_transitions db' = db_transitions db"
proof -
  have "db' = db \<or> (\<exists>cl. insert_claim db cl = Inr db')"
  proof (cases "require_pending env db c")
    case (Inr u)
    with assms have base: "base_claim_commitment env db c a = (res, db')" by (simp add: claim_commitment_def)
    show ?thesis
    proof (cases res)
      case (Inl e)
      with claim_result [OF base] show ?thesis by simp
    next
      case (Inr u')
      with base_claim_Inr [of env db c a u' db'] base show ?thesis by metis
    qed
  qed (use assms in \<open>simp add: claim_commitment_def\<close>)
  then show "db_records db' = db_records db" "db_transitions db' = db_transitions db"
    by (auto simp: insert_claim_Inr)
qed

lemma claim_for_ledger:
  "snd (claim_for az db commitment a) = db
     \<or> (\<exists>env c. za_ledger az = Some env \<and> snd (claim_for az db commitment a) = snd (claim_commitment env db c a))"
proof (cases commitment)
  case (Some c)
  show ?thesis
  proof (cases "za_ledger az")
    case (Some env)
    have "snd (claim_for az db commitment a) = snd (claim_commitment env db c a)"
      using \<open>commitment = Some c\<close> Some by (cases "claim_commitment env db c a") (simp add: claim_for_def)
    with Some show ?thesis by blast
  qed (simp add: claim_for_def Some)
qed (simp add: claim_for_def)

lemma issue_ledger:
  assumes "issue az io db q commitment expected = (res, db')"
  shows "db_records db' = db_records db" "db_transitions db' = db_transitions db"
    and "za_ledger az = Some env \<Longrightarrow> secure_ok env db \<Longrightarrow> secure_ok env db'"
proof -
  have "db' = db \<or> (\<exists>env' c a. za_ledger az = Some env' \<and> db' = snd (claim_commitment env' db c a))"
  proof (cases "issue_checks az io db q commitment expected")
    case (Inr s)
    obtain plan resolution binding d where s: "s = (plan, resolution, binding, d)" by (metis prod_cases4)
    obtain cres cdb where c: "claim_for az db commitment (''tj_auth_'' @ ai_token io) = (cres, cdb)" by force
    have "db' = cdb" using assms unfolding issue_def Inr s c by (cases cres) simp_all
    moreover have "cdb = snd (claim_for az db commitment (''tj_auth_'' @ ai_token io))" by (simp only: c snd_conv)
    ultimately show ?thesis using claim_for_ledger [of az db commitment "''tj_auth_'' @ ai_token io"] by metis
  qed (use assms in \<open>simp add: issue_def\<close>)
  then have "db_records db' = db_records db \<and> db_transitions db' = db_transitions db
      \<and> (za_ledger az = Some env \<longrightarrow> secure_ok env db \<longrightarrow> secure_ok env db')"
  proof (elim disjE exE conjE)
    fix env' c a assume ledger: "za_ledger az = Some env'" and db': "db' = snd (claim_commitment env' db c a)"
    then have "claim_commitment env' db c a = (fst (claim_commitment env' db c a), db')" by simp
    note same = claim_commitment_same [OF this]
    have "secure_ok env' db \<Longrightarrow> secure_ok env' db'"
      using apply_op_ok [of env' db _ "Claim c a"] unfolding db' by simp
    with same ledger show ?thesis by auto
  qed simp
  then show "db_records db' = db_records db" "db_transitions db' = db_transitions db"
    and "za_ledger az = Some env \<Longrightarrow> secure_ok env db \<Longrightarrow> secure_ok env db'" by simp_all
qed

text \<open>Objects that are identical to the verifier's are the same object.\<close>

definition same_objects :: "verify_world \<Rightarrow> executor \<Rightarrow> bool" where
  "same_objects w ex \<longleftrightarrow> (\<forall>az ty. ex_authorizer ex = Some (az, ty) \<longrightarrow> ty_ledger ty = map_option fst (vw_ledger w)
      \<longrightarrow> za_ledger az = map_option snd (vw_ledger w))"

lemma bind_authority_ledger:
  assumes "bind_authority ex resolver engine (map_option fst (vw_ledger w)) required = Inr u" and "same_objects w ex"
    and "ex_authorizer ex = Some (az, ty)"
  shows "za_ledger az = map_option snd (vw_ledger w)"
  using assms by (auto simp: bind_authority_def same_objects_def split: if_splits)

lemma execute_and_inspect_ledger: "fst (snd (execute_and_inspect w ex st v plan d checks a)) = fst st"
proof -
  obtain res consumed where "execute_authorized ex (vw_warehouse w) (vw_consuming w) (fst st) (snd st) a (vq_request v) = (res, consumed)"
    by force
  then show ?thesis
    by (cases res; cases "projl res") (simp_all add: execute_and_inspect_def)
qed

lemma authorize_and_execute_ledger:
  assumes "same_objects w ex" and "vw_ledger w = Some (l, env)"
  shows "db_records (fst (snd (authorize_and_execute w ex st v plan d checks commitment expected))) = db_records (fst st)"
    "db_transitions (fst (snd (authorize_and_execute w ex st v plan d checks commitment expected))) = db_transitions (fst st)"
    "secure_ok env (fst st) \<Longrightarrow> secure_ok env (fst (snd (authorize_and_execute w ex st v plan d checks commitment expected)))"
proof -
  let ?bind = "bind_authority ex (vw_resolver_id w) (vw_engine_id w) (map_option fst (vw_ledger w)) (vq_require_commitment v)"
  let ?db = "fst (snd (authorize_and_execute w ex st v plan d checks commitment expected))"
  have "?db = fst st \<or> (\<exists>az res. za_ledger az = Some env \<and> issue az (vw_issuing w) (fst st) (vq_request v) commitment expected = (res, ?db))"
  proof (cases ?bind)
    case (Inl e)
    then show ?thesis by (cases e) (simp_all add: authorize_and_execute_def)
  next
    case (Inr u)
    obtain res db where issued: "issue_authorization ex (vw_issuing w) (fst st) (vq_request v) commitment expected = (res, db)" by force
    have db: "?db = db" using Inr issued
      by (cases res; cases "projl res") (simp_all add: authorize_and_execute_def execute_and_inspect_ledger)
    show ?thesis
    proof (cases "require_authorizer ex (vq_request v) ''execution authorization issuance rejected: ''")
      case (Inl e)
      with issued db show ?thesis by (simp add: issue_authorization_def)
    next
      case az: (Inr az)
      then obtain ty where ty: "ex_authorizer ex = Some (az, ty)" by (auto simp: require_authorizer_Inr)
      from bind_authority_ledger [OF Inr assms(1) ty] have "za_ledger az = Some env" by (simp add: assms(2))
      moreover have "snd (issue az (vw_issuing w) (fst st) (vq_request v) commitment expected) = db"
        using issued az by (auto simp: issue_authorization_def split: prod.splits)
      ultimately show ?thesis unfolding db by (metis prod.collapse)
    qed
  qed
  then show "db_records ?db = db_records (fst st)" "db_transitions ?db = db_transitions (fst st)"
    "secure_ok env (fst st) \<Longrightarrow> secure_ok env ?db"
    using issue_ledger by (metis, metis, metis)
qed

text \<open>One record was reserved and nothing else changed.\<close>

definition reserved_by :: "ledger_env \<Rightarrow> secure_db \<Rightarrow> disclosure_record \<Rightarrow> secure_db \<Rightarrow> bool" where
  "reserved_by env db rec db' \<longleftrightarrow> db_records db' = db_records db @ [row_of rec] \<and> row_to_record env (row_of rec) = Inr rec
     \<and> dr_record_id rec \<notin> lr_record_id ` set (db_records db) \<and> release_state_of db' (dr_record_id rec) = Inr PENDING
     \<and> (\<forall>rid. rid \<noteq> dr_record_id rec \<longrightarrow> release_state_of db' rid = release_state_of db rid)"

lemma event_receipt:
  "build_disclosure_event_from_resolver H identity probing resolution plan subject receipt_id version = Inr event
     \<Longrightarrow> ev_receipt_id event = receipt_id"
  by (auto simp: build_disclosure_event_from_resolver_def event_of_def validate_event_def)

lemma reserve_ledger:
  assumes "reserve w db v probing plan resolution d = (res, db')" and "secure_ok env db"
    and "vw_ledger w = Some (l, env)" and "vq_receipt_id v = Some receipt_id"
    and "receipt_id \<notin> lr_receipt_id ` set (db_records db)"
  shows "secure_ok env db'" and "db' = db \<and> (\<forall>c extra. res \<noteq> Inr (Inr (c, extra)))
     \<or> (\<exists>rec extra. reserved_by env db rec db' \<and> ev_receipt_id (dr_event rec) = receipt_id
          \<and> res = Inr (Inr (Some (commitment_of rec), extra)))"
proof -
  have "secure_ok env db' \<and> (db' = db \<and> (\<forall>c extra. res \<noteq> Inr (Inr (c, extra)))
     \<or> (\<exists>rec extra. reserved_by env db rec db' \<and> ev_receipt_id (dr_event rec) = receipt_id
          \<and> res = Inr (Inr (Some (commitment_of rec), extra))))"
  proof (cases "vw_identity w")
    case None
    with assms show ?thesis by (auto simp: reserve_def)
  next
    case (Some identity)
    obtain cres cdb where c: "reserve_with w db v env identity receipt_id probing plan resolution d = (cres, cdb)" by force
    with assms(1,3,4) Some have res: "res = settle_reservation cres" "db' = cdb" by (auto simp: reserve_def)
    show ?thesis
    proof (cases cres)
      case (Inl e)
      with c have "cdb = db"
        by (auto simp: reserve_with_def evaluate_and_commit_def split: sum.splits dest: finish_Inl)
      with Inl res assms(2) show ?thesis by (auto simp: settle_reservation_def)
    next
      case (Inr cd)
      with c obtain event where event: "build_disclosure_event_from_resolver (vw_H w) identity probing resolution plan
          (aq_subject_key (vq_request v)) receipt_id (pd_policy_version d) = Inr event"
        and commit: "evaluate_and_commit env db (vw_ledger_io w) event (aq_sql (vq_request v)) (aq_dialect (vq_request v)) = (Inr cd, db')"
        by (auto simp: reserve_with_def res(2) split: sum.splits)
      have ok': "secure_ok env db'"
        using apply_op_ok [OF assms(2), of "vw_ledger_io w" "Commit event (aq_sql (vq_request v)) (aq_dialect (vq_request v))"] commit by simp
      from commit assms(2) show ?thesis
      proof (cases rule: commit_outcome)
        case (replay b old)
        then have "ev_receipt_id b = receipt_id" using bind_event_scope [OF replay(1)] event_receipt [OF event] by auto
        then have "existing_receipt env db (ev_receipt_id b) = Inr None"
          using assms(5) by (force simp: existing_receipt_None)
        with replay(7) show ?thesis by simp
      next
        case denial
        with ok' show ?thesis by (simp add: res(1) Inr settle_reservation_def)
      next
        case (fresh b h r mid)
        note after = commit_after [OF assms(2) fresh(2-4)]
        have "ev_receipt_id b = receipt_id" using bind_event_scope [OF fresh(1)] event_receipt [OF event] by auto
        moreover have "reserved_by env db r db'"
          unfolding reserved_by_def using after(1,3,5,6,7) by simp
        moreover have "res = Inr (Inr (Some (commitment_of r), [disclosure_check True (composition_detail ''release committed by '' cd)]))"
          using fresh(5,7) by (simp add: res(1) Inr settle_reservation_def)
        ultimately show ?thesis using ok' after(4) by blast
      qed
    qed
  qed
  then show "secure_ok env db'" and "db' = db \<and> (\<forall>c extra. res \<noteq> Inr (Inr (c, extra)))
     \<or> (\<exists>rec extra. reserved_by env db rec db' \<and> ev_receipt_id (dr_event rec) = receipt_id
          \<and> res = Inr (Inr (Some (commitment_of rec), extra)))" by blast+
qed

lemma reserved_by_same:
  "reserved_by env db rec db1 \<Longrightarrow> db_records db2 = db_records db1 \<Longrightarrow> db_transitions db2 = db_transitions db1
     \<Longrightarrow> reserved_by env db rec db2"
  using same_transitions(2) [of db2 db1] by (simp add: reserved_by_def)

text \<open>The whole core run: without a reservation nothing changed and no rows come out.\<close>

lemma verify_core_ledger:
  assumes "verify_core w ex st v resolving probing expected = (res, st')" and "secure_ok env (fst st)"
    and "vw_ledger w = Some (l, env)" and "vq_receipt_id v = Some receipt_id"
    and "receipt_id \<notin> lr_receipt_id ` set (db_records (fst st))" and "same_objects w ex"
  shows "secure_ok env (fst st')" and "fst st' = fst st \<and> (\<forall>r. res = Inr r \<longrightarrow> vr_execution r = None)
     \<or> (\<exists>rec. reserved_by env (fst st) rec (fst st') \<and> ev_receipt_id (dr_event rec) = receipt_id)"
proof -
  let ?goal = "secure_ok env (fst st') \<and> (fst st' = fst st \<and> (\<forall>r. res = Inr r \<longrightarrow> vr_execution r = None)
     \<or> (\<exists>rec. reserved_by env (fst st) rec (fst st') \<and> ev_receipt_id (dr_event rec) = receipt_id))"
  have quiet: ?goal if "st' = st" "\<And>r. res = Inr r \<Longrightarrow> vr_execution r = None" using that assms(2) by simp
  have ?goal
  proof (cases "vw_analyze w (aq_sql (vq_request v)) (aq_dialect (vq_request v))")
    case (Inl e)
    with assms(1) show ?thesis
      by (intro quiet) (cases e; auto simp: verify_core_def dest!: verdict_Inr)+
  next
    case plan: (Inr plan)
    show ?thesis
    proof (cases "decide w resolving v plan")
      case (Inl e)
      with plan assms(1) show ?thesis by (intro quiet) (simp_all add: verify_core_def)
    next
      case (Inr rd)
      obtain resolution d where rd: "rd = (resolution, d)" by force
      let ?checks = "static_checks plan d v"
      show ?thesis
      proof (cases "list_all vk_passed ?checks")
        case False
        with plan Inr rd assms(1) show ?thesis
          by (intro quiet) (auto simp: verify_core_def Let_def dest!: verdict_Inr)
      next
        case True
        obtain rres db1 where r: "reserve w (fst st) v probing plan resolution d = (rres, db1)" by force
        note reserved = reserve_ledger [OF r assms(2-5)]
        from plan Inr rd True r assms(1) have core: "(case rres of Inl e \<Rightarrow> (Inl e, db1, snd st)
            | Inr (Inl (check, reason)) \<Rightarrow> (verdict (Some plan) (Some d) (?checks @ [check]) None False None [reason], db1, snd st)
            | Inr (Inr (commitment, extra)) \<Rightarrow> authorize_and_execute w ex (db1, snd st) v plan d (?checks @ extra) commitment expected)
            = (res, st')"
          by (cases rres rule: sum.exhaust; cases "projr rres") (auto simp: verify_core_def Let_def)
        show ?thesis
        proof (cases "\<exists>c extra. rres = Inr (Inr (c, extra))")
          case True
          then obtain c extra where c: "rres = Inr (Inr (c, extra))" by blast
          with reserved(2) obtain rec where rec: "reserved_by env (fst st) rec db1" "ev_receipt_id (dr_event rec) = receipt_id" by auto
          from core c have st': "st' = snd (authorize_and_execute w ex (db1, snd st) v plan d (?checks @ extra) c expected)" by simp
          note same = authorize_and_execute_ledger [OF assms(6,3), of "(db1, snd st)" v plan d "?checks @ extra" c expected, folded st']
          with reserved(1) reserved_by_same [OF rec(1), of "fst st'"] rec(2) show ?thesis by auto
        next
          case False
          with reserved(2) have "db1 = fst st" by auto
          with core False show ?thesis
            by (intro quiet; cases rres; cases "projr rres") (auto dest!: verdict_Inr)
        qed
      qed
    qed
  qed
  then show "secure_ok env (fst st')" and "fst st' = fst st \<and> (\<forall>r. res = Inr r \<longrightarrow> vr_execution r = None)
     \<or> (\<exists>rec. reserved_by env (fst st) rec (fst st') \<and> ev_receipt_id (dr_event rec) = receipt_id)" by blast+
qed

section \<open>Runs that release rows\<close>

text \<open>Everything a core run has established when rows come out.\<close>

definition engine_decision :: "verify_world \<Rightarrow> verify_request \<Rightarrow> query_plan \<Rightarrow> context_resolution \<Rightarrow> policy_decision result" where
  "engine_decision w v plan resolution =
     bindr (to_policy_input resolution (aq_task_purpose (vq_request v)) plan (Some (aq_subject_key (vq_request v))) None)
       (evaluate (vw_config w))"

lemma decide_Inr:
  "decide w resolving v plan = Inr (resolution, d) \<longleftrightarrow> cv_resolve resolving plan = Inr resolution \<and> engine_decision w v plan resolution = Inr d"
  by (auto simp: decide_def engine_decision_def)

definition released_by ::
    "verify_world \<Rightarrow> executor \<Rightarrow> verify_state \<Rightarrow> verify_request \<Rightarrow> context_resolver \<Rightarrow> context_resolver \<Rightarrow> governance_snapshot option
      \<Rightarrow> verification_result \<Rightarrow> execution_result \<Rightarrow> verify_state \<Rightarrow> query_plan \<Rightarrow> context_resolution \<Rightarrow> policy_decision
      \<Rightarrow> disclosure_commitment option \<Rightarrow> authorizer \<Rightarrow> execution_authorization \<Rightarrow> secure_db \<Rightarrow> bool" where
  "released_by w ex st v resolving probing expected r x st' plan resolution d commitment az a reserved \<longleftrightarrow>
     vw_analyze w (aq_sql (vq_request v)) (aq_dialect (vq_request v)) = Inr plan
   \<and> cv_resolve resolving plan = Inr resolution \<and> engine_decision w v plan resolution = Inr d
   \<and> list_all vk_passed (static_checks plan d v)
   \<and> (\<exists>extra. reserve w (fst st) v probing plan resolution d = (Inr (Inr (commitment, extra)), reserved))
   \<and> bind_authority ex (vw_resolver_id w) (vw_engine_id w) (map_option fst (vw_ledger w)) (vq_require_commitment v) = Inr ()
   \<and> (\<exists>ty. ex_authorizer ex = Some (az, ty))
   \<and> issue az (vw_issuing w) reserved (vq_request v) commitment expected = (Inr a, fst st')
   \<and> verify_and_consume az (vw_consuming w) (fst st') (snd st) a (vq_request v) = (Inr (xr_query_plan x), snd st')
   \<and> run_query ex (vw_warehouse w) az a (aq_sql (vq_request v)) (xr_query_plan x) = Inr x
   \<and> (\<exists>inspected. result_checks w v plan x = Inr inspected \<and> list_all vk_passed inspected) \<and> vr_passed r \<and> list_all vk_passed (vr_checks r)
   \<and> vr_query_plan r = Some plan \<and> vr_policy_decision r = Some d"

lemma verify_core_released:
  assumes "verify_core w ex st v resolving probing expected = (Inr r, st')" and "vr_execution r = Some x"
  shows "\<exists>plan resolution d commitment az a reserved.
    released_by w ex st v resolving probing expected r x st' plan resolution d commitment az a reserved"
proof (cases "vw_analyze w (aq_sql (vq_request v)) (aq_dialect (vq_request v))")
  case (Inl e)
  with assms show ?thesis by (cases e) (auto simp: verify_core_def dest!: verdict_Inr)
next
  case plan: (Inr plan)
  show ?thesis
  proof (cases "decide w resolving v plan")
    case (Inl e)
    with plan assms show ?thesis by (simp add: verify_core_def)
  next
    case (Inr rd)
    obtain resolution d where rd: "rd = (resolution, d)" by force
    let ?checks = "static_checks plan d v"
    have static: "list_all vk_passed ?checks"
      using plan Inr rd assms by (auto simp: verify_core_def Let_def split: if_splits dest!: verdict_Inr)
    obtain rres db1 where r: "reserve w (fst st) v probing plan resolution d = (rres, db1)" by force
    have "\<exists>commitment extra. rres = Inr (Inr (commitment, extra))"
      using plan Inr rd static r assms
      by (cases rres; cases "projr rres") (auto simp: verify_core_def Let_def dest!: verdict_Inr)
    then obtain commitment extra where c: "rres = Inr (Inr (commitment, extra))" by blast
    with plan Inr rd static r assms(1)
    have "authorize_and_execute w ex (db1, snd st) v plan d (?checks @ extra) commitment expected = (Inr r, st')"
      by (simp add: verify_core_def Let_def)
    from authorize_and_execute_released [OF this assms(2)] obtain az ty a db inspected where
      "ex_authorizer ex = Some (az, ty)" "issue az (vw_issuing w) db1 (vq_request v) commitment expected = (Inr a, db)" "fst st' = db"
      "verify_and_consume az (vw_consuming w) db (snd st) a (vq_request v) = (Inr (xr_query_plan x), snd st')"
      "run_query ex (vw_warehouse w) az a (aq_sql (vq_request v)) (xr_query_plan x) = Inr x"
      "result_checks w v plan x = Inr inspected" "vr_checks r = (?checks @ extra) @ [issued_check commitment] @ inspected"
      "list_all vk_passed (vr_checks r)" "vr_passed r" "vr_query_plan r = Some plan" "vr_policy_decision r = Some d"
      "bind_authority ex (vw_resolver_id w) (vw_engine_id w) (map_option fst (vw_ledger w)) (vq_require_commitment v) = Inr ()"
      by (elim exE conjE) (rule that, simp_all)
    with plan Inr static r c have
      "released_by w ex st v resolving probing expected r x st' plan resolution d commitment az a db1"
      unfolding released_by_def rd decide_Inr by simp
    then show ?thesis by blast
  qed
qed

lemma sanitize_simps [simp]:
  "vr_passed (sanitize_execution_failure r) = vr_passed r" "vr_execution (sanitize_execution_failure r) = vr_execution r"
  by (simp_all add: sanitize_execution_failure_def Let_def)

lemma sanitize_passed: "list_all vk_passed (vr_checks r) \<Longrightarrow> sanitize_execution_failure r = r"
  by (auto simp: sanitize_execution_failure_def execution_failed_def list_all_iff list_ex_iff)

lemma finalize_release_rows:
  "finalize_release w db v r = (Inr r', db') \<Longrightarrow> vr_execution r' \<noteq> None \<Longrightarrow> r' = r"
  by (auto simp: finalize_release_def disclosure_state_failure_def Let_def validate_verification_result_def
      split: option.splits sum.splits prod.splits)

lemma run_core_released:
  assumes "run_core w ex st v resolving probing expected = (Inr r, st')" and "vr_execution r = Some x"
  shows "\<exists>db plan resolution d commitment az a reserved.
    verify_core w ex st v resolving probing expected = (Inr r, db, snd st')
    \<and> released_by w ex st v resolving probing expected r x (db, snd st') plan resolution d commitment az a reserved"
proof -
  obtain res db consumed where core: "verify_core w ex st v resolving probing expected = (res, db, consumed)" by (metis prod_cases3)
  show ?thesis
  proof (cases res)
    case (Inl e)
    with core assms show ?thesis by (auto simp: run_core_def split: sum.splits prod.splits)
  next
    case (Inr r0)
    with core assms(1) have f: "finalize_release w db v (sanitize_execution_failure r0) = (Inr r, fst st')" "snd st' = consumed"
      by (auto simp: run_core_def split: prod.splits)
    have r: "r = sanitize_execution_failure r0" using finalize_release_rows [OF f(1)] assms(2) by simp
    with assms(2) have x0: "vr_execution r0 = Some x" by simp
    from core Inr have core0: "verify_core w ex st v resolving probing expected = (Inr r0, db, consumed)" by simp
    from verify_core_released [OF core0 x0] have "\<exists>plan resolution d commitment az a reserved.
        released_by w ex st v resolving probing expected r0 x (db, consumed) plan resolution d commitment az a reserved" .
    moreover from this have "r = r0" unfolding r by (auto simp: released_by_def intro!: sanitize_passed)
    ultimately show ?thesis using core0 f(2) by auto
  qed
qed

lemma governance_failure_rows: "governance_failure plan reason detail = Inr r \<Longrightarrow> vr_execution r = None"
  by (auto simp: governance_failure_def validate_verification_result_def)

lemma governance_handler_rows: "governance_handler plan e = Inr r \<Longrightarrow> vr_execution r = None"
  by (cases e) (simp_all add: governance_failure_rows)

lemma capture_binding_Inr:
  "capture_binding w v plan = Inr (resolution, binding) \<longleftrightarrow>
     resolve_with_governance_binding (vw_resolving w) plan = Inr (resolution, Some binding)
     \<and> (vq_expected_binding v = None \<or> vq_expected_binding v = Some binding)"
  by (auto simp: capture_binding_def require_same_governance_binding_def split: option.splits if_splits)

lemma pinned_resolve:
  "cv_resolve (pinned_resolver resolver plan resolution binding) plan = Inr resolution' \<Longrightarrow>
     resolution' = resolution \<and> current_governance_binding resolver = Inr (Some binding)"
  by (auto simp: pinned_resolver_def pinned_bound_def assert_binding_def require_same_governance_binding_def split: if_splits)

lemma released_by_plan:
  "released_by w ex st v resolving probing expected r x st' plan resolution d commitment az a reserved \<Longrightarrow>
     vw_analyze w (aq_sql (vq_request v)) (aq_dialect (vq_request v)) = Inr plan \<and> cv_resolve resolving plan = Inr resolution"
  by (simp add: released_by_def)

text \<open>The resolution and the binding the run works with are read once, where the wrapper resolves the query.\<close>

definition run_released ::
    "verify_world \<Rightarrow> executor \<Rightarrow> verify_state \<Rightarrow> verify_request \<Rightarrow> verification_result \<Rightarrow> execution_result \<Rightarrow> verify_state
      \<Rightarrow> query_plan \<Rightarrow> context_resolution \<Rightarrow> governance_snapshot option \<Rightarrow> policy_decision \<Rightarrow> disclosure_commitment option
      \<Rightarrow> authorizer \<Rightarrow> execution_authorization \<Rightarrow> secure_db \<Rightarrow> secure_db \<Rightarrow> bool" where
  "run_released w ex st v r x st' plan resolution binding d commitment az a reserved db \<longleftrightarrow>
     resolve_with_governance_binding (vw_resolving w) plan = Inr (resolution, binding)
   \<and> (vq_expected_binding v = None \<or> binding = vq_expected_binding v)
   \<and> (binding \<noteq> None \<longrightarrow> current_governance_binding (vw_asserting w) = Inr binding)
   \<and> (\<exists>resolving probing. released_by w ex st v resolving probing binding r x (db, snd st') plan resolution d commitment az a reserved)"

lemma verify_and_execute_released:
  assumes "verify_and_execute w ex st v = (Inr r, st')" and "vr_execution r = Some x"
  shows "\<exists>plan resolution binding d commitment az a reserved db.
    run_released w ex st v r x st' plan resolution binding d commitment az a reserved db"
proof (cases "verify_and_execute w ex st v = run_core w ex st v (vw_resolving w) (vw_probing w) None
    \<and> (cv_bound_resolve (vw_resolving w) = None \<and> vq_expected_binding v = None
       \<or> (\<exists>e. vw_analyze w (aq_sql (vq_request v)) (aq_dialect (vq_request v)) = Inl e))")
  case True
  with assms have "run_core w ex st v (vw_resolving w) (vw_probing w) None = (Inr r, st')" by simp
  from run_core_released [OF this assms(2)] obtain db plan resolution d commitment az a reserved where
    r: "released_by w ex st v (vw_resolving w) (vw_probing w) None r x (db, snd st') plan resolution d commitment az a reserved" by blast
  note plan = released_by_plan [OF r]
  with True have "cv_bound_resolve (vw_resolving w) = None" "vq_expected_binding v = None" by auto
  with plan r have "run_released w ex st v r x st' plan resolution None d commitment az a reserved db"
    by (auto simp: run_released_def resolve_with_governance_binding_def)
  then show ?thesis by blast
next
  case False
  then obtain plan where plan: "vw_analyze w (aq_sql (vq_request v)) (aq_dialect (vq_request v)) = Inr plan"
    and bound: "cv_bound_resolve (vw_resolving w) \<noteq> None"
    using assms by (auto simp: verify_and_execute_def Let_def dest: governance_failure_rows split: sum.splits error.splits if_splits)
  show ?thesis
  proof (cases "capture_binding w v plan")
    case (Inl e)
    with plan bound assms governance_handler_rows [of plan e r] show ?thesis by (auto simp: verify_and_execute_def Let_def)
  next
    case (Inr rb)
    obtain resolution binding where rb: "rb = (resolution, binding)" by force
    let ?pinned = "\<lambda>resolver. pinned_resolver resolver plan resolution binding"
    obtain res st1 where run: "run_core w ex st v (?pinned (vw_asserting w)) (?pinned (vw_probing w)) (Some binding) = (res, st1)"
      by (rule prod.exhaust)
    with plan bound Inr rb assms have "res = Inr r \<and> st1 = st'"
      using governance_handler_rows [of plan _ r] by (cases res) (auto simp: verify_and_execute_def Let_def)
    with run have "run_core w ex st v (?pinned (vw_asserting w)) (?pinned (vw_probing w)) (Some binding) = (Inr r, st')" by simp
    from run_core_released [OF this assms(2)] obtain db plan' resolution' d commitment az a reserved where
      r: "released_by w ex st v (?pinned (vw_asserting w)) (?pinned (vw_probing w)) (Some binding) r x (db, snd st')
            plan' resolution' d commitment az a reserved" by blast
    from released_by_plan [OF r] plan have "plan' = plan" "cv_resolve (?pinned (vw_asserting w)) plan = Inr resolution'" by auto
    with pinned_resolve [OF this(2)] r Inr rb have
      "run_released w ex st v r x st' plan resolution (Some binding) d commitment az a reserved db"
      by (auto simp: run_released_def capture_binding_Inr)
    then show ?thesis by blast
  qed
qed

section \<open>The rows that come out\<close>

lemma normalize_rows_Inr:
  "normalize_rows l columns rows done_rows = Inr out \<Longrightarrow>
     \<exists>new. out = done_rows @ new \<and> mapr (mapr (normalize_cell l)) rows = Inr new
       \<and> (rows \<noteq> [] \<longrightarrow> serialized_bytes (payload_json columns out) \<le> ol_max_result_bytes l)"
proof (induction rows arbitrary: done_rows)
  case (Cons row rows)
  from Cons.prems obtain normalized where n: "mapr (normalize_cell l) row = Inr normalized"
    "serialized_bytes (payload_json columns (done_rows @ [normalized])) \<le> ol_max_result_bytes l"
    "normalize_rows l columns rows (done_rows @ [normalized]) = Inr out"
    by (auto split: if_splits)
  from Cons.IH [OF n(3)] n(1,2) Cons.prems show ?case by (cases rows) auto
qed simp

lemma run_query_Inr:
  assumes "run_query ex wh az a sql plan = Inr x"
  shows "\<not> qp_contains_wildcard plan" "\<exists>rows. wh_run wh sql = Inr (xr_columns x, rows)
     \<and> mapr (mapr (normalize_cell (ex_limits ex))) (take (ex_max_preview_rows ex) rows) = Inr (xr_rows x)
     \<and> (xr_truncated x \<longleftrightarrow> length rows > ex_max_preview_rows ex)
     \<and> (take (ex_max_preview_rows ex) rows \<noteq> []
         \<longrightarrow> serialized_bytes (payload_json (xr_columns x) (xr_rows x)) \<le> ol_max_result_bytes (ex_limits ex))"
proof -
  show "\<not> qp_contains_wildcard plan" using assms by (simp add: run_query_def split: if_splits)
  then show "\<exists>rows. wh_run wh sql = Inr (xr_columns x, rows)
     \<and> mapr (mapr (normalize_cell (ex_limits ex))) (take (ex_max_preview_rows ex) rows) = Inr (xr_rows x)
     \<and> (xr_truncated x \<longleftrightarrow> length rows > ex_max_preview_rows ex)
     \<and> (take (ex_max_preview_rows ex) rows \<noteq> []
         \<longrightarrow> serialized_bytes (payload_json (xr_columns x) (xr_rows x)) \<le> ol_max_result_bytes (ex_limits ex))"
    using assms by (auto simp: run_query_def Let_def validate_execution_result_def min_def split: sum.splits if_splits dest!: normalize_rows_Inr)
qed

lemma normalize_cell_bound: "normalize_cell l c = Inr j \<Longrightarrow> serialized_bytes j \<le> ol_max_cell_bytes l"
  by (auto simp: normalize_cell_def split: if_splits sum.splits)

lemma group_sizes_Some:
  "group_sizes float_int index rows = Inr (Some sizes) \<Longrightarrow> list_all2 (\<lambda>row n. cell_int float_int index row = Inr (Some n)) rows sizes"
  by (induction rows arbitrary: sizes) (auto split: sum.splits option.splits)

lemma sizes_check_passed:
  assumes "sizes_check w v plan x = Inr k" and "vk_passed k"
  shows "count_column_proven v plan x \<and> \<not> xr_truncated x \<and> xr_rows x \<noteq> []
     \<and> (\<forall>row \<in> set (xr_rows x). \<exists>n. cell_int (vw_float_int w) (count_index v x) row = Inr (Some n) \<and> vq_required_minimum v \<le> n)"
proof -
  have shown: "count_column_proven v plan x" "\<not> xr_truncated x" using assms by (auto simp: sizes_check_def split: if_splits)
  with assms obtain counts where counts: "group_sizes (vw_float_int w) (count_index v x) (xr_rows x) = Inr counts"
    by (auto simp: sizes_check_def)
  obtain sizes where sizes: "counts = Some sizes" "sizes \<noteq> []" "vq_required_minimum v \<le> Min (set sizes)"
    using assms shown counts by (cases counts; cases "the counts") (auto simp: sizes_check_def simp del: Min_insert Min_ge_iff)
  note counts = group_sizes_Some [OF counts [unfolded sizes(1)]]
  have "\<exists>n. cell_int (vw_float_int w) (count_index v x) row = Inr (Some n) \<and> vq_required_minimum v \<le> n" if "row \<in> set (xr_rows x)" for row
  proof -
    obtain i where i: "i < length (xr_rows x)" "xr_rows x ! i = row"
      using \<open>row \<in> set (xr_rows x)\<close> by (auto simp: in_set_conv_nth)
    then have n: "sizes ! i \<in> set sizes" "cell_int (vw_float_int w) (count_index v x) row = Inr (Some (sizes ! i))"
      using list_all2_nthD [OF counts i(1)] list_all2_lengthD [OF counts] by simp_all
    from n(1) have "Min (set sizes) \<le> sizes ! i" by (rule Min_le [OF finite_set])
    with sizes(3) have "vq_required_minimum v \<le> sizes ! i" by (rule order_trans)
    with n(2) show ?thesis by blast
  qed
  with sizes shown counts show ?thesis by auto
qed

lemma reserve_commitment:
  assumes "reserve w db v probing plan resolution d = (Inr (Inr (commitment, extra)), db')"
  shows "commitment = None \<longleftrightarrow> vw_ledger w = None \<and> \<not> vq_require_commitment v"
proof (cases "vw_ledger w = None \<and> \<not> vq_require_commitment v")
  case True
  with assms show ?thesis by (simp add: reserve_def)
next
  case False
  have "settle_reservation res = Inr (Inr (commitment, extra)) \<Longrightarrow> commitment \<noteq> None" for res
    by (auto simp: settle_reservation_def split: sum.splits bool.splits option.splits if_splits) metis
  with False assms show ?thesis by (auto simp: reserve_def split: option.splits prod.splits)
qed

lemma static_checks_passed:
  assumes "list_all vk_passed (static_checks plan d v)"
  shows "pd_decision d = ALLOW"
    "vq_require_threshold v \<Longrightarrow> threshold_matches plan (aq_subject_key (vq_request v)) (vq_required_minimum v)"
    "semantic_forbidden_outputs plan (map py_lower (vq_forbidden_fields v)) = ([], [])"
  using assms by (auto simp: static_checks_def policy_check_def threshold_check_def forbidden_check_def Let_def split: prod.splits)

lemma consumed_governed:
  assumes "issue az io db q commitment binding = (Inr a, db1)"
    and "verify_and_consume az io' db2 consumed a q' = (Inr plan', consumed')"
  shows "\<exists>plan resolution resolution' d d'. governed_state az io q = Inr (plan, resolution, binding, d)
    \<and> governed_state az io' q' = Inr (plan', resolution', binding, d') \<and> pd_decision d' = ALLOW \<and> \<not> pd_rewrite_required d'
    \<and> current_governance_binding (ai_revalidating io) = Inr binding
    \<and> current_governance_binding (ai_revalidating io') = Inr binding"
proof -
  from assms(1) obtain plan resolution d where i: "governed_state az io q = Inr (plan, resolution, binding, d)"
    "revalidate_binding io binding = Inr ()" "xa_governance_binding a = binding"
    by (auto simp: issue_Inr Let_def issue_checks_Inr governed_state_Inr)
  from assms(2) obtain resolution' d' where c: "governed_state az io' q' = Inr (plan', resolution', binding, d')"
    "require_allow d' = Inr ()" "revalidate_binding io' binding = Inr ()"
    by (auto simp: verify_and_consume_Inr verify_authorization_Inr governed_state_Inr i(3))
  from i c show ?thesis
    by (auto simp: require_allow_def revalidate_binding_def require_same_governance_binding_def split: if_splits)
qed

text \<open>C2: release_sound. Rows leave a run only when every check passed. Then the engine decided ALLOW on the context
  the run had read, no output of the plan exposes a forbidden field, a capability was issued for
  this request, by the authorizer bound to the executor, under the binding that came with that context, and a disclosure was reserved for it
  when a ledger is kept; the capability was consumed, and at that moment the engine decided ALLOW
  again, without a rewrite, under the same binding, for the plan whose rows are returned.\<close>

theorem release_sound:
  assumes "verify_and_execute w ex st v = (Inr r, st')" and "vr_execution r = Some x"
  shows "vr_passed r \<and> list_all vk_passed (vr_checks r)
    \<and> (\<exists>plan resolution binding d commitment az a reserved db resolution' d'.
         vw_analyze w (aq_sql (vq_request v)) (aq_dialect (vq_request v)) = Inr plan
       \<and> (\<exists>ty. ex_authorizer ex = Some (az, ty))
       \<and> resolve_with_governance_binding (vw_resolving w) plan = Inr (resolution, binding)
       \<and> engine_decision w v plan resolution = Inr d \<and> pd_decision d = ALLOW
       \<and> semantic_forbidden_outputs plan (map py_lower (vq_forbidden_fields v)) = ([], [])
       \<and> (commitment = None \<longleftrightarrow> vw_ledger w = None \<and> \<not> vq_require_commitment v)
       \<and> issue az (vw_issuing w) reserved (vq_request v) commitment binding = (Inr a, db)
       \<and> verify_and_consume az (vw_consuming w) db (snd st) a (vq_request v) = (Inr (xr_query_plan x), snd st')
       \<and> governed_state az (vw_consuming w) (vq_request v) = Inr (xr_query_plan x, resolution', binding, d')
       \<and> pd_decision d' = ALLOW \<and> \<not> pd_rewrite_required d')"
proof -
  from verify_and_execute_released [OF assms] obtain plan resolution binding d commitment az a reserved db resolving probing where
    run: "resolve_with_governance_binding (vw_resolving w) plan = Inr (resolution, binding)"
    "released_by w ex st v resolving probing binding r x (db, snd st') plan resolution d commitment az a reserved"
    by (auto simp: run_released_def)
  note rel = run(2) [unfolded released_by_def fst_conv snd_conv]
  from rel obtain extra where res: "reserve w (fst st) v probing plan resolution d = (Inr (Inr (commitment, extra)), reserved)" by blast
  have issued: "issue az (vw_issuing w) reserved (vq_request v) commitment binding = (Inr a, db)"
    and used: "verify_and_consume az (vw_consuming w) db (snd st) a (vq_request v) = (Inr (xr_query_plan x), snd st')"
    and static: "list_all vk_passed (static_checks plan d v)" using rel by simp_all
  from consumed_governed [OF issued used] obtain resolution' d' where
    "governed_state az (vw_consuming w) (vq_request v) = Inr (xr_query_plan x, resolution', binding, d')"
    "pd_decision d' = ALLOW" "\<not> pd_rewrite_required d'" by blast
  with run(1) rel issued used static_checks_passed(1,3) [OF static] reserve_commitment [OF res] show ?thesis by blast
qed

text \<open>C17: one_snapshot. A run that releases rows works with one governance snapshot from its beginning to its end:
  the binding that came with the first resolution is the one the caller expected, if it expected
  one, the one at the verifier's own read, the one of the context for which the capability is
  issued and the one of the context for which it is consumed, and it is still the current one at the
  end of both.\<close>

theorem one_snapshot:
  assumes "verify_and_execute w ex st v = (Inr r, st')" and "vr_execution r = Some x"
  shows "\<exists>plan resolution binding az.
       (\<exists>ty. ex_authorizer ex = Some (az, ty)) \<and> resolve_with_governance_binding (vw_resolving w) plan = Inr (resolution, binding)
     \<and> (vq_expected_binding v = None \<or> binding = vq_expected_binding v)
     \<and> (binding \<noteq> None \<longrightarrow> current_governance_binding (vw_asserting w) = Inr binding)
     \<and> (\<forall>io \<in> {vw_issuing w, vw_consuming w}. current_governance_binding (ai_revalidating io) = Inr binding
          \<and> (\<exists>plan' resolution' d'. governed_state az io (vq_request v) = Inr (plan', resolution', binding, d')))"
proof -
  from verify_and_execute_released [OF assms] obtain plan resolution binding d commitment az a reserved db resolving probing where
    run: "resolve_with_governance_binding (vw_resolving w) plan = Inr (resolution, binding)"
    "vq_expected_binding v = None \<or> binding = vq_expected_binding v"
    "binding \<noteq> None \<longrightarrow> current_governance_binding (vw_asserting w) = Inr binding"
    "released_by w ex st v resolving probing binding r x (db, snd st') plan resolution d commitment az a reserved"
    unfolding run_released_def by blast
  note rel = run(4) [unfolded released_by_def fst_conv snd_conv]
  have "issue az (vw_issuing w) reserved (vq_request v) commitment binding = (Inr a, db)"
    and "verify_and_consume az (vw_consuming w) db (snd st) a (vq_request v) = (Inr (xr_query_plan x), snd st')"
    using rel by simp_all
  note governed = consumed_governed [OF this]
  then have "\<forall>io \<in> {vw_issuing w, vw_consuming w}. current_governance_binding (ai_revalidating io) = Inr binding
      \<and> (\<exists>plan' resolution' d'. governed_state az io (vq_request v) = Inr (plan', resolution', binding, d'))" by blast
  with run(1-3) rel show ?thesis by blast
qed

text \<open>C18: released_rows_bounded. The rows that come out are the first ones the warehouse answered to the exact query
  text, cell by cell in their JSON form, never more than the preview limit; no cell and no payload
  exceeds its byte budget, counted as the UTF-8 bytes of its unescaped JSON text, and the plan selects no wildcard.\<close>

theorem released_rows_bounded:
  assumes "verify_and_execute w ex st v = (Inr r, st')" and "vr_execution r = Some x"
  shows "\<exists>rows. wh_run (vw_warehouse w) (aq_sql (vq_request v)) = Inr (xr_columns x, rows)
     \<and> list_all2 (list_all2 (\<lambda>c j. normalize_cell (ex_limits ex) c = Inr j)) (take (ex_max_preview_rows ex) rows) (xr_rows x)
     \<and> length (xr_rows x) \<le> ex_max_preview_rows ex \<and> (xr_truncated x \<longleftrightarrow> length (xr_rows x) < length rows)
     \<and> (\<forall>row \<in> set (xr_rows x). \<forall>j \<in> set row. serialized_bytes j \<le> ol_max_cell_bytes (ex_limits ex))
     \<and> (xr_rows x \<noteq> [] \<longrightarrow> serialized_bytes (payload_json (xr_columns x) (xr_rows x)) \<le> ol_max_result_bytes (ex_limits ex))
     \<and> \<not> qp_contains_wildcard (xr_query_plan x)"
proof -
  from verify_and_execute_released [OF assms] obtain az a where
    run: "run_query ex (vw_warehouse w) az a (aq_sql (vq_request v)) (xr_query_plan x) = Inr x"
    by (auto simp: run_released_def released_by_def)
  obtain rows where rows: "wh_run (vw_warehouse w) (aq_sql (vq_request v)) = Inr (xr_columns x, rows)"
    "mapr (mapr (normalize_cell (ex_limits ex))) (take (ex_max_preview_rows ex) rows) = Inr (xr_rows x)"
    "xr_truncated x \<longleftrightarrow> length rows > ex_max_preview_rows ex"
    "take (ex_max_preview_rows ex) rows \<noteq> [] \<longrightarrow> serialized_bytes (payload_json (xr_columns x) (xr_rows x)) \<le> ol_max_result_bytes (ex_limits ex)"
    using run_query_Inr(2) [OF run] by blast
  have len: "length (xr_rows x) = min (length rows) (ex_max_preview_rows ex)" using mapr_length [OF rows(2)] by simp
  have "serialized_bytes j \<le> ol_max_cell_bytes (ex_limits ex)" if "row \<in> set (xr_rows x)" "j \<in> set row" for row j
    using mapr_member [OF rows(2) that(1)] that(2) by (auto dest: mapr_member intro: normalize_cell_bound)
  moreover have "xr_rows x \<noteq> [] \<Longrightarrow> take (ex_max_preview_rows ex) rows \<noteq> []" using mapr_length [OF rows(2)] by (metis length_0_conv)
  ultimately show ?thesis using rows len run_query_Inr(1) [OF run]
    by (intro exI [of _ rows]) (auto simp: mapr_Inr_iff)
qed

text \<open>C16: released_groups_large. With a subject threshold, rows come out only for a complete answer in which every
  group is large enough: the column with the count is proven by the lineage of the plan to count
  distinct values of the subject key, the plan itself has the threshold on that key, there is at
  least one group, none was cut off, and the count in every row the warehouse answered reaches the
  required minimum.\<close>

theorem released_groups_large:
  assumes "verify_and_execute w ex st v = (Inr r, st')" and "vr_execution r = Some x" and "vq_require_threshold v"
  shows "\<exists>plan rows. vw_analyze w (aq_sql (vq_request v)) (aq_dialect (vq_request v)) = Inr plan
     \<and> threshold_matches plan (aq_subject_key (vq_request v)) (vq_required_minimum v)
     \<and> subject_count_is_governed plan (vq_subject_count_column v) (aq_subject_key (vq_request v))
     \<and> wh_run (vw_warehouse w) (aq_sql (vq_request v)) = Inr (xr_columns x, rows) \<and> rows \<noteq> [] \<and> length (xr_rows x) = length rows
     \<and> list_all (\<lambda>row. \<exists>j n. count_index v x < length row \<and> normalize_cell (ex_limits ex) (row ! count_index v x) = Inr j
          \<and> json_int (vw_float_int w) j = Inr (Some n) \<and> vq_required_minimum v \<le> n) rows"
proof -
  from verify_and_execute_released [OF assms(1,2)] obtain plan d az a where
    plan: "vw_analyze w (aq_sql (vq_request v)) (aq_dialect (vq_request v)) = Inr plan" "list_all vk_passed (static_checks plan d v)"
    and run: "run_query ex (vw_warehouse w) az a (aq_sql (vq_request v)) (xr_query_plan x) = Inr x"
    and checks: "\<exists>inspected. result_checks w v plan x = Inr inspected \<and> list_all vk_passed inspected"
    by (auto simp: run_released_def released_by_def)
  then obtain sizes where "sizes_check w v plan x = Inr sizes" "vk_passed sizes" using assms(3) by (auto simp: result_checks_def)
  note passed = sizes_check_passed [OF this]
  obtain rows where rows: "wh_run (vw_warehouse w) (aq_sql (vq_request v)) = Inr (xr_columns x, rows)"
    "mapr (mapr (normalize_cell (ex_limits ex))) (take (ex_max_preview_rows ex) rows) = Inr (xr_rows x)"
    "xr_truncated x \<longleftrightarrow> length rows > ex_max_preview_rows ex" using run_query_Inr(2) [OF run] by blast
  with passed have all: "list_all2 (list_all2 (\<lambda>c j. normalize_cell (ex_limits ex) c = Inr j)) rows (xr_rows x)"
    by (simp add: mapr_Inr_iff)
  have "\<exists>j n. count_index v x < length row \<and> normalize_cell (ex_limits ex) (row ! count_index v x) = Inr j
      \<and> json_int (vw_float_int w) j = Inr (Some n) \<and> vq_required_minimum v \<le> n" if "row \<in> set rows" for row
  proof -
    from all that obtain out where out: "out \<in> set (xr_rows x)" "list_all2 (\<lambda>c j. normalize_cell (ex_limits ex) c = Inr j) row out"
      by (metis in_set_conv_nth list_all2_conv_all_nth)
    from passed out(1) obtain n where "cell_int (vw_float_int w) (count_index v x) out = Inr (Some n)" "vq_required_minimum v \<le> n" by blast
    with out(2) show ?thesis by (auto simp: cell_int_def list_all2_conv_all_nth split: if_splits)
  qed
  moreover have "rows \<noteq> []" using all passed by auto
  moreover have "length (xr_rows x) = length rows" using all by (auto dest: list_all2_lengthD)
  ultimately show ?thesis using plan(1) rows(1) passed static_checks_passed(2) [OF plan(2) assms(3)]
    by (intro exI [of _ plan] exI [of _ rows]) (simp add: count_column_proven_def list_all_iff)
qed

section \<open>The history after a run\<close>

text \<open>Rows of a run, and what becomes of its reservation.\<close>

definition rows_out :: "verification_result result \<Rightarrow> bool" where
  "rows_out res \<longleftrightarrow> (case res of Inl _ \<Rightarrow> False | Inr r \<Rightarrow> vr_execution r \<noteq> None)"

definition settled_by :: "ledger_env \<Rightarrow> secure_db \<Rightarrow> string \<Rightarrow> release_state \<Rightarrow> secure_db \<Rightarrow> bool" where
  "settled_by env db receipt_id final db' \<longleftrightarrow>
     (\<exists>rec. db_records db' = db_records db @ [row_of rec] \<and> row_to_record env (row_of rec) = Inr rec
        \<and> ev_receipt_id (dr_event rec) = receipt_id \<and> release_state_of db' (dr_record_id rec) = Inr final
        \<and> (\<forall>rid. rid \<noteq> dr_record_id rec \<longrightarrow> release_state_of db' rid = release_state_of db rid))"

lemma reserved_by_found:
  assumes "reserved_by env db rec db1" and "secure_ok env db1"
  shows "commitment_for_receipt env db1 (ev_receipt_id (dr_event rec)) = Inr (Some (commitment_of rec))"
    "record_for_commitment env db1 (commitment_of rec) = Inr rec" "cm_record_id (commitment_of rec) = dr_record_id rec"
proof -
  have row: "row_of rec \<in> set (db_records db1)" "row_to_record env (row_of rec) = Inr rec"
    using assms(1) by (simp_all add: reserved_by_def)
  have ok: "records_ok env db1" using assms(2) by (simp add: secure_ok_def ledger_ok_def)
  show "record_for_commitment env db1 (commitment_of rec) = Inr rec"
    by (rule record_for_commitment_stored [OF ok row])
  show "commitment_for_receipt env db1 (ev_receipt_id (dr_event rec)) = Inr (Some (commitment_of rec))"
    by (simp add: commitment_for_receipt_def existing_receipt_stored(2) [OF ok row])
  show "cm_record_id (commitment_of rec) = dr_record_id rec" by (simp add: commitment_of_def)
qed

lemma terminal_settled:
  assumes "reserved_by env db rec db1" and "final \<noteq> PENDING"
  shows "settled_by env db (ev_receipt_id (dr_event rec)) final
    (db1\<lparr>db_transitions := db_transitions db1 @ [(dr_record_id rec, final)]\<rparr>)"
proof -
  let ?db = "db1\<lparr>db_transitions := db_transitions db1 @ [(dr_record_id rec, final)]\<rparr>"
  have "transition_states db1 (dr_record_id rec) = [PENDING]"
    using assms(1) by (simp add: reserved_by_def release_state_of_Inr)
  then have "release_state_of ?db (dr_record_id rec) = Inr final"
    using assms(2) by (cases final) (simp_all add: release_state_of_Inr transition_states_insert)
  moreover have "release_state_of ?db rid = release_state_of db1 rid" if "rid \<noteq> dr_record_id rec" for rid
    using that by (simp add: release_state_of_def transition_states_insert)
  ultimately show ?thesis using assms(1) by (auto simp: settled_by_def reserved_by_def)
qed

lemma reserved_by_aborts:
  assumes "reserved_by env db rec db1" and "secure_ok env db1"
  shows "fst (mark_aborted env db1 (commitment_of rec)) = Inr ()"
    "settled_by env db (ev_receipt_id (dr_event rec)) ABORTED (snd (mark_aborted env db1 (commitment_of rec)))"
    "secure_ok env (snd (mark_aborted env db1 (commitment_of rec)))"
proof -
  note found = reserved_by_found [OF assms]
  have "release_state_of db1 (cm_record_id (commitment_of rec)) = Inr PENDING"
    using assms(1) found(3) by (simp add: reserved_by_def)
  note aborted = mark_aborted_pending [OF found(2) this]
  show "fst (mark_aborted env db1 (commitment_of rec)) = Inr ()" by (simp add: aborted)
  show "settled_by env db (ev_receipt_id (dr_event rec)) ABORTED (snd (mark_aborted env db1 (commitment_of rec)))"
    using terminal_settled [OF assms(1), of ABORTED] by (simp add: aborted found(3))
  show "secure_ok env (snd (mark_aborted env db1 (commitment_of rec)))"
    using apply_op_ok [OF assms(2), of _ "Abort (commitment_of rec)"] by simp
qed

lemma reserved_by_releases:
  assumes "reserved_by env db rec db1" and "secure_ok env db1" and "find_claim db1 (dr_record_id rec) \<noteq> None"
  shows "fst (mark_released env db1 (commitment_of rec)) = Inr ()"
    "settled_by env db (ev_receipt_id (dr_event rec)) RELEASED (snd (mark_released env db1 (commitment_of rec)))"
    "secure_ok env (snd (mark_released env db1 (commitment_of rec)))"
proof -
  note found = reserved_by_found [OF assms(1,2)]
  have pending: "release_state_of db1 (cm_record_id (commitment_of rec)) = Inr PENDING"
    using assms(1) found(3) by (simp add: reserved_by_def)
  have claimed: "find_claim db1 (cm_record_id (commitment_of rec)) \<noteq> None" using assms(3) found(3) by simp
  note released = mark_released_pending [OF found(2) pending claimed]
  show "fst (mark_released env db1 (commitment_of rec)) = Inr ()" by (simp add: released)
  show "settled_by env db (ev_receipt_id (dr_event rec)) RELEASED (snd (mark_released env db1 (commitment_of rec)))"
    using terminal_settled [OF assms(1), of RELEASED] by (simp add: released found(3))
  show "secure_ok env (snd (mark_released env db1 (commitment_of rec)))"
    using apply_op_ok [OF assms(2), of _ "Release (commitment_of rec)"] by simp
qed

text \<open>A release was reserved and claimed.\<close>

lemma released_claimed:
  assumes "released_by w ex st v resolving probing expected r x st' plan resolution d commitment az a reserved"
    and "vw_ledger w = Some (l, env)" and "same_objects w ex" and "commitment = Some c"
  shows "find_claim (fst st') (cm_record_id c) \<noteq> None"
proof -
  note rel = assms(1) [unfolded released_by_def]
  obtain ty where ty: "ex_authorizer ex = Some (az, ty)" using rel by blast
  from rel have "bind_authority ex (vw_resolver_id w) (vw_engine_id w) (map_option fst (vw_ledger w)) (vq_require_commitment v) = Inr ()" by blast
  from bind_authority_ledger [OF this assms(3) ty] have env: "za_ledger az = Some env" by (simp add: assms(2))
  from rel have issued: "issue az (vw_issuing w) reserved (vq_request v) commitment expected = (Inr a, fst st')"
    and used: "verify_and_consume az (vw_consuming w) (fst st') (snd st) a (vq_request v) = (Inr (xr_query_plan x), snd st')" by blast+
  have "xa_disclosure_commitment a = Some c" using issued_fields(5) [OF issued] assms(4) by simp
  moreover have "verify_claimed az (fst st') a = Inr ()" using used by (auto simp: verify_and_consume_Inr verify_authorization_Inr)
  ultimately show ?thesis using verify_claimed_find env by blast
qed

lemma core_release_claimed:
  assumes "verify_core w ex st v resolving probing expected = (Inr r, st')" and "vr_execution r = Some x" and "secure_ok env (fst st)"
    and "vw_ledger w = Some (l, env)" and "vq_receipt_id v = Some receipt_id"
    and "receipt_id \<notin> lr_receipt_id ` set (db_records (fst st))" and "same_objects w ex"
  shows "\<exists>rec. reserved_by env (fst st) rec (fst st') \<and> ev_receipt_id (dr_event rec) = receipt_id
    \<and> find_claim (fst st') (dr_record_id rec) \<noteq> None"
proof -
  from verify_core_released [OF assms(1,2)] obtain plan resolution d commitment az a reserved where
    rel: "released_by w ex st v resolving probing expected r x st' plan resolution d commitment az a reserved" by blast
  then obtain extra where "reserve w (fst st) v probing plan resolution d = (Inr (Inr (commitment, extra)), reserved)"
    by (auto simp: released_by_def)
  from reserve_ledger(2) [OF this assms(3-6)] obtain rec where
    rec: "reserved_by env (fst st) rec reserved" "ev_receipt_id (dr_event rec) = receipt_id" "commitment = Some (commitment_of rec)" by auto
  have "issue az (vw_issuing w) reserved (vq_request v) commitment expected = (Inr a, fst st')" using rel by (simp add: released_by_def)
  note same = issue_ledger(1,2) [OF this]
  have "reserved_by env (fst st) rec (fst st')" by (rule reserved_by_same [OF rec(1) same])
  moreover have "find_claim (fst st') (dr_record_id rec) \<noteq> None"
    using released_claimed [OF rel assms(4,7) rec(3)] by (simp add: commitment_of_def)
  ultimately show ?thesis using rec(2) by blast
qed

text \<open>Rows that passed every check do come out.\<close>

lemma run_core_releases:
  assumes "verify_core w ex st v resolving probing expected = (Inr r, db, consumed)" and "vr_execution r = Some x"
    and "secure_ok env (fst st)" and "vw_ledger w = Some (l, env)" and "vq_receipt_id v = Some receipt_id"
    and "receipt_id \<notin> lr_receipt_id ` set (db_records (fst st))" and "same_objects w ex"
  shows "\<exists>db'. run_core w ex st v resolving probing expected = (Inr r, db', consumed) \<and> secure_ok env db'
    \<and> settled_by env (fst st) receipt_id RELEASED db'"
proof -
  from core_release_claimed [OF assms] obtain rec where
    rec: "reserved_by env (fst st) rec db" "ev_receipt_id (dr_event rec) = receipt_id" "find_claim db (dr_record_id rec) \<noteq> None" by auto
  have ok: "secure_ok env db" using verify_core_ledger(1) [OF assms(1,3-7)] by simp
  have passed: "vr_passed r" "sanitize_execution_failure r = r"
    using verify_core_released [OF assms(1,2)] by (auto simp: released_by_def intro: sanitize_passed)
  note releases = reserved_by_releases [OF rec(1) ok rec(3)]
  have "run_core w ex st v resolving probing expected = (Inr r, snd (mark_released env db (commitment_of rec)), consumed)"
    using assms(1,2,4,5) passed reserved_by_found(1) [OF rec(1) ok, unfolded rec(2)] releases(1)
    by (cases "mark_released env db (commitment_of rec)") (simp add: run_core_def finalize_release_def)
  with releases(2,3) rec(2) show ?thesis by blast
qed

lemma fresh_receipt:
  "receipt_id \<notin> lr_receipt_id ` set (db_records db) \<Longrightarrow> commitment_for_receipt env db receipt_id = Inr None"
  by (auto simp: commitment_for_receipt_def read_receipt_def split: option.splits dest!: find_SomeD)

lemma run_core_history:
  assumes "run_core w ex st v resolving probing expected = (res, st')" and "secure_ok env (fst st)"
    and "vw_ledger w = Some (l, env)" and "vq_receipt_id v = Some receipt_id"
    and "receipt_id \<notin> lr_receipt_id ` set (db_records (fst st))" and "same_objects w ex"
  shows "secure_ok env (fst st') \<and> (fst st' = fst st \<and> \<not> rows_out res
    \<or> settled_by env (fst st) receipt_id (if rows_out res then RELEASED else ABORTED) (fst st'))"
proof -
  obtain cres db consumed where core: "verify_core w ex st v resolving probing expected = (cres, db, consumed)" by (metis prod_cases3)
  note ledger = verify_core_ledger [OF core assms(2-6), unfolded fst_conv]
  show ?thesis
  proof (cases "db = fst st \<and> (\<forall>r. cres = Inr r \<longrightarrow> vr_execution r = None)")
    case True
    with core assms(3,4) fresh_receipt [OF assms(5)] have "fst st' = fst st \<and> \<not> rows_out res"
      using assms(1) by (cases cres) (auto simp: run_core_def abort_pending_def finalize_release_def rows_out_def)
    with assms(2) show ?thesis by simp
  next
    case False
    show ?thesis
    proof (cases "\<exists>r x. cres = Inr r \<and> vr_execution r = Some x")
      case True
      then obtain r x where r: "cres = Inr r" "vr_execution r = Some x" by blast
      from run_core_releases [OF core [unfolded r(1)] r(2) assms(2-6)] assms(1) r(2) show ?thesis
        by (auto simp: rows_out_def)
    next
      case no_rows: False
      with False ledger(2) obtain rec where rec: "reserved_by env (fst st) rec db" "ev_receipt_id (dr_event rec) = receipt_id" by auto
      note found = reserved_by_found(1) [OF rec(1) ledger(1), unfolded rec(2)] and aborts = reserved_by_aborts [OF rec(1) ledger(1)]
      have "fst st' = snd (mark_aborted env db (commitment_of rec)) \<and> \<not> rows_out res"
      proof (cases cres)
        case (Inl e)
        with core assms(1,3,4) found show ?thesis by (auto simp: run_core_def abort_pending_def rows_out_def)
      next
        case (Inr r)
        with no_rows have "vr_execution r = None" by auto
        with Inr core assms(1,3,4) found aborts(1) show ?thesis
          by (cases "mark_aborted env db (commitment_of rec)")
             (auto simp: run_core_def finalize_release_def rows_out_def split: prod.splits sum.splits)
      qed
      with aborts(2,3) rec(2) show ?thesis by simp
    qed
  qed
qed

lemma rows_out_handler: "\<not> rows_out (governance_handler plan e)"
  using governance_handler_rows [of plan e] by (auto simp: rows_out_def split: sum.splits)

lemma verify_and_execute_cases:
  assumes "verify_and_execute w ex st v = (res, st')"
  shows "st' = st \<and> \<not> rows_out res
    \<or> (\<exists>resolving probing expected. run_core w ex st v resolving probing expected = (res, st'))
    \<or> (\<exists>resolving probing expected plan e. run_core w ex st v resolving probing expected = (Inl e, st') \<and> res = governance_handler plan e)"
proof (cases "verify_and_execute w ex st v = run_core w ex st v (vw_resolving w) (vw_probing w) None")
  case True
  with assms show ?thesis by metis
next
  case False
  let ?analysis = "vw_analyze w (aq_sql (vq_request v)) (aq_dialect (vq_request v))"
  show ?thesis
  proof (cases "\<exists>plan resolution binding. ?analysis = Inr plan \<and> cv_bound_resolve (vw_resolving w) \<noteq> None
      \<and> capture_binding w v plan = Inr (resolution, binding)")
    case True
    then obtain plan resolution binding where p: "?analysis = Inr plan" "cv_bound_resolve (vw_resolving w) \<noteq> None"
      "capture_binding w v plan = Inr (resolution, binding)" by blast
    let ?pinned = "\<lambda>resolver. pinned_resolver resolver plan resolution binding"
    obtain cres st1 where run: "run_core w ex st v (?pinned (vw_asserting w)) (?pinned (vw_probing w)) (Some binding) = (cres, st1)"
      by (rule prod.exhaust)
    have "verify_and_execute w ex st v = (case cres of Inl e \<Rightarrow> (governance_handler plan e, st1) | Inr r \<Rightarrow> (Inr r, st1))"
      using p(2) by (cases cres; cases "cv_bound_resolve (vw_resolving w)") (simp_all add: verify_and_execute_def Let_def p(1,3) run)
    with assms have out: "(res, st') = (case cres of Inl e \<Rightarrow> (governance_handler plan e, st1) | Inr r \<Rightarrow> (Inr r, st1))" by simp
    show ?thesis
    proof (cases cres)
      case (Inl e)
      with out have "st1 = st'" "res = governance_handler plan e" by simp_all
      with run Inl show ?thesis by metis
    next
      case (Inr r)
      with out have "st1 = st'" "res = cres" by simp_all
      with run show ?thesis by metis
    qed
  next
    case none: False
    have "st' = st \<and> \<not> rows_out res"
    proof (cases ?analysis)
      case (Inl e)
      with False assms show ?thesis by (cases e) (auto simp: verify_and_execute_def Let_def rows_out_def split: if_splits)
    next
      case (Inr plan)
      show ?thesis
      proof (cases "capture_binding w v plan")
        case (Inl e)
        with Inr False assms rows_out_handler [of plan e] show ?thesis
          by (auto simp: verify_and_execute_def Let_def rows_out_def dest: governance_failure_rows split: if_splits sum.splits)
      next
        case captured: (Inr rb)
        obtain resolution binding where "rb = (resolution, binding)" by force
        with none Inr captured have "cv_bound_resolve (vw_resolving w) = None" by blast
        with Inr False assms show ?thesis
          by (auto simp: verify_and_execute_def Let_def rows_out_def dest: governance_failure_rows split: if_splits sum.splits)
      qed
    qed
    then show ?thesis by blast
  qed
qed

text \<open>C3: history_follows_release. The privacy history counts exactly what was released. A run under a fresh receipt
  either leaves the ledger untouched and releases nothing, or adds one record with this receipt:
  RELEASED if the run released rows, and ABORTED, which no budget counts, otherwise, also when it
  ends in an exception. No other record changes its state, and the ledger stays well formed.\<close>

theorem history_follows_release:
  assumes "verify_and_execute w ex st v = (res, st')" and "secure_ok env (fst st)"
    and "vw_ledger w = Some (l, env)" and "vq_receipt_id v = Some receipt_id"
    and "receipt_id \<notin> lr_receipt_id ` set (db_records (fst st))" and "same_objects w ex"
  shows "secure_ok env (fst st') \<and> (fst st' = fst st \<and> \<not> rows_out res
    \<or> settled_by env (fst st) receipt_id (if rows_out res then RELEASED else ABORTED) (fst st'))"
proof -
  from verify_and_execute_cases [OF assms(1)] show ?thesis
  proof (elim disjE exE conjE)
    assume "st' = st" "\<not> rows_out res"
    with assms(2) show ?thesis by simp
  next
    fix resolving probing expected assume "run_core w ex st v resolving probing expected = (res, st')"
    from run_core_history [OF this assms(2-6)] show ?thesis .
  next
    fix resolving probing expected plan e
    assume run: "run_core w ex st v resolving probing expected = (Inl e, st')" and res: "res = governance_handler plan e"
    have "\<not> rows_out (Inl e)" by (simp add: rows_out_def)
    with run_core_history [OF run assms(2-6)] rows_out_handler [of plan e] show ?thesis unfolding res by simp
  qed
qed

section \<open>A sample run\<close>

text \<open>The sample capability is issued and consumed by a run over the empty ledger; two groups come back.
  The resolver has provenance and the caller expects its binding, so the whole run goes through the
  pinned resolver.\<close>

definition run_executor :: executor where
  "run_executor = \<lparr>ex_authorizer = Some (cap_authorizer five_seconds,
       \<lparr>ty_authorizer = 4, ty_resolver = 5, ty_engine = 2, ty_ledger = Some 3, ty_require = True\<rparr>),
     ex_max_preview_rows = 2, ex_limits = \<lparr>ol_max_cell_bytes = 1024, ol_max_result_bytes = 4096\<rparr>\<rparr>"

definition run_world :: verify_world where
  "run_world = \<lparr>vw_analyze = (\<lambda>_ _. Inr cap_plan), vw_H = (\<lambda>_. zero_sha256), vw_config = Policy.sample_config,
     vw_identity = Some sample_identity, vw_ledger = Some (3, sample_env), vw_ledger_io = sample_io, vw_resolver_id = 5, vw_engine_id = 2,
     vw_resolving = cap_resolver, vw_asserting = cap_resolver, vw_probing = cap_resolver, vw_issuing = cap_io wall_clock,
     vw_consuming = cap_io (wall_clock + one_second), vw_warehouse = \<lparr>wh_present = True,
       wh_run = (\<lambda>_. Inr ([''t'', ''subject_count''], [[Cell_int 7, Cell_int 30], [Cell_int 9, Cell_int 41]]))\<rparr>,
     vw_float_int = (\<lambda>_. Inr None)\<rparr>"

definition run_request :: verify_request where
  "run_request = \<lparr>vq_request = cap_request, vq_required_minimum = 25, vq_require_threshold = True,
     vq_subject_count_column = ''subject_count'', vq_forbidden_fields = [''email''], vq_receipt_id = Some sample_receipt,
     vq_require_commitment = True, vq_expected_binding = Some cap_binding\<rparr>"

lemma run_world_simps [simp]:
  "vw_analyze run_world sql dialect = Inr cap_plan" "vw_ledger run_world = Some (3, sample_env)" "vw_ledger_io run_world = sample_io"
  "vw_identity run_world = Some sample_identity" "vw_H run_world = (\<lambda>_. zero_sha256)"
  "vw_resolver_id run_world = 5" "vw_engine_id run_world = 2" "vw_issuing run_world = cap_io wall_clock"
  "vw_consuming run_world = cap_io (wall_clock + one_second)" "wh_present (vw_warehouse run_world)"
  "vw_resolving run_world = cap_resolver" "vw_asserting run_world = cap_resolver" "vw_probing run_world = cap_resolver"
  by (simp_all add: run_world_def)

lemma run_request_simps [simp]:
  "vq_request run_request = cap_request" "vq_receipt_id run_request = Some sample_receipt" "vq_require_commitment run_request"
  "vq_expected_binding run_request = Some cap_binding" "vq_require_threshold run_request" "aq_sql cap_request = ''q''" "aq_dialect cap_request = ''duckdb''"
  "aq_privacy_proof cap_request = False" "aq_subject_key cap_request = people_pid"
  by (simp_all add: run_request_def cap_request_def)

lemma run_resolves: "resolve (sample_catalog ''u1'' ''u2'') cap_plan = Inr cap_resolution"
proof -
  have "\<not> isl (resolve (sample_catalog ''u1'' ''u2'') cap_plan)" by code_simp
  then show ?thesis unfolding cap_resolution_def by (rule sum.collapse(2) [symmetric])
qed

text \<open>The sample run's pinned resolver: it answers what the resolver answers, with the pinned binding.\<close>

abbreviation run_pinned :: context_resolver where
  "run_pinned \<equiv> pinned_resolver cap_resolver cap_plan cap_resolution cap_binding"

lemma run_pinned_resolve: "cv_resolve run_pinned = cv_resolve cap_resolver"
proof
  fix q
  show "cv_resolve run_pinned q = cv_resolve cap_resolver q"
    by (cases "resolve (sample_catalog ''u1'' ''u2'') q")
      (auto simp: pinned_resolver_def pinned_bound_def assert_binding_def require_same_governance_binding_def run_resolves)
qed

lemma run_decides:
  "\<exists>d. decide run_world run_pinned run_request cap_plan = Inr (cap_resolution, d)
     \<and> pd_policy_version d = ''0.2.0'' \<and> list_all vk_passed (static_checks cap_plan d run_request)"
proof -
  have "case decide run_world cap_resolver run_request cap_plan of
      Inr (resolution, d) \<Rightarrow> resolution = cap_resolution \<and> pd_policy_version d = ''0.2.0''
        \<and> list_all vk_passed (static_checks cap_plan d run_request)
    | Inl e \<Rightarrow> False" by code_simp
  then show ?thesis by (auto simp: decide_def run_pinned_resolve split: sum.splits prod.splits)
qed

lemma event_resolver_cong:
  assumes "cv_resolve a = cv_resolve b"
  shows "build_disclosure_event_from_resolver H identity a resolution plan subject_key receipt_id version
     = build_disclosure_event_from_resolver H identity b resolution plan subject_key receipt_id version"
  unfolding build_disclosure_event_from_resolver_def resolve_governed_subject_domain_from_resolver_def assms by (rule refl)

lemma run_event:
  "build_disclosure_event_from_resolver (\<lambda>_. zero_sha256) sample_identity run_pinned
     cap_resolution cap_plan people_pid sample_receipt ''0.2.0'' = Inr cap_event"
proof -
  have "\<not> isl (build_disclosure_event_from_resolver (\<lambda>_. zero_sha256) sample_identity cap_resolver
     cap_resolution cap_plan people_pid sample_receipt ''0.2.0'')" by code_simp
  then show ?thesis unfolding cap_event_def event_resolver_cong [OF run_pinned_resolve]
    by (rule sum.collapse(2) [symmetric])
qed

lemma run_commits:
  "\<exists>cd. evaluate_and_commit sample_env empty_db sample_io cap_event ''q'' ''duckdb'' = (Inr cd, cap_reserved)
     \<and> cd_allowed cd \<and> cd_commitment cd = Some cap_commitment"
proof -
  have "case fst (evaluate_and_commit sample_env empty_db sample_io cap_event ''q'' ''duckdb'') of
      Inr cd \<Rightarrow> cd_allowed cd \<and> cd_commitment cd \<noteq> None | Inl e \<Rightarrow> False" by code_simp
  then show ?thesis unfolding cap_reserved_def cap_commitment_def
    by (cases "evaluate_and_commit sample_env empty_db sample_io cap_event ''q'' ''duckdb''") (auto split: sum.splits)
qed

definition run_output :: execution_result where
  "run_output = \<lparr>xr_authorization_id = ''tj_auth_'' @ replicate 32 CHR ''0'', xr_query_sha256 = zero_sha256, xr_query_plan = cap_plan,
     xr_columns = [''t'', ''subject_count''], xr_rows = [[JInt 7, JInt 30], [JInt 9, JInt 41]], xr_preview_row_count = 2,
     xr_truncated = False\<rparr>"

lemma run_rows:
  "run_query run_executor (vw_warehouse run_world) (cap_authorizer five_seconds) (cap_capability five_seconds) ''q'' cap_plan = Inr run_output"
proof -
  have rows: "normalize_rows \<lparr>ol_max_cell_bytes = 1024, ol_max_result_bytes = 4096\<rparr> [''t'', ''subject_count'']
      [[Cell_int 7, Cell_int 30], [Cell_int 9, Cell_int 41]] [] = Inr [[JInt 7, JInt 30], [JInt 9, JInt 41]]" by code_simp
  have "\<not> qp_contains_wildcard cap_plan" by (simp add: cap_plan_def sample_plan_def)
  moreover have "has_prefix_hex ''tj_auth_'' 32 (''tj_auth_'' @ replicate 32 CHR ''0'')" by (simp add: has_prefix_hex_def is_hex_zeros)
  ultimately show ?thesis using rows
    by (simp add: run_query_def run_executor_def run_world_def run_output_def validate_execution_result_def
        cap_fields(2) [OF five_among] cap_authorizer_def)
qed

lemma run_inspected: "\<exists>inspected. result_checks run_world run_request cap_plan run_output = Inr inspected \<and> list_all vk_passed inspected"
proof -
  have "case result_checks run_world run_request cap_plan run_output of Inr inspected \<Rightarrow> list_all vk_passed inspected | Inl e \<Rightarrow> False"
    by code_simp
  then show ?thesis by (auto split: sum.splits)
qed

lemma run_core_result:
  "\<exists>r db consumed. verify_core run_world run_executor (empty_db, []) run_request run_pinned run_pinned (Some cap_binding) = (Inr r, db, consumed) \<and> vr_execution r = Some run_output"
proof -
  obtain d where d: "decide run_world run_pinned run_request cap_plan = Inr (cap_resolution, d)"
    "pd_policy_version d = ''0.2.0''" "list_all vk_passed (static_checks cap_plan d run_request)" using run_decides by blast
  obtain cd where cd: "evaluate_and_commit sample_env empty_db sample_io cap_event ''q'' ''duckdb'' = (Inr cd, cap_reserved)"
    "cd_allowed cd" "cd_commitment cd = Some cap_commitment" using run_commits by blast
  let ?extra = "[disclosure_check True (composition_detail ''release committed by '' cd)]"
  have reserved: "reserve run_world empty_db run_request run_pinned cap_plan cap_resolution d
      = (Inr (Inr (Some cap_commitment, ?extra)), cap_reserved)"
    by (simp add: reserve_def reserve_with_def settle_reservation_def d(2) run_event cd)
  have az: "require_authorizer run_executor cap_request what = Inr (cap_authorizer five_seconds)" for what
    by (simp add: require_authorizer_def run_executor_def)
  have issued: "issue_authorization run_executor (cap_io wall_clock) cap_reserved cap_request (Some cap_commitment) (Some cap_binding)
      = (Inr (cap_capability five_seconds), cap_claimed)"
    by (simp add: issue_authorization_def az cap_issued [OF five_among])
  have executed: "execute_authorized run_executor (vw_warehouse run_world) (cap_io (wall_clock + one_second)) cap_claimed []
      (cap_capability five_seconds) cap_request
      = (Inr run_output, [(xa_authorization_id (cap_capability five_seconds), xa_expires_at (cap_capability five_seconds))])"
    by (simp add: execute_authorized_def az cap_consumes run_rows)
  have bound: "bind_authority run_executor 5 2 (Some 3) True = Inr ()" by (simp add: bind_authority_def run_executor_def)
  obtain inspected where inspected: "result_checks run_world run_request cap_plan run_output = Inr inspected" "list_all vk_passed inspected"
    using run_inspected by blast
  let ?checks = "static_checks cap_plan d run_request @ ?extra @ [issued_check (Some cap_commitment)] @ inspected"
  obtain r where r: "verdict (Some cap_plan) (Some d) ?checks (Some run_output) True None [] = Inr r"
    using verdict_defined [of "Some run_output" True "[]" ?checks "Some cap_plan" "Some d" None] by auto
  have "list_all vk_passed ?checks" using d(3) inspected(2) by simp
  with verdict_Inr [OF r] have "vr_execution r = Some run_output" by simp
  moreover have "verify_core run_world run_executor (empty_db, []) run_request run_pinned run_pinned (Some cap_binding)
      = (Inr r, cap_claimed, [(xa_authorization_id (cap_capability five_seconds), xa_expires_at (cap_capability five_seconds))])"
    using r by (simp add: verify_core_def d(1,3) reserved authorize_and_execute_def bound issued execute_and_inspect_def executed inspected(1) Let_def)
  ultimately show ?thesis by blast
qed

lemma run_result:
  "\<exists>r st. verify_and_execute run_world run_executor (empty_db, []) run_request = (Inr r, st) \<and> vr_execution r = Some run_output"
proof -
  obtain r db consumed where core: "verify_core run_world run_executor (empty_db, []) run_request
      run_pinned run_pinned (Some cap_binding) = (Inr r, db, consumed)"
    "vr_execution r = Some run_output" using run_core_result by blast
  have ok: "secure_ok sample_env (fst (empty_db, [] :: (string \<times> int) list))" by (simp add: empty_db_ok)
  have fresh: "sample_receipt \<notin> lr_receipt_id ` set (db_records (fst (empty_db, [] :: (string \<times> int) list)))" by (simp add: empty_db_def)
  have same: "same_objects run_world run_executor" by (simp add: same_objects_def run_executor_def cap_authorizer_def)
  have captured: "capture_binding run_world run_request cap_plan = Inr (cap_resolution, cap_binding)"
    by (simp add: capture_binding_Inr run_resolves)
  from run_core_releases [OF core ok _ _ fresh same] core(2) show ?thesis
    by (auto simp: verify_and_execute_def captured)
qed

theorem release_sound_witness:
  "\<exists>r db. vr_execution r = Some run_output \<and> list_all vk_passed (vr_checks r)
    \<and> verify_and_execute run_world run_executor (empty_db, []) run_request = (Inr r, db)"
proof -
  obtain r st where run: "verify_and_execute run_world run_executor (empty_db, []) run_request = (Inr r, st)" "vr_execution r = Some run_output"
    using run_result by blast
  from release_sound [OF run] run show ?thesis by blast
qed

theorem one_snapshot_witness:
  "\<exists>r st resolution. verify_and_execute run_world run_executor (empty_db, []) run_request = (Inr r, st)
     \<and> vr_execution r = Some run_output \<and> vq_expected_binding run_request = Some cap_binding
     \<and> resolve_with_governance_binding (vw_resolving run_world) cap_plan = Inr (resolution, Some cap_binding)
     \<and> current_governance_binding (vw_asserting run_world) = Inr (Some cap_binding)
     \<and> current_governance_binding (ai_revalidating (vw_issuing run_world)) = Inr (Some cap_binding)
     \<and> current_governance_binding (ai_revalidating (vw_consuming run_world)) = Inr (Some cap_binding)
     \<and> (\<exists>resolution' d'. governed_state (cap_authorizer five_seconds) (vw_issuing run_world) cap_request
          = Inr (cap_plan, resolution', Some cap_binding, d'))
     \<and> (\<exists>resolution' d'. governed_state (cap_authorizer five_seconds) (vw_consuming run_world) cap_request
          = Inr (cap_plan, resolution', Some cap_binding, d'))"
proof -
  obtain r st where run: "verify_and_execute run_world run_executor (empty_db, []) run_request = (Inr r, st)" "vr_execution r = Some run_output"
    using run_result by blast
  from one_snapshot [OF run] obtain plan resolution binding az ty where b: "ex_authorizer run_executor = Some (az, ty)"
    "vq_expected_binding run_request = None \<or> binding = vq_expected_binding run_request"
    "binding \<noteq> None \<longrightarrow> current_governance_binding (vw_asserting run_world) = Inr binding"
    "\<forall>io \<in> {vw_issuing run_world, vw_consuming run_world}. current_governance_binding (ai_revalidating io) = Inr binding
       \<and> (\<exists>plan' resolution' d'. governed_state az io (vq_request run_request) = Inr (plan', resolution', binding, d'))"
    by blast
  from b(2) have binding: "binding = Some cap_binding" by simp
  from b(1) have az: "az = cap_authorizer five_seconds" by (simp add: run_executor_def)
  have "za_analyze az sql dialect = Inr cap_plan" for sql dialect by (simp add: az cap_authorizer_def)
  then have plan: "plan' = cap_plan" if "governed_state az io q = Inr (plan', rest)" for io q plan' rest
    using that by (cases rest) (auto simp: governed_state_Inr analyze_exact_def)
  have "\<exists>resolution. resolve_with_governance_binding (vw_resolving run_world) cap_plan = Inr (resolution, Some cap_binding)"
    by (simp add: run_resolves)
  with run b(3,4) plan show ?thesis unfolding binding az by fastforce
qed

theorem released_rows_bounded_witness:
  "length (xr_rows run_output) \<le> ex_max_preview_rows run_executor
    \<and> serialized_bytes (payload_json (xr_columns run_output) (xr_rows run_output)) \<le> ol_max_result_bytes (ex_limits run_executor)"
proof -
  obtain r st where run: "verify_and_execute run_world run_executor (empty_db, []) run_request = (Inr r, st)" "vr_execution r = Some run_output"
    using run_result by blast
  have "xr_rows run_output \<noteq> []" by (simp add: run_output_def)
  with released_rows_bounded [OF run] show ?thesis by blast
qed

theorem released_groups_large_witness:
  "threshold_matches cap_plan people_pid 25 \<and> (\<exists>rows. wh_run (vw_warehouse run_world) ''q'' = Inr (xr_columns run_output, rows) \<and> rows \<noteq> [])"
proof -
  obtain r st where run: "verify_and_execute run_world run_executor (empty_db, []) run_request = (Inr r, st)" "vr_execution r = Some run_output"
    using run_result by blast
  from released_groups_large [OF run] have "threshold_matches cap_plan people_pid (vq_required_minimum run_request)
      \<and> (\<exists>rows. wh_run (vw_warehouse run_world) ''q'' = Inr (xr_columns run_output, rows) \<and> rows \<noteq> [])" by auto
  then show ?thesis by (simp add: run_request_def)
qed

theorem history_follows_release_witness:
  "\<exists>r db consumed. verify_and_execute run_world run_executor (empty_db, []) run_request = (Inr r, db, consumed)
    \<and> secure_ok sample_env db \<and> settled_by sample_env empty_db sample_receipt RELEASED db"
proof -
  obtain r db consumed where run: "verify_and_execute run_world run_executor (empty_db, []) run_request = (Inr r, db, consumed)"
    "vr_execution r = Some run_output" using run_result by auto
  have ok: "secure_ok sample_env (fst (empty_db, [] :: (string \<times> int) list))" by (simp add: empty_db_ok)
  have fresh: "sample_receipt \<notin> lr_receipt_id ` set (db_records (fst (empty_db, [] :: (string \<times> int) list)))" by (simp add: empty_db_def)
  have same: "same_objects run_world run_executor" by (simp add: same_objects_def run_executor_def cap_authorizer_def)
  have "rows_out (Inr r)" using run(2) by (simp add: rows_out_def)
  with history_follows_release [OF run(1) ok _ _ fresh same] have
    "secure_ok sample_env db \<and> settled_by sample_env empty_db sample_receipt RELEASED db" by simp
  with run(1) show ?thesis by blast
qed

end
