(* ===== verification/Spec2Isabelle.thy ===== *)
theory Spec2Isabelle
  imports Policy_Oracle_Theorems Auth Semantics_Theorems Secure_Ledger Cpcc_Theorems Evidence_Theorems
    Verification_Theorems
begin

text \<open>
  A verification library for ToxicJoin (\<open>src/src/toxicjoin\<close>; paths below are relative to it), a gateway
  that lets SQL over governed data run only while the privacy policy, the cumulative history of
  disclosures and the governance snapshot allow it, and that can explore which sequences of
  individually allowed releases would end in a forbidden state.

  \<^bold>\<open>The program.\<close> A query text is analysed into a plan; a metadata resolver gives the plan's columns
  their sensitivity (\<open>context\<close>); the policy engine answers ALLOW, REWRITE or BLOCK (\<open>policy\<close>); the
  disclosure semantics name what a release would expose (\<open>disclosure/semantic.py\<close>); the ledger
  reserves the release if the cumulative budget allows it and keeps the history in a hash chain
  (\<open>disclosure/ledger.py\<close>, \<open>secure_ledger.py\<close>); the authorizer issues a single-use capability for
  exactly this request, and the executor runs the query only under it (\<open>execute\<close>); the verifier
  composes all of this, inspects the rows and finalises the reservation (\<open>verify\<close>). Beside this
  path the prospective checker searches the future: it projects the history into a digital twin
  (\<open>prospective/twin.py\<close>), takes actions of a finite grammar (\<open>grammar.py\<close>), asks a local oracle for
  each (\<open>policy_oracle.py\<close> asks the policy engine), evaluates forbidden-state predicates
  (\<open>forbidden.py\<close>) and reports a counterexample or the bound it covered (\<open>ppmc_search.py\<close>). The repair
  core enumerates remediations and picks the cheapest that a validator accepts (\<open>repair\<close>), and the
  evidence resolver decides which claims about governance are trusted (\<open>evidence\<close>).

  \<^bold>\<open>Theories and code.\<close> Each theory follows its Python module: a class or Pydantic model is a record or a
  datatype with the same fields and a list of its validator's checks in the order they are made
  (\<open>validate_\<dots>\<close>), a function or method is a definition of the same name, an exception is a value of
  \<open>error\<close> in the left of a sum, and a state that methods mutate is passed and returned.

    \<^item> \<open>Prelude\<close>: exceptions, results, string and dictionary idioms, canonical JSON text; \<open>Floats\<close>: sums of
      doubles as round-to-nearest-even over ticks of \<open>2 ^ -82\<close> seconds.
    \<^item> \<open>Domain\<close>: \<open>models.py\<close>. \<open>Policy\<close>: \<open>policy/engine.py\<close>. \<open>Context\<close>: \<open>context/models.py\<close>, \<open>fixture.py\<close>,
      \<open>governance.py\<close>. \<open>Auth\<close>: \<open>auth.py\<close>.
    \<^item> \<open>Disclosure_Models\<close>, \<open>Composition\<close>, \<open>Ledger\<close>, \<open>Secure_Ledger\<close>, \<open>Semantics\<close> and \<open>Semantics_Theorems\<close>: the
      modules of \<open>disclosure\<close> with these names. The SQLite file is the record of its tables, a
      transaction maps a database to a result and a database, and \<open>reachable\<close> is the step relation of
      all operations.
    \<^item> \<open>Closure\<close>, \<open>Twin\<close>, \<open>Twin_Theorems\<close>, \<open>Forbidden\<close>, \<open>Forbidden_Theorems\<close>, \<open>Grammar\<close>, \<open>Grammar_Theorems\<close>,
      \<open>Trace\<close>, \<open>Ppmc_Models\<close>, \<open>Search\<close> with \<open>Search_Space\<close>, \<open>Search_Laws\<close>, \<open>Search_Invariant\<close>,
      \<open>Search_Returns\<close>, \<open>Search_Samples\<close>, \<open>Search_Theorems\<close>, and \<open>Policy_Oracle\<close> with
      \<open>Policy_Oracle_Theorems\<close>: the modules of \<open>prospective\<close>.
    \<^item> \<open>Repair_Models\<close>, \<open>Cpcc\<close>, \<open>Cpcc_Theorems\<close>: \<open>repair/models.py\<close> and \<open>cpcc.py\<close>. \<open>Evidence\<close>,
      \<open>Evidence_Theorems\<close>: \<open>evidence/models.py\<close>, \<open>policy.py\<close>, \<open>resolver.py\<close>.
    \<^item> \<open>Authorization\<close>, \<open>Authorization_Theorems\<close>: \<open>execute/authorization.py\<close>. \<open>Execution\<close>:
      \<open>execute/duckdb_executor.py\<close> and \<open>limits.py\<close>. \<open>Verification\<close>, \<open>Verification_Theorems\<close>:
      \<open>verify/engine.py\<close> and \<open>verify/governance.py\<close>.

  \<^bold>\<open>What is shown.\<close> Of the policy engine: every input has a decision, its outcome is determined exactly
  by the blocking grounds, the subject and the threshold, with the reasons that were found, an ALLOW is safe, and hiding columns behind lineage does not help. Of the ledger: an
  invariant of the tables is kept by every operation, so every reachable ledger verifies, is
  append-only, never exceeds the release budget in any window, counts nothing as released that was
  not claimed, and can always complete or abort a reservation; and what \<open>verify_all\<close> accepts on an
  arbitrary database is an undamaged chain. Of capabilities: they bind the request and the governed state, execute a commitment at most
  once as long as clock readings do not run backwards, and are accepted when fresh. Of a verification run: rows leave only when every check passed,
  bounded and in large enough groups, under one snapshot, and afterwards the ledger counts exactly
  what was released. Of the semantics: the privacy scope and content do not depend on how a query is
  written, and the two derivations of an event agree, up to the governance domains of its subject, where the
  resolver path derives one at all. Of the checker: the closure is the
  least one, the predicates decide their specifications, every transition keeps the universe of
  validated states, a counterexample replays, a bounded all-clear covers every sequence within the
  bound, a fail-closed answer is truthful, and the search always returns; with the policy oracle, whose verdicts and reasons are determined on every state and action,
  this is a statement about the policy engine. Of repair and evidence: the enumeration is complete
  and the selection optimal; trust is exactly agreement of the live admissible evidence. This
  theory adds that the histories the ledger serves are the ones the twin accepts.

  \<^bold>\<open>Interfaces.\<close> Two contracts between components are locales. \<open>budget_gate\<close> (\<open>Composition\<close>) is what a ledger relies
  on of a cumulative gate; it is interpreted there on \<open>evaluate_composition_history\<close>, and the
  exposure bound of the ledger uses the fact. \<open>bounded_search\<close> (\<open>Search_Laws\<close>) is what a breadth-first
  search that drops nodes by their keys relies on of its space; it is interpreted in \<open>Search_Space\<close>
  on the transition function, the oracle and the temporal path of the code.

  \<^bold>\<open>Bounds and fuel.\<close> The two saturation loops (\<open>Twin\<close>, \<open>Grammar\<close>) are functions with a measure, the number of
  heads not yet known. The queue loop of the search runs on fuel; \<open>max_states\<close> less the states
  seen, plus the queue, is enough, and \<open>check_returns\<close> proves it, since every step takes a node off
  the queue and every node put on it is a new state below the limit. The enumeration has at most 528
  candidates. Nesting of cells is cut at 32 levels as in the code. Clock readings up to the year
  2100 and the durations in use are exact multiples of the tick of \<open>Floats\<close>, or rounded to one as the
  hardware does.

  \<^bold>\<open>Parameters.\<close> SHA-256 and the keyed hashes are functions on strings, without an assumption unless a theorem
  names one (an injectivity on the values at hand); so are the texts of timestamps and floats, the
  SQL analyzer and canonicaliser (sqlglot), the local oracle, the candidate validator and the
  warehouse. A resolver is given once per call site, so that it may change between two reads of one
  run. A string is a list of characters, which stand for the code points below 256; where the code counts
  bytes (the executor's budgets) they are counted in UTF-8, and canonical JSON escapes them as the code
  does; \<open>upper\<close> and \<open>casefold\<close>, which could leave that range, are given on ASCII letters, which aggregate
  names and field paths are expected to be made of.

  \<^bold>\<open>Not modelled.\<close> The SQL parser, analyzer and rewriter, and what composes them with files (\<open>pipeline.py\<close>,
  \<open>receipts\<close>, \<open>repair/compiler.py\<close> and \<open>validator.py\<close>), rest on syntax trees of sqlglot, which is not
  in the repository. The DataHub clients, the HTTP API, the agent runtime, benchmarks, scripts and
  the command line are input and output around the modelled parts. Proof-bound execution and the
  pre-execution proofs (\<open>proofs\<close>, \<open>execute/proof_*.py\<close>, \<open>verify/proof_bound.py\<close>) extend capabilities by
  further hashes and signatures; only their base is modelled, which rejects a proof as the code
  does. Of the modelled modules, file permissions, schema creation, environment variables, logging,
  threads and timing are left out.
\<close>

section \<open>From the ledger to the checker\<close>

text \<open>The audit entry of a ledger record, with the lifecycle its journal gives.\<close>

fun lifecycle_of :: "release_state \<Rightarrow> lifecycle" where
  "lifecycle_of PENDING = LC_PENDING"
| "lifecycle_of RELEASED = LC_RELEASED"
| "lifecycle_of ABORTED = LC_ABORTED"

definition audit_entry :: "secure_db \<Rightarrow> disclosure_record \<Rightarrow> history_entry" where
  "audit_entry db r = \<lparr>he_record = r, he_lifecycle =
     (case release_state_of db (dr_record_id r) of Inl _ \<Rightarrow> LC_PENDING | Inr st \<Rightarrow> lifecycle_of st)\<rparr>"

lemma lifecycle_of_aborted [simp]: "lifecycle_of st = LC_ABORTED \<longleftrightarrow> st = ABORTED"
  by (cases st) simp_all

lemma audit_entry_record [simp]: "he_record (audit_entry db r) = r"
  by (simp add: audit_entry_def)

lemma audit_entry_live:
  assumes "journal_ok db"
  shows "he_lifecycle (audit_entry db r) \<noteq> LC_ABORTED \<longleftrightarrow> release_state_of db (dr_record_id r) \<noteq> Inr ABORTED"
proof -
  obtain st where "release_state_of db (dr_record_id r) = Inr st" using journal_ok_state [OF assms] by blast
  then show ?thesis by (simp add: audit_entry_def)
qed

lemma scope_sequences:
  assumes "records_ok env db" and "records_for_scope env db scope = Inr rs"
  shows "sorted (map dr_sequence rs) \<and> distinct (map dr_sequence rs)"
proof -
  let ?rows = "filter (\<lambda>row. lr_scope_sha256 row = sc_scope_sha256 scope) (db_records db)"
  note db = records_okD [OF assms(1)]
  from assms(2) select_scope_filter [OF db(1)] have "list_all2 (\<lambda>row r. row_to_record env row = Inr r) ?rows rs"
    by (simp add: records_for_scope_Inr)
  then have "map dr_sequence rs = map lr_sequence ?rows"
    by (induction rule: list_all2_induct) (simp_all add: row_to_record_indexes)
  moreover have "sorted (map lr_sequence ?rows)" using db(1) by (rule sorted_filter)
  moreover have "distinct (map lr_sequence ?rows)" using db(2) by (rule distinct_map_filter)
  ultimately show ?thesis by simp
qed

text \<open>C33: twin_accepts_ledger. What the release ledger reads for a scope is a history that the digital twin
  accepts, in whatever order the audit entries are presented: on every reachable database the
  twin's own chain check returns the records in ledger order, and the records it projects into the
  disclosure state are exactly those that the cumulative gate counts, pending reservations
  included and aborted ones left out.\<close>

theorem twin_accepts_ledger:
  assumes "reachable env ops now db" and "records_for_scope env db scope = Inr rs"
    and "mset entries = mset (map (audit_entry db) rs)"
  shows "\<exists>ordered. validate_and_order_history scope entries = Inr ordered \<and> map he_record ordered = rs
    \<and> active_history db rs = Inr (active_records ordered)"
proof -
  let ?seq = "\<lambda>e. dr_sequence (he_record e)" and ?ledger = "map (audit_entry db) rs"
  have ok: "records_ok env db" "journal_ok db" using reachable_ok [OF assms(1)] by (simp_all add: secure_ok_def ledger_ok_def)
  have seq: "map ?seq ?ledger = map dr_sequence rs" by simp
  have dist: "sorted (map ?seq ?ledger)" "distinct (map ?seq ?ledger)"
    using scope_sequences [OF ok(1) assms(2)] unfolding seq by blast+
  have set: "set entries = set ?ledger" using assms(3) by (rule mset_eq_setD)
  have "mset (map ?seq entries) = mset (map ?seq ?ledger)" by (simp only: mset_map [of ?seq] assms(3))
  then have "distinct (map ?seq entries)" using dist(2) by (metis mset_eq_imp_distinct_iff)
  then have entries: "distinct entries" "inj_on ?seq (set entries)" unfolding distinct_map by blast+
  have ledger: "distinct ?ledger" using dist(2) unfolding distinct_map [of ?seq] by (rule conjunct1)
  have sort: "sort_key ?seq entries = ?ledger"
    unfolding sort_key_distinct_cong [OF set entries(1) ledger entries(2)] by (rule sort_key_sorted [OF dist(1)])
  have "check_chain scope None rs = Inr ()" using assms(2) by (simp add: records_for_scope_Inr)
  then have "check_history scope None ?ledger = Inr ()" using check_history_records [of scope None ?ledger] by (auto simp: comp_def)
  moreover have "canonical (map ?seq ?ledger)" using dist unfolding canonical_iff by blast
  ultimately have "validate_and_order_history scope entries = Inr ?ledger"
    unfolding validate_and_order_history_def Let_def sort by (simp del: map_map)
  moreover have "active_history db rs = Inr (active_records ?ledger)"
    unfolding active_history_Inr [OF ok(2)] active_records_def
    by (simp add: filter_map comp_def audit_entry_live [OF ok(2)])
  ultimately show ?thesis by (intro exI [of _ ?ledger]) (simp add: comp_def)
qed

lemma twin_accepts_ledger_witness:
  "\<exists>ordered. validate_and_order_history sample_scope [audit_entry sample_pending sample_record_1] = Inr ordered
     \<and> active_records ordered = [sample_record_1]"
proof -
  have "active_history sample_pending [sample_record_1] = Inr [sample_record_1]"
    by (simp add: sample_pending_facts(2))
  with twin_accepts_ledger [OF sample_reachable sample_pending_facts(6), of "[audit_entry sample_pending sample_record_1]"]
  show ?thesis by auto
qed

end
